(* ===== verification/Go_Prelude.thy ===== *)
theory Go_Prelude
  imports Main "HOL-Library.Word" "HOL-Library.List_Lexorder" "HOL-Library.Multiset"
begin

section \<open>What the model uses of Go and its standard library\<close>

text \<open>
  Shared vocabulary of the development: bytes and big-endian encodings, byte-slice comparison,
  instants and durations, IP addresses, maps, bounded channels, binary search, shuffling, and the
  generic lemmas about them that the components use.

  Conventions. A Go \<^verbatim>\<open>byte\<close> is an \<open>8 word\<close>; a byte slice, a byte array and a string that
  carries binary data are byte lists; a string that carries text is a HOL string (its characters
  are bytes, as in Go). An instant is the number of nanoseconds since Go's zero time. Sizes that
  the configuration gives (bucket size, buffer sizes, limits) are naturals: all defaults of
  \<^verbatim>\<open>cmd/root.go\<close> are positive.
\<close>

unbundle bit_operations_syntax

named_theorems go_map \<open>lookup and size equations of Go maps\<close>
named_theorems bytes \<open>lengths and values of byte encodings\<close>
named_theorems wf_intros \<open>well-formedness introduction rules of the components\<close>

type_synonym byte = "8 word"

datatype panic = IndexOutOfRange | SliceOutOfRange | ClosedChannel | DivideByZero | NilDereference | LibraryPanic

type_synonym 'a outcome = "panic + 'a"


subsection \<open>Byte slices\<close>

text \<open>\<^verbatim>\<open>bytes.Compare\<close>: the sign of the lexicographic comparison.\<close>

fun bytes_compare :: "byte list \<Rightarrow> byte list \<Rightarrow> int" where
  "bytes_compare [] [] = 0"
| "bytes_compare [] (b # bs) = -1"
| "bytes_compare (a # as) [] = 1"
| "bytes_compare (a # as) (b # bs) =
     (if a < b then -1 else if b < a then 1 else bytes_compare as bs)"

lemma bytes_compare_less_iff: "bytes_compare a b < 0 \<longleftrightarrow> a < b"
  by (induction a b rule: bytes_compare.induct) auto

lemma bytes_compare_eq_iff: "bytes_compare a b = 0 \<longleftrightarrow> a = b"
  by (induction a b rule: bytes_compare.induct) auto

lemma bytes_compare_greater_iff: "0 < bytes_compare a b \<longleftrightarrow> b < a"
  by (induction a b rule: bytes_compare.induct) auto

lemma bytes_compare_ge_iff: "0 \<le> bytes_compare a b \<longleftrightarrow> b \<le> a"
  using bytes_compare_less_iff[of a b] by (simp add: not_less[symmetric])

lemmas bytes_compare_iffs =
  bytes_compare_less_iff bytes_compare_eq_iff bytes_compare_greater_iff bytes_compare_ge_iff

text \<open>An \<^verbatim>\<open>int64\<close> result: the value modulo 2 to the 64, in two's complement.\<close>

definition int64 :: "int \<Rightarrow> int" where
  "int64 x = sint (word_of_int x :: 64 word)"

text \<open>The conversion \<^verbatim>\<open>int32(n)\<close> keeps the low 32 bits.\<close>

definition int32 :: "int \<Rightarrow> int" where
  "int32 x = sint (word_of_int x :: 32 word)"

lemma int32_id: "- (2 ^ 31) \<le> n \<Longrightarrow> n < 2 ^ 31 \<Longrightarrow> int32 n = n"
  by (simp add: int32_def signed_of_int signed_take_bit_int_eq_self)

lemma int32_wraps: "int32 (n + 2 ^ 32) = int32 n"
proof -
  have "(word_of_int (n + 2 ^ 32) :: 32 word) = word_of_int n" by (simp add: word_of_int_eq_iff take_bit_eq_mod)
  then show ?thesis by (simp only: int32_def)
qed

text \<open>
  \<^verbatim>\<open>copy(dst, src)\<close> returns \<^verbatim>\<open>dst\<close> with its front overwritten by as many bytes of \<^verbatim>\<open>src\<close> as fit.
\<close>

definition go_copy :: "'a list \<Rightarrow> 'a list \<Rightarrow> 'a list" where
  "go_copy dst src = take (length dst) src @ drop (length src) dst"

lemma length_go_copy [simp]: "length (go_copy dst src) = length dst"
  by (simp add: go_copy_def)

lemma go_copy_same: "length dst = length src \<Longrightarrow> go_copy dst src = src"
  by (simp add: go_copy_def)


subsection \<open>Big-endian values\<close>

text \<open>The unsigned big-endian value of a byte slice.\<close>

fun be_val :: "byte list \<Rightarrow> nat" where
  "be_val [] = 0"
| "be_val (b # bs) = unat b * 256 ^ length bs + be_val bs"

text \<open>
  \<^verbatim>\<open>binary.BigEndian.PutUintN\<close>: the bytes \<^verbatim>\<open>byte(v >> (8*(n-1-i)))\<close>, and \<^verbatim>\<open>UintN\<close> back.
\<close>

definition put_be :: "nat \<Rightarrow> 'a::len word \<Rightarrow> byte list" where
  "put_be n v = map (\<lambda>i. ucast (drop_bit (8 * (n - 1 - i)) v)) [0..<n]"

definition get_be :: "byte list \<Rightarrow> 'a::len word" where
  "get_be bs = word_of_nat (be_val bs)"

lemma length_put_be [simp, bytes]: "length (put_be n v) = n"
  by (simp add: put_be_def)

lemma unat_byte_less [simp]: "unat (b::byte) < 256"
  using unsigned_less[of b, where ?'a = nat] by simp

lemma be_val_less: "be_val bs < 256 ^ length bs"
proof (induction bs)
  case (Cons b bs)
  have "unat b * 256 ^ length bs + be_val bs < unat b * 256 ^ length bs + 256 ^ length bs"
    using Cons.IH by simp
  also have "\<dots> = (unat b + 1) * 256 ^ length bs" by (simp add: algebra_simps)
  also have "\<dots> \<le> 256 * 256 ^ length bs"
    using Suc_leI[OF unat_byte_less[of b]] by (intro mult_right_mono) simp_all
  finally show ?case by simp
qed simp

lemma be_val_append: "be_val (as @ bs) = be_val as * 256 ^ length bs + be_val bs"
  by (induction as) (auto simp: power_add algebra_simps)

lemma be_val_replicate_0 [simp]: "be_val (replicate n 0) = 0"
  by (induction n) auto

lemma unat_ucast_byte: "unat (ucast (v :: 'a::len word) :: byte) = unat v mod 256"
  by (simp add: unsigned_ucast_eq take_bit_eq_mod)

lemma put_be_Suc:
  "put_be (Suc n) v = ucast (drop_bit (8 * n) v) # put_be n v"
proof -
  have "put_be (Suc n) v = map (\<lambda>i. ucast (drop_bit (8 * (n - i)) v)) (0 # map Suc [0..<n])"
    by (simp add: put_be_def upt_conv_Cons map_Suc_upt del: upt_Suc)
  also have "\<dots> = ucast (drop_bit (8 * n) v) # map (\<lambda>i. ucast (drop_bit (8 * (n - 1 - i)) v)) [0..<n]"
    by simp
  finally show ?thesis by (simp add: put_be_def)
qed

lemma put_be_0 [simp]: "put_be 0 v = []"
  by (simp add: put_be_def)

lemma be_val_put_be: "be_val (put_be n v) = unat v mod 256 ^ n"
proof (induction n)
  case (Suc n)
  have shift: "unat (drop_bit (8 * n) v) = unat v div 256 ^ n"
    using unat_drop_bit_eq[of "8 * n" v] drop_bit_eq_div[of "8 * n" "unat v"]
    by (simp only: power_mult) simp
  have "be_val (put_be (Suc n) v) = (unat v div 256 ^ n) mod 256 * 256 ^ n + unat v mod 256 ^ n"
    by (simp add: put_be_Suc unat_ucast_byte shift Suc.IH)
  also have "\<dots> = unat v mod (256 ^ n * 256)"
    by (metis mod_mult2_eq mult.commute)
  finally show ?case by (simp add: mult.commute)
qed simp

lemma get_put_be:
  fixes v :: "'a::len word"
  assumes "LENGTH('a) \<le> 8 * n"
  shows "get_be (put_be n v) = v"
proof -
  have "unat v < 2 ^ LENGTH('a)" by simp
  also have "\<dots> \<le> 2 ^ (8 * n)" using assms by (simp add: power_increasing)
  also have "\<dots> = 256 ^ n" by (simp add: power_mult)
  finally show ?thesis by (simp add: get_be_def be_val_put_be)
qed

lemma be_val_inject: "length as = length bs \<Longrightarrow> be_val as = be_val bs \<Longrightarrow> as = bs"
proof (induction as bs rule: list_induct2)
  case (Cons a as b bs)
  let ?p = "256 ^ length bs :: nat"
  have eq: "unat a * ?p + be_val as = unat b * ?p + be_val bs"
    using Cons.prems Cons.hyps by simp
  have la: "be_val as < ?p" and lb: "be_val bs < ?p"
    using be_val_less[of as] be_val_less[of bs] Cons.hyps by auto
  have "(unat a * ?p + be_val as) div ?p = unat a" using la by simp
  moreover have "(unat b * ?p + be_val bs) div ?p = unat b" using lb by simp
  ultimately have "unat a = unat b" using eq by simp
  then show ?case using eq Cons.IH by (simp add: word_unat_eq_iff)
qed simp

lemma unat_get_be:
  assumes "8 * length bs \<le> LENGTH('a::len)"
  shows "unat (get_be bs :: 'a word) = be_val bs"
proof -
  have "be_val bs < 256 ^ length bs" by (rule be_val_less)
  also have "\<dots> = 2 ^ (8 * length bs)" by (simp add: power_mult)
  also have "\<dots> \<le> 2 ^ LENGTH('a)" using assms by (simp add: power_increasing)
  finally show ?thesis by (simp add: get_be_def unat_of_nat)
qed

lemma put_get_be:
  assumes "length bs = n" and "8 * n \<le> LENGTH('a::len)"
  shows "put_be n (get_be bs :: 'a word) = bs"
proof (rule be_val_inject)
  show "length (put_be n (get_be bs :: 'a word)) = length bs" using assms by simp
  show "be_val (put_be n (get_be bs :: 'a word)) = be_val bs"
    using assms be_val_less[of bs] by (simp add: be_val_put_be unat_get_be)
qed

text \<open>Lexicographic order on equally long byte slices is numeric order.\<close>

lemma less_be_val: "length as = length bs \<Longrightarrow> as < bs \<longleftrightarrow> be_val as < be_val bs"
proof (induction as bs rule: list_induct2)
  case (Cons a as b bs)
  let ?p = "256 ^ length bs :: nat"
  have la: "be_val as < ?p" and lb: "be_val bs < ?p"
    using be_val_less[of as] be_val_less[of bs] Cons.hyps by auto
  consider "unat a < unat b" | "unat a = unat b" | "unat b < unat a" by linarith
  then show ?case
  proof cases
    case 1
    then have "unat a + 1 \<le> unat b" by simp
    then have "(unat a + 1) * ?p \<le> unat b * ?p" by (rule mult_right_mono) simp
    then have "unat a * ?p + be_val as < unat b * ?p + be_val bs" using la by simp
    then show ?thesis using 1 Cons.hyps by (simp add: word_less_nat_alt)
  next
    case 2
    then show ?thesis using Cons by (simp add: word_unat_eq_iff[symmetric])
  next
    case 3
    then have "unat b + 1 \<le> unat a" by simp
    then have "(unat b + 1) * ?p \<le> unat a * ?p" by (rule mult_right_mono) simp
    then have "unat b * ?p + be_val bs < unat a * ?p + be_val as" using lb by simp
    then show ?thesis using 3 Cons.hyps by (auto simp: word_less_nat_alt)
  qed
qed simp

lemma le_be_val: "length as = length bs \<Longrightarrow> as \<le> bs \<longleftrightarrow> be_val as \<le> be_val bs"
  using less_be_val[of bs as] by (simp add: not_less[symmetric])


subsection \<open>Instants and durations\<close>

type_synonym instant = int
type_synonym duration = int

abbreviation second :: duration where "second \<equiv> 1000000000"
abbreviation minute :: duration where "minute \<equiv> 60 * second"
abbreviation hour :: duration where "hour \<equiv> 60 * minute"

text \<open>\<^verbatim>\<open>t.Sub(u)\<close>: the difference, saturated to a signed 64-bit number of nanoseconds.\<close>

definition time_sub :: "instant \<Rightarrow> instant \<Rightarrow> duration" where
  "time_sub t u = max (- (2 ^ 63)) (min (2 ^ 63 - 1) (t - u))"

text \<open>\<^verbatim>\<open>time.Since(t)\<close> at instant \<open>now\<close>.\<close>

definition since :: "instant \<Rightarrow> instant \<Rightarrow> duration" where
  "since now t = time_sub now t"

lemma since_self [simp]: "since t t = 0"
  by (simp add: since_def time_sub_def)

lemma since_less_iff:
  "- (2 ^ 63) < d \<Longrightarrow> d \<le> 2 ^ 63 - 1 \<Longrightarrow> since now t < d \<longleftrightarrow> now - t < d"
  by (auto simp: since_def time_sub_def)


subsection \<open>IP addresses\<close>

text \<open>\<^verbatim>\<open>net.IP\<close>: 4 bytes, 16 bytes, or nil (the empty slice); \<^verbatim>\<open>To4\<close> and \<^verbatim>\<open>Equal\<close>.\<close>

type_synonym ip = "byte list"

definition v4_in_v6_prefix :: "byte list" where
  "v4_in_v6_prefix = [0,0,0,0,0,0,0,0,0,0,255,255]"

definition to4 :: "ip \<Rightarrow> ip option" where
  "to4 a = (if length a = 4 then Some a
            else if length a = 16 \<and> take 12 a = v4_in_v6_prefix then Some (drop 12 a)
            else None)"

definition ip_equal :: "ip \<Rightarrow> ip \<Rightarrow> bool" where
  "ip_equal a b =
     (if length a = length b then a = b
      else if length a = 4 \<and> length b = 16 then take 12 b = v4_in_v6_prefix \<and> a = drop 12 b
      else if length a = 16 \<and> length b = 4 then take 12 a = v4_in_v6_prefix \<and> drop 12 a = b
      else False)"

text \<open>
  \<^verbatim>\<open>ip.String()\<close> as a map key: the text of an address determines it up to the 4-in-6 form, so
  the model uses the shorter of the two byte forms as the key.
\<close>

definition ip_key :: "ip \<Rightarrow> ip" where
  "ip_key a = (case to4 a of Some v \<Rightarrow> v | None \<Rightarrow> a)"

lemma length_to4: "to4 a = Some v \<Longrightarrow> length v = 4"
  by (auto simp: to4_def split: if_splits)

lemma to4_v4 [simp]: "length a = 4 \<Longrightarrow> to4 a = Some a"
  by (simp add: to4_def)

lemma ip_equal_key: "ip_equal a b \<longleftrightarrow> ip_key a = ip_key b"
proof -
  have inj: "take 12 a = take 12 b \<Longrightarrow> drop 12 a = drop 12 b \<Longrightarrow> a = b"
    by (metis append_take_drop_id)
  show ?thesis
    by (auto simp: ip_equal_def ip_key_def to4_def intro: inj split: option.splits if_splits)
qed

lemma ip_equal_refl [simp]: "ip_equal a a"
  by (simp add: ip_equal_def)

text \<open>A UDP or TCP address (\<^verbatim>\<open>net.UDPAddr\<close>, \<^verbatim>\<open>net.TCPAddr\<close>).\<close>

record addr =
  ip :: ip
  port :: int


subsection \<open>Maps\<close>

text \<open>
  A Go map is an association list without duplicate keys: the order of its entries is the order a
  range loop visits them in, which Go leaves open, so no property depends on it.
\<close>

type_synonym ('k, 'v) gomap = "('k \<times> 'v) list"

abbreviation map_get :: "('k, 'v) gomap \<Rightarrow> 'k \<Rightarrow> 'v option" where
  "map_get m k \<equiv> map_of m k"

fun map_set :: "'k \<Rightarrow> 'v \<Rightarrow> ('k, 'v) gomap \<Rightarrow> ('k, 'v) gomap" where
  "map_set k v [] = [(k, v)]"
| "map_set k v ((k', v') # m) = (if k' = k then (k, v) # m else (k', v') # map_set k v m)"

definition map_del :: "'k \<Rightarrow> ('k, 'v) gomap \<Rightarrow> ('k, 'v) gomap" where
  "map_del k m = filter (\<lambda>(k', v). k' \<noteq> k) m"

definition map_keys :: "('k, 'v) gomap \<Rightarrow> 'k list" where
  "map_keys m = map fst m"

definition wf_map :: "('k, 'v) gomap \<Rightarrow> bool" where
  "wf_map m \<longleftrightarrow> distinct (map_keys m)"

lemma map_get_set [go_map]: "map_get (map_set k v m) = (map_get m)(k \<mapsto> v)"
  by (induction k v m rule: map_set.induct) auto

lemma map_get_del [go_map]: "map_get (map_del k m) = (map_get m)(k := None)"
  by (rule ext, induction m) (auto simp: map_del_def)

lemma map_keys_set [go_map]: "set (map_keys (map_set k v m)) = insert k (set (map_keys m))"
  by (induction k v m rule: map_set.induct) (auto simp: map_keys_def)

lemma map_keys_del [go_map]: "set (map_keys (map_del k m)) = set (map_keys m) - {k}"
  by (auto simp: map_keys_def map_del_def)

lemma set_map_set: "set (map_set k v m) \<subseteq> insert (k, v) (set m)"
  by (induction k v m rule: map_set.induct) auto

lemma set_map_del: "set (map_del k m) \<subseteq> set m"
  by (auto simp: map_del_def)

lemma map_get_None_keys: "map_get m k = None \<longleftrightarrow> k \<notin> set (map_keys m)"
  by (simp add: map_keys_def map_of_eq_None_iff)

lemma map_get_Some_keys: "map_get m k = Some v \<Longrightarrow> k \<in> set (map_keys m)"
  by (metis map_get_None_keys option.discI)

lemma wf_map_Nil [simp, wf_intros]: "wf_map []"
  by (simp add: wf_map_def map_keys_def)

lemma wf_map_set [wf_intros]: "wf_map m \<Longrightarrow> wf_map (map_set k v m)"
  unfolding wf_map_def
proof (induction k v m rule: map_set.induct)
  case (2 k v k' v' m)
  then show ?case using map_keys_set[of k v m] by (auto simp: map_keys_def)
qed (simp add: map_keys_def)

lemma wf_map_del [wf_intros]: "wf_map m \<Longrightarrow> wf_map (map_del k m)"
  unfolding wf_map_def map_keys_def map_del_def by (rule distinct_map_filter)

lemma wf_map_filter [wf_intros]: "wf_map m \<Longrightarrow> wf_map (filter P m)"
  unfolding wf_map_def map_keys_def by (rule distinct_map_filter)

lemma length_map_set:
  "length (map_set k v m) = (if map_get m k = None then Suc (length m) else length m)"
  by (induction k v m rule: map_set.induct) auto

lemma map_del_absent: "map_get m k = None \<Longrightarrow> map_del k m = m"
  unfolding map_del_def by (rule filter_True) (auto simp: map_of_eq_None_iff image_iff)

lemma length_map_del:
  "wf_map m \<Longrightarrow> length (map_del k m) = (if map_get m k = None then length m else length m - 1)"
proof (induction m)
  case (Cons e m)
  obtain k' v' where e: "e = (k', v')" by force
  have wf: "wf_map m" and notin: "k' \<notin> set (map_keys m)"
    using Cons.prems e by (auto simp: wf_map_def map_keys_def)
  show ?case
  proof (cases "k' = k")
    case True
    then have "map_get m k = None" using notin by (simp add: map_get_None_keys)
    then show ?thesis using True e map_del_absent[of m k] by (simp add: map_del_def)
  next
    case False
    show ?thesis
    proof (cases "map_get m k")
      case None
      then show ?thesis using False e map_del_absent[of m k] by (simp add: map_del_def)
    next
      case (Some v)
      then have "m \<noteq> []" by auto
      then show ?thesis using False e Cons.IH[OF wf] Some by (simp add: map_del_def)
    qed
  qed
qed (simp add: map_del_def)

lemma length_keys [simp]: "length (map_keys m) = length m"
  by (simp add: map_keys_def)

lemma map_get_filter:
  "wf_map m \<Longrightarrow> map_get (filter (\<lambda>(k, v). P k v) m) k =
     (case map_get m k of None \<Rightarrow> None | Some v \<Rightarrow> if P k v then Some v else None)"
proof (induction m)
  case (Cons e m)
  obtain k' v' where e: "e = (k', v')" by force
  have wf: "wf_map m" and notin: "k' \<notin> set (map_keys m)"
    using Cons.prems e by (auto simp: wf_map_def map_keys_def)
  then have "k = k' \<Longrightarrow> map_get m k = None" by (simp add: map_get_None_keys)
  then show ?case using Cons.IH[OF wf] e by (auto split: option.splits)
qed simp


subsection \<open>Channels\<close>

text \<open>
  A buffered channel is its capacity and its queued messages, oldest first. The code sends with
  \<^verbatim>\<open>select { case ch <- m: default: }\<close>, which drops the message when the buffer is full.
\<close>

record 'm chan =
  cap :: nat
  queued :: "'m list"

definition chan_make :: "nat \<Rightarrow> 'm chan" where
  "chan_make n = \<lparr>cap = n, queued = []\<rparr>"

definition chan_try_send :: "'m \<Rightarrow> 'm chan \<Rightarrow> 'm chan option" where
  "chan_try_send m c = (if length (queued c) < cap c then Some (c\<lparr>queued := queued c @ [m]\<rparr>) else None)"

definition wf_chan :: "'m chan \<Rightarrow> bool" where
  "wf_chan c \<longleftrightarrow> length (queued c) \<le> cap c"

lemma wf_chan_make [simp, wf_intros]: "wf_chan (chan_make n)"
  by (simp add: wf_chan_def chan_make_def)

lemma wf_chan_try_send [wf_intros]: "chan_try_send m c = Some c' \<Longrightarrow> wf_chan c'"
  by (auto simp: chan_try_send_def wf_chan_def split: if_splits)


subsection \<open>Sorting and searching\<close>

text \<open>\<^verbatim>\<open>sort.Search(n, f)\<close>: bisection of \<open>[i, j)\<close>.\<close>

function search_between :: "nat \<Rightarrow> nat \<Rightarrow> (nat \<Rightarrow> bool) \<Rightarrow> nat" where
  "search_between i j f =
     (if i < j then let h = (i + j) div 2 in
        if f h then search_between i h f else search_between (Suc h) j f
      else i)"
  by pat_completeness auto
termination
  by (relation "measure (\<lambda>(i, j, f). j - i)") auto

declare search_between.simps [simp del]

definition sort_search :: "nat \<Rightarrow> (nat \<Rightarrow> bool) \<Rightarrow> nat" where
  "sort_search n f = search_between 0 n f"

lemma search_between_spec:
  assumes mono: "\<And>a b. f a \<Longrightarrow> a \<le> b \<Longrightarrow> b < n \<Longrightarrow> f b"
  shows "i \<le> j \<Longrightarrow> j \<le> n \<Longrightarrow> (\<And>a. a < i \<Longrightarrow> \<not> f a) \<Longrightarrow> (\<And>a. j \<le> a \<Longrightarrow> a < n \<Longrightarrow> f a) \<Longrightarrow>
    search_between i j f \<le> n \<and> (\<forall>a < search_between i j f. \<not> f a) \<and>
    (\<forall>a. search_between i j f \<le> a \<and> a < n \<longrightarrow> f a)"
  using mono
proof (induction i j f rule: search_between.induct)
  case (1 i j f)
  show ?case
  proof (cases "i < j")
    case True
    define h where "h = (i + j) div 2"
    have h: "i \<le> h" "h < j" "Suc h \<le> j" using True by (auto simp: h_def)
    show ?thesis
    proof (cases "f h")
      case fh: True
      have step: "search_between i j f = search_between i h f"
        using True fh by (simp add: search_between.simps[of i j f] h_def)
      show ?thesis unfolding step
        by (rule "1.IH"(1)[OF True h_def fh h(1) _ "1.prems"(3) _ "1.prems"(5)])
          (use "1.prems" h fh in \<open>auto intro: "1.prems"(5)[OF fh]\<close>)
    next
      case fh: False
      have step: "search_between i j f = search_between (Suc h) j f"
        using True fh by (simp add: search_between.simps[of i j f] h_def)
      have low: "\<not> f a" if "a < Suc h" for a
        using that fh "1.prems"(2) h "1.prems"(5)[of a h] by auto
      show ?thesis unfolding step
        by (rule "1.IH"(2)[OF True h_def fh h(3) "1.prems"(2) low "1.prems"(4,5)])
    qed
  next
    case False
    then have "search_between i j f = i" by (simp add: search_between.simps[of i j f])
    then show ?thesis using "1.prems"(1-4) False by simp
  qed
qed

text \<open>On a monotone predicate the result is the least index that satisfies it, or \<open>n\<close>.\<close>

lemma sort_search_spec:
  assumes "\<And>a b. f a \<Longrightarrow> a \<le> b \<Longrightarrow> b < n \<Longrightarrow> f b"
  shows "sort_search n f \<le> n" "a < sort_search n f \<Longrightarrow> \<not> f a"
    "sort_search n f \<le> a \<Longrightarrow> a < n \<Longrightarrow> f a"
proof -
  have "search_between 0 n f \<le> n \<and> (\<forall>a < search_between 0 n f. \<not> f a) \<and>
      (\<forall>a. search_between 0 n f \<le> a \<and> a < n \<longrightarrow> f a)"
    by (rule search_between_spec[OF assms]) simp_all
  then show "sort_search n f \<le> n" "a < sort_search n f \<Longrightarrow> \<not> f a"
    "sort_search n f \<le> a \<Longrightarrow> a < n \<Longrightarrow> f a"
    unfolding sort_search_def by simp_all
qed

text \<open>
  \<^verbatim>\<open>sort.Slice\<close> leaves the order of equal keys open. Where the keys are distinct its result is the
  only sorted permutation, which \<open>sort_key\<close> computes.
\<close>

lemma sort_key_unique:
  assumes "mset ys = mset xs" and "sorted (map f ys)" and "inj_on f (set xs)"
  shows "ys = sort_key f xs"
  using sort_key_inj_key_eq[OF assms(1)[symmetric] assms(3,2)] by simp

lemma distinct_map_sort_key: "distinct (map f xs) \<Longrightarrow> distinct (map f (sort_key g xs))"
  by (metis distinct_map distinct_sort set_sort)

text \<open>
  \<^verbatim>\<open>rand.Shuffle\<close>: Fisher-Yates from the back; the random numbers are the argument \<open>rnd\<close>.
\<close>

definition swap_at :: "nat \<Rightarrow> nat \<Rightarrow> 'a list \<Rightarrow> 'a list" where
  "swap_at i j xs = (xs[i := xs ! j])[j := xs ! i]"

fun shuffle_from :: "(nat \<Rightarrow> nat) \<Rightarrow> nat \<Rightarrow> 'a list \<Rightarrow> 'a list" where
  "shuffle_from rnd 0 xs = xs"
| "shuffle_from rnd (Suc i) xs = shuffle_from rnd i (swap_at (Suc i) (rnd (Suc i) mod (Suc i + 1)) xs)"

definition go_shuffle :: "(nat \<Rightarrow> nat) \<Rightarrow> 'a list \<Rightarrow> 'a list" where
  "go_shuffle rnd xs = shuffle_from rnd (length xs - 1) xs"

lemma mset_swap_at: "i < length xs \<Longrightarrow> j < length xs \<Longrightarrow> mset (swap_at i j xs) = mset xs"
  unfolding swap_at_def by (rule mset_swap)

lemma length_swap_at [simp]: "length (swap_at i j xs) = length xs"
  by (simp add: swap_at_def)

lemma mset_shuffle_from: "i < length xs \<Longrightarrow> mset (shuffle_from rnd i xs) = mset xs"
proof (induction rnd i xs rule: shuffle_from.induct)
  case (2 rnd i xs)
  have "rnd (Suc i) mod (Suc i + 1) < length xs"
    using "2.prems" mod_less_divisor[of "Suc i + 1" "rnd (Suc i)"] by linarith
  then show ?case using 2 by (simp add: mset_swap_at)
qed simp

lemma mset_go_shuffle [simp]: "mset (go_shuffle rnd xs) = mset xs"
proof (cases xs)
  case Nil
  then show ?thesis by (simp add: go_shuffle_def)
next
  case Cons
  then show ?thesis unfolding go_shuffle_def by (intro mset_shuffle_from) simp
qed

lemma length_go_shuffle [simp]: "length (go_shuffle rnd xs) = length xs"
  by (metis mset_go_shuffle size_mset)

lemma set_go_shuffle [simp]: "set (go_shuffle rnd xs) = set xs"
  by (metis mset_go_shuffle set_mset_mset)

lemma distinct_go_shuffle [simp]: "distinct (go_shuffle rnd xs) = distinct xs"
  by (metis mset_eq_imp_distinct_iff mset_go_shuffle)


subsection \<open>Lists and results\<close>

text \<open>Update the first element that satisfies a predicate (the body of a search loop).\<close>

fun update_first :: "('a \<Rightarrow> bool) \<Rightarrow> ('a \<Rightarrow> 'a) \<Rightarrow> 'a list \<Rightarrow> 'a list" where
  "update_first P f [] = []"
| "update_first P f (x # xs) = (if P x then f x # xs else x # update_first P f xs)"

lemma length_update_first [simp]: "length (update_first P f xs) = length xs"
  by (induction P f xs rule: update_first.induct) auto

lemma update_first_Nil_iff [simp]: "update_first P f xs = [] \<longleftrightarrow> xs = []"
  by (cases xs) auto

lemma map_update_first: "(\<And>x. g (f x) = g x) \<Longrightarrow> map g (update_first P f xs) = map g xs"
  by (induction P f xs rule: update_first.induct) auto

lemma set_update_first: "y \<in> set (update_first P f xs) \<Longrightarrow> y \<in> set xs \<or> (\<exists>x \<in> set xs. P x \<and> y = f x)"
  by (induction P f xs rule: update_first.induct) (auto split: if_splits)

lemma list_all_map_iff: "list_all P xs \<longleftrightarrow> (\<forall>x. x \<in> set xs \<longrightarrow> P x)"
  by (auto simp: list_all_iff)

text \<open>Remove the first element that satisfies a predicate.\<close>

fun remove_first :: "('a \<Rightarrow> bool) \<Rightarrow> 'a list \<Rightarrow> 'a list" where
  "remove_first P [] = []"
| "remove_first P (x # xs) = (if P x then xs else x # remove_first P xs)"

lemma set_remove_first_subset: "set (remove_first P xs) \<subseteq> set xs"
  by (induction P xs rule: remove_first.induct) auto

lemma length_remove_first:
  "length (remove_first P xs) = (if list_ex P xs then length xs - 1 else length xs)"
proof (induction P xs rule: remove_first.induct)
  case (2 P x xs)
  then show ?case by (cases xs) auto
qed simp

lemma distinct_remove_first: "distinct (map f xs) \<Longrightarrow> distinct (map f (remove_first P xs))"
  by (induction P xs rule: remove_first.induct)
     (use set_remove_first_subset in \<open>fastforce+\<close>)

lemma set_remove_first_key:
  "distinct (map f xs) \<Longrightarrow> set (remove_first (\<lambda>x. f x = k) xs) = {x \<in> set xs. f x \<noteq> k}"
proof (induction xs)
  case (Cons x xs)
  show ?case
  proof (cases "f x = k")
    case True
    then have "f y \<noteq> k" if "y \<in> set xs" for y
      using Cons.prems that by (metis distinct.simps(2) image_eqI list.set_map list.simps(9))
    then show ?thesis using True by auto
  next
    case False
    then show ?thesis using Cons by auto
  qed
qed simp


subsection \<open>Components as machines\<close>

text \<open>
  A component guarded by a lock executes its operations one after another. This is the contract
  they share: every admissible operation keeps the component's invariant. Then every sequence of
  operations does, in whatever order the callers interleave them.
\<close>

locale machine =
  fixes step :: "'op \<Rightarrow> 's \<Rightarrow> 's"
    and inv :: "'s \<Rightarrow> bool"
    and admissible :: "'op \<Rightarrow> bool"
  assumes step_inv: "inv s \<Longrightarrow> admissible a \<Longrightarrow> inv (step a s)"
begin

lemma run_inv: "inv s \<Longrightarrow> list_all admissible as \<Longrightarrow> inv (fold step as s)"
  by (induction as arbitrary: s) (auto intro: step_inv)

lemma run_prefix_inv: "inv s \<Longrightarrow> list_all admissible (as @ bs) \<Longrightarrow> inv (fold step as s)"
  by (auto intro: run_inv)

end

end
