(* ===== verification/Node_Id.thy ===== *)
theory Node_Id
  imports Go_Prelude
begin

section \<open>Node identifiers (\<^verbatim>\<open>dht/table/nodeid.go\<close>)\<close>

text \<open>
  160-bit DHT identifiers as 20 bytes, most significant first: the XOR metric, the common prefix,
  the hexadecimal and raw encodings, and the BEP-42 link between an identifier and an IPv4 address
  (with the CRC-32C checksum it is computed from).
\<close>

type_synonym node_id = "byte list"

definition wf_id :: "node_id \<Rightarrow> bool" where
  "wf_id i \<longleftrightarrow> length i = 20"

definition zero_id :: node_id where
  "zero_id = replicate 20 0"

lemma wf_zero_id [simp, wf_intros]: "wf_id zero_id"
  by (simp add: wf_id_def zero_id_def)

lemma be_val_zero_id [simp]: "be_val zero_id = 0"
  by (simp add: zero_id_def)

text \<open>The number of identifiers; kept folded so that simplification does not expand it.\<close>

definition keyspace :: nat where
  "keyspace = 2 ^ 160"

lemma keyspace_pos [simp]: "0 < keyspace" "keyspace \<noteq> 0"
  by (simp_all add: keyspace_def)

lemma be_val_id_less: "wf_id i \<Longrightarrow> be_val i < keyspace"
  using be_val_less[of i] by (simp add: wf_id_def keyspace_def)

lemma be_val_id_inject: "wf_id a \<Longrightarrow> wf_id b \<Longrightarrow> be_val a = be_val b \<Longrightarrow> a = b"
  by (simp add: wf_id_def be_val_inject)

lemma less_id_be_val: "wf_id a \<Longrightarrow> wf_id b \<Longrightarrow> a < b \<longleftrightarrow> be_val a < be_val b"
  by (simp add: wf_id_def less_be_val)

lemma le_id_be_val: "wf_id a \<Longrightarrow> wf_id b \<Longrightarrow> a \<le> b \<longleftrightarrow> be_val a \<le> be_val b"
  by (simp add: wf_id_def le_be_val)


subsection \<open>The XOR metric\<close>

definition xor_id :: "node_id \<Rightarrow> node_id \<Rightarrow> node_id" where
  "xor_id a b = map2 (XOR) a b"

definition less_id :: "node_id \<Rightarrow> node_id \<Rightarrow> bool" where
  "less_id a b \<longleftrightarrow> bytes_compare a b < 0"

text \<open>\<^verbatim>\<open>bits.LeadingZeros8\<close> and the scan of \<^verbatim>\<open>CommonPrefixLen\<close> from byte \<open>i\<close> on.\<close>

definition leading_zeros8 :: "byte \<Rightarrow> nat" where
  "leading_zeros8 b = length (takeWhile (\<lambda>k. \<not> bit b k) [7, 6, 5, 4, 3, 2, 1, 0])"

fun prefix_scan :: "nat \<Rightarrow> byte list \<Rightarrow> nat" where
  "prefix_scan i [] = 160"
| "prefix_scan i (b # bs) = (if b \<noteq> 0 then i * 8 + leading_zeros8 b else prefix_scan (i + 1) bs)"

definition common_prefix_len :: "node_id \<Rightarrow> node_id \<Rightarrow> nat" where
  "common_prefix_len a b = prefix_scan 0 (xor_id a b)"

lemma length_xor_id [simp]: "length (xor_id a b) = min (length a) (length b)"
  by (simp add: xor_id_def)

lemma wf_xor_id [wf_intros]: "wf_id a \<Longrightarrow> wf_id b \<Longrightarrow> wf_id (xor_id a b)"
  by (simp add: wf_id_def)

lemma xor_id_nth: "k < length a \<Longrightarrow> k < length b \<Longrightarrow> xor_id a b ! k = a ! k XOR b ! k"
  by (simp add: xor_id_def)

lemma xor_id_commute: "xor_id a b = xor_id b a"
  by (rule nth_equalityI) (auto simp: xor_id_nth xor.commute)

lemma xor_id_cancel:
  assumes "length t = length a" and "length t = length b" and "xor_id t a = xor_id t b"
  shows "a = b"
proof (rule nth_equalityI)
  fix k assume "k < length a"
  then have "t ! k XOR a ! k = t ! k XOR b ! k"
    using assms xor_id_nth[of k t a] xor_id_nth[of k t b] by simp
  then have "t ! k XOR (t ! k XOR a ! k) = t ! k XOR (t ! k XOR b ! k)" by simp
  then show "a ! k = b ! k" by (simp flip: xor.assoc)
qed (use assms in simp)

lemma xor_id_self: "xor_id a a = replicate (length a) 0"
  by (rule nth_equalityI) (auto simp: xor_id_nth)

lemma xor_id_eq_zero_iff:
  assumes "wf_id a" and "wf_id b"
  shows "xor_id a b = zero_id \<longleftrightarrow> a = b"
proof
  assume "xor_id a b = zero_id"
  then have "xor_id a b = xor_id a a" using assms by (simp add: xor_id_self wf_id_def zero_id_def)
  then show "a = b" using assms xor_id_cancel[of a b a] by (simp add: wf_id_def)
qed (use assms in \<open>simp add: xor_id_self wf_id_def zero_id_def\<close>)

lemma xor_id_compose:
  assumes "length a = length b" and "length b = length c"
  shows "xor_id a c = xor_id (xor_id a b) (xor_id b c)"
proof (rule nth_equalityI)
  fix k assume "k < length (xor_id a c)"
  then show "xor_id a c ! k = xor_id (xor_id a b) (xor_id b c) ! k"
    using assms by (simp add: xor_id_nth) (metis xor.assoc xor.left_neutral xor_self_eq)
qed (use assms in simp)

lemma unat_xor_le: "unat ((a::byte) XOR b) \<le> unat a + unat b"
proof -
  have "a XOR b = (a OR b) AND NOT (a AND b)"
    by (rule bit_word_eqI) (auto simp: bit_simps)
  then have "unat (a XOR b) \<le> unat (a OR b)"
    using word_and_le2[of "a OR b" "NOT (a AND b)"] by (simp add: word_le_nat_alt and.commute)
  also have "unat (a OR b) \<le> unat a + unat b"
  proof -
    have "0 \<le> uint a AND uint b" by simp
    then have "uint a OR uint b \<le> uint a + uint b"
      using plus_and_or[of "uint a" "uint b"] by linarith
    then have "uint (a OR b) \<le> uint a + uint b" by (simp add: unsigned_or_eq)
    then have "int (unat (a OR b)) \<le> int (unat a + unat b)" by simp
    then show ?thesis by (simp only: of_nat_le_iff)
  qed
  finally show ?thesis .
qed

lemma be_val_xor_le: "length a = length b \<Longrightarrow> be_val (xor_id a b) \<le> be_val a + be_val b"
proof (induction a b rule: list_induct2)
  case (Cons a as b bs)
  let ?p = "256 ^ length bs :: nat"
  have "unat (a XOR b) * ?p \<le> (unat a + unat b) * ?p"
    by (rule mult_right_mono[OF unat_xor_le]) simp
  then have "unat (a XOR b) * ?p + be_val (xor_id as bs)
      \<le> (unat a + unat b) * ?p + (be_val as + be_val bs)"
    using Cons.IH by (rule add_mono)
  then show ?case using Cons.hyps by (simp add: xor_id_def algebra_simps)
qed (simp add: xor_id_def)

text \<open>Leading zeros bound a byte from both sides; the proof looks at all 256 bytes.\<close>

lemma leading_zeros8_bounds:
  "b \<noteq> 0 \<Longrightarrow> leading_zeros8 b < 8 \<and> 2 ^ (7 - leading_zeros8 b) \<le> unat b \<and>
     unat b < 2 ^ (8 - leading_zeros8 b)"
proof -
  have all: "\<forall>n \<in> set [1..<256]. leading_zeros8 (word_of_nat n) < 8 \<and>
      2 ^ (7 - leading_zeros8 (word_of_nat n)) \<le> n \<and> n < 2 ^ (8 - leading_zeros8 (word_of_nat n))"
    by code_simp
  assume "b \<noteq> 0"
  then have "unat b \<in> set [1..<256]"
    by (simp add: Suc_le_eq unat_gt_0)
  moreover have "word_of_nat (unat b) = b" by simp
  ultimately show ?thesis using all by metis
qed

lemma leading_zeros8_less:
  assumes "b \<noteq> 0" and "c \<noteq> 0" and "leading_zeros8 c < leading_zeros8 b"
  shows "b < c"
proof -
  have "unat b < 2 ^ (8 - leading_zeros8 b)" using leading_zeros8_bounds[OF assms(1)] by simp
  also have "\<dots> \<le> 2 ^ (7 - leading_zeros8 c)" using assms(3) by (intro power_increasing) auto
  also have "\<dots> \<le> unat c" using leading_zeros8_bounds[OF assms(2)] by simp
  finally show ?thesis by (simp add: word_less_nat_alt)
qed

lemma prefix_scan_range:
  "length bs = 20 - i \<Longrightarrow> i \<le> 20 \<Longrightarrow> i * 8 \<le> prefix_scan i bs \<and> prefix_scan i bs \<le> 160"
proof (induction i bs rule: prefix_scan.induct)
  case (2 i b bs)
  then show ?case using leading_zeros8_bounds[of b] by (cases "b = 0") force+
qed simp

lemma prefix_scan_less:
  "length x = length y \<Longrightarrow> length x = 20 - i \<Longrightarrow> i \<le> 20 \<Longrightarrow>
     prefix_scan i y < prefix_scan i x \<Longrightarrow> x < y"
proof (induction x y arbitrary: i rule: list_induct2)
  case (Cons b bs c cs)
  have i: "Suc i \<le> 20" and lb: "length bs = 20 - Suc i" and lc: "length cs = 20 - Suc i"
    using Cons.prems Cons.hyps by auto
  show ?case
  proof (cases "b = 0")
    case b: True
    show ?thesis
    proof (cases "c = 0")
      case True
      then show ?thesis using b Cons.prems Cons.IH[of "Suc i", OF lb i] by simp
    next
      case False
      then show ?thesis using b by (simp add: word_gt_0)
    qed
  next
    case b: False
    show ?thesis
    proof (cases "c = 0")
      case True
      have "Suc i * 8 \<le> prefix_scan (Suc i) cs" using prefix_scan_range[OF lc i] by simp
      then have False using True b Cons.prems leading_zeros8_bounds[OF b] by simp
      then show ?thesis ..
    next
      case False
      then show ?thesis using b Cons.prems leading_zeros8_less[OF b False] by simp
    qed
  qed
qed simp

text \<open>
  A longer common prefix means a smaller distance: if \<open>a\<close> shares more leading bits with the
  target than \<open>b\<close> does, then \<open>a\<close> is strictly closer to it in the order that \<^verbatim>\<open>Closest\<close>, the
  bootstrap shortlist and the discovery workers sort by.
\<close>

theorem longer_prefix_is_closer:
  assumes "wf_id t" and "wf_id a" and "wf_id b"
    and "common_prefix_len t b < common_prefix_len t a"
  shows "bytes_compare (xor_id t a) (xor_id t b) < 0"
  unfolding bytes_compare_less_iff
  by (rule prefix_scan_less[where i = 0]) (use assms in \<open>auto simp: wf_id_def common_prefix_len_def\<close>)

theorem longer_prefix_is_closer_witness:
  "bytes_compare (xor_id (replicate 20 0) (replicate 19 0 @ [1]))
                 (xor_id (replicate 20 0) (128 # replicate 19 0)) < 0"
  by (rule longer_prefix_is_closer) (simp add: wf_id_def, simp add: wf_id_def, simp add: wf_id_def, code_simp)

text \<open>The distance is a metric: symmetric, zero only on equal identifiers, and triangular.\<close>

theorem xor_metric:
  assumes "wf_id a" and "wf_id b" and "wf_id c"
  shows "xor_id a b = xor_id b a \<and> (be_val (xor_id a b) = 0 \<longleftrightarrow> a = b) \<and>
    be_val (xor_id a c) \<le> be_val (xor_id a b) + be_val (xor_id b c)"
proof (intro conjI)
  have "be_val (xor_id a b) = 0 \<longleftrightarrow> xor_id a b = zero_id"
    using assms be_val_id_inject[of "xor_id a b" zero_id] wf_xor_id[of a b] by auto
  then show "be_val (xor_id a b) = 0 \<longleftrightarrow> a = b" using assms xor_id_eq_zero_iff by simp
  show "be_val (xor_id a c) \<le> be_val (xor_id a b) + be_val (xor_id b c)"
    using assms be_val_xor_le[of "xor_id a b" "xor_id b c"] xor_id_compose[of a b c]
    by (simp add: wf_id_def)
qed (rule xor_id_commute)

theorem xor_metric_witness:
  "xor_id (replicate 20 1) (replicate 20 2) = xor_id (replicate 20 2) (replicate 20 1) \<and>
   (be_val (xor_id (replicate 20 1) (replicate 20 2)) = 0 \<longleftrightarrow> replicate 20 (1::byte) = replicate 20 2) \<and>
   be_val (xor_id (replicate 20 1) (replicate 20 3)) \<le>
     be_val (xor_id (replicate 20 1) (replicate 20 2)) + be_val (xor_id (replicate 20 2) (replicate 20 3))"
  by (rule xor_metric) (simp_all add: wf_id_def)


subsection \<open>Textual and raw encodings\<close>

text \<open>\<^verbatim>\<open>hex.EncodeToString\<close> and \<^verbatim>\<open>hex.DecodeString\<close> (which accepts both cases of the digits).\<close>

definition hex_digit :: "nat \<Rightarrow> char" where
  "hex_digit n = ''0123456789abcdef'' ! n"

definition hex_encode :: "byte list \<Rightarrow> string" where
  "hex_encode bs = concat (map (\<lambda>b. [hex_digit (unat b div 16), hex_digit (unat b mod 16)]) bs)"

definition from_hex_char :: "char \<Rightarrow> nat option" where
  "from_hex_char c =
     (let n = of_char c in
      if 48 \<le> n \<and> n \<le> 57 then Some (n - 48)
      else if 97 \<le> n \<and> n \<le> 102 then Some (n - 97 + 10)
      else if 65 \<le> n \<and> n \<le> 70 then Some (n - 65 + 10)
      else None)"

fun hex_decode :: "string \<Rightarrow> byte list option" where
  "hex_decode [] = Some []"
| "hex_decode [c] = None"
| "hex_decode (c # d # cs) =
     (case (from_hex_char c, from_hex_char d, hex_decode cs) of
        (Some x, Some y, Some bs) \<Rightarrow> Some (word_of_nat (x * 16 + y) # bs)
      | _ \<Rightarrow> None)"

datatype id_error = ErrInvalidNodeID | ErrNodeIDLength nat

definition node_id_string :: "node_id \<Rightarrow> string" where
  "node_id_string i = hex_encode i"

definition parse_node_id_hex :: "string \<Rightarrow> id_error + node_id" where
  "parse_node_id_hex s =
     (if length s \<noteq> 40 then Inl ErrInvalidNodeID
      else case hex_decode s of
        None \<Rightarrow> Inl ErrInvalidNodeID
      | Some b \<Rightarrow> Inr (go_copy zero_id b))"

definition parse_node_id :: "byte list \<Rightarrow> id_error + node_id" where
  "parse_node_id s =
     (if length s \<noteq> 20 then Inl (ErrNodeIDLength (length s)) else Inr (go_copy zero_id s))"

lemma parse_node_id_Inr [simp]: "parse_node_id s = Inr i \<longleftrightarrow> length s = 20 \<and> i = s"
  by (auto simp: parse_node_id_def zero_id_def go_copy_same)

lemma parse_node_id_Inl: "parse_node_id s = Inl e \<longleftrightarrow> length s \<noteq> 20 \<and> e = ErrNodeIDLength (length s)"
  by (auto simp: parse_node_id_def)

lemma parse_node_id_wf: "parse_node_id s = Inr i \<Longrightarrow> wf_id i"
  by (auto simp: wf_id_def)

lemma from_hex_digit: "n < 16 \<Longrightarrow> from_hex_char (hex_digit n) = Some n"
proof -
  have "\<forall>n \<in> set [0..<16]. from_hex_char (hex_digit n) = Some n" by code_simp
  then show "n < 16 \<Longrightarrow> from_hex_char (hex_digit n) = Some n" by simp
qed

lemma length_hex_encode [simp]: "length (hex_encode bs) = 2 * length bs"
  by (induction bs) (auto simp: hex_encode_def)

lemma hex_decode_encode: "hex_decode (hex_encode bs) = Some bs"
proof (induction bs)
  case (Cons b bs)
  have "unat b div 16 < 16" using unat_byte_less[of b] by (rule less_mult_imp_div_less[of _ 16 16, simplified])
  moreover have "unat b mod 16 < 16" by simp
  ultimately show ?case using Cons.IH by (simp add: hex_encode_def from_hex_digit)
qed (simp add: hex_encode_def)

lemma length_hex_decode: "hex_decode s = Some bs \<Longrightarrow> length s = 2 * length bs"
  by (induction s arbitrary: bs rule: hex_decode.induct) (auto split: option.splits)

lemma hex_decode_even: "odd (length s) \<Longrightarrow> hex_decode s = None"
  using length_hex_decode[of s] by (cases "hex_decode s") auto

text \<open>
  The text form of an identifier reads back, and whatever the reader accepts is a well-formed
  identifier; text of any other length is refused.
\<close>

theorem node_id_text_roundtrip:
  assumes "wf_id i"
  shows "parse_node_id_hex (node_id_string i) = Inr i \<and> length (node_id_string i) = 40"
  using assms
  by (simp add: wf_id_def parse_node_id_hex_def node_id_string_def hex_decode_encode
      zero_id_def go_copy_same)

theorem node_id_text_roundtrip_witness:
  "parse_node_id_hex (node_id_string (replicate 20 171)) = Inr (replicate 20 171) \<and>
   length (node_id_string (replicate 20 171)) = 40"
  by (rule node_id_text_roundtrip) (simp add: wf_id_def)

lemma parse_node_id_hex_wf: "parse_node_id_hex s = Inr i \<Longrightarrow> wf_id i \<and> length s = 40"
  by (auto simp: parse_node_id_hex_def wf_id_def zero_id_def split: if_splits option.splits)


subsection \<open>BEP-42\<close>

text \<open>\<^verbatim>\<open>crc32.Checksum\<close> with the Castagnoli table: the reflected polynomial, byte by byte.\<close>

definition castagnoli :: "32 word" where
  "castagnoli = 0x82f63b78"

definition crc_bit :: "32 word \<Rightarrow> 32 word" where
  "crc_bit c = (if c AND 1 = 1 then drop_bit 1 c XOR castagnoli else drop_bit 1 c)"

definition crc_entry :: "byte \<Rightarrow> 32 word" where
  "crc_entry b = fold (\<lambda>j c. crc_bit c) [0..<8] (ucast b)"

definition crc_step :: "32 word \<Rightarrow> byte \<Rightarrow> 32 word" where
  "crc_step c b = crc_entry (ucast c XOR b) XOR drop_bit 8 c"

definition crc32c :: "byte list \<Rightarrow> 32 word" where
  "crc32c bs = NOT (fold (\<lambda>b c. crc_step c b) bs (NOT 0))"

definition id_seed :: "ip \<Rightarrow> byte \<Rightarrow> 32 word" where
  "id_seed v4 r = ((get_be v4 :: 32 word) AND 0x030f3fff) OR push_bit 29 (ucast r)"

definition id_crc :: "ip \<Rightarrow> byte \<Rightarrow> 32 word" where
  "id_crc v4 r = crc32c (put_be 4 (id_seed v4 r))"

text \<open>
  \<^verbatim>\<open>DeriveNodeIDFromIP\<close>: \<open>r_buf\<close> and \<open>fresh\<close> are the bytes the two \<^verbatim>\<open>rand.Read\<close> calls return. An
  address that is not IPv4 yields the zero identifier and no error.
\<close>

definition derive_node_id_from_ip :: "ip \<Rightarrow> byte \<Rightarrow> byte list \<Rightarrow> node_id" where
  "derive_node_id_from_ip a r_buf fresh =
     (case to4 a of
        None \<Rightarrow> zero_id
      | Some v4 \<Rightarrow>
          let r = r_buf AND 0x07; crc = id_crc v4 r
          in fresh[0 := ucast (drop_bit 24 crc),
                   1 := ucast (drop_bit 16 crc),
                   2 := (ucast (drop_bit 8 crc) AND 0xf8) OR (fresh ! 2 AND 0x07),
                   19 := (fresh ! 19 AND 0xf8) OR r])"

datatype bep42_error = NotIPv4 | MismatchByte nat

definition validate_node_id_for_ip :: "ip \<Rightarrow> node_id \<Rightarrow> bep42_error + unit" where
  "validate_node_id_for_ip a i =
     (case to4 a of
        None \<Rightarrow> Inl NotIPv4
      | Some v4 \<Rightarrow>
          let r = i ! 19 AND 0x07; crc = id_crc v4 r
          in if ucast (drop_bit 24 crc) \<noteq> i ! 0 then Inl (MismatchByte 0)
             else if ucast (drop_bit 16 crc) \<noteq> i ! 1 then Inl (MismatchByte 1)
             else if ucast (drop_bit 8 crc) AND 0xf8 \<noteq> i ! 2 AND 0xf8 then Inl (MismatchByte 2)
             else Inr ())"

lemma length_derive_node_id:
  "length fresh = 20 \<Longrightarrow> wf_id (derive_node_id_from_ip a r_buf fresh)"
  by (auto simp: derive_node_id_from_ip_def wf_id_def zero_id_def Let_def split: option.splits)

lemma low_mask: "(0x07::byte) = mask 3" "(0xf8::byte) = NOT (mask 3)"
  by (simp_all add: mask_eq_exp_minus_1)

lemma mask_pick_high: "((x AND 0xf8) OR (y AND 0x07)) AND 0xf8 = x AND (0xf8::byte)"
  unfolding low_mask by (rule bit_word_eqI) (auto simp: bit_simps)

lemma mask_pick_low: "((x AND 0xf8) OR (y AND 0x07)) AND 0x07 = y AND (0x07::byte)"
  unfolding low_mask by (rule bit_word_eqI) (auto simp: bit_simps)

lemma mask_idem: "(x AND 0x07) AND 0x07 = x AND (0x07::byte)"
  by (simp add: and.assoc)

text \<open>
  An identifier derived for an IPv4 address (in its 4-byte or its 4-in-6 form) passes the
  BEP-42 check for every form of that address, whatever random bytes were drawn, and keeps the
  drawn bytes in the positions BEP-42 leaves free.
\<close>

theorem derived_id_validates:
  assumes "to4 a = Some v4" and "to4 b = Some v4" and "length fresh = 20"
  shows "wf_id (derive_node_id_from_ip a r_buf fresh) \<and>
    validate_node_id_for_ip b (derive_node_id_from_ip a r_buf fresh) = Inr () \<and>
    (\<forall>k. 2 < k \<and> k < 19 \<longrightarrow> derive_node_id_from_ip a r_buf fresh ! k = fresh ! k)"
proof (intro conjI)
  show "wf_id (derive_node_id_from_ip a r_buf fresh)" by (rule length_derive_node_id[OF assms(3)])
qed (use assms in \<open>simp_all add: derive_node_id_from_ip_def validate_node_id_for_ip_def Let_def
      nth_list_update mask_pick_high mask_pick_low mask_idem\<close>)

theorem derived_id_validates_witness:
  "validate_node_id_for_ip (v4_in_v6_prefix @ [192, 0, 2, 7])
     (derive_node_id_from_ip [192, 0, 2, 7] 0xff (replicate 20 9)) = Inr () \<and>
   derive_node_id_from_ip [192, 0, 2, 7] 0xff (replicate 20 9) ! 3 = 9"
proof -
  have "to4 [192, 0, 2, 7] = Some [192, 0, 2, 7]" "to4 (v4_in_v6_prefix @ [192, 0, 2, 7]) = Some [192, 0, 2, 7]"
    "length (replicate 20 (9::byte)) = 20"
    by (simp_all add: to4_def v4_in_v6_prefix_def)
  from derived_id_validates[OF this, of "0xff"] show ?thesis by simp
qed

end
