(* ===== verification/Bucket.thy ===== *)
theory Bucket
  imports Node_Id
begin

section \<open>Nodes and buckets (\<^verbatim>\<open>dht/table/node.go\<close>, \<^verbatim>\<open>dht/table/bucket.go\<close>)\<close>

text \<open>
  A bucket is a half-open range of identifiers: \<open>depth\<close> prefix bits are fixed, and a zero \<open>bmax\<close>
  stands for the end of the keyspace. The code keeps pointers to nodes; the model keeps the nodes.
\<close>

record node =
  nid :: node_id
  naddr :: addr
  last_seen :: instant
  failures :: int

record bucket =
  bmin :: node_id
  bmax :: node_id
  depth :: nat
  nodes :: "node list"
  replacement :: "node list"
  last_changed :: instant

definition is_good :: "instant \<Rightarrow> duration \<Rightarrow> node \<Rightarrow> bool" where
  "is_good now window n \<longleftrightarrow> since now (last_seen n) < window \<and> failures n = 0"

definition is_questionable :: "instant \<Rightarrow> duration \<Rightarrow> int \<Rightarrow> node \<Rightarrow> bool" where
  "is_questionable now window bad n \<longleftrightarrow> since now (last_seen n) \<ge> window \<and> failures n < bad"

definition is_bad :: "int \<Rightarrow> node \<Rightarrow> bool" where
  "is_bad bad n \<longleftrightarrow> failures n \<ge> bad"

definition contains :: "bucket \<Rightarrow> node_id \<Rightarrow> bool" where
  "contains b i =
     (if bmax b = zero_id then bytes_compare i (bmin b) \<ge> 0
      else bytes_compare i (bmin b) \<ge> 0 \<and> bytes_compare i (bmax b) < 0)"

definition is_full :: "nat \<Rightarrow> bucket \<Rightarrow> bool" where
  "is_full k b \<longleftrightarrow> length (nodes b) = k"

definition is_stale :: "instant \<Rightarrow> duration \<Rightarrow> bucket \<Rightarrow> bool" where
  "is_stale now threshold b \<longleftrightarrow> since now (last_changed b) > threshold"

text \<open>
  \<^verbatim>\<open>GetRandomNodeID\<close>: \<open>fresh\<close> is what \<^verbatim>\<open>rand.Read\<close> fills the identifier with; indexing past
  the 20 bytes panics.
\<close>

definition get_random_node_id :: "bucket \<Rightarrow> node_id \<Rightarrow> node_id outcome" where
  "get_random_node_id b fresh =
     (let byte_idx = depth b div 8;
          bit_idx = 7 - depth b mod 8;
          copied = fold (\<lambda>i i'. i'[i := bmin b ! i]) [0..<min 20 byte_idx] fresh;
          prefix_mask = push_bit (bit_idx + 1) (0xff :: byte)
      in if byte_idx \<ge> 20 then Inl IndexOutOfRange
         else Inr (copied[byte_idx :=
           (bmin b ! byte_idx AND prefix_mask) OR (copied ! byte_idx AND NOT prefix_mask)]))"

text \<open>The range of a bucket as numbers, and what the table keeps of every bucket's bounds.\<close>

definition lo :: "bucket \<Rightarrow> nat" where
  "lo b = be_val (bmin b)"

definition hi :: "bucket \<Rightarrow> nat" where
  "hi b = (if bmax b = zero_id then keyspace else be_val (bmax b))"

definition wf_range :: "bucket \<Rightarrow> bool" where
  "wf_range b \<longleftrightarrow> wf_id (bmin b) \<and> wf_id (bmax b) \<and> depth b \<le> 160 \<and>
     2 ^ (160 - depth b) dvd lo b \<and> hi b = lo b + 2 ^ (160 - depth b)"

lemma zero_id_Cons: "zero_id = 0 # replicate 19 0"
  by (simp add: zero_id_def flip: replicate_Suc)

lemma contains_iff:
  assumes "wf_id (bmin b)" and "wf_id (bmax b)" and "wf_id i"
  shows "contains b i \<longleftrightarrow> lo b \<le> be_val i \<and> be_val i < hi b"
  using assms be_val_id_less[OF assms(3)]
  by (auto simp: contains_def lo_def hi_def bytes_compare_iffs less_id_be_val le_id_be_val)

lemma wf_range_contains_iff:
  "wf_range b \<Longrightarrow> wf_id i \<Longrightarrow> contains b i \<longleftrightarrow> lo b \<le> be_val i \<and> be_val i < hi b"
  by (rule contains_iff) (simp_all add: wf_range_def)

lemma hi_le: "wf_range b \<Longrightarrow> hi b \<le> keyspace"
  unfolding hi_def using be_val_id_less[of "bmax b"] by (simp add: wf_range_def)

lemma lo_less_hi: "wf_range b \<Longrightarrow> lo b < hi b"
  by (simp add: wf_range_def)


subsection \<open>Bytes around the split bit\<close>

lemma split_at_byte:
  "length i = 20 \<Longrightarrow> q < 20 \<Longrightarrow>
     be_val i = be_val (take q i) * 256 ^ (20 - q) + unat (i ! q) * 256 ^ (19 - q) + be_val (drop (Suc q) i)"
proof -
  assume len: "length i = 20" and q: "q < 20"
  have "i = take q i @ i ! q # drop (Suc q) i" using len q by (simp add: id_take_nth_drop)
  then have "be_val i = be_val (take q i @ i ! q # drop (Suc q) i)" by simp
  also have "\<dots> = be_val (take q i) * 256 ^ Suc (19 - q) + (unat (i ! q) * 256 ^ (19 - q) + be_val (drop (Suc q) i))"
    using len q by (simp add: be_val_append)
  also have "Suc (19 - q) = 20 - q" using q by simp
  finally show ?thesis by simp
qed

lemma range_size: "d < 160 \<Longrightarrow> (2::nat) ^ (160 - d) = 2 ^ (8 - d mod 8) * 256 ^ (19 - d div 8)"
proof -
  assume d: "d < 160"
  then have "160 - d = (8 - d mod 8) + 8 * (19 - d div 8)"
    using mult_div_mod_eq[of 8 d] mod_less_divisor[of 8 d] by linarith
  then show ?thesis by (simp only: power_add power_mult) simp
qed

text \<open>An aligned identifier has only zero bits from bit \<open>d\<close> on.\<close>

lemma aligned_id:
  assumes len: "length i = 20" and d: "d < 160" and dvd: "2 ^ (160 - d) dvd be_val i"
  shows "be_val (drop (Suc (d div 8)) i) = 0" and "2 ^ (8 - d mod 8) dvd unat (i ! (d div 8))"
proof -
  define q where "q = d div 8"
  define P where "P = (256::nat) ^ (19 - q)"
  define s where "s = (2::nat) ^ (8 - d mod 8)"
  have q: "q < 20" using d by (simp add: q_def)
  have P: "0 < P" by (simp add: P_def)
  have size: "(2::nat) ^ (160 - d) = s * P" using range_size[OF d] by (simp add: P_def q_def s_def)
  have p20: "(256::nat) ^ (20 - q) = 256 * P"
    using q by (simp add: P_def Suc_diff_Suc[symmetric] flip: power_Suc)
  have val: "be_val i = (be_val (take q i) * 256 + unat (i ! q)) * P + be_val (drop (Suc q) i)"
    using split_at_byte[OF len q] p20 by (simp add: P_def algebra_simps)
  have t: "be_val (drop (Suc q) i) < P" using be_val_less[of "drop (Suc q) i"] len by (simp add: P_def)
  have "P dvd be_val i" using dvd size by (metis dvd_mult_right)
  then have "P dvd be_val (drop (Suc q) i)" using val by (simp add: dvd_add_right_iff)
  then show t0: "be_val (drop (Suc (d div 8)) i) = 0" 
    using t by (auto simp: q_def dest: dvd_imp_le)
  have "s * P dvd (be_val (take q i) * 256 + unat (i ! q)) * P"
    using dvd size val t0 by (simp add: q_def)
  then have "s dvd be_val (take q i) * 256 + unat (i ! q)" using P by simp
  moreover have "s dvd be_val (take q i) * 256"
  proof -
    have "s dvd 2 ^ 8" unfolding s_def by (rule le_imp_power_dvd) simp
    then show ?thesis by simp
  qed
  ultimately show "2 ^ (8 - d mod 8) dvd unat (i ! (d div 8))"
    by (simp add: dvd_add_right_iff s_def q_def)
qed

text \<open>The two bit operations on the byte that holds bit \<open>d\<close>, over all aligned bytes.\<close>

lemma set_split_bit:
  assumes "e < 8" and "2 ^ (e + 1) dvd unat (m :: byte)"
  shows "unat ((m OR push_bit e 1) AND NOT (push_bit e 1 - 1)) = unat m + 2 ^ e"
proof -
  have all: "\<forall>e \<in> set [0..<8]. \<forall>j \<in> set [0..<2 ^ (7 - e)].
      unat ((word_of_nat (j * 2 ^ (e + 1)) OR push_bit e 1) AND NOT (push_bit e (1::byte) - 1))
        = j * 2 ^ (e + 1) + 2 ^ e"
    by code_simp
  obtain j where j: "unat m = j * 2 ^ (e + 1)" using assms(2) by (metis dvd_def mult.commute)
  have size: "(256::nat) = 2 ^ (7 - e) * 2 ^ (e + 1)" using assms(1) by (simp only: power_add[symmetric]) simp
  have "j < 2 ^ (7 - e)"
    by (rule mult_right_less_imp_less[of j "2 ^ (e + 1)"])
      (use unat_byte_less[of m] in \<open>simp_all only: size j zero_le\<close>)
  moreover have "word_of_nat (j * 2 ^ (e + 1)) = m" unfolding j[symmetric] by simp
  ultimately show ?thesis using all assms(1) j by fastforce
qed

lemma merge_prefix_bits:
  fixes m x :: byte
  assumes "e < 8" and "2 ^ (e + 1) dvd unat m"
  defines "y \<equiv> (m AND push_bit (e + 1) 0xff) OR (x AND NOT (push_bit (e + 1) 0xff))"
  shows "unat m \<le> unat y" and "unat y < unat m + 2 ^ (e + 1)"
proof -
  have ff: "(0xff::byte) = - 1" by simp
  have "drop_bit (e + 1) y = drop_bit (e + 1) m"
    unfolding y_def ff
    by (rule bit_word_eqI) (auto simp: bit_simps dest: bit_imp_le_length)
  then have eq: "unat y div 2 ^ (e + 1) = unat m div 2 ^ (e + 1)"
    by (metis drop_bit_eq_div unat_drop_bit_eq)
  obtain j where j: "unat m = 2 ^ (e + 1) * j" using assms(2) by blast
  then have "unat y div 2 ^ (e + 1) = j" unfolding eq j by simp
  then have "unat y = 2 ^ (e + 1) * j + unat y mod 2 ^ (e + 1)"
    using mult_div_mod_eq[of "2 ^ (e + 1)" "unat y"] by simp
  moreover have "unat y mod 2 ^ (e + 1) < 2 ^ (e + 1)" by simp
  ultimately show "unat m \<le> unat y" and "unat y < unat m + 2 ^ (e + 1)"
    unfolding j by (metis le_add1, metis nat_add_left_cancel_less)
qed


subsection \<open>Random identifiers of a bucket\<close>

lemma fold_copy:
  "length xs = 20 \<Longrightarrow> length ys = 20 \<Longrightarrow> q \<le> 20 \<Longrightarrow>
     fold (\<lambda>i i'. i'[i := xs ! i]) [0..<q] ys = take q xs @ drop q ys"
proof (induction q)
  case (Suc q)
  then have "fold (\<lambda>i i'. i'[i := xs ! i]) [0..<Suc q] ys = (take q xs @ drop q ys)[q := xs ! q]"
    by simp
  also have "\<dots> = take q xs @ xs ! q # drop (Suc q) ys"
    using Suc.prems by (simp add: list_update_append Cons_nth_drop_Suc[symmetric])
  also have "\<dots> = take (Suc q) xs @ drop (Suc q) ys"
    using Suc.prems by (simp add: take_Suc_conv_app_nth)
  finally show ?case .
qed simp

lemma random_node_id_in_bucket_lemma:
  assumes "wf_range b" and "depth b < 160" and "length fresh = 20"
  shows "\<exists>i. get_random_node_id b fresh = Inr i \<and> wf_id i \<and> contains b i"
proof -
  define q where "q = depth b div 8"
  define e where "e = 7 - depth b mod 8"
  define P where "P = (256::nat) ^ (19 - q)"
  define y where "y = (bmin b ! q AND push_bit (e + 1) 0xff) OR (fresh ! q AND NOT (push_bit (e + 1) 0xff))"
  let ?r = "take q (bmin b) @ y # drop (Suc q) fresh"
  have q: "q < 20" and e: "e < 8" and e1: "8 - depth b mod 8 = e + 1"
    using assms(2) by (auto simp: q_def e_def)
  have lmin: "length (bmin b) = 20" using assms(1) by (simp add: wf_range_def wf_id_def)
  have dvd: "2 ^ (160 - depth b) dvd be_val (bmin b)"
    using assms(1) by (simp add: wf_range_def lo_def)
  have size: "(2::nat) ^ (160 - depth b) = 2 ^ (e + 1) * P"
    using range_size[OF assms(2)] by (simp add: P_def q_def e1)
  have copied: "fold (\<lambda>i i'. i'[i := bmin b ! i]) [0..<min 20 q] fresh = take q (bmin b) @ drop q fresh"
    using fold_copy[OF lmin assms(3), of q] q by simp
  have nth: "(take q (bmin b) @ drop q fresh) ! q = fresh ! q"
    using q lmin assms(3) by (simp add: nth_append)
  have upd: "(take q (bmin b) @ drop q fresh)[q := y] = ?r"
    using q lmin assms(3) by (simp add: list_update_append Cons_nth_drop_Suc[symmetric])
  have res: "get_random_node_id b fresh = Inr ?r"
    using q unfolding get_random_node_id_def Let_def q_def[symmetric] e_def[symmetric] copied nth
      y_def[symmetric] upd by simp
  have wf: "wf_id ?r" using q lmin assms(3) by (simp add: wf_id_def)
  have al: "be_val (drop (Suc q) (bmin b)) = 0" "2 ^ (e + 1) dvd unat (bmin b ! q)"
    using aligned_id[OF lmin assms(2) dvd] by (simp_all add: q_def e1)
  have y: "unat (bmin b ! q) \<le> unat y" "unat y + 1 \<le> unat (bmin b ! q) + 2 ^ (e + 1)"
    using merge_prefix_bits[OF e al(2), of "fresh ! q"] by (simp_all add: y_def)
  have vmin: "lo b = be_val (take q (bmin b)) * 256 ^ (20 - q) + unat (bmin b ! q) * P"
    using split_at_byte[OF lmin q] al by (simp add: lo_def P_def)
  have vr: "be_val ?r = be_val (take q (bmin b)) * 256 ^ (20 - q) + unat y * P + be_val (drop (Suc q) fresh)"
    using split_at_byte[of ?r q] q wf lmin by (simp add: wf_id_def nth_append P_def)
  have rest: "be_val (drop (Suc q) fresh) < P"
    using be_val_less[of "drop (Suc q) fresh"] assms(3) by (simp add: P_def)
  have "unat (bmin b ! q) * P \<le> unat y * P" using y(1) by (rule mult_le_mono1)
  moreover have "(unat y + 1) * P \<le> (unat (bmin b ! q) + 2 ^ (e + 1)) * P" using y(2) by (rule mult_le_mono1)
  ultimately have "lo b \<le> be_val ?r" and "be_val ?r < lo b + 2 ^ (e + 1) * P"
    unfolding vmin vr using rest by (simp_all only: distrib_right mult_1)
  then have "contains b ?r"
    using assms(1) wf size by (simp add: wf_range_contains_iff wf_range_def)
  then show ?thesis using res wf by blast
qed

text \<open>
  A refresh target lies in the bucket it was drawn for: for every bucket of the table that
  still has a free bit and every outcome of the random source, \<^verbatim>\<open>GetRandomNodeID\<close> returns a
  well-formed identifier inside the bucket's range.
\<close>

theorem random_node_id_in_bucket:
  assumes "wf_range b" and "depth b < 160" and "length fresh = 20"
  shows "\<exists>i. get_random_node_id b fresh = Inr i \<and> wf_id i \<and> contains b i"
  using random_node_id_in_bucket_lemma[OF assms] .

theorem random_node_id_in_bucket_witness:
  "\<exists>i. get_random_node_id \<lparr>bmin = 0x40 # replicate 19 0, bmax = 0x80 # replicate 19 0, depth = 2,
        nodes = [], replacement = [], last_changed = 0\<rparr> (replicate 20 0xab) = Inr i \<and> wf_id i \<and>
      contains \<lparr>bmin = 0x40 # replicate 19 0, bmax = 0x80 # replicate 19 0, depth = 2,
        nodes = [], replacement = [], last_changed = 0\<rparr> i"
  by (rule random_node_id_in_bucket)
    (simp_all add: wf_range_def wf_id_def lo_def hi_def zero_id_Cons keyspace_def)

end
