(* ===== verification/Routing_Table.thy ===== *)
theory Routing_Table
  imports Bucket
begin

section \<open>The routing table (\<^verbatim>\<open>dht/table/table.go\<close>)\<close>

text \<open>
  The table is a slice of buckets that tile the 160-bit keyspace. Every operation takes the instant
  its calls of \<^verbatim>\<open>rt.now()\<close> return; the lock makes an operation one step. \<^verbatim>\<open>insert\<close> also returns the
  pings it starts in the background.
\<close>

record table =
  buckets :: "bucket list"
  own_id :: node_id
  bucket_size :: nat
  bad_threshold :: int
  stale_threshold :: duration
  has_pinger :: bool

datatype insert_result = Updated | Inserted | Cached | Dropped

definition new_routing_table :: "node_id \<Rightarrow> nat \<Rightarrow> int \<Rightarrow> duration \<Rightarrow> bool \<Rightarrow> instant \<Rightarrow> table" where
  "new_routing_table i k bad stale pinger now =
     \<lparr>buckets = [\<lparr>bmin = zero_id, bmax = zero_id, depth = 0, nodes = [], replacement = [], last_changed = now\<rparr>],
      own_id = i, bucket_size = k, bad_threshold = bad, stale_threshold = stale, has_pinger = pinger\<rparr>"

definition bucket_for :: "table \<Rightarrow> node_id \<Rightarrow> nat" where
  "bucket_for rt i =
     (let idx = sort_search (length (buckets rt)) (\<lambda>j. bytes_compare (bmin (buckets rt ! j)) i > 0)
      in if idx > 0 then idx - 1 else idx)"

definition split_point :: "node_id \<Rightarrow> nat \<Rightarrow> node_id outcome" where
  "split_point m d =
     (let byte_idx = d div 8; bit_idx = 7 - d mod 8
      in if byte_idx \<ge> 20 then Inl IndexOutOfRange
         else let set_bit = m[byte_idx := m ! byte_idx OR push_bit bit_idx 1];
                  cleared = set_bit[byte_idx := set_bit ! byte_idx AND NOT (push_bit bit_idx 1 - 1)]
              in Inr (fold (\<lambda>j i. i[j := 0]) [byte_idx + 1..<20] cleared))"

definition split_bucket :: "instant \<Rightarrow> bucket \<Rightarrow> (bucket \<times> bucket) outcome" where
  "split_bucket now b =
     (case split_point (bmin b) (depth b) of
        Inl p \<Rightarrow> Inl p
      | Inr mid \<Rightarrow>
          let left = \<lparr>bmin = bmin b, bmax = mid, depth = depth b + 1, nodes = [], replacement = [], last_changed = now\<rparr>;
              right = \<lparr>bmin = mid, bmax = bmax b, depth = depth b + 1, nodes = [], replacement = [], last_changed = now\<rparr>
          in Inr (left\<lparr>nodes := filter (\<lambda>n. contains left (nid n)) (nodes b),
                        replacement := filter (\<lambda>n. contains left (nid n)) (replacement b)\<rparr>,
                  right\<lparr>nodes := filter (\<lambda>n. \<not> contains left (nid n)) (nodes b),
                         replacement := filter (\<lambda>n. \<not> contains left (nid n)) (replacement b)\<rparr>))"

definition bucket_slice_replace :: "bucket list \<Rightarrow> nat \<Rightarrow> bucket \<Rightarrow> bucket \<Rightarrow> bucket list" where
  "bucket_slice_replace s idx left right = take idx s @ [left, right] @ drop (idx + 1) s"

text \<open>The body of the two refresh loops of \<^verbatim>\<open>insert\<close>, and storing the changed bucket \<open>idx\<close>.\<close>

definition refresh_node :: "node \<Rightarrow> node \<Rightarrow> node" where
  "refresh_node n x = x\<lparr>naddr := naddr n, last_seen := last_seen n, failures := 0\<rparr>"

definition put_bucket :: "nat \<Rightarrow> bucket \<Rightarrow> table \<Rightarrow> table" where
  "put_bucket idx b rt = rt\<lparr>buckets := (buckets rt)[idx := b]\<rparr>"

definition has_id :: "node_id \<Rightarrow> node list \<Rightarrow> bool" where
  "has_id i ns \<longleftrightarrow> list_ex (\<lambda>x. nid x = i) ns"

lemma has_id_iff: "has_id i ns \<longleftrightarrow> i \<in> nid ` set ns"
  by (auto simp: has_id_def list_ex_iff)

text \<open>
  The loop of \<^verbatim>\<open>insert\<close> ends on every table: each round splits a bucket into two that have one
  free bit less, and a bucket with no free bit cannot be split.
\<close>

definition split_measure :: "table \<Rightarrow> nat" where
  "split_measure rt = sum_list (map (\<lambda>b. 3 ^ (160 - depth b)) (buckets rt))"

lemma split_bucket_depth:
  "split_bucket now b = Inr (l, r) \<Longrightarrow> depth b < 160 \<and> depth l = depth b + 1 \<and> depth r = depth b + 1"
  by (auto simp: split_bucket_def split_point_def Let_def split: sum.splits if_splits)

lemma split_measure_less:
  assumes "idx < length (buckets rt)" and "split_bucket now (buckets rt ! idx) = Inr (l, r)"
  shows "split_measure (rt\<lparr>buckets := bucket_slice_replace (buckets rt) idx l r\<rparr>) < split_measure rt"
proof -
  define b where "b = buckets rt ! idx"
  have d: "depth b < 160" "depth l = depth b + 1" "depth r = depth b + 1"
    using split_bucket_depth assms(2) by (auto simp: b_def)
  have "buckets rt = take idx (buckets rt) @ b # drop (Suc idx) (buckets rt)"
    using assms(1) by (simp add: id_take_nth_drop b_def)
  then have "split_measure rt = sum_list (map (\<lambda>b. 3 ^ (160 - depth b)) (take idx (buckets rt)))
      + 3 ^ (160 - depth b) + sum_list (map (\<lambda>b. 3 ^ (160 - depth b)) (drop (Suc idx) (buckets rt)))"
    unfolding split_measure_def by (metis (no_types, lifting) add.assoc list.simps(9) map_append sum_list.Cons sum_list_append)
  moreover have "(3::nat) ^ (160 - depth b) = 3 * 3 ^ (160 - (depth b + 1))"
    using d(1) by (simp flip: power_Suc add: Suc_diff_Suc)
  ultimately show ?thesis using d
    by (simp add: split_measure_def bucket_slice_replace_def)
qed

function insert_node :: "instant \<Rightarrow> node \<Rightarrow> table \<Rightarrow> (insert_result \<times> table \<times> (addr \<times> node_id) list) outcome" where
  "insert_node now n rt =
     (let idx = bucket_for rt (nid n) in
      if idx \<ge> length (buckets rt) then Inl IndexOutOfRange
      else
        let b = buckets rt ! idx in
        if has_id (nid n) (nodes b) then
          Inr (Updated,
               put_bucket idx (b\<lparr>nodes := update_first (\<lambda>x. nid x = nid n) (refresh_node n) (nodes b)\<rparr>) rt, [])
        else if \<not> is_full (bucket_size rt) b then
          Inr (Inserted, put_bucket idx (b\<lparr>nodes := nodes b @ [n], last_changed := now\<rparr>) rt, [])
        else if contains b (own_id rt) then
          (case split_bucket now b of
             Inl p \<Rightarrow> Inl p
           | Inr (l, r) \<Rightarrow> insert_node now n (rt\<lparr>buckets := bucket_slice_replace (buckets rt) idx l r\<rparr>))
        else if has_id (nid n) (replacement b) then
          Inr (Updated,
               put_bucket idx (b\<lparr>replacement := update_first (\<lambda>x. nid x = nid n) (refresh_node n) (replacement b)\<rparr>) rt, [])
        else if length (replacement b) < bucket_size rt then
          Inr (Cached, put_bucket idx (b\<lparr>replacement := replacement b @ [n]\<rparr>) rt,
               if has_pinger rt \<and> nodes b \<noteq> [] then [(naddr (hd (nodes b)), nid (hd (nodes b)))] else [])
        else Inr (Dropped, rt, []))"
  by pat_completeness auto
termination
  by (relation "measure (\<lambda>(now, n, rt). split_measure rt)") (auto intro: split_measure_less)

declare insert_node.simps [simp del]

definition insert_valid_node ::
    "instant \<Rightarrow> node \<Rightarrow> table \<Rightarrow> (insert_result \<times> table \<times> (addr \<times> node_id) list) outcome" where
  "insert_valid_node now n rt =
     (case validate_node_id_for_ip (ip (naddr n)) (nid n) of
        Inl e \<Rightarrow> Inr (Dropped, rt, [])
      | Inr u \<Rightarrow> insert_node now n rt)"

definition closest_candidates :: "table \<Rightarrow> node list" where
  "closest_candidates rt =
     concat (map (\<lambda>b. filter (\<lambda>n. \<not> is_bad (bad_threshold rt) n) (nodes b)
                    @ filter (\<lambda>n. \<not> is_bad (bad_threshold rt) n) (replacement b)) (buckets rt))"

definition closest :: "table \<Rightarrow> node_id \<Rightarrow> nat \<Rightarrow> node list" where
  "closest rt target n =
     (let candidates = sort_key (\<lambda>x. xor_id target (nid x)) (closest_candidates rt)
      in take (min n (length candidates)) candidates)"

definition mark_success :: "instant \<Rightarrow> node_id \<Rightarrow> table \<Rightarrow> table" where
  "mark_success now i rt =
     (let idx = bucket_for rt i; b = buckets rt ! idx
      in put_bucket idx (b\<lparr>nodes := update_first (\<lambda>x. nid x = i) (\<lambda>x. x\<lparr>last_seen := now, failures := 0\<rparr>) (nodes b)\<rparr>) rt)"

definition fail_node :: "node \<Rightarrow> node" where
  "fail_node x = x\<lparr>failures := failures x + 1\<rparr>"

text \<open>The replacement cache is scanned from its back, so its last entry with the identifier counts.\<close>

definition mark_failure :: "instant \<Rightarrow> node_id \<Rightarrow> table \<Rightarrow> table" where
  "mark_failure now i rt =
     (let idx = bucket_for rt i; b = buckets rt ! idx in
      case find (\<lambda>x. nid x = i) (nodes b) of
        Some x \<Rightarrow>
          if \<not> is_bad (bad_threshold rt) (fail_node x) then
            put_bucket idx (b\<lparr>nodes := update_first (\<lambda>x. nid x = i) fail_node (nodes b)\<rparr>) rt
          else
            let kept = remove_first (\<lambda>x. nid x = i) (nodes b)
            in put_bucket idx
                 (case replacement b of
                    [] \<Rightarrow> b\<lparr>nodes := kept, last_changed := now\<rparr>
                  | r # rs \<Rightarrow> b\<lparr>nodes := kept @ [r], replacement := rs, last_changed := now\<rparr>) rt
      | None \<Rightarrow>
          (case find (\<lambda>x. nid x = i) (rev (replacement b)) of
             None \<Rightarrow> rt
           | Some x \<Rightarrow>
               put_bucket idx (b\<lparr>replacement := rev
                 (if is_bad (bad_threshold rt) (fail_node x)
                  then remove_first (\<lambda>x. nid x = i) (rev (replacement b))
                  else update_first (\<lambda>x. nid x = i) fail_node (rev (replacement b)))\<rparr>) rt))"

definition node_count :: "table \<Rightarrow> nat" where
  "node_count rt = fold (\<lambda>b n. n + length (nodes b)) (buckets rt) 0"

definition stale_buckets :: "instant \<Rightarrow> table \<Rightarrow> bucket list" where
  "stale_buckets now rt = filter (is_stale now (stale_threshold rt)) (buckets rt)"

definition all_nodes :: "table \<Rightarrow> node list" where
  "all_nodes rt = concat (map (\<lambda>b. nodes b @ replacement b) (buckets rt))"

end
