(* ===== verification/Table_Invariant.thy ===== *)
theory Table_Invariant
  imports Routing_Table
begin

section \<open>Correctness of the routing table\<close>

text \<open>
  The invariant: the buckets tile the keyspace in order with aligned ranges, every bucket holds at
  most \<open>k\<close> nodes and \<open>k\<close> replacements, all inside its range and with different identifiers, and
  only a full bucket away from the table's own identifier has replacements. Every operation keeps
  it, insertion never panics, and the lookups return what they promise.
\<close>

fun tiles :: "nat \<Rightarrow> bucket list \<Rightarrow> nat \<Rightarrow> bool" where
  "tiles a [] z \<longleftrightarrow> a = z"
| "tiles a (b # bs) z \<longleftrightarrow> wf_range b \<and> lo b = a \<and> tiles (hi b) bs z"

definition members :: "bucket \<Rightarrow> node list" where
  "members b = nodes b @ replacement b"

definition wf_content :: "nat \<Rightarrow> node_id \<Rightarrow> bucket \<Rightarrow> bool" where
  "wf_content k own b \<longleftrightarrow>
     length (nodes b) \<le> k \<and> length (replacement b) \<le> k \<and>
     (\<forall>n \<in> set (members b). wf_id (nid n) \<and> contains b (nid n)) \<and>
     distinct (map nid (members b)) \<and>
     (replacement b \<noteq> [] \<longrightarrow> is_full k b \<and> \<not> contains b own)"

definition wf_table :: "table \<Rightarrow> bool" where
  "wf_table rt \<longleftrightarrow> wf_id (own_id rt) \<and> 0 < bucket_size rt \<and> tiles 0 (buckets rt) keyspace \<and>
     list_all (wf_content (bucket_size rt) (own_id rt)) (buckets rt)"

subsection \<open>Tilings\<close>

lemma tiles_append: "tiles a (xs @ ys) z \<longleftrightarrow> (\<exists>m. tiles a xs m \<and> tiles m ys z)"
  by (induction a xs z rule: tiles.induct) auto

lemma tiles_le: "tiles a bs z \<Longrightarrow> a \<le> z"
  by (induction a bs z rule: tiles.induct) (auto dest: lo_less_hi)

lemma tiles_range: "tiles a bs z \<Longrightarrow> b \<in> set bs \<Longrightarrow> wf_range b \<and> a \<le> lo b \<and> hi b \<le> z"
proof (induction a bs z rule: tiles.induct)
  case (2 a c bs z)
  then show ?case using tiles_le[of "hi c" bs z] lo_less_hi[of c] by fastforce
qed simp

lemma tiles_split:
  assumes "tiles a bs z" and "idx < length bs"
  shows "tiles a (take idx bs) (lo (bs ! idx))" "wf_range (bs ! idx)"
    "tiles (hi (bs ! idx)) (drop (Suc idx) bs) z"
proof -
  have "tiles a (take idx bs @ bs ! idx # drop (Suc idx) bs) z"
    using assms by (simp add: id_take_nth_drop[symmetric])
  then show "tiles a (take idx bs) (lo (bs ! idx))" "wf_range (bs ! idx)"
    "tiles (hi (bs ! idx)) (drop (Suc idx) bs) z" by (auto simp: tiles_append)
qed

lemma tiles_before_after:
  assumes "tiles a bs z" and "i < j" and "j < length bs"
  shows "hi (bs ! i) \<le> lo (bs ! j)"
proof -
  have "tiles a (take j bs) (lo (bs ! j))" using tiles_split[OF assms(1,3)] by blast
  moreover have "bs ! i \<in> set (take j bs)" using assms(2,3) by (auto simp: in_set_conv_nth)
  ultimately show ?thesis using tiles_range by blast
qed

lemma tiles_next:
  assumes "tiles a bs z" and "Suc i < length bs"
  shows "lo (bs ! Suc i) = hi (bs ! i)"
proof -
  have "drop (Suc i) bs = bs ! Suc i # drop (Suc (Suc i)) bs"
    using assms(2) by (simp add: Cons_nth_drop_Suc)
  then show ?thesis using tiles_split(3)[OF assms(1), of i] assms(2) by simp
qed

lemma tiles_last:
  assumes "tiles a bs z" and "Suc i = length bs"
  shows "hi (bs ! i) = z"
  using tiles_split(3)[OF assms(1), of i] assms(2) by simp

lemma tiles_update:
  assumes "tiles a bs z" and "idx < length bs"
    and "bmin b = bmin (bs ! idx)" "bmax b = bmax (bs ! idx)" "depth b = depth (bs ! idx)"
  shows "tiles a (bs[idx := b]) z"
proof -
  have eq: "lo b = lo (bs ! idx)" "hi b = hi (bs ! idx)"
    using assms(3,4) by (simp_all add: lo_def hi_def)
  then have "wf_range b"
    using assms(3-5) tiles_split(2)[OF assms(1,2)] by (simp add: wf_range_def)
  then show ?thesis
    using assms(2) eq tiles_split[OF assms(1,2)] by (auto simp: upd_conv_take_nth_drop tiles_append)
qed


subsection \<open>Finding the bucket\<close>

lemma tiles_nonempty: "wf_table rt \<Longrightarrow> buckets rt \<noteq> []"
  by (auto simp: wf_table_def)

lemma bucket_for_spec:
  assumes "tiles 0 (buckets rt) keyspace" and "wf_id i"
  shows "bucket_for rt i < length (buckets rt)" "contains (buckets rt ! bucket_for rt i) i"
proof -
  let ?bs = "buckets rt"
  define f where "f j \<longleftrightarrow> bytes_compare (bmin (?bs ! j)) i > 0" for j
  define n where "n = length ?bs"
  define r where "r = sort_search n f"
  have n: "0 < n" using assms(1) by (cases ?bs) (auto simp: n_def)
  have wfr: "wf_range (?bs ! j)" if "j < n" for j
    using tiles_split(2)[OF assms(1), of j] that by (simp add: n_def)
  have f: "f j \<longleftrightarrow> be_val i < lo (?bs ! j)" if "j < n" for j
    using wfr[OF that] assms(2) by (simp add: f_def bytes_compare_iffs less_id_be_val lo_def wf_range_def)
  have mono: "f b" if "f a" "a \<le> b" "b < n" for a b
  proof (cases "a = b")
    case False
    then have "hi (?bs ! a) \<le> lo (?bs ! b)"
      using tiles_before_after[OF assms(1), of a b] that by (simp add: n_def)
    then show ?thesis using that f[of a] f[of b] lo_less_hi[OF wfr[of a]] by simp
  qed (use that in simp)
  have spec: "r \<le> n" "\<And>a. a < r \<Longrightarrow> \<not> f a" "\<And>a. r \<le> a \<Longrightarrow> a < n \<Longrightarrow> f a"
    unfolding r_def by (rule sort_search_spec[of f n, OF mono]; assumption)+
  have "\<not> f 0" using n f[of 0] tiles_split(1)[OF assms(1), of 0] by (simp add: n_def)
  then have r0: "0 < r" using spec(3)[of 0] n by (auto intro: gr0I)
  have rn: "r \<le> n" by (rule spec(1))
  have bf: "bucket_for rt i = r - 1"
    using r0 unfolding bucket_for_def Let_def r_def n_def f_def[abs_def] by simp
  show "bucket_for rt i < length ?bs" using bf r0 rn by (simp add: n_def)
  have idx: "r - 1 < n" "Suc (r - 1) = r" using r0 rn by auto
  have low: "lo (?bs ! (r - 1)) \<le> be_val i"
    using spec(2)[of "r - 1"] f[OF idx(1)] r0 by simp
  have high: "be_val i < hi (?bs ! (r - 1))"
  proof (cases "r = n")
    case True
    then show ?thesis using tiles_last[OF assms(1), of "r - 1"] idx be_val_id_less[OF assms(2)]
      by (simp add: n_def)
  next
    case False
    then have "r < n" using rn by simp
    then have "be_val i < lo (?bs ! r)" using spec(3)[of r] f[of r] by simp
    then show ?thesis using tiles_next[OF assms(1), of "r - 1"] idx \<open>r < n\<close> by (simp add: n_def)
  qed
  show "contains (?bs ! bucket_for rt i) i"
    using low high wfr[OF idx(1)] assms(2) bf by (simp add: wf_range_contains_iff)
qed

lemma contains_unique:
  assumes "tiles a bs z" and "i < length bs" and "j < length bs" and "wf_id x"
    and "contains (bs ! i) x" and "contains (bs ! j) x"
  shows "i = j"
proof (rule ccontr)
  assume "i \<noteq> j"
  then consider "i < j" | "j < i" by linarith
  then show False
    using tiles_before_after[OF assms(1), of i j] tiles_before_after[OF assms(1), of j i]
      tiles_split(2)[OF assms(1), of i] tiles_split(2)[OF assms(1), of j] assms(2-6)
    by cases (auto simp: wf_range_contains_iff)
qed



subsection \<open>Contents\<close>

definition table_ids :: "table \<Rightarrow> node_id set" where
  "table_ids rt = nid ` set (all_nodes rt)"

text \<open>The nodes of all buckets but \<open>idx\<close>.\<close>

definition others :: "nat \<Rightarrow> table \<Rightarrow> node multiset" where
  "others idx rt = (\<Sum>b \<in># mset (take idx (buckets rt) @ drop (Suc idx) (buckets rt)). mset (members b))"

lemma mset_all_nodes: "mset (all_nodes rt) = (\<Sum>b \<in># mset (buckets rt). mset (members b))"
proof -
  have "mset (concat (map f bs)) = (\<Sum>b \<in># mset bs. mset (f b))" for f :: "bucket \<Rightarrow> node list" and bs
    by (induction bs) auto
  then show ?thesis by (simp add: all_nodes_def members_def)
qed

lemma mset_buckets_at:
  "idx < length (buckets rt) \<Longrightarrow>
     mset (buckets rt) = add_mset (buckets rt ! idx) (mset (take idx (buckets rt) @ drop (Suc idx) (buckets rt)))"
  by (subst id_take_nth_drop) auto

lemma all_nodes_at:
  assumes "idx < length (buckets rt)"
  shows "mset (all_nodes rt) = others idx rt + mset (members (buckets rt ! idx))"
    and "mset (all_nodes (put_bucket idx b rt)) = others idx rt + mset (members b)"
    and "mset (all_nodes (rt\<lparr>buckets := bucket_slice_replace (buckets rt) idx l r\<rparr>)) =
      others idx rt + mset (members l) + mset (members r)"
proof -
  show "mset (all_nodes rt) = others idx rt + mset (members (buckets rt ! idx))"
    unfolding mset_all_nodes mset_buckets_at[OF assms] others_def by simp
  show "mset (all_nodes (put_bucket idx b rt)) = others idx rt + mset (members b)"
    using assms unfolding mset_all_nodes others_def put_bucket_def
    by (simp add: upd_conv_take_nth_drop)
  show "mset (all_nodes (rt\<lparr>buckets := bucket_slice_replace (buckets rt) idx l r\<rparr>)) =
      others idx rt + mset (members l) + mset (members r)"
    unfolding mset_all_nodes others_def bucket_slice_replace_def by simp
qed

lemma wf_table_bucket:
  assumes "wf_table rt" and "idx < length (buckets rt)"
  shows "wf_content (bucket_size rt) (own_id rt) (buckets rt ! idx)" "wf_range (buckets rt ! idx)"
  using assms tiles_split(2)[of 0 "buckets rt" keyspace idx]
  by (auto simp: wf_table_def list_all_length)

lemma other_index:
  assumes "x \<in> set (take i xs) \<union> set (drop (Suc i) xs)"
  shows "\<exists>j < length xs. j \<noteq> i \<and> xs ! j = x"
proof (cases "x \<in> set (take i xs)")
  case True
  then obtain k where "k < length (take i xs)" "take i xs ! k = x" by (metis in_set_conv_nth)
  then show ?thesis by (intro exI[of _ k]) auto
next
  case False
  then obtain k where "k < length (drop (Suc i) xs)" "drop (Suc i) xs ! k = x"
    using assms by (metis Un_iff in_set_conv_nth)
  then show ?thesis by (intro exI[of _ "Suc i + k"]) auto
qed

lemma others_outside:
  assumes "wf_table rt" and "idx < length (buckets rt)" and "x \<in># others idx rt"
  shows "wf_id (nid x) \<and> \<not> contains (buckets rt ! idx) (nid x)"
proof -
  let ?bs = "buckets rt"
  have t: "tiles 0 ?bs keyspace" using assms(1) by (simp add: wf_table_def)
  obtain b where b: "b \<in> set (take idx ?bs) \<union> set (drop (Suc idx) ?bs)" and x: "x \<in> set (members b)"
    using assms(3) by (auto simp: others_def)
  have "\<exists>j < length ?bs. j \<noteq> idx \<and> ?bs ! j = b" using b by (rule other_index)
  then obtain j where j: "j < length ?bs" "j \<noteq> idx" "b = ?bs ! j" by blast
  have "wf_id (nid x) \<and> contains b (nid x)"
    using wf_table_bucket(1)[OF assms(1) j(1)] x j(3) by (simp add: wf_content_def)
  then show ?thesis using contains_unique[OF t j(1) assms(2)] j by blast
qed

lemma id_in_table_iff:
  assumes "wf_table rt" and "wf_id i"
  shows "i \<in> table_ids rt \<longleftrightarrow> i \<in> nid ` set (members (buckets rt ! bucket_for rt i))"
proof -
  have t: "tiles 0 (buckets rt) keyspace" using assms(1) by (simp add: wf_table_def)
  note bf = bucket_for_spec[OF t assms(2)]
  have "set (all_nodes rt) = set_mset (others (bucket_for rt i) rt) \<union> set (members (buckets rt ! bucket_for rt i))"
    using arg_cong[OF all_nodes_at(1)[OF bf(1)], of set_mset] by simp
  then show ?thesis
    using others_outside[OF assms(1) bf(1)] bf(2) by (auto simp: table_ids_def)
qed

lemma wf_put_bucket:
  assumes "wf_table rt" and "idx < length (buckets rt)"
    and "bmin b = bmin (buckets rt ! idx)" "bmax b = bmax (buckets rt ! idx)" "depth b = depth (buckets rt ! idx)"
    and "wf_content (bucket_size rt) (own_id rt) b"
  shows "wf_table (put_bucket idx b rt)"
  using assms tiles_update[of 0 "buckets rt" keyspace idx b] set_update_subset_insert[of "buckets rt" idx b]
  by (auto simp: wf_table_def put_bucket_def list_all_iff)

lemma put_bucket_simps [simp]:
  "own_id (put_bucket idx b rt) = own_id rt" "bucket_size (put_bucket idx b rt) = bucket_size rt"
  "bad_threshold (put_bucket idx b rt) = bad_threshold rt"
  "stale_threshold (put_bucket idx b rt) = stale_threshold rt"
  "has_pinger (put_bucket idx b rt) = has_pinger rt"
  by (simp_all add: put_bucket_def)

lemma contains_same_bounds:
  "bmin b = bmin c \<Longrightarrow> bmax b = bmax c \<Longrightarrow> contains b i = contains c i"
  by (simp add: contains_def)

text \<open>Every identifier occurs once in the whole table.\<close>

lemma distinct_all_ids:
  assumes "wf_table rt"
  shows "distinct (map nid (all_nodes rt))"
proof -
  have t: "tiles 0 (buckets rt) keyspace" using assms by (simp add: wf_table_def)
  have "distinct (map nid (concat (map members bs)))"
    if "tiles a bs z" "list_all (wf_content (bucket_size rt) (own_id rt)) bs" for a bs z
    using that
  proof (induction a bs z rule: tiles.induct)
    case (2 a b bs z)
    have inb: "contains b (nid x) \<and> wf_id (nid x)" if "x \<in> set (members b)" for x
      using 2 that by (simp add: wf_content_def)
    have notb: "\<not> contains b (nid x)" if "x \<in> set (members c)" "c \<in> set bs" for x c
    proof -
      have "hi b \<le> lo c \<and> wf_range c" using 2 that tiles_range by simp blast
      moreover have "contains c (nid x) \<and> wf_id (nid x)"
        using 2 that by (auto simp: list_all_iff wf_content_def)
      ultimately show ?thesis using 2 by (auto simp: wf_range_contains_iff)
    qed
    have "distinct (map nid (members b))" using 2 by (simp add: wf_content_def)
    moreover have "nid ` set (members b) \<inter> nid ` (\<Union>c \<in> set bs. set (members c)) = {}"
      using inb notb by force
    ultimately show ?case using 2 by (simp add: inf_commute image_Un)
  qed simp
  then have "distinct (map nid (concat (map members (buckets rt))))"
    using t assms by (simp add: wf_table_def)
  moreover have "members = (\<lambda>b. nodes b @ replacement b)" by (rule ext) (simp add: members_def)
  ultimately show ?thesis by (simp add: all_nodes_def)
qed



subsection \<open>Splitting\<close>

lemma fold_zero_tail:
  "length i = 20 \<Longrightarrow> q \<le> 20 \<Longrightarrow> fold (\<lambda>j i. i[j := 0]) [q..<20] i = take q i @ replicate (20 - q) (0::byte)"
proof (induction "20 - q" arbitrary: q i)
  case (Suc n)
  then have q: "q < 20" by simp
  have "fold (\<lambda>j i. i[j := 0]) [q..<20] i = fold (\<lambda>j i. i[j := 0]) [Suc q..<20] (i[q := 0])"
    using q by (simp add: upt_conv_Cons)
  also have "\<dots> = take (Suc q) (i[q := 0]) @ replicate (20 - Suc q) 0"
    using Suc by simp
  also have "\<dots> = take q i @ 0 # replicate (20 - Suc q) 0"
    using Suc.prems q by (simp add: take_Suc_conv_app_nth)
  also have "0 # replicate (20 - Suc q) 0 = replicate (20 - q) (0::byte)"
    using q by (simp add: Suc_diff_Suc flip: replicate_Suc)
  finally show ?case .
qed simp

lemma split_point_value:
  assumes "length m = 20" and "d < 160" and "2 ^ (160 - d) dvd be_val m"
  shows "\<exists>mid. split_point m d = Inr mid \<and> wf_id mid \<and> be_val mid = be_val m + 2 ^ (159 - d)"
proof -
  define q where "q = d div 8"
  define e where "e = 7 - d mod 8"
  define P where "P = (256::nat) ^ (19 - q)"
  define y where "y = (m ! q OR push_bit e 1) AND NOT (push_bit e 1 - 1)"
  let ?mid = "take q m @ y # replicate (19 - q) 0"
  have q: "q < 20" and e: "e < 8" and e1: "8 - d mod 8 = e + 1"
    using assms(2) by (auto simp: q_def e_def)
  have size: "(2::nat) ^ (159 - d) = 2 ^ e * P"
  proof -
    have "(2::nat) * 2 ^ (159 - d) = 2 ^ (160 - d)" using assms(2) by (simp flip: power_Suc add: Suc_diff_le)
    also have "\<dots> = 2 * (2 ^ e * P)" using range_size[OF assms(2)] by (simp add: e1 q_def P_def)
    finally show ?thesis by simp
  qed
  have al: "be_val (drop (Suc q) m) = 0" "2 ^ (e + 1) dvd unat (m ! q)"
    using aligned_id[OF assms] by (simp_all add: q_def e1)
  have y: "unat y = unat (m ! q) + 2 ^ e"
    using set_split_bit[OF e al(2)] by (simp only: y_def)
  have "split_point m d = Inr ?mid"
  proof -
    have upd: "m[q := x, q := z] = take q m @ z # drop (Suc q) m" for x z
      using q assms(1) by (simp add: upd_conv_take_nth_drop)
    have nth: "m[q := x] ! q = x" for x using q assms(1) by simp
    have "fold (\<lambda>j i. i[j := 0]) [q + 1..<20] (take q m @ y # drop (Suc q) m) = ?mid"
      using fold_zero_tail[of "take q m @ y # drop (Suc q) m" "q + 1"] q assms(1) by simp
    then show ?thesis
      using q unfolding split_point_def Let_def q_def[symmetric] e_def[symmetric] nth upd y_def[symmetric] by simp
  qed
  moreover have wf: "wf_id ?mid" using q assms(1) by (simp add: wf_id_def)
  moreover have "be_val ?mid = be_val m + 2 ^ (159 - d)"
  proof -
    have "be_val ?mid = be_val (take q m) * 256 ^ (20 - q) + unat y * P"
      using split_at_byte[of ?mid q] q wf assms(1) by (simp add: wf_id_def nth_append P_def)
    moreover have "be_val m = be_val (take q m) * 256 ^ (20 - q) + unat (m ! q) * P"
      using split_at_byte[OF assms(1) q] al(1) by (simp add: P_def)
    ultimately show ?thesis unfolding y size by (simp add: distrib_right)
  qed
  ultimately show ?thesis by blast
qed

text \<open>A split halves the range and deals the nodes out by range; nothing is lost or doubled.\<close>

lemma split_bucket_spec:
  assumes "wf_range b" and "depth b < 160"
  shows "\<exists>l r. split_bucket now b = Inr (l, r) \<and> wf_range l \<and> wf_range r \<and>
    lo l = lo b \<and> hi l = lo r \<and> hi r = hi b \<and>
    nodes l = filter (\<lambda>n. contains l (nid n)) (nodes b) \<and>
    nodes r = filter (\<lambda>n. \<not> contains l (nid n)) (nodes b) \<and>
    replacement l = filter (\<lambda>n. contains l (nid n)) (replacement b) \<and>
    replacement r = filter (\<lambda>n. \<not> contains l (nid n)) (replacement b)"
proof -
  let ?h = "2 ^ (159 - depth b) :: nat"
  have wf: "length (bmin b) = 20" "wf_id (bmax b)" "2 ^ (160 - depth b) dvd lo b"
    "hi b = lo b + 2 ^ (160 - depth b)"
    using assms(1) by (auto simp: wf_range_def wf_id_def)
  obtain mid where mid: "split_point (bmin b) (depth b) = Inr mid" "wf_id mid" "be_val mid = lo b + ?h"
    using split_point_value[OF wf(1) assms(2)] wf(3) by (auto simp: lo_def)
  have double: "(2::nat) ^ (160 - depth b) = ?h + ?h"
  proof -
    have "160 - depth b = Suc (159 - depth b)" using assms(2) by simp
    then show ?thesis by (simp only: power_Suc mult_2)
  qed
  have "?h dvd lo b" using wf(3) by (rule dvd_trans[rotated]) (simp add: le_imp_power_dvd)
  have nz: "mid \<noteq> zero_id" using mid(3) by auto
  define l r where
    "l = \<lparr>bmin = bmin b, bmax = mid, depth = depth b + 1, nodes = [], replacement = [], last_changed = now\<rparr>" and
    "r = \<lparr>bmin = mid, bmax = bmax b, depth = depth b + 1, nodes = [], replacement = [], last_changed = now\<rparr>"
  let ?l = "l\<lparr>nodes := filter (\<lambda>n. contains l (nid n)) (nodes b),
              replacement := filter (\<lambda>n. contains l (nid n)) (replacement b)\<rparr>"
  let ?r = "r\<lparr>nodes := filter (\<lambda>n. \<not> contains l (nid n)) (nodes b),
              replacement := filter (\<lambda>n. \<not> contains l (nid n)) (replacement b)\<rparr>"
  have "split_bucket now b = Inr (?l, ?r)"
    by (simp add: split_bucket_def mid(1) l_def r_def Let_def)
  moreover have "contains ?l = contains l" by (rule ext) (simp add: contains_def)
  moreover have "lo ?l = lo b" "lo ?r = lo b + ?h" "hi ?l = lo b + ?h" "hi ?r = hi b"
    using nz mid(3) by (auto simp: lo_def hi_def l_def r_def)
  moreover have "wf_range ?l" "wf_range ?r"
    using wf assms mid \<open>?h dvd lo b\<close> double calculation(3-6)
    by (auto simp: wf_range_def wf_id_def l_def r_def)
  ultimately show ?thesis by (intro exI[of _ ?l] exI[of _ ?r]) simp
qed



lemma wf_split:
  assumes wf: "wf_table rt" and idx: "idx < length (buckets rt)" and b: "b = buckets rt ! idx"
    and own: "contains b (own_id rt)" and split: "split_bucket now b = Inr (l, r)"
  shows "wf_table (rt\<lparr>buckets := bucket_slice_replace (buckets rt) idx l r\<rparr>)"
    and "mset (all_nodes (rt\<lparr>buckets := bucket_slice_replace (buckets rt) idx l r\<rparr>)) = mset (all_nodes rt)"
proof -
  have wfb: "wf_content (bucket_size rt) (own_id rt) b" "wf_range b"
    using wf_table_bucket[OF wf idx] b by auto
  have d: "depth b < 160" using split_bucket_depth[OF split] by simp
  have t: "tiles 0 (buckets rt) keyspace" using wf by (simp add: wf_table_def)
  have s: "wf_range l" "wf_range r" "lo l = lo b" "hi l = lo r" "hi r = hi b"
    "nodes l = filter (\<lambda>n. contains l (nid n)) (nodes b)"
    "nodes r = filter (\<lambda>n. \<not> contains l (nid n)) (nodes b)"
    "replacement l = filter (\<lambda>n. contains l (nid n)) (replacement b)"
    "replacement r = filter (\<lambda>n. \<not> contains l (nid n)) (replacement b)"
    using split_bucket_spec[OF wfb(2) d, of now] split by auto
  have norep: "replacement b = []" using wfb(1) own by (auto simp: wf_content_def)
  have right: "contains r (nid x)" if "x \<in> set (nodes b)" "\<not> contains l (nid x)" for x
  proof -
    have "wf_id (nid x)" "contains b (nid x)"
      using wfb(1) that(1) by (auto simp: wf_content_def members_def)
    then show ?thesis using that(2) s(1-5) wfb(2) by (auto simp: wf_range_contains_iff)
  qed
  have len: "length (filter P (nodes b)) \<le> bucket_size rt" for P
    using wfb(1) by (auto simp: wf_content_def intro: le_trans[OF length_filter_le])
  have dist: "distinct (map nid (nodes b))" and ids: "\<forall>x \<in> set (nodes b). wf_id (nid x)"
    using wfb(1) by (auto simp: wf_content_def members_def)
  have "wf_content (bucket_size rt) (own_id rt) l" "wf_content (bucket_size rt) (own_id rt) r"
    using len dist ids right norep s(6-9)
    by (auto simp: wf_content_def members_def distinct_map_filter)
  then show "wf_table (rt\<lparr>buckets := bucket_slice_replace (buckets rt) idx l r\<rparr>)"
    using wf tiles_split[OF t idx] s(1-5) b
    by (auto simp: wf_table_def bucket_slice_replace_def tiles_append list_all_iff
        dest: in_set_takeD in_set_dropD)
  have "mset (nodes l) + mset (nodes r) = mset (nodes b)"
    unfolding s(6,7) by (simp flip: multiset_partition)
  then show "mset (all_nodes (rt\<lparr>buckets := bucket_slice_replace (buckets rt) idx l r\<rparr>)) = mset (all_nodes rt)"
    using norep s(8,9) b by (simp add: all_nodes_at[OF idx] members_def)
qed

text \<open>A bucket that is full, holds our own identifier and not the new one can be split.\<close>

lemma split_possible:
  assumes wf: "wf_table rt" and idx: "idx < length (buckets rt)" and b: "b = buckets rt ! idx"
    and own: "contains b (own_id rt)" and full: "is_full (bucket_size rt) b"
    and i: "wf_id i" "contains b i" "\<not> has_id i (nodes b)"
  shows "depth b < 160"
proof (rule ccontr)
  assume "\<not> depth b < 160"
  have wfb: "wf_content (bucket_size rt) (own_id rt) b" "wf_range b"
    using wf_table_bucket[OF wf idx] b by auto
  then have one: "hi b = lo b + 1"
    using \<open>\<not> depth b < 160\<close> by (auto simp: wf_range_def)
  have "length (nodes b) \<noteq> 0" using full wf by (simp add: is_full_def wf_table_def)
  then obtain x where x: "x \<in> set (nodes b)" by (cases "nodes b") auto
  then have "wf_id (nid x)" "contains b (nid x)"
    using wfb(1) by (auto simp: wf_content_def members_def)
  then have "be_val (nid x) = be_val i" using i one wfb(2) by (auto simp: wf_range_contains_iff)
  then have "nid x = i" using be_val_id_inject \<open>wf_id (nid x)\<close> i(1) by blast
  then show False using i(3) x by (auto simp: has_id_iff)
qed


subsection \<open>Updating one entry\<close>

lemma update_first_unique:
  "distinct (map nid xs) \<Longrightarrow> update_first (\<lambda>x. nid x = i) f xs = map (\<lambda>x. if nid x = i then f x else x) xs"
proof (induction xs)
  case (Cons x xs)
  have "nid x = i \<Longrightarrow> map (\<lambda>x. if nid x = i then f x else x) xs = xs"
    using Cons.prems by (intro map_idI) (auto simp: image_iff)
  then show ?case using Cons by auto
qed simp

lemma map_other_id: "i \<notin> nid ` set xs \<Longrightarrow> map (\<lambda>x. if nid x = i then f x else x) xs = xs"
  by (intro map_idI) auto

lemma image_other_id:
  "\<forall>x \<in># M. nid x \<noteq> i \<Longrightarrow> image_mset (\<lambda>x. if nid x = i then f x else x) M = M"
  by (induction M) auto

text \<open>Changing only the node with one identifier, in a bucket's nodes or replacements.\<close>

definition touch :: "node_id \<Rightarrow> (node \<Rightarrow> node) \<Rightarrow> node \<Rightarrow> node" where
  "touch i f x = (if nid x = i then f x else x)"

lemma wf_content_members:
  assumes "wf_content k own b" and "map nid (nodes b') = map nid (nodes b)"
    and "map nid (replacement b') = map nid (replacement b)"
    and "bmin b' = bmin b" "bmax b' = bmax b"
  shows "wf_content k own b'"
proof -
  have len: "length (nodes b') = length (nodes b)" "length (replacement b') = length (replacement b)"
    using assms(2,3) by (metis length_map)+
  have ids: "map nid (members b') = map nid (members b)" using assms(2,3) by (simp add: members_def)
  have "wf_id (nid n) \<and> contains b (nid n)" if "n \<in> set (members b')" for n
  proof -
    have "nid n \<in> set (map nid (members b))" using that unfolding ids[symmetric] by simp
    then show ?thesis using assms(1) by (auto simp: wf_content_def)
  qed
  moreover have "replacement b' = [] \<longleftrightarrow> replacement b = []" using len(2) by (metis length_0_conv)
  moreover have "contains b' = contains b" using assms(4,5) by (intro ext contains_same_bounds)
  ultimately show ?thesis using assms(1) len ids by (simp add: wf_content_def is_full_def)
qed

lemma touch_bucket:
  assumes wf: "wf_table rt" and i: "wf_id i" and idx: "idx = bucket_for rt i"
    and f: "\<And>x. nid (f x) = nid x"
    and b: "b = buckets rt ! idx"
    and b': "bmin b' = bmin b" "bmax b' = bmax b" "depth b' = depth b"
      "nodes b' = map (touch i f) (nodes b)" "replacement b' = map (touch i f) (replacement b)"
  shows "wf_table (put_bucket idx b' rt)"
    "mset (all_nodes (put_bucket idx b' rt)) = image_mset (touch i f) (mset (all_nodes rt))"
proof -
  have t: "tiles 0 (buckets rt) keyspace" using wf by (simp add: wf_table_def)
  have len: "idx < length (buckets rt)" and c: "contains b i"
    using bucket_for_spec[OF t i] idx b by auto
  have nid: "nid (touch i f x) = nid x" for x by (simp add: touch_def f)
  have "wf_content (bucket_size rt) (own_id rt) b'"
    by (rule wf_content_members[OF wf_table_bucket(1)[OF wf len]]) (use b b' nid in auto)
  then show "wf_table (put_bucket idx b' rt)"
    using b b' wf len by (intro wf_put_bucket) auto
  have "\<forall>x \<in># others idx rt. nid x \<noteq> i"
    using others_outside[OF wf len] c b by auto
  then have "image_mset (touch i f) (others idx rt) = others idx rt"
    unfolding touch_def[abs_def] by (rule image_other_id)
  moreover have "mset (members b') = image_mset (touch i f) (mset (members b))"
    using b' by (simp add: members_def)
  ultimately show "mset (all_nodes (put_bucket idx b' rt)) = image_mset (touch i f) (mset (all_nodes rt))"
    using b all_nodes_at(1)[OF len] all_nodes_at(2)[OF len] by simp
qed

lemma update_first_touch:
  "distinct (map nid xs) \<Longrightarrow> update_first (\<lambda>x. nid x = i) f xs = map (touch i f) xs"
  by (simp add: update_first_unique touch_def)

lemma map_touch_other: "i \<notin> nid ` set xs \<Longrightarrow> map (touch i f) xs = xs"
  unfolding touch_def[abs_def] by (rule map_other_id)



subsection \<open>Insertion\<close>

text \<open>
  What an insertion does to the contents of the table, by its result. The contents are a multiset:
  the order of the buckets plays no part.
\<close>

definition insert_effect :: "node \<Rightarrow> table \<Rightarrow> insert_result \<Rightarrow> table \<Rightarrow> bool" where
  "insert_effect n rt res rt' =
     (case res of
        Updated \<Rightarrow> nid n \<in> table_ids rt \<and>
          mset (all_nodes rt') = image_mset (touch (nid n) (refresh_node n)) (mset (all_nodes rt))
      | Inserted \<Rightarrow> nid n \<notin> table_ids rt \<and> mset (all_nodes rt') = add_mset n (mset (all_nodes rt))
      | Cached \<Rightarrow> nid n \<notin> table_ids rt \<and> mset (all_nodes rt') = add_mset n (mset (all_nodes rt))
      | Dropped \<Rightarrow> nid n \<notin> table_ids rt \<and> mset (all_nodes rt') = mset (all_nodes rt))"

definition same_params :: "table \<Rightarrow> table \<Rightarrow> bool" where
  "same_params rt rt' \<longleftrightarrow> own_id rt' = own_id rt \<and> bucket_size rt' = bucket_size rt \<and>
     bad_threshold rt' = bad_threshold rt \<and> stale_threshold rt' = stale_threshold rt \<and>
     has_pinger rt' = has_pinger rt"

lemma same_params_put [simp]: "same_params rt (put_bucket idx b rt)"
  by (simp add: same_params_def)

lemma same_params_refl [simp]: "same_params rt rt"
  by (simp add: same_params_def)

lemma table_ids_mset: "mset (all_nodes rt') = mset (all_nodes rt) \<Longrightarrow> table_ids rt' = table_ids rt"
  unfolding table_ids_def by (metis set_mset_mset)

lemma nid_refresh [simp]: "nid (refresh_node n x) = nid x"
  by (simp add: refresh_node_def)

lemma nid_fail [simp]: "nid (fail_node x) = nid x"
  by (simp add: fail_node_def)

lemma insert_updates:
  assumes wf: "wf_table rt" and i: "wf_id (nid n)" and b: "b = buckets rt ! bucket_for rt (nid n)"
  shows "has_id (nid n) (nodes b) \<Longrightarrow> b' = b\<lparr>nodes := update_first (\<lambda>x. nid x = nid n) (refresh_node n) (nodes b)\<rparr> \<Longrightarrow>
      wf_table (put_bucket (bucket_for rt (nid n)) b' rt) \<and>
      insert_effect n rt Updated (put_bucket (bucket_for rt (nid n)) b' rt)"
    and "has_id (nid n) (replacement b) \<Longrightarrow>
      b' = b\<lparr>replacement := update_first (\<lambda>x. nid x = nid n) (refresh_node n) (replacement b)\<rparr> \<Longrightarrow>
      wf_table (put_bucket (bucket_for rt (nid n)) b' rt) \<and>
      insert_effect n rt Updated (put_bucket (bucket_for rt (nid n)) b' rt)"
proof -
  have t: "tiles 0 (buckets rt) keyspace" using wf by (simp add: wf_table_def)
  have len: "bucket_for rt (nid n) < length (buckets rt)" using bucket_for_spec[OF t i] by blast
  have dist: "distinct (map nid (nodes b))" "distinct (map nid (replacement b))"
    "nid ` set (nodes b) \<inter> nid ` set (replacement b) = {}"
    using wf_table_bucket(1)[OF wf len] b by (auto simp: wf_content_def members_def)
  note tb = touch_bucket[OF wf i refl nid_refresh[of n] b]
  {
    assume h: "has_id (nid n) (nodes b)"
      and b': "b' = b\<lparr>nodes := update_first (\<lambda>x. nid x = nid n) (refresh_node n) (nodes b)\<rparr>"
    have "replacement b' = map (touch (nid n) (refresh_node n)) (replacement b)"
      using h b' dist(3) by (subst map_touch_other) (auto simp: has_id_iff)
    moreover have "nid n \<in> table_ids rt"
      using id_in_table_iff[OF wf i] h b by (auto simp: has_id_iff members_def)
    ultimately show "wf_table (put_bucket (bucket_for rt (nid n)) b' rt) \<and>
      insert_effect n rt Updated (put_bucket (bucket_for rt (nid n)) b' rt)"
      using tb[of b'] b' dist(1) by (simp add: insert_effect_def update_first_touch)
  }
  {
    assume h: "has_id (nid n) (replacement b)"
      and b': "b' = b\<lparr>replacement := update_first (\<lambda>x. nid x = nid n) (refresh_node n) (replacement b)\<rparr>"
    have "nodes b' = map (touch (nid n) (refresh_node n)) (nodes b)"
      using h b' dist(3) by (subst map_touch_other) (auto simp: has_id_iff)
    moreover have "nid n \<in> table_ids rt"
      using id_in_table_iff[OF wf i] h b by (auto simp: has_id_iff members_def)
    ultimately show "wf_table (put_bucket (bucket_for rt (nid n)) b' rt) \<and>
      insert_effect n rt Updated (put_bucket (bucket_for rt (nid n)) b' rt)"
      using tb[of b'] b' dist(2) by (simp add: insert_effect_def update_first_touch)
  }
qed

lemma insert_appends:
  assumes wf: "wf_table rt" and i: "wf_id (nid n)" and b: "b = buckets rt ! bucket_for rt (nid n)"
    and new: "\<not> has_id (nid n) (nodes b)"
  shows "\<not> is_full (bucket_size rt) b \<Longrightarrow> b' = b\<lparr>nodes := nodes b @ [n], last_changed := now\<rparr> \<Longrightarrow>
      wf_table (put_bucket (bucket_for rt (nid n)) b' rt) \<and>
      insert_effect n rt Inserted (put_bucket (bucket_for rt (nid n)) b' rt)"
    and "is_full (bucket_size rt) b \<Longrightarrow> \<not> contains b (own_id rt) \<Longrightarrow>
      \<not> has_id (nid n) (replacement b) \<Longrightarrow> length (replacement b) < bucket_size rt \<Longrightarrow>
      b' = b\<lparr>replacement := replacement b @ [n]\<rparr> \<Longrightarrow>
      wf_table (put_bucket (bucket_for rt (nid n)) b' rt) \<and>
      insert_effect n rt Cached (put_bucket (bucket_for rt (nid n)) b' rt)"
proof -
  have t: "tiles 0 (buckets rt) keyspace" using wf by (simp add: wf_table_def)
  have len: "bucket_for rt (nid n) < length (buckets rt)" and c: "contains b (nid n)"
    using bucket_for_spec[OF t i] b by auto
  have wfb: "wf_content (bucket_size rt) (own_id rt) b" using wf_table_bucket(1)[OF wf len] b by simp
  note id_in = id_in_table_iff[OF wf i]
  {
    assume f: "\<not> is_full (bucket_size rt) b" and b': "b' = b\<lparr>nodes := nodes b @ [n], last_changed := now\<rparr>"
    have norep: "replacement b = []" using f wfb by (auto simp: wf_content_def)
    have "contains b' = contains b" using b' by (intro ext contains_same_bounds) simp_all
    then have "wf_content (bucket_size rt) (own_id rt) b'"
      using wfb f new norep c i b'
      by (auto simp: wf_content_def members_def is_full_def has_id_iff)
    then have "wf_table (put_bucket (bucket_for rt (nid n)) b' rt)"
      using b b' by (intro wf_put_bucket[OF wf len]) auto
    moreover have "nid n \<notin> table_ids rt" using id_in new norep b by (simp add: has_id_iff members_def)
    ultimately show "wf_table (put_bucket (bucket_for rt (nid n)) b' rt) \<and>
      insert_effect n rt Inserted (put_bucket (bucket_for rt (nid n)) b' rt)"
      using b b' all_nodes_at(1)[OF len] all_nodes_at(2)[OF len, of b'] norep
      by (simp add: insert_effect_def members_def)
  }
  {
    assume f: "is_full (bucket_size rt) b" "\<not> contains b (own_id rt)" "\<not> has_id (nid n) (replacement b)"
      "length (replacement b) < bucket_size rt" and b': "b' = b\<lparr>replacement := replacement b @ [n]\<rparr>"
    have "contains b' = contains b" using b' by (intro ext contains_same_bounds) simp_all
    then have "wf_content (bucket_size rt) (own_id rt) b'"
      using wfb f new c i b'
      by (auto simp: wf_content_def members_def is_full_def has_id_iff)
    then have "wf_table (put_bucket (bucket_for rt (nid n)) b' rt)"
      using b b' by (intro wf_put_bucket[OF wf len]) auto
    moreover have "nid n \<notin> table_ids rt" using id_in new f b by (auto simp: has_id_iff members_def)
    ultimately show "wf_table (put_bucket (bucket_for rt (nid n)) b' rt) \<and>
      insert_effect n rt Cached (put_bucket (bucket_for rt (nid n)) b' rt)"
      using b b' all_nodes_at(1)[OF len] all_nodes_at(2)[OF len, of b']
      by (simp add: insert_effect_def members_def)
  }
qed

text \<open>All of it in one statement, by the recursion of \<^verbatim>\<open>insert\<close>.\<close>

lemma insert_node_correct:
  assumes "wf_table rt" and "wf_id (nid n)"
  shows "\<exists>res rt' ps. insert_node now n rt = Inr (res, rt', ps) \<and> wf_table rt' \<and> same_params rt rt' \<and>
    insert_effect n rt res rt' \<and>
    (\<forall>p \<in> set ps. res = Cached \<and> has_pinger rt \<and> (\<exists>x \<in> set (all_nodes rt). p = (naddr x, nid x)))"
  using assms
proof (induction now n rt rule: insert_node.induct)
  case (1 now n rt)
  define idx where "idx = bucket_for rt (nid n)"
  define b where "b = buckets rt ! idx"
  note wf = "1.prems"(1) and i = "1.prems"(2)
  have t: "tiles 0 (buckets rt) keyspace" using wf by (simp add: wf_table_def)
  have len: "idx < length (buckets rt)" and c: "contains b (nid n)"
    using bucket_for_spec[OF t i] by (auto simp: idx_def b_def)
  note upd = insert_updates[OF wf i b_def[unfolded idx_def], folded idx_def]
  note app = insert_appends[OF wf i b_def[unfolded idx_def], folded idx_def]
  note step = insert_node.simps[of now n rt, unfolded Let_def, folded idx_def, folded b_def]
  have wfb: "wf_content (bucket_size rt) (own_id rt) b"
    using wf_table_bucket(1)[OF wf len] by (simp add: b_def)
  have in_table: "set (members b) \<subseteq> set (all_nodes rt)"
    using nth_mem[OF len] by (fastforce simp: all_nodes_def members_def b_def)
  consider "has_id (nid n) (nodes b)"
    | "\<not> has_id (nid n) (nodes b)" "\<not> is_full (bucket_size rt) b"
    | "\<not> has_id (nid n) (nodes b)" "is_full (bucket_size rt) b" "contains b (own_id rt)"
    | "\<not> has_id (nid n) (nodes b)" "is_full (bucket_size rt) b" "\<not> contains b (own_id rt)"
      "has_id (nid n) (replacement b)"
    | "\<not> has_id (nid n) (nodes b)" "is_full (bucket_size rt) b" "\<not> contains b (own_id rt)"
      "\<not> has_id (nid n) (replacement b)" "length (replacement b) < bucket_size rt"
    | "\<not> has_id (nid n) (nodes b)" "is_full (bucket_size rt) b" "\<not> contains b (own_id rt)"
      "\<not> has_id (nid n) (replacement b)" "\<not> length (replacement b) < bucket_size rt"
    by blast
  then show ?case
  proof cases
    case 1
    then show ?thesis using len upd(1)[OF 1 refl] by (simp add: step)
  next
    case 2
    then show ?thesis using len app(1)[OF 2 refl] by (simp add: step)
  next
    case 3
    have d: "depth b < 160" by (rule split_possible[OF wf len b_def 3(3,2) i c 3(1)])
    obtain l r where lr: "split_bucket now b = Inr (l, r)"
      using split_bucket_spec[OF wf_table_bucket(2)[OF wf len], of now] d by (auto simp: b_def)
    let ?rt = "rt\<lparr>buckets := bucket_slice_replace (buckets rt) idx l r\<rparr>"
    note sp = wf_split[OF wf len b_def 3(3) lr]
    have ids: "table_ids ?rt = table_ids rt" by (rule table_ids_mset[OF sp(2)])
    have set: "set (all_nodes ?rt) = set (all_nodes rt)" using sp(2) by (metis set_mset_mset)
    have same: "same_params ?rt rt' = same_params rt rt'" "has_pinger ?rt = has_pinger rt"
      "insert_effect n ?rt res rt' = insert_effect n rt res rt'" for res rt'
      by (simp_all only: same_params_def insert_effect_def ids sp(2)) simp_all
    have "\<exists>res rt' ps. insert_node now n ?rt = Inr (res, rt', ps) \<and> wf_table rt' \<and>
        same_params ?rt rt' \<and> insert_effect n ?rt res rt' \<and>
        (\<forall>p \<in> set ps. res = Cached \<and> has_pinger ?rt \<and> (\<exists>x \<in> set (all_nodes ?rt). p = (naddr x, nid x)))"
      by (rule "1.IH"[OF idx_def _ b_def 3(1) _ 3(3) lr refl sp(1) i]) (use len 3(2) in auto)
    moreover have "insert_node now n rt = insert_node now n ?rt" using len 3 lr by (simp add: step)
    ultimately show ?thesis by (simp only: same set)
  next
    case 4
    then show ?thesis using len upd(2)[OF 4(4) refl] by (simp add: step)
  next
    case 5
    have "nodes b \<noteq> [] \<Longrightarrow> hd (nodes b) \<in> set (all_nodes rt)"
      using in_table by (auto simp: members_def)
    then show ?thesis using len 5 app(2)[OF 5 refl] by (auto simp: step)
  next
    case 6
    then have "nid n \<notin> table_ids rt"
      using id_in_table_iff[OF wf i] by (auto simp: has_id_iff members_def b_def idx_def)
    then show ?thesis using len 6 wf by (simp add: step insert_effect_def)
  qed
qed


subsection \<open>Liveness updates\<close>

lemma find_id_None: "find (\<lambda>x. nid x = i) xs = None \<longleftrightarrow> \<not> has_id i xs"
  by (auto simp: find_None_iff has_id_iff)

lemma find_id_Some: "find (\<lambda>x. nid x = i) xs = Some x \<Longrightarrow> x \<in> set xs \<and> nid x = i"
  by (auto simp: find_Some_iff)

lemma mark_success_wf:
  assumes "wf_table rt" and "wf_id i"
  shows "wf_table (mark_success now i rt) \<and> same_params rt (mark_success now i rt)"
proof -
  have t: "tiles 0 (buckets rt) keyspace" using assms by (simp add: wf_table_def)
  note bf = bucket_for_spec[OF t assms(2)]
  show ?thesis unfolding mark_success_def Let_def
    by (intro conjI wf_put_bucket[OF assms(1) bf(1)] wf_content_members[OF wf_table_bucket(1)[OF assms(1) bf(1)]])
      (simp_all add: map_update_first)
qed

text \<open>The effect of a failure on the contents: count it, and drop the node once it is bad.\<close>

definition failure_effect :: "int \<Rightarrow> node_id \<Rightarrow> node multiset \<Rightarrow> node multiset" where
  "failure_effect bad i M =
     {#x \<in># image_mset (touch i fail_node) M. \<not> (nid x = i \<and> is_bad bad x)#}"

lemma failure_effect_union: "failure_effect bad i (M + N) = failure_effect bad i M + failure_effect bad i N"
  by (simp add: failure_effect_def)

lemma failure_effect_other:
  "\<forall>x \<in># M. nid x \<noteq> i \<Longrightarrow> failure_effect bad i M = M"
  by (induction M) (auto simp: failure_effect_def touch_def)

lemma failure_effect_list:
  assumes "distinct (map nid xs)" and "x \<in> set xs" and "nid x = i"
  shows "failure_effect bad i (mset xs) =
    (if is_bad bad (fail_node x) then mset (remove_first (\<lambda>x. nid x = i) xs)
     else mset (update_first (\<lambda>x. nid x = i) fail_node xs))"
  using assms
proof (induction xs)
  case (Cons y xs)
  have single: "failure_effect bad i (mset (y # xs)) = failure_effect bad i {#y#} + failure_effect bad i (mset xs)"
    using failure_effect_union[of bad i "{#y#}" "mset xs"] by simp
  show ?case
  proof (cases "nid y = i")
    case True
    then have "y = x" and "\<forall>z \<in># mset xs. nid z \<noteq> i" using Cons.prems by (auto simp: image_iff)
    then show ?thesis using True single failure_effect_other[of "mset xs" i bad]
      by (simp add: failure_effect_def touch_def)
  next
    case False
    then have "x \<in> set xs" using Cons.prems by auto
    then show ?thesis using False single Cons
      by (simp add: failure_effect_other[of "{#y#}"] del: mset.simps) simp
  qed
qed simp

lemma remove_first_ids:
  assumes "distinct (map nid xs)"
  shows "set (remove_first (\<lambda>x. nid x = i) xs) \<subseteq> set xs" "distinct (map nid (remove_first (\<lambda>x. nid x = i) xs))"
  by (rule set_remove_first_subset) (rule distinct_remove_first[OF assms])

text \<open>What eviction leaves of a bucket is well formed: promotion keeps a bucket with replacements full.\<close>

lemma wf_evict:
  assumes "wf_content k own b" and "has_id i (nodes b)"
  shows "wf_content k own
    (case replacement b of
       [] \<Rightarrow> b\<lparr>nodes := remove_first (\<lambda>x. nid x = i) (nodes b), last_changed := now\<rparr>
     | r # rs \<Rightarrow> b\<lparr>nodes := remove_first (\<lambda>x. nid x = i) (nodes b) @ [r], replacement := rs, last_changed := now\<rparr>)"
    (is "wf_content k own ?b")
proof -
  let ?kept = "remove_first (\<lambda>x. nid x = i) (nodes b)"
  have bd: "contains ?b = contains b" by (intro ext) (simp add: contains_def split: list.split)
  have len: "length ?kept + 1 = length (nodes b)"
  proof -
    have "nodes b \<noteq> []" using assms(2) by (auto simp: has_id_def)
    then show ?thesis using assms(2) by (simp add: has_id_def length_remove_first)
  qed
  have dist: "distinct (map nid (nodes b))" "distinct (map nid (replacement b))"
    "nid ` set (nodes b) \<inter> nid ` set (replacement b) = {}"
    using assms(1) by (auto simp: wf_content_def members_def)
  have sub: "set ?kept \<subseteq> set (nodes b)" "distinct (map nid ?kept)"
    using remove_first_ids[OF dist(1)] by auto
  have disj: "nid ` set ?kept \<inter> nid ` set (replacement b) = {}" using sub(1) dist(3) by blast
  show ?thesis
  proof (cases "replacement b")
    case Nil
    then show ?thesis using assms(1) bd len sub by (auto simp: wf_content_def members_def)
  next
    case (Cons r rs)
    then have "is_full k b" using assms(1) by (simp add: wf_content_def)
    then show ?thesis using Cons assms bd len sub dist disj
      by (auto simp: wf_content_def members_def is_full_def)
  qed
qed


lemma wf_replacement_change:
  assumes wf: "wf_content k own b" and sub: "nid ` set rs \<subseteq> nid ` set (replacement b)"
    and "distinct (map nid rs)" and "length rs \<le> length (replacement b)"
  shows "wf_content k own (b\<lparr>replacement := rs\<rparr>)"
proof -
  have bd: "contains (b\<lparr>replacement := rs\<rparr>) = contains b" by (intro ext contains_same_bounds) simp_all
  have old: "\<forall>n \<in> set (nodes b) \<union> set (replacement b). wf_id (nid n) \<and> contains b (nid n)"
    and dist: "distinct (map nid (nodes b))" "nid ` set (nodes b) \<inter> nid ` set (replacement b) = {}"
    using wf by (auto simp: wf_content_def members_def)
  have "wf_id (nid n) \<and> contains b (nid n)" if "n \<in> set rs" for n
  proof -
    have "nid n \<in> nid ` set (replacement b)" using sub that by blast
    then show ?thesis using old by auto
  qed
  moreover have "rs \<noteq> [] \<longrightarrow> replacement b \<noteq> []" using assms(4) by auto
  moreover have "nid ` set (nodes b) \<inter> nid ` set rs = {}" using dist(2) sub by blast
  ultimately show ?thesis using wf assms(3,4) bd old dist(1)
    by (auto simp: wf_content_def members_def is_full_def)
qed

text \<open>The bucket that a failure leaves, well formed and with the effect on its members.\<close>

definition failed_bucket :: "int \<Rightarrow> instant \<Rightarrow> node_id \<Rightarrow> bucket \<Rightarrow> bucket \<Rightarrow> bool" where
  "failed_bucket bad now i b b' \<longleftrightarrow>
     bmin b' = bmin b \<and> bmax b' = bmax b \<and> depth b' = depth b \<and>
     mset (members b') = failure_effect bad i (mset (members b))"

lemma failed_active:
  assumes wf: "wf_content k own b" and x: "find (\<lambda>x. nid x = i) (nodes b) = Some x"
    and b': "b' = (if \<not> is_bad bad (fail_node x) then b\<lparr>nodes := update_first (\<lambda>x. nid x = i) fail_node (nodes b)\<rparr>
      else case replacement b of
        [] \<Rightarrow> b\<lparr>nodes := remove_first (\<lambda>x. nid x = i) (nodes b), last_changed := now\<rparr>
      | r # rs \<Rightarrow> b\<lparr>nodes := remove_first (\<lambda>x. nid x = i) (nodes b) @ [r], replacement := rs, last_changed := now\<rparr>)"
  shows "wf_content k own b' \<and> failed_bucket bad now i b b'"
proof -
  have h: "has_id i (nodes b)" "x \<in> set (nodes b)" "nid x = i" using find_id_Some[OF x] by (auto simp: has_id_iff)
  have dist: "distinct (map nid (nodes b))" "\<forall>z \<in># mset (replacement b). nid z \<noteq> i"
    using wf h by (force simp: wf_content_def members_def)+
  have fx: "failure_effect bad i (mset (members b)) = failure_effect bad i (mset (nodes b)) + mset (replacement b)"
    using dist(2) by (simp add: members_def failure_effect_union failure_effect_other)
  show ?thesis
  proof (cases "is_bad bad (fail_node x)")
    case True
    then have "b' = (case replacement b of
        [] \<Rightarrow> b\<lparr>nodes := remove_first (\<lambda>x. nid x = i) (nodes b), last_changed := now\<rparr>
      | r # rs \<Rightarrow> b\<lparr>nodes := remove_first (\<lambda>x. nid x = i) (nodes b) @ [r], replacement := rs, last_changed := now\<rparr>)"
      using b' by simp
    then show ?thesis using True wf_evict[OF wf h(1), of now] fx failure_effect_list[OF dist(1) h(2,3), of bad]
      by (auto simp: failed_bucket_def members_def split: list.splits)
  next
    case False
    then have b'': "b' = b\<lparr>nodes := update_first (\<lambda>x. nid x = i) fail_node (nodes b)\<rparr>" using b' by simp
    have "wf_content k own b'"
      by (rule wf_content_members[OF wf]) (simp_all add: b'' map_update_first)
    then show ?thesis using False b'' fx failure_effect_list[OF dist(1) h(2,3), of bad]
      by (simp add: failed_bucket_def members_def)
  qed
qed

lemma failed_replacement:
  assumes wf: "wf_content k own b" and none: "\<not> has_id i (nodes b)"
    and x: "find (\<lambda>x. nid x = i) (rev (replacement b)) = Some x"
    and b': "b' = b\<lparr>replacement := rev
        (if is_bad bad (fail_node x) then remove_first (\<lambda>x. nid x = i) (rev (replacement b))
         else update_first (\<lambda>x. nid x = i) fail_node (rev (replacement b)))\<rparr>"
  shows "wf_content k own b' \<and> failed_bucket bad now i b b'"
proof -
  let ?rs = "rev (replacement b)"
  have h: "x \<in> set ?rs" "nid x = i" using find_id_Some[OF x] by auto
  have dist: "distinct (map nid ?rs)" using wf by (simp add: wf_content_def members_def rev_map[symmetric])
  have "failure_effect bad i (mset (members b)) = mset (nodes b) + failure_effect bad i (mset ?rs)"
    using none failure_effect_other[of "mset (nodes b)" i bad]
    by (simp add: members_def failure_effect_union has_id_iff) blast
  also have "\<dots> = mset (members b')"
    using failure_effect_list[OF dist h, of bad] by (simp add: b' members_def)
  finally have fb: "failed_bucket bad now i b b'" by (simp add: b' failed_bucket_def)
  have upd: "map nid (update_first (\<lambda>x. nid x = i) fail_node ?rs) = map nid ?rs"
    by (simp add: map_update_first)
  have "wf_content k own b'" unfolding b'
  proof (rule wf_replacement_change[OF wf])
    show "nid ` set (rev (if is_bad bad (fail_node x) then remove_first (\<lambda>x. nid x = i) ?rs
        else update_first (\<lambda>x. nid x = i) fail_node ?rs)) \<subseteq> nid ` set (replacement b)"
      using remove_first_ids[OF dist, of i] arg_cong[OF upd, of set] by auto
  qed (use remove_first_ids[OF dist, of i] upd dist in
      \<open>auto simp: length_remove_first rev_map[symmetric]\<close>)
  then show ?thesis using fb by simp
qed

lemma mark_failure_correct:
  assumes wf: "wf_table rt" and i: "wf_id i"
  shows "wf_table (mark_failure now i rt) \<and> same_params rt (mark_failure now i rt) \<and>
    mset (all_nodes (mark_failure now i rt)) = failure_effect (bad_threshold rt) i (mset (all_nodes rt))"
proof -
  define idx where "idx = bucket_for rt i"
  define b where "b = buckets rt ! idx"
  have t: "tiles 0 (buckets rt) keyspace" using wf by (simp add: wf_table_def)
  have len: "idx < length (buckets rt)" and c: "contains b i"
    using bucket_for_spec[OF t i] by (auto simp: idx_def b_def)
  have wfb: "wf_content (bucket_size rt) (own_id rt) b" using wf_table_bucket(1)[OF wf len] by (simp add: b_def)
  have out: "failure_effect (bad_threshold rt) i (others idx rt) = others idx rt"
    using others_outside[OF wf len] c by (intro failure_effect_other) (auto simp: b_def)
  have fin: "wf_table (put_bucket idx b' rt) \<and> same_params rt (put_bucket idx b' rt) \<and>
      mset (all_nodes (put_bucket idx b' rt)) = failure_effect (bad_threshold rt) i (mset (all_nodes rt))"
    if "wf_content (bucket_size rt) (own_id rt) b' \<and> failed_bucket (bad_threshold rt) now i b b'" for b'
    using that all_nodes_at[OF len] out
    by (auto intro!: wf_put_bucket[OF wf len] simp: failed_bucket_def b_def failure_effect_union)
  have step: "mark_failure now i rt = (case find (\<lambda>x. nid x = i) (nodes b) of
        Some x \<Rightarrow> put_bucket idx (if \<not> is_bad (bad_threshold rt) (fail_node x)
            then b\<lparr>nodes := update_first (\<lambda>x. nid x = i) fail_node (nodes b)\<rparr>
          else case replacement b of
            [] \<Rightarrow> b\<lparr>nodes := remove_first (\<lambda>x. nid x = i) (nodes b), last_changed := now\<rparr>
          | r # rs \<Rightarrow> b\<lparr>nodes := remove_first (\<lambda>x. nid x = i) (nodes b) @ [r], replacement := rs, last_changed := now\<rparr>) rt
      | None \<Rightarrow> (case find (\<lambda>x. nid x = i) (rev (replacement b)) of
          None \<Rightarrow> rt
        | Some x \<Rightarrow> put_bucket idx (b\<lparr>replacement := rev
            (if is_bad (bad_threshold rt) (fail_node x) then remove_first (\<lambda>x. nid x = i) (rev (replacement b))
             else update_first (\<lambda>x. nid x = i) fail_node (rev (replacement b)))\<rparr>) rt))"
    unfolding mark_failure_def Let_def b_def idx_def by (auto split: option.split)
  show ?thesis
  proof (cases "find (\<lambda>x. nid x = i) (nodes b)")
    case (Some x)
    show ?thesis unfolding step Some option.case by (rule fin[OF failed_active[OF wfb Some refl]])
  next
    case None
    then have none: "\<not> has_id i (nodes b)" by (simp add: find_id_None)
    show ?thesis
    proof (cases "find (\<lambda>x. nid x = i) (rev (replacement b))")
      case (Some x)
      show ?thesis unfolding step None Some option.case
        by (rule fin[OF failed_replacement[OF wfb none Some refl]])
    next
      case none2: None
      then have "i \<notin> table_ids rt"
        using id_in_table_iff[OF wf i] none find_id_None[of i "rev (replacement b)"]
        by (auto simp: members_def has_id_iff b_def idx_def)
      then have "\<forall>x \<in># mset (all_nodes rt). nid x \<noteq> i" by (auto simp: table_ids_def)
      then show ?thesis unfolding step None none2 option.case using wf by (simp add: failure_effect_other)
    qed
  qed
qed


subsection \<open>A new table, and all sequences of operations\<close>

lemma new_table_wf:
  assumes "wf_id i" and "0 < k"
  shows "wf_table (new_routing_table i k bad stale pinger now)"
  using assms
  by (simp add: new_routing_table_def wf_table_def wf_range_def wf_content_def members_def lo_def
      hi_def keyspace_def)

text \<open>A table with one node, for the concrete instances below.\<close>

definition sample_table :: table where
  "sample_table =
     \<lparr>buckets = [\<lparr>bmin = zero_id, bmax = zero_id, depth = 0,
        nodes = [\<lparr>nid = replicate 20 7, naddr = \<lparr>ip = [192, 0, 2, 1], port = 6881\<rparr>, last_seen = 5, failures = 0\<rparr>],
        replacement = [], last_changed = 5\<rparr>],
      own_id = replicate 20 1, bucket_size = 8, bad_threshold = 1, stale_threshold = 0, has_pinger = True\<rparr>"

lemma sample_table_wf: "wf_table sample_table"
proof -
  have le: "zero_id \<le> replicate 20 7"
    using le_id_be_val[of zero_id "replicate 20 7", OF wf_zero_id] by (simp add: wf_id_def)
  have wf_rep: "wf_id (replicate 20 b)" for b by (simp add: wf_id_def)
  have "contains \<lparr>bmin = zero_id, bmax = zero_id, depth = 0, nodes = ns, replacement = [], last_changed = 5\<rparr>
      (replicate 20 7)" for ns
    using le by (simp add: contains_def bytes_compare_iffs)
  then show ?thesis
    by (simp add: sample_table_def wf_table_def wf_range_def wf_content_def members_def lo_def hi_def
        keyspace_def wf_rep)
qed

datatype table_op = Insert instant node | Insert_Valid instant node | Success instant node_id | Failure instant node_id

fun table_step :: "table_op \<Rightarrow> table \<Rightarrow> table" where
  "table_step (Insert now n) rt = (case insert_node now n rt of Inl p \<Rightarrow> rt | Inr (res, rt', ps) \<Rightarrow> rt')"
| "table_step (Insert_Valid now n) rt = (case insert_valid_node now n rt of Inl p \<Rightarrow> rt | Inr (res, rt', ps) \<Rightarrow> rt')"
| "table_step (Success now i) rt = mark_success now i rt"
| "table_step (Failure now i) rt = mark_failure now i rt"

fun op_id :: "table_op \<Rightarrow> node_id" where
  "op_id (Insert now n) = nid n"
| "op_id (Insert_Valid now n) = nid n"
| "op_id (Success now i) = i"
| "op_id (Failure now i) = i"

lemma table_step_wf:
  assumes "wf_table rt" and "wf_id (op_id a)"
  shows "wf_table (table_step a rt)"
proof (cases a)
  case (Insert now n)
  then show ?thesis using assms insert_node_correct[of rt n now] by auto
next
  case (Insert_Valid now n)
  then show ?thesis using assms insert_node_correct[of rt n now]
    by (auto simp: insert_valid_node_def split: sum.splits)
qed (use assms mark_success_wf mark_failure_correct in auto)

interpretation rt_ops: machine table_step wf_table "\<lambda>a. wf_id (op_id a)"
  by unfold_locales (rule table_step_wf)

text \<open>
  C3. The table is well formed after every sequence of operations: starting from the table of
  \<^verbatim>\<open>NewRoutingTable\<close>, the buckets always tile the keyspace in order, each bucket holds at most
  \<open>k\<close> nodes and \<open>k\<close> replacements, all in its range, and no identifier occurs twice anywhere.
\<close>

theorem table_always_wf:
  assumes "wf_id i" and "0 < k" and "list_all (\<lambda>a. wf_id (op_id a)) ops"
  shows "wf_table (fold table_step ops (new_routing_table i k bad stale pinger now)) \<and>
    distinct (map nid (all_nodes (fold table_step ops (new_routing_table i k bad stale pinger now))))"
proof -
  have "wf_table (fold table_step ops (new_routing_table i k bad stale pinger now))"
    by (rule rt_ops.run_inv[OF new_table_wf[OF assms(1,2)] assms(3)])
  then show ?thesis by (simp add: distinct_all_ids)
qed

theorem table_always_wf_witness:
  "wf_table (fold table_step [Success 5 (replicate 20 2), Failure 6 (replicate 20 3)]
      (new_routing_table (replicate 20 1) 8 3 0 True 0)) \<and>
   distinct (map nid (all_nodes (fold table_step [Success 5 (replicate 20 2), Failure 6 (replicate 20 3)]
      (new_routing_table (replicate 20 1) 8 3 0 True 0))))"
  by (rule table_always_wf) (simp_all add: wf_id_def)

text \<open>
  C2. Insertion returns on every well-formed table, without a panic, and does exactly what its
  result says: "updated" refreshes the one entry with the identifier, "inserted" and "cached" add
  the new node and nothing else, "dropped" changes no contents. Splits on the way lose nothing.
  Only a cached node causes a ping, and the pinged node is in the table.
\<close>

theorem insert_correct:
  assumes "wf_table rt" and "wf_id (nid n)"
  shows "\<exists>res rt' ps. insert_node now n rt = Inr (res, rt', ps) \<and> wf_table rt' \<and> same_params rt rt' \<and>
    insert_effect n rt res rt' \<and>
    (\<forall>p \<in> set ps. res = Cached \<and> has_pinger rt \<and> (\<exists>x \<in> set (all_nodes rt). p = (naddr x, nid x)))"
  by (rule insert_node_correct[OF assms])

theorem insert_correct_witness:
  "\<exists>res rt' ps. insert_node 9 \<lparr>nid = replicate 20 7, naddr = \<lparr>ip = [1,2,3,4], port = 6881\<rparr>, last_seen = 9, failures = 0\<rparr>
      (new_routing_table (replicate 20 1) 8 3 0 True 0) = Inr (res, rt', ps) \<and> wf_table rt' \<and>
    same_params (new_routing_table (replicate 20 1) 8 3 0 True 0) rt' \<and>
    insert_effect \<lparr>nid = replicate 20 7, naddr = \<lparr>ip = [1,2,3,4], port = 6881\<rparr>, last_seen = 9, failures = 0\<rparr>
      (new_routing_table (replicate 20 1) 8 3 0 True 0) res rt' \<and>
    (\<forall>p \<in> set ps. res = Cached \<and> has_pinger (new_routing_table (replicate 20 1) 8 3 0 True 0) \<and>
      (\<exists>x \<in> set (all_nodes (new_routing_table (replicate 20 1) 8 3 0 True 0)). p = (naddr x, nid x)))"
  by (rule insert_correct) (simp_all add: new_table_wf wf_id_def)

text \<open>
  The bucket the binary search finds is the only one whose range holds the identifier.
\<close>

theorem bucket_for_unique:
  assumes "wf_table rt" and "wf_id i"
  shows "bucket_for rt i < length (buckets rt) \<and>
    (\<forall>j < length (buckets rt). contains (buckets rt ! j) i \<longleftrightarrow> j = bucket_for rt i)"
  using assms bucket_for_spec[of rt i] contains_unique[of 0 "buckets rt" keyspace]
  by (auto simp: wf_table_def)

theorem bucket_for_unique_witness:
  "bucket_for sample_table (replicate 20 200) < length (buckets sample_table) \<and>
   contains (buckets sample_table ! bucket_for sample_table (replicate 20 200)) (replicate 20 200)"
  using bucket_for_unique[OF sample_table_wf, of "replicate 20 200"] by (simp add: wf_id_def)

text \<open>
  C25. A failed query counts against exactly one node, and the node is dropped once its failures
  reach the threshold; everything else in the table stays, promoted replacements included.
\<close>

theorem mark_failure_effect:
  assumes "wf_table rt" and "wf_id i"
  shows "wf_table (mark_failure now i rt) \<and> same_params rt (mark_failure now i rt) \<and>
    mset (all_nodes (mark_failure now i rt)) = failure_effect (bad_threshold rt) i (mset (all_nodes rt))"
  by (rule mark_failure_correct[OF assms])

theorem mark_failure_effect_witness:
  "wf_table (mark_failure 9 (replicate 20 7) sample_table) \<and>
   same_params sample_table (mark_failure 9 (replicate 20 7) sample_table) \<and>
   mset (all_nodes (mark_failure 9 (replicate 20 7) sample_table)) =
     failure_effect (bad_threshold sample_table) (replicate 20 7) (mset (all_nodes sample_table))"
  by (rule mark_failure_effect) (simp_all add: sample_table_wf wf_id_def)


subsection \<open>The closest nodes\<close>

lemma closest_candidates_filter:
  "closest_candidates rt = filter (\<lambda>n. \<not> is_bad (bad_threshold rt) n) (all_nodes rt)"
proof -
  have "concat (map (\<lambda>b. filter P (nodes b) @ filter P (replacement b)) bs) =
      filter P (concat (map (\<lambda>b. nodes b @ replacement b) bs))" for P bs
    by (induction bs) auto
  then show ?thesis by (simp add: closest_candidates_def all_nodes_def)
qed

lemma take_min_length: "take (min n (length xs)) xs = take n xs"
  by (simp add: min_def)

lemma xor_inj_on:
  assumes "wf_table rt" and "wf_id t"
  shows "inj_on (\<lambda>x. xor_id t (nid x)) (set (all_nodes rt))"
proof (rule inj_onI)
  fix x y assume x: "x \<in> set (all_nodes rt)" and y: "y \<in> set (all_nodes rt)"
    and eq: "xor_id t (nid x) = xor_id t (nid y)"
  have wf: "wf_id (nid z)" if "z \<in> set (all_nodes rt)" for z
    using that assms(1) by (auto simp: all_nodes_def wf_table_def list_all_iff wf_content_def members_def)
  have "nid x = nid y"
    using xor_id_cancel[OF _ _ eq] wf[OF x] wf[OF y] assms(2) by (simp add: wf_id_def)
  then show "x = y" using distinct_all_ids[OF assms(1)] x y by (simp add: distinct_map inj_on_def)
qed

lemma sorted_take_drop: "sorted (map f xs) \<Longrightarrow> x \<in> set (take n xs) \<Longrightarrow> y \<in> set (drop n xs) \<Longrightarrow> f x \<le> f y"
proof -
  assume s: "sorted (map f xs)" and x: "x \<in> set (take n xs)" and y: "y \<in> set (drop n xs)"
  have "sorted (map f (take n xs) @ map f (drop n xs))"
    using s by (simp only: append_take_drop_id flip: map_append)
  then show "f x \<le> f y" using x y by (simp add: sorted_append)
qed

text \<open>
  C5. \<^verbatim>\<open>Closest\<close> returns the right nodes: at most \<open>n\<close>, all there are when fewer are usable, none
  of them bad, in strictly increasing distance from the target, and every usable node it leaves
  out is farther than every node it returns.
\<close>

theorem closest_correct:
  assumes "wf_table rt" and "wf_id t"
  shows "length (closest rt t n) = min n (length (filter (\<lambda>x. \<not> is_bad (bad_threshold rt) x) (all_nodes rt))) \<and>
    set (closest rt t n) \<subseteq> {x \<in> set (all_nodes rt). \<not> is_bad (bad_threshold rt) x} \<and>
    sorted_wrt (\<lambda>x y. bytes_compare (xor_id t (nid x)) (xor_id t (nid y)) < 0) (closest rt t n) \<and>
    (\<forall>x \<in> set (closest rt t n). \<forall>y \<in> set (all_nodes rt) - set (closest rt t n).
       \<not> is_bad (bad_threshold rt) y \<longrightarrow> bytes_compare (xor_id t (nid x)) (xor_id t (nid y)) < 0)"
proof -
  define d :: "node \<Rightarrow> node_id" where "d = (\<lambda>x. xor_id t (nid x))"
  define good where "good = filter (\<lambda>x. \<not> is_bad (bad_threshold rt) x) (all_nodes rt)"
  define s where "s = sort_key d good"
  have cl: "closest rt t n = take n s"
    by (simp add: closest_def closest_candidates_filter s_def d_def good_def Let_def take_min_length)
  have inj: "inj_on d (set s)"
    using xor_inj_on[OF assms] by (auto simp: d_def s_def good_def intro: inj_on_subset)
  have "distinct (map nid good)"
    using distinct_all_ids[OF assms(1)] by (simp add: good_def distinct_map_filter)
  then have ds: "distinct s" by (simp add: s_def distinct_map)
  have so: "sorted (map d s)" by (simp add: s_def)
  have strict: "d x < d y" if "d x \<le> d y" "x \<noteq> y" "x \<in> set s" "y \<in> set s" for x y
    using that inj by (auto simp: inj_on_def less_le)
  have "sorted_wrt (<) (map d s)"
    using so ds inj by (simp add: strict_sorted_iff distinct_map)
  then have "sorted_wrt (\<lambda>x y. d x < d y) (take n s)" by (simp add: sorted_wrt_map sorted_wrt_take)
  moreover have "d x < d y" if "x \<in> set (take n s)" "y \<in> set s - set (take n s)" for x y
  proof -
    have "y \<in> set (drop n s)" using that(2) by (metis Diff_iff Un_iff append_take_drop_id set_append)
    then show ?thesis
      using sorted_take_drop[OF so that(1)] strict[of x y] that in_set_takeD[OF that(1)] by auto
  qed
  moreover have "set (take n s) \<subseteq> set good" by (auto simp: s_def dest: in_set_takeD)
  moreover have "set s = set good" by (simp add: s_def)
  ultimately show ?thesis
    unfolding cl bytes_compare_less_iff d_def[symmetric]
    by (auto simp: good_def s_def d_def)
qed

theorem closest_correct_witness:
  "length (closest sample_table (replicate 20 5) 8) = 1 \<and>
   set (closest sample_table (replicate 20 5) 8) \<subseteq> set (all_nodes sample_table)"
  using closest_correct[OF sample_table_wf, of "replicate 20 5" 8]
  by (auto simp: wf_id_def) (simp add: sample_table_def all_nodes_def is_bad_def)

text \<open>Whatever sorting algorithm is used, unstable or not, \<^verbatim>\<open>Closest\<close> has this one result.\<close>

lemma closest_any_sort:
  assumes "wf_table rt" and "wf_id t" and "mset ys = mset (closest_candidates rt)"
    and "sorted (map (\<lambda>x. xor_id t (nid x)) ys)"
  shows "take n ys = closest rt t n"
proof -
  have "inj_on (\<lambda>x. xor_id t (nid x)) (set (closest_candidates rt))"
    using xor_inj_on[OF assms(1,2)] by (auto simp: closest_candidates_filter intro: inj_on_subset)
  then have "ys = sort_key (\<lambda>x. xor_id t (nid x)) (closest_candidates rt)"
    by (rule sort_key_unique[OF assms(3,4)])
  then show ?thesis by (simp add: closest_def Let_def take_min_length)
qed


subsection \<open>Only nodes with valid identifiers\<close>

definition bep42_ok :: "node \<Rightarrow> bool" where
  "bep42_ok n \<longleftrightarrow> validate_node_id_for_ip (ip (naddr n)) (nid n) = Inr ()"

fun bep42_op :: "table_op \<Rightarrow> bool" where
  "bep42_op (Insert now n) \<longleftrightarrow> False"
| "bep42_op (Insert_Valid now n) \<longleftrightarrow> wf_id (nid n)"
| "bep42_op (Success now i) \<longleftrightarrow> wf_id i"
| "bep42_op (Failure now i) \<longleftrightarrow> wf_id i"

lemma mark_success_keys:
  assumes "wf_table rt" and "wf_id i"
  shows "image_mset (\<lambda>x. (nid x, naddr x)) (mset (all_nodes (mark_success now i rt))) =
    image_mset (\<lambda>x. (nid x, naddr x)) (mset (all_nodes rt))"
proof -
  have t: "tiles 0 (buckets rt) keyspace" using assms by (simp add: wf_table_def)
  note bf = bucket_for_spec[OF t assms(2)]
  have keys: "map (\<lambda>x. (nid x, naddr x)) (update_first P (\<lambda>x. x\<lparr>last_seen := now, failures := 0\<rparr>) xs) =
      map (\<lambda>x. (nid x, naddr x)) xs" for P :: "node \<Rightarrow> bool" and xs
    by (rule map_update_first) simp
  show ?thesis
    unfolding mark_success_def Let_def all_nodes_at(2)[OF bf(1)] all_nodes_at(1)[OF bf(1)]
    by (simp add: members_def keys flip: mset_map)
qed

lemma insert_effect_set:
  assumes "insert_effect n rt res rt'" and "x \<in> set (all_nodes rt')"
  shows "x \<in> set (all_nodes rt) \<or> (nid x = nid n \<and> naddr x = naddr n)"
proof -
  have x: "x \<in># mset (all_nodes rt')" using assms(2) by simp
  show ?thesis
  proof (cases res)
    case Updated
    then have "x \<in># image_mset (touch (nid n) (refresh_node n)) (mset (all_nodes rt))"
      using assms(1) x by (simp add: insert_effect_def)
    then show ?thesis by (auto simp: touch_def refresh_node_def)
  qed (use assms(1) x in \<open>auto simp: insert_effect_def\<close>)
qed

lemma bep42_step:
  assumes "wf_table rt \<and> (\<forall>x \<in> set (all_nodes rt). bep42_ok x)" and "bep42_op a"
  shows "wf_table (table_step a rt) \<and> (\<forall>x \<in> set (all_nodes (table_step a rt)). bep42_ok x)"
proof
  show "wf_table (table_step a rt)" 
    using assms table_step_wf[of rt a] by (cases a) simp_all
  show "\<forall>x \<in> set (all_nodes (table_step a rt)). bep42_ok x"
  proof (cases a)
    case (Insert_Valid now n)
    show ?thesis
    proof (cases "bep42_ok n")
      case True
      have "wf_id (nid n)" using assms(2) Insert_Valid by simp
      then obtain res rt' ps where "insert_node now n rt = Inr (res, rt', ps)" "insert_effect n rt res rt'"
        using insert_node_correct[of rt n now] assms by blast
      moreover have "bep42_ok x" if "nid x = nid n" "naddr x = naddr n" for x
        using True that by (simp add: bep42_ok_def)
      ultimately show ?thesis
        using Insert_Valid True assms(1) insert_effect_set[of n rt res rt']
        by (auto simp: insert_valid_node_def bep42_ok_def[of n])
    next
      case False
      then show ?thesis using Insert_Valid assms
        by (auto simp: insert_valid_node_def bep42_ok_def[of n] split: sum.split)
    qed
  next
    case (Success now i)
    have "bep42_ok x" if "x \<in> set (all_nodes (mark_success now i rt))" for x
    proof -
      have "(nid x, naddr x) \<in># image_mset (\<lambda>x. (nid x, naddr x)) (mset (all_nodes rt))"
        using that assms Success by (subst mark_success_keys[symmetric, of rt i now]) auto
      then show ?thesis using assms(1) by (auto simp: bep42_ok_def)
    qed
    then show ?thesis using Success by simp
  next
    case (Failure now i)
    have "bep42_ok x" if "x \<in> set (all_nodes (mark_failure now i rt))" for x
    proof -
      have "mset (all_nodes (mark_failure now i rt)) = failure_effect (bad_threshold rt) i (mset (all_nodes rt))"
        using mark_failure_correct[of rt i now] assms Failure by simp
      then have "x \<in># failure_effect (bad_threshold rt) i (mset (all_nodes rt))"
        using that by (metis set_mset_mset)
      then show ?thesis using assms(1)
        by (auto simp: failure_effect_def touch_def fail_node_def bep42_ok_def split: if_splits)
    qed
    then show ?thesis using Failure by simp
  qed (use assms(2) in simp)
qed

interpretation bep42_ops: machine table_step "\<lambda>rt. wf_table rt \<and> (\<forall>x \<in> set (all_nodes rt). bep42_ok x)" bep42_op
  by unfold_locales (rule bep42_step)

text \<open>
  C17. The network reaches the table only through \<^verbatim>\<open>InsertValidNode\<close> and the liveness marks;
  then every node of the table has an identifier that BEP-42 allows for its address, after any
  sequence of operations.
\<close>

theorem only_valid_nodes:
  assumes "wf_id i" and "0 < k" and "list_all bep42_op ops"
  shows "\<forall>x \<in> set (all_nodes (fold table_step ops (new_routing_table i k bad stale pinger now))). bep42_ok x"
proof -
  have "wf_table (new_routing_table i k bad stale pinger now) \<and>
      (\<forall>x \<in> set (all_nodes (new_routing_table i k bad stale pinger now)). bep42_ok x)"
    using new_table_wf[OF assms(1,2)] by (simp add: new_routing_table_def all_nodes_def)
  then show ?thesis using bep42_ops.run_inv[OF _ assms(3)] by blast
qed

theorem only_valid_nodes_witness:
  "list_all bep42_ok (all_nodes (fold table_step
      [Insert_Valid 9 \<lparr>nid = derive_node_id_from_ip [192, 0, 2, 7] 3 (replicate 20 9),
         naddr = \<lparr>ip = [192, 0, 2, 7], port = 6881\<rparr>, last_seen = 9, failures = 0\<rparr>,
       Failure 10 (replicate 20 4)]
      (new_routing_table (replicate 20 1) 8 3 0 True 0)))"
  unfolding list_all_iff
  by (rule only_valid_nodes) (simp_all add: length_derive_node_id wf_id_def[of "replicate _ _"])

end
