(* ===== verification/Compact.thy ===== *)
theory Compact
  imports Routing_Table
begin

section \<open>Compact peer and node records (\<^verbatim>\<open>dht/table/table.go\<close>)\<close>

text \<open>
  BEP-05 wire records: 6 bytes per peer (IPv4 address and port) and 26 bytes per node (identifier,
  address and port). Ports are integers in Go; \<^verbatim>\<open>uint16(port)\<close> keeps the low 16 bits.
\<close>

definition port16 :: "int \<Rightarrow> 16 word" where
  "port16 p = word_of_int p"

definition encode_peer :: "ip \<Rightarrow> int \<Rightarrow> byte list" where
  "encode_peer a p =
     go_copy (replicate 4 0) (case to4 a of Some v \<Rightarrow> v | None \<Rightarrow> []) @ put_be 2 (port16 p)"

datatype compact_error = ErrPeerLength nat | ErrNodesLength nat

definition decode_peer :: "byte list \<Rightarrow> addr" where
  "decode_peer v = \<lparr>ip = go_copy (replicate 4 0) (take 4 v), port = uint (get_be (take 2 (drop 4 v)) :: 16 word)\<rparr>"

fun decode_peers_loop :: "byte list list \<Rightarrow> addr list \<Rightarrow> compact_error + addr list" where
  "decode_peers_loop [] addrs = Inr addrs"
| "decode_peers_loop (v # vs) addrs =
     (if length v \<noteq> 6 then Inl (ErrPeerLength (length v))
      else decode_peers_loop vs (addrs @ [decode_peer v]))"

definition decode_peers :: "byte list list \<Rightarrow> compact_error + addr list" where
  "decode_peers values = decode_peers_loop values []"

definition node_record :: "node_id \<Rightarrow> ip \<Rightarrow> int \<Rightarrow> byte list" where
  "node_record i v4 p = go_copy (replicate 20 0) i @ go_copy (replicate 4 0) v4 @ put_be 2 (port16 p)"

fun encode_nodes :: "node list \<Rightarrow> byte list" where
  "encode_nodes [] = []"
| "encode_nodes (n # ns) =
     (case to4 (ip (naddr n)) of
        None \<Rightarrow> encode_nodes ns
      | Some v4 \<Rightarrow> node_record (nid n) v4 (port (naddr n)) @ encode_nodes ns)"

text \<open>The nodes of \<^verbatim>\<open>DecodeNodes\<close> have the zero time and no failures.\<close>

definition decode_node_at :: "byte list \<Rightarrow> nat \<Rightarrow> node" where
  "decode_node_at s off =
     \<lparr>nid = go_copy zero_id (take 20 (drop off s)),
      naddr = \<lparr>ip = go_copy (replicate 4 0) (take 4 (drop (off + 20) s)),
               port = uint (get_be (take 2 (drop (off + 24) s)) :: 16 word)\<rparr>,
      last_seen = 0, failures = 0\<rparr>"

definition decode_nodes :: "byte list \<Rightarrow> compact_error + node list" where
  "decode_nodes s =
     (if length s mod 26 \<noteq> 0 then Inl (ErrNodesLength (length s))
      else Inr (map (\<lambda>i. decode_node_at s (i * 26)) [0..<length s div 26]))"


subsection \<open>Peers\<close>

lemma length_encode_peer [simp]: "length (encode_peer a p) = 6"
  by (simp add: encode_peer_def)

lemma decode_encode_peer:
  assumes "to4 a = Some v"
  shows "decode_peer (encode_peer a p) = \<lparr>ip = v, port = p mod 2 ^ 16\<rparr>"
  using assms length_to4[OF assms]
  by (simp add: decode_peer_def encode_peer_def port16_def go_copy_same get_put_be uint_word_of_int)

lemma decode_peers_loop_app:
  "decode_peers_loop vs as = (case decode_peers_loop vs [] of Inl e \<Rightarrow> Inl e | Inr bs \<Rightarrow> Inr (as @ bs))"
proof (induction vs arbitrary: as)
  case (Cons v vs)
  show ?case using Cons[of "as @ [decode_peer v]"] Cons[of "[decode_peer v]"]
    by (auto split: sum.split)
qed simp

lemma decode_peers_iff:
  "decode_peers vs = Inr as \<longleftrightarrow> (\<forall>v \<in> set vs. length v = 6) \<and> as = map decode_peer vs"
proof (induction vs arbitrary: as)
  case (Cons v vs)
  show ?case using Cons decode_peers_loop_app[of vs "[decode_peer v]"]
    by (auto simp: decode_peers_def split: sum.splits)
qed (auto simp: decode_peers_def)

lemma encode_decode_peer:
  assumes "length v = 6"
  shows "encode_peer (ip (decode_peer v)) (port (decode_peer v)) = v"
proof -
  have "put_be 2 (get_be (take 2 (drop 4 v)) :: 16 word) = take 2 (drop 4 v)"
    using assms by (intro put_get_be) simp_all
  moreover have "take 2 (drop 4 v) = drop 4 v" using assms by simp
  ultimately show ?thesis using assms
    by (simp add: encode_peer_def decode_peer_def port16_def go_copy_same)
qed

text \<open>
  Peer records round-trip in both directions: an IPv4 peer with a 16-bit port decodes to
  itself, every list of 6-byte records decodes and encodes back to the same bytes, and a list with
  a record of any other length is an error.
\<close>

theorem peer_records_roundtrip:
  "(to4 a = Some v \<and> 0 \<le> p \<and> p < 65536 \<longrightarrow> decode_peers [encode_peer a p] = Inr [\<lparr>ip = v, port = p\<rparr>]) \<and>
   (decode_peers vs = Inr as \<longrightarrow> map (\<lambda>a. encode_peer (ip a) (port a)) as = vs) \<and>
   ((\<exists>e. decode_peers vs = Inl e) \<longleftrightarrow> (\<exists>v \<in> set vs. length v \<noteq> 6))"
proof (intro conjI impI)
  assume "to4 a = Some v \<and> 0 \<le> p \<and> p < 65536"
  then show "decode_peers [encode_peer a p] = Inr [\<lparr>ip = v, port = p\<rparr>]"
    by (simp add: decode_peers_iff decode_encode_peer)
next
  assume "decode_peers vs = Inr as"
  then show "map (\<lambda>a. encode_peer (ip a) (port a)) as = vs"
    by (auto simp: decode_peers_iff encode_decode_peer intro!: map_idI)
next
  show "(\<exists>e. decode_peers vs = Inl e) \<longleftrightarrow> (\<exists>v \<in> set vs. length v \<noteq> 6)"
    using decode_peers_iff[of vs] by (cases "decode_peers vs") auto
qed

theorem peer_records_roundtrip_witness:
  "decode_peers [encode_peer [10, 0, 0, 1] 6881] = Inr [\<lparr>ip = [10, 0, 0, 1], port = 6881\<rparr>]"
  by (rule peer_records_roundtrip[THEN conjunct1, rule_format]) simp

subsection \<open>Nodes\<close>

text \<open>What a node looks like after the wire: its IPv4 form and the low 16 bits of its port.\<close>

definition wire_node :: "node \<Rightarrow> node option" where
  "wire_node n = (case to4 (ip (naddr n)) of
      None \<Rightarrow> None
    | Some v \<Rightarrow> Some \<lparr>nid = nid n, naddr = \<lparr>ip = v, port = port (naddr n) mod 2 ^ 16\<rparr>, last_seen = 0, failures = 0\<rparr>)"

lemma length_node_record [simp]: "length (node_record i v p) = 26"
  by (simp add: node_record_def)

lemma length_encode_nodes: "length (encode_nodes ns) = 26 * length (List.map_filter wire_node ns)"
  by (induction ns) (auto simp: List.map_filter_simps wire_node_def split: option.split)

lemma decode_node_at_shift:
  "length r = 26 \<Longrightarrow> decode_node_at (r @ s) (26 + i * 26) = decode_node_at s (i * 26)"
  by (simp add: decode_node_at_def ac_simps)

lemma decode_nodes_append:
  assumes "length r = 26" and "decode_nodes s = Inr ns"
  shows "decode_nodes (r @ s) = Inr (decode_node_at r 0 # ns)"
proof -
  have mod: "length s mod 26 = 0" and ns: "ns = map (\<lambda>i. decode_node_at s (i * 26)) [0..<length s div 26]"
    using assms(2) by (auto simp: decode_nodes_def split: if_splits)
  have first: "decode_node_at (r @ s) 0 = decode_node_at r 0"
    using assms(1) by (simp add: decode_node_at_def)
  have "length (r @ s) div 26 = Suc (length s div 26)" using assms(1) by simp
  then have "[0..<length (r @ s) div 26] = 0 # map Suc [0..<length s div 26]"
    by (simp only: upt_conv_Cons map_Suc_upt zero_less_Suc)
  then show ?thesis
    using mod assms(1) first by (simp add: decode_nodes_def ns decode_node_at_shift comp_def)
qed

lemma decode_node_record:
  assumes "wf_id i" and "length v = 4"
  shows "decode_node_at (node_record i v p) 0 =
    \<lparr>nid = i, naddr = \<lparr>ip = v, port = p mod 2 ^ 16\<rparr>, last_seen = 0, failures = 0\<rparr>"
  using assms
  by (simp add: decode_node_at_def node_record_def wf_id_def zero_id_def go_copy_same get_put_be
      port16_def uint_word_of_int)

lemma decode_encode_nodes:
  assumes "list_all (\<lambda>n. wf_id (nid n)) ns"
  shows "decode_nodes (encode_nodes ns) = Inr (List.map_filter wire_node ns)"
  using assms
proof (induction ns)
  case (Cons n ns)
  show ?case
  proof (cases "to4 (ip (naddr n))")
    case None
    then show ?thesis using Cons by (simp add: List.map_filter_simps wire_node_def)
  next
    case (Some v)
    then have "decode_nodes (encode_nodes (n # ns)) =
        Inr (decode_node_at (node_record (nid n) v (port (naddr n))) 0 # List.map_filter wire_node ns)"
      using Cons decode_nodes_append[of "node_record (nid n) v (port (naddr n))"] by simp
    moreover have "wire_node n = Some (decode_node_at (node_record (nid n) v (port (naddr n))) 0)"
      using Some Cons.prems decode_node_record[of "nid n" v] length_to4[OF Some]
      by (simp add: wire_node_def)
    ultimately show ?thesis by (simp add: List.map_filter_simps)
  qed
qed (simp add: decode_nodes_def List.map_filter_simps)

lemma encode_node_at:
  assumes "length r = 26"
  shows "encode_nodes (decode_node_at r 0 # ns) = r @ encode_nodes ns"
proof -
  have "put_be 2 (get_be (take 2 (drop 24 r)) :: 16 word) = take 2 (drop 24 r)"
    using assms by (intro put_get_be) simp_all
  then have "node_record (take 20 r) (take 4 (drop 20 r)) (uint (get_be (take 2 (drop 24 r)) :: 16 word))
      = take 20 r @ take 4 (drop 20 r) @ take 2 (drop 24 r)"
    using assms by (simp add: node_record_def go_copy_same port16_def)
  also have "\<dots> = take 20 r @ take 4 (drop 20 r) @ drop 24 r" using assms by simp
  also have "take 4 (drop 20 r) @ drop 24 r = drop 20 r"
    using append_take_drop_id[of 4 "drop 20 r"] by simp
  finally show ?thesis using assms by (simp add: decode_node_at_def go_copy_same zero_id_def)
qed

lemma encode_decode_all:
  "length s = 26 * m \<Longrightarrow> encode_nodes (map (\<lambda>i. decode_node_at s (i * 26)) [0..<m]) = s"
proof (induction m arbitrary: s)
  case (Suc m)
  define r t where "r = take 26 s" and "t = drop 26 s"
  have s: "s = r @ t" and r: "length r = 26" and t: "length t = 26 * m"
    using Suc.prems by (simp_all add: r_def t_def)
  have first: "decode_node_at (r @ t) 0 = decode_node_at r 0"
    using r by (simp add: decode_node_at_def)
  have "[0..<Suc m] = 0 # map Suc [0..<m]" by (simp only: upt_conv_Cons map_Suc_upt zero_less_Suc)
  then show ?case
    using Suc.IH[OF t] encode_node_at[OF r] first r
    by (simp add: s decode_node_at_shift comp_def del: upt_Suc encode_nodes.simps)
qed simp

text \<open>
  Node lists round-trip: decoding what \<^verbatim>\<open>EncodeNodes\<close> wrote gives back the identifiers,
  addresses and 16-bit ports of exactly the IPv4 nodes, in order; and every string that decodes is
  the encoding of the nodes it decodes to.
\<close>

theorem node_records_roundtrip:
  assumes "list_all (\<lambda>n. wf_id (nid n)) ns"
  shows "decode_nodes (encode_nodes ns) = Inr (List.map_filter wire_node ns) \<and>
    (\<forall>s ms. decode_nodes s = Inr ms \<longrightarrow> encode_nodes ms = s)"
proof (intro conjI allI impI)
  show "decode_nodes (encode_nodes ns) = Inr (List.map_filter wire_node ns)"
    by (rule decode_encode_nodes[OF assms])
  fix s ms assume "decode_nodes s = Inr ms"
  then show "encode_nodes ms = s"
    using encode_decode_all[of s "length s div 26"] by (auto simp: decode_nodes_def split: if_splits)
qed

theorem node_records_roundtrip_witness:
  "decode_nodes (encode_nodes
      [\<lparr>nid = replicate 20 9, naddr = \<lparr>ip = [10, 0, 0, 1], port = 6881\<rparr>, last_seen = 7, failures = 2\<rparr>,
       \<lparr>nid = replicate 20 8, naddr = \<lparr>ip = replicate 16 1, port = 6882\<rparr>, last_seen = 7, failures = 0\<rparr>]) =
   Inr (List.map_filter wire_node
      [\<lparr>nid = replicate 20 9, naddr = \<lparr>ip = [10, 0, 0, 1], port = 6881\<rparr>, last_seen = 7, failures = 2\<rparr>,
       \<lparr>nid = replicate 20 8, naddr = \<lparr>ip = replicate 16 1, port = 6882\<rparr>, last_seen = 7, failures = 0\<rparr>])"
  by (rule node_records_roundtrip[THEN conjunct1]) (simp add: wf_id_def)

lemma decode_nodes_wf: "decode_nodes s = Inr ns \<Longrightarrow> list_all (\<lambda>n. wf_id (nid n)) ns"
  by (auto simp: decode_nodes_def list_all_iff decode_node_at_def wf_id_def zero_id_def split: if_splits)

lemma uint16_less: "uint (w :: 16 word) < 65536"
  using unsigned_less[of w, where ?'a = int] by simp

lemma decode_nodes_ports: "decode_nodes s = Inr ns \<Longrightarrow> n \<in> set ns \<Longrightarrow> 0 \<le> port (naddr n) \<and> port (naddr n) < 65536"
  by (auto simp: decode_nodes_def decode_node_at_def uint16_less split: if_splits)

lemma decode_nodes_length: "decode_nodes s = Inr ns \<Longrightarrow> length s = 26 * length ns"
  by (auto simp: decode_nodes_def split: if_splits)

end
