(* ===== verification/Dedup.thy ===== *)
theory Dedup
  imports Go_Prelude
begin

section \<open>The infohash filter (\<^verbatim>\<open>dht/filter/filter.go\<close>)\<close>

text \<open>
  Two Bloom filters, of which a rotation drops the older. The Bloom filter itself is the library
  \<^verbatim>\<open>bits-and-blooms/bloom\<close>; its \<^verbatim>\<open>Test\<close>, \<^verbatim>\<open>Add\<close> and \<^verbatim>\<open>NewWithEstimates\<close> are the parameters
  \<open>test\<close>, \<open>add\<close> and \<open>fresh\<close>. What the code relies on is the library's documented behaviour that an
  element added stays in the filter: \<open>no_false_negatives\<close>.
\<close>

type_synonym info_hash = "byte list"

record 'b bloom_filter =
  active :: 'b
  previous :: 'b

definition new_bloom_filter :: "'b \<Rightarrow> 'b bloom_filter" where
  "new_bloom_filter fresh = \<lparr>active = fresh, previous = fresh\<rparr>"

definition seen_or_add ::
    "('b \<Rightarrow> info_hash \<Rightarrow> bool) \<Rightarrow> (info_hash \<Rightarrow> 'b \<Rightarrow> 'b) \<Rightarrow> info_hash \<Rightarrow> 'b bloom_filter \<Rightarrow> bool \<times> 'b bloom_filter" where
  "seen_or_add test add h b =
     (if test (active b) h \<or> test (previous b) h then (True, b)
      else (False, b\<lparr>active := add h (active b)\<rparr>))"

definition rotate_filter :: "'b \<Rightarrow> 'b bloom_filter \<Rightarrow> 'b bloom_filter" where
  "rotate_filter fresh b = \<lparr>active = fresh, previous = active b\<rparr>"

definition no_false_negatives :: "('b \<Rightarrow> info_hash \<Rightarrow> bool) \<Rightarrow> (info_hash \<Rightarrow> 'b \<Rightarrow> 'b) \<Rightarrow> bool" where
  "no_false_negatives test add \<longleftrightarrow>
     (\<forall>b h. test (add h b) h) \<and> (\<forall>b h x. test b h \<longrightarrow> test (add x b) h)"

datatype filter_op = See info_hash | Rotate

fun filter_step ::
    "('b \<Rightarrow> info_hash \<Rightarrow> bool) \<Rightarrow> (info_hash \<Rightarrow> 'b \<Rightarrow> 'b) \<Rightarrow> 'b \<Rightarrow> filter_op \<Rightarrow> 'b bloom_filter \<Rightarrow> 'b bloom_filter" where
  "filter_step test add fresh (See h) b = snd (seen_or_add test add h b)"
| "filter_step test add fresh Rotate b = rotate_filter fresh b"

definition known :: "('b \<Rightarrow> info_hash \<Rightarrow> bool) \<Rightarrow> info_hash \<Rightarrow> 'b bloom_filter \<Rightarrow> bool" where
  "known test h b \<longleftrightarrow> test (active b) h \<or> test (previous b) h"

lemma seen_or_add_known: "fst (seen_or_add test add h b) \<longleftrightarrow> known test h b"
  by (simp add: seen_or_add_def known_def)

lemma active_kept:
  assumes "no_false_negatives test add" and "list_all (\<lambda>a. a \<noteq> Rotate) ops" and "test (active b) h"
  shows "test (active (fold (filter_step test add fresh) ops b)) h"
  using assms(2,3)
proof (induction ops arbitrary: b)
  case (Cons a ops)
  obtain x where "a = See x" using Cons.prems by (cases a) auto
  then have "test (active (filter_step test add fresh a b)) h"
    using Cons.prems assms(1) by (simp add: seen_or_add_def no_false_negatives_def)
  then show ?case using Cons by simp
qed simp

lemma previous_kept:
  assumes "list_all (\<lambda>a. a \<noteq> Rotate) ops"
  shows "previous (fold (filter_step test add fresh) ops b) = previous b"
  using assms
proof (induction ops arbitrary: b)
  case (Cons a ops)
  obtain x where "a = See x" using Cons.prems by (cases a) auto
  then show ?case using Cons by (simp add: seen_or_add_def)
qed simp

lemma added_active:
  assumes "no_false_negatives test add" and "\<not> fst (seen_or_add test add h b)"
  shows "test (active (snd (seen_or_add test add h b))) h"
  using assms by (auto simp: seen_or_add_def no_false_negatives_def split: if_splits)

text \<open>
  An infohash that was new is reported as seen from then on, through any number of other
  infohashes and through one rotation: a rotation does not bring recent infohashes back.
\<close>

theorem seen_through_one_rotation:
  assumes "no_false_negatives test add" and "\<not> fst (seen_or_add test add h b)"
    and "length (filter (\<lambda>a. a = Rotate) ops) \<le> 1"
  shows "fst (seen_or_add test add h (fold (filter_step test add fresh) ops (snd (seen_or_add test add h b))))"
proof -
  let ?b = "snd (seen_or_add test add h b)"
  let ?run = "fold (filter_step test add fresh)"
  have act: "test (active ?b) h" by (rule added_active[OF assms(1,2)])
  show ?thesis
  proof (cases "Rotate \<in> set ops")
    case False
    then have "test (active (?run ops ?b)) h"
      by (intro active_kept[OF assms(1) _ act]) (auto simp: list_all_iff)
    then show ?thesis by (simp add: seen_or_add_known known_def)
  next
    case True
    then obtain xs ys where ops: "ops = xs @ Rotate # ys" and xs: "Rotate \<notin> set xs"
      by (meson split_list_first)
    have ys: "list_all (\<lambda>a. a \<noteq> Rotate) ys"
      using assms(3) ops by (auto simp: list_all_iff filter_empty_conv)
    have "test (active (?run xs ?b)) h"
      using xs by (intro active_kept[OF assms(1) _ act]) (auto simp: list_all_iff)
    then have "test (previous (?run ys (rotate_filter fresh (?run xs ?b)))) h"
      by (simp add: previous_kept[OF ys] rotate_filter_def)
    then show ?thesis by (simp add: ops seen_or_add_known known_def)
  qed
qed

theorem seen_through_one_rotation_witness:
  "fst (seen_or_add (\<lambda>b h. h \<in> set b) (#) [1] (fold (filter_step (\<lambda>b h. h \<in> set b) (#) []) [See [2], Rotate, See [3]]
     (snd (seen_or_add (\<lambda>b h. h \<in> set b) (#) [1] (new_bloom_filter [])))))"
  by (rule seen_through_one_rotation)
    (simp_all add: no_false_negatives_def seen_or_add_def new_bloom_filter_def)

end
