(* ===== verification/Krpc.thy ===== *)
theory Krpc
  imports Node_Id
begin

section \<open>KRPC messages (\<^verbatim>\<open>dht/krpc/krpc.go\<close>)\<close>

text \<open>
  The message envelope, as the bencode library decodes it. Binary strings are byte lists, the
  method and message-type fields text. An element of the error list is an integer, a string or
  something else.
\<close>

datatype bvalue = BInt int | BStr string | BOther

record msg_args =
  arg_id :: "byte list"
  arg_target :: "byte list"
  arg_info_hash :: "byte list"
  arg_token :: "byte list"
  arg_port :: int
  arg_implied_port :: "int option"

record return =
  ret_id :: "byte list"
  ret_nodes :: "byte list"
  ret_values :: "byte list list"
  ret_token :: "byte list"
  ret_samples :: "byte list"
  ret_interval :: int
  ret_num :: int

record msg =
  m_t :: "byte list"
  m_y :: string
  m_q :: string
  m_a :: "msg_args option"
  m_r :: "return option"
  m_e :: "bvalue list"
  m_ip :: "byte list"

definition empty_args :: msg_args where
  "empty_args = \<lparr>arg_id = [], arg_target = [], arg_info_hash = [], arg_token = [], arg_port = 0, arg_implied_port = None\<rparr>"

definition empty_return :: return where
  "empty_return = \<lparr>ret_id = [], ret_nodes = [], ret_values = [], ret_token = [], ret_samples = [],
     ret_interval = 0, ret_num = 0\<rparr>"

definition empty_msg :: msg where
  "empty_msg = \<lparr>m_t = [], m_y = [], m_q = [], m_a = None, m_r = None, m_e = [], m_ip = []\<rparr>"

abbreviation err_generic :: int where "err_generic \<equiv> 201"
abbreviation err_server :: int where "err_server \<equiv> 202"
abbreviation err_protocol :: int where "err_protocol \<equiv> 203"
abbreviation err_method :: int where "err_method \<equiv> 204"

definition is_method_unknown :: "msg option \<Rightarrow> bool" where
  "is_method_unknown m =
     (case m of
        None \<Rightarrow> False
      | Some m \<Rightarrow> (case m_e m of
          [] \<Rightarrow> False
        | e # es \<Rightarrow> (case e of BInt code \<Rightarrow> code = err_method | _ \<Rightarrow> False)))"

lemma is_method_unknown_iff: "is_method_unknown m \<longleftrightarrow> (\<exists>m' es. m = Some m' \<and> m_e m' = BInt 204 # es)"
  by (auto simp: is_method_unknown_def split: option.splits list.splits bvalue.splits)

end
