(* ===== verification/Cache.thy ===== *)
theory Cache
  imports Go_Prelude
begin

section \<open>The shared key-value cache (\<^verbatim>\<open>pkg/cache/cache.go\<close>)\<close>

text \<open>
  A map behind a lock, with an optional cleanup predicate that a ticker applies. A cleanup tick
  takes two lock sections: one collects the keys to delete, one deletes them.
\<close>

record ('k, 'v) cache =
  entries :: "('k, 'v) gomap"
  cleanup_interval :: duration
  cleanup_func :: "('k \<Rightarrow> 'v \<Rightarrow> bool) option"

definition with_cleanup :: "duration \<Rightarrow> ('k \<Rightarrow> 'v \<Rightarrow> bool) \<Rightarrow> ('k, 'v) cache \<Rightarrow> ('k, 'v) cache" where
  "with_cleanup interval f c = c\<lparr>cleanup_interval := interval, cleanup_func := Some f\<rparr>"

definition with_cleanup_interval :: "duration \<Rightarrow> ('k, 'v) cache \<Rightarrow> ('k, 'v) cache" where
  "with_cleanup_interval interval c = c\<lparr>cleanup_interval := interval\<rparr>"

definition cache_new :: "(('k, 'v) cache \<Rightarrow> ('k, 'v) cache) list \<Rightarrow> ('k, 'v) cache" where
  "cache_new opts = fold (\<lambda>opt c. opt c) opts \<lparr>entries = [], cleanup_interval = 0, cleanup_func = None\<rparr>"

definition cache_set :: "'k \<Rightarrow> 'v \<Rightarrow> ('k, 'v) cache \<Rightarrow> ('k, 'v) cache" where
  "cache_set k v c = c\<lparr>entries := map_set k v (entries c)\<rparr>"

definition cache_delete :: "'k \<Rightarrow> ('k, 'v) cache \<Rightarrow> ('k, 'v) cache" where
  "cache_delete k c = c\<lparr>entries := map_del k (entries c)\<rparr>"

definition cache_get :: "('k, 'v) cache \<Rightarrow> 'k \<Rightarrow> 'v option" where
  "cache_get c k = map_get (entries c) k"

definition cache_size :: "('k, 'v) cache \<Rightarrow> nat" where
  "cache_size c = length (entries c)"

definition cache_keys :: "('k, 'v) cache \<Rightarrow> 'k list" where
  "cache_keys c = map_keys (entries c)"

definition cache_items :: "('k, 'v) cache \<Rightarrow> ('k, 'v) gomap" where
  "cache_items c = entries c"

text \<open>The two halves of a tick of \<^verbatim>\<open>StartCleanup\<close> and \<^verbatim>\<open>Cleanup\<close>, and a tick that nothing interrupts.\<close>

definition cleanup_scan :: "('k \<Rightarrow> 'v \<Rightarrow> bool) \<Rightarrow> ('k, 'v) cache \<Rightarrow> 'k list" where
  "cleanup_scan f c = map fst (filter (\<lambda>(k, v). f k v) (entries c))"

definition cleanup_delete :: "'k list \<Rightarrow> ('k, 'v) cache \<Rightarrow> ('k, 'v) cache" where
  "cleanup_delete ks c = fold cache_delete ks c"

definition start_cleanup_tick :: "('k, 'v) cache \<Rightarrow> ('k, 'v) cache" where
  "start_cleanup_tick c =
     (if cleanup_interval c = 0 then c
      else case cleanup_func c of
        None \<Rightarrow> c
      | Some f \<Rightarrow> cleanup_delete (cleanup_scan f c) c)"

definition cleanup_tick :: "('k \<Rightarrow> 'v \<Rightarrow> bool) \<Rightarrow> ('k, 'v) cache \<Rightarrow> ('k, 'v) cache" where
  "cleanup_tick f c = (if cleanup_interval c = 0 then c else cleanup_delete (cleanup_scan f c) c)"

definition wf_cache :: "('k, 'v) cache \<Rightarrow> bool" where
  "wf_cache c \<longleftrightarrow> wf_map (entries c)"


subsection \<open>The contract of a key-value store\<close>

text \<open>
  What the rate limiter, the transaction manager, the bootstrap shortlist and the crawler rely on:
  lookups after writes and deletions, and a size that counts the keys.
\<close>

locale kv_store =
  fixes get :: "'s \<Rightarrow> 'k \<Rightarrow> 'v option"
    and put :: "'k \<Rightarrow> 'v \<Rightarrow> 's \<Rightarrow> 's"
    and del :: "'k \<Rightarrow> 's \<Rightarrow> 's"
    and size_of :: "'s \<Rightarrow> nat"
    and ok :: "'s \<Rightarrow> bool"
  assumes get_put: "get (put k v s) = (get s)(k \<mapsto> v)"
    and get_del: "get (del k s) = (get s)(k := None)"
    and put_ok: "ok s \<Longrightarrow> ok (put k v s)"
    and del_ok: "ok s \<Longrightarrow> ok (del k s)"
    and size_put: "size_of (put k v s) = (if get s k = None then Suc (size_of s) else size_of s)"
    and size_del: "ok s \<Longrightarrow> size_of (del k s) = (if get s k = None then size_of s else size_of s - 1)"
begin

lemma get_del_all: "get (fold del ks s) k = (if k \<in> set ks then None else get s k)"
proof (induction ks arbitrary: s)
  case (Cons k' ks)
  then show ?case by (simp add: get_del)
qed simp

lemma del_all_ok: "ok s \<Longrightarrow> ok (fold del ks s)"
  by (induction ks arbitrary: s) (auto intro: del_ok)

lemma size_del_all: "ok s \<Longrightarrow> size_of (fold del ks s) \<le> size_of s"
proof (induction ks arbitrary: s)
  case (Cons k ks)
  have "size_of (fold del ks (del k s)) \<le> size_of (del k s)" using Cons del_ok by blast
  then show ?case using size_del[OF Cons.prems, of k] by (simp split: if_splits)
qed simp

text \<open>Insertion guarded by a bound keeps the bound.\<close>

lemma guarded_put_bound:
  assumes "size_of s \<le> n" and "get s k = None \<Longrightarrow> size_of s < n"
  shows "size_of (put k v s) \<le> n"
  using assms by (auto simp: size_put intro: Suc_leI)

end

interpretation cache_kv: kv_store cache_get cache_set cache_delete cache_size wf_cache
  by unfold_locales
    (auto simp: cache_get_def cache_set_def cache_delete_def cache_size_def wf_cache_def go_map
      length_map_set length_map_del fun_eq_iff intro: wf_intros)

lemma cache_new_empty:
  assumes "\<forall>opt \<in> set opts. \<forall>c. entries (opt c) = entries c"
  shows "entries (cache_new opts) = []"
proof -
  have "entries (fold (\<lambda>opt c. opt c) opts c) = entries c" for c
    using assms by (induction opts arbitrary: c) auto
  then show ?thesis by (simp add: cache_new_def)
qed

lemma cleanup_scan_keys:
  "wf_cache c \<Longrightarrow> k \<in> set (cleanup_scan f c) \<longleftrightarrow> (\<exists>v. cache_get c k = Some v \<and> f k v)"
  unfolding cleanup_scan_def cache_get_def wf_cache_def wf_map_def map_keys_def
  by (force simp: map_of_eq_Some_iff)

text \<open>
  A cleanup tick deletes exactly the entries the predicate selects and changes no other
  lookup; an entry that is written between the two halves of a tick is deleted too, whatever its
  new value, when its old value was selected.
\<close>

theorem cleanup_correct:
  assumes "wf_cache c" and "cleanup_interval c \<noteq> 0"
  shows "cache_get (cleanup_tick f c) k =
      (case cache_get c k of None \<Rightarrow> None | Some v \<Rightarrow> if f k v then None else Some v) \<and>
    wf_cache (cleanup_tick f c) \<and> cache_size (cleanup_tick f c) \<le> cache_size c \<and>
    (\<forall>v v'. cache_get c k = Some v \<and> f k v \<longrightarrow>
       cache_get (cleanup_delete (cleanup_scan f c) (cache_set k v' c)) k = None)"
proof -
  have tick: "cleanup_tick f c = fold cache_delete (cleanup_scan f c) c"
    using assms(2) by (simp add: cleanup_tick_def cleanup_delete_def)
  show ?thesis
    unfolding tick cleanup_delete_def cache_kv.get_del_all
    using cache_kv.del_all_ok[OF assms(1)] cache_kv.size_del_all[OF assms(1)]
    by (auto simp: cleanup_scan_keys[OF assms(1)] split: option.splits)
qed

definition sample_cache :: "(nat, nat) cache" where
  "sample_cache = \<lparr>entries = [(1, 3), (2, 9)], cleanup_interval = 1, cleanup_func = None\<rparr>"

theorem cleanup_correct_witness:
  "cache_get (cleanup_tick (\<lambda>k v. v < 5) sample_cache) 1 = None \<and>
   cache_get (cleanup_delete (cleanup_scan (\<lambda>k v. v < 5) sample_cache) (cache_set 1 8 sample_cache)) 1 = None"
  using cleanup_correct[of sample_cache "\<lambda>k v. v < 5" 1]
  by (simp add: sample_cache_def wf_cache_def wf_map_def map_keys_def cache_get_def)

end
