(* ===== verification/Limiter.thy ===== *)
theory Limiter
  imports Cache
begin

section \<open>Per-address rate limits (\<^verbatim>\<open>dht/server/limiter.go\<close>)\<close>

text \<open>
  One \<^verbatim>\<open>rate.Limiter\<close> of \<^verbatim>\<open>golang.org/x/time/rate\<close> per client address, in a bounded cache whose
  idle entries a tick removes. The limiter is a parameter: \<open>fresh\<close> is a new one with the
  configured rate and burst, \<open>allow now l\<close> its answer at an instant and its next state.
\<close>

record 'l client_limiter =
  limiter :: 'l
  last_used :: instant

record 'l ip_limiter =
  clients :: "(ip, 'l client_limiter) cache"
  ttl :: duration
  max_size :: int

definition new_ip_limiter :: "duration \<Rightarrow> int \<Rightarrow> 'l ip_limiter" where
  "new_ip_limiter t m =
     \<lparr>clients = cache_new [with_cleanup_interval t], ttl = t, max_size = m\<rparr>"

definition idle :: "instant \<Rightarrow> 'l ip_limiter \<Rightarrow> 'l client_limiter \<Rightarrow> bool" where
  "idle now l cl \<longleftrightarrow> since now (last_used cl) > ttl l"

definition limiter_allow ::
    "'l \<Rightarrow> (instant \<Rightarrow> 'l \<Rightarrow> bool \<times> 'l) \<Rightarrow> instant \<Rightarrow> ip \<Rightarrow> 'l ip_limiter \<Rightarrow> bool \<times> 'l ip_limiter" where
  "limiter_allow fresh allow now a l =
     (if a = [] then (False, l)
      else let key = ip_key a in
        case cache_get (clients l) key of
          Some cl \<Rightarrow>
            (case allow now (limiter cl) of (ok, lim) \<Rightarrow>
               (ok, l\<lparr>clients := cache_set key \<lparr>limiter = lim, last_used = now\<rparr> (clients l)\<rparr>))
        | None \<Rightarrow>
            if max_size l > 0 \<and> int (cache_size (clients l)) \<ge> max_size l then (False, l)
            else (case allow now fresh of (ok, lim) \<Rightarrow>
               (ok, l\<lparr>clients := cache_set key \<lparr>limiter = lim, last_used = now\<rparr> (clients l)\<rparr>)))"

definition limiter_tick :: "instant \<Rightarrow> 'l ip_limiter \<Rightarrow> 'l ip_limiter" where
  "limiter_tick now l = l\<lparr>clients := cleanup_tick (\<lambda>k cl. idle now l cl) (clients l)\<rparr>"

definition wf_limiter :: "'l ip_limiter \<Rightarrow> bool" where
  "wf_limiter l \<longleftrightarrow> wf_cache (clients l) \<and>
     (max_size l > 0 \<longrightarrow> int (cache_size (clients l)) \<le> max_size l)"

datatype limiter_op = Allow instant ip | Tick instant

fun limiter_step :: "'l \<Rightarrow> (instant \<Rightarrow> 'l \<Rightarrow> bool \<times> 'l) \<Rightarrow> limiter_op \<Rightarrow> 'l ip_limiter \<Rightarrow> 'l ip_limiter" where
  "limiter_step fresh allow (Allow now a) l = snd (limiter_allow fresh allow now a l)"
| "limiter_step fresh allow (Tick now) l = limiter_tick now l"

lemma new_ip_limiter_wf: "wf_limiter (new_ip_limiter t m)"
  by (simp add: wf_limiter_def new_ip_limiter_def cache_new_def with_cleanup_interval_def wf_cache_def
      cache_size_def)

lemma limiter_set_wf:
  assumes "wf_limiter l" and "cache_get (clients l) k = None \<Longrightarrow>
    \<not> (max_size l > 0 \<and> int (cache_size (clients l)) \<ge> max_size l)"
  shows "wf_limiter (l\<lparr>clients := cache_set k v (clients l)\<rparr>)"
  using assms cache_kv.put_ok[of "clients l" k v] cache_kv.size_put[of k v "clients l"]
  by (auto simp: wf_limiter_def not_le)

lemma limiter_step_wf: "wf_limiter l \<Longrightarrow> wf_limiter (limiter_step fresh allow a l)"
proof (cases a)
  case (Allow now x)
  assume "wf_limiter l"
  then show ?thesis
    by (auto simp: Allow limiter_allow_def Let_def split: option.split prod.split intro: limiter_set_wf)
next
  case (Tick now)
  assume wf: "wf_limiter l"
  have "wf_cache (cleanup_tick f (clients l)) \<and> cache_size (cleanup_tick f (clients l)) \<le> cache_size (clients l)" for f
    using wf cache_kv.del_all_ok cache_kv.size_del_all
    by (auto simp: cleanup_tick_def cleanup_delete_def wf_limiter_def)
  then show ?thesis using wf by (fastforce simp: Tick limiter_tick_def wf_limiter_def)
qed

interpretation limiter_ops: machine "limiter_step fresh allow" wf_limiter "\<lambda>a. True"
  by unfold_locales (rule limiter_step_wf)

text \<open>
  The limiter is bounded and isolates clients: through any sequence of requests and cleanup
  ticks it holds at most \<^verbatim>\<open>maxSize\<close> clients, and a request of one address changes nothing for
  another address.
\<close>

theorem limiter_bounded_isolated:
  "(0 < m \<longrightarrow> int (cache_size (clients (fold (limiter_step fresh allow) ops (new_ip_limiter t m)))) \<le> m) \<and>
   (ip_key a \<noteq> ip_key b \<longrightarrow>
      cache_get (clients (snd (limiter_allow fresh allow now a l))) (ip_key b) = cache_get (clients l) (ip_key b))"
proof -
  have m: "max_size (fold (limiter_step fresh allow) ops l) = max_size l" for l
  proof (induction ops arbitrary: l)
    case (Cons a ops)
    have "max_size (limiter_step fresh allow a l) = max_size l"
      by (cases a) (auto simp: limiter_allow_def Let_def limiter_tick_def split: option.split prod.split)
    then show ?case using Cons by simp
  qed simp
  have "list_all (\<lambda>a. True) ops" by (simp add: list_all_iff)
  then have "wf_limiter (fold (limiter_step fresh allow) ops (new_ip_limiter t m))"
    by (rule limiter_ops.run_inv[OF new_ip_limiter_wf])
  then show ?thesis
    using m[of "new_ip_limiter t m"]
    by (auto simp: wf_limiter_def new_ip_limiter_def limiter_allow_def Let_def cache_kv.get_put
        split: option.split prod.split)
qed

theorem limiter_bounded_isolated_witness:
  "int (cache_size (clients (fold (limiter_step (3::nat) (\<lambda>now n. (0 < n, n - 1)))
      [Allow 1 [10,0,0,1], Allow 2 [10,0,0,2], Allow 3 [10,0,0,3]] (new_ip_limiter 60 2)))) \<le> 2"
  by (rule limiter_bounded_isolated[THEN conjunct1, rule_format]) simp

end
