(* ===== verification/Token.thy ===== *)
theory Token
  imports Go_Prelude
begin

section \<open>Announce tokens (\<^verbatim>\<open>dht/server/token.go\<close>)\<close>

text \<open>\<^verbatim>\<open>crypto/sha1\<close>: padding, message schedule and the 80 rounds on 32-bit words.\<close>

definition sha1_pad :: "byte list \<Rightarrow> byte list" where
  "sha1_pad bs = bs @ 0x80 # replicate ((119 - length bs mod 64) mod 64) 0
     @ put_be 8 (word_of_nat (8 * length bs) :: 64 word)"

definition sha1_f :: "nat \<Rightarrow> 32 word \<Rightarrow> 32 word \<Rightarrow> 32 word \<Rightarrow> 32 word" where
  "sha1_f t b c d =
     (if t < 20 then (b AND c) OR (NOT b AND d)
      else if t < 40 then b XOR c XOR d
      else if t < 60 then (b AND c) OR (b AND d) OR (c AND d)
      else b XOR c XOR d)"

definition sha1_k :: "nat \<Rightarrow> 32 word" where
  "sha1_k t = (if t < 20 then 0x5a827999 else if t < 40 then 0x6ed9eba1
     else if t < 60 then 0x8f1bbcdc else 0xca62c1d6)"

definition sha1_schedule :: "byte list \<Rightarrow> 32 word list" where
  "sha1_schedule block =
     fold (\<lambda>t w. w @ [word_rotl 1 (w ! (t - 3) XOR w ! (t - 8) XOR w ! (t - 14) XOR w ! (t - 16))])
       [16..<80] (map (\<lambda>i. get_be (take 4 (drop (4 * i) block))) [0..<16])"

type_synonym sha1_state = "32 word \<times> 32 word \<times> 32 word \<times> 32 word \<times> 32 word"

definition sha1_round :: "32 word list \<Rightarrow> nat \<Rightarrow> sha1_state \<Rightarrow> sha1_state" where
  "sha1_round w t s = (case s of (a, b, c, d, e) \<Rightarrow>
     (word_rotl 5 a + sha1_f t b c d + e + w ! t + sha1_k t, a, word_rotl 30 b, c, d))"

definition sha1_block :: "byte list \<Rightarrow> sha1_state \<Rightarrow> sha1_state" where
  "sha1_block block s =
     (case s of (h0, h1, h2, h3, h4) \<Rightarrow>
      case fold (sha1_round (sha1_schedule block)) [0..<80] s of (a, b, c, d, e) \<Rightarrow>
        (h0 + a, h1 + b, h2 + c, h3 + d, h4 + e))"

definition sha1 :: "byte list \<Rightarrow> byte list" where
  "sha1 bs =
     (let p = sha1_pad bs in
      case fold (\<lambda>i. sha1_block (take 64 (drop (64 * i) p))) [0..<length p div 64]
        (0x67452301, 0xefcdab89, 0x98badcfe, 0x10325476, 0xc3d2e1f0) of
        (a, b, c, d, e) \<Rightarrow> put_be 4 a @ put_be 4 b @ put_be 4 c @ put_be 4 d @ put_be 4 e)"

lemma length_sha1 [simp]: "length (sha1 bs) = 20"
  by (simp add: sha1_def Let_def split: prod.split)


subsection \<open>The token manager\<close>

record token_manager =
  current_secret :: "byte list"
  previous_secret :: "byte list"
  rotation :: duration

text \<open>The two secrets of a new manager, and the next one of a rotation, come from \<^verbatim>\<open>newSecret\<close>.\<close>

definition new_token_manager :: "duration \<Rightarrow> byte list \<Rightarrow> byte list \<Rightarrow> token_manager" where
  "new_token_manager r s1 s2 = \<lparr>current_secret = s1, previous_secret = s2, rotation = r\<rparr>"

definition token_for :: "ip \<Rightarrow> byte list \<Rightarrow> byte list" where
  "token_for a secret =
     (let v4 = (case to4 a of Some v \<Rightarrow> v | None \<Rightarrow> a) in take 4 (sha1 (v4 @ secret)))"

definition generate :: "token_manager \<Rightarrow> ip \<Rightarrow> byte list" where
  "generate m a = token_for a (current_secret m)"

definition validate :: "token_manager \<Rightarrow> ip \<Rightarrow> byte list \<Rightarrow> bool" where
  "validate m a token \<longleftrightarrow>
     token = token_for a (current_secret m) \<or> token = token_for a (previous_secret m)"

definition rotate_token :: "byte list \<Rightarrow> token_manager \<Rightarrow> token_manager" where
  "rotate_token next m = m\<lparr>previous_secret := current_secret m, current_secret := next\<rparr>"

lemma token_for_key: "ip_key a = ip_key b \<Longrightarrow> token_for a s = token_for b s"
  by (simp add: token_for_def ip_key_def)

lemma length_token_for [simp]: "length (token_for a s) = 4"
  by (simp add: token_for_def Let_def)

lemma secrets_after_rotations:
  "current_secret (fold rotate_token ss m) = last (current_secret m # ss) \<and>
   previous_secret (fold rotate_token ss m) = last (previous_secret m # butlast (current_secret m # ss))"
proof (induction ss arbitrary: m)
  case (Cons s ss)
  show ?case using Cons[of "rotate_token s m"] by (auto simp: rotate_token_def)
qed simp

text \<open>
  Exactly the tokens of the last two secrets validate: after any rotations a token is accepted
  for an address if and only if it is that address's 4-byte token under the current or the
  previous secret. So a token outlives one rotation, and an address may change its form (IPv4 or
  4-in-6) but nothing else.
\<close>

theorem token_window:
  "(validate (fold rotate_token ss (new_token_manager r s1 s2)) a token \<longleftrightarrow>
     (\<exists>s \<in> set (drop (length ss) ([s2, s1] @ ss)). token = token_for a s)) \<and>
   (ip_key a = ip_key b \<longrightarrow>
     validate (rotate_token s m) b (generate m a) \<and> validate m b (generate m a)) \<and>
   (validate m a token \<longrightarrow> length token = 4)"
proof (intro conjI)
  show "validate (fold rotate_token ss (new_token_manager r s1 s2)) a token \<longleftrightarrow>
      (\<exists>s \<in> set (drop (length ss) ([s2, s1] @ ss)). token = token_for a s)"
  proof (cases ss rule: rev_cases)
    case Nil
    then show ?thesis by (auto simp: validate_def new_token_manager_def)
  next
    case (snoc ts s)
    then show ?thesis
      using secrets_after_rotations[of ss "new_token_manager r s1 s2"]
      by (cases ts rule: rev_cases) (auto simp: validate_def new_token_manager_def butlast_append)
  qed
qed (auto simp: validate_def generate_def rotate_token_def intro: token_for_key)

theorem token_window_witness:
  "validate (rotate_token (replicate 8 9) (new_token_manager 5 (replicate 8 1) (replicate 8 2)))
     (v4_in_v6_prefix @ [10, 0, 0, 1]) (generate (new_token_manager 5 (replicate 8 1) (replicate 8 2)) [10, 0, 0, 1])"
  by (rule token_window[THEN conjunct2, THEN conjunct1, rule_format, THEN conjunct1])
    (simp add: ip_key_def to4_def v4_in_v6_prefix_def)

end
