(* ===== verification/Transaction.thy ===== *)
theory Transaction
  imports Cache Krpc
begin

section \<open>Transactions (\<^verbatim>\<open>dht/server/transaction.go\<close>)\<close>

text \<open>
  Queries in flight. A transaction's response channel has room for one message; a delivery puts the
  message in (none for a timeout) and closes it. Sending to or closing a closed channel panics. The
  sweeper also reports whose failures it counts, for the routing table.
\<close>

record txn =
  t_id :: "byte list"
  t_node :: node_id
  t_addr :: addr
  t_sent :: instant
  t_resp :: "msg list"
  t_closed :: bool
  t_done :: bool

definition deliver :: "msg option \<Rightarrow> txn \<Rightarrow> txn outcome" where
  "deliver m t =
     (if t_done t then Inr t
      else let t = t\<lparr>t_done := True\<rparr> in
        if t_closed t then Inl ClosedChannel
        else (case m of
            None \<Rightarrow> Inr (t\<lparr>t_closed := True\<rparr>)
          | Some x \<Rightarrow> Inr (t\<lparr>t_resp := t_resp t @ [x], t_closed := True\<rparr>)))"

record txn_manager =
  txns :: "(byte list, txn) cache"
  counter :: "32 word"
  timeout :: duration

definition new_txn_manager :: "duration \<Rightarrow> txn_manager" where
  "new_txn_manager limit =
     \<lparr>txns = cache_new [with_cleanup_interval second], counter = 0, timeout = limit\<rparr>"

definition txn_key :: "32 word \<Rightarrow> byte list" where
  "txn_key i = [ucast (drop_bit 24 i), ucast (drop_bit 16 i), ucast (drop_bit 8 i), ucast i]"

text \<open>The loop of \<^verbatim>\<open>New\<close>: the next counter value whose key is not in flight, if the loop ends.\<close>

partial_function (option) next_free :: "(byte list, txn) cache \<Rightarrow> 32 word \<Rightarrow> 32 word option" where
  "next_free c n =
     (if cache_get c (txn_key (n + 1)) \<noteq> None then next_free c (n + 1) else Some (n + 1))"

definition txn_new :: "instant \<Rightarrow> node_id \<Rightarrow> addr \<Rightarrow> txn_manager \<Rightarrow> (txn \<times> txn_manager) option" where
  "txn_new now i a m =
     (case next_free (txns m) (counter m) of
        None \<Rightarrow> None
      | Some raw \<Rightarrow>
          let t = \<lparr>t_id = txn_key raw, t_node = i, t_addr = a, t_sent = now, t_resp = [], t_closed = False, t_done = False\<rparr>
          in Some (t, m\<lparr>counter := raw, txns := cache_set (txn_key raw) t (txns m)\<rparr>))"

definition txn_complete :: "byte list \<Rightarrow> msg option \<Rightarrow> txn_manager \<Rightarrow> txn_manager outcome" where
  "txn_complete i x m =
     (case cache_get (txns m) i of
        None \<Rightarrow> Inr m
      | Some t \<Rightarrow>
          (case deliver x t of
             Inl p \<Rightarrow> Inl p
           | Inr t' \<Rightarrow> Inr (m\<lparr>txns := cache_set i t' (txns m)\<rparr>)))"

text \<open>
  The cleanup function over all entries: the keys to delete, the nodes whose queries timed out, and
  the transactions whose waiting callers it releases.
\<close>

fun sweep_loop :: "instant \<Rightarrow> duration \<Rightarrow> (byte list \<times> txn) list \<Rightarrow> (byte list list \<times> node_id list \<times> txn list) outcome" where
  "sweep_loop now limit [] = Inr ([], [], [])"
| "sweep_loop now limit ((k, t) # es) =
     (case sweep_loop now limit es of
        Inl p \<Rightarrow> Inl p
      | Inr (ks, failed, released) \<Rightarrow>
          if t_done t then Inr (k # ks, failed, released)
          else if since now (t_sent t) \<le> limit then Inr (ks, failed, released)
          else (case deliver None t of
              Inl p \<Rightarrow> Inl p
            | Inr t' \<Rightarrow> Inr (k # ks, t_node t # failed, t' # released)))"

definition txn_sweep :: "instant \<Rightarrow> txn_manager \<Rightarrow> (txn_manager \<times> node_id list \<times> txn list) outcome" where
  "txn_sweep now m =
     (case sweep_loop now (timeout m) (entries (txns m)) of
        Inl p \<Rightarrow> Inl p
      | Inr (ks, failed, released) \<Rightarrow> Inr (m\<lparr>txns := cleanup_delete ks (txns m)\<rparr>, failed, released))"


subsection \<open>Delivery\<close>

definition wf_txn :: "txn \<Rightarrow> bool" where
  "wf_txn t \<longleftrightarrow> (t_closed t \<longleftrightarrow> t_done t) \<and> length (t_resp t) \<le> 1 \<and> (\<not> t_done t \<longrightarrow> t_resp t = []) \<and>
     wf_id (t_node t)"

lemma deliver_wf:
  "wf_txn t \<Longrightarrow> \<exists>t'. deliver x t = Inr t' \<and> wf_txn t' \<and> t_done t' \<and> t_id t' = t_id t \<and> t_node t' = t_node t"
  by (cases x) (auto simp: deliver_def wf_txn_def)

fun deliver_all :: "msg option list \<Rightarrow> txn \<Rightarrow> txn outcome" where
  "deliver_all [] t = Inr t"
| "deliver_all (x # xs) t = (case deliver x t of Inl p \<Rightarrow> Inl p | Inr t' \<Rightarrow> deliver_all xs t')"

lemma deliver_all_done: "t_done t \<Longrightarrow> deliver_all xs t = Inr t"
  by (induction xs) (auto simp: deliver_def)

text \<open>
  The first delivery decides: however many replies and timeouts race for a transaction, none
  panics on the closed channel, and the caller gets the first message or, after a timeout first,
  none.
\<close>

theorem first_delivery_wins:
  assumes "wf_txn t" and "\<not> t_done t"
  shows "deliver_all (x # xs) t =
    Inr (t\<lparr>t_resp := (case x of None \<Rightarrow> [] | Some m \<Rightarrow> [m]), t_closed := True, t_done := True\<rparr>)"
  using assms by (cases x) (auto simp: deliver_def wf_txn_def deliver_all_done)

theorem first_delivery_wins_witness:
  "deliver_all [None, Some empty_msg] \<lparr>t_id = [1], t_node = zero_id, t_addr = \<lparr>ip = [], port = 0\<rparr>, t_sent = 0,
      t_resp = [], t_closed = False, t_done = False\<rparr> =
   Inr (\<lparr>t_id = [1], t_node = zero_id, t_addr = \<lparr>ip = [], port = 0\<rparr>, t_sent = 0,
      t_resp = [], t_closed = False, t_done = False\<rparr>
        \<lparr>t_resp := (case None of None \<Rightarrow> [] | Some m \<Rightarrow> [m]), t_closed := True, t_done := True\<rparr>)"
  by (rule first_delivery_wins) (simp_all add: wf_txn_def)


subsection \<open>Fresh identifiers\<close>

lemma txn_key_put_be: "txn_key i = put_be 4 i"
  by (simp add: txn_key_def put_be_def upt_conv_Cons eval_nat_numeral del: upt_Suc)

lemma txn_key_inj: "txn_key i = txn_key j \<longleftrightarrow> i = j"
proof
  assume "txn_key i = txn_key j"
  then have "(get_be (put_be 4 i) :: 32 word) = get_be (put_be 4 j)" by (simp add: txn_key_put_be)
  then show "i = j" by (simp add: get_put_be)
qed simp

lemma next_free_found:
  "cache_get c (txn_key (n + word_of_nat (Suc k))) = None \<Longrightarrow>
     \<exists>r. next_free c n = Some r \<and> cache_get c (txn_key r) = None"
proof (induction k arbitrary: n)
  case (Suc k)
  show ?case
  proof (cases "cache_get c (txn_key (n + 1)) = None")
    case False
    have "n + word_of_nat (Suc (Suc k)) = (n + 1) + word_of_nat (Suc k)" by simp
    then have "\<exists>r. next_free c (n + 1) = Some r \<and> cache_get c (txn_key r) = None"
      using Suc.prems by (intro Suc.IH) (simp only:)
    then show ?thesis using False by (simp add: next_free.simps[of c n])
  qed (simp add: next_free.simps[of c n])
next
  case (0 n)
  then show ?case by (simp add: next_free.simps[of c n])
qed

lemma free_key_exists:
  assumes "cache_size c < 2 ^ 32"
  shows "\<exists>r. cache_get c (txn_key r) = None"
proof (rule ccontr)
  assume "\<not> ?thesis"
  then have "range txn_key \<subseteq> set (map_keys (entries c))"
    by (auto simp: cache_get_def dest: map_get_Some_keys)
  then have "card (range txn_key) \<le> card (set (map_keys (entries c)))" by (intro card_mono) auto
  also have "\<dots> \<le> cache_size c" using card_length[of "map_keys (entries c)"] by (simp add: cache_size_def)
  finally have "card (range txn_key) \<le> cache_size c" .
  moreover have "card (range txn_key) = CARD(32 word)"
    by (rule card_image) (auto simp: inj_on_def txn_key_inj)
  ultimately show False using assms by (simp add: card_word)
qed

lemma next_free_total:
  assumes "cache_size c < 2 ^ 32"
  shows "\<exists>r. next_free c n = Some r \<and> cache_get c (txn_key r) = None"
proof -
  obtain r where r: "cache_get c (txn_key r) = None" using free_key_exists[OF assms] by blast
  define k where "k = unat (r - n - 1)"
  have "n + word_of_nat (Suc k) = r" by (simp add: k_def)
  then show ?thesis using next_free_found[of c n k] r by simp
qed

lemma txn_new_total:
  assumes "cache_size (txns m) < 2 ^ 32" and "wf_id i"
  shows "\<exists>t m'. txn_new now i a m = Some (t, m') \<and> length (t_id t) = 4 \<and> wf_txn t \<and> \<not> t_done t \<and>
    cache_get (txns m) (t_id t) = None \<and> cache_get (txns m') = (cache_get (txns m))(t_id t \<mapsto> t)"
proof -
  obtain r where "next_free (txns m) (counter m) = Some r" "cache_get (txns m) (txn_key r) = None"
    using next_free_total[OF assms(1)] by blast
  then show ?thesis using assms(2)
    by (simp add: txn_new_def Let_def wf_txn_def cache_kv.get_put) (simp add: txn_key_def)
qed

text \<open>
  \<^verbatim>\<open>New\<close> returns whenever fewer than \<open>2^32\<close> queries are in flight, also when its counter wraps
  around: with a 4-byte identifier no query in flight has, registered for the reply, and with every
  other transaction left as it was.
\<close>

theorem txn_new_fresh:
  assumes "cache_size (txns m) < 2 ^ 32" and "wf_id i"
  shows "\<exists>t m'. txn_new now i a m = Some (t, m') \<and> length (t_id t) = 4 \<and> wf_txn t \<and> \<not> t_done t \<and>
    cache_get (txns m) (t_id t) = None \<and> cache_get (txns m') = (cache_get (txns m))(t_id t \<mapsto> t)"
  by (rule txn_new_total[OF assms])

theorem txn_new_fresh_witness:
  "\<exists>t m'. txn_new 5 zero_id \<lparr>ip = [10, 0, 0, 1], port = 6881\<rparr> (new_txn_manager 10) = Some (t, m') \<and>
    length (t_id t) = 4 \<and> wf_txn t \<and> \<not> t_done t \<and> cache_get (txns (new_txn_manager 10)) (t_id t) = None \<and>
    cache_get (txns m') = (cache_get (txns (new_txn_manager 10)))(t_id t \<mapsto> t)"
  by (rule txn_new_fresh)
    (simp_all add: new_txn_manager_def cache_new_def with_cleanup_interval_def cache_size_def)

subsection \<open>The sweep\<close>

definition wf_txns :: "txn_manager \<Rightarrow> bool" where
  "wf_txns m \<longleftrightarrow> wf_cache (txns m) \<and> list_all (\<lambda>(k, t). t_id t = k \<and> wf_txn t) (entries (txns m))"

lemma wf_txns_new: "wf_txns (new_txn_manager limit)"
  by (simp add: wf_txns_def new_txn_manager_def cache_new_def with_cleanup_interval_def wf_cache_def)

lemma wf_txns_set:
  assumes "wf_txns m" and "t_id t = k" and "wf_txn t"
  shows "wf_txns (m\<lparr>txns := cache_set k t (txns m)\<rparr>)" "wf_txns (m\<lparr>counter := n, txns := cache_set k t (txns m)\<rparr>)"
  using assms set_map_set[of k t "entries (txns m)"] cache_kv.put_ok[of "txns m" k t]
  by (auto simp: wf_txns_def cache_set_def list_all_iff)

lemma wf_txns_get: "wf_txns m \<Longrightarrow> cache_get (txns m) k = Some t \<Longrightarrow> t_id t = k \<and> wf_txn t"
  by (auto simp: wf_txns_def cache_get_def list_all_iff dest: map_of_SomeD)

lemma txn_complete_wf: "wf_txns m \<Longrightarrow> \<exists>m'. txn_complete i x m = Inr m' \<and> wf_txns m'"
proof (cases "cache_get (txns m) i")
  case (Some t)
  assume wf: "wf_txns m"
  then obtain t' where "deliver x t = Inr t'" "wf_txn t'" "t_id t' = i"
    using wf_txns_get[OF wf Some] deliver_wf[of t x] by auto
  then show ?thesis using Some wf by (simp add: txn_complete_def wf_txns_set)
qed (simp add: txn_complete_def)

lemma txn_new_wf:
  assumes "wf_txns m" and "txn_new now i a m = Some (t, m')" and "wf_id i"
  shows "wf_txns m'" "wf_txn t" "t_node t = i" "t_addr t = a" "t_sent t = now"
    "cache_get (txns m') = (cache_get (txns m))(t_id t \<mapsto> t)"
  using assms
  by (auto simp: txn_new_def Let_def wf_txn_def cache_kv.get_put intro!: wf_txns_set split: option.splits)

lemma wf_txns_delete: "wf_txns m \<Longrightarrow> wf_txns (m\<lparr>txns := cleanup_delete ks (txns m)\<rparr>)"
proof -
  have "set (entries (fold cache_delete ks c)) \<subseteq> set (entries c)" for c :: "(byte list, txn) cache"
  proof (induction ks arbitrary: c)
    case (Cons k ks)
    then show ?case using set_map_del[of k "entries c"] by (fastforce simp: cache_delete_def)
  qed simp
  then show "wf_txns m \<Longrightarrow> wf_txns (m\<lparr>txns := cleanup_delete ks (txns m)\<rparr>)"
    using cache_kv.del_all_ok[of "txns m" ks] by (fastforce simp: wf_txns_def list_all_iff cleanup_delete_def)
qed

definition expired :: "instant \<Rightarrow> duration \<Rightarrow> txn \<Rightarrow> bool" where
  "expired now limit t \<longleftrightarrow> \<not> t_done t \<and> since now (t_sent t) > limit"

lemma sweep_loop_spec:
  assumes "list_all (\<lambda>(k, t). wf_txn t) es"
  shows "\<exists>released. sweep_loop now limit es =
      Inr (map fst (filter (\<lambda>(k, t). t_done t \<or> expired now limit t) es),
           map (\<lambda>(k, t). t_node t) (filter (\<lambda>(k, t). expired now limit t) es), released) \<and>
    released = map (\<lambda>(k, t). t\<lparr>t_closed := True, t_done := True\<rparr>) (filter (\<lambda>(k, t). expired now limit t) es)"
  using assms
proof (induction now limit es rule: sweep_loop.induct)
  case (2 now limit k t es)
  then show ?case by (auto simp: deliver_def wf_txn_def expired_def not_le)
qed simp

lemma sweep_correct_lemma:
  assumes "wf_txns m"
  shows "\<exists>m' failed released. txn_sweep now m = Inr (m', failed, released) \<and>
    (\<forall>k. cache_get (txns m') k =
      (case cache_get (txns m) k of
         None \<Rightarrow> None
       | Some t \<Rightarrow> if t_done t \<or> expired now (timeout m) t then None else Some t)) \<and>
    wf_txns m' \<and> mset failed = image_mset (\<lambda>(k, t). t_node t) {#(k, t) \<in># mset (entries (txns m)). expired now (timeout m) t#} \<and>
    (\<forall>t \<in> set released. t_closed t \<and> t_resp t = [])"
proof -
  let ?es = "entries (txns m)"
  let ?ks = "map fst (filter (\<lambda>(k, t). t_done t \<or> expired now (timeout m) t) ?es)"
  let ?failed = "map (\<lambda>(k, t). t_node t) (filter (\<lambda>(k, t). expired now (timeout m) t) ?es)"
  have wf: "list_all (\<lambda>(k, t). wf_txn t) ?es" using assms by (auto simp: wf_txns_def list_all_iff)
  obtain released where loop: "sweep_loop now (timeout m) ?es = Inr (?ks, ?failed, released)"
    and rel: "released = map (\<lambda>(k, t). t\<lparr>t_closed := True, t_done := True\<rparr>) (filter (\<lambda>(k, t). expired now (timeout m) t) ?es)"
    using sweep_loop_spec[OF wf, of now "timeout m"] by blast
  have sweep: "txn_sweep now m = Inr (m\<lparr>txns := cleanup_delete ?ks (txns m)\<rparr>, ?failed, released)"
    by (simp add: txn_sweep_def loop)
  have keys: "k \<in> set ?ks \<longleftrightarrow> (\<exists>t. cache_get (txns m) k = Some t \<and> (t_done t \<or> expired now (timeout m) t))" for k
    using cleanup_scan_keys[of "txns m" k "\<lambda>k t. t_done t \<or> expired now (timeout m) t"] assms
    by (simp add: cleanup_scan_def wf_txns_def)
  have get: "cache_get (cleanup_delete ?ks (txns m)) k =
      (case cache_get (txns m) k of
         None \<Rightarrow> None
       | Some t \<Rightarrow> if t_done t \<or> expired now (timeout m) t then None else Some t)" for k
    unfolding cleanup_delete_def cache_kv.get_del_all keys by (auto split: option.split)
  have resp: "\<forall>t \<in> set released. t_closed t \<and> t_resp t = []"
    using wf by (auto simp: rel list_all_iff wf_txn_def expired_def)
  show ?thesis
    by (rule exI, rule exI, rule exI, rule conjI[OF sweep])
      (simp add: get resp wf_txns_delete[OF assms])
qed


text \<open>
  A sweep ends exactly the overdue queries: no panic; the finished and the overdue
  transactions are gone and all others stay; each overdue query counts one failure against its node
  and closes its channel without a message.
\<close>

theorem sweep_correct:
  assumes "wf_txns m"
  shows "\<exists>m' failed released. txn_sweep now m = Inr (m', failed, released) \<and>
    (\<forall>k. cache_get (txns m') k =
      (case cache_get (txns m) k of
         None \<Rightarrow> None
       | Some t \<Rightarrow> if t_done t \<or> expired now (timeout m) t then None else Some t)) \<and>
    wf_txns m' \<and> mset failed = image_mset (\<lambda>(k, t). t_node t) {#(k, t) \<in># mset (entries (txns m)). expired now (timeout m) t#} \<and>
    (\<forall>t \<in> set released. t_closed t \<and> t_resp t = [])"
  by (rule sweep_correct_lemma[OF assms])

definition sample_txn :: txn where
  "sample_txn = \<lparr>t_id = [0, 0, 0, 1], t_node = replicate 20 7, t_addr = \<lparr>ip = [10, 0, 0, 1], port = 6881\<rparr>, t_sent = 5,
     t_resp = [], t_closed = False, t_done = False\<rparr>"

definition sample_manager :: txn_manager where
  "sample_manager = \<lparr>txns = \<lparr>entries = [([0, 0, 0, 1], sample_txn)], cleanup_interval = second, cleanup_func = None\<rparr>,
     counter = 1, timeout = 10\<rparr>"

theorem sweep_correct_witness:
  "\<exists>m' failed released. txn_sweep 50 sample_manager = Inr (m', failed, released) \<and>
    (\<forall>k. cache_get (txns m') k =
      (case cache_get (txns sample_manager) k of
         None \<Rightarrow> None
       | Some t \<Rightarrow> if t_done t \<or> expired 50 (timeout sample_manager) t then None else Some t)) \<and>
    wf_txns m' \<and> mset failed = image_mset (\<lambda>(k, t). t_node t)
      {#(k, t) \<in># mset (entries (txns sample_manager)). expired 50 (timeout sample_manager) t#} \<and>
    (\<forall>t \<in> set released. t_closed t \<and> t_resp t = [])"
  by (rule sweep_correct)
    (simp add: wf_txns_def wf_txn_def sample_manager_def sample_txn_def wf_cache_def wf_map_def map_keys_def wf_id_def)

end
