(* ===== verification/Peer_Store.thy ===== *)
theory Peer_Store
  imports Bucket
begin

section \<open>The peer store (\<^verbatim>\<open>dht/server/peerstore.go\<close>)\<close>

text \<open>
  Announced peers by infohash, with the order in which infohashes came in for eviction. The order
  is a linked list whose elements the index points to; the model numbers the elements. Time is the
  instant \<^verbatim>\<open>ps.now()\<close> returns during an operation.
\<close>

record peer_entry =
  pe_ip :: ip
  pe_port :: int
  pe_seen :: instant

record sample_data =
  samples :: "byte list"
  sample_num :: nat
  sample_at :: instant

type_synonym info_hash = "byte list"

record peer_store =
  peers :: "(info_hash, peer_entry list) gomap"
  order :: "(nat \<times> info_hash) list"
  order_index :: "(info_hash, nat) gomap"
  next_element :: nat
  max_hashes :: nat
  max_peers :: nat
  ps_ttl :: duration
  sample_cache :: sample_data

definition new_peer_store :: "nat \<Rightarrow> nat \<Rightarrow> duration \<Rightarrow> peer_store" where
  "new_peer_store mh mp t =
     \<lparr>peers = [], order = [], order_index = [], next_element = 0, max_hashes = mh, max_peers = mp,
      ps_ttl = t, sample_cache = \<lparr>samples = [], sample_num = 0, sample_at = 0\<rparr>\<rparr>"

definition remove_element :: "nat \<Rightarrow> (nat \<times> info_hash) list \<Rightarrow> (nat \<times> info_hash) list" where
  "remove_element el = filter (\<lambda>(e, h). e \<noteq> el)"

fun evict_loop :: "(nat \<times> info_hash) list \<Rightarrow> peer_store \<Rightarrow> peer_store" where
  "evict_loop [] ps = ps"
| "evict_loop ((el, ih) # rest) ps =
     (let ps1 = ps\<lparr>order := rest, order_index := map_del ih (order_index ps)\<rparr>
      in if map_get (peers ps1) ih \<noteq> None then ps1\<lparr>peers := map_del ih (peers ps1)\<rparr>
         else evict_loop rest ps1)"

definition evict_oldest :: "peer_store \<Rightarrow> peer_store" where
  "evict_oldest ps = evict_loop (order ps) ps"

definition prepare_new_infohash :: "info_hash \<Rightarrow> peer_store \<Rightarrow> peer_store" where
  "prepare_new_infohash ih ps =
     (let ps1 = (if length (peers ps) \<ge> max_hashes ps then evict_oldest ps else ps)
      in ps1\<lparr>order := order ps1 @ [(next_element ps1, ih)],
             order_index := map_set ih (next_element ps1) (order_index ps1),
             next_element := next_element ps1 + 1\<rparr>)"

definition same_peer :: "ip \<Rightarrow> int \<Rightarrow> peer_entry \<Rightarrow> bool" where
  "same_peer a p e \<longleftrightarrow> ip_equal (pe_ip e) a \<and> pe_port e = p"

definition get_or_prepare ::
    "instant \<Rightarrow> info_hash \<Rightarrow> ip \<Rightarrow> int \<Rightarrow> peer_store \<Rightarrow> peer_entry list \<times> bool \<times> peer_store" where
  "get_or_prepare now ih a p ps =
     (case map_get (peers ps) ih of
        None \<Rightarrow> ([], False, prepare_new_infohash ih ps)
      | Some existing \<Rightarrow>
          if list_ex (same_peer a p) existing then
            let updated = update_first (same_peer a p) (\<lambda>e. e\<lparr>pe_seen := now\<rparr>) existing
            in (updated, True, ps\<lparr>peers := map_set ih updated (peers ps)\<rparr>)
          else (existing, False, ps))"

definition peer_add :: "instant \<Rightarrow> info_hash \<Rightarrow> ip \<Rightarrow> int \<Rightarrow> peer_store \<Rightarrow> peer_store" where
  "peer_add now ih a p ps =
     (case get_or_prepare now ih a p ps of (existing, finished, ps1) \<Rightarrow>
        if finished then ps1
        else if length existing \<ge> max_peers ps1 then ps1
        else ps1\<lparr>peers := map_set ih (existing @ [\<lparr>pe_ip = a, pe_port = p, pe_seen = now\<rparr>]) (peers ps1)\<rparr>)"

definition filter_live :: "instant \<Rightarrow> duration \<Rightarrow> peer_entry list \<Rightarrow> peer_entry list" where
  "filter_live now t es = filter (\<lambda>e. pe_seen e > now - t) es"

definition remove_from_order :: "info_hash \<Rightarrow> peer_store \<Rightarrow> peer_store" where
  "remove_from_order ih ps =
     (case map_get (order_index ps) ih of
        None \<Rightarrow> ps
      | Some el \<Rightarrow> ps\<lparr>order := remove_element el (order ps), order_index := map_del ih (order_index ps)\<rparr>)"

definition peer_get :: "instant \<Rightarrow> info_hash \<Rightarrow> peer_store \<Rightarrow> peer_entry list \<times> peer_store" where
  "peer_get now ih ps =
     (case map_get (peers ps) ih of
        None \<Rightarrow> ([], ps)
      | Some es \<Rightarrow>
          let live = filter_live now (ps_ttl ps) es
          in if live = [] then ([], remove_from_order ih (ps\<lparr>peers := map_del ih (peers ps)\<rparr>))
             else (live, ps\<lparr>peers := map_set ih live (peers ps)\<rparr>))"

text \<open>The body of the loop of \<^verbatim>\<open>pruneExpired\<close> for one list element.\<close>

definition prune_element :: "instant \<Rightarrow> nat \<times> info_hash \<Rightarrow> peer_store \<Rightarrow> peer_store" where
  "prune_element now e ps =
     (case e of (el, ih) \<Rightarrow>
      case map_get (peers ps) ih of
        None \<Rightarrow> ps\<lparr>order := remove_element el (order ps), order_index := map_del ih (order_index ps)\<rparr>
      | Some es \<Rightarrow>
          let live = filter_live now (ps_ttl ps) es
          in if live = [] then
               ps\<lparr>peers := map_del ih (peers ps), order := remove_element el (order ps),
                  order_index := map_del ih (order_index ps)\<rparr>
             else if length live < length es then ps\<lparr>peers := map_set ih live (peers ps)\<rparr>
             else ps)"

definition prune_expired :: "instant \<Rightarrow> peer_store \<Rightarrow> peer_store" where
  "prune_expired now ps = fold (prune_element now) (order ps) ps"

text \<open>\<open>rnd\<close> are the random numbers of \<^verbatim>\<open>rand.Shuffle\<close>.\<close>

definition peer_sample :: "instant \<Rightarrow> (nat \<Rightarrow> nat) \<Rightarrow> peer_store \<Rightarrow> (byte list \<times> nat) \<times> peer_store" where
  "peer_sample now rnd ps =
     (let total = length (peers ps) in
      if total = 0 then (([], 0), ps)
      else if time_sub now (sample_at (sample_cache ps)) < 5 * minute \<and> samples (sample_cache ps) \<noteq> [] then
        ((samples (sample_cache ps), sample_num (sample_cache ps)), ps)
      else
        let keys = go_shuffle rnd (map_keys (peers ps));
            limit = min 500 total;
            res = concat (map (\<lambda>i. go_copy (replicate 20 0) (keys ! i)) [0..<limit]);
            c = \<lparr>samples = res, sample_num = total, sample_at = now\<rparr>
        in ((samples c, sample_num c), ps\<lparr>sample_cache := c\<rparr>))"


subsection \<open>The invariant\<close>

text \<open>
  The map, the order and the index agree on the stored infohashes; the counts are within the
  configured bounds; no infohash has an empty list or the same peer twice.
\<close>

definition peer_key :: "peer_entry \<Rightarrow> ip \<times> int" where
  "peer_key e = (ip_key (pe_ip e), pe_port e)"

definition wf_peers :: "nat \<Rightarrow> peer_entry list \<Rightarrow> bool" where
  "wf_peers mp es \<longleftrightarrow> es \<noteq> [] \<and> length es \<le> mp \<and> distinct (map peer_key es)"

definition wf_order :: "peer_store \<Rightarrow> bool" where
  "wf_order ps \<longleftrightarrow> wf_map (order_index ps) \<and> distinct (map fst (order ps)) \<and> distinct (map snd (order ps)) \<and>
     (\<forall>e h. (e, h) \<in> set (order ps) \<longrightarrow> e < next_element ps) \<and>
     (\<forall>e h. map_get (order_index ps) h = Some e \<longleftrightarrow> (e, h) \<in> set (order ps))"

definition wf_store :: "peer_store \<Rightarrow> bool" where
  "wf_store ps \<longleftrightarrow> 0 < max_peers ps \<and> wf_map (peers ps) \<and> wf_order ps \<and>
     set (map_keys (peers ps)) = snd ` set (order ps) \<and>
     length (peers ps) \<le> max 1 (max_hashes ps) \<and>
     (\<forall>h es. map_get (peers ps) h = Some es \<longrightarrow> wf_peers (max_peers ps) es)"

lemma same_peer_key: "same_peer a p e \<longleftrightarrow> peer_key e = (ip_key a, p)"
  by (auto simp: same_peer_def peer_key_def ip_equal_key)

lemma new_peer_store_wf: "0 < mp \<Longrightarrow> wf_store (new_peer_store mh mp t)"
  by (simp add: wf_store_def new_peer_store_def wf_order_def map_keys_def)

text \<open>Changing one stored list, and dropping one infohash from the three structures.\<close>

lemma wf_store_set:
  assumes "wf_store ps" and "map_get (peers ps) h \<noteq> None" and "wf_peers (max_peers ps) es"
  shows "wf_store (ps\<lparr>peers := map_set h es (peers ps)\<rparr>)"
  using assms map_get_Some_keys[of "peers ps" h]
  by (auto simp: wf_store_def wf_order_def go_map length_map_set insert_absorb intro: wf_intros split: if_splits)

lemma unique_element:
  assumes "distinct (map fst xs)" and "distinct (map snd xs)" and "(e, h) \<in> set xs" and "(e', h') \<in> set xs"
  shows "e = e' \<longleftrightarrow> h = h'"
proof
  assume "e = e'" then show "h = h'" using assms(1,3,4) eq_key_imp_eq_value by metis
next
  assume "h = h'"
  moreover have "inj_on snd (set xs)" using assms(2) by (simp add: distinct_map)
  ultimately have "(e, h) = (e', h')" 
    using assms(3,4) inj_onD[of snd "set xs" "(e, h)" "(e', h')"] by simp
  then show "e = e'" by simp
qed

lemma wf_order_drop:
  assumes "wf_order ps" and "(el, h) \<in> set (order ps)"
  shows "wf_order (ps\<lparr>peers := q, order := remove_element el (order ps), order_index := map_del h (order_index ps)\<rparr>)"
    and "snd ` set (remove_element el (order ps)) = snd ` set (order ps) - {h}"
proof -
  have d: "distinct (map fst (order ps))" "distinct (map snd (order ps))"
    using assms(1) by (auto simp: wf_order_def)
  have u: "e = el \<longleftrightarrow> h' = h" if "(e, h') \<in> set (order ps)" for e h'
    by (rule unique_element[OF d that assms(2)])
  have mem: "(e, h') \<in> set (remove_element el (order ps)) \<longleftrightarrow> (e, h') \<in> set (order ps) \<and> h' \<noteq> h" for e h'
    using u by (auto simp: remove_element_def)
  have dd: "distinct (map fst (remove_element el (order ps)))" "distinct (map snd (remove_element el (order ps)))"
    using d by (simp_all add: remove_element_def distinct_map_filter)
  show "wf_order (ps\<lparr>peers := q, order := remove_element el (order ps), order_index := map_del h (order_index ps)\<rparr>)"
    using assms(1) dd mem by (auto simp: wf_order_def go_map intro: wf_intros)
  show "snd ` set (remove_element el (order ps)) = snd ` set (order ps) - {h}"
  proof (rule set_eqI)
    fix x
    show "x \<in> snd ` set (remove_element el (order ps)) \<longleftrightarrow> x \<in> snd ` set (order ps) - {h}"
      using mem by (auto simp: image_iff)
  qed
qed

lemma wf_store_drop:
  assumes "wf_store ps" and "(el, h) \<in> set (order ps)"
  shows "wf_store (ps\<lparr>peers := map_del h (peers ps), order := remove_element el (order ps),
    order_index := map_del h (order_index ps)\<rparr>)"
proof -
  have o: "wf_order ps" using assms(1) by (simp add: wf_store_def)
  show ?thesis
    using assms(1) wf_order_drop(1)[OF o assms(2), of "map_del h (peers ps)"]
      wf_order_drop(2)[OF o assms(2)] length_map_del[of "peers ps" h]
    by (auto simp: wf_store_def go_map intro: wf_intros split: if_splits)
qed


subsection \<open>The operations keep the invariant\<close>

lemma evict_oldest_spec:
  assumes "wf_store ps" and "order ps = (el, h) # rest"
  shows "evict_oldest ps = ps\<lparr>peers := map_del h (peers ps), order := remove_element el (order ps),
    order_index := map_del h (order_index ps)\<rparr>"
proof -
  have "h \<in> set (map_keys (peers ps))" using assms by (simp add: wf_store_def)
  then have "map_get (peers ps) h \<noteq> None" by (simp add: map_get_None_keys)
  moreover have "remove_element el (order ps) = rest"
  proof -
    have "el \<notin> fst ` set rest" using assms by (simp add: wf_store_def wf_order_def)
    then show ?thesis using assms(2) by (force simp: remove_element_def intro!: filter_True)
  qed
  ultimately show ?thesis using assms(2) by (simp add: evict_oldest_def)
qed

text \<open>After making room: well formed, the new infohash still absent, and below the bound.\<close>

lemma make_room:
  assumes wf: "wf_store ps" and new: "map_get (peers ps) h = None"
    and ps1: "ps1 = (if length (peers ps) \<ge> max_hashes ps then evict_oldest ps else ps)"
  shows "wf_store ps1 \<and> map_get (peers ps1) h = None \<and> length (peers ps1) < max 1 (max_hashes ps1) \<and>
    max_peers ps1 = max_peers ps"
proof (cases "length (peers ps) \<ge> max_hashes ps")
  case True
  show ?thesis
  proof (cases "order ps")
    case Nil
    then have "peers ps = []" using wf by (simp add: wf_store_def map_keys_def)
    then show ?thesis using True wf new Nil by (simp add: ps1 evict_oldest_def)
  next
    case (Cons e rest)
    obtain el k where e: "e = (el, k)" by force
    have "k \<in> set (map_keys (peers ps))" using wf Cons e by (simp add: wf_store_def)
    then have "map_get (peers ps) k \<noteq> None" by (simp add: map_get_None_keys)
    then have "length (map_del k (peers ps)) = length (peers ps) - 1" "peers ps \<noteq> []"
      using length_map_del[of "peers ps" k] wf by (auto simp: wf_store_def)
    then have "length (map_del k (peers ps)) < length (peers ps)" by simp
    moreover have "length (peers ps) \<le> max 1 (max_hashes ps)" using wf by (simp add: wf_store_def)
    ultimately show ?thesis
      using True new wf_store_drop[OF wf, of el k] Cons e
      by (simp add: ps1 evict_oldest_spec[OF wf Cons[unfolded e]] go_map)
  qed
next
  case False
  then show ?thesis using wf new by (simp add: ps1)
qed

lemma wf_order_push:
  assumes "wf_order ps" and "h \<notin> snd ` set (order ps)"
  shows "wf_order (ps\<lparr>order := order ps @ [(next_element ps, h)],
    order_index := map_set h (next_element ps) (order_index ps), next_element := next_element ps + 1, peers := q\<rparr>)"
  using assms unfolding wf_order_def by (auto simp: go_map image_iff intro: wf_intros)

lemma add_new_wf:
  assumes wf: "wf_store ps" and new: "map_get (peers ps) h = None"
  shows "wf_store (peer_add now h a p ps)"
proof -
  define ps1 where "ps1 = (if length (peers ps) \<ge> max_hashes ps then evict_oldest ps else ps)"
  have room: "wf_store ps1" "map_get (peers ps1) h = None" "length (peers ps1) < max 1 (max_hashes ps1)"
    using make_room[OF wf new ps1_def] by auto
  have notin: "h \<notin> snd ` set (order ps1)" using room by (auto simp: wf_store_def map_get_None_keys)
  let ?ps2 = "ps1\<lparr>order := order ps1 @ [(next_element ps1, h)],
      order_index := map_set h (next_element ps1) (order_index ps1), next_element := next_element ps1 + 1,
      peers := map_set h [\<lparr>pe_ip = a, pe_port = p, pe_seen = now\<rparr>] (peers ps1)\<rparr>"
  have "peer_add now h a p ps = ?ps2"
    using room(1) new
    by (simp add: peer_add_def get_or_prepare_def prepare_new_infohash_def Let_def ps1_def[symmetric] wf_store_def)
  moreover have "wf_order ?ps2" using room(1) notin by (intro wf_order_push) (simp_all add: wf_store_def)
  moreover have "wf_peers (max_peers ps1) [\<lparr>pe_ip = a, pe_port = p, pe_seen = now\<rparr>]"
    using room(1) by (simp add: wf_store_def wf_peers_def)
  ultimately show ?thesis using room
    by (auto simp: wf_store_def go_map length_map_set intro: wf_intros split: if_splits)
qed

lemma peer_add_wf: "wf_store ps \<Longrightarrow> wf_store (peer_add now h a p ps)"
proof (cases "map_get (peers ps) h")
  case (Some es)
  assume wf: "wf_store ps"
  have es: "wf_peers (max_peers ps) es" using wf Some by (simp add: wf_store_def)
  show ?thesis
  proof (cases "list_ex (same_peer a p) es")
    case True
    have "map peer_key (update_first (same_peer a p) (\<lambda>e. e\<lparr>pe_seen := now\<rparr>) es) = map peer_key es"
      by (rule map_update_first) (simp add: peer_key_def)
    then have "wf_peers (max_peers ps) (update_first (same_peer a p) (\<lambda>e. e\<lparr>pe_seen := now\<rparr>) es)"
      using es by (simp add: wf_peers_def)
    then show ?thesis using True Some wf
      by (simp add: peer_add_def get_or_prepare_def Let_def wf_store_set)
  next
    case False
    then have "(ip_key a, p) \<notin> set (map peer_key es)" by (auto simp: list_ex_iff same_peer_key)
    then have "length es < max_peers ps \<Longrightarrow>
        wf_peers (max_peers ps) (es @ [\<lparr>pe_ip = a, pe_port = p, pe_seen = now\<rparr>])"
      using es by (auto simp: wf_peers_def peer_key_def)
    then show ?thesis using False Some wf
      by (auto simp: peer_add_def get_or_prepare_def intro!: wf_store_set)
  qed
qed (rule add_new_wf)

lemma filter_live_wf: "wf_peers mp es \<Longrightarrow> filter_live now t es \<noteq> [] \<Longrightarrow> wf_peers mp (filter_live now t es)"
  unfolding wf_peers_def filter_live_def
  using le_trans[OF length_filter_le] by (auto simp: distinct_map_filter)

lemma index_of_stored:
  assumes "wf_store ps" and "map_get (peers ps) h = Some es"
  obtains el where "map_get (order_index ps) h = Some el" "(el, h) \<in> set (order ps)"
proof -
  have "h \<in> snd ` set (order ps)"
    using assms map_get_Some_keys[of "peers ps" h es] by (simp add: wf_store_def)
  then show ?thesis using that assms(1) by (auto simp: wf_store_def wf_order_def)
qed

lemma peer_get_wf: "wf_store ps \<Longrightarrow> wf_store (snd (peer_get now h ps))"
proof (cases "map_get (peers ps) h")
  case (Some es)
  assume wf: "wf_store ps"
  obtain el where "map_get (order_index ps) h = Some el" "(el, h) \<in> set (order ps)"
    by (rule index_of_stored[OF wf Some])
  then show ?thesis
    using wf Some wf_store_drop[OF wf, of el h] filter_live_wf[of "max_peers ps" es now "ps_ttl ps"]
    by (auto simp: peer_get_def Let_def remove_from_order_def wf_store_def[of ps] intro!: wf_store_set[OF wf])
qed (simp add: peer_get_def)

lemma prune_element_wf:
  assumes wf: "wf_store ps" and "(el, h) \<in> set (order ps)"
  shows "wf_store (prune_element now (el, h) ps)"
proof -
  have "h \<in> set (map_keys (peers ps))" using assms by (force simp: wf_store_def)
  then obtain es where es: "map_get (peers ps) h = Some es" by (metis map_get_None_keys not_Some_eq)
  then have "wf_peers (max_peers ps) es" using wf by (simp add: wf_store_def)
  then show ?thesis
    using wf es wf_store_drop[OF assms] filter_live_wf[of "max_peers ps" es now "ps_ttl ps"]
    by (auto simp: prune_element_def Let_def intro!: wf_store_set[OF wf])
qed

lemma prune_element_order:
  assumes "wf_store ps" and "(el, h) \<in> set (order ps)" and "x \<in> set (order ps)" and "x \<noteq> (el, h)"
  shows "x \<in> set (order (prune_element now (el, h) ps))"
proof -
  have "fst x \<noteq> el"
    using assms unique_element[of "order ps" "fst x" "snd x" el h] by (auto simp: wf_store_def wf_order_def)
  then show ?thesis using assms
    by (auto simp: prune_element_def Let_def remove_element_def split: option.split)
qed

lemma prune_fold_wf:
  assumes "wf_store ps" and "distinct es" and "set es \<subseteq> set (order ps)"
  shows "wf_store (fold (prune_element now) es ps)"
  using assms
proof (induction es arbitrary: ps)
  case (Cons e es)
  obtain el h where e: "e = (el, h)" by force
  have "set es \<subseteq> set (order (prune_element now e ps))"
    using Cons.prems e prune_element_order[of ps el h] by auto
  then show ?case using Cons e prune_element_wf[of ps el h now] by simp
qed simp

lemma prune_expired_wf: "wf_store ps \<Longrightarrow> wf_store (prune_expired now ps)"
  unfolding prune_expired_def
  by (rule prune_fold_wf) (auto simp: wf_store_def wf_order_def distinct_map)

lemma peer_sample_wf: "wf_store ps \<Longrightarrow> wf_store (snd (peer_sample now rnd ps))"
  by (cases "peers ps = []") (auto simp: peer_sample_def Let_def wf_store_def wf_order_def)


datatype store_op = Add instant info_hash ip int | Get instant info_hash | Prune instant | Sample instant "nat \<Rightarrow> nat"

fun store_step :: "store_op \<Rightarrow> peer_store \<Rightarrow> peer_store" where
  "store_step (Add now h a p) ps = peer_add now h a p ps"
| "store_step (Get now h) ps = snd (peer_get now h ps)"
| "store_step (Prune now) ps = prune_expired now ps"
| "store_step (Sample now rnd) ps = snd (peer_sample now rnd ps)"

interpretation store_ops: machine store_step wf_store "\<lambda>a. True"
proof
  fix ps a assume "wf_store ps"
  then show "wf_store (store_step a ps)"
    by (cases a) (simp_all add: peer_add_wf peer_get_wf prune_expired_wf peer_sample_wf)
qed

lemma store_params:
  "max_hashes (store_step a ps) = max_hashes ps \<and> max_peers (store_step a ps) = max_peers ps"
proof -
  have evict: "max_hashes (evict_loop es ps) = max_hashes ps \<and> max_peers (evict_loop es ps) = max_peers ps" for es ps
    by (induction es ps rule: evict_loop.induct) (auto simp: Let_def)
  have elem: "max_hashes (prune_element now e ps) = max_hashes ps \<and> max_peers (prune_element now e ps) = max_peers ps" for now e ps
    by (auto simp: prune_element_def Let_def split: prod.split option.split)
  have prune: "max_hashes (fold (prune_element now) es ps) = max_hashes ps \<and> max_peers (fold (prune_element now) es ps) = max_peers ps" for now es ps
    by (induction es arbitrary: ps) (simp_all add: elem)
  show ?thesis
    by (cases a)
      (auto simp: peer_add_def get_or_prepare_def prepare_new_infohash_def evict_oldest_def evict
        peer_get_def remove_from_order_def prune_expired_def prune peer_sample_def Let_def split: option.split)
qed

text \<open>
  C23. The store never outgrows its bounds: after any sequence of announcements, lookups, cleanup
  ticks and samples it holds at most \<^verbatim>\<open>maxHashes\<close> infohashes (one, when that is zero) with one
  to \<^verbatim>\<open>maxPeersPerHash\<close> different peers each, and the map, the eviction order and its index name
  the same infohashes.
\<close>

theorem store_bounded:
  assumes "0 < mp" and ps_def: "ps = fold store_step ops (new_peer_store mh mp t)"
  shows "length (peers ps) \<le> max 1 mh \<and>
    (\<forall>h es. map_get (peers ps) h = Some es \<longrightarrow> 0 < length es \<and> length es \<le> mp \<and> distinct (map peer_key es)) \<and>
    set (map_keys (peers ps)) = snd ` set (order ps) \<and> length (order ps) = length (peers ps) \<and>
    (\<forall>e h. map_get (order_index ps) h = Some e \<longleftrightarrow> (e, h) \<in> set (order ps))"
proof -
  have "list_all (\<lambda>a. True) ops" by (simp add: list_all_iff)
  then have wf: "wf_store ps" unfolding ps_def by (rule store_ops.run_inv[OF new_peer_store_wf[OF assms(1)]])
  have params: "max_hashes (fold store_step ops ps0) = max_hashes ps0 \<and> max_peers (fold store_step ops ps0) = max_peers ps0" for ps0
    by (induction ops arbitrary: ps0) (simp_all add: store_params)
  have mh: "max_hashes ps = mh" and mp: "max_peers ps = mp"
    using params[of "new_peer_store mh mp t"] by (simp_all add: ps_def new_peer_store_def)
  have "card (set (map snd (order ps))) = length (map snd (order ps))"
    using wf by (intro distinct_card) (simp add: wf_store_def wf_order_def)
  then have "length (order ps) = card (snd ` set (order ps))" by simp
  moreover have "card (set (map_keys (peers ps))) = length (map_keys (peers ps))"
    using wf by (intro distinct_card) (simp add: wf_store_def wf_map_def)
  ultimately have "length (order ps) = length (peers ps)" using wf by (simp add: wf_store_def)
  then show ?thesis using wf mh mp by (simp add: wf_store_def wf_order_def wf_peers_def)
qed

definition sample_ops :: "store_op list" where
  "sample_ops = [Add 1 (replicate 20 1) [10, 0, 0, 1] 6881, Add 2 (replicate 20 2) [10, 0, 0, 2] 6881,
     Add 3 (replicate 20 3) [10, 0, 0, 3] 6881, Get 4 (replicate 20 3)]"

theorem store_bounded_witness:
  "length (peers (fold store_step sample_ops (new_peer_store 2 1 100))) \<le> 2 \<and>
   length (order (fold store_step sample_ops (new_peer_store 2 1 100))) =
     length (peers (fold store_step sample_ops (new_peer_store 2 1 100)))"
  using store_bounded[OF _ refl, of 1 sample_ops 2 100] by simp

subsection \<open>Lookups see the live announcements\<close>

text \<open>
  The abstract store: the announcements of an infohash, and those of them whose age has not reached the lifetime.
  It is stated over the age of an announcement, not with the cutoff the code computes.
\<close>

definition stored_peers :: "peer_store \<Rightarrow> info_hash \<Rightarrow> peer_entry list" where
  "stored_peers ps h = (case map_get (peers ps) h of None \<Rightarrow> [] | Some es \<Rightarrow> es)"

definition live_peers :: "instant \<Rightarrow> peer_store \<Rightarrow> info_hash \<Rightarrow> peer_entry list" where
  "live_peers now ps h = filter (\<lambda>e. now - pe_seen e < ps_ttl ps) (stored_peers ps h)"

lemma filter_live_ages: "filter_live now t es = filter (\<lambda>e. now - pe_seen e < t) es"
  unfolding filter_live_def by (intro filter_cong) auto

lemma live_peers_filter_live:
  "live_peers now ps h = (case map_get (peers ps) h of None \<Rightarrow> [] | Some es \<Rightarrow> filter_live now (ps_ttl ps) es)"
  by (simp add: live_peers_def stored_peers_def filter_live_ages split: option.split)

lemma peer_get_live: "fst (peer_get now h ps) = live_peers now ps h"
  by (simp add: peer_get_def live_peers_filter_live Let_def split: option.split)

lemma filter_live_twice: "now \<le> now' \<Longrightarrow> filter_live now' t (filter_live now t es) = filter_live now' t es"
  by (auto simp: filter_live_def intro!: filter_cong)

lemma filter_live_empty: "now \<le> now' \<Longrightarrow> filter_live now t es = [] \<Longrightarrow> filter_live now' t es = []"
  by (metis filter_live_twice filter_live_def filter.simps(1))

lemma prune_element_live:
  "now \<le> now' \<Longrightarrow> live_peers now' (prune_element now e ps) k = live_peers now' ps k"
  by (cases e)
    (auto simp: prune_element_def live_peers_filter_live Let_def go_map filter_live_twice
      dest: filter_live_empty split: option.split)

lemma prune_fold_live:
  "now \<le> now' \<Longrightarrow> live_peers now' (fold (prune_element now) es ps) k = live_peers now' ps k"
  by (induction es arbitrary: ps) (simp_all add: prune_element_live)

text \<open>
  C33. Expiry is exact and cleanup invisible: a lookup returns, in the order of the store, precisely the stored
  announcements whose age is less than the lifetime (one that is exactly that old is gone), and neither a lookup
  nor a cleanup tick changes what any lookup at that time or later returns.
\<close>

theorem lookup_exact:
  assumes "now \<le> now'"
  shows "fst (peer_get now h ps) = filter (\<lambda>e. now - pe_seen e < ps_ttl ps) (stored_peers ps h) \<and>
    fst (peer_get now' k (snd (peer_get now h ps))) = fst (peer_get now' k ps) \<and>
    fst (peer_get now' k (prune_expired now ps)) = fst (peer_get now' k ps)"
proof -
  have rem: "ps_ttl (remove_from_order h ps1) = ps_ttl ps1 \<and> peers (remove_from_order h ps1) = peers ps1" for ps1
    by (simp add: remove_from_order_def split: option.split)
  have "live_peers now' (snd (peer_get now h ps)) k = live_peers now' ps k"
  proof (cases "map_get (peers ps) h")
    case (Some es)
    then show ?thesis
      using rem filter_live_empty[OF assms, of "ps_ttl ps" es] filter_live_twice[OF assms, of "ps_ttl ps" es]
      by (simp add: peer_get_def live_peers_filter_live Let_def go_map split: option.split)
  qed (simp add: peer_get_def)
  moreover have "live_peers now' (prune_expired now ps) k = live_peers now' ps k"
    using assms by (simp add: prune_expired_def prune_fold_live)
  ultimately show ?thesis by (simp add: peer_get_live, simp add: live_peers_def)
qed

text \<open>An announcement of time 3 with a lifetime of 100 is found at time 102 and not at time 103.\<close>

theorem lookup_exact_witness:
  "map pe_port (fst (peer_get 102 (replicate 20 3) (fold store_step sample_ops (new_peer_store 2 1 100)))) = [6881] \<and>
   fst (peer_get 103 (replicate 20 3) (fold store_step sample_ops (new_peer_store 2 1 100))) = [] \<and>
   fst (peer_get 102 (replicate 20 3) (prune_expired 101 (fold store_step sample_ops (new_peer_store 2 1 100)))) =
     fst (peer_get 102 (replicate 20 3) (fold store_step sample_ops (new_peer_store 2 1 100)))"
proof -
  let ?ps = "fold store_step sample_ops (new_peer_store 2 1 100)" and ?h = "replicate 20 (3 :: byte)"
  have s: "ps_ttl ?ps = 100" "map pe_port (stored_peers ?ps ?h) = [6881]" "map pe_seen (stored_peers ?ps ?h) = [3]"
    by code_simp+
  then obtain e where "stored_peers ?ps ?h = [e]" "pe_port e = 6881" "pe_seen e = 3" by auto
  with s(1) show ?thesis
    using lookup_exact[of 102 102 ?h ?ps] lookup_exact[of 103 103 ?h ?ps] lookup_exact[of 101 102 ?h ?ps ?h] by simp
qed

lemma announce_found_lemma:
  assumes "wf_store ps" and "0 < ps_ttl ps" and "\<not> (\<exists>es. map_get (peers ps) h = Some es \<and>
    (ip_key a, p) \<notin> peer_key ` set es \<and> length es \<ge> max_peers ps)"
  shows "(\<exists>e \<in> set (live_peers now (peer_add now h a p ps) h). peer_key e = (ip_key a, p) \<and> pe_seen e = now) \<and>
    (\<forall>k. k \<noteq> h \<longrightarrow> map_get (peers (peer_add now h a p ps)) k =
      (if map_get (peers ps) h = None \<and> length (peers ps) \<ge> max_hashes ps \<and> order ps \<noteq> [] \<and> k = snd (hd (order ps))
       then None else map_get (peers ps) k))"
proof (cases "map_get (peers ps) h")
  case None
  define ps1 where "ps1 = (if length (peers ps) \<ge> max_hashes ps then evict_oldest ps else ps)"
  have room: "wf_store ps1" using make_room[OF assms(1) None ps1_def] by blast
  have ttl1: "ps_ttl ps1 = ps_ttl ps"
  proof -
    have "ps_ttl (evict_loop es q) = ps_ttl q" for es q
      by (induction es q rule: evict_loop.induct) (auto simp: Let_def)
    then show ?thesis by (simp add: ps1_def evict_oldest_def)
  qed
  have get1: "map_get (peers ps1) k =
      (if length (peers ps) \<ge> max_hashes ps \<and> order ps \<noteq> [] \<and> k = snd (hd (order ps)) then None
       else map_get (peers ps) k)" for k
    using evict_oldest_spec[OF assms(1)] by (cases "order ps") (auto simp: ps1_def go_map evict_oldest_def)
  have add: "peers (peer_add now h a p ps) = map_set h [\<lparr>pe_ip = a, pe_port = p, pe_seen = now\<rparr>] (peers ps1)"
    "ps_ttl (peer_add now h a p ps) = ps_ttl ps"
    using room None ttl1
    by (simp_all add: peer_add_def get_or_prepare_def prepare_new_infohash_def Let_def ps1_def[symmetric] wf_store_def)
  show ?thesis
    using None assms(2) get1 by (simp add: live_peers_filter_live add go_map filter_live_def peer_key_def)
next
  case (Some es)
  show ?thesis
  proof (cases "list_ex (same_peer a p) es")
    case True
    have upd: "\<exists>e \<in> set (update_first (same_peer a p) (\<lambda>e. e\<lparr>pe_seen := now\<rparr>) xs).
        peer_key e = (ip_key a, p) \<and> pe_seen e = now" if "list_ex (same_peer a p) xs" for xs
      using that by (induction xs) (auto simp: same_peer_key peer_key_def)
    obtain e where "e \<in> set (update_first (same_peer a p) (\<lambda>e. e\<lparr>pe_seen := now\<rparr>) es)"
      "peer_key e = (ip_key a, p)" "pe_seen e = now" using upd[OF True] by blast
    then show ?thesis using True Some assms(2)
      by (auto simp: peer_add_def get_or_prepare_def Let_def live_peers_filter_live go_map filter_live_def
          intro!: exI[of _ e])
  next
    case False
    then have "length es < max_peers ps"
      using assms(3) Some by (auto simp: list_ex_iff same_peer_key not_le image_iff)
    then show ?thesis using False Some assms(2)
      by (simp add: peer_add_def get_or_prepare_def Let_def live_peers_filter_live go_map filter_live_def peer_key_def)
  qed
qed

lemma evict_ttl [simp]: "ps_ttl (evict_oldest ps) = ps_ttl ps"
proof -
  have "ps_ttl (evict_loop es q) = ps_ttl q" for es q
    by (induction es q rule: evict_loop.induct) (auto simp: Let_def)
  then show ?thesis by (simp add: evict_oldest_def)
qed

lemma peer_add_ttl [simp]: "ps_ttl (peer_add now h a p ps) = ps_ttl ps"
  by (simp add: peer_add_def get_or_prepare_def prepare_new_infohash_def Let_def split: option.split)

lemma stored_peers_add: "length (stored_peers (peer_add now h a p ps) h) \<le> Suc (length (stored_peers ps h))"
proof (cases "map_get (peers ps) h")
  case None
  have "map_get (peers (evict_loop es q)) h = None" if "map_get (peers q) h = None" for es q
    using that by (induction es q rule: evict_loop.induct) (auto simp: Let_def go_map)
  with None show ?thesis
    by (auto simp: peer_add_def get_or_prepare_def prepare_new_infohash_def evict_oldest_def Let_def stored_peers_def go_map)
next
  case (Some es)
  have "length (update_first P f xs) = length xs" for P f and xs :: "peer_entry list" by (induction xs) auto
  with Some show ?thesis by (auto simp: peer_add_def get_or_prepare_def Let_def stored_peers_def go_map)
qed

text \<open>
  An announcement is found: it is in the infohash's live peers at once, unless the infohash
  already has the maximal number of other peers. Other infohashes keep their peers, except that a
  new infohash in a full store evicts exactly the infohash that came in first.
\<close>

theorem announce_found:
  assumes "wf_store ps" and "0 < ps_ttl ps" and "\<not> (\<exists>es. map_get (peers ps) h = Some es \<and>
    (ip_key a, p) \<notin> peer_key ` set es \<and> length es \<ge> max_peers ps)"
  shows "(\<exists>e \<in> set (live_peers now (peer_add now h a p ps) h). peer_key e = (ip_key a, p) \<and> pe_seen e = now) \<and>
    (\<forall>k. k \<noteq> h \<longrightarrow> map_get (peers (peer_add now h a p ps)) k =
      (if map_get (peers ps) h = None \<and> length (peers ps) \<ge> max_hashes ps \<and> order ps \<noteq> [] \<and> k = snd (hd (order ps))
       then None else map_get (peers ps) k))"
  by (rule announce_found_lemma[OF assms])

theorem announce_found_witness:
  "\<exists>e \<in> set (live_peers 9 (peer_add 9 (replicate 20 5) [10, 0, 0, 1] 6881 (new_peer_store 2 1 100)) (replicate 20 5)).
      peer_key e = (ip_key [10, 0, 0, 1], 6881) \<and> pe_seen e = 9"
  by (rule announce_found[THEN conjunct1]) (simp_all add: new_peer_store_wf, simp_all add: new_peer_store_def)

subsection \<open>What is stored of the peers\<close>

text \<open>A property of addresses and ports that every announcement has holds of all stored peers.\<close>

definition all_peers :: "(ip \<Rightarrow> int \<Rightarrow> bool) \<Rightarrow> peer_store \<Rightarrow> bool" where
  "all_peers P ps \<longleftrightarrow> (\<forall>h es. map_get (peers ps) h = Some es \<longrightarrow> list_all (\<lambda>e. P (pe_ip e) (pe_port e)) es)"

lemma all_peers_set: "all_peers P ps \<Longrightarrow> list_all (\<lambda>e. P (pe_ip e) (pe_port e)) es \<Longrightarrow>
    all_peers P (ps\<lparr>peers := map_set h es (peers ps)\<rparr>)"
  by (simp add: all_peers_def go_map)

lemma all_peers_evict: "all_peers P ps \<Longrightarrow> all_peers P (evict_loop es ps)"
  by (induction es ps rule: evict_loop.induct)
    (auto simp: Let_def all_peers_def go_map split: if_splits)

lemma all_peers_live: "list_all (\<lambda>e. P (pe_ip e) (pe_port e)) es \<Longrightarrow> list_all (\<lambda>e. P (pe_ip e) (pe_port e)) (filter_live now t es)"
  by (simp add: filter_live_def list_all_iff)

lemma all_peers_add:
  assumes "all_peers P ps" and "P a p"
  shows "all_peers P (peer_add now h a p ps)"
proof (cases "map_get (peers ps) h")
  case None
  define ps1 where "ps1 = (if length (peers ps) \<ge> max_hashes ps then evict_oldest ps else ps)"
  have "all_peers P ps1" using assms(1) by (simp add: ps1_def evict_oldest_def all_peers_evict)
  then show ?thesis using None assms(2)
    by (auto simp: peer_add_def get_or_prepare_def prepare_new_infohash_def Let_def ps1_def[symmetric]
        all_peers_def go_map)
next
  case (Some es)
  have es: "list_all (\<lambda>e. P (pe_ip e) (pe_port e)) es" using assms(1) Some by (simp add: all_peers_def)
  have "list_all (\<lambda>e. P (pe_ip e) (pe_port e)) (update_first Q (\<lambda>e. e\<lparr>pe_seen := now\<rparr>) es)" for Q
    using es by (auto simp: list_all_iff dest!: set_update_first)
  then show ?thesis using Some es assms
    by (auto simp: peer_add_def get_or_prepare_def Let_def intro: all_peers_set)
qed

lemma all_peers_get: "all_peers P ps \<Longrightarrow> all_peers P (snd (peer_get now h ps))"
  by (auto simp: peer_get_def Let_def remove_from_order_def all_peers_def go_map all_peers_live
      split: option.split if_splits)

lemma all_peers_found: "all_peers P ps \<Longrightarrow> e \<in> set (fst (peer_get now h ps)) \<Longrightarrow> P (pe_ip e) (pe_port e)"
  by (auto simp: peer_get_def Let_def all_peers_def filter_live_def list_all_iff split: option.splits if_splits)

lemma all_peers_prune_element: "all_peers P ps \<Longrightarrow> all_peers P (prune_element now e ps)"
  by (cases e) (auto simp: prune_element_def Let_def all_peers_def go_map all_peers_live split: option.split if_splits)

lemma all_peers_prune: "all_peers P ps \<Longrightarrow> all_peers P (prune_expired now ps)"
proof -
  have "all_peers P ps \<Longrightarrow> all_peers P (fold (prune_element now) es ps)" for es ps
    by (induction es arbitrary: ps) (auto intro: all_peers_prune_element)
  then show "all_peers P ps \<Longrightarrow> all_peers P (prune_expired now ps)" by (simp add: prune_expired_def)
qed

lemma all_peers_sample: "all_peers P ps \<Longrightarrow> all_peers P (snd (peer_sample now rnd ps))"
  by (simp add: peer_sample_def Let_def all_peers_def)

text \<open>What \<^verbatim>\<open>Sample\<close> returns from an empty cache: stored infohashes, at most 500, without repetition.\<close>

lemma concat_const_length: "(\<And>x. x \<in> set xs \<Longrightarrow> length (f x) = n) \<Longrightarrow> length (concat (map f xs)) = n * length xs"
  by (induction xs) auto

lemma sample_length:
  "length (samples (sample_cache ps)) \<le> 10000 \<Longrightarrow> length (fst (fst (peer_sample now rnd ps))) \<le> 10000 \<and>
     length (samples (sample_cache (snd (peer_sample now rnd ps)))) \<le> 10000"
proof -
  have "length (concat (map (\<lambda>i. go_copy (replicate 20 0) (ks i)) [0..<min 500 n])) \<le> 10000" for ks :: "nat \<Rightarrow> byte list" and n
    by (subst concat_const_length[where n = 20]) auto
  then show "length (samples (sample_cache ps)) \<le> 10000 \<Longrightarrow> length (fst (fst (peer_sample now rnd ps))) \<le> 10000 \<and>
     length (samples (sample_cache (snd (peer_sample now rnd ps)))) \<le> 10000"
    by (simp add: peer_sample_def Let_def)
qed

end
