(* ===== verification/Server.thy ===== *)
theory Server
  imports Table_Invariant Compact Dedup Krpc Limiter Token Transaction Peer_Store
begin

section \<open>The DHT server (\<^verbatim>\<open>dht/server/server.go\<close>)\<close>

text \<open>
  The server owns the routing table, the transactions, the tokens, the peer store, the limiter and
  the channels between its goroutines. A step is one loop body: a datagram read, a query handled, a
  query sent, a message written, a tick. The log and the metrics recorder have no effect on the state and are
  left out, with one exception: \<^verbatim>\<open>processQuery\<close> counts every query under its name, the bytes the sender chose,
  and the metrics library panics on a label value it does not accept (\<open>label_ok\<close>). The libraries are parameters,
  collected in \<open>libs\<close>: the Bloom filter, the rate limiter, bencode and the labels. Pings that \<^verbatim>\<open>insert\<close> starts with \<^verbatim>\<open>go\<close> are queued in \<open>s_spawned\<close>.
\<close>

record ('b, 'l) libs =
  bloom_test :: "'b \<Rightarrow> info_hash \<Rightarrow> bool"
  bloom_add :: "info_hash \<Rightarrow> 'b \<Rightarrow> 'b"
  lim_fresh :: "'l"
  lim_allow :: "instant \<Rightarrow> 'l \<Rightarrow> bool \<times> 'l"
  marshal :: "msg \<Rightarrow> byte list option"
  unmarshal :: "byte list \<Rightarrow> msg option"
  label_ok :: "string \<Rightarrow> bool"

record discovered_peers =
  d_infohash :: info_hash
  d_peers :: "addr list"
  d_seen :: instant

record ('b, 'l) server =
  s_id :: node_id
  s_table :: table
  s_txns :: txn_manager
  s_outbound :: "(addr \<times> msg) chan"
  s_discovered :: "discovered_peers chan"
  s_token :: token_manager
  s_dedup :: "'b bloom_filter option"
  s_store :: peer_store
  s_limiter :: "'l ip_limiter"
  s_handlers :: "(addr \<times> msg) chan"
  s_bucket_size :: nat
  s_max_nodes :: nat
  s_max_peers :: nat
  s_sample_interval :: duration
  s_warm_threshold :: nat
  s_spawned :: "(addr \<times> node_id) list"

text \<open>The fields of \<^verbatim>\<open>config.DHT\<close> that the server reads.\<close>

record dht_config =
  c_node_id :: string
  c_discovery_buffer :: nat
  c_token_rotation :: duration
  c_store_entries :: nat
  c_store_peers :: nat
  c_store_ttl :: duration
  c_limiter_size :: int
  c_timeout :: duration
  c_max_nodes :: nat
  c_max_peers :: nat
  c_bucket_size :: nat
  c_bad_failures :: int
  c_stale :: duration
  c_sample_interval :: duration
  c_warm_threshold :: nat

definition get_server_node_id :: "dht_config \<Rightarrow> ip option \<Rightarrow> byte \<Rightarrow> byte list \<Rightarrow> id_error + node_id" where
  "get_server_node_id cfg external r_buf fresh =
     (case external of
        Some a \<Rightarrow> Inr (derive_node_id_from_ip a r_buf fresh)
      | None \<Rightarrow>
          if c_node_id cfg \<noteq> [] then parse_node_id_hex (c_node_id cfg)
          else Inr fresh)"

definition new_server ::
    "dht_config \<Rightarrow> ip option \<Rightarrow> discovered_peers chan \<Rightarrow> 'b bloom_filter option \<Rightarrow> instant \<Rightarrow>
     byte \<Rightarrow> byte list \<Rightarrow> byte list \<Rightarrow> byte list \<Rightarrow> id_error + ('b, 'l) server" where
  "new_server cfg external disc dedup now r_buf fresh secret1 secret2 =
     (case get_server_node_id cfg external r_buf fresh of
        Inl e \<Rightarrow> Inl e
      | Inr i \<Rightarrow> Inr
         \<lparr>s_id = i,
          s_table = new_routing_table i (c_bucket_size cfg) (c_bad_failures cfg) (c_stale cfg) True now,
          s_txns = new_txn_manager (c_timeout cfg),
          s_outbound = chan_make (c_discovery_buffer cfg),
          s_discovered = disc,
          s_token = new_token_manager (c_token_rotation cfg) secret1 secret2,
          s_dedup = dedup,
          s_store = new_peer_store (c_store_entries cfg) (c_store_peers cfg) (c_store_ttl cfg),
          s_limiter = new_ip_limiter (5 * minute) (c_limiter_size cfg),
          s_handlers = chan_make (c_discovery_buffer cfg),
          s_bucket_size = c_bucket_size cfg, s_max_nodes = c_max_nodes cfg, s_max_peers = c_max_peers cfg,
          s_sample_interval = c_sample_interval cfg, s_warm_threshold = c_warm_threshold cfg,
          s_spawned = []\<rparr>)"


subsection \<open>Responses\<close>

definition respond :: "addr \<Rightarrow> byte list \<Rightarrow> return \<Rightarrow> ('b, 'l) server \<Rightarrow> ('b, 'l) server" where
  "respond a t r s =
     (case chan_try_send (a, empty_msg\<lparr>m_t := t, m_y := ''r'', m_r := Some r\<rparr>) (s_outbound s) of
        Some c \<Rightarrow> s\<lparr>s_outbound := c\<rparr>
      | None \<Rightarrow> s)"

definition respond_error :: "addr \<Rightarrow> byte list \<Rightarrow> int \<Rightarrow> string \<Rightarrow> ('b, 'l) server \<Rightarrow> ('b, 'l) server" where
  "respond_error a t code text s =
     (case chan_try_send (a, empty_msg\<lparr>m_t := t, m_y := ''e'', m_e := [BInt code, BStr text]\<rparr>) (s_outbound s) of
        Some c \<Rightarrow> s\<lparr>s_outbound := c\<rparr>
      | None \<Rightarrow> s)"

definition emit :: "discovered_peers \<Rightarrow> ('b, 'l) server \<Rightarrow> ('b, 'l) server" where
  "emit e s = (case chan_try_send e (s_discovered s) of Some c \<Rightarrow> s\<lparr>s_discovered := c\<rparr> | None \<Rightarrow> s)"


subsection \<open>Query handlers\<close>

definition handle_ping :: "addr \<Rightarrow> msg \<Rightarrow> ('b, 'l) server \<Rightarrow> ('b, 'l) server" where
  "handle_ping a m s = respond a (m_t m) (empty_return\<lparr>ret_id := s_id s\<rparr>) s"

definition truncate_to :: "nat \<Rightarrow> 'a list \<Rightarrow> 'a list" where
  "truncate_to n xs = (if length xs > n then take n xs else xs)"

definition handle_find_node :: "addr \<Rightarrow> msg \<Rightarrow> ('b, 'l) server \<Rightarrow> ('b, 'l) server" where
  "handle_find_node a m s =
     (case m_a m of
        None \<Rightarrow> respond_error a (m_t m) err_protocol ''missing arguments'' s
      | Some args \<Rightarrow>
          (case (case parse_node_id (arg_target args) of
                   Inl e \<Rightarrow> parse_node_id (arg_info_hash args)
                 | Inr target \<Rightarrow> Inr target) of
             Inl e \<Rightarrow> respond_error a (m_t m) err_protocol ''missing target'' s
           | Inr target \<Rightarrow>
               let found = truncate_to (s_max_nodes s) (closest (s_table s) target (s_bucket_size s))
               in respond a (m_t m) (empty_return\<lparr>ret_id := s_id s, ret_nodes := encode_nodes found\<rparr>) s))"

definition handle_get_peers :: "instant \<Rightarrow> addr \<Rightarrow> msg \<Rightarrow> ('b, 'l) server \<Rightarrow> ('b, 'l) server" where
  "handle_get_peers now a m s =
     (case m_a m of
        None \<Rightarrow> respond_error a (m_t m) err_protocol ''missing arguments'' s
      | Some args \<Rightarrow>
          (case parse_node_id (arg_info_hash args) of
             Inl e \<Rightarrow> respond_error a (m_t m) err_protocol ''missing info_hash'' s
           | Inr target \<Rightarrow>
               let token = generate (s_token s) (ip a) in
               case peer_get now target (s_store s) of (found, store) \<Rightarrow>
                 let s1 = s\<lparr>s_store := store\<rparr> in
                 if length found > 0 then
                   let values = map (\<lambda>e. encode_peer (pe_ip e) (pe_port e)) (truncate_to (s_max_peers s) found)
                   in respond a (m_t m) (empty_return\<lparr>ret_id := s_id s, ret_values := values, ret_token := token\<rparr>) s1
                 else
                   let near = truncate_to (s_max_nodes s) (closest (s_table s) target (s_bucket_size s))
                   in respond a (m_t m)
                        (empty_return\<lparr>ret_id := s_id s, ret_nodes := encode_nodes near, ret_token := token\<rparr>) s1))"

definition handle_announce_peer ::
    "('b, 'l) libs \<Rightarrow> instant \<Rightarrow> addr \<Rightarrow> msg \<Rightarrow> ('b, 'l) server \<Rightarrow> ('b, 'l) server" where
  "handle_announce_peer lib now a m s =
     (case m_a m of
        None \<Rightarrow> respond_error a (m_t m) err_protocol ''missing arguments'' s
      | Some args \<Rightarrow>
          if \<not> validate (s_token s) (ip a) (arg_token args) then
            respond_error a (m_t m) err_protocol ''bad token'' s
          else
            let h = go_copy zero_id (arg_info_hash args);
                p = (case arg_implied_port args of
                       None \<Rightarrow> arg_port args
                     | Some implied \<Rightarrow> if implied \<noteq> 0 then port a else arg_port args);
                done_msg = empty_return\<lparr>ret_id := s_id s\<rparr>
            in if p \<le> 0 \<or> p > 65535 then respond a (m_t m) done_msg s
               else
                 let s1 = s\<lparr>s_store := peer_add now h (ip a) p (s_store s)\<rparr>;
                     seen_s2 = (case s_dedup s1 of
                        None \<Rightarrow> (False, s1)
                      | Some d \<Rightarrow>
                          (case seen_or_add (bloom_test lib) (bloom_add lib) h d of
                             (seen, d') \<Rightarrow> (seen, s1\<lparr>s_dedup := Some d'\<rparr>)))
                 in if fst seen_s2 then respond a (m_t m) done_msg (snd seen_s2)
                    else respond a (m_t m) done_msg
                      (emit \<lparr>d_infohash = h, d_peers = [\<lparr>ip = ip a, port = p\<rparr>], d_seen = now\<rparr> (snd seen_s2)))"

text \<open>
  The default of 300 is a \<^verbatim>\<open>time.Duration\<close>, that is 300 nanoseconds; \<^verbatim>\<open>int(interval.Seconds())\<close>
  drops the fraction of a second.
\<close>

definition handle_sample_infohashes ::
    "instant \<Rightarrow> (nat \<Rightarrow> nat) \<Rightarrow> addr \<Rightarrow> msg \<Rightarrow> ('b, 'l) server \<Rightarrow> ('b, 'l) server" where
  "handle_sample_infohashes now rnd a m s =
     (case m_a m of
        None \<Rightarrow> respond_error a (m_t m) err_protocol ''missing arguments'' s
      | Some args \<Rightarrow>
          (case parse_node_id (arg_target args) of
             Inl e \<Rightarrow> respond_error a (m_t m) err_protocol ''missing target'' s
           | Inr target \<Rightarrow>
               let near = closest (s_table s) target (s_bucket_size s) in
               case peer_sample now rnd (s_store s) of ((sampled, num), store) \<Rightarrow>
                 let interval = (if s_sample_interval s \<le> 0 then 300 else s_sample_interval s)
                 in respond a (m_t m)
                      (empty_return\<lparr>ret_id := s_id s, ret_nodes := encode_nodes near, ret_samples := sampled,
                        ret_num := int num, ret_interval := interval div second\<rparr>)
                      (s\<lparr>s_store := store\<rparr>)))"

definition see_node :: "instant \<Rightarrow> node_id \<Rightarrow> addr \<Rightarrow> ('b, 'l) server \<Rightarrow> ('b, 'l) server outcome" where
  "see_node now i a s =
     (case insert_valid_node now \<lparr>nid = i, naddr = a, last_seen = now, failures = 0\<rparr> (s_table s) of
        Inl p \<Rightarrow> Inl p
      | Inr (res, rt, ps) \<Rightarrow> Inr (s\<lparr>s_table := rt, s_spawned := s_spawned s @ ps\<rparr>))"

definition process_node_seen :: "instant \<Rightarrow> addr \<times> msg \<Rightarrow> ('b, 'l) server \<Rightarrow> ('b, 'l) server outcome" where
  "process_node_seen now inm s =
     (case m_a (snd inm) of
        None \<Rightarrow> Inr s
      | Some args \<Rightarrow>
          (case parse_node_id (arg_id args) of
             Inl e \<Rightarrow> Inr s
           | Inr i \<Rightarrow> see_node now i (fst inm) s))"

definition process_query ::
    "('b, 'l) libs \<Rightarrow> instant \<Rightarrow> (nat \<Rightarrow> nat) \<Rightarrow> addr \<times> msg \<Rightarrow> ('b, 'l) server \<Rightarrow> ('b, 'l) server outcome" where
  "process_query lib now rnd inm s =
     (if \<not> label_ok lib (m_q (snd inm)) then Inl LibraryPanic
      else case limiter_allow (lim_fresh lib) (lim_allow lib) now (ip (fst inm)) (s_limiter s) of (ok, lim) \<Rightarrow>
        let s0 = s\<lparr>s_limiter := lim\<rparr> in
        if \<not> ok then Inr s0
        else case process_node_seen now inm s0 of
          Inl p \<Rightarrow> Inl p
        | Inr s1 \<Rightarrow>
            let a = fst inm; m = snd inm in
            if m_q m = ''ping'' then Inr (handle_ping a m s1)
            else if m_q m = ''find_node'' then Inr (handle_find_node a m s1)
            else if m_q m = ''get_peers'' then Inr (handle_get_peers now a m s1)
            else if m_q m = ''announce_peer'' then Inr (handle_announce_peer lib now a m s1)
            else if m_q m = ''sample_infohashes'' then Inr (handle_sample_infohashes now rnd a m s1)
            else Inr s1)"


subsection \<open>Routing of incoming messages\<close>

definition update_table_from_response :: "instant \<Rightarrow> addr \<Rightarrow> return \<Rightarrow> ('b, 'l) server \<Rightarrow> ('b, 'l) server outcome" where
  "update_table_from_response now a r s =
     (case parse_node_id (ret_id r) of
        Inl e \<Rightarrow> Inr s
      | Inr i \<Rightarrow> see_node now i a s)"

definition route_message :: "instant \<Rightarrow> addr \<Rightarrow> msg option \<Rightarrow> ('b, 'l) server \<Rightarrow> ('b, 'l) server outcome" where
  "route_message now a mo s =
     (case mo of
        None \<Rightarrow> Inr s
      | Some m \<Rightarrow>
          if m_y m = ''r'' \<or> m_y m = ''e'' then
            (case txn_complete (m_t m) (Some m) (s_txns s) of
               Inl p \<Rightarrow> Inl p
             | Inr tm \<Rightarrow>
                 let s1 = s\<lparr>s_txns := tm\<rparr> in
                 if m_y m = ''r'' then
                   (case m_r m of None \<Rightarrow> Inr s1 | Some r \<Rightarrow> update_table_from_response now a r s1)
                 else Inr s1)
          else if m_y m = ''q'' then
            (case chan_try_send (a, m) (s_handlers s) of
               Some c \<Rightarrow> Inr (s\<lparr>s_handlers := c\<rparr>)
             | None \<Rightarrow> Inr s)
          else Inr s)"

text \<open>One round of \<^verbatim>\<open>readLoop\<close>: the socket keeps the first 2048 bytes of a datagram.\<close>

definition read_step :: "('b, 'l) libs \<Rightarrow> instant \<Rightarrow> byte list \<Rightarrow> addr \<Rightarrow> ('b, 'l) server \<Rightarrow> ('b, 'l) server outcome" where
  "read_step lib now datagram a s =
     (case unmarshal lib (take 2048 datagram) of
        None \<Rightarrow> Inr s
      | Some m \<Rightarrow> route_message now a (Some m) s)"

text \<open>One round of \<^verbatim>\<open>queryHandlerLoop\<close> and of \<^verbatim>\<open>writeLoop\<close> (which yields the packet it sends).\<close>

definition query_handler_step ::
    "('b, 'l) libs \<Rightarrow> instant \<Rightarrow> (nat \<Rightarrow> nat) \<Rightarrow> ('b, 'l) server \<Rightarrow> ('b, 'l) server outcome" where
  "query_handler_step lib now rnd s =
     (case queued (s_handlers s) of
        [] \<Rightarrow> Inr s
      | inm # rest \<Rightarrow> process_query lib now rnd inm (s\<lparr>s_handlers := (s_handlers s)\<lparr>queued := rest\<rparr>\<rparr>))"

definition write_step :: "('b, 'l) libs \<Rightarrow> ('b, 'l) server \<Rightarrow> (byte list \<times> addr) option \<times> ('b, 'l) server" where
  "write_step lib s =
     (case queued (s_outbound s) of
        [] \<Rightarrow> (None, s)
      | (a, m) # rest \<Rightarrow>
          let s1 = s\<lparr>s_outbound := (s_outbound s)\<lparr>queued := rest\<rparr>\<rparr> in
          (case marshal lib m of None \<Rightarrow> (None, s1) | Some data \<Rightarrow> (Some (data, a), s1)))"


subsection \<open>Outgoing queries\<close>

datatype send_error = Outbound_Full | Txn_Timeout | Ids_Exhausted

text \<open>
  \<^verbatim>\<open>send\<close> up to the wait: the transaction is registered before the message is queued. The wait
  itself reads the transaction's channel, \<open>await\<close>; \<open>Ids_Exhausted\<close> stands for the loop of \<^verbatim>\<open>New\<close>
  not ending.
\<close>

definition send :: "instant \<Rightarrow> addr \<Rightarrow> node_id \<Rightarrow> msg \<Rightarrow> ('b, 'l) server \<Rightarrow> (send_error + txn) \<times> ('b, 'l) server" where
  "send now a i m s =
     (case txn_new now i a (s_txns s) of
        None \<Rightarrow> (Inl Ids_Exhausted, s)
      | Some (t, tm) \<Rightarrow>
          let s1 = s\<lparr>s_txns := tm\<rparr> in
          (case chan_try_send (a, m\<lparr>m_t := t_id t\<rparr>) (s_outbound s1) of
             Some c \<Rightarrow> (Inr t, s1\<lparr>s_outbound := c\<rparr>)
           | None \<Rightarrow> (Inl Outbound_Full, s1)))"

definition await :: "txn \<Rightarrow> (send_error + msg) option" where
  "await t =
     (case t_resp t of
        m # ms \<Rightarrow> Some (Inr m)
      | [] \<Rightarrow> if t_closed t then Some (Inl Txn_Timeout) else None)"

definition ping_msg :: "('b, 'l) server \<Rightarrow> msg" where
  "ping_msg s = empty_msg\<lparr>m_y := ''q'', m_q := ''ping'', m_a := Some (empty_args\<lparr>arg_id := s_id s\<rparr>)\<rparr>"

definition find_node_msg :: "node_id \<Rightarrow> ('b, 'l) server \<Rightarrow> msg" where
  "find_node_msg target s =
     empty_msg\<lparr>m_y := ''q'', m_q := ''find_node'', m_a := Some (empty_args\<lparr>arg_id := s_id s, arg_target := target\<rparr>)\<rparr>"

definition get_peers_msg :: "node_id \<Rightarrow> ('b, 'l) server \<Rightarrow> msg" where
  "get_peers_msg ih s =
     empty_msg\<lparr>m_y := ''q'', m_q := ''get_peers'', m_a := Some (empty_args\<lparr>arg_id := s_id s, arg_info_hash := ih\<rparr>)\<rparr>"

definition sample_infohashes_msg :: "node_id \<Rightarrow> ('b, 'l) server \<Rightarrow> msg" where
  "sample_infohashes_msg target s =
     empty_msg\<lparr>m_y := ''q'', m_q := ''sample_infohashes'',
       m_a := Some (empty_args\<lparr>arg_id := s_id s, arg_target := target\<rparr>)\<rparr>"

definition ping_node :: "instant \<Rightarrow> addr \<Rightarrow> node_id \<Rightarrow> ('b, 'l) server \<Rightarrow> (send_error + txn) \<times> ('b, 'l) server" where
  "ping_node now a i s = send now a i (ping_msg s) s"

definition find_node :: "instant \<Rightarrow> addr \<Rightarrow> node_id \<Rightarrow> node_id \<Rightarrow> ('b, 'l) server \<Rightarrow> (send_error + txn) \<times> ('b, 'l) server" where
  "find_node now a i target s = send now a i (find_node_msg target s) s"

definition get_peers :: "instant \<Rightarrow> addr \<Rightarrow> node_id \<Rightarrow> node_id \<Rightarrow> ('b, 'l) server \<Rightarrow> (send_error + txn) \<times> ('b, 'l) server" where
  "get_peers now a i ih s = send now a i (get_peers_msg ih s) s"

definition sample_infohashes :: "instant \<Rightarrow> addr \<Rightarrow> node_id \<Rightarrow> node_id \<Rightarrow> ('b, 'l) server \<Rightarrow> (send_error + txn) \<times> ('b, 'l) server" where
  "sample_infohashes now a i target s = send now a i (sample_infohashes_msg target s) s"

text \<open>A ping that \<^verbatim>\<open>insert\<close> started runs.\<close>

definition spawned_step :: "instant \<Rightarrow> ('b, 'l) server \<Rightarrow> ('b, 'l) server" where
  "spawned_step now s =
     (case s_spawned s of
        [] \<Rightarrow> s
      | (a, i) # rest \<Rightarrow> snd (ping_node now a i (s\<lparr>s_spawned := rest\<rparr>)))"

text \<open>The tick of the transaction sweeper, with the failures it marks in the table.\<close>

definition sweep_step :: "instant \<Rightarrow> ('b, 'l) server \<Rightarrow> ('b, 'l) server outcome" where
  "sweep_step now s =
     (case txn_sweep now (s_txns s) of
        Inl p \<Rightarrow> Inl p
      | Inr (tm, failed, released) \<Rightarrow>
          Inr (s\<lparr>s_txns := tm, s_table := fold (mark_failure now) (rev failed) (s_table s)\<rparr>))"


subsection \<open>Learning nodes, and refreshing buckets\<close>

fun insert_valid_nodes :: "instant \<Rightarrow> node list \<Rightarrow> ('b, 'l) server \<Rightarrow> ('b, 'l) server outcome" where
  "insert_valid_nodes now [] s = Inr s"
| "insert_valid_nodes now (n # ns) s =
     (case insert_valid_node now n (s_table s) of
        Inl p \<Rightarrow> Inl p
      | Inr (res, rt, ps) \<Rightarrow> insert_valid_nodes now ns (s\<lparr>s_table := rt, s_spawned := s_spawned s @ ps\<rparr>))"

definition insert_nodes_from_find_node :: "instant \<Rightarrow> return \<Rightarrow> ('b, 'l) server \<Rightarrow> ('b, 'l) server outcome" where
  "insert_nodes_from_find_node now r s =
     (case decode_nodes (ret_nodes r) of
        Inl e \<Rightarrow> Inr s
      | Inr ns \<Rightarrow> insert_valid_nodes now ns s)"

text \<open>
  The queries of one tick of \<^verbatim>\<open>bucketRefreshLoop\<close>, as (node, target) pairs; \<open>draw\<close> gives the random
  bytes for each stale bucket. A node is queried once per tick.
\<close>

fun refresh_nodes :: "node_id \<Rightarrow> node list \<Rightarrow> node_id list \<Rightarrow> (node \<times> node_id) list \<times> node_id list" where
  "refresh_nodes target [] queried = ([], queried)"
| "refresh_nodes target (n # ns) queried =
     (if nid n \<in> set queried then refresh_nodes target ns queried
      else case refresh_nodes target ns (queried @ [nid n]) of (qs, queried') \<Rightarrow> ((n, target) # qs, queried'))"

fun bucket_refresh_loop ::
    "table \<Rightarrow> nat \<Rightarrow> (nat \<Rightarrow> byte list) \<Rightarrow> nat \<Rightarrow> bucket list \<Rightarrow> node_id list \<Rightarrow> (node \<times> node_id) list outcome" where
  "bucket_refresh_loop rt k draw i [] queried = Inr []"
| "bucket_refresh_loop rt k draw i (b # bs) queried =
     (case get_random_node_id b (draw i) of
        Inl p \<Rightarrow> Inl p
      | Inr target \<Rightarrow>
          (case refresh_nodes target (closest rt target k) queried of (qs, queried') \<Rightarrow>
             (case bucket_refresh_loop rt k draw (i + 1) bs queried' of
                Inl p \<Rightarrow> Inl p
              | Inr qs' \<Rightarrow> Inr (qs @ qs'))))"

definition bucket_refresh_tick :: "instant \<Rightarrow> (nat \<Rightarrow> byte list) \<Rightarrow> ('b, 'l) server \<Rightarrow> (node \<times> node_id) list outcome" where
  "bucket_refresh_tick now draw s =
     bucket_refresh_loop (s_table s) (s_bucket_size s) draw 0 (stale_buckets now (s_table s)) []"

text \<open>\<^verbatim>\<open>warmRestart\<close>: the nodes it pings, and its verdict on the number that answered.\<close>

definition warm_restart_nodes :: "('b, 'l) server \<Rightarrow> node list" where
  "warm_restart_nodes s =
     (if node_count (s_table s) = 0 then []
      else closest (s_table s) (s_id s) (min (node_count (s_table s)) 200))"

definition warm_restart :: "nat \<Rightarrow> ('b, 'l) server \<Rightarrow> bool" where
  "warm_restart live s \<longleftrightarrow> node_count (s_table s) \<noteq> 0 \<and> \<not> live < s_warm_threshold s"

end
