(* ===== verification/Server_Safety.thy ===== *)
theory Server_Safety
  imports Server
begin

section \<open>Safety of the server\<close>

text \<open>
  The invariant of the server is that of its parts; every step keeps it. Nothing panics but the metrics
  library, on the name of a query. Announcements are stored only with a valid token and port.
\<close>

definition port_ok :: "ip \<Rightarrow> int \<Rightarrow> bool" where
  "port_ok a p \<longleftrightarrow> 0 < p \<and> p \<le> 65535"

definition wf_server :: "('b, 'l) server \<Rightarrow> bool" where
  "wf_server s \<longleftrightarrow> wf_id (s_id s) \<and> wf_table (s_table s) \<and> wf_txns (s_txns s) \<and> wf_store (s_store s) \<and>
     wf_limiter (s_limiter s) \<and> wf_chan (s_outbound s) \<and> wf_chan (s_discovered s) \<and> wf_chan (s_handlers s) \<and>
     all_peers port_ok (s_store s) \<and> length (samples (sample_cache (s_store s))) \<le> 10000 \<and>
     list_all (\<lambda>(a, i). wf_id i) (s_spawned s)"

lemmas chan_defs = chan_try_send_def wf_chan_def

lemma respond_wf: "wf_server s \<Longrightarrow> wf_server (respond a t r s)"
  by (auto simp: respond_def wf_server_def split: option.split intro: wf_chan_try_send)

lemma respond_error_wf: "wf_server s \<Longrightarrow> wf_server (respond_error a t c x s)"
  by (auto simp: respond_error_def wf_server_def split: option.split intro: wf_chan_try_send)

lemma emit_wf: "wf_server s \<Longrightarrow> wf_server (emit e s)"
  by (auto simp: emit_def wf_server_def split: option.split intro: wf_chan_try_send)

lemma peer_add_sample [simp]: "sample_cache (peer_add now h a p ps) = sample_cache ps"
proof -
  have "sample_cache (evict_loop es q) = sample_cache q" for es q
    by (induction es q rule: evict_loop.induct) (auto simp: Let_def)
  then show ?thesis
    by (auto simp: peer_add_def get_or_prepare_def prepare_new_infohash_def evict_oldest_def Let_def split: option.split)
qed

lemma peer_get_sample [simp]: "sample_cache (snd (peer_get now h ps)) = sample_cache ps"
  by (simp add: peer_get_def remove_from_order_def Let_def split: option.split)

lemma prune_sample [simp]: "sample_cache (prune_expired now ps) = sample_cache ps"
proof -
  have "sample_cache (prune_element now e q) = sample_cache q" for e q
    by (simp add: prune_element_def Let_def split: prod.split option.split)
  then have "sample_cache (fold (prune_element now) es q) = sample_cache q" for es q
    by (induction es arbitrary: q) simp_all
  then show ?thesis by (simp add: prune_expired_def)
qed

lemma handle_ping_wf: "wf_server s \<Longrightarrow> wf_server (handle_ping a m s)"
  by (simp add: handle_ping_def respond_wf)

lemma handle_find_node_wf: "wf_server s \<Longrightarrow> wf_server (handle_find_node a m s)"
  by (auto simp: handle_find_node_def Let_def respond_wf respond_error_wf split: option.split sum.split)

lemma wf_server_store_get: "wf_server s \<Longrightarrow> peer_get now h (s_store s) = (es, ps) \<Longrightarrow> wf_server (s\<lparr>s_store := ps\<rparr>)"
  using peer_get_wf[of "s_store s" now h] all_peers_get[of port_ok "s_store s" now h] peer_get_sample[of now h "s_store s"]
  by (simp add: wf_server_def)

lemma handle_get_peers_wf: "wf_server s \<Longrightarrow> wf_server (handle_get_peers now a m s)"
  by (auto simp: handle_get_peers_def Let_def respond_error_wf
      intro!: respond_wf dest: wf_server_store_get split: option.split sum.split prod.split)

lemma handle_sample_infohashes_wf: "wf_server s \<Longrightarrow> wf_server (handle_sample_infohashes now rnd a m s)"
proof -
  assume wf: "wf_server s"
  have "wf_server (s\<lparr>s_store := snd (peer_sample now rnd (s_store s))\<rparr>)"
    using wf peer_sample_wf all_peers_sample sample_length[of "s_store s" now rnd]
    by (simp add: wf_server_def)
  then show ?thesis
    using wf by (auto simp: handle_sample_infohashes_def Let_def respond_error_wf
        intro!: respond_wf split: option.split sum.split prod.split)
qed

lemma handle_announce_peer_wf: "wf_server s \<Longrightarrow> wf_server (handle_announce_peer lib now a m s)"
proof -
  assume wf: "wf_server s"
  have add: "wf_server (s\<lparr>s_store := peer_add now h (ip a) p (s_store s)\<rparr>)" if "0 < p" "p \<le> 65535" for h p
    using wf that peer_add_wf[of "s_store s" now h "ip a" p] all_peers_add[of port_ok "s_store s" "ip a" p now h]
    by (simp add: wf_server_def port_ok_def)
  have dedup: "wf_server (t\<lparr>s_dedup := d\<rparr>)" if "wf_server t" for t :: "('a, 'b) server" and d
    using that by (simp add: wf_server_def)
  show ?thesis
    using wf add
    by (auto simp: handle_announce_peer_def Let_def respond_error_wf not_le
        intro!: respond_wf emit_wf dedup split: option.split prod.split)
qed

lemma all_nodes_wf_id: "wf_table rt \<Longrightarrow> x \<in> set (all_nodes rt) \<Longrightarrow> wf_id (nid x)"
  by (auto simp: all_nodes_def wf_table_def list_all_iff wf_content_def members_def)

lemma insert_valid_node_wf:
  assumes "wf_table rt" and "wf_id (nid n)"
  shows "\<exists>res rt' ps. insert_valid_node now n rt = Inr (res, rt', ps) \<and> wf_table rt' \<and> list_all (\<lambda>(a, i). wf_id i) ps"
proof -
  obtain res rt' ps where "insert_node now n rt = Inr (res, rt', ps)" "wf_table rt'"
    "\<forall>p \<in> set ps. \<exists>x \<in> set (all_nodes rt). p = (naddr x, nid x)"
    using insert_node_correct[OF assms, of now] by blast
  then show ?thesis
    using assms(1) all_nodes_wf_id[OF assms(1)]
    by (auto simp: insert_valid_node_def list_all_iff split: sum.split)
qed

lemma see_node_wf:
  assumes "wf_server s" and "wf_id i"
  shows "\<exists>s'. see_node now i a s = Inr s' \<and> wf_server s'"
  using assms insert_valid_node_wf[of "s_table s" "\<lparr>nid = i, naddr = a, last_seen = now, failures = 0\<rparr>" now]
  by (auto simp: see_node_def wf_server_def)

lemma process_node_seen_wf:
  assumes "wf_server s"
  shows "\<exists>s'. process_node_seen now inm s = Inr s' \<and> wf_server s'"
  using assms see_node_wf[of s _ now "fst inm"]
  by (auto simp: process_node_seen_def wf_id_def split: option.split sum.split)

definition labels_ok :: "('b, 'l) libs \<Rightarrow> ('b, 'l) server \<Rightarrow> bool" where
  "labels_ok lib s \<longleftrightarrow> (\<forall>(a, m) \<in> set (queued (s_handlers s)). label_ok lib (m_q m))"

lemma process_query_refused:
  "\<not> label_ok lib (m_q (snd inm)) \<Longrightarrow> process_query lib now rnd inm s = Inl LibraryPanic"
  by (simp add: process_query_def)

lemma process_query_wf:
  assumes "wf_server s" and "label_ok lib (m_q (snd inm))"
  shows "\<exists>s'. process_query lib now rnd inm s = Inr s' \<and> wf_server s'"
proof -
  obtain ok lim where l: "limiter_allow (lim_fresh lib) (lim_allow lib) now (ip (fst inm)) (s_limiter s) = (ok, lim)"
    by force
  have "wf_limiter (s_limiter s)" using assms(1) by (simp add: wf_server_def)
  then have "wf_limiter lim"
    using limiter_step_wf[of "s_limiter s" "lim_fresh lib" "lim_allow lib" "Allow now (ip (fst inm))"] l by simp
  then have wf0: "wf_server (s\<lparr>s_limiter := lim\<rparr>)" using assms(1) by (simp add: wf_server_def)
  then obtain s1 where "process_node_seen now inm (s\<lparr>s_limiter := lim\<rparr>) = Inr s1" "wf_server s1"
    using process_node_seen_wf by blast
  then show ?thesis using wf0 assms(2)
    by (auto simp: process_query_def l Let_def handle_ping_wf handle_find_node_wf handle_get_peers_wf
        handle_announce_peer_wf handle_sample_infohashes_wf)
qed

lemma route_message_wf:
  assumes "wf_server s"
  shows "\<exists>s'. route_message now a mo s = Inr s' \<and> wf_server s'"
proof (cases mo)
  case (Some m)
  obtain tm where tm: "txn_complete (m_t m) (Some m) (s_txns s) = Inr tm" "wf_txns tm"
    using txn_complete_wf[of "s_txns s" "m_t m" "Some m"] assms by (auto simp: wf_server_def)
  then have wf1: "wf_server (s\<lparr>s_txns := tm\<rparr>)" using assms by (simp add: wf_server_def)
  have "\<exists>s'. update_table_from_response now a r (s\<lparr>s_txns := tm\<rparr>) = Inr s' \<and> wf_server s'" for r
    using wf1 see_node_wf[OF wf1, of _ now a]
    by (auto simp: update_table_from_response_def wf_id_def split: sum.split)
  moreover have "\<exists>s'. (case chan_try_send (a, m) (s_handlers s) of Some c \<Rightarrow> Inr (s\<lparr>s_handlers := c\<rparr>) | None \<Rightarrow> Inr s)
      = (Inr s' :: ('a, 'b) server outcome) \<and> wf_server s'"
    using assms by (auto simp: wf_server_def split: option.split intro: wf_chan_try_send)
  ultimately show ?thesis using tm wf1 assms
    by (auto simp: Some route_message_def Let_def split: option.split)
qed (use assms in \<open>simp add: route_message_def\<close>)

lemma read_step_wf: "wf_server s \<Longrightarrow> \<exists>s'. read_step lib now d a s = Inr s' \<and> wf_server s'"
  by (auto simp: read_step_def route_message_wf split: option.split)

lemma query_handler_step_wf:
  assumes "wf_server s" and "labels_ok lib s"
  shows "\<exists>s'. query_handler_step lib now rnd s = Inr s' \<and> wf_server s'"
proof (cases "queued (s_handlers s)")
  case (Cons inm rest)
  let ?s = "s\<lparr>s_handlers := (s_handlers s)\<lparr>queued := rest\<rparr>\<rparr>"
  have "wf_server ?s" using assms(1) Cons by (simp add: wf_server_def wf_chan_def)
  moreover have "label_ok lib (m_q (snd inm))" using assms(2) Cons by (auto simp: labels_ok_def)
  ultimately show ?thesis using process_query_wf[of ?s lib inm now rnd] by (simp add: query_handler_step_def Cons)
qed (use assms in \<open>simp add: query_handler_step_def\<close>)

lemma write_step_wf: "wf_server s \<Longrightarrow> wf_server (snd (write_step lib s))"
  by (cases "queued (s_outbound s)") (auto simp: write_step_def wf_server_def wf_chan_def Let_def split: prod.split option.split)

lemma send_wf: "wf_server s \<Longrightarrow> wf_id i \<Longrightarrow> wf_server (snd (send now a i m s))"
  using txn_new_wf(1)[of "s_txns s" now i a]
  by (auto simp: send_def Let_def wf_server_def split: option.split prod.split intro: wf_chan_try_send)

lemma spawned_step_wf: "wf_server s \<Longrightarrow> wf_server (spawned_step now s)"
proof (cases "s_spawned s")
  case (Cons p ps)
  assume "wf_server s"
  then have "wf_server (s\<lparr>s_spawned := ps\<rparr>)" "wf_id (snd p)" using Cons by (auto simp: wf_server_def)
  then show ?thesis using Cons by (cases p) (simp add: spawned_step_def ping_node_def send_wf)
qed (simp add: spawned_step_def)

lemma mark_failures_wf: "wf_table rt \<Longrightarrow> list_all wf_id is \<Longrightarrow> wf_table (fold (mark_failure now) is rt)"
  by (induction "is" arbitrary: rt) (simp_all add: mark_failure_correct)

lemma sweep_step_wf:
  assumes "wf_server s"
  shows "\<exists>s'. sweep_step now s = Inr s' \<and> wf_server s'"
proof -
  have wf: "wf_txns (s_txns s)" using assms by (simp add: wf_server_def)
  obtain tm failed released where sw: "txn_sweep now (s_txns s) = Inr (tm, failed, released)" "wf_txns tm"
    and f: "mset failed = image_mset (\<lambda>(k, t). t_node t)
      {#(k, t) \<in># mset (entries (txns (s_txns s))). expired now (timeout (s_txns s)) t#}"
    using sweep_correct_lemma[OF wf, of now] by blast
  have "list_all wf_id failed"
    using arg_cong[OF f, of set_mset] wf by (auto simp: wf_txns_def wf_txn_def list_all_iff)
  then have "wf_table (fold (mark_failure now) (rev failed) (s_table s))"
    using assms by (intro mark_failures_wf) (auto simp: wf_server_def list_all_iff)
  then show ?thesis using sw assms by (simp add: sweep_step_def wf_server_def)
qed

lemma insert_valid_nodes_wf:
  "wf_server s \<Longrightarrow> list_all (\<lambda>n. wf_id (nid n)) ns \<Longrightarrow>
     \<exists>s'. insert_valid_nodes now ns s = Inr s' \<and> wf_server s'"
proof (induction now ns s rule: insert_valid_nodes.induct)
  case (2 now n ns s)
  obtain res rt ps where ins: "insert_valid_node now n (s_table s) = Inr (res, rt, ps)"
    and rt: "wf_table rt" "list_all (\<lambda>(a, i). wf_id i) ps"
    using insert_valid_node_wf[of "s_table s" n now] 2 by (auto simp: wf_server_def)
  have "wf_server (s\<lparr>s_table := rt, s_spawned := s_spawned s @ ps\<rparr>)"
    using "2.prems"(1) rt by (simp add: wf_server_def)
  then show ?case using "2.IH"[OF ins refl refl] "2.prems"(2) ins by simp
qed simp

lemma insert_nodes_from_find_node_wf:
  "wf_server s \<Longrightarrow> \<exists>s'. insert_nodes_from_find_node now r s = Inr s' \<and> wf_server s'"
  by (auto simp: insert_nodes_from_find_node_def intro!: insert_valid_nodes_wf dest: decode_nodes_wf split: sum.split)


subsection \<open>All steps\<close>

datatype event =
  Read instant "byte list" addr
| Handle instant "nat \<Rightarrow> nat"
| Write
| Query instant addr node_id msg
| Run_Spawned instant
| Sweep instant
| Learn instant return
| Alive instant node_id
| Dead instant node_id
| Prune_Peers instant
| Limiter_Tick instant
| Rotate_Secret "byte list"
| Found discovered_peers

fun server_step :: "('b, 'l) libs \<Rightarrow> event \<Rightarrow> ('b, 'l) server \<Rightarrow> ('b, 'l) server outcome" where
  "server_step lib (Read now d a) s = read_step lib now d a s"
| "server_step lib (Handle now rnd) s = query_handler_step lib now rnd s"
| "server_step lib Write s = Inr (snd (write_step lib s))"
| "server_step lib (Query now a i m) s = Inr (snd (send now a i m s))"
| "server_step lib (Run_Spawned now) s = Inr (spawned_step now s)"
| "server_step lib (Sweep now) s = sweep_step now s"
| "server_step lib (Learn now r) s = insert_nodes_from_find_node now r s"
| "server_step lib (Alive now i) s = Inr (s\<lparr>s_table := mark_success now i (s_table s)\<rparr>)"
| "server_step lib (Dead now i) s = Inr (s\<lparr>s_table := mark_failure now i (s_table s)\<rparr>)"
| "server_step lib (Prune_Peers now) s = Inr (s\<lparr>s_store := prune_expired now (s_store s)\<rparr>)"
| "server_step lib (Limiter_Tick now) s = Inr (s\<lparr>s_limiter := limiter_tick now (s_limiter s)\<rparr>)"
| "server_step lib (Rotate_Secret x) s = Inr (s\<lparr>s_token := rotate_token x (s_token s)\<rparr>)"
| "server_step lib (Found e) s = Inr (emit e s)"

text \<open>The identifiers that the callers inside the program pass are well formed (a Go \<^verbatim>\<open>[20]byte\<close>).\<close>

fun event_ok :: "event \<Rightarrow> bool" where
  "event_ok (Query now a i m) \<longleftrightarrow> wf_id i"
| "event_ok (Alive now i) \<longleftrightarrow> wf_id i"
| "event_ok (Dead now i) \<longleftrightarrow> wf_id i"
| "event_ok _ \<longleftrightarrow> True"

lemma server_step_wf:
  "wf_server s \<Longrightarrow> labels_ok lib s \<Longrightarrow> event_ok e \<Longrightarrow> \<exists>s'. server_step lib e s = Inr s' \<and> wf_server s'"
proof (cases e)
  case (Prune_Peers now)
  assume "wf_server s"
  then show ?thesis
    by (simp add: Prune_Peers wf_server_def prune_expired_wf all_peers_prune)
next
  case (Limiter_Tick now)
  assume "wf_server s"
  then show ?thesis using limiter_step_wf[of "s_limiter s" undefined undefined "Tick now"]
    by (simp add: Limiter_Tick wf_server_def)
qed (simp_all add: read_step_wf query_handler_step_wf write_step_wf send_wf spawned_step_wf sweep_step_wf
  insert_nodes_from_find_node_wf emit_wf, simp_all add: wf_server_def mark_success_wf mark_failure_correct)

text \<open>Without a promise on the names of the queries, the metrics library may panic.\<close>

definition label_panic :: "('b, 'l) libs \<Rightarrow> panic \<Rightarrow> bool" where
  "label_panic lib p \<longleftrightarrow> p = LibraryPanic \<and> (\<exists>q. \<not> label_ok lib q)"

lemma server_step_outcome:
  assumes "wf_server s" and "event_ok e" and "server_step lib e s = out"
  shows "(\<exists>s'. out = Inr s' \<and> wf_server s') \<or> (\<exists>p. out = Inl p \<and> label_panic lib p)"
proof (cases "labels_ok lib s")
  case False
  then have bad: "\<exists>q. \<not> label_ok lib q" by (auto simp: labels_ok_def)
  show ?thesis
  proof (cases "\<exists>now rnd. e = Handle now rnd")
    case True
    then obtain now rnd where e: "e = Handle now rnd" by blast
    show ?thesis
    proof (cases "queued (s_handlers s)")
      case (Cons inm rest)
      let ?s = "s\<lparr>s_handlers := (s_handlers s)\<lparr>queued := rest\<rparr>\<rparr>"
      have "wf_server ?s" using assms(1) Cons by (simp add: wf_server_def wf_chan_def)
      then show ?thesis
        using assms(3) bad process_query_wf[of ?s lib inm now rnd] process_query_refused[of lib inm now rnd ?s]
        by (cases "label_ok lib (m_q (snd inm))") (auto simp: e query_handler_step_def Cons label_panic_def)
    qed (use assms in \<open>auto simp: e query_handler_step_def\<close>)
  next
    case False
    have "\<exists>s'. server_step (lib\<lparr>label_ok := \<lambda>q. True\<rparr>) e s = Inr s' \<and> wf_server s'"
      by (rule server_step_wf[OF assms(1) _ assms(2)]) (simp add: labels_ok_def)
    moreover have "server_step (lib\<lparr>label_ok := \<lambda>q. True\<rparr>) e s = server_step lib e s"
      using False by (cases e) (auto simp: read_step_def write_step_def Let_def split: list.split option.split)
    ultimately show ?thesis using assms(3) by auto
  qed
qed (use server_step_wf[OF assms(1) _ assms(2)] assms(3) in auto)

subsection \<open>Names of queries\<close>

text \<open>Only the read loop fills the channel of the handlers.\<close>

lemma handlers_frame [simp]:
  "s_handlers (respond a t r s) = s_handlers s" "s_handlers (respond_error a t c x s) = s_handlers s"
  "s_handlers (emit ev s) = s_handlers s"
  by (simp_all add: respond_def respond_error_def emit_def split: option.split)

lemma handle_frame [simp]:
  "s_handlers (handle_ping a m s) = s_handlers s" "s_handlers (handle_find_node a m s) = s_handlers s"
  "s_handlers (handle_get_peers now a m s) = s_handlers s" "s_handlers (handle_announce_peer lib now a m s) = s_handlers s"
  "s_handlers (handle_sample_infohashes now rnd a m s) = s_handlers s"
  by (auto simp: handle_ping_def handle_find_node_def handle_get_peers_def handle_announce_peer_def handle_sample_infohashes_def
      Let_def split: option.split sum.split prod.split)

lemma see_node_handlers: "see_node now i a s = Inr s' \<Longrightarrow> s_handlers s' = s_handlers s"
  by (auto simp: see_node_def split: sum.splits prod.splits)

lemma process_query_handlers: "process_query lib now rnd inm s = Inr s' \<Longrightarrow> s_handlers s' = s_handlers s"
  by (auto simp: process_query_def process_node_seen_def Let_def dest: see_node_handlers
      split: prod.splits if_splits sum.splits option.splits)

lemma insert_valid_nodes_handlers: "insert_valid_nodes now ns s = Inr s' \<Longrightarrow> s_handlers s' = s_handlers s"
  by (induction now ns s rule: insert_valid_nodes.induct) (auto split: sum.splits prod.splits)

lemma route_message_handlers:
  "route_message now a (Some m) s = Inr s' \<Longrightarrow>
     set (queued (s_handlers s')) \<subseteq> (if m_y m = ''q'' then {(a, m)} else {}) \<union> set (queued (s_handlers s))"
  by (auto simp: route_message_def update_table_from_response_def Let_def chan_try_send_def dest: see_node_handlers
      split: if_splits sum.splits option.splits)

text \<open>The name of the query a datagram carries, if it carries one, is accepted.\<close>

fun datagram_ok :: "('b, 'l) libs \<Rightarrow> event \<Rightarrow> bool" where
  "datagram_ok lib (Read now d a) \<longleftrightarrow> (case unmarshal lib (take 2048 d) of None \<Rightarrow> True | Some m \<Rightarrow> m_y m = ''q'' \<longrightarrow> label_ok lib (m_q m))"
| "datagram_ok lib _ \<longleftrightarrow> True"

lemma server_step_labels:
  assumes "labels_ok lib s" and "datagram_ok lib e" and "server_step lib e s = Inr s'"
  shows "labels_ok lib s'"
proof (cases e)
  case (Read now d a)
  show ?thesis
  proof (cases "unmarshal lib (take 2048 d)")
    case (Some m)
    with assms Read have "route_message now a (Some m) s = Inr s'" "m_y m = ''q'' \<longrightarrow> label_ok lib (m_q m)"
      by (simp_all add: read_step_def)
    from route_message_handlers[OF this(1)] this(2) assms(1) show ?thesis by (fastforce simp: labels_ok_def split: if_splits)
  qed (use assms Read in \<open>simp add: read_step_def\<close>)
next
  case (Handle now rnd)
  with assms(3) have "set (queued (s_handlers s')) \<subseteq> set (queued (s_handlers s))"
    by (auto simp: query_handler_step_def dest!: process_query_handlers split: list.splits)
  with assms(1) show ?thesis by (auto simp: labels_ok_def)
next
  case (Learn now r)
  with assms(1,3) show ?thesis
    by (auto simp: labels_ok_def insert_nodes_from_find_node_def dest!: insert_valid_nodes_handlers split: sum.splits)
qed (use assms in \<open>auto simp: labels_ok_def write_step_def send_def spawned_step_def ping_node_def sweep_step_def Let_def
  split: list.splits option.splits prod.splits sum.splits\<close>)

definition bind_step :: "('b, 'l) libs \<Rightarrow> event \<Rightarrow> ('b, 'l) server outcome \<Rightarrow> ('b, 'l) server outcome" where
  "bind_step lib e so = (case so of Inl p \<Rightarrow> Inl p | Inr s \<Rightarrow> server_step lib e s)"

definition run_server :: "('b, 'l) libs \<Rightarrow> event list \<Rightarrow> ('b, 'l) server \<Rightarrow> ('b, 'l) server outcome" where
  "run_server lib es s = fold (bind_step lib) es (Inr s)"

definition server_inv :: "('b, 'l) libs \<Rightarrow> ('b, 'l) server outcome \<Rightarrow> bool" where
  "server_inv lib so \<longleftrightarrow> (\<exists>s. so = Inr s \<and> wf_server s \<and> labels_ok lib s)"

interpretation server_ops: machine "bind_step lib" "server_inv lib" "\<lambda>e. event_ok e \<and> datagram_ok lib e"
  by unfold_locales (use server_step_wf server_step_labels in \<open>fastforce simp: bind_step_def server_inv_def\<close>)

text \<open>Whatever the names are, the only panic is that of the metrics library.\<close>

definition server_outcome_ok :: "('b, 'l) server outcome \<Rightarrow> bool" where
  "server_outcome_ok so \<longleftrightarrow> (case so of Inl p \<Rightarrow> p = LibraryPanic | Inr s \<Rightarrow> wf_server s)"

interpretation server_outcomes: machine "bind_step lib" server_outcome_ok event_ok for lib :: "('b, 'l) libs"
proof unfold_locales
  fix so :: "('b, 'l) server outcome" and e
  assume "server_outcome_ok so" "event_ok e"
  then show "server_outcome_ok (bind_step lib e so)"
    using server_step_outcome[OF _ _ refl, of _ e lib]
    by (fastforce simp: server_outcome_ok_def bind_step_def label_panic_def split: sum.splits)
qed

text \<open>A datagram with a refused name is a query that the library of messages decodes.\<close>

lemma refused_datagram:
  assumes "\<not> list_all (datagram_ok lib) es"
  shows "\<exists>now d a m. Read now d a \<in> set es \<and> unmarshal lib (take 2048 d) = Some m \<and> m_y m = ''q'' \<and> \<not> label_ok lib (m_q m)"
proof -
  obtain e where e: "e \<in> set es" "\<not> datagram_ok lib e" using assms by (auto simp: list_all_iff)
  from e(2) obtain now d a m where "e = Read now d a" "unmarshal lib (take 2048 d) = Some m" "m_y m = ''q''"
    "\<not> label_ok lib (m_q m)"
    by (cases e) (auto split: option.splits)
  with e(1) show ?thesis by blast
qed

lemma new_server_wf:
  assumes "new_server cfg ext disc dedup now r fresh x y = Inr s" and "length fresh = 20"
    and "0 < c_bucket_size cfg" and "0 < c_store_peers cfg" and "wf_chan disc"
  shows "wf_server s"
proof -
  obtain i where i: "get_server_node_id cfg ext r fresh = Inr i"
    using assms(1) by (auto simp: new_server_def split: sum.splits)
  have "wf_id i"
  proof (cases ext)
    case None
    show ?thesis
    proof (cases "c_node_id cfg = []")
      case True
      then have "i = fresh" using i None by (simp add: get_server_node_id_def)
      then show ?thesis using assms(2) by (simp add: wf_id_def)
    next
      case False
      then have "parse_node_id_hex (c_node_id cfg) = Inr i" using i None by (simp add: get_server_node_id_def)
      then show ?thesis using parse_node_id_hex_wf by blast
    qed
  next
    case (Some a)
    then have "i = derive_node_id_from_ip a r fresh" using i by (simp add: get_server_node_id_def)
    then show ?thesis using length_derive_node_id[OF assms(2)] by simp
  qed
  then show ?thesis
    using assms i new_table_wf new_peer_store_wf wf_txns_new new_ip_limiter_wf
    by (auto simp: new_server_def wf_server_def all_peers_def new_peer_store_def)
qed

lemma new_server_labels: "new_server cfg ext disc dedup now r fresh x y = Inr s \<Longrightarrow> labels_ok lib s"
  by (auto simp: new_server_def labels_ok_def chan_make_def split: sum.splits)

text \<open>
  C4. From a new server with a positive bucket size and a positive peer-list size, every sequence of datagrams,
  timeouts, ticks and queries of the program itself (which name nodes by 20-byte identifiers) leaves the table, the peer store, the limiter and the transactions well formed, the
  channels within their capacity, and only ports from 1 to 65535 in the peer store; or it panics, and then the
  panic is the metrics library's and one of the datagrams was a query whose name that library refuses. The
  program's own index, slice and channel operations never panic.
\<close>

theorem server_panics_only_on_names:
  assumes "new_server cfg ext disc dedup now r fresh x y = Inr s" and "length fresh = 20"
    and "0 < c_bucket_size cfg" and "0 < c_store_peers cfg" and "wf_chan disc" and "list_all event_ok es"
  shows "case run_server lib es s of
      Inr s' \<Rightarrow> wf_server s'
    | Inl p \<Rightarrow> p = LibraryPanic \<and>
        (\<exists>t d a m. Read t d a \<in> set es \<and> unmarshal lib (take 2048 d) = Some m \<and> m_y m = ''q'' \<and> \<not> label_ok lib (m_q m))"
proof -
  have "server_outcome_ok (run_server lib es s)"
    unfolding run_server_def using new_server_wf[OF assms(1-5)] assms(6)
    by (intro server_outcomes.run_inv) (auto simp: server_outcome_ok_def)
  moreover have "server_inv lib (run_server lib es s)" if "list_all (datagram_ok lib) es"
    unfolding run_server_def using new_server_wf[OF assms(1-5)] new_server_labels[OF assms(1)] assms(6) that
    by (intro server_ops.run_inv) (auto simp: server_inv_def list_all_iff)
  ultimately show ?thesis
    using refused_datagram[of lib es] by (auto simp: server_outcome_ok_def server_inv_def split: sum.splits)
qed

definition sample_config :: dht_config where
  "sample_config = \<lparr>c_node_id = [], c_discovery_buffer = 100, c_token_rotation = 5 * minute, c_store_entries = 10,
     c_store_peers = 5, c_store_ttl = 30 * minute, c_limiter_size = 100, c_timeout = 10 * second, c_max_nodes = 16,
     c_max_peers = 3, c_bucket_size = 8, c_bad_failures = 2, c_stale = 5 * minute, c_sample_interval = 5 * minute,
     c_warm_threshold = 20\<rparr>"

definition sample_libs :: "(info_hash list, nat) libs" where
  "sample_libs = \<lparr>bloom_test = \<lambda>b h. h \<in> set b, bloom_add = (#), lim_fresh = 5, lim_allow = \<lambda>now n. (0 < n, n - 1),
     marshal = \<lambda>m. Some (m_t m), unmarshal = \<lambda>d. Some (empty_msg\<lparr>m_t := d, m_y := ''q'', m_q := ''ping''\<rparr>),
     label_ok = \<lambda>q. True\<rparr>"

definition sample_server :: "(info_hash list, nat) server" where
  "sample_server = (case new_server sample_config None (chan_make 4) (Some (new_bloom_filter [])) 0 0 (replicate 20 1)
     (replicate 8 1) (replicate 8 2) of Inr s \<Rightarrow> s | Inl e \<Rightarrow> undefined)"

lemma sample_server_new:
  "new_server sample_config None (chan_make 4) (Some (new_bloom_filter [])) 0 0 (replicate 20 1)
     (replicate 8 1) (replicate 8 2) = Inr sample_server"
  by (simp add: sample_server_def new_server_def get_server_node_id_def sample_config_def)

theorem server_panics_only_on_names_witness:
  "\<exists>s'. run_server sample_libs [Read 1 [7, 7] \<lparr>ip = [10, 0, 0, 1], port = 6881\<rparr>, Handle 2 id, Write, Sweep 3] sample_server
     = Inr s' \<and> wf_server s'"
  using server_panics_only_on_names[OF sample_server_new, of
      "[Read 1 [7, 7] \<lparr>ip = [10, 0, 0, 1], port = 6881\<rparr>, Handle 2 id, Write, Sweep 3]" sample_libs]
  by (cases "run_server sample_libs [Read 1 [7, 7] \<lparr>ip = [10, 0, 0, 1], port = 6881\<rparr>, Handle 2 id, Write, Sweep 3] sample_server")
    (simp_all add: sample_config_def sample_libs_def)


subsection \<open>A name the metrics library refuses\<close>

lemma refused_name_queued:
  "\<exists>(a, m) \<in> set (queued (s_handlers s)). \<not> label_ok lib (m_q m) \<Longrightarrow> length hs = length (queued (s_handlers s)) \<Longrightarrow>
     \<exists>p. fold (bind_step lib) (map (\<lambda>(t, rnd). Handle t rnd) hs) (Inr s) = Inl p"
proof (induction hs arbitrary: s)
  case (Cons h hs)
  obtain t rnd where h: "h = (t, rnd)" by force
  have stuck: "fold (bind_step lib) es (Inl p) = Inl p" for es p by (induction es) (simp_all add: bind_step_def)
  from Cons.prems(2) obtain inm rest where q: "queued (s_handlers s) = inm # rest" by (cases "queued (s_handlers s)") auto
  let ?s = "s\<lparr>s_handlers := (s_handlers s)\<lparr>queued := rest\<rparr>\<rparr>"
  have step: "bind_step lib (Handle t rnd) (Inr s) = process_query lib t rnd inm ?s"
    by (simp add: bind_step_def query_handler_step_def q)
  show ?case
  proof (cases "process_query lib t rnd inm ?s")
    case (Inl p)
    then show ?thesis by (simp add: h step stuck)
  next
    case (Inr s1)
    then have "label_ok lib (m_q (snd inm))" using process_query_refused[of lib inm t rnd ?s] by auto
    then have bad: "\<exists>(a, m) \<in> set (queued (s_handlers s1)). \<not> label_ok lib (m_q m)"
      using Cons.prems(1) q process_query_handlers[OF Inr] by auto
    have "length hs = length (queued (s_handlers s1))" using Cons.prems(2) q process_query_handlers[OF Inr] by simp
    from Cons.IH[OF bad this] show ?thesis by (simp add: h step Inr)
  qed
qed auto

text \<open>
  C38. One datagram can end the program: a query whose name the metrics library refuses, sent from any address,
  is put in the channel of the handlers if that has room, and once the handlers have worked it off one of them has
  panicked. The name is counted before the limiter is asked, so no limit keeps it out.
\<close>

theorem bad_query_name_panics:
  assumes "unmarshal lib (take 2048 d) = Some m" and "m_y m = ''q''" and "\<not> label_ok lib (m_q m)"
    and "length (queued (s_handlers s)) < cap (s_handlers s)" and "length hs = length (queued (s_handlers s)) + 1"
  shows "\<exists>p. run_server lib (Read now d a # map (\<lambda>(t, rnd). Handle t rnd) hs) s = Inl p"
proof -
  let ?s = "s\<lparr>s_handlers := (s_handlers s)\<lparr>queued := queued (s_handlers s) @ [(a, m)]\<rparr>\<rparr>"
  have "bind_step lib (Read now d a) (Inr s) = Inr ?s"
    using assms(1,2,4) by (simp add: bind_step_def read_step_def route_message_def chan_try_send_def)
  then show ?thesis
    using refused_name_queued[of ?s lib hs] assms(3,5) by (simp add: run_server_def)
qed

text \<open>A library that accepts ASCII names only.\<close>

definition strict_libs :: "(info_hash list, nat) libs" where
  "strict_libs = sample_libs\<lparr>label_ok := list_all (\<lambda>c. of_char c < (128 :: nat)),
     unmarshal := \<lambda>d. Some (empty_msg\<lparr>m_t := d, m_y := ''q'', m_q := map (char_of :: nat \<Rightarrow> char) [255]\<rparr>)\<rparr>"

theorem bad_query_name_panics_witness:
  "\<exists>p. run_server strict_libs [Read 1 [7, 7] \<lparr>ip = [10, 0, 0, 1], port = 6881\<rparr>, Handle 2 id] sample_server = Inl p"
  using bad_query_name_panics[of strict_libs "[7, 7]" "empty_msg\<lparr>m_t := [7, 7], m_y := ''q'', m_q := map (char_of :: nat \<Rightarrow> char) [255]\<rparr>"
      sample_server "[(2, id)]" 1 "\<lparr>ip = [10, 0, 0, 1], port = 6881\<rparr>"]
  by (simp add: strict_libs_def sample_server_def new_server_def get_server_node_id_def sample_config_def chan_make_def)


subsection \<open>Announcements\<close>

lemma respond_frame [simp]:
  "s_store (respond a t r s) = s_store s" "s_discovered (respond a t r s) = s_discovered s"
  "s_dedup (respond a t r s) = s_dedup s" "s_table (respond a t r s) = s_table s"
  "s_token (respond a t r s) = s_token s" "s_id (respond a t r s) = s_id s"
  by (simp_all add: respond_def split: option.split)

lemma respond_error_frame [simp]:
  "s_store (respond_error a t c x s) = s_store s" "s_discovered (respond_error a t c x s) = s_discovered s"
  "s_dedup (respond_error a t c x s) = s_dedup s" "s_token (respond_error a t c x s) = s_token s"
  by (simp_all add: respond_error_def split: option.split)

lemma emit_frame [simp]: "s_store (emit e s) = s_store s" "s_dedup (emit e s) = s_dedup s"
  "s_outbound (emit e s) = s_outbound s" "s_id (emit e s) = s_id s"
  by (simp_all add: emit_def split: option.split)

definition announced_port :: "addr \<Rightarrow> msg_args \<Rightarrow> int" where
  "announced_port a args =
     (case arg_implied_port args of None \<Rightarrow> arg_port args | Some x \<Rightarrow> if x \<noteq> 0 then port a else arg_port args)"

lemma announce_store:
  assumes "m_a m = Some args" and "validate (s_token s) (ip a) (arg_token args)"
    and "0 < announced_port a args" and "announced_port a args \<le> 65535"
  shows "s_store (handle_announce_peer lib now a m s) =
    peer_add now (go_copy zero_id (arg_info_hash args)) (ip a) (announced_port a args) (s_store s)"
  using assms
  by (simp add: handle_announce_peer_def announced_port_def Let_def not_le split: option.split prod.split)

text \<open>
  C16. Only a host that proved its address can announce: without a token that validates for the
  sender's address, or with a port outside 1 to 65535, \<^verbatim>\<open>announce_peer\<close> changes neither the peer
  store nor the filter nor the discovered peers; and what it stores or emits is always the sender's
  own address.
\<close>

theorem announce_guarded:
  "(m_a m = None \<or> (\<exists>args. m_a m = Some args \<and> (\<not> validate (s_token s) (ip a) (arg_token args) \<or>
       announced_port a args \<le> 0 \<or> 65535 < announced_port a args)) \<longrightarrow>
     s_store (handle_announce_peer lib now a m s) = s_store s \<and>
     s_dedup (handle_announce_peer lib now a m s) = s_dedup s \<and>
     s_discovered (handle_announce_peer lib now a m s) = s_discovered s) \<and>
   (s_store (handle_announce_peer lib now a m s) = s_store s \<or>
     (\<exists>h p. s_store (handle_announce_peer lib now a m s) = peer_add now h (ip a) p (s_store s) \<and> 0 < p \<and> p \<le> 65535)) \<and>
   (s_discovered (handle_announce_peer lib now a m s) = s_discovered s \<or>
     (\<exists>h p. queued (s_discovered (handle_announce_peer lib now a m s)) = queued (s_discovered s) @
        [\<lparr>d_infohash = h, d_peers = [\<lparr>ip = ip a, port = p\<rparr>], d_seen = now\<rparr>]))"
  by (auto simp: handle_announce_peer_def announced_port_def Let_def emit_def chan_try_send_def not_le
      split: option.splits prod.splits if_splits)


definition sample_addr :: addr where
  "sample_addr = \<lparr>ip = [10, 0, 0, 1], port = 6881\<rparr>"

definition sample_announce :: msg where
  "sample_announce = empty_msg\<lparr>m_t := [7, 7], m_y := ''q'', m_q := ''announce_peer'',
     m_a := Some (empty_args\<lparr>arg_info_hash := replicate 20 5, arg_port := 70000, arg_token := [1, 2]\<rparr>)\<rparr>"

theorem announce_guarded_witness:
  "s_store (handle_announce_peer sample_libs 9 sample_addr sample_announce sample_server) = s_store sample_server \<and>
   s_dedup (handle_announce_peer sample_libs 9 sample_addr sample_announce sample_server) = s_dedup sample_server \<and>
   s_discovered (handle_announce_peer sample_libs 9 sample_addr sample_announce sample_server) = s_discovered sample_server"
  by (rule announce_guarded[THEN conjunct1, rule_format])
    (simp add: sample_announce_def announced_port_def empty_args_def)

subsection \<open>The announce protocol\<close>

text \<open>The messages a step puts in the channel of the writer.\<close>

definition queued_since :: "('b, 'l) server \<Rightarrow> ('b, 'l) server \<Rightarrow> (addr \<times> msg) list" where
  "queued_since s s' = drop (length (queued (s_outbound s))) (queued (s_outbound s'))"

lemma queued_respond:
  "s_outbound s1 = s_outbound s \<Longrightarrow> queued_since s (respond a t r s1) =
     (if length (queued (s_outbound s)) < cap (s_outbound s) then [(a, empty_msg\<lparr>m_t := t, m_y := ''r'', m_r := Some r\<rparr>)] else [])"
  by (simp add: queued_since_def respond_def chan_try_send_def)

lemma queued_respond_error:
  "(b, r) \<in> set (queued_since s (respond_error a t c x s)) \<Longrightarrow> m_r r = None"
  by (auto simp: queued_since_def respond_error_def chan_try_send_def empty_msg_def split: if_splits option.splits)

lemma get_peers_token:
  assumes "(b, r) \<in> set (queued_since s (handle_get_peers t a q s))" and "m_r r = Some granted"
  shows "b = a \<and> ret_token granted = generate (s_token s) (ip a)"
proof (cases "\<exists>args h. m_a q = Some args \<and> parse_node_id (arg_info_hash args) = Inr h")
  case True
  then obtain args where "m_a q = Some args" "parse_node_id (arg_info_hash args) = Inr (arg_info_hash args)" by auto
  with assms show ?thesis
    by (auto simp: handle_get_peers_def queued_respond Let_def split: prod.splits if_splits)
next
  case False
  with assms show ?thesis
    by (auto simp: handle_get_peers_def dest: queued_respond_error split: option.splits sum.splits)
qed

lemma get_peers_values:
  assumes "m_a q = Some args" "length (arg_info_hash args) = 20" "length (queued (s_outbound s)) < cap (s_outbound s)"
    and "live_peers t (s_store s) (arg_info_hash args) \<noteq> []"
    and "length (live_peers t (s_store s) (arg_info_hash args)) \<le> s_max_peers s"
  shows "\<exists>ret. queued_since s (handle_get_peers t a q s) = [(a, empty_msg\<lparr>m_t := m_t q, m_y := ''r'', m_r := Some ret\<rparr>)] \<and>
    ret_values ret = map (\<lambda>e. encode_peer (pe_ip e) (pe_port e)) (live_peers t (s_store s) (arg_info_hash args))"
proof -
  have parse: "parse_node_id (arg_info_hash args) = Inr (arg_info_hash args)" using assms(2) by simp
  obtain found store where g: "peer_get t (arg_info_hash args) (s_store s) = (found, store)" by force
  then have "found = live_peers t (s_store s) (arg_info_hash args)" by (simp flip: peer_get_live)
  with assms(4,5) have "found \<noteq> []" "truncate_to (s_max_peers s) found = found"
    "found = live_peers t (s_store s) (arg_info_hash args)" by (auto simp: truncate_to_def)
  then show ?thesis
    by (intro exI[of _ "empty_return\<lparr>ret_id := s_id s, ret_token := generate (s_token s) (ip a),
        ret_values := map (\<lambda>e. encode_peer (pe_ip e) (pe_port e)) (live_peers t (s_store s) (arg_info_hash args))\<rparr>"])
      (simp add: handle_get_peers_def assms(1,3) parse g queued_respond Let_def)
qed

lemma announce_outbound:
  "cap (s_outbound (handle_announce_peer lib now a m s)) = cap (s_outbound s) \<and>
   length (queued (s_outbound (handle_announce_peer lib now a m s))) \<le> Suc (length (queued (s_outbound s))) \<and>
   s_max_peers (handle_announce_peer lib now a m s) = s_max_peers s"
  by (auto simp: handle_announce_peer_def respond_def respond_error_def emit_def chan_try_send_def Let_def
      split: option.split prod.split)

text \<open>
  C15. The announce protocol works end to end. A host takes the token out of a \<^verbatim>\<open>get_peers\<close> reply that the server
  queued for its address, and announces with it while the secrets are still the same or have been rotated once;
  everything else of the (well-formed) server may have changed in between. If the infohash it announces has 20 bytes and has room
  for one more peer, the port is from 1 to 65535, the address is IPv4 and the announcements have a positive
  lifetime, then a \<^verbatim>\<open>get_peers\<close> query for this infohash that is handled next, within the lifetime, gets one reply,
  and the peers that decode from it contain the address of the host with the announced port; this as long as the
  writer has room for both replies and the peers of the infohash fit in a reply (with more live peers than that
  the reply is cut off).
\<close>

theorem announce_end_to_end:
  assumes "(b, r) \<in> set (queued_since s0 (handle_get_peers t0 b0 q s0))" and "m_r r = Some granted"
    and "ip_key (ip b) = ip_key (ip a)" and "to4 (ip a) = Some v"
    and "wf_server s" and "s_token s = s_token s0 \<or> s_token s = rotate_token x (s_token s0)"
    and "m_a m = Some args" and "arg_token args = ret_token granted" and "length (arg_info_hash args) = 20"
    and "0 < announced_port a args" and "announced_port a args \<le> 65535" and "0 < ps_ttl (s_store s)"
    and "(ip_key (ip a), announced_port a args) \<in> peer_key ` set (stored_peers (s_store s) (arg_info_hash args)) \<or>
      length (stored_peers (s_store s) (arg_info_hash args)) < max_peers (s_store s)"
    and "length (stored_peers (s_store s) (arg_info_hash args)) < s_max_peers s"
    and "Suc (length (queued (s_outbound s))) < cap (s_outbound s)"
    and "m_a k = Some asked" and "arg_info_hash asked = arg_info_hash args"
    and "now \<le> later" and "later - now < ps_ttl (s_store s)"
  shows "let s1 = handle_announce_peer lib now a m s in
    \<exists>found ret ps. queued_since s1 (handle_get_peers later c k s1) = [(c, found)] \<and> m_t found = m_t k \<and>
      m_r found = Some ret \<and> decode_peers (ret_values ret) = Inr ps \<and> \<lparr>ip = v, port = announced_port a args\<rparr> \<in> set ps"
proof -
  let ?s1 = "handle_announce_peer lib now a m s" and ?h = "arg_info_hash args" and ?p = "announced_port a args"
  have v: "validate (s_token s) (ip a) (arg_token args)"
    using get_peers_token[OF assms(1,2)] assms(3,6,8) token_for_key[of "ip b" "ip a"]
    by (auto simp: validate_def generate_def rotate_token_def)
  have h: "go_copy zero_id ?h = ?h" using assms(9) by (simp add: go_copy_same zero_id_def)
  have store: "s_store ?s1 = peer_add now ?h (ip a) ?p (s_store s)"
    using announce_store[OF assms(7) v assms(10,11), of lib now] h by simp
  have wf: "wf_store (s_store s)" using assms(5) by (simp add: wf_server_def)
  have "\<not> (\<exists>es. map_get (peers (s_store s)) ?h = Some es \<and> (ip_key (ip a), ?p) \<notin> peer_key ` set es \<and>
      length es \<ge> max_peers (s_store s))" using assms(13) by (auto simp: stored_peers_def)
  from announce_found_lemma[OF wf assms(12) this, of now]
  obtain e where e: "e \<in> set (live_peers now (s_store ?s1) ?h)" "peer_key e = (ip_key (ip a), ?p)" "pe_seen e = now"
    unfolding store by blast
  have ttl: "ps_ttl (s_store ?s1) = ps_ttl (s_store s)" by (simp add: store)
  have live: "e \<in> set (live_peers later (s_store ?s1) ?h)"
    using e(1,3) assms(19) by (simp add: live_peers_def ttl)
  have "length (live_peers later (s_store ?s1) ?h) \<le> length (stored_peers (s_store ?s1) ?h)"
    by (simp add: live_peers_def)
  also have "\<dots> \<le> Suc (length (stored_peers (s_store s) ?h))" by (simp add: store stored_peers_add)
  finally have few: "length (live_peers later (s_store ?s1) ?h) \<le> s_max_peers ?s1"
    using assms(14) announce_outbound[of lib now a m s] by simp
  have room: "length (queued (s_outbound ?s1)) < cap (s_outbound ?s1)"
    using assms(15) announce_outbound[of lib now a m s] by simp
  from live have some: "live_peers later (s_store ?s1) ?h \<noteq> []" by auto
  obtain ret where ret: "queued_since ?s1 (handle_get_peers later c k ?s1) =
      [(c, empty_msg\<lparr>m_t := m_t k, m_y := ''r'', m_r := Some ret\<rparr>)]"
    "ret_values ret = map (\<lambda>e. encode_peer (pe_ip e) (pe_port e)) (live_peers later (s_store ?s1) ?h)"
    using get_peers_values[OF assms(16), of ?s1 later c] assms(9,17) room few some by auto
  have "to4 (pe_ip e) = Some v" using e(2) assms(4) length_to4[OF assms(4)]
    by (auto simp: peer_key_def ip_key_def split: option.splits)
  then have "decode_peer (encode_peer (pe_ip e) (pe_port e)) = \<lparr>ip = v, port = ?p\<rparr>"
    using e(2) assms(10,11) by (simp add: decode_encode_peer peer_key_def)
  with live have "\<lparr>ip = v, port = ?p\<rparr> \<in> set (map decode_peer (ret_values ret))" by (force simp: ret(2))
  moreover have "decode_peers (ret_values ret) = Inr (map decode_peer (ret_values ret))"
    by (auto simp: decode_peers_iff ret(2))
  ultimately show ?thesis unfolding Let_def using ret(1) by auto
qed

definition sample_lookup :: msg where
  "sample_lookup = empty_msg\<lparr>m_t := [7, 8], m_y := ''q'', m_q := ''get_peers'',
     m_a := Some (empty_args\<lparr>arg_info_hash := replicate 20 5\<rparr>)\<rparr>"

text \<open>The host asks at time 5, the secret is rotated, it announces at time 9, and another host asks at time 12.\<close>

theorem announce_end_to_end_witness:
  "\<exists>tok. (\<exists>r g. queued_since sample_server (handle_get_peers 5 sample_addr sample_lookup sample_server) = [(sample_addr, r)] \<and>
       m_r r = Some g \<and> ret_token g = tok) \<and>
     (let s1 = handle_announce_peer sample_libs 9 sample_addr
          (empty_msg\<lparr>m_a := Some (empty_args\<lparr>arg_info_hash := replicate 20 5, arg_port := 6881, arg_token := tok\<rparr>)\<rparr>)
          (sample_server\<lparr>s_token := rotate_token (replicate 8 3) (s_token sample_server)\<rparr>) in
      \<exists>found ret ps. queued_since s1 (handle_get_peers 12 \<lparr>ip = [10, 0, 0, 2], port = 1\<rparr> sample_lookup s1) =
          [(\<lparr>ip = [10, 0, 0, 2], port = 1\<rparr>, found)] \<and> m_t found = m_t sample_lookup \<and> m_r found = Some ret \<and>
        decode_peers (ret_values ret) = Inr ps \<and> \<lparr>ip = [10, 0, 0, 1], port = 6881\<rparr> \<in> set ps)"
proof -
  have fields: "s_store sample_server = new_peer_store 10 5 (30 * minute)" "s_outbound sample_server = chan_make 100"
    "s_max_peers sample_server = 3"
    by (simp_all add: sample_server_def new_server_def get_server_node_id_def sample_config_def)
  have wf: "wf_server sample_server"
    by (rule new_server_wf[OF sample_server_new]) (simp_all add: sample_config_def)
  have parse: "parse_node_id (replicate 20 5) = Inr (replicate 20 5)" by simp
  obtain r g where r: "queued_since sample_server (handle_get_peers 5 sample_addr sample_lookup sample_server) = [(sample_addr, r)]"
    "m_r r = Some g"
    by (auto simp: handle_get_peers_def sample_lookup_def empty_args_def fields new_peer_store_def peer_get_def queued_respond
        chan_make_def Let_def parse)
  let ?a = "empty_args\<lparr>arg_info_hash := replicate 20 5, arg_port := 6881, arg_token := ret_token g\<rparr>"
  let ?s = "sample_server\<lparr>s_token := rotate_token (replicate 8 3) (s_token sample_server)\<rparr>"
  have "wf_server ?s" using wf by (simp add: wf_server_def)
  note announce_end_to_end[where b = sample_addr and r = r and ?s0.0 = sample_server and ?t0.0 = 5 and ?b0.0 = sample_addr
      and q = sample_lookup and granted = g and a = sample_addr and v = "[10, 0, 0, 1]" and s = ?s and x = "replicate 8 3"
      and m = "empty_msg\<lparr>m_a := Some ?a\<rparr>" and args = ?a and k = sample_lookup
      and asked = "empty_args\<lparr>arg_info_hash := replicate 20 5\<rparr>" and now = 9 and later = 12 and lib = sample_libs
      and c = "\<lparr>ip = [10, 0, 0, 2], port = 1\<rparr>", OF _ r(2) _ _ this]
  then show ?thesis using r
    by (simp add: fields new_peer_store_def stored_peers_def announced_port_def empty_args_def sample_lookup_def
        sample_addr_def chan_make_def)
qed


subsection \<open>Replies\<close>

definition reply_to :: "('b, 'l) server \<Rightarrow> addr \<Rightarrow> byte list \<Rightarrow> (msg \<Rightarrow> bool) \<Rightarrow> ('b, 'l) server \<Rightarrow> bool" where
  "reply_to s a t P s' \<longleftrightarrow> s_outbound s' = s_outbound s \<or>
     (\<exists>r. s_outbound s' = (s_outbound s)\<lparr>queued := queued (s_outbound s) @ [(a, r)]\<rparr> \<and> m_t r = t \<and> P r)"

text \<open>The size of a reply: at most \<open>k\<close> compact nodes, \<open>v\<close> peers and 500 infohashes.\<close>

definition small_reply :: "nat \<Rightarrow> nat \<Rightarrow> msg \<Rightarrow> bool" where
  "small_reply k v r \<longleftrightarrow> (m_y r = ''r'' \<or> m_y r = ''e'') \<and>
     (case m_r r of
        None \<Rightarrow> True
      | Some x \<Rightarrow> length (ret_nodes x) \<le> 26 * k \<and> length (ret_values x) \<le> v \<and>
          list_all (\<lambda>p. length p = 6) (ret_values x) \<and> length (ret_samples x) \<le> 10000)"

lemma reply_none: "s_outbound s' = s_outbound s \<Longrightarrow> reply_to s a t P s'"
  by (simp add: reply_to_def)

lemma reply_respond:
  assumes "s_outbound s1 = s_outbound s" and "small_reply k v (empty_msg\<lparr>m_t := t, m_y := ''r'', m_r := Some r\<rparr>)"
  shows "reply_to s a t (small_reply k v) (respond a t r s1)"
  using assms by (auto simp: reply_to_def respond_def chan_try_send_def)

lemma reply_error:
  assumes "s_outbound s1 = s_outbound s"
  shows "reply_to s a t (small_reply k v) (respond_error a t c x s1)"
  using assms by (auto simp: reply_to_def respond_error_def chan_try_send_def small_reply_def empty_msg_def)

lemma small_replyI:
  assumes "length (ret_nodes r) \<le> 26 * k" "length (ret_values r) \<le> v" "list_all (\<lambda>p. length p = 6) (ret_values r)"
    "length (ret_samples r) \<le> 10000"
  shows "small_reply k v (empty_msg\<lparr>m_t := t, m_y := ''r'', m_r := Some r\<rparr>)"
  using assms by (simp add: small_reply_def)

lemma encode_nodes_le: "length (encode_nodes ns) \<le> 26 * length ns"
  by (induction ns) (auto split: option.split)

lemma closest_length_le: "length (closest rt t n) \<le> n"
  by (simp add: closest_def Let_def)

lemma truncate_length: "length (truncate_to n xs) \<le> n" "length (truncate_to n xs) \<le> length xs"
  by (simp_all add: truncate_to_def)

lemma found_nodes_le: "length (encode_nodes (truncate_to n (closest rt t k))) \<le> 26 * min k n"
proof -
  let ?ns = "truncate_to n (closest rt t k)"
  have "length ?ns \<le> min k n"
    using truncate_length[of n "closest rt t k"] closest_length_le[of rt t k] by simp
  then show ?thesis using encode_nodes_le[of ?ns] by linarith
qed

lemma handler_replies:
  "reply_to s a (m_t m) (small_reply (min (s_bucket_size s) (s_max_nodes s)) (s_max_peers s)) (handle_ping a m s)"
  "reply_to s a (m_t m) (small_reply (min (s_bucket_size s) (s_max_nodes s)) (s_max_peers s)) (handle_find_node a m s)"
  "reply_to s a (m_t m) (small_reply (min (s_bucket_size s) (s_max_nodes s)) (s_max_peers s)) (handle_get_peers now a m s)"
  "reply_to s a (m_t m) (small_reply (min (s_bucket_size s) (s_max_nodes s)) (s_max_peers s)) (handle_announce_peer lib now a m s)"
proof -
  show "reply_to s a (m_t m) (small_reply (min (s_bucket_size s) (s_max_nodes s)) (s_max_peers s)) (handle_ping a m s)"
    by (auto simp: handle_ping_def empty_return_def intro!: reply_respond small_replyI)
  show "reply_to s a (m_t m) (small_reply (min (s_bucket_size s) (s_max_nodes s)) (s_max_peers s)) (handle_find_node a m s)"
    using found_nodes_le[of "s_max_nodes s" "s_table s" _ "s_bucket_size s"]
    by (auto simp: handle_find_node_def Let_def empty_return_def
        intro!: reply_respond reply_error small_replyI split: option.split sum.split)
  show "reply_to s a (m_t m) (small_reply (min (s_bucket_size s) (s_max_nodes s)) (s_max_peers s)) (handle_get_peers now a m s)"
    using found_nodes_le[of "s_max_nodes s" "s_table s" _ "s_bucket_size s"] truncate_length(1)[of "s_max_peers s"]
    by (auto simp: handle_get_peers_def Let_def empty_return_def list_all_iff
        intro!: reply_respond reply_error small_replyI split: option.split sum.split prod.split)
  show "reply_to s a (m_t m) (small_reply (min (s_bucket_size s) (s_max_nodes s)) (s_max_peers s)) (handle_announce_peer lib now a m s)"
    by (auto simp: handle_announce_peer_def Let_def empty_return_def
        intro!: reply_respond reply_error small_replyI split: option.split prod.split)
qed

lemma sample_reply:
  assumes "length (samples (sample_cache (s_store s))) \<le> 10000"
  shows "reply_to s a (m_t m) (small_reply (s_bucket_size s) (s_max_peers s)) (handle_sample_infohashes now rnd a m s)"
proof -
  have "length (encode_nodes (closest (s_table s) t (s_bucket_size s))) \<le> 26 * s_bucket_size s" for t
    using encode_nodes_le[of "closest (s_table s) t (s_bucket_size s)"] closest_length_le[of "s_table s" t "s_bucket_size s"]
    by linarith
  then show ?thesis using sample_length[OF assms, of now rnd]
    by (auto simp: handle_sample_infohashes_def Let_def empty_return_def
        intro!: reply_respond reply_error small_replyI split: option.split sum.split prod.split)
qed

lemma small_reply_mono: "reply_to s a t (small_reply k v) s' \<Longrightarrow> k \<le> k' \<Longrightarrow> reply_to s a t (small_reply k' v) s'"
  by (fastforce simp: reply_to_def small_reply_def split: option.splits)

lemma process_node_seen_frame:
  "process_node_seen now inm s = Inr s' \<Longrightarrow> s_outbound s' = s_outbound s \<and> s_bucket_size s' = s_bucket_size s \<and>
     s_max_nodes s' = s_max_nodes s \<and> s_max_peers s' = s_max_peers s \<and> s_store s' = s_store s"
  by (auto simp: process_node_seen_def see_node_def split: option.splits sum.splits)


lemma reply_to_frame: "reply_to s1 a t P s' \<Longrightarrow> s_outbound s1 = s_outbound s \<Longrightarrow> reply_to s a t P s'"
  by (simp add: reply_to_def)

text \<open>
  C34. A query is answered at most once, and the answer cannot amplify: whatever query is processed,
  either nothing is queued or exactly one message, to the sender, with the sender's transaction
  identifier, carrying at most one bucket's worth of nodes (also at most \<^verbatim>\<open>maxNodesPerResponse\<close> of
  them unless the query is \<^verbatim>\<open>sample_infohashes\<close>), at most \<^verbatim>\<open>maxPeersPerResponse\<close> 6-byte peers and
  at most 500 infohashes.
\<close>

theorem one_bounded_reply:
  assumes "wf_server s" and "process_query lib now rnd (a, m) s = Inr s'"
  shows "reply_to s a (m_t m)
    (small_reply (if m_q m = ''sample_infohashes'' then s_bucket_size s else min (s_bucket_size s) (s_max_nodes s))
      (s_max_peers s)) s'"
proof -
  obtain ok lim where l: "limiter_allow (lim_fresh lib) (lim_allow lib) now (ip a) (s_limiter s) = (ok, lim)" by force
  show ?thesis
  proof (cases ok)
    case False
    then show ?thesis using assms(2) by (auto simp: process_query_def l Let_def intro: reply_none split: if_splits)
  next
    case True
    obtain s1 where seen: "process_node_seen now (a, m) (s\<lparr>s_limiter := lim\<rparr>) = Inr s1"
      using True assms(2) by (auto simp: process_query_def l Let_def split: sum.splits if_splits)
    note fr = process_node_seen_frame[OF seen]
    have len: "length (samples (sample_cache (s_store s1))) \<le> 10000"
      using fr assms(1) by (simp add: wf_server_def)
    have s': "s' = (if m_q m = ''ping'' then handle_ping a m s1
        else if m_q m = ''find_node'' then handle_find_node a m s1
        else if m_q m = ''get_peers'' then handle_get_peers now a m s1
        else if m_q m = ''announce_peer'' then handle_announce_peer lib now a m s1
        else if m_q m = ''sample_infohashes'' then handle_sample_infohashes now rnd a m s1 else s1)"
      using True assms(2) seen by (auto simp: process_query_def l Let_def split: if_splits)
    have "reply_to s1 a (m_t m)
        (small_reply (if m_q m = ''sample_infohashes'' then s_bucket_size s1 else min (s_bucket_size s1) (s_max_nodes s1))
          (s_max_peers s1)) s'"
      unfolding s' using handler_replies[of s1 a m] sample_reply[OF len, of a m now rnd] by (auto intro: reply_none)
    then show ?thesis using fr by (auto intro: reply_to_frame)
  qed
qed

lemma sample_server_wf: "wf_server sample_server"
  by (rule new_server_wf[OF sample_server_new]) (simp_all add: sample_config_def)

theorem one_bounded_reply_witness:
  "\<exists>s'. process_query sample_libs 9 id (sample_addr, sample_announce) sample_server = Inr s' \<and>
     reply_to sample_server sample_addr (m_t sample_announce)
      (small_reply (if m_q sample_announce = ''sample_infohashes'' then s_bucket_size sample_server
         else min (s_bucket_size sample_server) (s_max_nodes sample_server)) (s_max_peers sample_server)) s'"
  using process_query_wf[OF sample_server_wf, of sample_libs "(sample_addr, sample_announce)" 9 id]
    one_bounded_reply[OF sample_server_wf, of sample_libs 9 id sample_addr sample_announce]
  by (auto simp: sample_libs_def)


subsection \<open>Queries that were never sent\<close>

text \<open>
  \<^verbatim>\<open>send\<close> registers its transaction before it tries to queue the message. When the outbound
  channel is full it reports an error and sends nothing, but the transaction stays; once it is
  overdue the sweeper counts a failure against the node, which never saw the query.
\<close>

theorem unsent_query_counts_as_failure:
  assumes "wf_server s" and "wf_id i" and "cache_size (txns (s_txns s)) < 2 ^ 32"
    and "length (queued (s_outbound s)) = cap (s_outbound s)"
    and "since now' now > timeout (s_txns s)"
  shows "\<exists>s'. send now a i m s = (Inl Outbound_Full, s') \<and> s_outbound s' = s_outbound s \<and>
    (\<exists>tm failed released. txn_sweep now' (s_txns s') = Inr (tm, failed, released) \<and> i \<in> set failed)"
proof -
  have wf: "wf_txns (s_txns s)" using assms(1) by (simp add: wf_server_def)
  obtain t tm where new: "txn_new now i a (s_txns s) = Some (t, tm)" and nd: "\<not> t_done t"
    using txn_new_total[OF assms(3,2), of now a] by blast
  note tm = txn_new_wf[OF wf new assms(2)]
  have lim: "timeout tm = timeout (s_txns s)" using new by (auto simp: txn_new_def Let_def split: option.splits)
  have snd: "send now a i m s = (Inl Outbound_Full, s\<lparr>s_txns := tm\<rparr>)"
    using assms(4) by (simp add: send_def new Let_def chan_try_send_def)
  obtain tm' failed released where sw: "txn_sweep now' tm = Inr (tm', failed, released)"
    and f: "mset failed = image_mset (\<lambda>(k, t). t_node t) {#(k, t) \<in># mset (entries (txns tm)). expired now' (timeout tm) t#}"
    using sweep_correct_lemma[OF tm(1), of now'] by blast
  have "(t_id t, t) \<in> set (entries (txns tm))"
    using fun_cong[OF tm(6), of "t_id t"] by (simp add: cache_get_def map_of_SomeD)
  moreover have "expired now' (timeout tm) t" using nd tm(5) lim assms(5) by (simp add: expired_def)
  ultimately have "t_node t \<in># mset failed" unfolding f by force
  then show ?thesis using snd sw tm(3) by simp
qed

definition full_server :: "(info_hash list, nat) server" where
  "full_server = sample_server\<lparr>s_outbound := chan_make 0\<rparr>"

theorem unsent_query_counts_as_failure_witness:
  "\<exists>s'. send 5 sample_addr (replicate 20 9) empty_msg full_server = (Inl Outbound_Full, s') \<and>
    s_outbound s' = s_outbound full_server \<and>
    (\<exists>tm failed released. txn_sweep (5 + 11 * second) (s_txns s') = Inr (tm, failed, released) \<and> replicate 20 9 \<in> set failed)"
proof (rule unsent_query_counts_as_failure)
  show "wf_server full_server"
    using sample_server_wf by (simp add: full_server_def wf_server_def)
  have "s_txns full_server = new_txn_manager (10 * second)"
    by (simp add: full_server_def sample_server_def new_server_def get_server_node_id_def sample_config_def)
  then show "cache_size (txns (s_txns full_server)) < 2 ^ 32" "since (5 + 11 * second) 5 > timeout (s_txns full_server)"
    by (simp_all add: new_txn_manager_def cache_new_def with_cleanup_interval_def cache_size_def since_def time_sub_def)
qed (simp_all add: wf_id_def full_server_def chan_make_def)

text \<open>
  With an unset sample interval the reply to \<^verbatim>\<open>sample_infohashes\<close> announces an interval of 0
  seconds: the fallback constant 300 is in nanoseconds.
\<close>

theorem sample_interval_fallback_is_zero:
  assumes "s_sample_interval s \<le> 0" and "m_a m = Some args" and "length (arg_target args) = 20"
    and "length (queued (s_outbound s)) < cap (s_outbound s)"
  shows "\<exists>r. queued (s_outbound (handle_sample_infohashes now rnd a m s)) = queued (s_outbound s) @ [(a, r)] \<and>
    (\<exists>x. m_r r = Some x \<and> ret_interval x = 0)"
  using assms
  by (simp add: handle_sample_infohashes_def parse_node_id_def respond_def chan_try_send_def Let_def
      split: prod.split)

theorem sample_interval_fallback_is_zero_witness:
  "\<exists>r. queued (s_outbound (handle_sample_infohashes 9 id sample_addr
        (empty_msg\<lparr>m_a := Some (empty_args\<lparr>arg_target := replicate 20 5\<rparr>)\<rparr>) (sample_server\<lparr>s_sample_interval := 0\<rparr>))) =
      queued (s_outbound (sample_server\<lparr>s_sample_interval := 0\<rparr>)) @ [(sample_addr, r)] \<and>
    (\<exists>x. m_r r = Some x \<and> ret_interval x = 0)"
  by (rule sample_interval_fallback_is_zero[where args = "empty_args\<lparr>arg_target := replicate 20 5\<rparr>"])
    (simp, simp, simp, simp add: sample_server_def new_server_def get_server_node_id_def sample_config_def chan_make_def)

end
