(* ===== verification/Bootstrap.thy ===== *)
theory Bootstrap
  imports Server_Safety
begin

section \<open>Bootstrapping (\<^verbatim>\<open>dht/server/bootstrap.go\<close>)\<close>

text \<open>
  An iterative search for the node's own identifier: the seeds fill a shortlist, and every round
  queries the unqueried ones among the closest. The network is a parameter: \<open>ask n\<close> is the body
  of the reply of node \<open>n\<close>, if there is one. The queries of a round run concurrently in the code;
  the model handles their replies one after another.
\<close>

abbreviation bootstrap_alpha :: nat where "bootstrap_alpha \<equiv> 3"
abbreviation bootstrap_k :: nat where "bootstrap_k \<equiv> 8"

record entry =
  e_node :: node
  e_dist :: node_id
  e_queried :: bool

type_synonym bootstrap_nodes = "(node_id, entry) cache"

definition new_bootstrap_nodes :: bootstrap_nodes where
  "new_bootstrap_nodes = cache_new []"

fun bn_add :: "node list \<Rightarrow> node_id \<Rightarrow> bootstrap_nodes \<Rightarrow> bootstrap_nodes" where
  "bn_add [] own bn = bn"
| "bn_add (n # ns) own bn =
     bn_add ns own
       (if cache_get bn (nid n) = None
        then cache_set (nid n) \<lparr>e_node = n, e_dist = xor_id own (nid n), e_queried = False\<rparr> bn
        else bn)"

fun pick_unqueried :: "nat \<Rightarrow> entry list \<Rightarrow> entry list \<Rightarrow> entry list" where
  "pick_unqueried alpha [] result = result"
| "pick_unqueried alpha (e # es) result =
     (if \<not> e_queried e then
        let result = result @ [e]
        in if length result = alpha then result else pick_unqueried alpha es result
      else pick_unqueried alpha es result)"

definition closest_unqueried :: "nat \<Rightarrow> nat \<Rightarrow> bootstrap_nodes \<Rightarrow> entry list" where
  "closest_unqueried k alpha bn =
     (let es = sort_key e_dist (map snd (cache_items bn)); limit = min k (length es)
      in pick_unqueried alpha (take limit es) [])"

definition bn_len :: "bootstrap_nodes \<Rightarrow> nat" where
  "bn_len bn = cache_size bn"

record seed_result =
  sr_addr :: addr
  sr_nodes :: "node list"
  sr_external :: "ip option"
  sr_err :: bool

text \<open>What a seed's reply becomes, and the loop over the results.\<close>

definition seed_reply :: "addr \<Rightarrow> (send_error + msg) \<Rightarrow> seed_result" where
  "seed_reply a reply =
     (case reply of
        Inl e \<Rightarrow> \<lparr>sr_addr = a, sr_nodes = [], sr_external = None, sr_err = True\<rparr>
      | Inr m \<Rightarrow>
          \<lparr>sr_addr = a,
           sr_nodes = (case m_r m of
              None \<Rightarrow> []
            | Some r \<Rightarrow> (case decode_nodes (ret_nodes r) of Inl e \<Rightarrow> [] | Inr ns \<Rightarrow> ns)),
           sr_external = (if length (m_ip m) = 4 then Some (m_ip m) else None),
           sr_err = False\<rparr>)"

fun seeds_loop ::
    "instant \<Rightarrow> seed_result list \<Rightarrow> bootstrap_nodes \<Rightarrow> ('b, 'l) server \<Rightarrow> (bootstrap_nodes \<times> ('b, 'l) server) outcome" where
  "seeds_loop now [] bn s = Inr (bn, s)"
| "seeds_loop now (r # rs) bn s =
     (if sr_err r then seeds_loop now rs bn s
      else case insert_valid_nodes now (sr_nodes r) s of
        Inl p \<Rightarrow> Inl p
      | Inr s' \<Rightarrow> seeds_loop now rs (bn_add (sr_nodes r) (s_id s') bn) s')"

definition query_seeds ::
    "instant \<Rightarrow> (addr \<times> (send_error + msg)) list \<Rightarrow> bootstrap_nodes \<Rightarrow> ('b, 'l) server \<Rightarrow>
     (bootstrap_nodes \<times> ('b, 'l) server) outcome" where
  "query_seeds now replies bn s = seeds_loop now (map (\<lambda>(a, r). seed_reply a r) replies) bn s"

definition mark_queried :: "entry \<Rightarrow> bootstrap_nodes \<Rightarrow> bootstrap_nodes" where
  "mark_queried e bn = cache_set (nid (e_node e)) (e\<lparr>e_queried := True\<rparr>) bn"

definition converge_entry ::
    "instant \<Rightarrow> (node \<Rightarrow> return option) \<Rightarrow> entry \<Rightarrow> bootstrap_nodes \<times> ('b, 'l) server \<Rightarrow>
     (bootstrap_nodes \<times> ('b, 'l) server) outcome" where
  "converge_entry now ask e st =
     (case st of (bn, s) \<Rightarrow>
        let bn1 = mark_queried e bn in
        case ask (e_node e) of
          None \<Rightarrow> Inr (bn1, s)
        | Some r \<Rightarrow>
            (case decode_nodes (ret_nodes r) of
               Inl x \<Rightarrow> Inr (bn1, s)
             | Inr ns \<Rightarrow>
                 (case insert_valid_nodes now ns s of
                    Inl p \<Rightarrow> Inl p
                  | Inr s' \<Rightarrow> Inr (bn_add ns (s_id s) bn1, s'))))"

fun converge_round ::
    "instant \<Rightarrow> (node \<Rightarrow> return option) \<Rightarrow> entry list \<Rightarrow> bootstrap_nodes \<times> ('b, 'l) server \<Rightarrow>
     (bootstrap_nodes \<times> ('b, 'l) server) outcome" where
  "converge_round now ask [] st = Inr st"
| "converge_round now ask (e # es) st =
     (case converge_entry now ask e st of Inl p \<Rightarrow> Inl p | Inr st' \<Rightarrow> converge_round now ask es st')"

text \<open>The loop of \<^verbatim>\<open>convergeTable\<close>; \<open>None\<close> is a loop that does not end.\<close>

partial_function (option) converge_table ::
    "instant \<Rightarrow> (node \<Rightarrow> return option) \<Rightarrow> bootstrap_nodes \<times> ('b, 'l) server \<Rightarrow>
     (bootstrap_nodes \<times> ('b, 'l) server) outcome option" where
  "converge_table now ask st =
     (if closest_unqueried bootstrap_k bootstrap_alpha (fst st) = [] then Some (Inr st)
      else case converge_round now ask (closest_unqueried bootstrap_k bootstrap_alpha (fst st)) st of
        Inl p \<Rightarrow> Some (Inl p)
      | Inr st' \<Rightarrow> converge_table now ask st')"

text \<open>The find-node queries of \<^verbatim>\<open>refreshStaleBuckets\<close>, bucket by bucket.\<close>

fun refresh_stale_loop :: "table \<Rightarrow> nat \<Rightarrow> (nat \<Rightarrow> byte list) \<Rightarrow> nat \<Rightarrow> bucket list \<Rightarrow> (node \<times> node_id) list outcome" where
  "refresh_stale_loop rt k draw i [] = Inr []"
| "refresh_stale_loop rt k draw i (b # bs) =
     (case get_random_node_id b (draw i) of
        Inl p \<Rightarrow> Inl p
      | Inr target \<Rightarrow>
          (case refresh_stale_loop rt k draw (i + 1) bs of
             Inl p \<Rightarrow> Inl p
           | Inr qs \<Rightarrow> Inr (map (\<lambda>n. (n, target)) (closest rt target k) @ qs)))"

definition refresh_stale_buckets :: "instant \<Rightarrow> (nat \<Rightarrow> byte list) \<Rightarrow> ('b, 'l) server \<Rightarrow> (node \<times> node_id) list outcome" where
  "refresh_stale_buckets now draw s =
     refresh_stale_loop (s_table s) (s_bucket_size s) draw 0 (stale_buckets now (s_table s))"

text \<open>
  \<^verbatim>\<open>Bootstrap\<close>, with the replies of the seeds and of the network; its last step yields the
  refresh queries.
\<close>

definition bootstrap ::
    "instant \<Rightarrow> (addr \<times> (send_error + msg)) list \<Rightarrow> (node \<Rightarrow> return option) \<Rightarrow> (nat \<Rightarrow> byte list) \<Rightarrow>
     ('b, 'l) server \<Rightarrow> ((node \<times> node_id) list \<times> ('b, 'l) server) outcome option" where
  "bootstrap now replies ask draw s =
     (case query_seeds now replies new_bootstrap_nodes s of
        Inl p \<Rightarrow> Some (Inl p)
      | Inr st \<Rightarrow>
          (case converge_table now ask st of
             None \<Rightarrow> None
           | Some (Inl p) \<Rightarrow> Some (Inl p)
           | Some (Inr (bn, s')) \<Rightarrow>
               (case refresh_stale_buckets now draw s' of
                  Inl p \<Rightarrow> Some (Inl p)
                | Inr qs \<Rightarrow> Some (Inr (qs, s')))))"

text \<open>
  \<^verbatim>\<open>resolveBootstrapAddrs\<close>: splitting, DNS and address parsing are parameters; what fails is left
  out.
\<close>

definition resolve_bootstrap_addrs ::
    "(string \<Rightarrow> (string \<times> string) option) \<Rightarrow> (string \<Rightarrow> string list option) \<Rightarrow> (string \<Rightarrow> string \<Rightarrow> addr option) \<Rightarrow>
     string list \<Rightarrow> addr list" where
  "resolve_bootstrap_addrs split_host_port lookup resolve addrs =
     concat (map (\<lambda>a.
       case split_host_port a of
         None \<Rightarrow> []
       | Some (host, p) \<Rightarrow>
           (case lookup host of
              None \<Rightarrow> []
            | Some ips \<Rightarrow> List.map_filter (\<lambda>i. resolve i p) ips)) addrs)"


subsection \<open>The shortlist\<close>

definition wf_bn :: "node_id \<Rightarrow> bootstrap_nodes \<Rightarrow> bool" where
  "wf_bn own bn \<longleftrightarrow> wf_cache bn \<and>
     list_all (\<lambda>(k, e). nid (e_node e) = k \<and> e_dist e = xor_id own k \<and> wf_id k) (entries bn)"

definition queried_ids :: "bootstrap_nodes \<Rightarrow> node_id set" where
  "queried_ids bn = {k. \<exists>e. cache_get bn k = Some e \<and> e_queried e}"

definition bn_ids :: "bootstrap_nodes \<Rightarrow> node_id set" where
  "bn_ids bn = set (cache_keys bn)"

lemma bn_ids_get: "k \<in> bn_ids bn \<longleftrightarrow> cache_get bn k \<noteq> None"
  by (simp add: bn_ids_def cache_keys_def cache_get_def map_get_None_keys)

lemma bn_ids_set: "bn_ids (cache_set k e bn) = insert k (bn_ids bn)"
  by (simp add: bn_ids_def cache_keys_def cache_set_def go_map)

lemma bn_add_queried: "queried_ids (bn_add ns own bn) = queried_ids bn"
  by (induction ns own bn rule: bn_add.induct) (auto simp: queried_ids_def cache_kv.get_put)

lemma bn_add_ids: "bn_ids (bn_add ns own bn) = bn_ids bn \<union> nid ` set ns"
  by (induction ns own bn rule: bn_add.induct) (auto simp: bn_ids_set bn_ids_get)

lemma wf_bn_set:
  assumes "wf_bn own bn" and "nid (e_node e) = k" and "e_dist e = xor_id own k" and "wf_id k"
  shows "wf_bn own (cache_set k e bn)"
  using assms set_map_set[of k e "entries bn"] cache_kv.put_ok[of bn k e]
  by (auto simp: wf_bn_def cache_set_def list_all_iff)

lemma wf_bn_add: "wf_bn own bn \<Longrightarrow> list_all (\<lambda>n. wf_id (nid n)) ns \<Longrightarrow> wf_bn own (bn_add ns own bn)"
proof (induction ns own bn rule: bn_add.induct)
  case (2 n ns own bn)
  have "wf_bn own (cache_set (nid n) \<lparr>e_node = n, e_dist = xor_id own (nid n), e_queried = False\<rparr> bn)"
    using "2.prems" by (intro wf_bn_set) auto
  then show ?case using 2 by simp
qed simp

lemma wf_bn_get: "wf_bn own bn \<Longrightarrow> cache_get bn k = Some e \<Longrightarrow> nid (e_node e) = k \<and> e_dist e = xor_id own k \<and> wf_id k"
  by (auto simp: wf_bn_def cache_get_def list_all_iff dest: map_of_SomeD)

lemma pick_unqueried_sound:
  "e \<in> set (pick_unqueried alpha es result) \<Longrightarrow> e \<in> set result \<or> (e \<in> set es \<and> \<not> e_queried e)"
  by (induction alpha es result rule: pick_unqueried.induct) (auto simp: Let_def split: if_splits)

lemma pick_unqueried_grows: "set result \<subseteq> set (pick_unqueried alpha es result)"
  by (induction alpha es result rule: pick_unqueried.induct) (auto simp: Let_def)

lemma pick_unqueried_Nil: "pick_unqueried alpha es [] = [] \<longleftrightarrow> list_all e_queried es"
proof (induction es)
  case (Cons e es)
  have "pick_unqueried alpha es [e] \<noteq> []" using pick_unqueried_grows[of "[e]" alpha es] by auto
  then show ?case using Cons by (simp add: Let_def)
qed simp

lemma closest_unqueried_sound:
  assumes "wf_bn own bn" and "e \<in> set (closest_unqueried k alpha bn)"
  shows "cache_get bn (nid (e_node e)) = Some e \<and> \<not> e_queried e \<and> wf_id (nid (e_node e))"
proof -
  have "e \<in> snd ` set (entries bn)" and nq: "\<not> e_queried e"
    using assms(2) pick_unqueried_sound[of e alpha _ "[]"]
    by (auto simp: closest_unqueried_def Let_def cache_items_def dest!: pick_unqueried_sound in_set_takeD)
  then obtain i where "(i, e) \<in> set (entries bn)" by force
  then have "cache_get bn i = Some e"
    using assms(1) by (simp add: wf_bn_def wf_cache_def wf_map_def map_keys_def cache_get_def map_of_eq_Some_iff)
  then show ?thesis using nq wf_bn_get[OF assms(1), of i e] by simp
qed



subsection \<open>Convergence\<close>

lemma insert_valid_nodes_id: "insert_valid_nodes now ns s = Inr s' \<Longrightarrow> s_id s' = s_id s"
  by (induction now ns s rule: insert_valid_nodes.induct) (auto split: sum.splits)

text \<open>What a query keeps of shortlist and server, when every answer names nodes of \<open>U\<close> only.\<close>

definition answers_within :: "(node \<Rightarrow> return option) \<Rightarrow> node_id set \<Rightarrow> bool" where
  "answers_within ask U \<longleftrightarrow>
     (\<forall>n r ns x. ask n = Some r \<and> decode_nodes (ret_nodes r) = Inr ns \<and> x \<in> set ns \<longrightarrow> nid x \<in> U)"

definition conv_ok :: "node_id set \<Rightarrow> bootstrap_nodes \<times> ('b, 'l) server \<Rightarrow> bool" where
  "conv_ok U st \<longleftrightarrow> wf_server (snd st) \<and> wf_bn (s_id (snd st)) (fst st) \<and> bn_ids (fst st) \<subseteq> U"

lemma converge_entry_ok:
  assumes ok: "conv_ok U (bn, s)" and ask: "answers_within ask U"
    and e: "cache_get bn (nid (e_node e)) \<noteq> None" "wf_id (nid (e_node e))" "e_dist e = xor_id (s_id s) (nid (e_node e))"
  shows "\<exists>bn' s'. converge_entry now ask e (bn, s) = Inr (bn', s') \<and> conv_ok U (bn', s') \<and> s_id s' = s_id s \<and>
    bn_ids bn \<subseteq> bn_ids bn' \<and> queried_ids bn' = insert (nid (e_node e)) (queried_ids bn)"
proof -
  let ?bn1 = "mark_queried e bn"
  have q1: "queried_ids ?bn1 = insert (nid (e_node e)) (queried_ids bn)"
    by (auto simp: mark_queried_def queried_ids_def cache_kv.get_put)
  have k1: "bn_ids ?bn1 = bn_ids bn"
    using e(1) by (auto simp: mark_queried_def bn_ids_set bn_ids_get)
  have wf1: "wf_bn (s_id s) ?bn1"
    using ok e by (auto simp: mark_queried_def conv_ok_def intro!: wf_bn_set)
  have base: "conv_ok U (?bn1, s)" using ok wf1 k1 by (simp add: conv_ok_def)
  show ?thesis
  proof (cases "ask (e_node e)")
    case None
    then show ?thesis using base q1 k1 by (simp add: converge_entry_def Let_def)
  next
    case (Some r)
    show ?thesis
    proof (cases "decode_nodes (ret_nodes r)")
      case (Inl x)
      then show ?thesis using Some base q1 k1 by (simp add: converge_entry_def Let_def)
    next
      case (Inr ns)
      have ns: "list_all (\<lambda>n. wf_id (nid n)) ns" by (rule decode_nodes_wf[OF Inr])
      obtain s' where s': "insert_valid_nodes now ns s = Inr s'" "wf_server s'"
        using insert_valid_nodes_wf[of s ns now] ok ns by (auto simp: conv_ok_def)
      have "nid ` set ns \<subseteq> U" using ask Some Inr by (auto simp: answers_within_def)
      then have "conv_ok U (bn_add ns (s_id s) ?bn1, s')"
        using ok wf1 k1 s' ns by (auto simp: conv_ok_def wf_bn_add bn_add_ids insert_valid_nodes_id[OF s'(1)])
      then show ?thesis
        using Some Inr s' q1 k1 by (auto simp: converge_entry_def Let_def bn_add_queried bn_add_ids insert_valid_nodes_id[OF s'(1)])
    qed
  qed
qed

lemma converge_round_ok:
  assumes "conv_ok U (bn, s)" and "answers_within ask U"
    and "\<forall>e \<in> set es. cache_get bn (nid (e_node e)) \<noteq> None \<and> wf_id (nid (e_node e)) \<and>
      e_dist e = xor_id (s_id s) (nid (e_node e))"
  shows "\<exists>bn' s'. converge_round now ask es (bn, s) = Inr (bn', s') \<and> conv_ok U (bn', s') \<and>
    queried_ids bn' = (\<lambda>e. nid (e_node e)) ` set es \<union> queried_ids bn"
  using assms(1,3)
proof (induction es arbitrary: bn s)
  case (Cons e es)
  obtain bn1 s1 where 1: "converge_entry now ask e (bn, s) = Inr (bn1, s1)" "conv_ok U (bn1, s1)" "s_id s1 = s_id s"
    "bn_ids bn \<subseteq> bn_ids bn1" "queried_ids bn1 = insert (nid (e_node e)) (queried_ids bn)"
    using converge_entry_ok[OF Cons.prems(1) assms(2), of e now] Cons.prems(2) by auto
  have "\<forall>x \<in> set es. cache_get bn1 (nid (e_node x)) \<noteq> None \<and> wf_id (nid (e_node x)) \<and>
      e_dist x = xor_id (s_id s1) (nid (e_node x))"
  proof (intro ballI conjI)
    fix x assume x: "x \<in> set es"
    then have "nid (e_node x) \<in> bn_ids bn" using Cons.prems(2) by (simp add: bn_ids_get)
    then have "nid (e_node x) \<in> bn_ids bn1" using 1(4) by blast
    then show "cache_get bn1 (nid (e_node x)) \<noteq> None" by (simp add: bn_ids_get)
  qed (use Cons.prems(2) 1(3) in auto)
  then show ?case using Cons.IH[OF 1(2)] 1 by auto
qed simp

lemma converge_table_ends:
  assumes "conv_ok U (bn, s)" and "answers_within ask U" and "finite U"
  shows "\<exists>bn' s'. converge_table now ask (bn, s) = Some (Inr (bn', s')) \<and> conv_ok U (bn', s') \<and>
    closest_unqueried bootstrap_k bootstrap_alpha bn' = []"
  using assms(1)
proof (induction "card (U - queried_ids bn)" arbitrary: bn s rule: less_induct)
  case less
  let ?es = "closest_unqueried bootstrap_k bootstrap_alpha bn"
  show ?case
  proof (cases "?es = []")
    case True
    then show ?thesis using less.prems by (simp add: converge_table.simps[of now ask "(bn, s)"])
  next
    case False
    have wf: "wf_bn (s_id s) bn" using less.prems by (simp add: conv_ok_def)
    have es: "\<forall>e \<in> set ?es. cache_get bn (nid (e_node e)) = Some e \<and> \<not> e_queried e \<and> wf_id (nid (e_node e))"
      using closest_unqueried_sound[OF wf] by blast
    have pre: "\<forall>e \<in> set ?es. cache_get bn (nid (e_node e)) \<noteq> None \<and> wf_id (nid (e_node e)) \<and>
        e_dist e = xor_id (s_id s) (nid (e_node e))"
      using es wf_bn_get[OF wf] by auto
    obtain bn' s' where r: "converge_round now ask ?es (bn, s) = Inr (bn', s')" "conv_ok U (bn', s')"
      "queried_ids bn' = (\<lambda>e. nid (e_node e)) ` set ?es \<union> queried_ids bn"
      using converge_round_ok[OF less.prems assms(2) pre, of now] by blast
    obtain e where e: "e \<in> set ?es" using False by (cases ?es) auto
    have "nid (e_node e) \<in> U" using es e less.prems by (auto simp: conv_ok_def bn_ids_get)
    moreover have "nid (e_node e) \<notin> queried_ids bn" using es e by (auto simp: queried_ids_def)
    moreover have "nid (e_node e) \<in> queried_ids bn'" "queried_ids bn \<subseteq> queried_ids bn'" using r(3) e by auto
    ultimately have "card (U - queried_ids bn') < card (U - queried_ids bn)"
      using assms(3) by (intro psubset_card_mono) auto
    then show ?thesis
      using less.hyps[OF _ r(2)] r(1) False by (simp add: converge_table.simps[of now ask "(bn, s)"])
  qed
qed

lemma closest_all_queried:
  assumes "closest_unqueried k alpha bn = []"
  shows "list_all e_queried (take k (sort_key e_dist (map snd (cache_items bn))))"
  using assms by (simp add: closest_unqueried_def Let_def pick_unqueried_Nil min_def split: if_splits)

text \<open>
  C24. Bootstrapping ends: in a network whose answers name finitely many nodes, the convergence
  loop returns (within as many rounds as there are nodes), without a panic, with a well-formed table;
  and then the 8 shortlisted nodes closest to our identifier have all been queried.
\<close>

theorem bootstrap_converges:
  assumes "wf_server s" and "wf_bn (s_id s) bn" and "bn_ids bn \<subseteq> U" and "finite U" and "answers_within ask U"
  shows "\<exists>bn' s'. converge_table now ask (bn, s) = Some (Inr (bn', s')) \<and> wf_server s' \<and>
    list_all e_queried (take bootstrap_k (sort_key e_dist (map snd (cache_items bn'))))"
proof -
  have "conv_ok U (bn, s)" using assms by (simp add: conv_ok_def)
  then obtain bn' s' where "converge_table now ask (bn, s) = Some (Inr (bn', s'))" "conv_ok U (bn', s')"
    "closest_unqueried bootstrap_k bootstrap_alpha bn' = []"
    using converge_table_ends[OF _ assms(5,4)] by blast
  then show ?thesis using closest_all_queried[of bootstrap_k bootstrap_alpha bn'] by (auto simp: conv_ok_def)
qed

definition sample_node :: node where
  "sample_node = \<lparr>nid = replicate 20 9, naddr = sample_addr, last_seen = 0, failures = 0\<rparr>"

theorem bootstrap_converges_witness:
  "\<exists>bn' s'. converge_table 5 (\<lambda>n. Some (empty_return\<lparr>ret_nodes := encode_nodes [sample_node]\<rparr>))
      (bn_add [sample_node] (s_id sample_server) new_bootstrap_nodes, sample_server) = Some (Inr (bn', s')) \<and> wf_server s' \<and>
    list_all e_queried (take bootstrap_k (sort_key e_dist (map snd (cache_items bn'))))"
proof (rule bootstrap_converges[where U = "{replicate 20 9}"])
  have dec: "decode_nodes (encode_nodes [sample_node]) = Inr (List.map_filter wire_node [sample_node])"
    by (rule decode_encode_nodes) (simp add: sample_node_def wf_id_def)
  show "answers_within (\<lambda>n. Some (empty_return\<lparr>ret_nodes := encode_nodes [sample_node]\<rparr>)) {replicate 20 9}"
    using dec by (auto simp: answers_within_def List.map_filter_simps wire_node_def sample_node_def sample_addr_def)
  have new: "wf_bn own new_bootstrap_nodes" "bn_ids new_bootstrap_nodes = {}" for own
    by (simp_all add: wf_bn_def new_bootstrap_nodes_def cache_new_def wf_cache_def bn_ids_def cache_keys_def map_keys_def)
  show "wf_bn (s_id sample_server) (bn_add [sample_node] (s_id sample_server) new_bootstrap_nodes)"
    by (rule wf_bn_add[OF new(1)]) (simp add: sample_node_def wf_id_def)
  show "bn_ids (bn_add [sample_node] (s_id sample_server) new_bootstrap_nodes) \<subseteq> {replicate 20 9}"
    unfolding bn_add_ids new(2) by (simp add: sample_node_def)
qed (simp_all add: sample_server_wf)

end
