(* ===== verification/Table_Refresh.thy ===== *)
theory Table_Refresh
  imports Bootstrap
begin

section \<open>Refreshing stale buckets\<close>

text \<open>
  Two properties of tables that every operation keeps are carried through every step of the server by one locale:
  that all nodes pass BEP-42, and that no bucket has been split down to a single identifier. By the second the refresh of
  stale buckets always finds a target in each of them.
\<close>

subsection \<open>Shallow tables\<close>

definition shallow :: "table \<Rightarrow> bool" where
  "shallow rt \<longleftrightarrow> 2 \<le> bucket_size rt \<and> list_all (\<lambda>b. depth b < 160) (buckets rt)"

lemma full_bucket_depth:
  assumes wf: "wf_table rt" and idx: "idx < length (buckets rt)" and k: "2 \<le> bucket_size rt"
    and full: "is_full (bucket_size rt) (buckets rt ! idx)"
    and i: "wf_id i" "contains (buckets rt ! idx) i" "\<not> has_id i (nodes (buckets rt ! idx))"
  shows "depth (buckets rt ! idx) < 159"
proof -
  let ?b = "buckets rt ! idx"
  have wfb: "wf_content (bucket_size rt) (own_id rt) ?b" "wf_range ?b"
    using wf_table_bucket[OF wf idx] by auto
  let ?xs = "i # map nid (nodes ?b)"
  have "\<forall>x \<in> set ?xs. wf_id x \<and> contains ?b x" using wfb(1) i by (auto simp: wf_content_def members_def)
  then have in_range: "\<forall>x \<in> set ?xs. wf_id x \<and> lo ?b \<le> be_val x \<and> be_val x < hi ?b"
    using wf_range_contains_iff[OF wfb(2)] by blast
  have "distinct ?xs" using wfb(1) i(3) by (simp add: wf_content_def members_def has_id_iff)
  then have "distinct (map be_val ?xs)"
    using in_range be_val_id_inject by (simp only: distinct_map inj_on_def) blast
  then have "length ?xs = card (set (map be_val ?xs))" using distinct_card[of "map be_val ?xs"] by simp
  also have "\<dots> \<le> card {lo ?b..<hi ?b}" using in_range by (intro card_mono) auto
  also have "\<dots> = 2 ^ (160 - depth ?b)" using wfb(2) by (simp add: wf_range_def)
  finally have "3 \<le> (2::nat) ^ (160 - depth ?b)" using full k by (simp add: is_full_def)
  moreover have "160 - depth ?b \<le> 1 \<Longrightarrow> (2::nat) ^ (160 - depth ?b) \<le> 2 ^ 1" by (intro power_increasing) simp_all
  ultimately show ?thesis by (cases "160 - depth ?b \<le> 1") simp_all
qed

lemma shallow_put: "shallow rt \<Longrightarrow> depth b < 160 \<Longrightarrow> shallow (put_bucket idx b rt)"
  using set_update_subset_insert[of "buckets rt" idx b] by (auto simp: shallow_def put_bucket_def list_all_iff)

lemma shallow_bucket: "shallow rt \<Longrightarrow> idx < length (buckets rt) \<Longrightarrow> depth (buckets rt ! idx) < 160"
  by (simp add: shallow_def list_all_length)

lemma insert_node_shallow:
  "wf_table rt \<Longrightarrow> wf_id (nid n) \<Longrightarrow> shallow rt \<Longrightarrow> insert_node now n rt = Inr (res, rt', ps) \<Longrightarrow> shallow rt'"
proof (induction now n rt rule: insert_node.induct)
  case (1 now n rt)
  define idx where "idx = bucket_for rt (nid n)"
  define b where "b = buckets rt ! idx"
  note wf = "1.prems"(1) and i = "1.prems"(2) and sh = "1.prems"(3)
  have t: "tiles 0 (buckets rt) keyspace" using wf by (simp add: wf_table_def)
  have len: "idx < length (buckets rt)" and c: "contains b (nid n)"
    using bucket_for_spec[OF t i] by (auto simp: idx_def b_def)
  note step = insert_node.simps[of now n rt, unfolded Let_def, folded idx_def, folded b_def]
  have d: "depth b < 160" using shallow_bucket[OF sh len] by (simp add: b_def)
  show ?case
  proof (cases "\<not> has_id (nid n) (nodes b) \<and> is_full (bucket_size rt) b \<and> contains b (own_id rt)")
    case True
    obtain l r where lr: "split_bucket now b = Inr (l, r)"
      using split_bucket_spec[OF wf_table_bucket(2)[OF wf len], of now] d by (auto simp: b_def)
    let ?rt = "rt\<lparr>buckets := bucket_slice_replace (buckets rt) idx l r\<rparr>"
    have "depth b < 159"
      using full_bucket_depth[OF wf len _ _ i] True c sh by (simp add: b_def shallow_def)
    then have "shallow ?rt"
      using sh split_bucket_depth[OF lr]
      by (auto simp: shallow_def bucket_slice_replace_def list_all_iff dest: in_set_takeD in_set_dropD)
    moreover have "wf_table ?rt" by (rule wf_split(1)[OF wf len b_def _ lr]) (use True in simp)
    moreover have "insert_node now n ?rt = Inr (res, rt', ps)" using "1.prems"(4) len True lr by (simp add: step)
    ultimately show ?thesis using "1.IH"[OF idx_def _ b_def _ _ _ lr refl] len True i by simp
  next
    case False
    then show ?thesis using "1.prems"(4) len sh d
      by (auto simp: step intro!: shallow_put split: if_splits)
  qed
qed

lemma shallow_step:
  assumes "wf_table rt" and "shallow rt" and "bep42_op a"
  shows "shallow (table_step a rt)"
proof (cases a)
  case (Insert_Valid now n)
  then show ?thesis
    using assms insert_node_correct[of rt n now] insert_node_shallow[OF assms(1) _ assms(2), of n now]
    by (auto simp: insert_valid_node_def split: sum.split)
next
  case (Success now i)
  then have "bucket_for rt i < length (buckets rt)" using assms bucket_for_spec(1) by (simp add: wf_table_def)
  from shallow_bucket[OF assms(2) this] show ?thesis
    using assms(2) by (auto simp: Success mark_success_def Let_def intro!: shallow_put)
next
  case (Failure now i)
  then have "bucket_for rt i < length (buckets rt)" using assms bucket_for_spec(1) by (simp add: wf_table_def)
  from shallow_bucket[OF assms(2) this] show ?thesis
    using assms(2)
    by (auto simp: Failure mark_failure_def Let_def intro!: shallow_put split: option.split list.split)
qed (use assms in simp)

lemma new_table_shallow: "2 \<le> k \<Longrightarrow> shallow (new_routing_table i k bad stale pinger now)"
  by (simp add: shallow_def new_routing_table_def)

subsection \<open>Properties of the table under the steps of the server\<close>

definition table_has :: "(table \<Rightarrow> bool) \<Rightarrow> ('b, 'l) server \<Rightarrow> bool" where
  "table_has P s \<longleftrightarrow> P (s_table s)"

lemma table_has_frame: "s_table s' = s_table s \<Longrightarrow> table_has P s' = table_has P s"
  by (simp add: table_has_def)

lemma table_has_update [simp]: "table_has P (s\<lparr>s_table := rt, s_spawned := ps\<rparr>) = P rt"
  by (simp add: table_has_def)

lemma reply_table: "s_table (respond_error a t c x s) = s_table s" "s_table (emit e s) = s_table s"
  by (simp_all add: respond_error_def emit_def split: option.split)

lemma handlers_table:
  "s_table (handle_ping a m s) = s_table s" "s_table (handle_find_node a m s) = s_table s"
  "s_table (handle_get_peers now a m s) = s_table s" "s_table (handle_announce_peer lib now a m s) = s_table s"
  "s_table (handle_sample_infohashes now rnd a m s) = s_table s"
  by (auto simp: handle_ping_def handle_find_node_def handle_get_peers_def handle_announce_peer_def handle_sample_infohashes_def
      reply_table Let_def split: option.split sum.split prod.split)

locale table_law =
  fixes P :: "table \<Rightarrow> bool"
  assumes law: "wf_table rt \<Longrightarrow> P rt \<Longrightarrow> bep42_op a \<Longrightarrow> P (table_step a rt)"
begin

lemma inserted: "wf_table rt \<Longrightarrow> P rt \<Longrightarrow> wf_id (nid n) \<Longrightarrow> insert_valid_node now n rt = Inr (res, rt', ps) \<Longrightarrow> P rt'"
  using law[of rt "Insert_Valid now n"] by simp

lemma see_node_law:
  "wf_server s \<Longrightarrow> table_has P s \<Longrightarrow> wf_id i \<Longrightarrow> see_node now i a s = Inr s' \<Longrightarrow> table_has P s'"
  using inserted[of "s_table s" "\<lparr>nid = i, naddr = a, last_seen = now, failures = 0\<rparr>" now]
  by (auto simp: see_node_def table_has_def wf_server_def split: sum.splits prod.splits)

lemma insert_valid_nodes_law:
  "wf_server s \<Longrightarrow> table_has P s \<Longrightarrow> list_all (\<lambda>n. wf_id (nid n)) ns \<Longrightarrow> insert_valid_nodes now ns s = Inr s' \<Longrightarrow>
     table_has P s'"
proof (induction now ns s rule: insert_valid_nodes.induct)
  case (2 now n ns s)
  obtain res rt ps where ins: "insert_valid_node now n (s_table s) = Inr (res, rt, ps)"
    and rt: "wf_table rt" "list_all (\<lambda>(a, i). wf_id i) ps"
    using insert_valid_node_wf[of "s_table s" n now] 2 by (auto simp: wf_server_def)
  have "P rt" using inserted[OF _ _ _ ins] 2 by (simp add: wf_server_def table_has_def)
  with 2 ins rt show ?case by (simp add: wf_server_def)
qed simp

lemma mark_failures_law:
  "wf_table rt \<Longrightarrow> P rt \<Longrightarrow> list_all wf_id is \<Longrightarrow> P (fold (mark_failure now) is rt)"
proof (induction "is" arbitrary: rt)
  case (Cons i "is")
  with law[of rt "Failure now i"] have "P (mark_failure now i rt)" by simp
  with Cons show ?case by (simp add: mark_failure_correct)
qed simp

lemma process_query_law:
  assumes "wf_server s" and "table_has P s" and "process_query lib now rnd inm s = Inr s'"
  shows "table_has P s'"
proof -
  obtain ok lim where l: "limiter_allow (lim_fresh lib) (lim_allow lib) now (ip (fst inm)) (s_limiter s) = (ok, lim)" by force
  have w: "wf_server (s\<lparr>s_limiter := lim\<rparr>)"
    using assms(1) limiter_step_wf[of "s_limiter s" "lim_fresh lib" "lim_allow lib" "Allow now (ip (fst inm))"] l
    by (simp add: wf_server_def)
  have n: "table_has P (s\<lparr>s_limiter := lim\<rparr>)" using assms(2) by (simp add: table_has_def)
  have seen: "table_has P s1" if "process_node_seen now inm (s\<lparr>s_limiter := lim\<rparr>) = Inr s1" for s1
    using that n see_node_law[OF w n]
    by (auto simp: process_node_seen_def wf_id_def split: option.splits sum.splits)
  show ?thesis
    using assms(3) l n
    by (auto simp: process_query_def Let_def table_has_def handlers_table dest: seen[unfolded table_has_def]
        split: if_splits sum.splits)
qed

lemma route_message_law:
  assumes "wf_server s" and "table_has P s" and "route_message now a mo s = Inr s'"
  shows "table_has P s'"
proof (cases mo)
  case (Some m)
  obtain tm where tm: "txn_complete (m_t m) (Some m) (s_txns s) = Inr tm" "wf_txns tm"
    using txn_complete_wf[of "s_txns s" "m_t m" "Some m"] assms(1) by (auto simp: wf_server_def)
  then have w: "wf_server (s\<lparr>s_txns := tm\<rparr>)" "table_has P (s\<lparr>s_txns := tm\<rparr>)"
    using assms by (simp_all add: wf_server_def table_has_def)
  from see_node_law[OF w] tm assms Some w show ?thesis
    by (auto simp: route_message_def update_table_from_response_def wf_id_def Let_def table_has_def
        split: option.splits sum.splits if_splits)
qed (use assms in \<open>simp add: route_message_def\<close>)

lemma sweep_step_law:
  assumes "wf_server s" and "table_has P s" and "sweep_step now s = Inr s'"
  shows "table_has P s'"
proof -
  have wf: "wf_txns (s_txns s)" "wf_table (s_table s)" using assms(1) by (simp_all add: wf_server_def)
  from sweep_correct_lemma[OF wf(1), of now] obtain tm failed released
    where sw: "txn_sweep now (s_txns s) = Inr (tm, failed, released)"
      and f: "mset failed = image_mset (\<lambda>(k, t). t_node t) {#(k, t) \<in># mset (entries (txns (s_txns s))). expired now (timeout (s_txns s)) t#}"
    by blast
  have "list_all wf_id failed"
    using arg_cong[OF f, of set_mset] wf(1) by (auto simp: wf_txns_def wf_txn_def list_all_iff)
  then have "list_all wf_id (rev failed)" by (simp add: list_all_iff)
  with mark_failures_law[OF wf(2)] assms(2,3) sw show ?thesis by (auto simp: sweep_step_def table_has_def)
qed

lemma server_step_law:
  assumes "wf_server s" and "table_has P s" and "event_ok e" and "server_step lib e s = Inr s'"
  shows "table_has P s'"
proof (cases e)
  case (Handle now rnd)
  show ?thesis
  proof (cases "queued (s_handlers s)")
    case (Cons inm rest)
    let ?s = "s\<lparr>s_handlers := (s_handlers s)\<lparr>queued := rest\<rparr>\<rparr>"
    have "wf_server ?s" "table_has P ?s" using assms(1,2) Cons by (simp_all add: wf_server_def wf_chan_def table_has_def)
    with process_query_law[of ?s lib now rnd inm s'] assms(4) show ?thesis
      by (simp add: Handle query_handler_step_def Cons)
  qed (use assms in \<open>simp add: Handle query_handler_step_def\<close>)
next
  case (Alive now i)
  with assms law[of "s_table s" "Success now i"] show ?thesis by (auto simp: wf_server_def table_has_def)
next
  case (Dead now i)
  with assms law[of "s_table s" "Failure now i"] show ?thesis by (auto simp: wf_server_def table_has_def)
next
  case (Learn now r)
  with assms show ?thesis
    by (auto simp: insert_nodes_from_find_node_def dest: decode_nodes_wf intro: insert_valid_nodes_law split: sum.splits)
next
  case (Read now d a)
  with assms route_message_law[OF assms(1,2)] show ?thesis by (auto simp: read_step_def split: option.splits)
next
  case (Sweep now)
  with assms sweep_step_law show ?thesis by simp
qed (use assms in \<open>auto simp: table_has_def spawned_step_def ping_node_def send_def write_step_def emit_def Let_def
  split: list.splits option.splits prod.splits\<close>)

lemma run_server_law:
  assumes "wf_server s" and "table_has P s" and "list_all event_ok es" and "run_server lib es s = Inr s'"
  shows "table_has P s' \<and> wf_server s'"
  using assms
proof (induction es arbitrary: s)
  case (Cons e es)
  have stuck: "fold (bind_step lib) es (Inl p) = Inl p" for es p by (induction es) (simp_all add: bind_step_def)
  obtain s1 where s1: "server_step lib e s = Inr s1"
    using Cons.prems(4) by (cases "server_step lib e s") (auto simp: run_server_def bind_step_def stuck)
  then have "wf_server s1" using server_step_outcome[OF Cons.prems(1) _ s1] Cons.prems(3) by auto
  with server_step_law[OF Cons.prems(1,2) _ s1] Cons s1 show ?case by (simp add: run_server_def bind_step_def)
qed (simp add: run_server_def)

end

interpretation bep42_law: table_law "\<lambda>rt. \<forall>x \<in> set (all_nodes rt). bep42_ok x"
  by unfold_locales (use bep42_step in blast)

interpretation shallow_law: table_law shallow
  by unfold_locales (rule shallow_step)

subsection \<open>Refresh queries\<close>

lemma closest_subset: "set (closest rt target k) \<subseteq> set (all_nodes rt)"
  by (auto simp: closest_def closest_candidates_def all_nodes_def members_def Let_def dest!: in_set_takeD)

definition aimed :: "table \<Rightarrow> bucket list \<Rightarrow> (node \<times> node_id) list \<Rightarrow> bool" where
  "aimed rt bs qs \<longleftrightarrow> (\<forall>(n, t) \<in> set qs. n \<in> set (all_nodes rt) \<and> wf_id t \<and> (\<exists>b \<in> set bs. contains b t))"

lemma target_in_bucket:
  assumes "wf_table rt" and "shallow rt" and "b \<in> set (buckets rt)" and "length fresh = 20"
  shows "\<exists>t. get_random_node_id b fresh = Inr t \<and> wf_id t \<and> contains b t"
proof -
  from assms(3) obtain idx where "idx < length (buckets rt)" "b = buckets rt ! idx" by (auto simp: in_set_conv_nth)
  with wf_table_bucket(2)[OF assms(1)] shallow_bucket[OF assms(2)] random_node_id_in_bucket_lemma[of b fresh] assms(4)
  show ?thesis by simp
qed

lemma refresh_stale_loop_ok:
  assumes "wf_table rt" and "shallow rt" and "\<forall>i. length (draw i) = 20"
  shows "set bs \<subseteq> set (buckets rt) \<Longrightarrow> \<exists>qs. refresh_stale_loop rt k draw i bs = Inr qs \<and> aimed rt bs qs"
proof (induction bs arbitrary: i)
  case (Cons b bs)
  obtain t where t: "get_random_node_id b (draw i) = Inr t" "wf_id t" "contains b t"
    using target_in_bucket[OF assms(1,2), of b "draw i"] assms(3) Cons.prems by auto
  obtain qs where "refresh_stale_loop rt k draw (i + 1) bs = Inr qs" "aimed rt bs qs"
    using Cons by auto
  with t closest_subset[of rt t k] show ?case by (auto simp: aimed_def)
qed (simp add: aimed_def)

lemma refresh_nodes_new:
  assumes "refresh_nodes t ns queried = (qs, queried')" and "set ns \<subseteq> set (all_nodes rt)" and "wf_id t" and "contains b t"
  shows "aimed rt [b] qs \<and> distinct (map (nid \<circ> fst) qs) \<and> (nid \<circ> fst) ` set qs \<inter> set queried = {} \<and>
    set queried' = set queried \<union> (nid \<circ> fst) ` set qs"
  using assms(1,2)
proof (induction ns arbitrary: queried qs)
  case (Cons n ns)
  show ?case
  proof (cases "nid n \<in> set queried")
    case False
    obtain qs1 where r: "refresh_nodes t ns (queried @ [nid n]) = (qs1, queried')" and qs: "qs = (n, t) # qs1"
      using Cons.prems(1) False by (auto split: prod.splits)
    from Cons.IH[OF r] Cons.prems(2) False show ?thesis by (auto simp: qs aimed_def assms(3,4))
  qed (use Cons in simp)
qed (simp add: aimed_def)

lemma bucket_refresh_loop_ok:
  assumes "wf_table rt" and "shallow rt" and "\<forall>i. length (draw i) = 20"
  shows "set bs \<subseteq> set (buckets rt) \<Longrightarrow> \<exists>qs. bucket_refresh_loop rt k draw i bs queried = Inr qs \<and> aimed rt bs qs \<and>
    distinct (map (nid \<circ> fst) qs) \<and> (nid \<circ> fst) ` set qs \<inter> set queried = {}"
proof (induction bs arbitrary: i queried)
  case (Cons b bs)
  obtain t where t: "get_random_node_id b (draw i) = Inr t" "wf_id t" "contains b t"
    using target_in_bucket[OF assms(1,2), of b "draw i"] assms(3) Cons.prems by auto
  obtain qs1 queried1 where r: "refresh_nodes t (closest rt t k) queried = (qs1, queried1)" by force
  note new = refresh_nodes_new[OF r closest_subset t(2,3)]
  obtain qs2 where "bucket_refresh_loop rt k draw (i + 1) bs queried1 = Inr qs2" "aimed rt bs qs2"
    "distinct (map (nid \<circ> fst) qs2)" "(nid \<circ> fst) ` set qs2 \<inter> set queried1 = {}"
    using Cons.IH[of "i + 1" queried1] Cons.prems by (auto simp: comp_def)
  with new t r show ?case by (auto simp: aimed_def comp_def)
qed (simp add: aimed_def)

text \<open>
  Refreshing never panics: from a new server with buckets of two nodes or more, after any run, both the refresh of the
  bootstrap and the periodic one find a target in every stale bucket; they ask nodes of the table for targets inside
  the stale buckets, and the periodic one asks no node twice.
\<close>

theorem refresh_never_panics:
  assumes "new_server cfg ext disc dedup t0 r fresh x y = Inr s" and "length fresh = 20"
    and "2 \<le> c_bucket_size cfg" and "0 < c_store_peers cfg" and "wf_chan disc"
    and "list_all event_ok es" and "run_server lib es s = Inr s'" and "\<forall>i. length (draw i) = 20"
  shows "\<exists>qs rs. refresh_stale_buckets now draw s' = Inr qs \<and> bucket_refresh_tick now draw s' = Inr rs \<and>
    aimed (s_table s') (stale_buckets now (s_table s')) (qs @ rs) \<and> distinct (map (nid \<circ> fst) rs)"
proof -
  have wf: "wf_server s" using new_server_wf[OF assms(1,2)] assms(3-5) by simp
  have "table_has shallow s"
    using assms(1,3) by (auto simp: new_server_def table_has_def new_table_shallow split: sum.splits)
  from shallow_law.run_server_law[OF wf this assms(6,7)]
  have t: "wf_table (s_table s')" "shallow (s_table s')" by (simp_all add: table_has_def wf_server_def)
  have sub: "set (stale_buckets now (s_table s')) \<subseteq> set (buckets (s_table s'))" by (auto simp: stale_buckets_def)
  obtain qs where "refresh_stale_buckets now draw s' = Inr qs" "aimed (s_table s') (stale_buckets now (s_table s')) qs"
    using refresh_stale_loop_ok[OF t assms(8) sub] by (auto simp: refresh_stale_buckets_def)
  moreover obtain rs where "bucket_refresh_tick now draw s' = Inr rs"
    "aimed (s_table s') (stale_buckets now (s_table s')) rs" "distinct (map (nid \<circ> fst) rs)"
    using bucket_refresh_loop_ok[OF t assms(8) sub, of _ 0 "[]"] by (auto simp: bucket_refresh_tick_def)
  ultimately show ?thesis by (auto simp: aimed_def)
qed

theorem refresh_never_panics_witness:
  "\<exists>qs rs. refresh_stale_buckets (10 * hour) (\<lambda>i. replicate 20 7) sample_server = Inr qs \<and>
    bucket_refresh_tick (10 * hour) (\<lambda>i. replicate 20 7) sample_server = Inr rs \<and>
    aimed (s_table sample_server) (stale_buckets (10 * hour) (s_table sample_server)) (qs @ rs) \<and>
    distinct (map (nid \<circ> fst) rs)"
  by (rule refresh_never_panics[OF sample_server_new, where es = "[]" and lib = sample_libs])
    (simp_all add: sample_config_def run_server_def)

end
