(* ===== verification/Server_Start.thy ===== *)
theory Server_Start
  imports Table_Refresh
begin

section \<open>Starting the server (\<^verbatim>\<open>Start\<close> and \<^verbatim>\<open>pingNodes\<close> of \<^verbatim>\<open>dht/server/server.go\<close>)\<close>

text \<open>
  \<^verbatim>\<open>Start\<close> fills the table before it returns: it pings the nodes it has, and bootstraps when too few of them answer. The
  goroutines it starts before are the steps of \<open>Server_Safety\<close>. The network is given by functions: \<open>pong\<close> answers the
  pings, \<open>seed\<close> the queries to the seeds, \<open>ask\<close> those of the convergence loop.
\<close>

definition ping_nodes :: "(node \<Rightarrow> send_error + msg) \<Rightarrow> node list \<Rightarrow> nat" where
  "ping_nodes pong ns = length (filter (\<lambda>n. case pong n of Inl e \<Rightarrow> False | Inr m \<Rightarrow> m_r m \<noteq> None) ns)"

datatype start_error = No_Nodes

text \<open>The result also has the find-node queries that the refresh of stale buckets sends off.\<close>

definition server_start ::
    "(string list \<Rightarrow> addr list) \<Rightarrow> (addr \<Rightarrow> send_error + msg) \<Rightarrow> (node \<Rightarrow> send_error + msg) \<Rightarrow> (node \<Rightarrow> return option) \<Rightarrow>
     (nat \<Rightarrow> byte list) \<Rightarrow> instant \<Rightarrow> string list \<Rightarrow> ('b, 'l) server \<Rightarrow>
     (start_error + (node \<times> node_id) list \<times> ('b, 'l) server) outcome option" where
  "server_start resolve seed pong ask draw now bootstrap_nodes s =
     (if bootstrap_nodes = [] then Some (Inr (Inr ([], s)))
      else case (if warm_restart (ping_nodes pong (warm_restart_nodes s)) s
                 then Some (map_sum id (\<lambda>qs. (qs, s)) (refresh_stale_buckets now draw s))
                 else bootstrap now (map (\<lambda>a. (a, seed a)) (resolve bootstrap_nodes)) ask draw s) of
        None \<Rightarrow> None
      | Some (Inl p) \<Rightarrow> Some (Inl p)
      | Some (Inr (qs, s')) \<Rightarrow>
          Some (Inr (if node_count (s_table s') = 0 then Inl No_Nodes else Inr (qs, s'))))"

subsection \<open>Properties of the table during the bootstrap\<close>

context table_law
begin

definition keeps :: "('b, 'l) server \<Rightarrow> bool" where
  "keeps s \<longleftrightarrow> wf_server s \<and> table_has P s"

lemma insert_valid_nodes_keeps:
  "keeps s \<Longrightarrow> list_all (\<lambda>n. wf_id (nid n)) ns \<Longrightarrow> insert_valid_nodes now ns s = Inr s' \<Longrightarrow> keeps s'"
  using insert_valid_nodes_wf[of s ns now] insert_valid_nodes_law[of s ns now s'] by (auto simp: keeps_def)

lemma converge_entry_keeps: "converge_entry now ask e (bn, s) = Inr (bn', s') \<Longrightarrow> keeps s \<Longrightarrow> keeps s'"
  by (auto simp: converge_entry_def Let_def dest: insert_valid_nodes_keeps decode_nodes_wf split: option.splits sum.splits)

lemma converge_round_keeps: "converge_round now ask es st = Inr st' \<Longrightarrow> keeps (snd st) \<Longrightarrow> keeps (snd st')"
proof (induction es arbitrary: st)
  case (Cons e es)
  then obtain st1 where 1: "converge_entry now ask e st = Inr st1" "converge_round now ask es st1 = Inr st'"
    by (auto split: sum.splits)
  then have "keeps (snd st1)" using converge_entry_keeps[of now ask e "fst st" "snd st"] Cons.prems(2) by (cases st1) auto
  with Cons.IH[OF 1(2)] show ?case .
qed simp

lemma converge_table_keeps:
  fixes st :: "bootstrap_nodes \<times> ('b, 'l) server"
  assumes "converge_table now ask st = Some out"
  shows "keeps (snd st) \<longrightarrow> (\<forall>st'. out = Inr st' \<longrightarrow> keeps (snd st'))"
proof (rule converge_table.raw_induct[OF _ assms, where P = "\<lambda>now ask st out. keeps (snd st) \<longrightarrow> (\<forall>st'. out = Inr st' \<longrightarrow> keeps (snd st'))"])
  fix go :: "instant \<Rightarrow> (node \<Rightarrow> return option) \<Rightarrow> bootstrap_nodes \<times> ('b, 'l) server \<Rightarrow>
      (bootstrap_nodes \<times> ('b, 'l) server) outcome option"
    and now :: instant and ask :: "node \<Rightarrow> return option" and st :: "bootstrap_nodes \<times> ('b, 'l) server" and out
  assume IH: "\<And>now ask st out. go now ask st = Some out \<Longrightarrow> keeps (snd st) \<longrightarrow> (\<forall>st'. out = Inr st' \<longrightarrow> keeps (snd st'))"
    and body: "(if closest_unqueried bootstrap_k bootstrap_alpha (fst st) = [] then Some (Inr st)
      else case converge_round now ask (closest_unqueried bootstrap_k bootstrap_alpha (fst st)) st of
        Inl p \<Rightarrow> Some (Inl p) | Inr st' \<Rightarrow> go now ask st') = Some out"
  from body IH show "keeps (snd st) \<longrightarrow> (\<forall>st'. out = Inr st' \<longrightarrow> keeps (snd st'))"
    by (auto split: if_splits sum.splits dest: converge_round_keeps)
qed

lemma seeds_loop_keeps:
  "seeds_loop now rs bn s = Inr (bn', s') \<Longrightarrow> list_all (\<lambda>r. list_all (\<lambda>n. wf_id (nid n)) (sr_nodes r)) rs \<Longrightarrow> keeps s \<Longrightarrow> keeps s'"
proof (induction now rs bn s rule: seeds_loop.induct)
  case (2 now r rs bn s)
  then show ?case by (auto split: if_splits sum.splits dest: insert_valid_nodes_keeps)
qed simp

end

subsection \<open>The outcome of a start\<close>

lemma refresh_stale_buckets_ok:
  assumes "wf_table (s_table s)" and "shallow (s_table s)" and "\<forall>i. length (draw i) = 20"
  shows "\<exists>qs. refresh_stale_buckets now draw s = Inr qs"
  using refresh_stale_loop_ok[OF assms, of "stale_buckets now (s_table s)" "s_bucket_size s" 0]
  by (auto simp: refresh_stale_buckets_def stale_buckets_def)

lemma seed_reply_nodes: "list_all (\<lambda>n. wf_id (nid n)) (sr_nodes (seed_reply a r))"
  by (auto simp: seed_reply_def dest: decode_nodes_wf split: sum.split option.split)

text \<open>The nodes that the replies of the seeds name.\<close>

definition seeds_within :: "(addr \<Rightarrow> send_error + msg) \<Rightarrow> addr list \<Rightarrow> node_id set \<Rightarrow> bool" where
  "seeds_within seed addrs U \<longleftrightarrow> (\<forall>a \<in> set addrs. nid ` set (sr_nodes (seed_reply a (seed a))) \<subseteq> U)"

lemma seeds_loop_ok:
  assumes "conv_ok U (bn, s)" and "\<forall>r \<in> set rs. list_all (\<lambda>n. wf_id (nid n)) (sr_nodes r) \<and> nid ` set (sr_nodes r) \<subseteq> U"
  shows "\<exists>st. seeds_loop now rs bn s = Inr st \<and> conv_ok U st"
  using assms
proof (induction now rs bn s rule: seeds_loop.induct)
  case (2 now r rs bn s)
  show ?case
  proof (cases "sr_err r")
    case False
    obtain s1 where s1: "insert_valid_nodes now (sr_nodes r) s = Inr s1" "wf_server s1"
      using insert_valid_nodes_wf[of s "sr_nodes r" now] 2 by (auto simp: conv_ok_def)
    have "conv_ok U (bn_add (sr_nodes r) (s_id s1) bn, s1)"
      using 2 s1 by (auto simp: conv_ok_def bn_add_ids insert_valid_nodes_id[OF s1(1)] intro!: wf_bn_add)
    from "2.IH"(2)[OF False s1(1) this] "2.prems"(2) False s1 show ?thesis by simp
  qed (use 2 in simp)
qed simp

lemma new_shortlist_ok: "wf_server s \<Longrightarrow> conv_ok U (new_bootstrap_nodes, s)"
  by (simp add: conv_ok_def wf_bn_def new_bootstrap_nodes_def cache_new_def wf_cache_def bn_ids_def cache_keys_def map_keys_def)

lemma bootstrap_ok:
  assumes "wf_server s" and "table_has shallow s" and "finite U" and "answers_within ask U"
    and "seeds_within seed addrs U" and "\<forall>i. length (draw i) = 20"
  shows "\<exists>qs s'. bootstrap now (map (\<lambda>a. (a, seed a)) addrs) ask draw s = Some (Inr (qs, s')) \<and>
    wf_server s' \<and> table_has shallow s'"
proof -
  let ?rs = "map (\<lambda>a. seed_reply a (seed a)) addrs"
  have rs: "\<forall>r \<in> set ?rs. list_all (\<lambda>n. wf_id (nid n)) (sr_nodes r) \<and> nid ` set (sr_nodes r) \<subseteq> U"
    using assms(5) seed_reply_nodes by (auto simp: seeds_within_def)
  obtain bn1 s1 where 1: "seeds_loop now ?rs new_bootstrap_nodes s = Inr (bn1, s1)" "conv_ok U (bn1, s1)"
    using seeds_loop_ok[OF new_shortlist_ok[OF assms(1)] rs] by force
  have "shallow_law.keeps s1"
    using shallow_law.seeds_loop_keeps[OF 1(1)] rs assms(1,2) by (simp add: shallow_law.keeps_def list_all_iff)
  obtain bn2 s2 where 2: "converge_table now ask (bn1, s1) = Some (Inr (bn2, s2))"
    using converge_table_ends[OF 1(2) assms(4,3), of now] by blast
  have k: "shallow_law.keeps s2"
    using shallow_law.converge_table_keeps[OF 2] \<open>shallow_law.keeps s1\<close> by simp
  then have "wf_table (s_table s2)" "shallow (s_table s2)" by (simp_all add: shallow_law.keeps_def table_has_def wf_server_def)
  then obtain qs where "refresh_stale_buckets now draw s2 = Inr qs"
    using refresh_stale_buckets_ok assms(6) by blast
  with 1 2 k show ?thesis
    by (simp add: bootstrap_def query_seeds_def comp_def shallow_law.keeps_def)
qed

text \<open>
  C8. Starting the server ends without a panic in a network that names finitely many nodes, whatever steps the
  goroutines took before; the server is well formed afterwards, and either it has no bootstrap nodes configured, or its
  table has a node, or the start has failed.
\<close>

theorem server_start_outcome:
  assumes "new_server cfg ext disc dedup t0 r fresh x y = Inr s0" and "length fresh = 20"
    and "2 \<le> c_bucket_size cfg" and "0 < c_store_peers cfg" and "wf_chan disc"
    and "list_all event_ok es" and "run_server lib es s0 = Inr s"
    and "finite U" and "answers_within ask U" and "seeds_within seed (resolve boot) U" and "\<forall>i. length (draw i) = 20"
  shows "\<exists>out. server_start resolve seed pong ask draw now boot s = Some (Inr out) \<and>
    (case out of Inl e \<Rightarrow> boot \<noteq> [] | Inr (qs, s') \<Rightarrow> wf_server s' \<and> (boot = [] \<or> node_count (s_table s') \<noteq> 0))"
proof -
  have wf0: "wf_server s0" using new_server_wf[OF assms(1,2)] assms(3-5) by simp
  have "table_has shallow s0"
    using assms(1,3) by (auto simp: new_server_def table_has_def new_table_shallow split: sum.splits)
  from shallow_law.run_server_law[OF wf0 this assms(6,7)] have s: "wf_server s" "table_has shallow s" by simp_all
  then have "wf_table (s_table s)" "shallow (s_table s)" by (simp_all add: table_has_def wf_server_def)
  then obtain qs where "refresh_stale_buckets now draw s = Inr qs"
    using refresh_stale_buckets_ok assms(11) by blast
  with bootstrap_ok[OF s assms(8-11), of now] s show ?thesis by (auto simp: server_start_def)
qed

text \<open>
  A server that no peer has found yet fails to start when none of its bootstrap nodes answers: the table of a new
  server is empty, so there is nothing a warm restart could ping.
\<close>

theorem lonely_start_fails:
  assumes "new_server cfg ext disc dedup t0 r fresh x y = Inr s" and "length fresh = 20"
    and "2 \<le> c_bucket_size cfg" and "0 < c_store_peers cfg" and "wf_chan disc"
    and "boot \<noteq> []" and "\<forall>a \<in> set (resolve boot). \<exists>e. seed a = Inl e" and "\<forall>i. length (draw i) = 20"
  shows "server_start resolve seed pong ask draw now boot s = Some (Inr (Inl No_Nodes))"
proof -
  have empty: "node_count (s_table s) = 0"
    using assms(1) by (auto simp: new_server_def node_count_def new_routing_table_def split: sum.splits)
  have wf: "wf_server s" using new_server_wf[OF assms(1,2)] assms(3-5) by simp
  have sh: "shallow (s_table s)" using assms(1,3) by (auto simp: new_server_def new_table_shallow split: sum.splits)
  have loop: "seeds_loop now (map (\<lambda>a. seed_reply a (seed a)) as) bn s = Inr (bn, s)"
    if "\<forall>a \<in> set as. \<exists>e. seed a = Inl e" for as bn
    using that by (induction as) (auto simp: seed_reply_def)
  have none: "closest_unqueried bootstrap_k bootstrap_alpha new_bootstrap_nodes = []"
    by (simp add: closest_unqueried_def new_bootstrap_nodes_def cache_new_def cache_items_def)
  obtain qs where "refresh_stale_buckets now draw s = Inr qs"
    using refresh_stale_buckets_ok[OF _ sh assms(8)] wf by (auto simp: wf_server_def)
  with loop[OF assms(7)] none empty assms(6) show ?thesis
    by (simp add: server_start_def warm_restart_def bootstrap_def query_seeds_def comp_def
        converge_table.simps[of now ask "(new_bootstrap_nodes, s)"])
qed

theorem server_start_outcome_witness:
  "\<exists>out. server_start (\<lambda>b. [sample_addr]) (\<lambda>a. Inl Txn_Timeout) (\<lambda>n. Inl Txn_Timeout) (\<lambda>n. None) (\<lambda>i. replicate 20 7) 5
      [''router:6881''] sample_server = Some (Inr out) \<and>
    (case out of Inl e \<Rightarrow> [''router:6881''] \<noteq> [] | Inr (qs, s') \<Rightarrow> wf_server s' \<and> ([''router:6881''] = [] \<or> node_count (s_table s') \<noteq> 0))"
  by (rule server_start_outcome[OF sample_server_new, where es = "[]" and lib = sample_libs and U = "{}"])
    (simp_all add: sample_config_def run_server_def answers_within_def seeds_within_def seed_reply_def)

theorem lonely_start_fails_witness:
  "server_start (\<lambda>b. [sample_addr]) (\<lambda>a. Inl Txn_Timeout) (\<lambda>n. Inl Txn_Timeout) (\<lambda>n. None) (\<lambda>i. replicate 20 7) 5
      [''router:6881''] sample_server = Some (Inr (Inl No_Nodes))"
  by (rule lonely_start_fails[OF sample_server_new]) (simp_all add: sample_config_def)

end
