(* ===== verification/Float64.thy ===== *)
theory Float64
  imports Complex_Main Go_Prelude
begin

section \<open>Double-precision arithmetic\<close>

text \<open>
  The \<^verbatim>\<open>float64\<close> operations of the crawler's ordering: every operation is exact and then rounded to
  53 significant bits, ties to even. Neither overflow nor subnormal results can occur for the values
  the code computes (below \<open>2 ^ 200\<close> in size, and multiples of \<open>2 ^ (- 200)\<close>), so infinities, NaNs
  and the smallest exponent are left out; 400 normalisation steps are enough for that range.
\<close>

definition round_even :: "rat \<Rightarrow> int" where
  "round_even x =
     (let f = \<lfloor>x\<rfloor>; d = x - of_int f in
      if d < 1 / 2 then f else if 1 / 2 < d then f + 1 else if even f then f else f + 1)"

fun round53 :: "nat \<Rightarrow> rat \<Rightarrow> rat" where
  "round53 0 x = x"
| "round53 (Suc k) x =
     (if x < 2 ^ 52 then round53 k (2 * x) / 2
      else if 2 ^ 53 \<le> x then 2 * round53 k (x / 2)
      else of_int (round_even x))"

definition float64 :: "rat \<Rightarrow> rat" where
  "float64 x = (if x = 0 then 0 else if x < 0 then - round53 400 (- x) else round53 400 x)"

text \<open>
  The conversion \<^verbatim>\<open>byte(v)\<close> drops the fraction; for a value that no byte represents its result is
  implementation-specific, the parameter \<open>cv\<close>.
\<close>

definition float_to_byte :: "(rat \<Rightarrow> byte) \<Rightarrow> rat \<Rightarrow> byte" where
  "float_to_byte cv v = (if - 1 < v \<and> v < 256 then word_of_int (if 0 \<le> v then \<lfloor>v\<rfloor> else \<lceil>v\<rceil>) else cv v)"

text \<open>A dyadic fraction of 53 bits is not rounded.\<close>

lemma round_even_of_int [simp]: "round_even (of_int k) = k"
  by (simp add: round_even_def)

lemma round53_dyadic:
  assumes "2 ^ 52 \<le> m" and "m < 2 ^ 53"
  shows "j < k \<Longrightarrow> round53 k (of_int m / 2 ^ j) = of_int m / 2 ^ j"
proof (induction j arbitrary: k)
  have m: "(2::rat) ^ 52 \<le> of_int m" "of_int m < (2::rat) ^ 53"
    using assms by (simp_all flip: of_int_le_iff of_int_less_iff)
  case 0
  then obtain k' where "k = Suc k'" by (cases k) auto
  then show ?case using m by simp
next
  have m: "of_int m < (2::rat) ^ 53" using assms by (simp flip: of_int_less_iff)
  case (Suc j)
  then obtain k' where k: "k = Suc k'" "j < k'" by (cases k) auto
  have "(2::rat) ^ 53 * 1 \<le> 2 ^ 53 * 2 ^ j" by (intro mult_left_mono) simp_all
  then have "of_int m < (2::rat) ^ 53 * 2 ^ j" by (intro order_less_le_trans[OF m]) simp
  then have "of_int m / (2::rat) ^ Suc j < 2 ^ 52" by (simp add: divide_less_eq)
  moreover have "2 * (of_int m / (2::rat) ^ Suc j) = of_int m / 2 ^ j" by simp
  ultimately show ?case using Suc.IH[OF k(2)] by (simp only: k round53.simps if_True) simp
qed

lemma float64_dyadic:
  assumes "2 ^ 52 \<le> m" and "m < 2 ^ 53" and "j < 400"
  shows "float64 (of_int m / 2 ^ j) = of_int m / 2 ^ j"
proof -
  have "(0::rat) < of_int m / 2 ^ j" using assms(1) by simp
  then show ?thesis using round53_dyadic[OF assms] by (simp add: float64_def)
qed

lemma float64_zero [simp]: "float64 0 = 0"
  by (simp add: float64_def)

end
