(* ===== verification/Go_Heap.thy ===== *)
theory Go_Heap
  imports Go_Prelude
begin

section \<open>Binary heaps (\<^verbatim>\<open>container/heap\<close>)\<close>

text \<open>
  The standard library's heap on a slice, for an ordering \<open>lt\<close>: sifting up and down, \<^verbatim>\<open>Init\<close>,
  \<^verbatim>\<open>Push\<close> and \<^verbatim>\<open>Pop\<close>. The contract of a priority queue is the locale \<open>min_queue\<close>; it is
  discharged here for every ordering by a key.
\<close>

function heap_up :: "('a \<Rightarrow> 'a \<Rightarrow> bool) \<Rightarrow> nat \<Rightarrow> 'a list \<Rightarrow> 'a list" where
  "heap_up lt j xs =
     (let i = (j - 1) div 2 in
      if i = j \<or> \<not> lt (xs ! j) (xs ! i) then xs else heap_up lt i (swap_at i j xs))"
  by pat_completeness auto
termination
  by (relation "measure (\<lambda>(lt, j, xs). j)") auto

function heap_down :: "('a \<Rightarrow> 'a \<Rightarrow> bool) \<Rightarrow> nat \<Rightarrow> nat \<Rightarrow> 'a list \<Rightarrow> 'a list" where
  "heap_down lt i n xs =
     (let j1 = 2 * i + 1 in
      if j1 \<ge> n then xs
      else let j = (if j1 + 1 < n \<and> lt (xs ! (j1 + 1)) (xs ! j1) then j1 + 1 else j1) in
        if \<not> lt (xs ! j) (xs ! i) then xs else heap_down lt j n (swap_at i j xs))"
  by pat_completeness auto
termination
  by (relation "measure (\<lambda>(lt, i, n, xs). n - i)") auto

declare heap_up.simps [simp del] heap_down.simps [simp del]

definition heap_push :: "('a \<Rightarrow> 'a \<Rightarrow> bool) \<Rightarrow> 'a \<Rightarrow> 'a list \<Rightarrow> 'a list" where
  "heap_push lt x xs = heap_up lt (length xs) (xs @ [x])"

definition heap_pop :: "('a \<Rightarrow> 'a \<Rightarrow> bool) \<Rightarrow> 'a list \<Rightarrow> 'a \<times> 'a list" where
  "heap_pop lt xs =
     (let n = length xs - 1; ys = heap_down lt 0 n (swap_at 0 n xs)
      in (ys ! n, take n ys))"

definition heap_init :: "('a \<Rightarrow> 'a \<Rightarrow> bool) \<Rightarrow> 'a list \<Rightarrow> 'a list" where
  "heap_init lt xs = fold (\<lambda>i ys. heap_down lt i (length xs) ys) (rev [0..<length xs div 2]) xs"

lemma length_heap_up [simp]: "length (heap_up lt j xs) = length xs"
  by (induction lt j xs rule: heap_up.induct) (subst heap_up.simps, simp add: Let_def)

lemma length_heap_down [simp]: "length (heap_down lt i n xs) = length xs"
  by (induction lt i n xs rule: heap_down.induct) (subst heap_down.simps, simp add: Let_def)

lemma mset_heap_up: "j < length xs \<Longrightarrow> mset (heap_up lt j xs) = mset xs"
proof (induction lt j xs rule: heap_up.induct)
  case (1 lt j xs)
  then show ?case by (subst heap_up.simps) (auto simp: Let_def mset_swap_at)
qed

lemma mset_heap_down: "n \<le> length xs \<Longrightarrow> i < length xs \<Longrightarrow> mset (heap_down lt i n xs) = mset xs"
proof (induction lt i n xs rule: heap_down.induct)
  case (1 lt i n xs)
  then show ?case by (subst heap_down.simps) (auto simp: Let_def mset_swap_at)
qed

text \<open>Sifting down within the first \<open>n\<close> elements leaves the rest alone.\<close>

lemma nth_swap_at:
  "i < length xs \<Longrightarrow> j < length xs \<Longrightarrow> k < length xs \<Longrightarrow>
     swap_at i j xs ! k = (if k = i then xs ! j else if k = j then xs ! i else xs ! k)"
  by (auto simp: swap_at_def nth_list_update)

lemma heap_down_rest:
  "n \<le> length xs \<Longrightarrow> i < n \<or> i = 0 \<Longrightarrow> n \<le> k \<Longrightarrow> k < length xs \<Longrightarrow> heap_down lt i n xs ! k = xs ! k"
proof (induction lt i n xs rule: heap_down.induct)
  case (1 lt i n xs)
  show ?case
  proof (cases "2 * i + 1 \<ge> n")
    case True
    then show ?thesis by (subst heap_down.simps) (simp add: Let_def)
  next
    case False
    then show ?thesis using 1 by (subst heap_down.simps) (auto simp: Let_def nth_swap_at)
  qed
qed


subsection \<open>The heap order\<close>

definition heap_from :: "('a \<Rightarrow> 'k::linorder) \<Rightarrow> nat \<Rightarrow> nat \<Rightarrow> 'a list \<Rightarrow> bool" where
  "heap_from key m n xs \<longleftrightarrow> (\<forall>c. 0 < c \<and> c < n \<and> m \<le> (c - 1) div 2 \<longrightarrow> key (xs ! ((c - 1) div 2)) \<le> key (xs ! c))"

definition is_heap :: "('a \<Rightarrow> 'k::linorder) \<Rightarrow> 'a list \<Rightarrow> bool" where
  "is_heap key xs \<longleftrightarrow> heap_from key 0 (length xs) xs"

abbreviation by_key :: "('a \<Rightarrow> 'k::linorder) \<Rightarrow> 'a \<Rightarrow> 'a \<Rightarrow> bool" where
  "by_key key \<equiv> \<lambda>x y. key x < key y"

lemma heap_root_least:
  "heap_from key 0 n xs \<Longrightarrow> j < n \<Longrightarrow> key (xs ! 0) \<le> key (xs ! j)"
proof (induction j rule: less_induct)
  case (less j)
  show ?case
  proof (cases "j = 0")
    case False
    then have "(j - 1) div 2 < j" by simp
    then have "key (xs ! 0) \<le> key (xs ! ((j - 1) div 2))" using less by simp
    also have "\<dots> \<le> key (xs ! j)" using less.prems False by (auto simp: heap_from_def)
    finally show ?thesis .
  qed simp
qed

text \<open>The order with a hole at \<open>j\<close>: \<open>j\<close> may be smaller than its parent, but its children are not.\<close>

lemma heap_up_correct:
  assumes "j < length xs"
    and "\<forall>c. 0 < c \<and> c < length xs \<and> c \<noteq> j \<longrightarrow> key (xs ! ((c - 1) div 2)) \<le> key (xs ! c)"
    and "\<forall>c. 0 < c \<and> c < length xs \<and> (c - 1) div 2 = j \<and> 0 < j \<longrightarrow> key (xs ! ((j - 1) div 2)) \<le> key (xs ! c)"
  shows "is_heap key (heap_up (by_key key) j xs)"
  using assms
proof (induction "by_key key" j xs rule: heap_up.induct)
  case (1 j xs)
  define i where "i = (j - 1) div 2"
  show ?case
  proof (cases "i = j \<or> \<not> key (xs ! j) < key (xs ! i)")
    case True
    have "key (xs ! ((c - 1) div 2)) \<le> key (xs ! c)" if "0 < c" "c < length xs" for c
    proof (cases "c = j")
      case True
      then have "i \<noteq> j" using that by (auto simp: i_def)
      then show ?thesis using \<open>i = j \<or> \<not> key (xs ! j) < key (xs ! i)\<close> \<open>c = j\<close> by (simp add: i_def not_less)
    qed (use 1 that in blast)
    moreover have "heap_up (by_key key) j xs = xs"
      using True by (subst heap_up.simps) (simp add: i_def Let_def)
    ultimately show ?thesis by (simp add: is_heap_def heap_from_def)
  next
    case False
    then have ij: "i < j" "i < length xs" using 1 by (auto simp: i_def)
    let ?ys = "swap_at i j xs"
    have nth: "?ys ! k = (if k = i then xs ! j else if k = j then xs ! i else xs ! k)" if "k < length xs" for k
      using nth_swap_at[of i xs j k] ij 1 that by simp
    have par: "(c - 1) div 2 < c" "(c - 1) div 2 < length xs" if "0 < c" "c < length xs" for c using that by auto
    have old: "key (xs ! ((c - 1) div 2)) \<le> key (xs ! c)" if "0 < c" "c < length xs" "c \<noteq> j" for c
      using 1 that by blast
    have kids: "key (xs ! i) \<le> key (xs ! c)" if "0 < c" "c < length xs" "(c - 1) div 2 = j" for c
      using 1 that ij by (auto simp: i_def)
    have A: "key (?ys ! ((c - 1) div 2)) \<le> key (?ys ! c)" if "0 < c" "c < length xs" "c \<noteq> i" for c
    proof (cases "c = j")
      case True
      have p: "(j - 1) div 2 = i" by (simp add: i_def)
      show ?thesis using False nth[of i] nth[of j] ij "1.prems"(1) unfolding True p by auto
    next
      case cj: False
      note o = old[OF that(1,2) cj] and p = par[OF that(1,2)]
      show ?thesis
      proof (cases "(c - 1) div 2 = j")
        case True
        then show ?thesis using kids[OF that(1,2)] nth[OF that(2)] nth[of j] cj that(3) ij 1 by simp
      next
        case cpj: False
        show ?thesis
        proof (cases "(c - 1) div 2 = i")
          case True
          then show ?thesis using o nth[OF that(2)] nth[of i] cj that(3) ij False by (auto intro: less_imp_le le_less_trans order_trans)
        next
          case False
          then show ?thesis using o nth[OF that(2)] nth[OF p(2)] cj that(3) cpj by simp
        qed
      qed
    qed
    have B: "key (?ys ! ((i - 1) div 2)) \<le> key (?ys ! c)" if "0 < c" "c < length xs" "(c - 1) div 2 = i" "0 < i" for c
    proof -
      have pi: "(i - 1) div 2 < i" "(i - 1) div 2 \<noteq> j" using that ij by auto
      have gp: "key (xs ! ((i - 1) div 2)) \<le> key (xs ! i)" using old[of i] that ij by simp
      have n: "?ys ! ((i - 1) div 2) = xs ! ((i - 1) div 2)" using nth[of "(i - 1) div 2"] pi ij by simp
      show ?thesis
      proof (cases "c = j")
        case True
        then show ?thesis using n gp nth[of j] ij 1 by simp
      next
        case False
        then have "key (xs ! i) \<le> key (xs ! c)" using old[of c] that by simp
        moreover have "c \<noteq> i" using that by auto
        ultimately show ?thesis using n gp nth[OF that(2)] False by auto
      qed
    qed
    have "is_heap key (heap_up (by_key key) i ?ys)"
      using "1.hyps"[OF i_def _ ] False A B ij by (auto simp: i_def)
    then show ?thesis using False by (subst heap_up.simps) (simp add: i_def Let_def)
  qed
qed


text \<open>Sifting down repairs the heap above \<open>m\<close> when only the children of \<open>i\<close> may be out of order.\<close>

lemma heap_down_correct:
  assumes "n \<le> length xs" "m \<le> i"
    and "\<forall>c. 0 < c \<and> c < n \<and> m \<le> (c - 1) div 2 \<and> (c - 1) div 2 \<noteq> i \<longrightarrow> key (xs ! ((c - 1) div 2)) \<le> key (xs ! c)"
    and "\<forall>c. 0 < c \<and> c < n \<and> (c - 1) div 2 = i \<and> 0 < i \<and> m \<le> (i - 1) div 2 \<longrightarrow> key (xs ! ((i - 1) div 2)) \<le> key (xs ! c)"
  shows "heap_from key m n (heap_down (by_key key) i n xs)"
  using assms
proof (induction "by_key key" i n xs rule: heap_down.induct)
  case (1 i n xs)
  define j where "j = (if 2 * i + 1 + 1 < n \<and> key (xs ! (2 * i + 1 + 1)) < key (xs ! (2 * i + 1)) then 2 * i + 1 + 1 else 2 * i + 1)"
  have kids: "c = 2 * i + 1 \<or> c = 2 * i + 1 + 1" if "0 < c" "(c - 1) div 2 = i" for c using that by presburger
  have least: "key (xs ! j) \<le> key (xs ! c)" if "0 < c" "c < n" "(c - 1) div 2 = i" for c
    using kids[OF that(1,3)] that(2) by (auto simp: j_def)
  show ?case
  proof (cases "2 * i + 1 \<ge> n")
    case True
    have "key (xs ! ((c - 1) div 2)) \<le> key (xs ! c)" if "0 < c" "c < n" "m \<le> (c - 1) div 2" for c
      using 1 that kids[of c] True by fastforce
    then show ?thesis using True by (subst heap_down.simps) (simp add: Let_def heap_from_def)
  next
    case small: False
    have jn: "j < n" "i < j" "(j - 1) div 2 = i" "0 < j" using small by (auto simp: j_def)
    have unf: "heap_down (by_key key) i n xs =
        (if \<not> key (xs ! j) < key (xs ! i) then xs else heap_down (by_key key) j n (swap_at i j xs))"
      using small by (subst heap_down.simps) (simp add: Let_def j_def)
    show ?thesis
    proof (cases "key (xs ! j) < key (xs ! i)")
      case False
      have "key (xs ! ((c - 1) div 2)) \<le> key (xs ! c)" if "0 < c" "c < n" "m \<le> (c - 1) div 2" for c
      proof (cases "(c - 1) div 2 = i")
        case True
        then show ?thesis using least[OF that(1,2) True] False by simp
      qed (use 1 that in blast)
      then show ?thesis using False unf by (simp add: heap_from_def)
    next
      case lt: True
      let ?ys = "swap_at i j xs"
      have nth: "?ys ! k = (if k = i then xs ! j else if k = j then xs ! i else xs ! k)" if "k < n" for k
        by (rule nth_swap_at) (use jn "1.prems"(1) that in auto)
      have A: "key (?ys ! ((c - 1) div 2)) \<le> key (?ys ! c)"
        if "0 < c" "c < n" "m \<le> (c - 1) div 2" "(c - 1) div 2 \<noteq> j" for c
      proof -
        have p: "(c - 1) div 2 < n" "(c - 1) div 2 < c" using that by auto
        show ?thesis
        proof (cases "(c - 1) div 2 = i")
          case True
          then have "c \<noteq> i" using p by simp
          then show ?thesis using True lt least[OF that(1,2) True] nth[OF that(2)] nth[OF p(1)] by auto
        next
          case False
          have cj: "c \<noteq> j" using False jn(3) by auto
          have pc: "?ys ! ((c - 1) div 2) = xs ! ((c - 1) div 2)" using nth[OF p(1)] False that(4) by simp
          show ?thesis
          proof (cases "c = i")
            case True
            then show ?thesis using "1.prems"(4) jn that nth[OF that(2)] pc by simp
          next
            case ci: False
            have "key (xs ! ((c - 1) div 2)) \<le> key (xs ! c)" using "1.prems"(3) that False by blast
            then show ?thesis using pc nth[OF that(2)] ci cj by simp
          qed
        qed
      qed
      have B: "key (?ys ! ((j - 1) div 2)) \<le> key (?ys ! c)" if "0 < c" "c < n" "(c - 1) div 2 = j" for c
      proof -
        have "key (xs ! j) \<le> key (xs ! c)" using "1.prems"(3)[rule_format, of c] that jn "1.prems"(2) by simp
        moreover have "c \<noteq> i \<and> c \<noteq> j" using that jn by auto
        ultimately show ?thesis using nth[OF that(2)] nth[of i] jn by simp
      qed
      have "heap_from key m n (heap_down (by_key key) j n ?ys)"
        using "1.hyps"[OF refl _ _ _, of j] small lt "1.prems"(1,2) A B jn
        by (simp add: j_def)
      then show ?thesis using lt unf by simp
    qed
  qed
qed

text \<open>\<^verbatim>\<open>Push\<close>, \<^verbatim>\<open>Pop\<close> and \<^verbatim>\<open>Init\<close> keep the heap order and the items.\<close>

lemma heap_push_correct:
  assumes "is_heap key xs"
  shows "is_heap key (heap_push (by_key key) x xs)"
  unfolding heap_push_def
proof (rule heap_up_correct)
  show "\<forall>c. 0 < c \<and> c < length (xs @ [x]) \<and> c \<noteq> length xs \<longrightarrow>
      key ((xs @ [x]) ! ((c - 1) div 2)) \<le> key ((xs @ [x]) ! c)"
    using assms by (auto simp: is_heap_def heap_from_def nth_append)
next
  show "\<forall>c. 0 < c \<and> c < length (xs @ [x]) \<and> (c - 1) div 2 = length xs \<and> 0 < length xs \<longrightarrow>
      key ((xs @ [x]) ! ((length xs - 1) div 2)) \<le> key ((xs @ [x]) ! c)"
  proof (intro allI impI)
    fix c assume c: "0 < c \<and> c < length (xs @ [x]) \<and> (c - 1) div 2 = length xs \<and> 0 < length xs"
    then have "(c - 1) div 2 < length xs" by auto
    then show "key ((xs @ [x]) ! ((length xs - 1) div 2)) \<le> key ((xs @ [x]) ! c)" using c by simp
  qed
qed simp

lemma mset_heap_push [simp]: "mset (heap_push lt x xs) = add_mset x (mset xs)"
  by (simp add: heap_push_def mset_heap_up)

lemma set_heap_push [simp]: "set (heap_push lt x xs) = insert x (set xs)"
  using mset_heap_push[of lt x xs] by (metis set_mset_add_mset_insert set_mset_mset)

lemma heap_from_take: "heap_from key m n xs \<Longrightarrow> heap_from key m n (take n xs)"
  by (auto simp: heap_from_def)

lemma heap_pop_correct:
  assumes "is_heap key xs" "xs \<noteq> []" and p: "heap_pop (by_key key) xs = (x, ys)"
  shows "is_heap key ys" "mset xs = add_mset x (mset ys)" "x = xs ! 0"
proof -
  let ?n = "length xs - 1" let ?zs = "swap_at 0 ?n xs" let ?d = "heap_down (by_key key) 0 ?n ?zs"
  have n: "?n < length xs" using assms(2) by simp
  have x: "x = ?d ! ?n" and ys: "ys = take ?n ?d" using p by (auto simp: heap_pop_def Let_def)
  have nth: "?zs ! k = (if k = 0 then xs ! ?n else if k = ?n then xs ! 0 else xs ! k)" if "k < length xs" for k
    by (rule nth_swap_at) (use n that assms(2) in auto)
  have "heap_from key 0 ?n ?d"
  proof (rule heap_down_correct)
    show "\<forall>c. 0 < c \<and> c < ?n \<and> 0 \<le> (c - 1) div 2 \<and> (c - 1) div 2 \<noteq> 0 \<longrightarrow> key (?zs ! ((c - 1) div 2)) \<le> key (?zs ! c)"
    proof (intro allI impI)
      fix c assume c: "0 < c \<and> c < ?n \<and> 0 \<le> (c - 1) div 2 \<and> (c - 1) div 2 \<noteq> 0"
      then have q: "(c - 1) div 2 < ?n" "(c - 1) div 2 < length xs" "c < length xs" by auto
      show "key (?zs ! ((c - 1) div 2)) \<le> key (?zs ! c)"
        using assms(1) c q nth[of c] nth[of "(c - 1) div 2"] by (simp add: is_heap_def heap_from_def)
    qed
  qed (use n in auto)
  then show "is_heap key ys" using n heap_from_take by (fastforce simp: is_heap_def ys)
  have dn: "?d ! ?n = ?zs ! ?n" by (rule heap_down_rest) (use n in auto)
  then show "x = xs ! 0" using nth[OF n] by (simp add: x split: if_splits)
  have len: "length ?d = Suc ?n" using n by simp
  have "mset xs = mset ?d" using n assms(2) by (simp add: mset_heap_down mset_swap_at)
  also have "?d = take ?n ?d @ [?d ! ?n]" using len by (metis lessI take_Suc_conv_app_nth take_all_iff order_refl)
  finally show "mset xs = add_mset x (mset ys)" using x ys by (metis mset_append mset.simps union_mset_add_mset_right add.right_neutral)
qed

lemma heap_init_steps:
  assumes "k \<le> length xs div 2"
  shows "mset (fold (\<lambda>i ys. heap_down lt i (length xs) ys) (rev [k..<length xs div 2]) xs) = mset xs
    \<and> (lt = by_key key \<longrightarrow> heap_from key k (length xs) (fold (\<lambda>i ys. heap_down lt i (length xs) ys) (rev [k..<length xs div 2]) xs))"
  using assms
proof (induction "length xs div 2 - k" arbitrary: k)
  case 0
  then have "k = length xs div 2" by simp
  then show ?case by (auto simp: heap_from_def)
next
  case (Suc d)
  let ?f = "\<lambda>k. fold (\<lambda>i ys. heap_down lt i (length xs) ys) (rev [k..<length xs div 2]) xs"
  have k: "k < length xs div 2" using Suc by simp
  have step: "?f k = heap_down lt k (length xs) (?f (Suc k))"
    using k by (simp add: upt_conv_Cons)
  have ih: "mset (?f (Suc k)) = mset xs" "lt = by_key key \<Longrightarrow> heap_from key (Suc k) (length xs) (?f (Suc k))"
    using Suc.hyps(1)[of "Suc k"] Suc.hyps(2) k by auto
  have len: "length (?f (Suc k)) = length xs" using ih(1) by (rule mset_eq_length)
  have down: "heap_from key k n (heap_down (by_key key) k n ys)"
    if "heap_from key (Suc k) n ys" "n \<le> length ys" for n and ys :: "'a list"
  proof (rule heap_down_correct[OF that(2) order_refl])
    show "\<forall>c. 0 < c \<and> c < n \<and> k \<le> (c - 1) div 2 \<and> (c - 1) div 2 \<noteq> k \<longrightarrow> key (ys ! ((c - 1) div 2)) \<le> key (ys ! c)"
      using that(1) by (simp add: heap_from_def)
  qed auto
  have "heap_from key k (length xs) (?f k)" if lt: "lt = by_key key"
    using down[OF ih(2)[OF lt]] len by (simp add: step[unfolded lt] lt)
  then show ?case using ih(1) len k step mset_heap_down[of "length xs" "?f (Suc k)" k lt] by simp
qed

lemma heap_init_correct: "is_heap key (heap_init (by_key key) xs)"
  using heap_init_steps[of 0 xs "by_key key" key] mset_eq_length[of "heap_init (by_key key) xs" xs]
  by (simp add: heap_init_def is_heap_def)

lemma mset_heap_init [simp]: "mset (heap_init lt xs) = mset xs"
  using heap_init_steps[of 0 xs lt "\<lambda>_. 0::nat"] by (simp add: heap_init_def)

lemma set_heap_init [simp]: "set (heap_init lt xs) = set xs"
  by (metis mset_heap_init set_mset_mset)

lemma heap_init_Nil [simp]: "heap_init lt [] = []"
  by (simp add: heap_init_def)

lemma is_heap_Nil [simp]: "is_heap key []"
  by (simp add: is_heap_def heap_from_def)

lemma heap_top_least:
  "is_heap key xs \<Longrightarrow> x \<in> set xs \<Longrightarrow> key (xs ! 0) \<le> key x"
  using heap_root_least[of key "length xs" xs] by (auto simp: is_heap_def in_set_conv_nth)

text \<open>A list in order is a heap.\<close>

lemma sorted_is_heap:
  assumes "sorted_wrt (\<lambda>x y. key x \<le> key y) xs"
  shows "is_heap key xs"
proof -
  have "key (xs ! ((c - 1) div 2)) \<le> key (xs ! c)" if "0 < c" "c < length xs" for c
    by (rule sorted_wrt_nth_less[OF assms]) (use that in auto)
  then show ?thesis by (simp add: is_heap_def heap_from_def)
qed


subsection \<open>The contract of a priority queue\<close>

text \<open>
  What a client of a queue by key relies on: an invariant \<open>ok\<close>, the multiset of the items, and a
  \<open>pop\<close> that removes an item of least key.
\<close>

locale min_queue =
  fixes key :: "'a \<Rightarrow> 'k::linorder"
    and push :: "'a \<Rightarrow> 'q \<Rightarrow> 'q"
    and pop :: "'q \<Rightarrow> 'a \<times> 'q"
    and items :: "'q \<Rightarrow> 'a multiset"
    and ok :: "'q \<Rightarrow> bool"
  assumes ok_push: "ok q \<Longrightarrow> ok (push x q)"
    and items_push: "ok q \<Longrightarrow> items (push x q) = add_mset x (items q)"
    and ok_pop: "ok q \<Longrightarrow> items q \<noteq> {#} \<Longrightarrow> ok (snd (pop q))"
    and items_pop: "ok q \<Longrightarrow> items q \<noteq> {#} \<Longrightarrow> items q = add_mset (fst (pop q)) (items (snd (pop q)))"
    and pop_least: "ok q \<Longrightarrow> x \<in># items q \<Longrightarrow> key (fst (pop q)) \<le> key x"
begin

text \<open>Pushing a list of items, and draining the queue of the items whose key is at most \<open>b\<close>.\<close>

definition push_all :: "'a list \<Rightarrow> 'q \<Rightarrow> 'q" where
  "push_all xs q = fold push xs q"

lemma push_all_ok: "ok q \<Longrightarrow> ok (push_all xs q) \<and> items (push_all xs q) = mset xs + items q"
  by (induction xs arbitrary: q) (auto simp: push_all_def ok_push items_push)

lemma pop_in: "ok q \<Longrightarrow> items q \<noteq> {#} \<Longrightarrow> fst (pop q) \<in># items q"
  using items_pop[of q] by (metis union_single_eq_member)

lemma pop_rest: "ok q \<Longrightarrow> items q \<noteq> {#} \<Longrightarrow> items (snd (pop q)) = items q - {#fst (pop q)#}"
  using items_pop[of q] by (metis add_mset_remove_trivial)

lemma pop_size: "ok q \<Longrightarrow> items q \<noteq> {#} \<Longrightarrow> size (items (snd (pop q))) < size (items q)"
  using items_pop[of q] by (metis lessI size_add_mset)

lemma pop_filter_above:
  assumes "ok q" "items q \<noteq> {#}" "b < key (fst (pop q))"
  shows "filter_mset (\<lambda>x. key x \<le> b) (items q) = {#}"
  using pop_least[OF assms(1)] assms(3) by (fastforce simp: filter_mset_eq_conv)

end

lemma heap_is_min_queue:
  "min_queue key (heap_push (by_key key)) (heap_pop (by_key key)) mset (is_heap key)"
proof
  fix q :: "'a list" and x
  assume q: "is_heap key q"
  show "is_heap key (heap_push (by_key key) x q)" by (rule heap_push_correct[OF q])
  show "mset (heap_push (by_key key) x q) = add_mset x (mset q)" by simp
  {
    assume "mset q \<noteq> {#}"
    then have ne: "q \<noteq> []" by simp
    show "is_heap key (snd (heap_pop (by_key key) q))"
      using heap_pop_correct(1)[OF q ne] by (cases "heap_pop (by_key key) q") auto
    show "mset q = add_mset (fst (heap_pop (by_key key) q)) (mset (snd (heap_pop (by_key key) q)))"
      using heap_pop_correct(2)[OF q ne] by (cases "heap_pop (by_key key) q") auto
  }
  assume x: "x \<in># mset q"
  then have ne: "q \<noteq> []" by auto
  show "key (fst (heap_pop (by_key key) q)) \<le> key x"
    using heap_pop_correct(3)[OF q ne] heap_top_least[OF q, of x] x by (cases "heap_pop (by_key key) q") auto
qed

end
