(* ===== verification/Crawler.thy ===== *)
theory Crawler
  imports Float64 Go_Heap Server
begin

section \<open>The crawler (\<^verbatim>\<open>dht/crawler/heaps.go\<close>, \<^verbatim>\<open>dht/crawler/crawler.go\<close>)\<close>

text \<open>
  A crawler walks the network towards a random target, asks every node it meets for infohash
  samples (BEP-51) and hands new infohashes to the discovery workers. It owns two heaps: \<open>ready\<close>,
  ordered by the distance to the target with a discount for nodes that gave many samples, and
  \<open>cooldown\<close>, ordered by the instant a node may be asked again.

  The field \<^verbatim>\<open>index\<close> of an item is written by the heap and never read, and is left out; so is the
  log. Of the metrics only the additions to a Prometheus counter can have an effect on the program:
  the library rejects a negative addition with a panic. Whether it accepts a value is the parameter
  \<open>ctr\<close>.
\<close>

record traversal_item =
  ti_node :: node
  ti_target :: node_id
  ti_dist :: node_id
  ti_failures :: int
  ti_yield :: nat

record cooldown_item =
  ci_item :: traversal_item
  ci_next :: instant

fun cmp_dist :: "node_id \<Rightarrow> node_id \<Rightarrow> int" where
  "cmp_dist [] [] = 0"
| "cmp_dist [] (y # ys) = -1"
| "cmp_dist (x # xs) [] = 1"
| "cmp_dist (x # xs) (y # ys) = (if x < y then -1 else if x > y then 1 else cmp_dist xs ys)"

fun scale_bytes :: "(rat \<Rightarrow> byte) \<Rightarrow> rat \<Rightarrow> rat \<Rightarrow> byte list \<Rightarrow> byte list" where
  "scale_bytes cv factor rem [] = []"
| "scale_bytes cv factor rem (b # bs) =
     (let val = float64 (float64 (of_nat (unat b) * factor) + rem);
          r = float_to_byte cv val
      in r # scale_bytes cv factor (float64 (float64 (val - of_nat (unat r)) * 256)) bs)"

definition scale_dist :: "(rat \<Rightarrow> byte) \<Rightarrow> node_id \<Rightarrow> rat \<Rightarrow> node_id" where
  "scale_dist cv d factor = scale_bytes cv factor 0 d"

text \<open>The distance by which an item is compared.\<close>

definition eff_dist :: "(rat \<Rightarrow> byte) \<Rightarrow> traversal_item \<Rightarrow> node_id" where
  "eff_dist cv it =
     (if ti_yield it > 0
      then scale_dist cv (ti_dist it) (float64 (of_nat (ti_yield it) / float64 (of_nat (ti_yield it) + 1)))
      else ti_dist it)"

definition traversal_less :: "(rat \<Rightarrow> byte) \<Rightarrow> traversal_item \<Rightarrow> traversal_item \<Rightarrow> bool" where
  "traversal_less cv i j \<longleftrightarrow> cmp_dist (eff_dist cv i) (eff_dist cv j) < 0"

definition cooldown_less :: "cooldown_item \<Rightarrow> cooldown_item \<Rightarrow> bool" where
  "cooldown_less i j \<longleftrightarrow> ci_next i < ci_next j"


subsection \<open>State\<close>

record support_entry =
  se_capable :: bool
  se_last_seen :: instant

record crawler_config =
  cc_alpha :: nat
  cc_max_iterations :: nat
  cc_width :: nat
  cc_default_cooldown :: duration
  cc_default_interval :: duration
  cc_max_failures :: int
  cc_max_jitter :: duration
  cc_cache_cleanup :: duration
  cc_txn_timeout :: duration
  cc_max_interval :: duration
  cc_discovery_iterations :: nat

record crawler =
  cr_seen :: "(node_id, instant) cache"
  cr_ready :: "traversal_item list"
  cr_cooldown :: "cooldown_item list"
  cr_support :: "(node_id, support_entry) cache"
  cr_samples :: "(node_id, nat) cache"
  cr_backlog :: int
  cr_cfg :: crawler_config

definition new_crawler :: "(unit \<Rightarrow> instant) \<Rightarrow> crawler_config \<Rightarrow> crawler" where
  "new_crawler clock cfg =
     \<lparr>cr_seen = cache_new [], cr_ready = [], cr_cooldown = [],
      cr_support = cache_new [with_cleanup (cc_cache_cleanup cfg)
        (\<lambda>_ val. since (clock ()) (se_last_seen val) > cc_cache_cleanup cfg)],
      cr_samples = cache_new [], cr_backlog = 0, cr_cfg = cfg\<rparr>"

record discovery_work =
  dw_infohash :: info_hash
  dw_source :: "node option"

text \<open>A crawler with what it shares: the server behind its interface, and the discovery queue.\<close>

record ('b, 'l) crawl_state =
  cs_crawler :: crawler
  cs_server :: "('b, 'l) server"
  cs_queue :: "discovery_work chan"
  cs_target :: node_id
  cs_iteration :: nat


subsection \<open>Intervals\<close>

definition jitter :: "duration \<Rightarrow> nat \<Rightarrow> duration" where
  "jitter m rnd = (if m \<le> 0 then 0 else int rnd mod m)"

definition compute_interval :: "crawler \<Rightarrow> int \<Rightarrow> duration" where
  "compute_interval c interval =
     (if interval \<le> 0 then cc_default_interval (cr_cfg c)
      else let d = int64 (interval * second) in
        if d < cc_default_interval (cr_cfg c) then cc_default_interval (cr_cfg c)
        else if cc_max_interval (cr_cfg c) > 0 \<and> d > cc_max_interval (cr_cfg c) then cc_max_interval (cr_cfg c)
        else d)"

text \<open>The interval after an answer: a node with more samples than it returned is asked again sooner.\<close>

definition next_interval :: "crawler \<Rightarrow> int \<Rightarrow> int \<Rightarrow> int \<Rightarrow> duration" where
  "next_interval c sample_interval num returned =
     (let interval = compute_interval c sample_interval in
      if num > returned \<and> num > 0 then
        if interval > cc_default_interval (cr_cfg c) * 2 then cc_default_interval (cr_cfg c) * 2 else interval
      else interval)"


subsection \<open>The heaps\<close>

function promote_ready :: "(rat \<Rightarrow> byte) \<Rightarrow> instant \<Rightarrow> crawler \<Rightarrow> crawler" where
  "promote_ready cv now c =
     (case cr_cooldown c of
        [] \<Rightarrow> c
      | ci # rest \<Rightarrow>
          if ci_next ci > now then c
          else case heap_pop cooldown_less (cr_cooldown c) of
            (x, cooldown) \<Rightarrow>
              promote_ready cv now
                (c\<lparr>cr_cooldown := cooldown, cr_ready := heap_push (traversal_less cv) (ci_item ci) (cr_ready c)\<rparr>))"
  by pat_completeness auto
termination
  by (relation "measure (\<lambda>(cv, now, c). length (cr_cooldown c))") (auto simp: heap_pop_def Let_def)

declare promote_ready.simps [simp del]

definition next_eligible :: "(rat \<Rightarrow> byte) \<Rightarrow> instant \<Rightarrow> crawler \<Rightarrow> traversal_item option \<times> crawler" where
  "next_eligible cv now c =
     (let c1 = promote_ready cv now c in
      if cr_ready c1 = [] then (None, c1)
      else case heap_pop (traversal_less cv) (cr_ready c1) of (it, ready) \<Rightarrow> (Some it, c1\<lparr>cr_ready := ready\<rparr>))"

definition push_to_ready :: "(rat \<Rightarrow> byte) \<Rightarrow> node \<Rightarrow> node_id \<Rightarrow> crawler \<Rightarrow> bool \<times> crawler" where
  "push_to_ready cv n target c =
     (if cache_get (cr_seen c) (nid n) \<noteq> None then (False, c)
      else
        let found = (case cache_get (cr_samples c) (nid n) of Some k \<Rightarrow> k | None \<Rightarrow> 0);
            it = \<lparr>ti_node = n, ti_target = target, ti_dist = xor_id target (nid n), ti_failures = 0, ti_yield = found\<rparr>
        in (True, c\<lparr>cr_ready := heap_push (traversal_less cv) it (cr_ready c)\<rparr>))"

definition seed_queue :: "(rat \<Rightarrow> byte) \<Rightarrow> node_id \<Rightarrow> table \<Rightarrow> crawler \<Rightarrow> crawler" where
  "seed_queue cv target rt c =
     fold (\<lambda>n c. snd (push_to_ready cv n target c)) (closest rt target (cc_width (cr_cfg c))) c"

text \<open>\<^verbatim>\<open>sort.Sort\<close> leaves the order of equal items open; the model keeps the order they had.\<close>

definition trim_ready_to_k :: "(rat \<Rightarrow> byte) \<Rightarrow> crawler \<Rightarrow> crawler" where
  "trim_ready_to_k cv c =
     (if length (cr_ready c) \<le> cc_width (cr_cfg c) then c
      else c\<lparr>cr_ready := heap_init (traversal_less cv) (take (cc_width (cr_cfg c)) (sort_key (eff_dist cv) (cr_ready c)))\<rparr>)"


subsection \<open>Asking for samples\<close>

definition query_for_samples ::
    "instant \<Rightarrow> (send_error + msg) \<Rightarrow> traversal_item \<Rightarrow> crawler \<Rightarrow> (send_error + msg option \<times> bool) \<times> crawler" where
  "query_for_samples now reply it c =
     (let i = nid (ti_node it) in
      if (case cache_get (cr_support c) i of Some e \<Rightarrow> \<not> se_capable e | None \<Rightarrow> False) then (Inr (None, False), c)
      else case reply of
        Inl err \<Rightarrow> (Inl err, c)
      | Inr m \<Rightarrow>
          if \<not> is_method_unknown (Some m)
          then (Inr (Some m, True), c\<lparr>cr_support := cache_set i \<lparr>se_capable = True, se_last_seen = now\<rparr> (cr_support c)\<rparr>)
          else (Inr (None, False), c\<lparr>cr_support := cache_set i \<lparr>se_capable = False, se_last_seen = now\<rparr> (cr_support c)\<rparr>))"

text \<open>
  The loop over the samples of one answer. While the \<open>k\<close>-th sample waits for room in the queue, the
  workers take \<open>recv k\<close> items from it; when the queue is still full, the wait times out.
\<close>

record 'b enqueue =
  en_filter :: "'b bloom_filter"
  en_queue :: "discovery_work chan"
  en_backlog :: int
  en_new :: nat
  en_dropped :: nat

definition enqueue_sample ::
    "('b, 'l) libs \<Rightarrow> nat \<Rightarrow> node \<Rightarrow> info_hash \<Rightarrow> 'b enqueue \<Rightarrow> 'b enqueue" where
  "enqueue_sample lib taken src h e =
     (case seen_or_add (bloom_test lib) (bloom_add lib) h (en_filter e) of (seen, f) \<Rightarrow>
        if seen then e\<lparr>en_filter := f\<rparr>
        else
          let w = \<lparr>dw_infohash = h, dw_source = Some src\<rparr>;
              q = (en_queue e)\<lparr>queued := drop taken (queued (en_queue e))\<rparr>;
              e1 = e\<lparr>en_filter := f, en_new := en_new e + 1, en_queue := q\<rparr>
          in case chan_try_send w q of
               Some q1 \<Rightarrow> e1\<lparr>en_queue := q1\<rparr>
             | None \<Rightarrow>
                 let e2 = e1\<lparr>en_backlog := en_backlog e1 + 1\<rparr> in
                 if en_backlog e2 > 100 then
                   (case chan_try_send w q of Some q2 \<Rightarrow> e2\<lparr>en_queue := q2\<rparr> | None \<Rightarrow> e2)
                 else e2\<lparr>en_dropped := en_dropped e2 + 1\<rparr>)"

fun enqueue_samples ::
    "('b, 'l) libs \<Rightarrow> (nat \<Rightarrow> nat) \<Rightarrow> node \<Rightarrow> nat \<Rightarrow> info_hash list \<Rightarrow> 'b enqueue \<Rightarrow> 'b enqueue" where
  "enqueue_samples lib recv src k [] e = e"
| "enqueue_samples lib recv src k (h # hs) e =
     enqueue_samples lib recv src (k + 1) hs (enqueue_sample lib (recv k) src h e)"

definition sample_hashes :: "byte list \<Rightarrow> info_hash list" where
  "sample_hashes bs = map (\<lambda>i. take 20 (drop (20 * i) bs)) [0..<length bs div 20]"

definition process_samples ::
    "('b, 'l) libs \<Rightarrow> (int \<Rightarrow> bool) \<Rightarrow> (nat \<Rightarrow> nat) \<Rightarrow> byte list \<Rightarrow> traversal_item \<Rightarrow> ('b, 'l) crawl_state \<Rightarrow>
     (traversal_item \<times> ('b, 'l) crawl_state) outcome" where
  "process_samples lib ctr recv bs it st =
     (let total = length bs div 20 in
      if total = 0 then Inr (it, st)
      else case s_dedup (cs_server st) of
        None \<Rightarrow> Inl NilDereference
      | Some f \<Rightarrow>
          let c = cs_crawler st;
              e = enqueue_samples lib recv (ti_node it) 0 (sample_hashes bs)
                    \<lparr>en_filter = f, en_queue = cs_queue st, en_backlog = cr_backlog c, en_new = 0, en_dropped = 0\<rparr>;
              i = nid (ti_node it);
              current = (case cache_get (cr_samples c) i of Some k \<Rightarrow> k | None \<Rightarrow> 0) + en_new e;
              it1 = (if en_new e > 0 then it\<lparr>ti_yield := current\<rparr> else it);
              c1 = c\<lparr>cr_backlog := en_backlog e, cr_samples := (if en_new e > 0 then cache_set i current (cr_samples c) else cr_samples c)\<rparr>;
              st1 = st\<lparr>cs_crawler := c1, cs_queue := en_queue e,
                       cs_server := (cs_server st)\<lparr>s_dedup := Some (en_filter e)\<rparr>\<rparr>;
              duplicate = int total - int (en_new e) - int (en_dropped e)
          in if \<not> ctr (int (en_new e)) \<or> \<not> ctr duplicate \<or> (en_dropped e > 0 \<and> \<not> ctr (int (en_dropped e)))
             then Inl LibraryPanic
             else Inr (it1, st1))"


subsection \<open>Learning nodes\<close>

fun learn_nodes ::
    "(rat \<Rightarrow> byte) \<Rightarrow> instant \<Rightarrow> node_id \<Rightarrow> node list \<Rightarrow> crawler \<times> ('b, 'l) server \<Rightarrow> (crawler \<times> ('b, 'l) server) outcome" where
  "learn_nodes cv now target [] cs = Inr cs"
| "learn_nodes cv now target (n # ns) (c, s) =
     (case validate_node_id_for_ip (ip (naddr n)) (nid n) of
        Inl e \<Rightarrow> learn_nodes cv now target ns (c, s)
      | Inr u \<Rightarrow>
          (case insert_node now n (s_table s) of
             Inl p \<Rightarrow> Inl p
           | Inr (res, rt, pings) \<Rightarrow>
               learn_nodes cv now target ns
                 (snd (push_to_ready cv n target c), s\<lparr>s_table := rt, s_spawned := s_spawned s @ pings\<rparr>)))"

definition process_nodes ::
    "(rat \<Rightarrow> byte) \<Rightarrow> instant \<Rightarrow> byte list \<Rightarrow> node_id \<Rightarrow> crawler \<times> ('b, 'l) server \<Rightarrow> (crawler \<times> ('b, 'l) server) outcome" where
  "process_nodes cv now encoded target cs =
     (case decode_nodes encoded of
        Inl e \<Rightarrow> Inr cs
      | Inr ns \<Rightarrow>
          (case learn_nodes cv now target ns cs of
             Inl p \<Rightarrow> Inl p
           | Inr (c, s) \<Rightarrow> Inr (trim_ready_to_k cv c, s)))"


subsection \<open>Forgetting nodes\<close>

text \<open>
  The sort compares the instants that \<^verbatim>\<open>seen\<close> holds now; an identifier the first pass deleted
  counts as the zero time. The order of the keys of a Go map is unspecified; the model takes the
  order of the entries.
\<close>

definition in_cooldown :: "crawler \<Rightarrow> node_id \<Rightarrow> bool" where
  "in_cooldown c i = list_ex (\<lambda>ci. nid (ti_node (ci_item ci)) = i) (cr_cooldown c)"

definition forget :: "node_id list \<Rightarrow> crawler \<Rightarrow> crawler" where
  "forget is c = fold (\<lambda>i c. c\<lparr>cr_seen := cache_delete i (cr_seen c), cr_samples := cache_delete i (cr_samples c)\<rparr>) is c"

definition prune_stale_in_flight :: "instant \<Rightarrow> crawler \<Rightarrow> crawler" where
  "prune_stale_in_flight now c =
     (let cutoff = now - 2 * cc_txn_timeout (cr_cfg c);
          seen_items = cache_items (cr_seen c);
          c1 = forget (map fst (filter (\<lambda>(i, t). t < cutoff \<and> \<not> in_cooldown c i) seen_items)) c;
          max_size = 4 * cc_width (cr_cfg c)
      in if cache_size (cr_seen c1) \<le> max_size then c1
         else
           let ks = filter (\<lambda>i. \<not> in_cooldown c i) (map fst seen_items);
               ordered = sort_key (\<lambda>i. case cache_get (cr_seen c1) i of Some t \<Rightarrow> t | None \<Rightarrow> 0) ks;
               to_prune = cache_size (cr_seen c1) - max_size
           in forget (take to_prune ordered) c1)"


subsection \<open>The loop\<close>

text \<open>
  What one pass of the loop reads from outside: the clock, random targets, the answers, how the
  workers drain the queue, and the draws of the jitter. The queries of a batch run concurrently in
  the code; the model completes them one after another.
\<close>

record crawl_env =
  env_now :: instant
  env_retarget :: node_id
  env_idle :: node_id
  env_rotate :: node_id
  env_get_peers :: "nat \<Rightarrow> send_error + msg"
  env_samples :: "nat \<Rightarrow> send_error + msg"
  env_recv :: "nat \<Rightarrow> nat \<Rightarrow> nat"
  env_query_now :: "nat \<Rightarrow> instant"
  env_result_now :: "nat \<Rightarrow> instant"
  env_rnd :: "nat \<Rightarrow> nat"
  env_prune_now :: instant

record query_result =
  qr_item :: traversal_item
  qr_resp :: "send_error + msg"
  qr_interval :: int
  qr_num :: int
  qr_returned :: int

fun take_batch :: "(rat \<Rightarrow> byte) \<Rightarrow> instant \<Rightarrow> nat \<Rightarrow> crawler \<Rightarrow> traversal_item list \<times> crawler" where
  "take_batch cv now 0 c = ([], c)"
| "take_batch cv now (Suc k) c =
     (case next_eligible cv now c of
        (None, c1) \<Rightarrow> ([], c1)
      | (Some it, c1) \<Rightarrow>
          (case take_batch cv now k (c1\<lparr>cr_seen := cache_set (nid (ti_node it)) now (cr_seen c1)\<rparr>) of
             (batch, c2) \<Rightarrow> (it # batch, c2)))"

definition query_item ::
    "('b, 'l) libs \<Rightarrow> (int \<Rightarrow> bool) \<Rightarrow> crawl_env \<Rightarrow> nat \<Rightarrow> traversal_item \<Rightarrow> ('b, 'l) crawl_state \<Rightarrow>
     (query_result \<times> ('b, 'l) crawl_state) outcome" where
  "query_item lib ctr env k it st =
     (case query_for_samples (env_query_now env k) (env_samples env k) it (cs_crawler st) of (ans, c) \<Rightarrow>
        let st1 = st\<lparr>cs_crawler := c\<rparr>;
            plain = \<lparr>qr_item = it, qr_resp = env_get_peers env k, qr_interval = 0, qr_num = 0, qr_returned = 0\<rparr>
        in case ans of
             Inl e \<Rightarrow> Inr (plain, st1)
           | Inr (None, supported) \<Rightarrow> Inr (plain, st1)
           | Inr (Some m, supported) \<Rightarrow>
               (case m_r m of
                  None \<Rightarrow> Inr (plain, st1)
                | Some r \<Rightarrow>
                    if \<not> supported then Inr (plain, st1)
                    else
                      let returned = length (ret_samples r) div 20;
                          answered = (\<lambda>it. plain\<lparr>qr_item := it, qr_interval := ret_interval r, qr_num := ret_num r,
                                               qr_returned := int returned\<rparr>)
                      in if returned > 0
                         then (case process_samples lib ctr (env_recv env k) (ret_samples r) it st1 of
                                 Inl p \<Rightarrow> Inl p
                               | Inr (it1, st2) \<Rightarrow> Inr (answered it1, st2))
                         else Inr (answered it, st1)))"

fun query_batch ::
    "('b, 'l) libs \<Rightarrow> (int \<Rightarrow> bool) \<Rightarrow> crawl_env \<Rightarrow> nat \<Rightarrow> traversal_item list \<Rightarrow> ('b, 'l) crawl_state \<Rightarrow>
     (query_result list \<times> ('b, 'l) crawl_state) outcome" where
  "query_batch lib ctr env k [] st = Inr ([], st)"
| "query_batch lib ctr env k (it # its) st =
     (case query_item lib ctr env k it st of
        Inl p \<Rightarrow> Inl p
      | Inr (r, st1) \<Rightarrow>
          (case query_batch lib ctr env (k + 1) its st1 of
             Inl p \<Rightarrow> Inl p
           | Inr (rs, st2) \<Rightarrow> Inr (r # rs, st2)))"

definition cool_down :: "instant \<Rightarrow> traversal_item \<Rightarrow> crawler \<Rightarrow> crawler" where
  "cool_down nxt it c =
     c\<lparr>cr_seen := cache_set (nid (ti_node it)) nxt (cr_seen c),
       cr_cooldown := heap_push cooldown_less \<lparr>ci_item = it, ci_next = nxt\<rparr> (cr_cooldown c)\<rparr>"

definition handle_result ::
    "(rat \<Rightarrow> byte) \<Rightarrow> instant \<Rightarrow> nat \<Rightarrow> query_result \<Rightarrow> crawler \<times> ('b, 'l) server \<Rightarrow> (crawler \<times> ('b, 'l) server) outcome" where
  "handle_result cv now rnd r cs =
     (case cs of (c, s) \<Rightarrow>
        let it = qr_item r; i = nid (ti_node it) in
        case qr_resp r of
          Inl e \<Rightarrow>
            let s1 = s\<lparr>s_table := mark_failure now i (s_table s)\<rparr>;
                it1 = it\<lparr>ti_failures := ti_failures it + 1\<rparr>
            in if ti_failures it1 \<ge> cc_max_failures (cr_cfg c)
               then Inr (c\<lparr>cr_seen := cache_delete i (cr_seen c)\<rparr>, s1)
               else Inr (cool_down (now + (cc_default_cooldown (cr_cfg c) + jitter (cc_max_jitter (cr_cfg c)) rnd)) it1 c, s1)
        | Inr m \<Rightarrow>
            (case (case m_r m of
                     None \<Rightarrow> Inr (c, s)
                   | Some r \<Rightarrow> if length (ret_nodes r) > 0 then process_nodes cv now (ret_nodes r) (ti_target it) (c, s) else Inr (c, s)) of
               Inl p \<Rightarrow> Inl p
             | Inr (c1, s1) \<Rightarrow>
                 let s2 = s1\<lparr>s_table := mark_success now i (s_table s1)\<rparr>;
                     it1 = it\<lparr>ti_failures := 0\<rparr>;
                     interval = next_interval c1 (qr_interval r) (qr_num r) (qr_returned r)
                 in Inr (cool_down (now + (interval + jitter (cc_max_jitter (cr_cfg c1)) rnd)) it1 c1, s2)))"

fun handle_results ::
    "(rat \<Rightarrow> byte) \<Rightarrow> crawl_env \<Rightarrow> nat \<Rightarrow> query_result list \<Rightarrow> crawler \<times> ('b, 'l) server \<Rightarrow> (crawler \<times> ('b, 'l) server) outcome" where
  "handle_results cv env k [] cs = Inr cs"
| "handle_results cv env k (r # rs) cs =
     (case handle_result cv (env_result_now env k) (env_rnd env k) r cs of
        Inl p \<Rightarrow> Inl p
      | Inr cs1 \<Rightarrow> handle_results cv env (k + 1) rs cs1)"

text \<open>The end of a pass: pruning every 50 passes and a new target every \<^verbatim>\<open>maxIterations\<close> passes.\<close>

definition end_pass :: "(rat \<Rightarrow> byte) \<Rightarrow> crawl_env \<Rightarrow> ('b, 'l) crawl_state \<Rightarrow> ('b, 'l) crawl_state outcome" where
  "end_pass cv env st =
     (let k = cs_iteration st + 1;
          c = (if k mod 50 = 0 then prune_stale_in_flight (env_prune_now env) (cs_crawler st) else cs_crawler st);
          st1 = st\<lparr>cs_iteration := k, cs_crawler := c\<rparr>
      in if cc_max_iterations (cr_cfg c) = 0 then Inl DivideByZero
         else if k mod cc_max_iterations (cr_cfg c) = 0
         then Inr (st1\<lparr>cs_target := env_rotate env,
                       cs_crawler := seed_queue cv (env_rotate env) (s_table (cs_server st1))
                         (c\<lparr>cr_ready := heap_init (traversal_less cv) []\<rparr>)\<rparr>)
         else Inr st1)"

datatype crawl_event = Waited instant | Reseeded | Queried nat

definition crawl_pass ::
    "('b, 'l) libs \<Rightarrow> (rat \<Rightarrow> byte) \<Rightarrow> (int \<Rightarrow> bool) \<Rightarrow> crawl_env \<Rightarrow> ('b, 'l) crawl_state \<Rightarrow>
     (crawl_event \<times> ('b, 'l) crawl_state) outcome" where
  "crawl_pass lib cv ctr env st =
     (let c0 = (cs_crawler st)\<lparr>cr_backlog := 0\<rparr>;
          st1 = (if length (cr_ready c0) < cc_alpha (cr_cfg c0)
                 then st\<lparr>cs_target := env_retarget env,
                         cs_crawler := seed_queue cv (env_retarget env) (s_table (cs_server st)) c0\<rparr>
                 else st\<lparr>cs_crawler := c0\<rparr>)
      in case take_batch cv (env_now env) (cc_alpha (cr_cfg c0)) (cs_crawler st1) of (batch, c1) \<Rightarrow>
        let st2 = st1\<lparr>cs_crawler := c1\<rparr> in
        if batch = [] then
          (case cr_cooldown c1 of
             ci # rest \<Rightarrow> Inr (Waited (ci_next ci), st2)
           | [] \<Rightarrow> Inr (Reseeded, st2\<lparr>cs_target := env_idle env,
                          cs_crawler := seed_queue cv (env_idle env) (s_table (cs_server st2)) c1\<rparr>))
        else case query_batch lib ctr env 0 batch st2 of
          Inl p \<Rightarrow> Inl p
        | Inr (rs, st3) \<Rightarrow>
            (case handle_results cv env 0 rs (cs_crawler st3, cs_server st3) of
               Inl p \<Rightarrow> Inl p
             | Inr (c2, s2) \<Rightarrow>
                 (case end_pass cv env (st3\<lparr>cs_crawler := c2, cs_server := s2\<rparr>) of
                    Inl p \<Rightarrow> Inl p
                  | Inr st4 \<Rightarrow> Inr (Queried (length batch), st4))))"

text \<open>\<^verbatim>\<open>Start\<close> and the head of \<^verbatim>\<open>crawl\<close>, and the loop over a list of environments.\<close>

definition start_crawl :: "(rat \<Rightarrow> byte) \<Rightarrow> node_id \<Rightarrow> discovery_work chan \<Rightarrow> ('b, 'l) server \<Rightarrow> crawler \<Rightarrow> ('b, 'l) crawl_state" where
  "start_crawl cv target q s c =
     (let c1 = c\<lparr>cr_ready := heap_init (traversal_less cv) (cr_ready c), cr_cooldown := heap_init cooldown_less (cr_cooldown c)\<rparr>
      in \<lparr>cs_crawler = seed_queue cv target (s_table s) c1, cs_server = s, cs_queue = q, cs_target = target, cs_iteration = 0\<rparr>)"

fun crawl ::
    "('b, 'l) libs \<Rightarrow> (rat \<Rightarrow> byte) \<Rightarrow> (int \<Rightarrow> bool) \<Rightarrow> crawl_env list \<Rightarrow> ('b, 'l) crawl_state \<Rightarrow> ('b, 'l) crawl_state outcome" where
  "crawl lib cv ctr [] st = Inr st"
| "crawl lib cv ctr (env # envs) st =
     (case crawl_pass lib cv ctr env st of Inl p \<Rightarrow> Inl p | Inr (ev, st1) \<Rightarrow> crawl lib cv ctr envs st1)"

end
