(* ===== verification/Crawler_Safety.thy ===== *)
theory Crawler_Safety
  imports Crawler Table_Refresh
begin

section \<open>Correctness of the crawler\<close>

text \<open>
  The heaps of the crawler are priority queues, so the next node is always the nearest available
  one; every pass of the loop keeps the invariants of crawler and server, and the nodes a crawler
  puts into the table pass BEP-42. Four theorems show what the code does not mean to do.
\<close>

lemma cmp_dist_less_iff: "cmp_dist a b < 0 \<longleftrightarrow> a < b"
  by (induction a b rule: cmp_dist.induct) auto

lemma traversal_less_key: "traversal_less cv = by_key (eff_dist cv)"
  by (simp add: traversal_less_def cmp_dist_less_iff fun_eq_iff)

lemma cooldown_less_key: "cooldown_less = by_key ci_next"
  by (simp add: cooldown_less_def fun_eq_iff)

interpretation ready_q: min_queue "eff_dist cv" "heap_push (traversal_less cv)" "heap_pop (traversal_less cv)"
    mset "is_heap (eff_dist cv)" for cv
  unfolding traversal_less_key by (rule heap_is_min_queue)

interpretation cooldown_q: min_queue ci_next "heap_push cooldown_less" "heap_pop cooldown_less" mset "is_heap ci_next"
  unfolding cooldown_less_key by (rule heap_is_min_queue)


subsection \<open>The invariant\<close>

definition wf_item :: "traversal_item \<Rightarrow> bool" where
  "wf_item it \<longleftrightarrow> wf_id (nid (ti_node it)) \<and> wf_id (ti_target it) \<and> ti_dist it = xor_id (ti_target it) (nid (ti_node it))"

definition wf_crawler :: "(rat \<Rightarrow> byte) \<Rightarrow> crawler \<Rightarrow> bool" where
  "wf_crawler cv c \<longleftrightarrow> is_heap (eff_dist cv) (cr_ready c) \<and> is_heap ci_next (cr_cooldown c) \<and>
     wf_cache (cr_seen c) \<and> wf_cache (cr_support c) \<and> wf_cache (cr_samples c) \<and>
     (\<forall>it \<in># mset (cr_ready c). wf_item it) \<and> (\<forall>ci \<in># mset (cr_cooldown c). wf_item (ci_item ci))"

lemma wf_item_update [simp]:
  "wf_item (it\<lparr>ti_yield := y\<rparr>) = wf_item it" "wf_item (it\<lparr>ti_failures := k\<rparr>) = wf_item it"
  by (simp_all add: wf_item_def)

lemma wf_crawler_update [simp]:
  "wf_crawler cv (c\<lparr>cr_backlog := b\<rparr>) = wf_crawler cv c"
  by (simp add: wf_crawler_def)

lemma wf_cache_new [simp]: "wf_cache (cache_new [])"
  by (simp add: cache_new_def wf_cache_def wf_map_def map_keys_def)

lemma new_crawler_wf: "wf_crawler cv (new_crawler clock cfg)"
  by (simp add: new_crawler_def wf_crawler_def cache_new_def with_cleanup_def wf_cache_def wf_map_def map_keys_def)


subsection \<open>Promotion and choice\<close>

abbreviation due :: "instant \<Rightarrow> crawler \<Rightarrow> cooldown_item multiset" where
  "due now c \<equiv> filter_mset (\<lambda>ci. ci_next ci \<le> now) (mset (cr_cooldown c))"

lemma promote_ready_all:
  "wf_crawler cv c \<Longrightarrow> wf_crawler cv (promote_ready cv now c) \<and>
    mset (cr_cooldown (promote_ready cv now c)) = mset (cr_cooldown c) - due now c \<and>
    mset (cr_ready (promote_ready cv now c)) = mset (cr_ready c) + image_mset ci_item (due now c) \<and>
    (\<exists>r d. promote_ready cv now c = c\<lparr>cr_ready := r, cr_cooldown := d\<rparr>)"
proof (induction cv now c rule: promote_ready.induct)
  case (1 cv now c)
  note wf = 1(2) and IH = 1(1)
  let ?goal = "\<lambda>c'. wf_crawler cv c' \<and> mset (cr_cooldown c') = mset (cr_cooldown c) - due now c \<and>
    mset (cr_ready c') = mset (cr_ready c) + image_mset ci_item (due now c) \<and>
    (\<exists>r d. c' = c\<lparr>cr_ready := r, cr_cooldown := d\<rparr>)"
  have ex: "\<exists>r d. c = c\<lparr>cr_ready := r, cr_cooldown := d\<rparr>"
    by (rule exI[of _ "cr_ready c"], rule exI[of _ "cr_cooldown c"]) simp
  have heap: "is_heap ci_next (cr_cooldown c)" using wf by (simp add: wf_crawler_def)
  show ?case
  proof (cases "cr_cooldown c")
    case Nil
    then show ?thesis using wf ex by (subst (1 2 3 4) promote_ready.simps) simp
  next
    case (Cons ci rest)
    then have ne: "cr_cooldown c \<noteq> []" by simp
    show ?thesis
    proof (cases "ci_next ci > now")
      case True
      have "\<not> ci_next x \<le> now" if "x \<in> set (cr_cooldown c)" for x
        using heap_top_least[OF heap that] Cons True by simp
      then have none: "due now c = {#}" by (auto simp: filter_mset_eq_conv)
      have stop: "promote_ready cv now c = c" using Cons True by (subst promote_ready.simps) simp
      show ?thesis using wf ex by (simp add: none stop)
    next
      case False
      obtain x cd where p: "heap_pop cooldown_less (cr_cooldown c) = (x, cd)" by force
      note pc = heap_pop_correct[OF heap ne p[unfolded cooldown_less_key]]
      have x: "x = ci" using pc(3) Cons by simp
      let ?c1 = "c\<lparr>cr_cooldown := cd, cr_ready := heap_push (traversal_less cv) (ci_item ci) (cr_ready c)\<rparr>"
      have step: "promote_ready cv now c = promote_ready cv now ?c1"
        using Cons False p by (subst promote_ready.simps) simp
      have heap1: "is_heap (eff_dist cv) (heap_push (traversal_less cv) (ci_item ci) (cr_ready c))"
        using wf by (intro ready_q.ok_push) (simp add: wf_crawler_def)
      have wf1: "wf_crawler cv ?c1"
        using wf pc(1) heap1 by (simp add: wf_crawler_def pc(2) x)
      have due1: "due now c = add_mset ci (due now ?c1)" using False by (simp add: pc(2) x)
      from IH[OF Cons False p[symmetric] wf1] have "?goal (promote_ready cv now ?c1)"
        using False by (auto simp: due1 pc(2) x)
      then show ?thesis using step by simp
    qed
  qed
qed

lemma promote_ready_correct:
  assumes "wf_crawler cv c"
  shows "wf_crawler cv (promote_ready cv now c)"
    "mset (cr_cooldown (promote_ready cv now c)) = mset (cr_cooldown c) - due now c"
    "mset (cr_ready (promote_ready cv now c)) = mset (cr_ready c) + image_mset ci_item (due now c)"
    "\<exists>r d. promote_ready cv now c = c\<lparr>cr_ready := r, cr_cooldown := d\<rparr>"
  using promote_ready_all[OF assms, of now] by blast+


lemma next_eligible_cases:
  assumes "wf_crawler cv c" and "next_eligible cv now c = (r, c')"
  shows "wf_crawler cv c'" "cr_cfg c' = cr_cfg c" "cr_seen c' = cr_seen c" "cr_samples c' = cr_samples c"
    "mset (cr_cooldown c') = mset (cr_cooldown c) - due now c"
    "r = None \<Longrightarrow> mset (cr_ready c) + image_mset ci_item (due now c) = {#} \<and> mset (cr_ready c') = {#}"
    "r = Some it \<Longrightarrow> mset (cr_ready c) + image_mset ci_item (due now c) = add_mset it (mset (cr_ready c')) \<and> wf_item it \<and>
       (\<forall>x \<in># mset (cr_ready c) + image_mset ci_item (due now c). eff_dist cv it \<le> eff_dist cv x)"
proof -
  let ?p = "promote_ready cv now c"
  note pr = promote_ready_correct[OF assms(1), of now]
  have frame: "cr_cfg ?p = cr_cfg c \<and> cr_seen ?p = cr_seen c \<and> cr_samples ?p = cr_samples c \<and> cr_backlog ?p = cr_backlog c"
    using pr(4) by auto
  have heap: "is_heap (eff_dist cv) (cr_ready ?p)" using pr(1) by (simp add: wf_crawler_def)
  consider (none) "cr_ready ?p = []" "r = None" "c' = ?p"
    | (some) it' ready where "cr_ready ?p \<noteq> []" "heap_pop (traversal_less cv) (cr_ready ?p) = (it', ready)"
        "r = Some it'" "c' = ?p\<lparr>cr_ready := ready\<rparr>"
    using assms(2) by (auto simp: next_eligible_def Let_def split: if_splits prod.splits)
  then have "wf_crawler cv c' \<and> cr_cfg c' = cr_cfg c \<and> cr_seen c' = cr_seen c \<and> cr_samples c' = cr_samples c \<and>
      mset (cr_cooldown c') = mset (cr_cooldown c) - due now c \<and>
      (r = None \<longrightarrow> mset (cr_ready c) + image_mset ci_item (due now c) = {#} \<and> mset (cr_ready c') = {#}) \<and>
      (\<forall>it. r = Some it \<longrightarrow> mset (cr_ready c) + image_mset ci_item (due now c) = add_mset it (mset (cr_ready c')) \<and> wf_item it \<and>
       (\<forall>x \<in># mset (cr_ready c) + image_mset ci_item (due now c). eff_dist cv it \<le> eff_dist cv x))"
  proof cases
    case none
    then show ?thesis using pr(1-3) frame by (simp flip: pr(3))
  next
    case some
    then have ne: "mset (cr_ready ?p) \<noteq> {#}" by simp
    note q = ready_q.ok_pop[OF heap ne] ready_q.items_pop[OF heap ne] ready_q.pop_least[OF heap]
    have "wf_item it'" using pr(1) q(2) some by (simp add: wf_crawler_def)
    then show ?thesis using some pr(1,2) frame q by (simp add: wf_crawler_def flip: pr(3))
  qed
  then show "wf_crawler cv c'" "cr_cfg c' = cr_cfg c" "cr_seen c' = cr_seen c" "cr_samples c' = cr_samples c"
    "mset (cr_cooldown c') = mset (cr_cooldown c) - due now c"
    "r = None \<Longrightarrow> mset (cr_ready c) + image_mset ci_item (due now c) = {#} \<and> mset (cr_ready c') = {#}"
    "r = Some it \<Longrightarrow> mset (cr_ready c) + image_mset ci_item (due now c) = add_mset it (mset (cr_ready c')) \<and> wf_item it \<and>
       (\<forall>x \<in># mset (cr_ready c) + image_mset ci_item (due now c). eff_dist cv it \<le> eff_dist cv x)"
    by blast+
qed

text \<open>
  The next node is one at the least effective distance among the ready ones and those whose cooldown
  has ended, and none of them is lost; nodes still cooling down are not touched. Only when there is
  no such node is the answer nil.
\<close>

theorem next_eligible_correct:
  assumes "wf_crawler cv c" and "next_eligible cv now c = (r, c')"
  shows "mset (cr_cooldown c') = filter_mset (\<lambda>ci. now < ci_next ci) (mset (cr_cooldown c)) \<and>
    (case r of
       None \<Rightarrow> cr_ready c' = [] \<and> mset (cr_ready c) + image_mset ci_item (due now c) = {#}
     | Some it \<Rightarrow> mset (cr_ready c) + image_mset ci_item (due now c) = add_mset it (mset (cr_ready c')) \<and>
         (\<forall>x \<in># mset (cr_ready c) + image_mset ci_item (due now c). eff_dist cv it \<le> eff_dist cv x))"
proof -
  note n = next_eligible_cases[OF assms]
  have "mset (cr_cooldown c) - due now c = filter_mset (\<lambda>ci. now < ci_next ci) (mset (cr_cooldown c))"
    by (subst multiset_partition[of _ "\<lambda>ci. ci_next ci \<le> now"]) (simp add: not_le)
  then show ?thesis
  proof (cases r)
    case None
    then show ?thesis using n(5) n(6) \<open>mset (cr_cooldown c) - due now c = _\<close> by simp
  next
    case (Some it)
    show ?thesis using n(5) n(7)[OF Some] \<open>mset (cr_cooldown c) - due now c = _\<close> unfolding Some option.case by metis
  qed
qed


subsection \<open>One pass keeps the invariant\<close>

lemma push_to_ready_wf:
  assumes "wf_crawler cv c" "wf_id (nid n)" "wf_id target"
  shows "wf_crawler cv (snd (push_to_ready cv n target c)) \<and> cr_cfg (snd (push_to_ready cv n target c)) = cr_cfg c"
proof -
  let ?it = "\<lambda>k. \<lparr>ti_node = n, ti_target = target, ti_dist = xor_id target (nid n), ti_failures = 0, ti_yield = k\<rparr>"
  have "wf_item (?it k)" for k using assms by (simp add: wf_item_def)
  moreover have "is_heap (eff_dist cv) (cr_ready c)" using assms by (simp add: wf_crawler_def)
  ultimately show ?thesis
    using assms(1) ready_q.ok_push by (simp add: push_to_ready_def Let_def wf_crawler_def)
qed

lemma push_list_wf:
  "wf_crawler cv c \<Longrightarrow> list_all (\<lambda>n. wf_id (nid n)) ns \<Longrightarrow> wf_id target \<Longrightarrow>
     wf_crawler cv (fold (\<lambda>n c. snd (push_to_ready cv n target c)) ns c) \<and>
     cr_cfg (fold (\<lambda>n c. snd (push_to_ready cv n target c)) ns c) = cr_cfg c"
  by (induction ns arbitrary: c) (simp_all add: push_to_ready_wf)

lemma seed_queue_wf:
  assumes "wf_crawler cv c" "wf_table rt" "wf_id target"
  shows "wf_crawler cv (seed_queue cv target rt c) \<and> cr_cfg (seed_queue cv target rt c) = cr_cfg c"
  unfolding seed_queue_def
  using assms all_nodes_wf_id[OF assms(2)] closest_subset[of rt target "cc_width (cr_cfg c)"]
  by (intro push_list_wf) (auto simp: list_all_iff)

lemma trim_ready_wf:
  assumes "wf_crawler cv c"
  shows "wf_crawler cv (trim_ready_to_k cv c) \<and> cr_cfg (trim_ready_to_k cv c) = cr_cfg c"
  using assms heap_init_correct
  by (auto simp: trim_ready_to_k_def wf_crawler_def traversal_less_key dest!: in_set_takeD)

lemma take_batch_wf:
  "wf_crawler cv c \<Longrightarrow> take_batch cv now k c = (batch, c') \<Longrightarrow>
     wf_crawler cv c' \<and> cr_cfg c' = cr_cfg c \<and> list_all wf_item batch \<and> length batch \<le> k"
proof (induction k arbitrary: c batch c')
  case (Suc k)
  obtain r c1 where ne: "next_eligible cv now c = (r, c1)" by force
  note n = next_eligible_cases[OF Suc.prems(1) ne]
  show ?case
  proof (cases r)
    case (Some it)
    let ?c2 = "c1\<lparr>cr_seen := cache_set (nid (ti_node it)) now (cr_seen c1)\<rparr>"
    obtain b2 c2 where tb: "take_batch cv now k ?c2 = (b2, c2)" by force
    have "wf_crawler cv ?c2" using n(1) by (simp add: wf_crawler_def cache_kv.put_ok)
    from Suc.IH[OF this tb] show ?thesis using Suc.prems(2) ne Some n tb by auto
  qed (use Suc.prems ne n in auto)
qed simp

text \<open>The server as the crawlers need it: its own invariant, a filter, and BEP-42 nodes only.\<close>

definition net_ok :: "('b, 'l) server \<Rightarrow> bool" where
  "net_ok s \<longleftrightarrow> wf_server s \<and> s_dedup s \<noteq> None \<and> (\<forall>x \<in> set (all_nodes (s_table s)). bep42_ok x)"

lemma net_ok_update:
  "net_ok s \<Longrightarrow> wf_table rt \<Longrightarrow> \<forall>x \<in> set (all_nodes rt). bep42_ok x \<Longrightarrow> list_all (\<lambda>(a, i). wf_id i) ps \<Longrightarrow>
     net_ok (s\<lparr>s_table := rt, s_spawned := s_spawned s @ ps\<rparr>)"
  by (simp add: net_ok_def wf_server_def)

lemma net_ok_table: "net_ok s \<Longrightarrow> wf_table (s_table s) \<and> (\<forall>x \<in> set (all_nodes (s_table s)). bep42_ok x)"
  by (simp add: net_ok_def wf_server_def)

lemma net_ok_insert:
  assumes "net_ok s" "wf_id (nid n)" "validate_node_id_for_ip (ip (naddr n)) (nid n) = Inr u"
  shows "\<exists>res rt ps. insert_node now n (s_table s) = Inr (res, rt, ps) \<and>
    net_ok (s\<lparr>s_table := rt, s_spawned := s_spawned s @ ps\<rparr>)"
proof -
  have wf: "wf_table (s_table s)" using net_ok_table[OF assms(1)] by simp
  obtain res rt ps where ins: "insert_node now n (s_table s) = Inr (res, rt, ps)"
    using insert_node_correct[OF wf assms(2)] by blast
  then have v: "insert_valid_node now n (s_table s) = Inr (res, rt, ps)"
    using assms(3) by (simp add: insert_valid_node_def)
  have "wf_table rt \<and> (\<forall>x \<in> set (all_nodes rt). bep42_ok x)"
    using bep42_step[OF net_ok_table[OF assms(1)], of "Insert_Valid now n"] assms(2) v by simp
  moreover have "list_all (\<lambda>(a, i). wf_id i) ps"
    using insert_valid_node_wf[OF wf assms(2), of now] v by auto
  ultimately show ?thesis using ins net_ok_update[OF assms(1)] by blast
qed

lemma net_ok_marks:
  assumes "net_ok s" "wf_id i"
  shows "net_ok (s\<lparr>s_table := mark_success now i (s_table s)\<rparr>)" "net_ok (s\<lparr>s_table := mark_failure now i (s_table s)\<rparr>)"
  using assms(1) bep42_step[OF net_ok_table[OF assms(1)], of "Success now i"]
    bep42_step[OF net_ok_table[OF assms(1)], of "Failure now i"] assms(2)
  by (auto simp: net_ok_def wf_server_def)

lemma learn_nodes_ok:
  "wf_crawler cv c \<Longrightarrow> net_ok s \<Longrightarrow> wf_id target \<Longrightarrow> list_all (\<lambda>n. wf_id (nid n)) ns \<Longrightarrow>
     \<exists>c' s'. learn_nodes cv now target ns (c, s) = Inr (c', s') \<and> wf_crawler cv c' \<and> net_ok s' \<and> cr_cfg c' = cr_cfg c"
proof (induction cv now target ns "(c, s)" arbitrary: c s rule: learn_nodes.induct)
  case (2 cv now target n ns c s)
  show ?case
  proof (cases "validate_node_id_for_ip (ip (naddr n)) (nid n)")
    case (Inl e)
    then show ?thesis using 2 by simp
  next
    case (Inr u)
    obtain res rt ps where ins: "insert_node now n (s_table s) = Inr (res, rt, ps)"
      and ok: "net_ok (s\<lparr>s_table := rt, s_spawned := s_spawned s @ ps\<rparr>)"
      using net_ok_insert[OF "2.prems"(2) _ Inr, of now] "2.prems"(4) by auto
    note p = push_to_ready_wf[OF "2.prems"(1) _ "2.prems"(3), of n]
    show ?thesis using "2.hyps"(2)[OF Inr ins refl refl] ok p ins Inr "2.prems"(3,4) by auto
  qed
qed simp

lemma process_nodes_ok:
  assumes "wf_crawler cv c" "net_ok s" "wf_id target"
  shows "\<exists>c' s'. process_nodes cv now bs target (c, s) = Inr (c', s') \<and> wf_crawler cv c' \<and> net_ok s' \<and> cr_cfg c' = cr_cfg c"
proof (cases "decode_nodes bs")
  case (Inr ns)
  then obtain c1 s1 where "learn_nodes cv now target ns (c, s) = Inr (c1, s1)" "wf_crawler cv c1" "net_ok s1" "cr_cfg c1 = cr_cfg c"
    using learn_nodes_ok[OF assms decode_nodes_wf[OF Inr]] by blast
  then show ?thesis using Inr trim_ready_wf[of cv c1] by (simp add: process_nodes_def)
qed (use assms in \<open>simp add: process_nodes_def\<close>)

lemma cool_down_wf:
  assumes "wf_crawler cv c" "wf_item it"
  shows "wf_crawler cv (cool_down nxt it c) \<and> cr_cfg (cool_down nxt it c) = cr_cfg c"
proof -
  have "is_heap ci_next (cr_cooldown c)" using assms(1) by (simp add: wf_crawler_def)
  then show ?thesis
    using assms cooldown_q.ok_push by (simp add: cool_down_def wf_crawler_def cache_kv.put_ok cooldown_less_key)
qed

lemma handle_result_ok:
  assumes "wf_crawler cv c" "net_ok s" "wf_item (qr_item r)"
  shows "\<exists>c' s'. handle_result cv now rnd r (c, s) = Inr (c', s') \<and> wf_crawler cv c' \<and> net_ok s' \<and> cr_cfg c' = cr_cfg c"
proof -
  have ids: "wf_id (nid (ti_node (qr_item r)))" "wf_id (ti_target (qr_item r))" using assms(3) by (simp_all add: wf_item_def)
  show ?thesis
  proof (cases "qr_resp r")
    case (Inl e)
    have "wf_crawler cv (c\<lparr>cr_seen := cache_delete i (cr_seen c)\<rparr>)" for i
      using assms(1) by (simp add: wf_crawler_def cache_kv.del_ok)
    then show ?thesis
      using Inl assms net_ok_marks(2)[OF assms(2) ids(1)] cool_down_wf[OF assms(1)]
      by (simp add: handle_result_def Let_def)
  next
    case (Inr m)
    obtain c1 s1 where "(case m_r m of None \<Rightarrow> Inr (c, s)
          | Some r' \<Rightarrow> if length (ret_nodes r') > 0 then process_nodes cv now (ret_nodes r') (ti_target (qr_item r)) (c, s) else Inr (c, s))
        = Inr (c1, s1)" "wf_crawler cv c1" "net_ok s1" "cr_cfg c1 = cr_cfg c"
      using process_nodes_ok[OF assms(1,2) ids(2), of now "ret_nodes (the (m_r m))"] assms(1,2)
      by (cases "m_r m"; cases "ret_nodes (the (m_r m)) = []") auto
    then show ?thesis
      using Inr assms(3) net_ok_marks(1)[OF _ ids(1)] cool_down_wf[of cv c1]
      by (simp add: handle_result_def Let_def)
  qed
qed


lemma query_for_samples_wf:
  "wf_crawler cv c \<Longrightarrow> query_for_samples now reply it c = (ans, c') \<Longrightarrow>
     wf_crawler cv c' \<and> cr_cfg c' = cr_cfg c"
  by (auto simp: query_for_samples_def Let_def wf_crawler_def cache_kv.put_ok split: sum.splits if_splits)

definition crawl_inv :: "(rat \<Rightarrow> byte) \<Rightarrow> ('b, 'l) crawl_state \<Rightarrow> bool" where
  "crawl_inv cv st \<longleftrightarrow> wf_crawler cv (cs_crawler st) \<and> net_ok (cs_server st) \<and> wf_chan (cs_queue st)"

text \<open>The only panic: the counter rejects a value.\<close>

definition counter_panic :: "(int \<Rightarrow> bool) \<Rightarrow> panic \<Rightarrow> bool" where
  "counter_panic ctr p \<longleftrightarrow> p = LibraryPanic \<and> (\<exists>v. \<not> ctr v)"

definition safely :: "(int \<Rightarrow> bool) \<Rightarrow> ('a \<Rightarrow> bool) \<Rightarrow> 'a outcome \<Rightarrow> bool" where
  "safely ctr P out \<longleftrightarrow> (case out of Inl p \<Rightarrow> counter_panic ctr p | Inr x \<Rightarrow> P x)"

lemma safelyE:
  assumes "safely ctr P out"
  obtains p where "out = Inl p" "counter_panic ctr p" | x where "out = Inr x" "P x"
  using assms by (cases out) (auto simp: safely_def)

lemma safely_simps [simp]:
  "safely ctr P (Inl p) = counter_panic ctr p" "safely ctr P (Inr x) = P x"
  by (simp_all add: safely_def)

lemma enqueue_sample_chan: "wf_chan (en_queue e) \<Longrightarrow> wf_chan (en_queue (enqueue_sample lib k src h e))"
  by (auto simp: enqueue_sample_def Let_def chan_try_send_def wf_chan_def split: prod.split)

lemma enqueue_samples_chan: "wf_chan (en_queue e) \<Longrightarrow> wf_chan (en_queue (enqueue_samples lib recv src k hs e))"
  by (induction lib recv src k hs e rule: enqueue_samples.induct) (simp_all add: enqueue_sample_chan)

lemma net_ok_dedup: "net_ok s \<Longrightarrow> net_ok (s\<lparr>s_dedup := Some f\<rparr>)"
  by (simp add: net_ok_def wf_server_def)

abbreviation same_run :: "('b, 'l) crawl_state \<Rightarrow> ('b, 'l) crawl_state \<Rightarrow> bool" where
  "same_run st st' \<equiv> cr_cfg (cs_crawler st') = cr_cfg (cs_crawler st) \<and> cs_iteration st' = cs_iteration st"

lemma process_samples_ok:
  assumes "crawl_inv cv st" and "wf_item it"
  shows "safely ctr (\<lambda>(it', st'). wf_item it' \<and> crawl_inv cv st' \<and> same_run st st') (process_samples lib ctr recv bs it st)"
proof -
  obtain f where f: "s_dedup (cs_server st) = Some f" using assms(1) by (auto simp: crawl_inv_def net_ok_def)
  show ?thesis
    using assms f
    by (auto simp: enqueue_samples_chan process_samples_def Let_def crawl_inv_def wf_crawler_def counter_panic_def cache_kv.put_ok net_ok_dedup)
qed

lemma query_item_ok:
  assumes "crawl_inv cv st" and "wf_item it"
  shows "safely ctr (\<lambda>(r, st'). wf_item (qr_item r) \<and> crawl_inv cv st' \<and> same_run st st') (query_item lib ctr env k it st)"
proof -
  obtain ans c where q: "query_for_samples (env_query_now env k) (env_samples env k) it (cs_crawler st) = (ans, c)" by force
  have inv: "crawl_inv cv (st\<lparr>cs_crawler := c\<rparr>)" "cr_cfg c = cr_cfg (cs_crawler st)"
    using query_for_samples_wf[OF _ q, of cv] assms(1) by (simp_all add: crawl_inv_def)
  note ps = process_samples_ok[OF inv(1) assms(2), of ctr lib]
  have panic: "counter_panic ctr p" if "process_samples lib ctr recv bs it (st\<lparr>cs_crawler := c\<rparr>) = Inl p" for recv bs p
    using ps[of recv bs] that by simp
  have step: "wf_item a \<and> crawl_inv cv st' \<and> same_run st st'"
    if "process_samples lib ctr recv bs it (st\<lparr>cs_crawler := c\<rparr>) = Inr (a, st')" for recv bs a st'
    using ps[of recv bs] that inv(2) by simp
  show ?thesis
    using inv assms(2) by (auto simp: query_item_def q Let_def split: sum.split option.split dest: panic step)
qed

lemma query_batch_ok:
  "crawl_inv cv st \<Longrightarrow> list_all wf_item its \<Longrightarrow>
     safely ctr (\<lambda>(rs, st'). list_all (\<lambda>r. wf_item (qr_item r)) rs \<and> crawl_inv cv st' \<and> same_run st st') (query_batch lib ctr env k its st)"
proof (induction its arbitrary: k st)
  case (Cons it its)
  from Cons.prems have "wf_item it" by simp
  from query_item_ok[OF Cons.prems(1) this, of ctr lib env k] show ?case
  proof (cases rule: safelyE)
    case (2 x)
    obtain r st1 where x: "x = (r, st1)" by force
    have inv: "crawl_inv cv st1" "list_all wf_item its" using 2 x Cons.prems(2) by simp_all
    from Cons.IH[OF inv, of "k + 1"] show ?thesis
      by (cases rule: safelyE) (use 2 x in auto)
  qed simp
qed simp

lemma handle_results_ok:
  "wf_crawler cv c \<Longrightarrow> net_ok s \<Longrightarrow> list_all (\<lambda>r. wf_item (qr_item r)) rs \<Longrightarrow>
     \<exists>c' s'. handle_results cv env k rs (c, s) = Inr (c', s') \<and> wf_crawler cv c' \<and> net_ok s' \<and> cr_cfg c' = cr_cfg c"
proof (induction rs arbitrary: k c s)
  case (Cons r rs)
  from Cons.prems have "wf_item (qr_item r)" by simp
  from handle_result_ok[OF Cons.prems(1,2) this, of "env_result_now env k" "env_rnd env k"]
  obtain c1 s1 where h: "handle_result cv (env_result_now env k) (env_rnd env k) r (c, s) = Inr (c1, s1)"
    "wf_crawler cv c1" "net_ok s1" "cr_cfg c1 = cr_cfg c" by blast
  from Cons.IH[OF h(2,3), of "k + 1"] Cons.prems(3) show ?case using h by auto
qed simp

lemma forget_eq:
  "forget is c = c\<lparr>cr_seen := fold cache_delete is (cr_seen c), cr_samples := fold cache_delete is (cr_samples c)\<rparr>"
proof -
  have "fold (\<lambda>i c. c\<lparr>cr_seen := cache_delete i (cr_seen c), cr_samples := cache_delete i (cr_samples c)\<rparr>) is c =
      c\<lparr>cr_seen := fold cache_delete is (cr_seen c), cr_samples := fold cache_delete is (cr_samples c)\<rparr>"
    by (induction "is" arbitrary: c) simp_all
  then show ?thesis by (simp add: forget_def)
qed

lemma cr_cfg_forget [simp]: "cr_cfg (forget is c) = cr_cfg c"
  by (simp add: forget_eq)

lemma forget_wf: "wf_crawler cv c \<Longrightarrow> wf_crawler cv (forget is c)"
  by (simp add: forget_eq wf_crawler_def cache_kv.del_all_ok)

lemma prune_wf: "wf_crawler cv c \<Longrightarrow> wf_crawler cv (prune_stale_in_flight now c) \<and> cr_cfg (prune_stale_in_flight now c) = cr_cfg c"
  by (simp add: prune_stale_in_flight_def Let_def forget_wf)

fun env_ok :: "crawl_env \<Rightarrow> bool" where
  "env_ok env \<longleftrightarrow> wf_id (env_retarget env) \<and> wf_id (env_idle env) \<and> wf_id (env_rotate env)"

lemma net_ok_wf_table: "net_ok s \<Longrightarrow> wf_table (s_table s)"
  by (simp add: net_ok_table)

lemma end_pass_ok:
  assumes "crawl_inv cv st" "env_ok env" "cc_max_iterations (cr_cfg (cs_crawler st)) > 0"
  shows "\<exists>st'. end_pass cv env st = Inr st' \<and> crawl_inv cv st' \<and> cr_cfg (cs_crawler st') = cr_cfg (cs_crawler st)"
proof -
  define c where "c = (if (cs_iteration st + 1) mod 50 = 0 then prune_stale_in_flight (env_prune_now env) (cs_crawler st) else cs_crawler st)"
  have c: "wf_crawler cv c" "cr_cfg c = cr_cfg (cs_crawler st)"
    using assms(1) prune_wf[of cv "cs_crawler st"] by (auto simp: c_def crawl_inv_def)
  have "wf_crawler cv (c\<lparr>cr_ready := heap_init (traversal_less cv) []\<rparr>)"
    using c(1) heap_init_correct by (simp add: wf_crawler_def traversal_less_key)
  from seed_queue_wf[OF this net_ok_wf_table, of "cs_server st" "env_rotate env"] show ?thesis
    using assms c unfolding end_pass_def Let_def c_def[symmetric] by (simp add: crawl_inv_def)
qed

lemma crawl_pass_ok:
  assumes "crawl_inv cv st" "env_ok env" "cc_max_iterations (cr_cfg (cs_crawler st)) > 0"
  shows "safely ctr (\<lambda>(ev, st'). crawl_inv cv st' \<and> cr_cfg (cs_crawler st') = cr_cfg (cs_crawler st)) (crawl_pass lib cv ctr env st)"
proof -
  define c0 where "c0 = (cs_crawler st)\<lparr>cr_backlog := 0\<rparr>"
  define st1 where "st1 = (if length (cr_ready c0) < cc_alpha (cr_cfg c0)
      then st\<lparr>cs_target := env_retarget env, cs_crawler := seed_queue cv (env_retarget env) (s_table (cs_server st)) c0\<rparr>
      else st\<lparr>cs_crawler := c0\<rparr>)"
  have wt: "wf_table (s_table (cs_server st))" using assms(1) by (simp add: crawl_inv_def net_ok_wf_table)
  have c0: "wf_crawler cv c0" "cr_cfg c0 = cr_cfg (cs_crawler st)" using assms(1) by (simp_all add: c0_def crawl_inv_def)
  have st1: "crawl_inv cv st1" "cr_cfg (cs_crawler st1) = cr_cfg (cs_crawler st)"
    using seed_queue_wf[OF c0(1) wt, of "env_retarget env"] assms c0 by (simp_all add: st1_def crawl_inv_def)
  obtain batch c1 where tb: "take_batch cv (env_now env) (cc_alpha (cr_cfg c0)) (cs_crawler st1) = (batch, c1)" by force
  have b: "wf_crawler cv c1" "cr_cfg c1 = cr_cfg (cs_crawler st)" "list_all wf_item batch"
    using take_batch_wf[OF _ tb] st1 by (simp_all add: crawl_inv_def)
  have unf: "crawl_pass lib cv ctr env st =
      (let st2 = st1\<lparr>cs_crawler := c1\<rparr> in
        if batch = [] then
          (case cr_cooldown c1 of
             ci # rest \<Rightarrow> Inr (Waited (ci_next ci), st2)
           | [] \<Rightarrow> Inr (Reseeded, st2\<lparr>cs_target := env_idle env,
                          cs_crawler := seed_queue cv (env_idle env) (s_table (cs_server st2)) c1\<rparr>))
        else case query_batch lib ctr env 0 batch st2 of
          Inl p \<Rightarrow> Inl p
        | Inr (rs, st3) \<Rightarrow>
            (case handle_results cv env 0 rs (cs_crawler st3, cs_server st3) of
               Inl p \<Rightarrow> Inl p
             | Inr (c2, s2) \<Rightarrow>
                 (case end_pass cv env (st3\<lparr>cs_crawler := c2, cs_server := s2\<rparr>) of
                    Inl p \<Rightarrow> Inl p
                  | Inr st4 \<Rightarrow> Inr (Queried (length batch), st4))))"
    using tb unfolding crawl_pass_def Let_def c0_def[symmetric] st1_def[symmetric] by simp
  have st2: "crawl_inv cv (st1\<lparr>cs_crawler := c1\<rparr>)" using st1(1) b(1) by (simp add: crawl_inv_def)
  have wt1: "wf_table (s_table (cs_server st1))" using st1(1) by (simp add: crawl_inv_def net_ok_wf_table)
  show ?thesis
  proof (cases "batch = []")
    case True
    then show ?thesis
      using st2 b seed_queue_wf[OF b(1) wt1, of "env_idle env"] assms(2)
      unfolding unf by (cases "cr_cooldown c1") (simp_all add: crawl_inv_def)
  next
    case False
    from query_batch_ok[OF st2 b(3), of ctr lib env 0] show ?thesis
    proof (cases rule: safelyE)
      case (1 p)
      then show ?thesis using False unfolding unf by simp
    next
      case (2 x)
      obtain rs st3 where x: "x = (rs, st3)" by force
      have q: "list_all (\<lambda>r. wf_item (qr_item r)) rs" "wf_crawler cv (cs_crawler st3)" "net_ok (cs_server st3)"
        "cr_cfg (cs_crawler st3) = cr_cfg (cs_crawler st)" "wf_chan (cs_queue st3)"
        using 2 x b by (simp_all add: crawl_inv_def)
      obtain c2 s2 where h: "handle_results cv env 0 rs (cs_crawler st3, cs_server st3) = Inr (c2, s2)"
        "wf_crawler cv c2" "net_ok s2" "cr_cfg c2 = cr_cfg (cs_crawler st3)"
        using handle_results_ok[OF q(2,3,1)] by blast
      have "crawl_inv cv (st3\<lparr>cs_crawler := c2, cs_server := s2\<rparr>)" using q h by (simp add: crawl_inv_def)
      from end_pass_ok[OF this assms(2)] show ?thesis
        using 2 x h q assms(3) False unfolding unf by auto
    qed
  qed
qed

lemma crawl_run_ok:
  "crawl_inv cv st \<Longrightarrow> list_all env_ok envs \<Longrightarrow> cc_max_iterations (cr_cfg (cs_crawler st)) > 0 \<Longrightarrow>
     safely ctr (crawl_inv cv) (crawl lib cv ctr envs st)"
proof (induction envs arbitrary: st)
  case (Cons env envs)
  from Cons.prems have "env_ok env" by simp
  from crawl_pass_ok[OF Cons.prems(1) this Cons.prems(3), of ctr lib] show ?case
    by (cases rule: safelyE) (use Cons in auto)
qed simp

text \<open>
  A crawler started on a sound server runs any number of passes, whatever the network answers,
  without a panic of its own: the only one possible is the metrics library rejecting a counter
  value. The heaps stay heaps of well-formed items, the queue stays within its capacity, and the
  server stays sound with a table of BEP-42 nodes only.
\<close>

theorem crawl_safe:
  assumes "net_ok s" and "wf_id target" and "wf_chan q" and "0 < cc_max_iterations cfg" and "list_all env_ok envs"
  shows "case crawl lib cv ctr envs (start_crawl cv target q s (new_crawler clock cfg)) of
      Inl p \<Rightarrow> counter_panic ctr p
    | Inr st \<Rightarrow> crawl_inv cv st"
proof -
  let ?c = "new_crawler clock cfg"
  have start: "?c\<lparr>cr_ready := heap_init (traversal_less cv) (cr_ready ?c), cr_cooldown := heap_init cooldown_less (cr_cooldown ?c)\<rparr> = ?c"
    by (simp add: new_crawler_def)
  have cfg: "cr_cfg ?c = cfg" by (simp add: new_crawler_def)
  have "crawl_inv cv (start_crawl cv target q s ?c)" "cr_cfg (cs_crawler (start_crawl cv target q s ?c)) = cfg"
    using assms seed_queue_wf[OF new_crawler_wf net_ok_wf_table[OF assms(1)] assms(2), of cv clock cfg]
    unfolding start_crawl_def Let_def start by (simp_all add: crawl_inv_def cfg)
  from crawl_run_ok[OF this(1) assms(5)] this(2) assms(4) show ?thesis by (simp add: safely_def)
qed

end
