(* ===== verification/Crawler_Effects.thy ===== *)
theory Crawler_Effects
  imports Crawler_Safety
begin

section \<open>What the crawler's operations do\<close>

text \<open>
  When nodes are asked again, which nodes are forgotten, what becomes of the samples, and how the
  yield of a node changes its place. The last three hold behaviour the code does not intend.
\<close>

subsection \<open>Intervals\<close>

lemma compute_interval_bounds:
  assumes "0 \<le> cc_default_interval (cr_cfg c)"
  shows "cc_default_interval (cr_cfg c) \<le> compute_interval c k \<or> 0 < cc_max_interval (cr_cfg c) \<and> compute_interval c k = cc_max_interval (cr_cfg c)"
    "0 < cc_max_interval (cr_cfg c) \<Longrightarrow> compute_interval c k \<le> max (cc_default_interval (cr_cfg c)) (cc_max_interval (cr_cfg c))"
  using assms by (auto simp: compute_interval_def Let_def)

lemma next_interval_bounds:
  assumes "0 \<le> cc_default_interval (cr_cfg c)" "cc_default_interval (cr_cfg c) \<le> cc_max_interval (cr_cfg c)"
  shows "cc_default_interval (cr_cfg c) \<le> next_interval c k num returned"
    "0 < cc_max_interval (cr_cfg c) \<Longrightarrow> next_interval c k num returned \<le> cc_max_interval (cr_cfg c)"
  using assms compute_interval_bounds[of c k] by (auto simp: next_interval_def Let_def)

lemma jitter_bounds: "0 \<le> jitter m rnd" "jitter m rnd \<le> max 0 m"
  by (auto simp: jitter_def intro: order_less_imp_le)

lemma push_to_ready_seen: "cr_seen (snd (push_to_ready cv n target c)) = cr_seen c \<and> cr_cooldown (snd (push_to_ready cv n target c)) = cr_cooldown c \<and>
    cr_cfg (snd (push_to_ready cv n target c)) = cr_cfg c"
  by (simp add: push_to_ready_def Let_def)

lemma learn_nodes_seen:
  "learn_nodes cv now target ns (c, s) = Inr (c', s') \<Longrightarrow>
     cr_seen c' = cr_seen c \<and> cr_cooldown c' = cr_cooldown c \<and> cr_cfg c' = cr_cfg c"
  by (induction cv now target ns "(c, s)" arbitrary: c s rule: learn_nodes.induct)
    (auto simp: push_to_ready_seen split: sum.splits prod.splits)

lemma process_nodes_seen:
  "process_nodes cv now bs target (c, s) = Inr (c', s') \<Longrightarrow>
     cr_seen c' = cr_seen c \<and> cr_cooldown c' = cr_cooldown c \<and> cr_cfg c' = cr_cfg c"
  by (auto simp: process_nodes_def trim_ready_to_k_def split: sum.splits prod.splits dest: learn_nodes_seen)

text \<open>
  A node that answered is not due again before the default interval has passed, and at the latest
  after the maximal interval and the jitter, whatever interval the node claims: a claim beyond the
  range of an \<^verbatim>\<open>int64\<close> duration wraps around and still cannot escape the bounds. Its failures are
  cleared, and it goes to the cooldown heap and nowhere else.
\<close>

theorem requery_spacing:
  assumes "0 \<le> cc_default_interval (cr_cfg c)" and "cc_default_interval (cr_cfg c) \<le> cc_max_interval (cr_cfg c)"
    and "0 < cc_max_interval (cr_cfg c)"
    and "qr_resp r = Inr m" and "handle_result cv now rnd r (c, s) = Inr (c', s')"
  shows "\<exists>nxt. cache_get (cr_seen c') (nid (ti_node (qr_item r))) = Some nxt \<and>
    now + cc_default_interval (cr_cfg c) \<le> nxt \<and>
    nxt \<le> now + cc_max_interval (cr_cfg c) + max 0 (cc_max_jitter (cr_cfg c)) \<and>
    mset (cr_cooldown c') = add_mset \<lparr>ci_item = (qr_item r)\<lparr>ti_failures := 0\<rparr>, ci_next = nxt\<rparr> (mset (cr_cooldown c))"
proof -
  define out where "out = (case m_r m of None \<Rightarrow> Inr (c, s)
      | Some r' \<Rightarrow> if length (ret_nodes r') > 0 then process_nodes cv now (ret_nodes r') (ti_target (qr_item r)) (c, s) else Inr (c, s))"
  obtain c1 s1 where out: "out = Inr (c1, s1)"
    using assms(4,5) unfolding handle_result_def Let_def by (auto simp: out_def[symmetric] split: sum.splits)
  have frame: "cr_seen c1 = cr_seen c \<and> cr_cooldown c1 = cr_cooldown c \<and> cr_cfg c1 = cr_cfg c"
    using out process_nodes_seen[of cv now _ _ c s c1 s1] by (auto simp: out_def split: option.splits if_splits)
  let ?nxt = "now + (next_interval c1 (qr_interval r) (qr_num r) (qr_returned r) + jitter (cc_max_jitter (cr_cfg c1)) rnd)"
  have c': "c' = cool_down ?nxt ((qr_item r)\<lparr>ti_failures := 0\<rparr>) c1"
    using assms(4,5) out by (simp add: handle_result_def Let_def out_def)
  have "cache_get (cr_seen c') (nid (ti_node (qr_item r))) = Some ?nxt"
    "mset (cr_cooldown c') = add_mset \<lparr>ci_item = (qr_item r)\<lparr>ti_failures := 0\<rparr>, ci_next = ?nxt\<rparr> (mset (cr_cooldown c))"
    using frame by (simp_all add: c' cool_down_def cache_kv.get_put)
  moreover have "now + cc_default_interval (cr_cfg c) \<le> ?nxt" "?nxt \<le> now + cc_max_interval (cr_cfg c) + max 0 (cc_max_jitter (cr_cfg c))"
    using next_interval_bounds[of c1 "qr_interval r" "qr_num r" "qr_returned r"] jitter_bounds[of "cc_max_jitter (cr_cfg c1)" rnd]
      frame assms(1-3) by simp_all
  ultimately show ?thesis by blast
qed

definition sample_crawler_config :: crawler_config where
  "sample_crawler_config = \<lparr>cc_alpha = 3, cc_max_iterations = 4, cc_width = 1, cc_default_cooldown = 2 * second,
     cc_default_interval = 10 * second, cc_max_failures = 3, cc_max_jitter = 500000000, cc_cache_cleanup = hour,
     cc_txn_timeout = 10 * second, cc_max_interval = 10 * minute, cc_discovery_iterations = 3\<rparr>"

definition sample_item :: traversal_item where
  "sample_item = \<lparr>ti_node = sample_node, ti_target = replicate 20 3, ti_dist = xor_id (replicate 20 3) (nid sample_node),
     ti_failures = 1, ti_yield = 0\<rparr>"

abbreviation sample_crawler :: crawler where
  "sample_crawler \<equiv> new_crawler (\<lambda>u. 0) sample_crawler_config"

theorem requery_spacing_witness:
  "\<exists>nxt. cache_get (cr_seen (cool_down (900 + (10 * minute + 7)) (sample_item\<lparr>ti_failures := 0\<rparr>) sample_crawler)) (nid sample_node) = Some nxt \<and>
     900 + 10 * second \<le> nxt"
proof -
  define r where "r = \<lparr>qr_item = sample_item, qr_resp = Inr empty_msg, qr_interval = 21600, qr_num = 0, qr_returned = 0\<rparr>"
  have "handle_result (\<lambda>x. 0) 900 7 r (sample_crawler, sample_server) =
      Inr (cool_down (900 + (10 * minute + 7)) (sample_item\<lparr>ti_failures := 0\<rparr>) sample_crawler,
           sample_server\<lparr>s_table := mark_success 900 (nid sample_node) (s_table sample_server)\<rparr>)"
    by (simp add: handle_result_def r_def empty_msg_def sample_item_def next_interval_def compute_interval_def Let_def
        new_crawler_def sample_crawler_config_def jitter_def int64_def)
  from requery_spacing[OF _ _ _ _ this, of empty_msg] show ?thesis
    by (auto simp: r_def sample_item_def new_crawler_def sample_crawler_config_def)
qed


subsection \<open>Forgetting\<close>

lemma entries_forget: "entries (fold cache_delete is s) = filter (\<lambda>(k, v). k \<notin> set is) (entries s)"
proof (induction "is" arbitrary: s)
  case (Cons i "is")
  then show ?case by (auto simp: cache_delete_def map_del_def case_prod_beta intro!: filter_cong)
qed simp

abbreviation stale_entries :: "instant \<Rightarrow> crawler \<Rightarrow> (node_id \<times> instant) list" where
  "stale_entries now c \<equiv>
     filter (\<lambda>(i, t). t < now - 2 * cc_txn_timeout (cr_cfg c) \<and> \<not> in_cooldown c i) (cache_items (cr_seen c))"

lemma prune_seen:
  "\<exists>ks. set ks \<subseteq> {i. \<not> in_cooldown c i} \<and>
     prune_stale_in_flight now c = forget ks (forget (map fst (stale_entries now c)) c)"
proof (cases "cache_size (cr_seen (forget (map fst (stale_entries now c)) c)) \<le> 4 * cc_width (cr_cfg c)")
  case True
  then show ?thesis
    by (intro exI[of _ "[]"]) (simp add: prune_stale_in_flight_def Let_def forget_def)
next
  case False
  then show ?thesis
    unfolding prune_stale_in_flight_def Let_def if_not_P[OF False]
    by (intro exI conjI, rule_tac [2] refl) (auto dest!: in_set_takeD)
qed

text \<open>
  Pruning never forgets a node that is cooling down, forgets every other node that was not touched
  for two transaction timeouts, and adds nothing.
\<close>

theorem prune_spares_cooldown:
  assumes "wf_crawler cv c"
  shows "(in_cooldown c i \<longrightarrow> cache_get (cr_seen (prune_stale_in_flight now c)) i = cache_get (cr_seen c) i) \<and>
    (\<not> in_cooldown c i \<and> cache_get (cr_seen c) i = Some t \<and> t < now - 2 * cc_txn_timeout (cr_cfg c) \<longrightarrow>
       cache_get (cr_seen (prune_stale_in_flight now c)) i = None) \<and>
    cache_get (cr_seen (prune_stale_in_flight now c)) i \<in> {None, cache_get (cr_seen c) i} \<and>
    cr_ready (prune_stale_in_flight now c) = cr_ready c \<and> cr_cooldown (prune_stale_in_flight now c) = cr_cooldown c"
proof -
  obtain ks where ks: "set ks \<subseteq> {i. \<not> in_cooldown c i}"
    and p: "prune_stale_in_flight now c = forget ks (forget (map fst (stale_entries now c)) c)"
    using prune_seen by blast
  have "i \<in> set (map fst (stale_entries now c))"
    if "\<not> in_cooldown c i" "cache_get (cr_seen c) i = Some t" "t < now - 2 * cc_txn_timeout (cr_cfg c)"
    using that by (force simp: cache_get_def cache_items_def dest!: map_of_SomeD)
  moreover have "in_cooldown c i \<Longrightarrow> i \<notin> set (map fst (stale_entries now c))" by auto
  ultimately show ?thesis
    using ks unfolding p by (auto simp: forget_eq cache_kv.get_del_all)
qed

lemma fst_filter_key:
  assumes "distinct (map fst es)" and "(k, v) \<in> set es"
  shows "k \<in> set (map fst (filter P es)) \<longleftrightarrow> P (k, v)"
proof
  assume "k \<in> set (map fst (filter P es))"
  then obtain v' where "(k, v') \<in> set es" "P (k, v')" by auto
  then show "P (k, v)" using eq_key_imp_eq_value[OF assms] by simp
next
  assume "P (k, v)"
  then show "k \<in> set (map fst (filter P es))" using assms(2) by force
qed

lemma sorted_zeros_first:
  fixes f :: "'a \<Rightarrow> int"
  assumes "\<forall>x \<in> set xs. 0 \<le> f x" and "p \<le> length (filter (\<lambda>x. f x = 0) xs)" and "x \<in> set (take p (sort_key f xs))"
  shows "f x = 0"
proof (rule ccontr)
  let ?ys = "sort_key f xs"
  assume nz: "f x \<noteq> 0"
  obtain i where i: "i < p" "i < length ?ys" "x = ?ys ! i" using assms(3) by (auto simp: in_set_conv_nth)
  then have pos: "0 < f x" using nz assms(1) by (metis nth_mem order_less_le set_sort)
  have "f y \<noteq> 0" if y: "y \<in> set (drop i ?ys)" for y
  proof -
    obtain j where "j < length (drop i ?ys)" "y = drop i ?ys ! j" using y in_set_conv_nth[of y "drop i ?ys"] by blast
    then have j: "i + j < length ?ys" "y = ?ys ! (i + j)" by simp_all
    then have "f x \<le> f y"
      using sorted_nth_mono[OF sorted_sort_key[of f xs], of i "i + j"] i by simp
    then show ?thesis using pos by simp
  qed
  then have none: "filter (\<lambda>x. f x = 0) (drop i ?ys) = []" by (auto simp: filter_empty_conv)
  have "length (filter (\<lambda>x. f x = 0) xs) = length (filter (\<lambda>x. f x = 0) ?ys)"
    by (simp only: size_mset[symmetric] mset_filter mset_sort)
  also have "filter (\<lambda>x. f x = 0) ?ys = filter (\<lambda>x. f x = 0) (take i ?ys)"
    using none by (metis append_Nil2 append_take_drop_id filter_append)
  also have "length (filter (\<lambda>x. f x = 0) (take i ?ys)) \<le> i"
    by (rule order_trans[OF length_filter_le]) simp
  finally show False using assms(2) i(1) by simp
qed

text \<open>
  The cap of four times the traversal width is not enforced when the first pass has deleted at least
  as many entries as the excess: the second pass sorts the snapshot it took before the deletions,
  finds the deleted identifiers first, because they now have the zero time, and deletes them again.
\<close>

theorem prune_cap_not_enforced:
  assumes "wf_crawler cv c" and "0 < now - 2 * cc_txn_timeout (cr_cfg c)"
    and "4 * cc_width (cr_cfg c) < cache_size (cr_seen c) - length (stale_entries now c)"
    and "cache_size (cr_seen c) - length (stale_entries now c) - 4 * cc_width (cr_cfg c) \<le> length (stale_entries now c)"
  shows "cache_size (cr_seen (prune_stale_in_flight now c)) = cache_size (cr_seen c) - length (stale_entries now c)"
proof -
  define P :: "node_id \<times> instant \<Rightarrow> bool" where
    "P = (\<lambda>(i, t). t < now - 2 * cc_txn_timeout (cr_cfg c) \<and> \<not> in_cooldown c i)"
  define es where "es = entries (cr_seen c)"
  define st where "st = map fst (filter P es)"
  define c1 where "c1 = forget st c"
  define f where "f i = (case cache_get (cr_seen c1) i of Some t \<Rightarrow> t | None \<Rightarrow> 0)" for i
  define ks where "ks = filter (\<lambda>i. \<not> in_cooldown c i) (map fst es)"
  define w where "w = 4 * cc_width (cr_cfg c)"
  have stale: "stale_entries now c = filter P es" by (simp add: P_def es_def cache_items_def)
  have size: "cache_size (cr_seen c) = length es" by (simp add: cache_size_def es_def)
  have dist: "distinct (map fst es)" using assms(1) by (simp add: es_def wf_crawler_def wf_cache_def wf_map_def map_keys_def)
  note in_st = fst_filter_key[OF dist, of _ _ P, folded st_def]
  have es1: "entries (cr_seen c1) = filter (\<lambda>e. \<not> P e) es"
    using in_st by (auto simp: c1_def forget_eq entries_forget es_def[symmetric] intro!: filter_cong)
  have n1: "cache_size (cr_seen c1) = length es - length (filter P es)"
    using sum_length_filter_compl[of P es] by (simp add: cache_size_def es1)
  have get1: "cache_get (cr_seen c1) i = (if i \<in> set st then None else map_of es i)" for i
    by (simp add: c1_def forget_eq cache_kv.get_del_all) (simp add: cache_get_def es_def)
  have nonneg: "0 \<le> f i \<and> (f i = 0 \<longrightarrow> cache_get (cr_seen c1) i = None)" if i: "i \<in> set ks" for i
  proof (cases "i \<in> set st")
    case False
    obtain t where t: "(i, t) \<in> set es" using i by (auto simp: ks_def)
    then have "map_of es i = Some t" using dist by simp
    moreover have "\<not> P (i, t)" using in_st[OF t] False by simp
    ultimately show ?thesis using i False assms(2) by (simp add: f_def get1 P_def ks_def)
  qed (simp add: f_def get1)
  have ks_P: "filter (\<lambda>i. i \<in> set st) ks = st"
  proof -
    have "filter (\<lambda>i. i \<in> set st) ks = filter (\<lambda>i. i \<in> set st) (map fst es)"
      unfolding ks_def filter_filter by (rule filter_cong[OF refl]) (auto simp: st_def P_def)
    also have "\<dots> = map fst (filter (\<lambda>e. fst e \<in> set st) es)" by (simp add: filter_map o_def)
    also have "filter (\<lambda>e. fst e \<in> set st) es = filter P es"
      using in_st by (auto intro!: filter_cong)
    finally show ?thesis by (simp add: st_def)
  qed
  have "filter (\<lambda>i. i \<in> set st) ks = filter (\<lambda>i. i \<in> set st) (filter (\<lambda>i. f i = 0) ks)"
    unfolding filter_filter by (rule filter_cong[OF refl]) (auto simp: f_def get1)
  then have "length st \<le> length (filter (\<lambda>i. f i = 0) ks)" using ks_P by (metis length_filter_le)
  then have enough: "length es - length (filter P es) - w \<le> length (filter (\<lambda>i. f i = 0) ks)"
    using assms(4) by (simp add: stale size w_def st_def)
  define del where "del = take (length es - length (filter P es) - w) (sort_key f ks)"
  have absent: "cache_get (cr_seen c1) i = None" if "i \<in> set del" for i
  proof -
    have "i \<in> set ks" using that unfolding del_def by (metis in_set_takeD set_sort)
    moreover have "f i = 0" by (rule sorted_zeros_first[OF _ enough that[unfolded del_def]]) (use nonneg in blast)
    ultimately show ?thesis using nonneg by blast
  qed
  have "prune_stale_in_flight now c = (if cache_size (cr_seen c1) \<le> w then c1
      else forget (take (cache_size (cr_seen c1) - w) (sort_key f ks)) c1)"
    unfolding prune_stale_in_flight_def Let_def f_def ks_def c1_def st_def w_def es_def P_def cache_items_def by (rule refl)
  then have "prune_stale_in_flight now c = forget del c1" using assms(3) by (simp add: n1 stale size w_def del_def)
  moreover have "entries (cr_seen (forget del c1)) = entries (cr_seen c1)"
  proof -
    have "fst e \<notin> set del" if "e \<in> set (entries (cr_seen c1))" for e
      using absent[of "fst e"] that unfolding cache_get_def map_of_eq_None_iff by blast
    then show ?thesis by (simp add: forget_eq entries_forget filter_id_conv case_prod_beta)
  qed
  ultimately show ?thesis using n1 by (simp add: cache_size_def stale size es_def)
qed


lemma cache_of_list_wf: "distinct (map fst xs) \<Longrightarrow> wf_cache (cache_new []\<lparr>entries := xs\<rparr>)"
  by (simp add: cache_new_def wf_cache_def wf_map_def map_keys_def)

definition sample_id :: "byte \<Rightarrow> node_id" where
  "sample_id b = b # replicate 19 0"

text \<open>Five stale and five fresh entries, with a cap of four: five entries stay.\<close>

definition crowded_crawler :: crawler where
  "crowded_crawler = sample_crawler\<lparr>cr_seen := (cache_new [])\<lparr>entries :=
     map (\<lambda>b. (sample_id b, 100 * second)) [1, 2, 3, 4, 5] @ map (\<lambda>b. (sample_id b, 900 * second)) [6, 7, 8, 9, 10]\<rparr>\<rparr>"

lemma crowded_crawler_wf: "wf_crawler cv crowded_crawler"
  using new_crawler_wf[of cv "\<lambda>u. 0" sample_crawler_config]
    cache_of_list_wf[of "map (\<lambda>b. (sample_id b, 100 * second)) [1, 2, 3, 4, 5] @ map (\<lambda>b. (sample_id b, 900 * second)) [6, 7, 8, 9, 10]"]
  by (simp add: crowded_crawler_def wf_crawler_def sample_id_def)

lemma crowded_facts:
  "cr_cooldown crowded_crawler = []" "cr_cfg crowded_crawler = sample_crawler_config"
  "cache_items (cr_seen crowded_crawler) =
     map (\<lambda>b. (sample_id b, 100 * second)) [1, 2, 3, 4, 5] @ map (\<lambda>b. (sample_id b, 900 * second)) [6, 7, 8, 9, 10]"
  "cache_size (cr_seen crowded_crawler) = 10"
  "cc_width sample_crawler_config = 1" "cc_txn_timeout sample_crawler_config = 10 * second"
  by (simp_all add: crowded_crawler_def new_crawler_def cache_items_def cache_size_def sample_crawler_config_def)

theorem prune_spares_cooldown_witness:
  "cache_get (cr_seen (prune_stale_in_flight (900 * second) crowded_crawler)) (sample_id 3) \<in>
     {None, cache_get (cr_seen crowded_crawler) (sample_id 3)} \<and>
   cr_cooldown (prune_stale_in_flight (900 * second) crowded_crawler) = []"
  using prune_spares_cooldown[OF crowded_crawler_wf[of "\<lambda>x. 0"], of "sample_id 3" "900 * second" 0]
  by (simp add: crowded_facts(1))

theorem prune_cap_not_enforced_witness:
  "cache_size (cr_seen (prune_stale_in_flight (900 * second) crowded_crawler)) = 5 \<and> 4 * cc_width (cr_cfg crowded_crawler) < 5"
  using prune_cap_not_enforced[OF crowded_crawler_wf[of "\<lambda>x. 0"], of "900 * second"]
  by (simp add: crowded_facts in_cooldown_def)


subsection \<open>Samples\<close>

lemma enqueue_no_room:
  assumes "\<not> known (bloom_test lib) h (en_filter e)" and "cap (en_queue e) \<le> length (queued (en_queue e)) - taken"
  shows "enqueue_sample lib taken src h e =
    e\<lparr>en_filter := snd (seen_or_add (bloom_test lib) (bloom_add lib) h (en_filter e)), en_new := en_new e + 1,
      en_queue := (en_queue e)\<lparr>queued := drop taken (queued (en_queue e))\<rparr>, en_backlog := en_backlog e + 1,
      en_dropped := (if en_backlog e + 1 > 100 then en_dropped e else en_dropped e + 1)\<rparr>"
proof -
  have "fst (seen_or_add (bloom_test lib) (bloom_add lib) h (en_filter e)) = False"
    using assms(1) by (simp add: seen_or_add_known)
  then show ?thesis
    using assms(2) by (cases "seen_or_add (bloom_test lib) (bloom_add lib) h (en_filter e)")
      (simp add: enqueue_sample_def Let_def chan_try_send_def)
qed

text \<open>
  A new infohash is marked as seen before it is queued. When the queue has no room for it in time it
  is dropped, and every later sample of it, from whatever node and however empty the queue is then,
  is skipped as a duplicate.
\<close>

theorem dropped_sample_is_lost:
  assumes "no_false_negatives (bloom_test lib) (bloom_add lib)" and "\<not> known (bloom_test lib) h (en_filter e)"
    and "cap (en_queue e) \<le> length (queued (en_queue e)) - taken"
  shows "set (queued (en_queue (enqueue_sample lib taken src h e))) \<subseteq> set (queued (en_queue e)) \<and>
    enqueue_sample lib taken' src' h ((enqueue_sample lib taken src h e)\<lparr>en_queue := q\<rparr>) =
      (enqueue_sample lib taken src h e)\<lparr>en_queue := q\<rparr>"
proof -
  let ?f = "snd (seen_or_add (bloom_test lib) (bloom_add lib) h (en_filter e))"
  have "test (active ?f) h" if "test = bloom_test lib" for test
    using added_active[OF assms(1), of h "en_filter e"] assms(2) that by (simp add: seen_or_add_known)
  then have again: "seen_or_add (bloom_test lib) (bloom_add lib) h ?f = (True, ?f)"
    by (simp add: seen_or_add_def)
  show ?thesis
    unfolding enqueue_no_room[OF assms(2,3)]
    by (auto simp: enqueue_sample_def again dest: in_set_dropD)
qed

definition full_queue :: "discovery_work chan" where
  "full_queue = \<lparr>cap = 1, queued = [\<lparr>dw_infohash = replicate 20 2, dw_source = None\<rparr>]\<rparr>"

definition sample_enqueue :: "info_hash list enqueue" where
  "sample_enqueue = \<lparr>en_filter = new_bloom_filter [], en_queue = full_queue, en_backlog = 0, en_new = 0, en_dropped = 0\<rparr>"

lemma sample_libs_bloom: "no_false_negatives (bloom_test sample_libs) (bloom_add sample_libs)"
  by (simp add: sample_libs_def no_false_negatives_def)

lemma sample_unknown: "\<not> known (bloom_test sample_libs) h (new_bloom_filter [])"
  by (simp add: known_def sample_libs_def new_bloom_filter_def)

theorem dropped_sample_is_lost_witness:
  "en_new (enqueue_sample sample_libs 0 sample_node (replicate 20 8)
     ((enqueue_sample sample_libs 0 sample_node (replicate 20 8) sample_enqueue)\<lparr>en_queue := chan_make 5\<rparr>)) = 1"
  using dropped_sample_is_lost[OF sample_libs_bloom, of "replicate 20 8" sample_enqueue 0 sample_node 0 sample_node "chan_make 5"]
    sample_unknown enqueue_no_room[of sample_libs "replicate 20 8" sample_enqueue 0 sample_node]
  by (simp add: sample_enqueue_def full_queue_def)

text \<open>
  C37. An answer with one new infohash that finds the queue full crashes the crawler: the sample counts as
  new and as dropped, so the number of duplicates added to a counter is -1, and a Prometheus counter
  does not accept a negative addition.
\<close>

theorem dropped_sample_panics:
  assumes "s_dedup (cs_server st) = Some f" and "\<not> known (bloom_test lib) (take 20 bs) f"
    and "20 \<le> length bs" and "length bs < 40"
    and "cap (cs_queue st) \<le> length (queued (cs_queue st)) - recv 0" and "cr_backlog (cs_crawler st) < 100"
    and "\<forall>v < 0. \<not> ctr v"
  shows "process_samples lib ctr recv bs it st = Inl LibraryPanic"
proof -
  have one: "length bs div 20 = 1" using assms(3,4) by simp
  then have hs: "sample_hashes bs = [take 20 bs]" by (simp add: sample_hashes_def)
  let ?e = "\<lparr>en_filter = f, en_queue = cs_queue st, en_backlog = cr_backlog (cs_crawler st), en_new = 0, en_dropped = 0\<rparr>"
  have "en_new (enqueue_samples lib recv (ti_node it) 0 (sample_hashes bs) ?e) = 1"
    "en_dropped (enqueue_samples lib recv (ti_node it) 0 (sample_hashes bs) ?e) = 1"
    using enqueue_no_room[of lib "take 20 bs" ?e "recv 0" "ti_node it"] assms(2,5,6) by (simp_all add: hs)
  then show ?thesis using assms(1,7) by (simp add: process_samples_def Let_def one)
qed

theorem dropped_sample_panics_witness:
  "process_samples sample_libs (\<lambda>v. 0 \<le> v) (\<lambda>k. 0) (replicate 20 8) sample_item
     \<lparr>cs_crawler = sample_crawler, cs_server = sample_server, cs_queue = full_queue, cs_target = replicate 20 3, cs_iteration = 0\<rparr>
   = Inl LibraryPanic"
proof (rule dropped_sample_panics)
  show "s_dedup (cs_server \<lparr>cs_crawler = sample_crawler, cs_server = sample_server, cs_queue = full_queue,
      cs_target = replicate 20 3, cs_iteration = 0\<rparr>) = Some (new_bloom_filter [])"
    by (simp add: sample_server_def new_server_def get_server_node_id_def sample_config_def)
qed (simp_all add: sample_unknown full_queue_def new_crawler_def)


subsection \<open>Yields\<close>

lemma float64_values:
  "float64 2 = 2" "float64 4 = 4" "float64 64 = 64" "float64 96 = 96"
  "float64 (1 / 2) = 1 / 2" "float64 (3 / 4) = 3 / 4"
  using float64_dyadic[of "2 * 2 ^ 51" 51] float64_dyadic[of "4 * 2 ^ 50" 50] float64_dyadic[of "64 * 2 ^ 46" 46]
    float64_dyadic[of "96 * 2 ^ 46" 46] float64_dyadic[of "2 ^ 52" 53] float64_dyadic[of "3 * 2 ^ 51" 53]
  by simp_all

lemma hd_scale: "scale_dist cv (b # bs) factor \<noteq> [] \<and>
    hd (scale_dist cv (b # bs) factor) = float_to_byte cv (float64 (float64 (of_nat (unat b) * factor) + 0))"
  by (simp add: scale_dist_def Let_def)

lemma less_by_head: "xs \<noteq> [] \<Longrightarrow> ys \<noteq> [] \<Longrightarrow> hd xs < hd ys \<Longrightarrow> xs < (ys :: byte list)"
  by (cases xs; cases ys) simp_all

text \<open>
  The discount is a factor \<open>y / (y + 1)\<close> that grows with the yield \<open>y\<close>: of two nodes at the same
  distance the crawler prefers the one with yield 1 to the one with yield 3, the opposite of the
  bias towards productive nodes that the comment describes.
\<close>

theorem yield_bias_inverted:
  "traversal_less cv (it\<lparr>ti_dist := 128 # ds, ti_yield := 1\<rparr>) (it\<lparr>ti_dist := 128 # ds, ti_yield := 3\<rparr>)"
proof -
  show ?thesis
    unfolding traversal_less_def cmp_dist_less_iff eff_dist_def
    by (rule less_by_head) (simp_all add: hd_scale float64_values float_to_byte_def)
qed


lemma floor_three_quarters: "\<lfloor>3 / 4 :: rat\<rfloor> = 0"
  by (simp add: floor_eq_iff)

text \<open>
  Scaling a distance loses the carry between its bytes: three quarters of the distance that begins
  with the bytes 1 and 255 begins with 1 and 127, but the code computes a first byte of 0, because
  the second byte comes out as 383 and does not fit. The item is taken for closer than a node at the
  smaller distance that begins with 1 and 0.
\<close>

theorem scaling_loses_carry:
  "traversal_less cv (it\<lparr>ti_dist := 1 # 255 # ds, ti_yield := 3\<rparr>) (it\<lparr>ti_dist := 1 # 0 # es, ti_yield := 0\<rparr>) \<and>
   256 * be_val [1] + be_val [0] < \<lfloor>3 / 4 * (of_nat (be_val [1, 255]) :: rat)\<rfloor>"
proof
  show "traversal_less cv (it\<lparr>ti_dist := 1 # 255 # ds, ti_yield := 3\<rparr>) (it\<lparr>ti_dist := 1 # 0 # es, ti_yield := 0\<rparr>)"
    unfolding traversal_less_def cmp_dist_less_iff eff_dist_def
    by (rule less_by_head) (simp_all add: hd_scale float64_values float_to_byte_def floor_three_quarters)
qed simp


subsection \<open>Witnesses of the loop\<close>

abbreviation one_ready :: crawler where
  "one_ready \<equiv> snd (push_to_ready (\<lambda>x. 0) sample_node (replicate 20 3) sample_crawler)"

lemma one_ready_wf: "wf_crawler (\<lambda>x. 0) one_ready"
  using push_to_ready_wf[OF new_crawler_wf, of sample_node "replicate 20 3" "\<lambda>x. 0" "\<lambda>u. 0" sample_crawler_config]
  by (simp add: sample_node_def wf_id_def)

theorem next_eligible_correct_witness:
  "\<exists>it c'. next_eligible (\<lambda>x. 0) 5 one_ready = (Some it, c') \<and> mset (cr_ready one_ready) = add_mset it (mset (cr_ready c'))"
proof -
  obtain r c' where ne: "next_eligible (\<lambda>x. 0) 5 one_ready = (r, c')" by force
  have "cr_cooldown one_ready = []" "cr_ready one_ready \<noteq> []"
    by (simp_all add: push_to_ready_def new_crawler_def cache_get_def cache_new_def heap_push_def Let_def
        flip: length_greater_0_conv)
  then show ?thesis using next_eligible_correct[OF one_ready_wf ne] ne by (cases r) auto
qed

definition sample_env :: crawl_env where
  "sample_env = \<lparr>env_now = 5, env_retarget = replicate 20 3, env_idle = replicate 20 4, env_rotate = replicate 20 5,
     env_get_peers = (\<lambda>k. Inr empty_msg), env_samples = (\<lambda>k. Inl Txn_Timeout), env_recv = (\<lambda>k i. 0),
     env_query_now = (\<lambda>k. 6), env_result_now = (\<lambda>k. 7), env_rnd = (\<lambda>k. 8), env_prune_now = 9\<rparr>"

lemma sample_net_ok: "net_ok sample_server"
  using sample_server_wf
  by (simp add: net_ok_def sample_server_def new_server_def get_server_node_id_def sample_config_def
      new_routing_table_def all_nodes_def)

theorem crawl_safe_witness:
  "\<exists>st. crawl sample_libs (\<lambda>x. 0) (\<lambda>v. True) [sample_env, sample_env]
     (start_crawl (\<lambda>x. 0) (replicate 20 3) (chan_make 4) sample_server sample_crawler) = Inr st \<and> crawl_inv (\<lambda>x. 0) st"
  using crawl_safe[OF sample_net_ok, where target = "replicate 20 3" and q = "chan_make 4" and cfg = sample_crawler_config
      and envs = "[sample_env, sample_env]" and lib = sample_libs and cv = "\<lambda>x. 0" and ctr = "\<lambda>v. True" and clock = "\<lambda>u. 0"]
  by (simp add: wf_id_def sample_crawler_config_def sample_env_def counter_panic_def del: crawl.simps split: sum.splits)

end
