(* ===== verification/Discovery.thy ===== *)
theory Discovery
  imports Crawler_Effects
begin

section \<open>Peer discovery (\<^verbatim>\<open>dht/crawler/discovery.go\<close>)\<close>

text \<open>
  A discovery worker takes an infohash from the queue and looks its peers up: it keeps a shortlist of
  the nodes nearest to the infohash and asks, round after round, the nearest ones it has not asked
  yet. The answers are a parameter: \<open>ask i n\<close> is what node \<open>n\<close> answers in round \<open>i\<close>. The queries of a
  round run concurrently in the code; the model takes their answers in the order of the nodes. The
  field \<open>lk_asked\<close> records the calls of \<^verbatim>\<open>GetPeers\<close>.
\<close>

type_synonym shortlist = "(node_id, node) gomap"

record discovery_worker =
  wk_alpha :: nat
  wk_width :: nat
  wk_iterations :: nat

definition new_discovery_worker :: "crawler_config \<Rightarrow> discovery_worker" where
  "new_discovery_worker cfg =
     \<lparr>wk_alpha = cc_alpha cfg, wk_width = cc_width cfg, wk_iterations = cc_discovery_iterations cfg\<rparr>"

definition maps_copy :: "('k, 'v) gomap \<Rightarrow> ('k, 'v) gomap \<Rightarrow> ('k, 'v) gomap" where
  "maps_copy dst src = fold (\<lambda>(k, v) m. map_set k v m) src dst"

definition sort_by_distance :: "shortlist \<Rightarrow> node_id \<Rightarrow> node list" where
  "sort_by_distance sl target = sort_key (\<lambda>n. xor_id target (nid n)) (map snd sl)"

definition trim_to_k_closest :: "discovery_worker \<Rightarrow> shortlist \<Rightarrow> node_id \<Rightarrow> shortlist" where
  "trim_to_k_closest w sl target =
     (if length sl \<le> wk_width w then sl
      else fold (\<lambda>n m. map_set (nid n) n m) (take (wk_width w) (sort_by_distance sl target)) [])"

definition merge_nodes :: "shortlist \<Rightarrow> shortlist \<Rightarrow> shortlist" where
  "merge_nodes sl new = maps_copy (maps_copy [] sl) new"

definition extract_peers :: "return \<Rightarrow> addr list" where
  "extract_peers r =
     (if length (ret_values r) = 0 then []
      else case decode_peers (ret_values r) of Inl e \<Rightarrow> [] | Inr ps \<Rightarrow> ps)"

fun extract_loop ::
    "instant \<Rightarrow> node list \<Rightarrow> shortlist \<Rightarrow> ('b, 'l) server \<Rightarrow> (shortlist \<times> ('b, 'l) server) outcome" where
  "extract_loop now [] res s = Inr (res, s)"
| "extract_loop now (n # ns) res s =
     (case validate_node_id_for_ip (ip (naddr n)) (nid n) of
        Inl e \<Rightarrow> extract_loop now ns res s
      | Inr u \<Rightarrow>
          (case insert_node now n (s_table s) of
             Inl p \<Rightarrow> Inl p
           | Inr (r, rt, pings) \<Rightarrow>
               extract_loop now ns (map_set (nid n) n res) (s\<lparr>s_table := rt, s_spawned := s_spawned s @ pings\<rparr>)))"

definition extract_nodes ::
    "instant \<Rightarrow> return \<Rightarrow> ('b, 'l) server \<Rightarrow> (shortlist option \<times> ('b, 'l) server) outcome" where
  "extract_nodes now r s =
     (if length (ret_nodes r) = 0 then Inr (None, s)
      else case decode_nodes (ret_nodes r) of
        Inl e \<Rightarrow> Inr (None, s)
      | Inr ns \<Rightarrow> (case extract_loop now ns [] s of Inl p \<Rightarrow> Inl p | Inr (res, s1) \<Rightarrow> Inr (Some res, s1)))"

fun process_responses ::
    "instant \<Rightarrow> msg list \<Rightarrow> addr list \<Rightarrow> shortlist \<Rightarrow> ('b, 'l) server \<Rightarrow> (addr list \<times> shortlist \<times> ('b, 'l) server) outcome" where
  "process_responses now [] found new s = Inr (found, new, s)"
| "process_responses now (m # ms) found new s =
     (case m_r m of
        None \<Rightarrow> process_responses now ms found new s
      | Some r \<Rightarrow>
          (case extract_nodes now r s of
             Inl p \<Rightarrow> Inl p
           | Inr (None, s1) \<Rightarrow> process_responses now ms (found @ extract_peers r) new s1
           | Inr (Some ns, s1) \<Rightarrow> process_responses now ms (found @ extract_peers r) (maps_copy new ns) s1))"

definition query_parallel :: "discovery_worker \<Rightarrow> (node \<Rightarrow> send_error + msg) \<Rightarrow> node list \<Rightarrow> node list \<times> msg list" where
  "query_parallel w ask ns =
     (let asked = take (min (length ns) (wk_alpha w)) ns
      in (asked, concat (map (\<lambda>n. case ask n of Inl e \<Rightarrow> [] | Inr m \<Rightarrow> [m]) asked)))"

record lookup =
  lk_shortlist :: shortlist
  lk_queried :: "(node_id, bool) gomap"
  lk_peers :: "addr list"
  lk_asked :: "node list"

datatype lookup_result = Max_Iterations | Empty_Shortlist | All_Queried

text \<open>The loop, with the number of rounds that are left.\<close>

fun discover_rounds ::
    "discovery_worker \<Rightarrow> instant \<Rightarrow> (nat \<Rightarrow> node \<Rightarrow> send_error + msg) \<Rightarrow> node_id \<Rightarrow> nat \<Rightarrow> lookup \<Rightarrow> ('b, 'l) server \<Rightarrow>
     (lookup_result \<times> lookup \<times> ('b, 'l) server) outcome" where
  "discover_rounds w now ask target 0 lk s = Inr (Max_Iterations, lk, s)"
| "discover_rounds w now ask target (Suc left) lk s =
     (let entries = sort_by_distance (lk_shortlist lk) target;
          to_query = filter (\<lambda>n. map_get (lk_queried lk) (nid n) \<noteq> Some True) entries
      in if entries = [] then Inr (Empty_Shortlist, lk, s)
         else if to_query = [] then Inr (All_Queried, lk, s)
         else
           let dispatched = take (min (length to_query) (wk_alpha w)) to_query;
               queried = fold (\<lambda>n m. map_set (nid n) True m) dispatched (lk_queried lk)
           in case query_parallel w (ask (wk_iterations w - Suc left)) to_query of (asked, responses) \<Rightarrow>
             (case process_responses now responses [] [] s of
                Inl p \<Rightarrow> Inl p
              | Inr (found, new, s1) \<Rightarrow>
                  let lk1 = lk\<lparr>lk_queried := queried, lk_peers := lk_peers lk @ found, lk_asked := lk_asked lk @ asked\<rparr>
                  in discover_rounds w now ask target left
                       (if new = [] then lk1
                        else lk1\<lparr>lk_shortlist := trim_to_k_closest w (merge_nodes (lk_shortlist lk) new) target\<rparr>)
                       s1))"

definition first_shortlist :: "discovery_worker \<Rightarrow> node_id \<Rightarrow> node option \<Rightarrow> table \<Rightarrow> shortlist" where
  "first_shortlist w target initial rt =
     fold (\<lambda>n m. map_set (nid n) n m) (closest rt target (wk_width w))
       (case initial of None \<Rightarrow> [] | Some n \<Rightarrow> map_set (nid n) n [])"

definition discover_peers ::
    "discovery_worker \<Rightarrow> instant \<Rightarrow> (nat \<Rightarrow> node \<Rightarrow> send_error + msg) \<Rightarrow> info_hash \<Rightarrow> node option \<Rightarrow> ('b, 'l) server \<Rightarrow>
     (lookup_result \<times> lookup \<times> ('b, 'l) server) outcome" where
  "discover_peers w now ask h initial s =
     (case discover_rounds w now ask h (wk_iterations w)
             \<lparr>lk_shortlist = first_shortlist w h initial (s_table s), lk_queried = [], lk_peers = [], lk_asked = []\<rparr> s of
        Inl p \<Rightarrow> Inl p
      | Inr (res, lk, s1) \<Rightarrow>
          if lk_peers lk = [] then Inr (res, lk, s1)
          else Inr (res, lk, emit \<lparr>d_infohash = h, d_peers = lk_peers lk, d_seen = now\<rparr> s1))"

text \<open>One turn of \<^verbatim>\<open>discover\<close>: the next work item, if there is one.\<close>

definition discover_step ::
    "discovery_worker \<Rightarrow> instant \<Rightarrow> (nat \<Rightarrow> node \<Rightarrow> send_error + msg) \<Rightarrow> discovery_work chan \<Rightarrow> ('b, 'l) server \<Rightarrow>
     (lookup option \<times> discovery_work chan \<times> ('b, 'l) server) outcome" where
  "discover_step w now ask q s =
     (case queued q of
        [] \<Rightarrow> Inr (None, q, s)
      | work # rest \<Rightarrow>
          (case discover_peers w now ask (dw_infohash work) (dw_source work) s of
             Inl p \<Rightarrow> Inl p
           | Inr (res, lk, s1) \<Rightarrow> Inr (Some lk, q\<lparr>queued := rest\<rparr>, s1)))"


subsection \<open>Shortlists\<close>

definition wf_shortlist :: "shortlist \<Rightarrow> bool" where
  "wf_shortlist sl \<longleftrightarrow> wf_map sl \<and> (\<forall>(k, n) \<in> set sl. nid n = k \<and> wf_id k)"

lemma wf_shortlist_Nil [simp]: "wf_shortlist []"
  by (simp add: wf_shortlist_def)

lemma wf_shortlist_set: "wf_shortlist sl \<Longrightarrow> nid n = k \<Longrightarrow> wf_id k \<Longrightarrow> wf_shortlist (map_set k n sl)"
  using set_map_set[of k n sl] by (fastforce simp: wf_shortlist_def wf_map_set)

lemma wf_shortlist_nodes: "wf_shortlist sl \<Longrightarrow> \<forall>n \<in> set ns. wf_id (nid n) \<Longrightarrow> wf_shortlist (fold (\<lambda>n m. map_set (nid n) n m) ns sl)"
  by (induction ns arbitrary: sl) (simp_all add: wf_shortlist_set)

lemma wf_shortlist_copy: "wf_shortlist sl \<Longrightarrow> \<forall>(k, n) \<in> set src. nid n = k \<and> wf_id k \<Longrightarrow> wf_shortlist (maps_copy sl src)"
  unfolding maps_copy_def by (induction src arbitrary: sl) (auto simp: wf_shortlist_set)

lemma wf_shortlist_merge: "wf_shortlist sl \<Longrightarrow> wf_shortlist new \<Longrightarrow> wf_shortlist (merge_nodes sl new)"
  unfolding merge_nodes_def by (intro wf_shortlist_copy wf_shortlist_Nil) (simp_all add: wf_shortlist_def)

lemma wf_shortlist_ids: "wf_shortlist sl \<Longrightarrow> map (\<lambda>(k, n). nid n) sl = map fst sl"
  by (auto simp: wf_shortlist_def)

lemma sort_by_distance_entries:
  assumes "wf_shortlist sl"
  shows "distinct (map nid (sort_by_distance sl target))" "set (sort_by_distance sl target) = snd ` set sl"
    "\<forall>n \<in> set (sort_by_distance sl target). wf_id (nid n)"
proof -
  have "mset (map nid (sort_by_distance sl target)) = mset (map (\<lambda>(k, n). nid n) sl)"
    by (simp add: sort_by_distance_def image_mset.compositionality o_def case_prod_beta')
  then have "mset (map nid (sort_by_distance sl target)) = mset (map fst sl)" by (simp only: wf_shortlist_ids[OF assms])
  moreover have "distinct (map fst sl)" using assms by (simp add: wf_shortlist_def wf_map_def map_keys_def)
  ultimately show "distinct (map nid (sort_by_distance sl target))" by (metis mset_eq_imp_distinct_iff)
  show "set (sort_by_distance sl target) = snd ` set sl" by (simp add: sort_by_distance_def)
  then show "\<forall>n \<in> set (sort_by_distance sl target). wf_id (nid n)" using assms by (auto simp: wf_shortlist_def)
qed

lemma wf_shortlist_trim: "wf_shortlist sl \<Longrightarrow> wf_shortlist (trim_to_k_closest w sl target)"
  unfolding trim_to_k_closest_def
  using sort_by_distance_entries(3)[of sl target] by (auto intro!: wf_shortlist_nodes dest: in_set_takeD)

lemma shortlist_of_nodes:
  fixes sl :: shortlist
  shows "distinct (map nid ns) \<Longrightarrow> (\<forall>n \<in> set ns. map_get sl (nid n) = None) \<Longrightarrow>
     fold (\<lambda>n m. map_set (nid n) n m) ns sl = sl @ map (\<lambda>n. (nid n, n)) ns"
proof (induction ns arbitrary: sl)
  case (Cons n ns)
  have new: "map_set k v m = m @ [(k, v)]" if "map_get m k = None" for k v and m :: shortlist
    using that by (induction k v m rule: map_set.induct) (auto split: if_splits)
  have "\<forall>x \<in> set ns. map_get (sl @ [(nid n, n)]) (nid x) = None"
    using Cons.prems by (auto simp: map_add_def image_iff)
  from Cons.IH[OF _ this] show ?case using Cons.prems new[of sl "nid n" n] by simp
qed simp

text \<open>
  Trimming keeps the nodes of the shortlist that are nearest to the target, as many as the traversal
  width allows, and no dropped node is nearer than a kept one.
\<close>

theorem trim_keeps_closest:
  assumes "wf_shortlist sl" and "(k, n) \<in> set (trim_to_k_closest w sl target)"
    and "(k', n') \<in> set sl" and "(k', n') \<notin> set (trim_to_k_closest w sl target)"
  shows "(k, n) \<in> set sl \<and> xor_id target k \<le> xor_id target k' \<and> length (trim_to_k_closest w sl target) = wk_width w"
proof -
  let ?es = "sort_by_distance sl target"
  have big: "wk_width w < length sl" using assms(3,4) by (auto simp: trim_to_k_closest_def split: if_splits)
  have ids: "nid n = k \<and> (k, n) \<in> set sl" if "n \<in> set ?es" "k = nid n" for k n
    using that assms(1) sort_by_distance_entries(2)[OF assms(1)] by (auto simp: wf_shortlist_def)
  have "distinct (map nid (take (wk_width w) ?es))"
    using sort_by_distance_entries(1)[OF assms(1)] by (simp flip: take_map)
  from shortlist_of_nodes[OF this, of "[]"] big
  have trim: "trim_to_k_closest w sl target = map (\<lambda>n. (nid n, n)) (take (wk_width w) ?es)"
    by (simp add: trim_to_k_closest_def)
  have k: "n \<in> set (take (wk_width w) ?es)" "k = nid n" using assms(2) by (auto simp: trim)
  have nk': "nid n' = k'" using assms(1,3) by (auto simp: wf_shortlist_def)
  have "n' \<in> set ?es" using assms(3) sort_by_distance_entries(2)[OF assms(1), of target] by force
  moreover have "n' \<notin> set (take (wk_width w) ?es)" using assms(4) nk' by (auto simp: trim)
  ultimately have drop: "n' \<in> set (drop (wk_width w) ?es)" by (metis UnE append_take_drop_id set_append)
  have "sorted (map (\<lambda>n. xor_id target (nid n)) ?es)" by (simp add: sort_by_distance_def)
  from sorted_take_drop[OF this k(1) drop] have "xor_id target k \<le> xor_id target k'" by (simp add: k(2) nk')
  moreover have "(k, n) \<in> set sl" using ids[OF in_set_takeD[OF k(1)] k(2)] by simp
  moreover have "length ?es = length sl" by (simp add: sort_by_distance_def)
  ultimately show ?thesis using big by (simp add: trim)
qed

definition sample_shortlist :: shortlist where
  "sample_shortlist = map (\<lambda>b. (replicate 20 b, \<lparr>nid = replicate 20 b, naddr = sample_addr, last_seen = 0, failures = 0\<rparr>)) [5, 9]"

theorem trim_keeps_closest_witness:
  "xor_id (replicate 20 1) (replicate 20 5) \<le> xor_id (replicate 20 1) (replicate 20 9)"
proof -
  let ?w = "\<lparr>wk_alpha = 3, wk_width = 1, wk_iterations = 3\<rparr>"
  have t: "trim_to_k_closest ?w sample_shortlist (replicate 20 1) = take 1 sample_shortlist" by code_simp
  have "wf_shortlist sample_shortlist" "replicate 20 (5::byte) \<noteq> replicate 20 9"
    by (simp_all add: sample_shortlist_def wf_shortlist_def wf_map_def map_keys_def wf_id_def replicate_eq_replicate)
  then show ?thesis
    using trim_keeps_closest[of sample_shortlist "replicate 20 5" "snd (hd sample_shortlist)" ?w "replicate 20 1"
        "replicate 20 9" "snd (last sample_shortlist)"]
    unfolding t by (simp add: sample_shortlist_def)
qed


subsection \<open>The lookup\<close>

lemma extract_loop_ok:
  "net_ok s \<Longrightarrow> wf_shortlist res \<Longrightarrow> list_all (\<lambda>n. wf_id (nid n)) ns \<Longrightarrow>
     \<exists>res' s'. extract_loop now ns res s = Inr (res', s') \<and> wf_shortlist res' \<and> net_ok s' \<and> s_discovered s' = s_discovered s"
proof (induction now ns res s rule: extract_loop.induct)
  case (2 now n ns res s)
  show ?case
  proof (cases "validate_node_id_for_ip (ip (naddr n)) (nid n)")
    case (Inl e)
    then show ?thesis using 2 by simp
  next
    case (Inr u)
    obtain r rt ps where ins: "insert_node now n (s_table s) = Inr (r, rt, ps)"
      and ok: "net_ok (s\<lparr>s_table := rt, s_spawned := s_spawned s @ ps\<rparr>)"
      using net_ok_insert[OF "2.prems"(1) _ Inr, of now] "2.prems"(3) by auto
    have "wf_shortlist (map_set (nid n) n res)" using "2.prems"(2,3) by (intro wf_shortlist_set) simp_all
    from "2.IH"(2)[OF Inr ins refl refl ok this] show ?thesis using Inr ins "2.prems"(3) by simp
  qed
qed simp

lemma extract_nodes_ok:
  assumes "net_ok s"
  shows "\<exists>res s'. extract_nodes now r s = Inr (res, s') \<and> (\<forall>sl. res = Some sl \<longrightarrow> wf_shortlist sl) \<and> net_ok s' \<and>
    s_discovered s' = s_discovered s"
proof (cases "decode_nodes (ret_nodes r)")
  case (Inr ns)
  then show ?thesis
    using extract_loop_ok[OF assms wf_shortlist_Nil decode_nodes_wf[OF Inr], of now] assms
    by (auto simp: extract_nodes_def)
qed (use assms in \<open>simp add: extract_nodes_def\<close>)

lemma process_responses_ok:
  "net_ok s \<Longrightarrow> wf_shortlist new \<Longrightarrow>
     \<exists>ps new' s'. process_responses now ms found new s = Inr (ps, new', s') \<and> wf_shortlist new' \<and> net_ok s' \<and>
       s_discovered s' = s_discovered s"
proof (induction now ms found new s rule: process_responses.induct)
  case (2 now m ms found new s)
  show ?case
  proof (cases "m_r m")
    case None
    then show ?thesis using 2 by simp
  next
    case (Some r)
    obtain res s1 where ex: "extract_nodes now r s = Inr (res, s1)" "\<forall>sl. res = Some sl \<longrightarrow> wf_shortlist sl"
      "net_ok s1" "s_discovered s1 = s_discovered s"
      using extract_nodes_ok[OF "2.prems"(1), of now r] by blast
    show ?thesis
    proof (cases res)
      case None
      then show ?thesis using "2.IH"(2)[OF Some ex(1) refl None ex(3) "2.prems"(2)] Some ex by simp
    next
      case (Some sl)
      have "wf_shortlist (maps_copy new sl)"
        using "2.prems"(2) ex(2) Some by (intro wf_shortlist_copy) (auto simp: wf_shortlist_def)
      then show ?thesis using "2.IH"(3)[OF \<open>m_r m = Some r\<close> ex(1) refl Some ex(3)] \<open>m_r m = Some r\<close> Some ex by simp
    qed
  qed
qed simp

definition lookup_ok :: "lookup \<Rightarrow> bool" where
  "lookup_ok lk \<longleftrightarrow> wf_shortlist (lk_shortlist lk) \<and> distinct (map nid (lk_asked lk)) \<and>
     (\<forall>i. map_get (lk_queried lk) i = Some True \<longleftrightarrow> i \<in> nid ` set (lk_asked lk))"

lemma mark_dispatched:
  "map_get (fold (\<lambda>n m. map_set (nid n) True m) ns q) i = Some True \<longleftrightarrow> i \<in> nid ` set ns \<or> map_get q i = Some True"
  by (induction ns arbitrary: q) (auto simp: map_get_set)

lemma rounds_ok:
  "lookup_ok lk \<Longrightarrow> net_ok s \<Longrightarrow>
     \<exists>res lk' s'. discover_rounds w now ask target left lk s = Inr (res, lk', s') \<and> lookup_ok lk' \<and> net_ok s' \<and>
       s_discovered s' = s_discovered s \<and> length (lk_asked lk') \<le> length (lk_asked lk) + left * wk_alpha w \<and>
       (res \<noteq> Max_Iterations \<longrightarrow> snd ` set (lk_shortlist lk') \<subseteq> {n. nid n \<in> nid ` set (lk_asked lk')})"
proof (induction left arbitrary: lk s)
  case (Suc left)
  let ?es = "sort_by_distance (lk_shortlist lk) target"
  let ?tq = "filter (\<lambda>n. map_get (lk_queried lk) (nid n) \<noteq> Some True) ?es"
  have wf: "wf_shortlist (lk_shortlist lk)" using Suc.prems(1) by (simp add: lookup_ok_def)
  note es = sort_by_distance_entries[OF wf, of target]
  show ?case
  proof (cases "?tq = []")
    case True
    then have "snd ` set (lk_shortlist lk) \<subseteq> {n. nid n \<in> nid ` set (lk_asked lk)}"
      using Suc.prems(1) es(2) by (auto simp: lookup_ok_def filter_empty_conv)
    then show ?thesis using True Suc.prems by (cases "?es = []") (simp_all add: Let_def)
  next
    case False
    then have ne: "?es \<noteq> []" by auto
    let ?d = "take (min (length ?tq) (wk_alpha w)) ?tq"
    let ?ms = "concat (map (\<lambda>n. case ask (wk_iterations w - Suc left) n of Inl e \<Rightarrow> [] | Inr m \<Rightarrow> [m]) ?d)"
    obtain found new s1 where pr: "process_responses now ?ms [] [] s = Inr (found, new, s1)" "wf_shortlist new" "net_ok s1"
      "s_discovered s1 = s_discovered s"
      using process_responses_ok[OF Suc.prems(2) wf_shortlist_Nil, of now ?ms "[]"] by blast
    define lk1 where "lk1 = lk\<lparr>lk_queried := fold (\<lambda>n m. map_set (nid n) True m) ?d (lk_queried lk),
      lk_peers := lk_peers lk @ found, lk_asked := lk_asked lk @ ?d\<rparr>"
    define lk2 where "lk2 = (if new = [] then lk1
      else lk1\<lparr>lk_shortlist := trim_to_k_closest w (merge_nodes (lk_shortlist lk) new) target\<rparr>)"
    have step: "discover_rounds w now ask target (Suc left) lk s = discover_rounds w now ask target left lk2 s1"
      using False ne pr(1) by (simp add: query_parallel_def Let_def lk1_def lk2_def)
    have d: "distinct (map nid ?d)" "nid ` set ?d \<inter> nid ` set (lk_asked lk) = {}"
    proof -
      have "distinct (map nid ?tq)" by (rule distinct_map_filter[OF es(1)])
      then show "distinct (map nid ?d)" by (simp flip: take_map)
      show "nid ` set ?d \<inter> nid ` set (lk_asked lk) = {}"
        using Suc.prems(1) by (auto simp: lookup_ok_def dest!: in_set_takeD)
    qed
    have "lookup_ok lk2"
      using Suc.prems(1) d pr(2) wf_shortlist_trim[OF wf_shortlist_merge[OF wf pr(2)], of w target]
      by (auto simp: lk2_def lk1_def lookup_ok_def mark_dispatched)
    from Suc.IH[OF this pr(3)] obtain res lk' s' where ih:
      "discover_rounds w now ask target left lk2 s1 = Inr (res, lk', s')" "lookup_ok lk'" "net_ok s'"
      "s_discovered s' = s_discovered s1" "length (lk_asked lk') \<le> length (lk_asked lk2) + left * wk_alpha w"
      "res \<noteq> Max_Iterations \<longrightarrow> snd ` set (lk_shortlist lk') \<subseteq> {n. nid n \<in> nid ` set (lk_asked lk')}"
      by blast
    moreover have "length (lk_asked lk2) \<le> length (lk_asked lk) + wk_alpha w" by (simp add: lk2_def lk1_def)
    ultimately show ?thesis unfolding step using pr(4) by simp
  qed
qed simp

lemma emit_net_ok: "net_ok s \<Longrightarrow> net_ok (emit e s)"
  using emit_wf[of s e] by (auto simp: net_ok_def emit_def split: option.split)

lemma first_shortlist_wf:
  assumes "net_ok s" "\<forall>n. initial = Some n \<longrightarrow> wf_id (nid n)"
  shows "wf_shortlist (first_shortlist w target initial (s_table s))"
  unfolding first_shortlist_def
  using assms closest_subset[of "s_table s" target] all_nodes_wf_id[OF net_ok_wf_table[OF assms(1)]]
  by (intro wf_shortlist_nodes) (auto simp: wf_shortlist_def wf_map_def map_keys_def split: option.split)

lemma discover_peers_correct:
  assumes "net_ok s" and "\<forall>n. initial = Some n \<longrightarrow> wf_id (nid n)"
  shows "\<exists>res lk s'. discover_peers w now ask h initial s = Inr (res, lk, s') \<and> net_ok s' \<and>
    distinct (map nid (lk_asked lk)) \<and> length (lk_asked lk) \<le> wk_iterations w * wk_alpha w \<and>
    (res \<noteq> Max_Iterations \<longrightarrow> snd ` set (lk_shortlist lk) \<subseteq> {n. nid n \<in> nid ` set (lk_asked lk)}) \<and>
    queued (s_discovered s') = queued (s_discovered s) @
      (if lk_peers lk \<noteq> [] \<and> length (queued (s_discovered s)) < cap (s_discovered s)
       then [\<lparr>d_infohash = h, d_peers = lk_peers lk, d_seen = now\<rparr>] else [])"
proof -
  let ?lk = "\<lparr>lk_shortlist = first_shortlist w h initial (s_table s), lk_queried = [], lk_peers = [], lk_asked = []\<rparr>"
  have "lookup_ok ?lk" using first_shortlist_wf[OF assms] by (simp add: lookup_ok_def)
  from rounds_ok[OF this assms(1), of w now ask h "wk_iterations w"] obtain res lk s1 where r:
    "discover_rounds w now ask h (wk_iterations w) ?lk s = Inr (res, lk, s1)" "lookup_ok lk" "net_ok s1"
    "s_discovered s1 = s_discovered s" "length (lk_asked lk) \<le> wk_iterations w * wk_alpha w"
    "res \<noteq> Max_Iterations \<longrightarrow> snd ` set (lk_shortlist lk) \<subseteq> {n. nid n \<in> nid ` set (lk_asked lk)}"
    by auto
  then show ?thesis
    using emit_net_ok[OF r(3)]
    by (auto simp: discover_peers_def lookup_ok_def emit_def chan_try_send_def)
qed

text \<open>
  C18. A lookup always ends without a panic. It asks no node twice and at most \<^verbatim>\<open>alpha\<close> nodes per round; when
  it ends before its last round, every node of its shortlist has been asked. The peers found, if any,
  are emitted once, under the infohash of the work item, and only if the channel has room; the server
  stays sound and learns only BEP-42 nodes.
\<close>

theorem discover_correct:
  assumes "net_ok s" and "\<forall>n. initial = Some n \<longrightarrow> wf_id (nid n)"
  shows "\<exists>res lk s'. discover_peers w now ask h initial s = Inr (res, lk, s') \<and> net_ok s' \<and>
    distinct (map nid (lk_asked lk)) \<and> length (lk_asked lk) \<le> wk_iterations w * wk_alpha w \<and>
    (res \<noteq> Max_Iterations \<longrightarrow> snd ` set (lk_shortlist lk) \<subseteq> {n. nid n \<in> nid ` set (lk_asked lk)}) \<and>
    queued (s_discovered s') = queued (s_discovered s) @
      (if lk_peers lk \<noteq> [] \<and> length (queued (s_discovered s)) < cap (s_discovered s)
       then [\<lparr>d_infohash = h, d_peers = lk_peers lk, d_seen = now\<rparr>] else [])"
  using assms by (rule discover_peers_correct)

theorem discover_correct_witness:
  "\<exists>res lk s'. discover_peers (new_discovery_worker sample_crawler_config) 5
      (\<lambda>i n. Inr (empty_msg\<lparr>m_r := Some (empty_return\<lparr>ret_values := [encode_peer [10, 0, 0, 9] 4000]\<rparr>)\<rparr>))
      (replicate 20 7) (Some sample_node) sample_server = Inr (res, lk, s') \<and> net_ok s' \<and> distinct (map nid (lk_asked lk))"
  using discover_correct[OF sample_net_ok, of "Some sample_node" "new_discovery_worker sample_crawler_config" 5
      "\<lambda>i n. Inr (empty_msg\<lparr>m_r := Some (empty_return\<lparr>ret_values := [encode_peer [10, 0, 0, 9] 4000]\<rparr>)\<rparr>)" "replicate 20 7"]
  by (auto simp: sample_node_def wf_id_def)

end
