(* ===== verification/Dht_System.thy ===== *)
theory Dht_System
  imports Discovery
begin

section \<open>The DHT system (\<^verbatim>\<open>dht/system.go\<close>)\<close>

text \<open>
  The server, the crawlers and the discovery workers that \<^verbatim>\<open>NewSystem\<close> puts together. They share the server with
  its filter, the queue of infohashes between crawlers and workers, and the channel of discovered peers that the
  indexer reads. Their goroutines interleave by whole turns: one message, query or tick of the server, one pass of
  a crawler, one work item of a worker.
\<close>

subsection \<open>The system\<close>

record system_config =
  sc_dht :: dht_config
  sc_crawler :: crawler_config
  sc_crawlers :: nat
  sc_workers :: nat
  sc_queue_size :: nat

text \<open>A crawler with the loop state of its \<^verbatim>\<open>Start\<close>, once that runs.\<close>

record crawl_thread =
  th_crawler :: crawler
  th_loop :: "(node_id \<times> nat) option"

record ('b, 'l) dht_system =
  sy_server :: "('b, 'l) server"
  sy_crawlers :: "crawl_thread list"
  sy_workers :: "discovery_worker list"
  sy_queue :: "discovery_work chan"

definition new_system ::
    "system_config \<Rightarrow> ip option \<Rightarrow> 'b \<Rightarrow> instant \<Rightarrow> (unit \<Rightarrow> instant) \<Rightarrow> byte \<Rightarrow> byte list \<Rightarrow> byte list \<Rightarrow> byte list \<Rightarrow>
     id_error + ('b, 'l) dht_system" where
  "new_system cfg external fresh_filter now clock r_buf fresh secret1 secret2 =
     (let discovered = chan_make (c_discovery_buffer (sc_dht cfg)); dedup = new_bloom_filter fresh_filter in
      case new_server (sc_dht cfg) external discovered (Some dedup) now r_buf fresh secret1 secret2 of
        Inl e \<Rightarrow> Inl e
      | Inr s \<Rightarrow> Inr
         \<lparr>sy_server = s,
          sy_crawlers = map (\<lambda>i. \<lparr>th_crawler = new_crawler clock (sc_crawler cfg), th_loop = None\<rparr>) [0..<sc_crawlers cfg],
          sy_workers = map (\<lambda>i. new_discovery_worker (sc_crawler cfg)) [0..<sc_workers cfg],
          sy_queue = chan_make (sc_queue_size cfg)\<rparr>)"

definition system_node_count :: "('b, 'l) dht_system \<Rightarrow> nat" where
  "system_node_count sy = node_count (s_table (sy_server sy))"

subsection \<open>Turns\<close>

datatype 'b system_event =
  At_Server event
| Rotate_Dedup 'b
| Crawler_Start nat node_id
| Crawler_Pass nat crawl_env
| Worker_Turn nat instant "nat \<Rightarrow> node \<Rightarrow> send_error + msg"
| Take_Discovered

definition crawl_state_of :: "('b, 'l) dht_system \<Rightarrow> crawler \<Rightarrow> node_id \<Rightarrow> nat \<Rightarrow> ('b, 'l) crawl_state" where
  "crawl_state_of sy c target iteration =
     \<lparr>cs_crawler = c, cs_server = sy_server sy, cs_queue = sy_queue sy, cs_target = target, cs_iteration = iteration\<rparr>"

definition put_crawl_state :: "nat \<Rightarrow> ('b, 'l) crawl_state \<Rightarrow> ('b, 'l) dht_system \<Rightarrow> ('b, 'l) dht_system" where
  "put_crawl_state i st sy =
     sy\<lparr>sy_server := cs_server st, sy_queue := cs_queue st,
        sy_crawlers := (sy_crawlers sy)[i := \<lparr>th_crawler = cs_crawler st, th_loop = Some (cs_target st, cs_iteration st)\<rparr>]\<rparr>"

definition take_discovered :: "('b, 'l) server \<Rightarrow> discovered_peers option \<times> ('b, 'l) server" where
  "take_discovered s =
     (case queued (s_discovered s) of
        [] \<Rightarrow> (None, s)
      | e # rest \<Rightarrow> (Some e, s\<lparr>s_discovered := (s_discovered s)\<lparr>queued := rest\<rparr>\<rparr>))"

text \<open>A turn of a crawler or worker that does not exist, or does not run yet, changes nothing.\<close>

definition system_step ::
    "('b, 'l) libs \<Rightarrow> (rat \<Rightarrow> byte) \<Rightarrow> (int \<Rightarrow> bool) \<Rightarrow> 'b system_event \<Rightarrow> ('b, 'l) dht_system \<Rightarrow> ('b, 'l) dht_system outcome" where
  "system_step lib cv ctr e sy =
     (case e of
        At_Server ev \<Rightarrow> map_sum id (\<lambda>s. sy\<lparr>sy_server := s\<rparr>) (server_step lib ev (sy_server sy))
      | Rotate_Dedup fresh \<Rightarrow>
          Inr (sy\<lparr>sy_server := (sy_server sy)\<lparr>s_dedup := map_option (rotate_filter fresh) (s_dedup (sy_server sy))\<rparr>\<rparr>)
      | Crawler_Start i target \<Rightarrow>
          if i < length (sy_crawlers sy) \<and> th_loop (sy_crawlers sy ! i) = None
          then Inr (put_crawl_state i (start_crawl cv target (sy_queue sy) (sy_server sy) (th_crawler (sy_crawlers sy ! i))) sy)
          else Inr sy
      | Crawler_Pass i env \<Rightarrow>
          if i < length (sy_crawlers sy)
          then (case th_loop (sy_crawlers sy ! i) of
                  None \<Rightarrow> Inr sy
                | Some (target, k) \<Rightarrow>
                    map_sum id (\<lambda>(ev, st). put_crawl_state i st sy)
                      (crawl_pass lib cv ctr env (crawl_state_of sy (th_crawler (sy_crawlers sy ! i)) target k)))
          else Inr sy
      | Worker_Turn i now ask \<Rightarrow>
          if i < length (sy_workers sy)
          then map_sum id (\<lambda>(lk, q, s). sy\<lparr>sy_queue := q, sy_server := s\<rparr>)
            (discover_step (sy_workers sy ! i) now ask (sy_queue sy) (sy_server sy))
          else Inr sy
      | Take_Discovered \<Rightarrow> Inr (sy\<lparr>sy_server := snd (take_discovered (sy_server sy))\<rparr>))"

fun run_system ::
    "('b, 'l) libs \<Rightarrow> (rat \<Rightarrow> byte) \<Rightarrow> (int \<Rightarrow> bool) \<Rightarrow> 'b system_event list \<Rightarrow> ('b, 'l) dht_system \<Rightarrow> ('b, 'l) dht_system outcome" where
  "run_system lib cv ctr [] sy = Inr sy"
| "run_system lib cv ctr (e # es) sy =
     (case system_step lib cv ctr e sy of Inl p \<Rightarrow> Inl p | Inr sy1 \<Rightarrow> run_system lib cv ctr es sy1)"

subsection \<open>The server keeps its filter and its nodes valid\<close>

lemma handlers_dedup:
  "s_dedup (handle_announce_peer lib now a m s) = None \<longleftrightarrow> s_dedup s = None"
  "s_dedup (handle_ping a m s) = s_dedup s" "s_dedup (handle_find_node a m s) = s_dedup s"
  "s_dedup (handle_get_peers now a m s) = s_dedup s" "s_dedup (handle_sample_infohashes now rnd a m s) = s_dedup s"
  by (auto simp: handle_ping_def handle_find_node_def handle_get_peers_def handle_announce_peer_def handle_sample_infohashes_def
      Let_def split: option.split sum.split prod.split)

lemma see_node_dedup: "see_node now i a s = Inr s' \<Longrightarrow> s_dedup s' = s_dedup s"
  by (auto simp: see_node_def split: sum.splits prod.splits)

lemma insert_valid_nodes_dedup: "insert_valid_nodes now ns s = Inr s' \<Longrightarrow> s_dedup s' = s_dedup s"
  by (induction now ns s rule: insert_valid_nodes.induct) (auto split: sum.splits prod.splits)

lemma process_query_dedup: "process_query lib now rnd inm s = Inr s' \<Longrightarrow> s_dedup s' = None \<longleftrightarrow> s_dedup s = None"
  by (auto simp: process_query_def process_node_seen_def Let_def handlers_dedup simp del: not_None_eq dest!: see_node_dedup
      split: prod.splits if_splits sum.splits option.splits)

lemma server_step_dedup:
  assumes "server_step lib e s = Inr s'" and "s_dedup s \<noteq> None"
  shows "s_dedup s' \<noteq> None"
proof (cases e)
  case (Handle now rnd)
  with assms show ?thesis
    by (cases "queued (s_handlers s)") (auto simp: query_handler_step_def simp del: not_None_eq dest: process_query_dedup)
next
  case (Read now d a)
  with assms show ?thesis
    by (auto simp: read_step_def route_message_def update_table_from_response_def Let_def dest!: see_node_dedup
        split: option.splits if_splits sum.splits)
next
  case (Learn now r)
  with assms show ?thesis
    by (auto simp: insert_nodes_from_find_node_def dest!: insert_valid_nodes_dedup split: sum.splits)
qed (use assms in \<open>auto simp: sweep_step_def spawned_step_def ping_node_def send_def write_step_def emit_def Let_def
  split: list.splits option.splits prod.splits sum.splits\<close>)

lemma server_step_net:
  assumes "net_ok s" and "event_ok e"
  shows "case server_step lib e s of Inl p \<Rightarrow> label_panic lib p | Inr s' \<Rightarrow> net_ok s'"
  using server_step_outcome[OF _ assms(2) refl, of s lib] server_step_dedup[of lib e s]
    bep42_law.server_step_law[OF _ _ assms(2), of s lib] assms(1)
  by (auto simp: net_ok_def table_has_def)

subsection \<open>The queue names known nodes\<close>

definition sources_ok :: "discovery_work chan \<Rightarrow> bool" where
  "sources_ok q \<longleftrightarrow> (\<forall>w \<in> set (queued q). \<forall>n. dw_source w = Some n \<longrightarrow> wf_id (nid n))"

lemma sources_drop: "sources_ok q \<Longrightarrow> sources_ok (q\<lparr>queued := drop k (queued q)\<rparr>)"
  by (auto simp: sources_ok_def dest: in_set_dropD)

lemma sources_send:
  "sources_ok q \<Longrightarrow> chan_try_send w q = Some q' \<Longrightarrow> (\<And>n. dw_source w = Some n \<Longrightarrow> wf_id (nid n)) \<Longrightarrow> sources_ok q'"
  by (auto simp: sources_ok_def chan_try_send_def split: if_splits)

lemma enqueue_sample_sources:
  assumes "wf_id (nid src)" and "sources_ok (en_queue e)"
  shows "sources_ok (en_queue (enqueue_sample lib k src h e))"
  using sources_drop[OF assms(2), of k] assms
  by (auto simp: enqueue_sample_def Let_def intro: sources_send split: prod.split option.split)

lemma enqueue_samples_sources:
  "wf_id (nid src) \<Longrightarrow> sources_ok (en_queue e) \<Longrightarrow> sources_ok (en_queue (enqueue_samples lib recv src k hs e))"
  by (induction lib recv src k hs e rule: enqueue_samples.induct) (simp_all add: enqueue_sample_sources)

lemma process_samples_sources:
  assumes "process_samples lib ctr recv bs it st = Inr (it', st')" and "wf_item it" and "sources_ok (cs_queue st)"
  shows "sources_ok (cs_queue st')"
  using assms
  by (auto simp: process_samples_def Let_def wf_item_def enqueue_samples_sources split: if_splits option.splits)

lemma query_item_sources:
  assumes "query_item lib ctr env k it st = Inr (r, st')" and "wf_item it" and "sources_ok (cs_queue st)"
  shows "sources_ok (cs_queue st')"
proof -
  obtain ans c where q: "query_for_samples (env_query_now env k) (env_samples env k) it (cs_crawler st) = (ans, c)" by force
  have "sources_ok (cs_queue (st\<lparr>cs_crawler := c\<rparr>))" using assms(3) by simp
  note p = process_samples_sources[OF _ assms(2) this]
  from q assms(1,3) show ?thesis
    by (auto simp: query_item_def Let_def split: sum.splits option.splits if_splits dest: p)
qed

lemma query_batch_sources:
  "query_batch lib ctr env k its st = Inr (rs, st') \<Longrightarrow> list_all wf_item its \<Longrightarrow> sources_ok (cs_queue st) \<Longrightarrow> sources_ok (cs_queue st')"
proof (induction its arbitrary: k st rs)
  case (Cons it its)
  from Cons.prems(1) obtain r st1 rs1 where q: "query_item lib ctr env k it st = Inr (r, st1)"
    and b: "query_batch lib ctr env (Suc k) its st1 = Inr (rs1, st')"
    by (auto split: sum.splits)
  from query_item_sources[OF q] Cons.prems have "sources_ok (cs_queue st1)" by simp
  with Cons.IH[OF b] Cons.prems(2) show ?case by simp
qed simp

lemma end_pass_queue: "end_pass cv env st = Inr st' \<Longrightarrow> cs_queue st' = cs_queue st"
  by (auto simp: end_pass_def Let_def split: if_splits)

lemma crawl_pass_sources:
  assumes "crawl_pass lib cv ctr env st = Inr (ev, st')" and "crawl_inv cv st" and "env_ok env" and "sources_ok (cs_queue st)"
  shows "sources_ok (cs_queue st')"
proof -
  define c0 where "c0 = (cs_crawler st)\<lparr>cr_backlog := 0\<rparr>"
  define st1 where "st1 = (if length (cr_ready c0) < cc_alpha (cr_cfg c0)
      then st\<lparr>cs_target := env_retarget env, cs_crawler := seed_queue cv (env_retarget env) (s_table (cs_server st)) c0\<rparr>
      else st\<lparr>cs_crawler := c0\<rparr>)"
  have wt: "wf_table (s_table (cs_server st))" using assms(2) by (simp add: crawl_inv_def net_ok_wf_table)
  have c0: "wf_crawler cv c0" using assms(2) by (simp add: c0_def crawl_inv_def)
  then have st1: "wf_crawler cv (cs_crawler st1)" "cs_queue st1 = cs_queue st"
    using seed_queue_wf[OF c0 wt, of "env_retarget env"] assms(3) by (simp_all add: st1_def)
  obtain batch c1 where tb: "take_batch cv (env_now env) (cc_alpha (cr_cfg c0)) (cs_crawler st1) = (batch, c1)" by force
  have b: "list_all wf_item batch" using take_batch_wf[OF st1(1) tb] by simp
  let ?st2 = "st1\<lparr>cs_crawler := c1\<rparr>"
  from assms(1) tb show ?thesis
    unfolding crawl_pass_def Let_def c0_def[symmetric] st1_def[symmetric]
    using assms(4) st1(2) query_batch_sources[OF _ b, of lib ctr env 0 ?st2]
    by (auto split: if_splits list.splits sum.splits dest!: end_pass_queue)
qed

subsection \<open>The system keeps its invariant\<close>

definition thread_ok :: "(rat \<Rightarrow> byte) \<Rightarrow> crawl_thread \<Rightarrow> bool" where
  "thread_ok cv th \<longleftrightarrow> wf_crawler cv (th_crawler th) \<and> 0 < cc_max_iterations (cr_cfg (th_crawler th))"

definition system_ok :: "(rat \<Rightarrow> byte) \<Rightarrow> ('b, 'l) dht_system \<Rightarrow> bool" where
  "system_ok cv sy \<longleftrightarrow> net_ok (sy_server sy) \<and> wf_chan (sy_queue sy) \<and> sources_ok (sy_queue sy) \<and>
     list_all (thread_ok cv) (sy_crawlers sy)"

text \<open>Random targets are well formed.\<close>

definition turn_ok :: "'b system_event \<Rightarrow> bool" where
  "turn_ok e = (case e of
     At_Server ev \<Rightarrow> event_ok ev | Crawler_Start i target \<Rightarrow> wf_id target | Crawler_Pass i env \<Rightarrow> env_ok env | _ \<Rightarrow> True)"

lemma start_crawl_ok:
  assumes "wf_crawler cv c" and "net_ok s" and "wf_id target"
  shows "wf_crawler cv (cs_crawler (start_crawl cv target q s c)) \<and> cr_cfg (cs_crawler (start_crawl cv target q s c)) = cr_cfg c"
proof -
  let ?c = "c\<lparr>cr_ready := heap_init (traversal_less cv) (cr_ready c), cr_cooldown := heap_init cooldown_less (cr_cooldown c)\<rparr>"
  have "wf_crawler cv ?c"
    using assms(1) heap_init_correct[of "eff_dist cv"] heap_init_correct[of ci_next]
    by (simp add: wf_crawler_def traversal_less_key cooldown_less_key)
  from seed_queue_wf[OF this net_ok_wf_table[OF assms(2)] assms(3)] show ?thesis by (simp add: start_crawl_def)
qed

lemma list_all_update: "list_all P xs \<Longrightarrow> P x \<Longrightarrow> list_all P (xs[i := x])"
  using set_update_subset_insert[of xs i x] by (auto simp: list_all_iff)

lemma put_crawl_ok:
  assumes "system_ok cv sy" and "crawl_inv cv st" and "sources_ok (cs_queue st)" and "0 < cc_max_iterations (cr_cfg (cs_crawler st))"
  shows "system_ok cv (put_crawl_state i st sy)"
  using assms by (simp add: system_ok_def put_crawl_state_def crawl_inv_def thread_ok_def list_all_update)

text \<open>Rotating the filter or reading the channel of discovered peers leaves everything else alone.\<close>

lemma rotate_net_ok: "net_ok s \<Longrightarrow> net_ok (s\<lparr>s_dedup := map_option f (s_dedup s)\<rparr>)"
  by (simp add: net_ok_def wf_server_def)

lemma take_net_ok: "net_ok s \<Longrightarrow> net_ok (snd (take_discovered s))"
  by (auto simp: take_discovered_def net_ok_def wf_server_def wf_chan_def split: list.split)

lemma worker_turn_ok:
  assumes "system_ok cv sy" and "discover_step w now ask (sy_queue sy) (sy_server sy) = out"
  shows "\<exists>lk q s. out = Inr (lk, q, s) \<and> net_ok s \<and> wf_chan q \<and> sources_ok q"
proof (cases "queued (sy_queue sy)")
  case (Cons work rest)
  from assms(1) have n: "net_ok (sy_server sy)" and q: "wf_chan (sy_queue sy)" "sources_ok (sy_queue sy)"
    by (simp_all add: system_ok_def)
  from q(2) Cons have src: "\<forall>n. dw_source work = Some n \<longrightarrow> wf_id (nid n)" by (simp add: sources_ok_def)
  from discover_peers_correct[OF n src, of w now ask "dw_infohash work"] obtain res lk s'
    where "discover_peers w now ask (dw_infohash work) (dw_source work) (sy_server sy) = Inr (res, lk, s')" "net_ok s'"
    by blast
  with assms(2) Cons q show ?thesis by (auto simp: discover_step_def wf_chan_def sources_ok_def)
qed (use assms in \<open>auto simp: discover_step_def system_ok_def\<close>)

lemma crawler_turn_ok:
  assumes "system_ok cv sy" and "env_ok env" and "i < length (sy_crawlers sy)" and "th_loop (sy_crawlers sy ! i) = Some (target, k)"
  shows "safely ctr (\<lambda>(ev, st). system_ok cv (put_crawl_state i st sy))
    (crawl_pass lib cv ctr env (crawl_state_of sy (th_crawler (sy_crawlers sy ! i)) target k))"
proof -
  let ?st = "crawl_state_of sy (th_crawler (sy_crawlers sy ! i)) target k"
  have th: "thread_ok cv (sy_crawlers sy ! i)" using assms(1,3) by (simp add: system_ok_def list_all_length)
  have inv: "crawl_inv cv ?st" and src: "sources_ok (cs_queue ?st)" and it: "0 < cc_max_iterations (cr_cfg (cs_crawler ?st))"
    using assms(1) th by (simp_all add: crawl_inv_def crawl_state_of_def system_ok_def thread_ok_def)
  have put: "system_ok cv (put_crawl_state i st sy)" if "crawl_inv cv st" "cr_cfg (cs_crawler st) = cr_cfg (cs_crawler ?st)"
      "sources_ok (cs_queue st)" for st
    using put_crawl_ok[OF assms(1) that(1,3)] that(2) it by simp
  show ?thesis
  proof (cases "crawl_pass lib cv ctr env ?st")
    case (Inr r)
    obtain ev st where r: "r = (ev, st)" by force
    from crawl_pass_ok[OF inv assms(2) it, of ctr lib] crawl_pass_sources[OF Inr[unfolded r] inv assms(2) src] Inr
    show ?thesis by (simp add: r put)
  qed (use crawl_pass_ok[OF inv assms(2) it, of ctr lib] in simp)
qed

text \<open>The only panics are those of the metrics library.\<close>

definition metrics_panic :: "('b, 'l) libs \<Rightarrow> (int \<Rightarrow> bool) \<Rightarrow> panic \<Rightarrow> bool" where
  "metrics_panic lib ctr p \<longleftrightarrow> counter_panic ctr p \<or> label_panic lib p"

definition but_metrics :: "('b, 'l) libs \<Rightarrow> (int \<Rightarrow> bool) \<Rightarrow> ('a \<Rightarrow> bool) \<Rightarrow> 'a outcome \<Rightarrow> bool" where
  "but_metrics lib ctr P out \<longleftrightarrow> (case out of Inl p \<Rightarrow> metrics_panic lib ctr p | Inr x \<Rightarrow> P x)"

lemma but_metrics_simps [simp]:
  "but_metrics lib ctr P (Inl p) = metrics_panic lib ctr p" "but_metrics lib ctr P (Inr x) = P x"
  by (simp_all add: but_metrics_def)

lemma safely_but_metrics: "safely ctr P out \<Longrightarrow> but_metrics lib ctr P out"
  by (auto simp: safely_def but_metrics_def metrics_panic_def split: sum.splits)

lemma system_step_ok:
  assumes "system_ok cv sy" and "turn_ok e"
  shows "but_metrics lib ctr (system_ok cv) (system_step lib cv ctr e sy)"
proof (cases e)
  case (At_Server ev)
  with server_step_net[of "sy_server sy" ev lib] assms show ?thesis
    by (auto simp: system_step_def turn_ok_def system_ok_def metrics_panic_def split: sum.splits)
next
  case (Crawler_Start i target)
  show ?thesis
  proof (cases "i < length (sy_crawlers sy) \<and> th_loop (sy_crawlers sy ! i) = None")
    case True
    have th: "thread_ok cv (sy_crawlers sy ! i)" using assms(1) True by (simp add: system_ok_def list_all_length)
    let ?st = "start_crawl cv target (sy_queue sy) (sy_server sy) (th_crawler (sy_crawlers sy ! i))"
    have same: "cs_server ?st = sy_server sy" "cs_queue ?st = sy_queue sy" by (simp_all add: start_crawl_def Let_def)
    have "crawl_inv cv ?st" "0 < cc_max_iterations (cr_cfg (cs_crawler ?st))" "sources_ok (cs_queue ?st)"
      using start_crawl_ok[of cv "th_crawler (sy_crawlers sy ! i)" "sy_server sy" target "sy_queue sy"] th assms
      by (simp_all add: crawl_inv_def same system_ok_def thread_ok_def turn_ok_def Crawler_Start)
    from put_crawl_ok[OF assms(1) this(1,3,2)] True show ?thesis by (simp add: system_step_def Crawler_Start)
  qed (use assms in \<open>auto simp: system_step_def Crawler_Start\<close>)
next
  case (Crawler_Pass i env)
  show ?thesis
  proof (cases "i < length (sy_crawlers sy) \<and> th_loop (sy_crawlers sy ! i) \<noteq> None")
    case True
    then obtain target k where l: "i < length (sy_crawlers sy)" "th_loop (sy_crawlers sy ! i) = Some (target, k)" by auto
    from crawler_turn_ok[OF assms(1) _ l, of env ctr lib] assms(2) l show ?thesis
      by (auto simp: system_step_def Crawler_Pass turn_ok_def metrics_panic_def elim!: safelyE)
  qed (use assms in \<open>auto simp: system_step_def Crawler_Pass split: option.split\<close>)
next
  case (Worker_Turn i now ask)
  with worker_turn_ok[OF assms(1) refl, of "sy_workers sy ! i" now ask] assms show ?thesis
    by (auto simp: system_step_def system_ok_def)
qed (use assms in \<open>auto simp: system_step_def system_ok_def rotate_net_ok take_net_ok\<close>)

lemma run_system_ok:
  "system_ok cv sy \<Longrightarrow> list_all turn_ok es \<Longrightarrow> but_metrics lib ctr (system_ok cv) (run_system lib cv ctr es sy)"
proof (induction es arbitrary: sy)
  case (Cons e es)
  from Cons.prems have "but_metrics lib ctr (system_ok cv) (system_step lib cv ctr e sy)" by (simp add: system_step_ok)
  with Cons show ?case by (cases "system_step lib cv ctr e sy") simp_all
qed simp

lemma new_system_ok:
  assumes "new_system cfg ext fresh_filter now clock r fresh x y = Inr sy" and "length fresh = 20"
    and "0 < c_bucket_size (sc_dht cfg)" and "0 < c_store_peers (sc_dht cfg)" and "0 < cc_max_iterations (sc_crawler cfg)"
  shows "system_ok cv sy"
proof -
  let ?disc = "chan_make (c_discovery_buffer (sc_dht cfg))"
  let ?dedup = "Some (new_bloom_filter fresh_filter)"
  from assms(1) obtain s where s: "new_server (sc_dht cfg) ext ?disc ?dedup now r fresh x y = Inr s" and srv: "sy_server sy = s"
    and rest: "sy_queue sy = chan_make (sc_queue_size cfg)"
      "sy_crawlers sy = map (\<lambda>i. \<lparr>th_crawler = new_crawler clock (sc_crawler cfg), th_loop = None\<rparr>) [0..<sc_crawlers cfg]"
    by (auto simp: new_system_def Let_def split: sum.splits)
  have "wf_server s" using new_server_wf[OF s assms(2-4)] by simp
  then have "net_ok s"
    using s by (auto simp: new_server_def net_ok_def new_routing_table_def all_nodes_def split: sum.splits)
  moreover have "thread_ok cv \<lparr>th_crawler = new_crawler clock (sc_crawler cfg), th_loop = None\<rparr>"
    using new_crawler_wf[of cv clock "sc_crawler cfg"] assms(5) by (simp add: thread_ok_def new_crawler_def)
  ultimately show ?thesis by (simp add: system_ok_def srv rest sources_ok_def list_all_iff chan_make_def wf_chan_def)
qed

text \<open>
  C6. However the turns of the server, its filter, the crawlers, the discovery workers and the indexer interleave after
  the system was built, nothing panics but the metrics library, on a query name or counter value it rejects. The
  server stays sound with only BEP-42 nodes in its table and never waits on a full channel; every crawler keeps its
  heaps and caches sound; every work item in the shared queue names a node with a valid identifier.
\<close>

theorem system_safe:
  assumes "new_system cfg ext fresh_filter now clock r fresh x y = Inr sy" and "length fresh = 20"
    and "0 < c_bucket_size (sc_dht cfg)" and "0 < c_store_peers (sc_dht cfg)" and "0 < cc_max_iterations (sc_crawler cfg)"
    and "list_all turn_ok es"
  shows "case run_system lib cv ctr es sy of Inl p \<Rightarrow> metrics_panic lib ctr p | Inr sy' \<Rightarrow> system_ok cv sy'"
  using run_system_ok[OF new_system_ok[OF assms(1-5)] assms(6)] by (simp add: but_metrics_def)

definition sample_system_config :: system_config where
  "sample_system_config = \<lparr>sc_dht = sample_config, sc_crawler = sample_crawler_config, sc_crawlers = 1, sc_workers = 1, sc_queue_size = 4\<rparr>"

definition sample_system :: "(info_hash list, nat) dht_system" where
  "sample_system = (case new_system sample_system_config None [] 0 (\<lambda>u. 0) 0 (replicate 20 1) (replicate 8 1) (replicate 8 2) of
     Inr sy \<Rightarrow> sy | Inl e \<Rightarrow> undefined)"

lemma sample_system_new:
  "new_system sample_system_config None [] 0 (\<lambda>u. 0) 0 (replicate 20 1) (replicate 8 1) (replicate 8 2) = Inr sample_system"
  by (simp add: sample_system_def new_system_def new_server_def get_server_node_id_def sample_config_def sample_system_config_def)

theorem system_safe_witness:
  "\<exists>sy. run_system sample_libs (\<lambda>x. 0) (\<lambda>v. True)
     [Crawler_Start 0 (replicate 20 3), At_Server (Read 1 [7, 7] \<lparr>ip = [10, 0, 0, 1], port = 6881\<rparr>), Crawler_Pass 0 sample_env,
      Worker_Turn 0 9 (\<lambda>k n. Inl Txn_Timeout), Rotate_Dedup [], Take_Discovered] sample_system = Inr sy \<and> system_ok (\<lambda>x. 0) sy"
  using system_safe[OF sample_system_new, where lib = sample_libs and cv = "\<lambda>x. 0" and ctr = "\<lambda>v. True" and
      es = "[Crawler_Start 0 (replicate 20 3), At_Server (Read 1 [7, 7] \<lparr>ip = [10, 0, 0, 1], port = 6881\<rparr>), Crawler_Pass 0 sample_env,
      Worker_Turn 0 9 (\<lambda>k n. Inl Txn_Timeout), Rotate_Dedup [], Take_Discovered]"]
  by (simp add: sample_system_config_def sample_config_def sample_crawler_config_def sample_env_def turn_ok_def wf_id_def
      metrics_panic_def counter_panic_def label_panic_def sample_libs_def del: run_system.simps split: sum.splits)

end
