(* ===== verification/Go_Text.thy ===== *)
theory Go_Text
  imports Go_Prelude
begin

section \<open>Text\<close>

text \<open>
  A Go string that is valid UTF-8, as its list of code points: the parts of \<^verbatim>\<open>strings\<close>, \<^verbatim>\<open>unicode\<close>,
  \<^verbatim>\<open>utf8\<close>, \<^verbatim>\<open>strconv\<close> and \<^verbatim>\<open>filepath\<close> the program uses on names and paths.
\<close>

type_synonym rune = int
type_synonym runes = "rune list"

definition asc :: "string \<Rightarrow> runes" where
  "asc s = map of_char s"

lemma asc_Nil [simp]: "asc [] = []"
  by (simp add: asc_def)

lemma asc_Cons [simp]: "asc (c # cs) = of_char c # asc cs"
  by (simp add: asc_def)

lemma length_asc [simp]: "length (asc s) = length s"
  by (simp add: asc_def)

subsection \<open>White space\<close>

text \<open>\<^verbatim>\<open>unicode.IsSpace\<close>\<close>

definition is_space :: "rune \<Rightarrow> bool" where
  "is_space r \<longleftrightarrow> 9 \<le> r \<and> r \<le> 13 \<or> r = 32 \<or> r = 0x85 \<or> r = 0xA0 \<or> r = 0x1680 \<or> 0x2000 \<le> r \<and> r \<le> 0x200A \<or>
     r = 0x2028 \<or> r = 0x2029 \<or> r = 0x202F \<or> r = 0x205F \<or> r = 0x3000"

text \<open>\<^verbatim>\<open>strings.Fields\<close> with the field being read, reversed; \<^verbatim>\<open>strings.Join\<close>; \<^verbatim>\<open>strings.ReplaceAll\<close> of one rune by one.\<close>

fun fields_from :: "runes \<Rightarrow> runes \<Rightarrow> runes list" where
  "fields_from cur [] = (if cur = [] then [] else [rev cur])"
| "fields_from cur (c # cs) =
     (if is_space c then (if cur = [] then [] else [rev cur]) @ fields_from [] cs
      else fields_from (c # cur) cs)"

definition fields_of :: "runes \<Rightarrow> runes list" where
  "fields_of s = fields_from [] s"

fun join_with :: "runes \<Rightarrow> runes list \<Rightarrow> runes" where
  "join_with sep [] = []"
| "join_with sep [x] = x"
| "join_with sep (x # y # zs) = x @ sep @ join_with sep (y # zs)"

definition replace_rune :: "rune \<Rightarrow> rune \<Rightarrow> runes \<Rightarrow> runes" where
  "replace_rune a b s = map (\<lambda>r. if r = a then b else r) s"

text \<open>\<^verbatim>\<open>strings.TrimSpace\<close> and \<^verbatim>\<open>strings.TrimRight\<close>\<close>

definition trim_right :: "runes \<Rightarrow> runes \<Rightarrow> runes" where
  "trim_right cutset s = rev (dropWhile (\<lambda>r. r \<in> set cutset) (rev s))"

definition trim_space :: "runes \<Rightarrow> runes" where
  "trim_space s = rev (dropWhile is_space (rev (dropWhile is_space s)))"

text \<open>
  \<^verbatim>\<open>strings.ToLower\<close> of a code point: the ASCII part is written out, \<open>lower\<close> is the table of \<^verbatim>\<open>unicode.ToLower\<close>
  beyond it.
\<close>

definition to_lower :: "(rune \<Rightarrow> rune) \<Rightarrow> runes \<Rightarrow> runes" where
  "to_lower lower s = map (\<lambda>r. if r < 128 then (if 65 \<le> r \<and> r \<le> 90 then r + 32 else r) else lower r) s"

subsection \<open>Paths and numbers\<close>

text \<open>\<^verbatim>\<open>filepath.Ext\<close> where the separator is the slash: from the last dot after the last slash.\<close>

fun ext_of_rev :: "runes \<Rightarrow> runes \<Rightarrow> runes" where
  "ext_of_rev acc [] = []"
| "ext_of_rev acc (r # rs) = (if r = 47 then [] else if r = 46 then r # acc else ext_of_rev (r # acc) rs)"

definition filepath_ext :: "runes \<Rightarrow> runes" where
  "filepath_ext p = ext_of_rev [] (rev p)"

text \<open>
  \<^verbatim>\<open>strconv.Atoi\<close>, with the value that comes with an error: 0 for text that is no number, and the nearest
  64-bit value for a number out of range.
\<close>

definition is_digit :: "rune \<Rightarrow> bool" where
  "is_digit r \<longleftrightarrow> 48 \<le> r \<and> r \<le> 57"

definition digits_val :: "runes \<Rightarrow> int" where
  "digits_val s = foldl (\<lambda>v r. 10 * v + (r - 48)) 0 s"

definition atoi :: "runes \<Rightarrow> int" where
  "atoi s =
     (case s of
        [] \<Rightarrow> 0
      | c # cs \<Rightarrow>
          if (c = 43 \<or> c = 45) \<and> cs \<noteq> [] \<and> list_all is_digit cs then
            (if c = 45 then max (- (2 ^ 63)) (- digits_val cs) else min (2 ^ 63 - 1) (digits_val cs))
          else if list_all is_digit s then min (2 ^ 63 - 1) (digits_val s)
          else 0)"

lemma digits_val_snoc: "digits_val (s @ [r]) = 10 * digits_val s + (r - 48)"
  by (simp add: digits_val_def)

lemma digits_val_bounds: "list_all is_digit s \<Longrightarrow> 0 \<le> digits_val s \<and> digits_val s < 10 ^ length s"
proof (induction s rule: rev_induct)
  case (snoc r s)
  then show ?case by (auto simp: digits_val_snoc is_digit_def)
qed (simp add: digits_val_def)

lemma atoi_digits: "s \<noteq> [] \<Longrightarrow> list_all is_digit s \<Longrightarrow> atoi s = min (2 ^ 63 - 1) (digits_val s)"
  by (cases s) (auto simp: atoi_def is_digit_def)

lemma atoi_bounds: "list_all is_digit s \<Longrightarrow> 0 \<le> atoi s \<and> atoi s < 10 ^ length s"
  using digits_val_bounds[of s] by (cases "s = []") (simp_all add: atoi_digits min_less_iff_disj, simp add: atoi_def)

subsection \<open>UTF-8\<close>

text \<open>
  \<^verbatim>\<open>utf8.DecodeRune\<close> on the bytes of a string: the rune and its width, or nothing for a byte that does not
  begin a valid encoding; \<^verbatim>\<open>strings.ToValidUTF8(s, "")\<close> drops such bytes.
\<close>

definition is_cont :: "int \<Rightarrow> bool" where
  "is_cont b \<longleftrightarrow> 0x80 \<le> b \<and> b \<le> 0xBF"

fun decode_rune :: "int list \<Rightarrow> (rune \<times> nat) option" where
  "decode_rune [] = None"
| "decode_rune (b0 # bs) =
     (if b0 < 0x80 then Some (b0, 1)
      else if 0xC2 \<le> b0 \<and> b0 \<le> 0xDF then
        (case bs of
           b1 # _ \<Rightarrow> if is_cont b1 then Some ((b0 - 0xC0) * 64 + (b1 - 0x80), 2) else None
         | _ \<Rightarrow> None)
      else if 0xE0 \<le> b0 \<and> b0 \<le> 0xEF then
        (case bs of
           b1 # b2 # _ \<Rightarrow>
             if (if b0 = 0xE0 then 0xA0 else 0x80) \<le> b1 \<and> b1 \<le> (if b0 = 0xED then 0x9F else 0xBF) \<and> is_cont b2
             then Some ((b0 - 0xE0) * 4096 + (b1 - 0x80) * 64 + (b2 - 0x80), 3) else None
         | _ \<Rightarrow> None)
      else if 0xF0 \<le> b0 \<and> b0 \<le> 0xF4 then
        (case bs of
           b1 # b2 # b3 # _ \<Rightarrow>
             if (if b0 = 0xF0 then 0x90 else 0x80) \<le> b1 \<and> b1 \<le> (if b0 = 0xF4 then 0x8F else 0xBF) \<and> is_cont b2 \<and> is_cont b3
             then Some ((b0 - 0xF0) * 262144 + (b1 - 0x80) * 4096 + (b2 - 0x80) * 64 + (b3 - 0x80), 4) else None
         | _ \<Rightarrow> None)
      else None)"

function valid_runes :: "int list \<Rightarrow> runes" where
  "valid_runes [] = []"
| "valid_runes (b # bs) =
     (case decode_rune (b # bs) of
        None \<Rightarrow> valid_runes bs
      | Some (r, w) \<Rightarrow> r # valid_runes (drop (w - 1) bs))"
  by pat_completeness auto
termination by (relation "measure length") auto

definition to_valid_utf8 :: "string \<Rightarrow> runes" where
  "to_valid_utf8 s = valid_runes (asc s)"

text \<open>The number of bytes of a rune, and the longest prefix of at most \<open>n\<close> bytes.\<close>

definition rune_len :: "rune \<Rightarrow> nat" where
  "rune_len r = (if r < 0x80 then 1 else if r < 0x800 then 2 else if r < 0x10000 then 3 else 4)"

definition byte_len :: "runes \<Rightarrow> nat" where
  "byte_len s = sum_list (map rune_len s)"

fun byte_prefix :: "nat \<Rightarrow> runes \<Rightarrow> runes" where
  "byte_prefix n [] = []"
| "byte_prefix n (r # rs) = (if rune_len r \<le> n then r # byte_prefix (n - rune_len r) rs else [])"

lemma ascii_valid_runes: "list_all (\<lambda>b. 0 \<le> b \<and> b < 0x80) bs \<Longrightarrow> valid_runes bs = bs"
  by (induction bs) simp_all

end
