(* ===== verification/Torrent_Db.thy ===== *)
theory Torrent_Db
  imports Node_Id Go_Text "HOL-Library.Char_ord" "HOL-Library.List_Lexorder"
begin

section \<open>The torrent database (\<^verbatim>\<open>db/schema\<close>, \<^verbatim>\<open>db/gen/scrape.sql.go\<close>, \<^verbatim>\<open>db/gen/indexer.sql.go\<close>)\<close>

text \<open>
  The tables the workers write, and the statements they send, with the checks and the foreign keys of the
  schema: a statement gives the new database, or nothing when a constraint refuses it (then it changes
  nothing). \<open>now\<close> is the \<^verbatim>\<open>NOW()\<close> of the statement. The audit columns (\<^verbatim>\<open>created_at\<close>, \<^verbatim>\<open>updated_at\<close>) and
  the enrichment columns, which no statement here reads, are left out.
\<close>

datatype torrent_state = Pending | Classified | Enriched | Active | Dead | Rejected

datatype content_type = Movie | Tv | Unknown_Type | Anime

record classified_fields =
  cf_quality :: "runes option"
  cf_encoding :: "runes option"
  cf_dynamic_range :: "runes option"
  cf_source :: "runes option"
  cf_release_group :: "runes option"
  cf_scene_name :: "runes option"
  cf_title :: "runes option"
  cf_year :: "int option"
  cf_season :: "int option"
  cf_episode :: "int option"

record torrent_row =
  tr_name :: runes
  tr_total_size :: int
  tr_file_count :: int
  tr_state :: torrent_state
  tr_content_type :: content_type
  tr_fields :: classified_fields
  tr_seeders :: int
  tr_leechers :: int
  tr_scrape_at :: "instant option"
  tr_first_seen :: instant
  tr_last_seen :: "instant option"

record file_row =
  fl_infohash :: string
  fl_path :: runes
  fl_size :: int
  fl_extension :: "runes option"
  fl_is_video :: bool

record history_row =
  hr_infohash :: string
  hr_tracker :: int
  hr_scraped_at :: instant
  hr_seeders :: int
  hr_leechers :: int

record torrent_db =
  torrents :: "(string, torrent_row) gomap"
  torrent_files :: "file_row list"
  trackers :: "(string, int) gomap"
  tracker_seq :: int
  torrent_trackers :: "(string \<times> int, instant) gomap"
  scrape_history :: "history_row list"

subsection \<open>Statements of the scraper\<close>

record scrape_row =
  row_infohash :: string
  row_seeders :: int
  row_state :: torrent_state

text \<open>
  \<^verbatim>\<open>ORDER BY scrape_at ASC NULLS FIRST\<close>; rows with the same instant come in the order of the table,
  which is one of the orders SQL allows. A negative limit is an error.
\<close>

definition is_due :: "instant \<Rightarrow> torrent_row \<Rightarrow> bool" where
  "is_due now t \<longleftrightarrow>
     (case tr_scrape_at t of None \<Rightarrow> True | Some at \<Rightarrow> at < now) \<and> tr_state t \<in> {Classified, Enriched, Active}"

definition get_torrents_to_scrape :: "instant \<Rightarrow> int \<Rightarrow> torrent_db \<Rightarrow> scrape_row list option" where
  "get_torrents_to_scrape now limit db =
     (let due = filter (\<lambda>(ih, t). is_due now t) (torrents db);
          ordered = filter (\<lambda>(ih, t). tr_scrape_at t = None) due @
            sort_key (\<lambda>(ih, t). the (tr_scrape_at t)) (filter (\<lambda>(ih, t). tr_scrape_at t \<noteq> None) due)
      in if limit < 0 then None
         else Some (map (\<lambda>(ih, t). \<lparr>row_infohash = ih, row_seeders = tr_seeders t, row_state = tr_state t\<rparr>)
           (take (nat limit) ordered)))"

text \<open>\<^verbatim>\<open>UPDATE\<close> by primary key: no row, no change. The schema checks that counts are not negative.\<close>

definition update_torrent_scrape ::
    "string \<Rightarrow> int \<Rightarrow> int \<Rightarrow> instant \<Rightarrow> torrent_state \<Rightarrow> instant option \<Rightarrow> torrent_db \<Rightarrow> torrent_db option" where
  "update_torrent_scrape ih seeders leechers scrape_at st last_seen db =
     (case map_get (torrents db) ih of
        None \<Rightarrow> Some db
      | Some t \<Rightarrow>
          if seeders < 0 \<or> leechers < 0 then None
          else Some (db\<lparr>torrents := map_set ih
                 (t\<lparr>tr_seeders := seeders, tr_leechers := leechers, tr_scrape_at := Some scrape_at, tr_state := st,
                    tr_last_seen := (case last_seen of Some s \<Rightarrow> Some s | None \<Rightarrow> tr_last_seen t)\<rparr>) (torrents db)\<rparr>))"

definition update_torrent_dead :: "string \<Rightarrow> torrent_db \<Rightarrow> torrent_db option" where
  "update_torrent_dead ih db =
     (case map_get (torrents db) ih of
        None \<Rightarrow> Some db
      | Some t \<Rightarrow> Some (db\<lparr>torrents := map_set ih (t\<lparr>tr_state := Dead\<rparr>) (torrents db)\<rparr>))"

definition is_dead_candidate :: "instant \<Rightarrow> torrent_row \<Rightarrow> bool" where
  "is_dead_candidate cutoff t \<longleftrightarrow>
     tr_seeders t = 0 \<and> tr_scrape_at t \<noteq> None \<and> tr_state t \<noteq> Dead \<and> tr_state t \<noteq> Rejected \<and>
     (case tr_last_seen t of Some s \<Rightarrow> s | None \<Rightarrow> tr_first_seen t) < cutoff"

definition get_dead_candidates :: "instant \<Rightarrow> int \<Rightarrow> torrent_db \<Rightarrow> string list option" where
  "get_dead_candidates cutoff limit db =
     (if limit < 0 then None
      else Some (map fst (take (nat limit) (filter (\<lambda>(ih, t). is_dead_candidate cutoff t) (torrents db)))))"

text \<open>An insertion takes a new identifier from the sequence even when the URL is there already.\<close>

definition upsert_tracker :: "string \<Rightarrow> torrent_db \<Rightarrow> int \<times> torrent_db" where
  "upsert_tracker url db =
     (case map_get (trackers db) url of
        Some i \<Rightarrow> (i, db\<lparr>tracker_seq := tracker_seq db + 1\<rparr>)
      | None \<Rightarrow> (tracker_seq db, db\<lparr>trackers := map_set url (tracker_seq db) (trackers db), tracker_seq := tracker_seq db + 1\<rparr>))"

definition has_tracker :: "int \<Rightarrow> torrent_db \<Rightarrow> bool" where
  "has_tracker i db \<longleftrightarrow> i \<in> set (map snd (trackers db))"

definition upsert_torrent_tracker :: "instant \<Rightarrow> string \<Rightarrow> int \<Rightarrow> torrent_db \<Rightarrow> torrent_db option" where
  "upsert_torrent_tracker now ih tracker_id db =
     (if map_get (torrents db) ih = None \<or> \<not> has_tracker tracker_id db then None
      else Some (db\<lparr>torrent_trackers := map_set (ih, tracker_id) now (torrent_trackers db)\<rparr>))"

definition insert_scrape_history :: "instant \<Rightarrow> string \<Rightarrow> int \<Rightarrow> int \<Rightarrow> int \<Rightarrow> torrent_db \<Rightarrow> torrent_db option" where
  "insert_scrape_history now ih tracker_id seeders leechers db =
     (if map_get (torrents db) ih = None \<or> \<not> has_tracker tracker_id db \<or> seeders < 0 \<or> leechers < 0 then None
      else Some (db\<lparr>scrape_history := scrape_history db @
        [\<lparr>hr_infohash = ih, hr_tracker = tracker_id, hr_scraped_at = now, hr_seeders = seeders, hr_leechers = leechers\<rparr>]\<rparr>))"

definition prune_scrape_history :: "instant \<Rightarrow> torrent_db \<Rightarrow> torrent_db option" where
  "prune_scrape_history cutoff db =
     Some (db\<lparr>scrape_history := filter (\<lambda>h. \<not> hr_scraped_at h < cutoff) (scrape_history db)\<rparr>)"

subsection \<open>Statements of the indexer\<close>

definition get_torrent_by_infohash :: "string \<Rightarrow> torrent_db \<Rightarrow> torrent_row option" where
  "get_torrent_by_infohash ih db = map_get (torrents db) ih"

definition no_fields :: classified_fields where
  "no_fields = \<lparr>cf_quality = None, cf_encoding = None, cf_dynamic_range = None, cf_source = None, cf_release_group = None,
     cf_scene_name = None, cf_title = None, cf_year = None, cf_season = None, cf_episode = None\<rparr>"

text \<open>PostgreSQL stores no zero character in a text; the names and paths it gets are valid UTF-8.\<close>

definition text_ok :: "runes \<Rightarrow> bool" where
  "text_ok s \<longleftrightarrow> 0 \<notin> set s"

text \<open>The insertion with the number of rows it affects.\<close>

definition upsert_torrent_pending :: "instant \<Rightarrow> string \<Rightarrow> runes \<Rightarrow> int \<Rightarrow> int \<Rightarrow> torrent_db \<Rightarrow> (nat \<times> torrent_db) option" where
  "upsert_torrent_pending now ih name total_size file_count db =
     (if \<not> text_ok name \<or> length name > 500 \<or> total_size < 0 \<or> file_count < 0 then None
      else if map_get (torrents db) ih \<noteq> None then Some (0, db)
      else Some (1, db\<lparr>torrents := map_set ih
        \<lparr>tr_name = name, tr_total_size = total_size, tr_file_count = file_count, tr_state = Pending,
         tr_content_type = Unknown_Type, tr_fields = no_fields, tr_seeders = 0, tr_leechers = 0,
         tr_scrape_at = None, tr_first_seen = now, tr_last_seen = None\<rparr> (torrents db)\<rparr>))"

definition insert_torrent_files :: "file_row list \<Rightarrow> torrent_db \<Rightarrow> torrent_db option" where
  "insert_torrent_files fs db =
     (if list_ex (\<lambda>f. \<not> text_ok (fl_path f) \<or> fl_size f < 0 \<or> map_get (torrents db) (fl_infohash f) = None) fs then None
      else Some (db\<lparr>torrent_files := torrent_files db @
        map (\<lambda>f. f\<lparr>fl_extension := (if fl_extension f = Some [] then None else fl_extension f)\<rparr>) fs\<rparr>))"

definition update_torrent_classified ::
    "torrent_state \<Rightarrow> content_type \<Rightarrow> classified_fields \<Rightarrow> string \<Rightarrow> torrent_db \<Rightarrow> torrent_db option" where
  "update_torrent_classified st ct cf ih db =
     (case map_get (torrents db) ih of
        None \<Rightarrow> Some db
      | Some t \<Rightarrow> Some (db\<lparr>torrents := map_set ih (t\<lparr>tr_state := st, tr_content_type := ct, tr_fields := cf\<rparr>) (torrents db)\<rparr>))"

subsection \<open>Statements of the reclassification\<close>

record index_row =
  ir_infohash :: string
  ir_name :: runes
  ir_total_size :: int
  ir_state :: torrent_state
  ir_content_type :: content_type

definition count_torrents :: "torrent_db \<Rightarrow> int" where
  "count_torrents db = int (length (torrents db))"

text \<open>\<^verbatim>\<open>ORDER BY infohash ASC LIMIT .. OFFSET ..\<close>; the infohashes are hexadecimal text.\<close>

definition get_torrents_to_index :: "int \<Rightarrow> int \<Rightarrow> torrent_db \<Rightarrow> index_row list option" where
  "get_torrents_to_index off limit db =
     (if off < 0 \<or> limit < 0 then None
      else Some (map (\<lambda>(ih, t). \<lparr>ir_infohash = ih, ir_name = tr_name t, ir_total_size = tr_total_size t,
             ir_state = tr_state t, ir_content_type = tr_content_type t\<rparr>)
           (take (nat limit) (drop (nat off) (sort_key fst (torrents db))))))"

definition get_torrent_files :: "string \<Rightarrow> torrent_db \<Rightarrow> (runes \<times> int) list" where
  "get_torrent_files ih db = map (\<lambda>f. (fl_path f, fl_size f)) (filter (\<lambda>f. fl_infohash f = ih) (torrent_files db))"

end
