(* ===== verification/Search_Db.thy ===== *)
theory Search_Db
  imports Torrent_Db
begin

section \<open>Searching and editing the database (\<^verbatim>\<open>db/gen/torznab.sql.go\<close>, \<^verbatim>\<open>db/gen/api.sql.go\<close>)\<close>

text \<open>
  The statements of the service, on the torrents and the two enrichment tables that are joined with them. A
  result row is the row of a torrent with its infohash, and the enrichment row it is joined with; columns
  of the enrichment tables that the service does not read are left out. Full-text matching
  (\<^verbatim>\<open>to_tsvector @@ plainto_tsquery\<close>) is the parameter \<open>fts\<close>. SQL leaves the order of rows open that
  \<^verbatim>\<open>ORDER BY\<close> does not distinguish: \<open>arrange\<close> is the order in which the executor visits the table.
\<close>

record movie_row =
  mv_imdb_id :: "runes option"
  mv_title :: runes
  mv_year :: "int option"

record tv_row =
  te_imdb_id :: "runes option"
  te_series_name :: runes
  te_season :: "int option"
  te_episode :: "int option"
  te_episode_name :: "runes option"

record catalog =
  ct_db :: torrent_db
  ct_movies :: "(string, movie_row) gomap"
  ct_tv :: "(string, tv_row) gomap"

type_synonym torrent_entry = "string \<times> torrent_row"
type_synonym matcher = "runes \<Rightarrow> runes \<Rightarrow> bool"
type_synonym arrangement = "torrent_entry list \<Rightarrow> torrent_entry list"

subsection \<open>Clauses\<close>

definition param_ok :: "runes option \<Rightarrow> bool" where
  "param_ok q = (case q of None \<Rightarrow> True | Some s \<Rightarrow> text_ok s)"

text \<open>\<^verbatim>\<open>LIMIT\<close> and \<^verbatim>\<open>OFFSET\<close>: a negative value is an error.\<close>

definition page :: "int \<Rightarrow> int \<Rightarrow> 'a list \<Rightarrow> 'a list option" where
  "page off lim xs = (if off < 0 \<or> lim < 0 then None else Some (take (nat lim) (drop (nat off) xs)))"

definition join_rows :: "(string, 'e) gomap \<Rightarrow> torrent_entry list \<Rightarrow> (torrent_entry \<times> 'e) list" where
  "join_rows m rows = List.map_filter (\<lambda>r. map_option (\<lambda>e. (r, e)) (map_get m (fst r))) rows"

definition is_match :: "matcher \<Rightarrow> runes option \<Rightarrow> torrent_row \<Rightarrow> bool" where
  "is_match fts q t \<longleftrightarrow> tr_state t = Active \<and> (case q of None \<Rightarrow> True | Some s \<Rightarrow> fts (tr_name t) s)"

definition by_seeders :: "('r \<Rightarrow> torrent_entry) \<Rightarrow> 'r list \<Rightarrow> 'r list" where
  "by_seeders entry rows = sort_key (\<lambda>r. - tr_seeders (snd (entry r))) rows"

definition filter_ok :: "int option \<Rightarrow> int option \<Rightarrow> bool" where
  "filter_ok wanted col \<longleftrightarrow> wanted = None \<or> col = wanted"

subsection \<open>Searches\<close>

definition search_all :: "matcher \<Rightarrow> arrangement \<Rightarrow> runes option \<Rightarrow> int \<Rightarrow> int \<Rightarrow> catalog \<Rightarrow> torrent_entry list option" where
  "search_all fts arrange q off lim ct =
     (if \<not> param_ok q then None
      else page off lim (by_seeders id (filter (\<lambda>r. is_match fts q (snd r)) (arrange (torrents (ct_db ct))))))"

definition search_movies ::
    "matcher \<Rightarrow> arrangement \<Rightarrow> runes option \<Rightarrow> int \<Rightarrow> int \<Rightarrow> catalog \<Rightarrow> (torrent_entry \<times> movie_row) list option" where
  "search_movies fts arrange q off lim ct =
     (if \<not> param_ok q then None
      else page off lim (by_seeders fst
        (filter (\<lambda>(r, m). is_match fts q (snd r)) (join_rows (ct_movies ct) (arrange (torrents (ct_db ct)))))))"

definition get_movies_by_imdb :: "arrangement \<Rightarrow> runes \<Rightarrow> catalog \<Rightarrow> (torrent_entry \<times> movie_row) list option" where
  "get_movies_by_imdb arrange imdb ct =
     (if \<not> text_ok imdb then None
      else Some (by_seeders fst (filter (\<lambda>(r, m). tr_state (snd r) = Active \<and> mv_imdb_id m = Some imdb)
        (join_rows (ct_movies ct) (arrange (torrents (ct_db ct)))))))"

definition search_tv ::
    "matcher \<Rightarrow> arrangement \<Rightarrow> runes option \<Rightarrow> int option \<Rightarrow> int option \<Rightarrow> int \<Rightarrow> int \<Rightarrow> catalog \<Rightarrow>
     (torrent_entry \<times> tv_row) list option" where
  "search_tv fts arrange q season episode off lim ct =
     (if \<not> param_ok q then None
      else page off lim (by_seeders fst
        (filter (\<lambda>(r, e). is_match fts q (snd r) \<and> filter_ok season (te_season e) \<and> filter_ok episode (te_episode e))
          (join_rows (ct_tv ct) (arrange (torrents (ct_db ct)))))))"

definition get_tv_by_imdb ::
    "arrangement \<Rightarrow> runes \<Rightarrow> int option \<Rightarrow> int option \<Rightarrow> catalog \<Rightarrow> (torrent_entry \<times> tv_row) list option" where
  "get_tv_by_imdb arrange imdb season episode ct =
     (if \<not> text_ok imdb then None
      else Some (by_seeders fst
        (filter (\<lambda>(r, e). tr_state (snd r) = Active \<and> te_imdb_id e = Some imdb \<and>
            filter_ok season (te_season e) \<and> filter_ok episode (te_episode e))
          (join_rows (ct_tv ct) (arrange (torrents (ct_db ct)))))))"

subsection \<open>Statements of the API\<close>

text \<open>The labels of the enumerations; a text that is no label is an error.\<close>

fun state_label :: "torrent_state \<Rightarrow> string" where
  "state_label Pending = ''pending''"
| "state_label Classified = ''classified''"
| "state_label Enriched = ''enriched''"
| "state_label Active = ''active''"
| "state_label Dead = ''dead''"
| "state_label Rejected = ''rejected''"

fun content_label :: "content_type \<Rightarrow> string" where
  "content_label Movie = ''movie''"
| "content_label Tv = ''tv''"
| "content_label Unknown_Type = ''unknown''"
| "content_label Anime = ''anime''"

definition parse_state :: "runes \<Rightarrow> torrent_state option" where
  "parse_state s = find (\<lambda>st. asc (state_label st) = s) [Pending, Classified, Enriched, Active, Dead, Rejected]"

definition parse_content :: "runes \<Rightarrow> content_type option" where
  "parse_content s = find (\<lambda>c. asc (content_label c) = s) [Movie, Tv, Unknown_Type, Anime]"

text \<open>
  \<^verbatim>\<open>ORDER BY created_at DESC\<close>: \<^verbatim>\<open>created_at\<close> and \<^verbatim>\<open>first_seen\<close> are both the \<^verbatim>\<open>NOW()\<close> of the insertion, and no
  statement changes them.
\<close>

definition list_torrents ::
    "arrangement \<Rightarrow> runes option \<Rightarrow> runes option \<Rightarrow> int \<Rightarrow> int \<Rightarrow> catalog \<Rightarrow> torrent_entry list option" where
  "list_torrents arrange st c off lim ct =
     (if (case st of None \<Rightarrow> False | Some s \<Rightarrow> parse_state s = None) \<or> (case c of None \<Rightarrow> False | Some s \<Rightarrow> parse_content s = None)
      then None
      else page off lim (sort_key (\<lambda>r. - tr_first_seen (snd r))
        (filter (\<lambda>(ih, t). (case st of None \<Rightarrow> True | Some s \<Rightarrow> parse_state s = Some (tr_state t)) \<and>
            (case c of None \<Rightarrow> True | Some s \<Rightarrow> parse_content s = Some (tr_content_type t)))
          (arrange (torrents (ct_db ct))))))"

definition update_torrent_state :: "string \<Rightarrow> torrent_state \<Rightarrow> catalog \<Rightarrow> catalog" where
  "update_torrent_state ih st ct =
     (case map_get (torrents (ct_db ct)) ih of
        None \<Rightarrow> ct
      | Some t \<Rightarrow> ct\<lparr>ct_db := (ct_db ct)\<lparr>torrents := map_set ih (t\<lparr>tr_state := st\<rparr>) (torrents (ct_db ct))\<rparr>\<rparr>)"

text \<open>Every table that refers to a torrent does so with \<^verbatim>\<open>ON DELETE CASCADE\<close>.\<close>

definition delete_torrent :: "string \<Rightarrow> catalog \<Rightarrow> catalog" where
  "delete_torrent ih ct =
     (let db = ct_db ct in
      \<lparr>ct_db = db\<lparr>torrents := map_del ih (torrents db),
          torrent_files := filter (\<lambda>f. fl_infohash f \<noteq> ih) (torrent_files db),
          torrent_trackers := filter (\<lambda>((h, i), at). h \<noteq> ih) (torrent_trackers db),
          scrape_history := filter (\<lambda>h. hr_infohash h \<noteq> ih) (scrape_history db)\<rparr>,
       ct_movies = map_del ih (ct_movies ct), ct_tv = map_del ih (ct_tv ct)\<rparr>)"

subsection \<open>Facts about the clauses\<close>

lemma page_Some: "page off lim xs = Some ys \<longleftrightarrow> 0 \<le> off \<and> 0 \<le> lim \<and> ys = take (nat lim) (drop (nat off) xs)"
  by (auto simp: page_def)

lemma set_page: "page off lim xs = Some ys \<Longrightarrow> set ys \<subseteq> set xs"
  by (auto simp: page_Some dest: in_set_takeD in_set_dropD)

lemma set_by_seeders [simp]: "set (by_seeders entry rows) = set rows"
  by (simp add: by_seeders_def)

lemma length_by_seeders [simp]: "length (by_seeders entry rows) = length rows"
  by (simp add: by_seeders_def)

lemma by_seeders_Nil [simp]: "by_seeders entry [] = []"
  by (simp add: by_seeders_def)

lemma sorted_by_seeders: "sorted_wrt (\<lambda>r s. tr_seeders (snd (entry r)) \<ge> tr_seeders (snd (entry s))) (by_seeders entry rows)"
  using sorted_sort_key[of "\<lambda>r. - tr_seeders (snd (entry r))" rows] by (simp add: by_seeders_def sorted_map)

lemma set_join_rows: "(r, e) \<in> set (join_rows m rows) \<longleftrightarrow> r \<in> set rows \<and> map_get m (fst r) = Some e"
  by (induction rows) (auto simp: join_rows_def List.map_filter_simps split: option.splits)

lemma join_rows_Nil [simp]: "join_rows [] rows = []"
  by (induction rows) (simp_all add: join_rows_def List.map_filter_simps)

lemma parse_state_label [simp]: "parse_state (asc (state_label st)) = Some st"
  by (cases st) (simp_all add: parse_state_def)

lemma parse_content_label [simp]: "parse_content (asc (content_label c)) = Some c"
  by (cases c) (simp_all add: parse_content_def)

lemma parse_state_Some: "parse_state s = Some st \<Longrightarrow> s = asc (state_label st)"
  by (auto simp: parse_state_def simp del: asc_Cons split: if_splits)

end
