(* ===== verification/Go_Url.thy ===== *)
theory Go_Url
  imports Go_Text
begin

section \<open>Numbers and URLs as text\<close>

text \<open>
  The parts of \<^verbatim>\<open>strconv\<close>, \<^verbatim>\<open>strings\<close> and \<^verbatim>\<open>net/url\<close> that the service uses on request parameters and
  links, with their round trips.
\<close>

subsection \<open>Numbers\<close>

text \<open>\<^verbatim>\<open>strconv.Itoa\<close> and \<^verbatim>\<open>strconv.FormatInt\<close> with base 10.\<close>

fun nat_digits :: "nat \<Rightarrow> runes" where
  "nat_digits n = (if n < 10 then [48 + int n] else nat_digits (n div 10) @ [48 + int (n mod 10)])"

declare nat_digits.simps [simp del]

definition itoa :: "int \<Rightarrow> runes" where
  "itoa n = (if n < 0 then 45 # nat_digits (nat (- n)) else nat_digits (nat n))"

text \<open>\<^verbatim>\<open>strconv.Atoi\<close>: nothing stands for its two errors.\<close>

definition atoi_ok :: "runes \<Rightarrow> int option" where
  "atoi_ok s =
     (let neg = (case s of c # _ \<Rightarrow> c = 45 | [] \<Rightarrow> False);
          ds = (case s of c # cs \<Rightarrow> if c = 43 \<or> c = 45 then cs else s | [] \<Rightarrow> s);
          v = (if neg then - digits_val ds else digits_val ds)
      in if ds = [] \<or> \<not> list_all is_digit ds then None
         else if v < - (2 ^ 63) \<or> 2 ^ 63 \<le> v then None
         else Some v)"

lemma nat_digits_digits: "list_all is_digit (nat_digits n) \<and> nat_digits n \<noteq> []"
proof (induction n rule: nat_digits.induct)
  case (1 n)
  have "n mod 10 < 10" by simp
  then have "is_digit (48 + int (n mod 10))" unfolding is_digit_def by linarith
  with 1 show ?case by (simp add: nat_digits.simps[of n] is_digit_def)
qed

lemma digits_val_nat_digits [simp]: "digits_val (nat_digits n) = int n"
proof (induction n rule: nat_digits.induct)
  case (1 n)
  show ?case
  proof (cases "n < 10")
    case True
    then show ?thesis by (simp add: nat_digits.simps digits_val_def)
  next
    case False
    then have "digits_val (nat_digits n) = 10 * int (n div 10) + int (n mod 10)"
      using 1 by (simp add: nat_digits.simps[of n] digits_val_snoc)
    also have "\<dots> = int (10 * (n div 10) + n mod 10)" by (simp only: of_nat_add of_nat_mult of_nat_numeral)
    finally show ?thesis by simp
  qed
qed

lemma nat_digits_head: "\<exists>c cs. nat_digits n = c # cs \<and> is_digit c \<and> list_all is_digit cs"
  using nat_digits_digits[of n] by (cases "nat_digits n") auto

lemma atoi_itoa: "- (2 ^ 63) \<le> n \<Longrightarrow> n < 2 ^ 63 \<Longrightarrow> atoi_ok (itoa n) = Some n"
proof -
  assume b: "- (2 ^ 63) \<le> n" "n < 2 ^ 63"
  show ?thesis
  proof (cases "n < 0")
    case True
    then show ?thesis using b nat_digits_digits[of "nat (- n)"] by (simp add: atoi_ok_def itoa_def Let_def)
  next
    case False
    obtain c cs where "nat_digits (nat n) = c # cs" "is_digit c" "list_all is_digit cs" using nat_digits_head by blast
    moreover from this have "digits_val (c # cs) = n" using digits_val_nat_digits[of "nat n"] False by simp
    ultimately show ?thesis using b False by (auto simp: atoi_ok_def itoa_def Let_def is_digit_def)
  qed
qed

lemma itoa_not_empty: "itoa n \<noteq> []"
  using nat_digits_digits by (simp add: itoa_def)

subsection \<open>Splitting\<close>

text \<open>\<^verbatim>\<open>strings.Split\<close> and \<^verbatim>\<open>strings.Cut\<close> at one character.\<close>

fun split_on :: "rune \<Rightarrow> runes \<Rightarrow> runes list" where
  "split_on c [] = [[]]"
| "split_on c (r # rs) = (if r = c then [] # split_on c rs else case split_on c rs of w # ws \<Rightarrow> (r # w) # ws | [] \<Rightarrow> [[r]])"

definition cut_first :: "rune \<Rightarrow> runes \<Rightarrow> runes \<times> runes" where
  "cut_first c s = (takeWhile (\<lambda>r. r \<noteq> c) s, drop 1 (dropWhile (\<lambda>r. r \<noteq> c) s))"

lemma split_on_absent: "c \<notin> set s \<Longrightarrow> split_on c s = [s]"
  by (induction s) auto

lemma split_on_append: "c \<notin> set s \<Longrightarrow> split_on c (s @ c # rest) = s # split_on c rest"
  by (induction s) auto

lemma cut_first_append: "c \<notin> set s \<Longrightarrow> cut_first c (s @ c # rest) = (s, rest)"
  by (induction s) (auto simp: cut_first_def)

subsection \<open>UTF-8 encoding\<close>

definition is_scalar :: "rune \<Rightarrow> bool" where
  "is_scalar r \<longleftrightarrow> 0 \<le> r \<and> r < 0xD800 \<or> 0xE000 \<le> r \<and> r < 0x110000"

definition encode_rune :: "rune \<Rightarrow> int list" where
  "encode_rune r =
     (if r < 0x80 then [r]
      else if r < 0x800 then [0xC0 + r div 64, 0x80 + r mod 64]
      else if r < 0x10000 then [0xE0 + r div 4096, 0x80 + r div 64 mod 64, 0x80 + r mod 64]
      else [0xF0 + r div 262144, 0x80 + r div 4096 mod 64, 0x80 + r div 64 mod 64, 0x80 + r mod 64])"

definition utf8 :: "runes \<Rightarrow> int list" where
  "utf8 s = concat (map encode_rune s)"

lemma utf8_simps [simp]: "utf8 [] = []" "utf8 (r # s) = encode_rune r @ utf8 s"
  by (simp_all add: utf8_def)

lemma div_64_64: "r div 4096 = r div 64 div (64 :: int)" "r div 262144 = r div 64 div 64 div (64 :: int)"
proof -
  have "r div (64 * 64) = r div 64 div (64 :: int)" by (rule zdiv_zmult2_eq) simp
  moreover have "r div (64 * 64 * 64) = r div (64 * 64) div (64 :: int)" by (rule zdiv_zmult2_eq) simp
  ultimately show "r div 4096 = r div 64 div (64 :: int)" "r div 262144 = r div 64 div 64 div (64 :: int)" by simp_all
qed

lemma decode_wide:
  "0xC2 \<le> b0 \<Longrightarrow> b0 \<le> 0xDF \<Longrightarrow> is_cont b1 \<Longrightarrow> decode_rune (b0 # b1 # rest) = Some ((b0 - 0xC0) * 64 + (b1 - 0x80), 2)"
  "0xE0 \<le> b0 \<Longrightarrow> b0 \<le> 0xEF \<Longrightarrow> is_cont b1 \<Longrightarrow> is_cont b2 \<Longrightarrow> (b0 = 0xE0 \<longrightarrow> 0xA0 \<le> b1) \<Longrightarrow> (b0 = 0xED \<longrightarrow> b1 \<le> 0x9F) \<Longrightarrow>
    decode_rune (b0 # b1 # b2 # rest) = Some ((b0 - 0xE0) * 4096 + (b1 - 0x80) * 64 + (b2 - 0x80), 3)"
  "0xF0 \<le> b0 \<Longrightarrow> b0 \<le> 0xF4 \<Longrightarrow> is_cont b1 \<Longrightarrow> is_cont b2 \<Longrightarrow> is_cont b3 \<Longrightarrow> (b0 = 0xF0 \<longrightarrow> 0x90 \<le> b1) \<Longrightarrow> (b0 = 0xF4 \<longrightarrow> b1 \<le> 0x8F) \<Longrightarrow>
    decode_rune (b0 # b1 # b2 # b3 # rest) =
      Some ((b0 - 0xF0) * 262144 + (b1 - 0x80) * 4096 + (b2 - 0x80) * 64 + (b3 - 0x80), 4)"
  by (auto simp: is_cont_def)

lemma decode_encode:
  assumes "is_scalar r"
  shows "decode_rune (encode_rune r @ rest) = Some (r, length (encode_rune r))"
proof -
  define a where "a = r div 64"
  define b where "b = a div 64"
  define c where "c = b div 64"
  have r: "r = 64 * a + r mod 64" and a: "a = 64 * b + a mod 64" and b: "b = 64 * c + b mod 64"
    unfolding a_def b_def c_def by simp_all
  have m: "0 \<le> r mod 64" "r mod 64 < 64" "0 \<le> a mod 64" "a mod 64 < 64" "0 \<le> b mod 64" "b mod 64 < 64" by simp_all
  have d: "r div 64 = a" "r div 4096 = b" "r div 262144 = c" unfolding a_def b_def c_def div_64_64 by simp_all
  consider "r < 0x80" | "0x80 \<le> r" "r < 0x800" | "0x800 \<le> r" "r < 0x10000" | "0x10000 \<le> r" by linarith
  then show ?thesis
  proof cases
    case 1
    then show ?thesis by (simp add: encode_rune_def)
  next
    case 2
    then have "2 \<le> a" "a < 32" using r m by linarith+
    then show ?thesis using 2 r m by (simp add: encode_rune_def d is_cont_def decode_wide del: decode_rune.simps)
  next
    case 3
    then have "0 \<le> b" "b < 16" "b = 0 \<longrightarrow> 32 \<le> a mod 64" "b = 13 \<longrightarrow> a mod 64 < 32"
      using r a m assms unfolding is_scalar_def by linarith+
    then have "decode_rune ((0xE0 + b) # (0x80 + a mod 64) # (0x80 + r mod 64) # rest) = Some (b * 4096 + a mod 64 * 64 + r mod 64, 3)"
      using m by (subst decode_wide(2)) (auto simp: is_cont_def)
    moreover have "b * 4096 + a mod 64 * 64 + r mod 64 = r" using r a by linarith
    ultimately show ?thesis using 3 by (simp add: encode_rune_def d(1,2) del: decode_rune.simps)
  next
    case 4
    then have "0 \<le> c" "c < 5" "c = 0 \<longrightarrow> 16 \<le> b mod 64" "c = 4 \<longrightarrow> b mod 64 < 16"
      using r a b m assms unfolding is_scalar_def by linarith+
    then have "decode_rune ((0xF0 + c) # (0x80 + b mod 64) # (0x80 + a mod 64) # (0x80 + r mod 64) # rest) =
        Some (c * 262144 + b mod 64 * 4096 + a mod 64 * 64 + r mod 64, 4)"
      using m by (subst decode_wide(3)) (auto simp: is_cont_def)
    moreover have "c * 262144 + b mod 64 * 4096 + a mod 64 * 64 + r mod 64 = r" using r a b by linarith
    ultimately show ?thesis using 4 by (simp add: encode_rune_def d del: decode_rune.simps)
  qed
qed

lemma length_encode: "0 < length (encode_rune r)"
  by (simp add: encode_rune_def)

lemma valid_runes_utf8: "list_all is_scalar s \<Longrightarrow> valid_runes (utf8 s) = s"
proof (induction s)
  case (Cons r s)
  obtain b bs where enc: "encode_rune r = b # bs" using length_encode[of r] by (cases "encode_rune r") auto
  have "decode_rune (b # bs @ utf8 s) = Some (r, Suc (length bs))"
    using decode_encode[of r "utf8 s"] Cons.prems enc by simp
  then have "valid_runes (b # bs @ utf8 s) = r # valid_runes (utf8 s)" by (subst valid_runes.simps) simp
  then show ?case using Cons enc by simp
qed simp

lemma encode_byte: "is_scalar r \<Longrightarrow> \<forall>b \<in> set (encode_rune r). 0 \<le> b \<and> b < 256"
proof -
  assume s: "is_scalar r"
  have m: "0 \<le> r mod 64" "r mod 64 < 64" "0 \<le> r div 64 mod 64" "r div 64 mod 64 < 64" "0 \<le> r div 4096 mod 64" "r div 4096 mod 64 < 64"
    by simp_all
  have d: "r < 0x800 \<Longrightarrow> r div 64 < 32" "r < 0x10000 \<Longrightarrow> r div 4096 < 16" "r < 0x110000 \<Longrightarrow> r div 262144 < 5"
    by linarith+
  have p: "0 \<le> r \<Longrightarrow> 0 \<le> r div 64 \<and> 0 \<le> r div 4096 \<and> 0 \<le> r div 262144" by (simp add: pos_imp_zdiv_nonneg_iff)
  have "0 \<le> r" "r < 0x110000" using s by (auto simp: is_scalar_def)
  with m d p show ?thesis by (auto simp: encode_rune_def)
qed

subsection \<open>Query strings\<close>

text \<open>\<^verbatim>\<open>url.QueryEscape\<close>\<close>

definition hex_digit :: "int \<Rightarrow> rune" where
  "hex_digit n = (if n < 10 then 48 + n else 55 + n)"

definition unreserved :: "int \<Rightarrow> bool" where
  "unreserved b \<longleftrightarrow> 48 \<le> b \<and> b \<le> 57 \<or> 65 \<le> b \<and> b \<le> 90 \<or> 97 \<le> b \<and> b \<le> 122 \<or> b \<in> {45, 95, 46, 126}"

definition escape_byte :: "int \<Rightarrow> runes" where
  "escape_byte b =
     (if unreserved b then [b] else if b = 32 then [43] else [37, hex_digit (b div 16), hex_digit (b mod 16)])"

definition query_escape :: "runes \<Rightarrow> runes" where
  "query_escape s = concat (map escape_byte (utf8 s))"

text \<open>\<^verbatim>\<open>url.QueryUnescape\<close> to bytes (a string that is no UTF-8 loses the offending bytes here), and \<^verbatim>\<open>url.ParseQuery\<close> with its pairs in order.\<close>

definition unhex :: "rune \<Rightarrow> int option" where
  "unhex r = (if 48 \<le> r \<and> r \<le> 57 then Some (r - 48) else if 65 \<le> r \<and> r \<le> 70 then Some (r - 55)
     else if 97 \<le> r \<and> r \<le> 102 then Some (r - 87) else None)"

fun unescape :: "runes \<Rightarrow> int list option" where
  "unescape [] = Some []"
| "unescape (r # rs) =
     (if r = 37 then
        (case rs of
           h # l # rs' \<Rightarrow> (case (unhex h, unhex l) of
               (Some a, Some b) \<Rightarrow> map_option ((#) (16 * a + b)) (unescape rs')
             | _ \<Rightarrow> None)
         | _ \<Rightarrow> None)
      else map_option ((#) (if r = 43 then 32 else r)) (unescape rs))"

definition query_unescape :: "runes \<Rightarrow> runes option" where
  "query_unescape s = map_option valid_runes (unescape s)"

definition parse_query :: "runes \<Rightarrow> (runes \<times> runes) list" where
  "parse_query s = List.map_filter (\<lambda>p. case cut_first 61 p of
       (k, v) \<Rightarrow> (case (query_unescape k, query_unescape v) of (Some k', Some v') \<Rightarrow> Some (k', v') | _ \<Rightarrow> None))
     (filter (\<lambda>p. p \<noteq> [] \<and> 59 \<notin> set p) (split_on 38 s))"

lemma unhex_hex_digit: "0 \<le> n \<Longrightarrow> n < 16 \<Longrightarrow> unhex (hex_digit n) = Some n"
  by (auto simp: unhex_def hex_digit_def)

lemma unescape_escape_byte:
  "0 \<le> b \<Longrightarrow> b < 256 \<Longrightarrow> unescape (escape_byte b @ rest) = map_option ((#) b) (unescape rest)"
  by (auto simp: escape_byte_def unreserved_def unhex_hex_digit pos_imp_zdiv_nonneg_iff option.map_comp
      intro: zdiv_mono1 split: option.split)

lemma unescape_escape: "\<forall>b \<in> set bs. 0 \<le> b \<and> b < 256 \<Longrightarrow> unescape (concat (map escape_byte bs)) = Some bs"
  by (induction bs) (simp_all add: unescape_escape_byte)

lemma utf8_bytes: "list_all is_scalar s \<Longrightarrow> \<forall>b \<in> set (utf8 s). 0 \<le> b \<and> b < 256"
  using encode_byte by (induction s) auto

lemma query_unescape_escape: "list_all is_scalar s \<Longrightarrow> query_unescape (query_escape s) = Some s"
  using unescape_escape[OF utf8_bytes] by (simp add: query_unescape_def query_escape_def valid_runes_utf8)

lemma escape_byte_runes: "0 \<le> b \<Longrightarrow> b < 256 \<Longrightarrow> r \<in> set (escape_byte b) \<Longrightarrow> unreserved r \<or> r = 43 \<or> r = 37"
proof -
  assume b: "0 \<le> b" "b < 256" and r: "r \<in> set (escape_byte b)"
  have h: "0 \<le> n \<Longrightarrow> n < 16 \<Longrightarrow> unreserved (hex_digit n)" for n by (simp add: hex_digit_def unreserved_def)
  have "0 \<le> b div 16" "b div 16 < 16" "0 \<le> b mod 16" "b mod 16 < 16" using b by linarith+
  with h r show ?thesis by (auto simp: escape_byte_def split: if_splits)
qed

lemma query_escape_runes: "list_all is_scalar s \<Longrightarrow> r \<in> set (query_escape s) \<Longrightarrow> unreserved r \<or> r = 43 \<or> r = 37"
  using escape_byte_runes utf8_bytes by (fastforce simp: query_escape_def)

lemma query_escape_plain:
  "list_all is_scalar s \<Longrightarrow> 38 \<notin> set (query_escape s) \<and> 59 \<notin> set (query_escape s) \<and> 61 \<notin> set (query_escape s)"
  using query_escape_runes by (fastforce simp: unreserved_def)

lemma unescape_plain: "\<forall>r \<in> set s. r \<noteq> 37 \<and> r \<noteq> 43 \<Longrightarrow> unescape s = Some s"
  by (induction s) auto

end
