(* ===== verification/Torznab.thy ===== *)
theory Torznab
  imports Search_Db Go_Url
begin

section \<open>The Torznab service (\<^verbatim>\<open>service\<close>)\<close>

text \<open>
  Searches of the database and the feed they give. The feed is the value that is handed to \<^verbatim>\<open>encoding/xml\<close>;
  \<open>se_format\<close> is the rendering of an instant in the format RFC 1123. \<open>se_up\<close> tells whether the database
  answers.
\<close>

subsection \<open>Categories and values (\<^verbatim>\<open>service/types.go\<close>, \<^verbatim>\<open>service/service.go\<close>)\<close>

abbreviation cat_movies :: int where "cat_movies \<equiv> 2000"
abbreviation cat_movies_foreign :: int where "cat_movies_foreign \<equiv> 2010"
abbreviation cat_movies_other :: int where "cat_movies_other \<equiv> 2020"
abbreviation cat_movies_sd :: int where "cat_movies_sd \<equiv> 2030"
abbreviation cat_movies_hd :: int where "cat_movies_hd \<equiv> 2040"
abbreviation cat_movies_uhd :: int where "cat_movies_uhd \<equiv> 2045"
abbreviation cat_movies_bluray :: int where "cat_movies_bluray \<equiv> 2050"
abbreviation cat_movies_3d :: int where "cat_movies_3d \<equiv> 2060"
abbreviation cat_tv :: int where "cat_tv \<equiv> 5000"
abbreviation cat_tv_sd :: int where "cat_tv_sd \<equiv> 5030"
abbreviation cat_tv_hd :: int where "cat_tv_hd \<equiv> 5040"
abbreviation cat_tv_uhd :: int where "cat_tv_uhd \<equiv> 5045"
abbreviation cat_tv_anime :: int where "cat_tv_anime \<equiv> 5070"
abbreviation cat_tv_documentary :: int where "cat_tv_documentary \<equiv> 5080"

definition magnet_url :: "string \<Rightarrow> runes \<Rightarrow> runes" where
  "magnet_url infohash name = asc ''magnet:?xt=urn:btih:'' @ asc infohash @ asc ''&dn='' @ query_escape name"

definition text_val :: "runes option \<Rightarrow> runes" where
  "text_val t = (case t of Some s \<Rightarrow> s | None \<Rightarrow> [])"

definition int4_val :: "int option \<Rightarrow> int" where
  "int4_val t = (case t of Some n \<Rightarrow> n | None \<Rightarrow> 0)"

definition infer_movie_categories :: "runes \<Rightarrow> int list" where
  "infer_movie_categories quality =
     (if quality = asc ''2160p'' \<or> quality = asc ''4K'' then [cat_movies, cat_movies_uhd]
      else if quality = asc ''1080p'' then [cat_movies, cat_movies_hd]
      else if quality = asc ''720p'' then [cat_movies, cat_movies_sd]
      else [cat_movies])"

definition infer_tv_categories :: "runes \<Rightarrow> int list" where
  "infer_tv_categories quality =
     (if quality = asc ''2160p'' \<or> quality = asc ''4K'' then [cat_tv, cat_tv_uhd]
      else if quality = asc ''1080p'' then [cat_tv, cat_tv_hd]
      else if quality = asc ''720p'' then [cat_tv, cat_tv_sd]
      else [cat_tv])"

definition infer_anime_categories :: "int list" where
  "infer_anime_categories = [cat_tv_anime]"

definition infer_categories :: "string \<Rightarrow> runes \<Rightarrow> int list" where
  "infer_categories ct quality =
     (if ct = ''movie'' then infer_movie_categories quality
      else if ct = ''tv'' then infer_tv_categories quality
      else if ct = ''anime'' then infer_anime_categories
      else [cat_movies, cat_tv])"

subsection \<open>Requests and items\<close>

record search_request =
  rq_query :: runes
  rq_cats :: "int list"
  rq_limit :: int
  rq_offset :: int

record movie_request = search_request +
  rq_imdb_id :: runes

record tv_request = movie_request +
  rq_season :: "int option"
  rq_episode :: "int option"

text \<open>The zero time of \<^verbatim>\<open>PublishedAt\<close> is \<open>None\<close>; the column it comes from is never null.\<close>

record torrent_item =
  ti_title :: runes
  ti_infohash :: string
  ti_magnet_url :: runes
  ti_size :: int
  ti_published_at :: "instant option"
  ti_seeders :: int
  ti_leechers :: int
  ti_categories :: "int list"
  ti_quality :: runes
  ti_encoding :: runes
  ti_dynamic_range :: runes
  ti_source :: runes
  ti_release_group :: runes
  ti_imdb_id :: runes
  ti_movie_title :: runes
  ti_year :: int
  ti_series_name :: runes
  ti_season :: int
  ti_episode :: int
  ti_episode_name :: runes

subsection \<open>The feed (\<^verbatim>\<open>service/xml.go\<close>)\<close>

type_synonym torznab_attribute = "string \<times> runes"

record xml_item =
  xi_title :: runes
  xi_permalink :: string
  xi_guid :: string
  xi_link :: runes
  xi_enclosure_url :: runes
  xi_enclosure_length :: int
  xi_enclosure_type :: string
  xi_size :: int
  xi_pub_date :: runes
  xi_attrs :: "torznab_attribute list"

record xml_rss =
  xr_version :: string
  xr_namespace :: string
  xr_title :: string
  xr_description :: string
  xr_items :: "xml_item list"

definition torznab_attr :: "string \<Rightarrow> runes \<Rightarrow> torznab_attribute" where
  "torznab_attr name v = (name, v)"

definition text_attr :: "string \<Rightarrow> runes \<Rightarrow> torznab_attribute list" where
  "text_attr name v = (if v \<noteq> [] then [torznab_attr name v] else [])"

definition number_attr :: "string \<Rightarrow> int \<Rightarrow> torznab_attribute list" where
  "number_attr name n = (if n > 0 then [torznab_attr name (itoa n)] else [])"

definition new_xml_item :: "(instant \<Rightarrow> runes) \<Rightarrow> torrent_item \<Rightarrow> xml_item" where
  "new_xml_item fmt t =
     \<lparr>xi_title = ti_title t, xi_permalink = ''false'', xi_guid = ti_infohash t, xi_link = ti_magnet_url t,
      xi_enclosure_url = ti_magnet_url t, xi_enclosure_length = ti_size t,
      xi_enclosure_type = ''application/x-bittorrent;x-scheme-handler/magnet'',
      xi_size = ti_size t,
      xi_pub_date = (case ti_published_at t of None \<Rightarrow> [] | Some at \<Rightarrow> fmt at),
      xi_attrs =
        [torznab_attr ''seeders'' (itoa (ti_seeders t)), torznab_attr ''leechers'' (itoa (ti_leechers t)),
         torznab_attr ''infohash'' (asc (ti_infohash t))] @
        map (\<lambda>c. torznab_attr ''category'' (itoa c)) (ti_categories t) @
        text_attr ''imdbid'' (ti_imdb_id t) @
        text_attr ''resolution'' (ti_quality t) @
        text_attr ''encoding'' (ti_encoding t) @
        text_attr ''dynamicrange'' (ti_dynamic_range t) @
        text_attr ''source'' (ti_source t) @
        text_attr ''releasegroup'' (ti_release_group t) @
        text_attr ''series'' (ti_series_name t) @
        number_attr ''season'' (ti_season t) @
        number_attr ''episode'' (ti_episode t) @
        text_attr ''title'' (ti_movie_title t) @
        number_attr ''year'' (ti_year t)\<rparr>"

definition new_xml_rss :: "(instant \<Rightarrow> runes) \<Rightarrow> torrent_item list \<Rightarrow> xml_rss" where
  "new_xml_rss fmt items =
     \<lparr>xr_version = ''2.0'', xr_namespace = ''http://torznab.com/schemas/2015/feed'', xr_title = ''mgnx'',
      xr_description = ''mgnx Torznab indexer'', xr_items = map (new_xml_item fmt) items\<rparr>"

subsection \<open>Searches (\<^verbatim>\<open>service/search.go\<close>)\<close>

text \<open>
  Methods and paths of requests. \<open>Torrent_Path s\<close> is \<^verbatim>\<open>/api/torrents/\<close> with a plain segment \<open>s\<close>. With any other
  text after the slash (nothing, a slash, a question mark, a percent sign, dots) the URL parser, the router and the
  redirects of the libraries decide what arrives: the request is for a \<open>Raw_Path\<close>, and \<open>se_route\<close> tells which path
  the request ends at and whether the client was redirected, which makes its request a GET.
\<close>

datatype http_method = Method_Get | Method_Patch | Method_Delete | Other_Method

datatype request_path = Torznab_Path | Torrents_Path | Torrent_Path string | Raw_Path string | Other_Path

record search_env =
  se_fts :: matcher
  se_arrange :: arrangement
  se_up :: bool
  se_format :: "instant \<Rightarrow> runes"
  se_route :: "http_method \<Rightarrow> string \<Rightarrow> bool \<times> request_path"

text \<open>A text parameter is null when it is empty.\<close>

definition query_param :: "runes \<Rightarrow> runes option" where
  "query_param s = (if s \<noteq> [] then Some s else None)"

definition page_limit :: "int \<Rightarrow> int" where
  "page_limit n = (if n \<le> 0 then 100 else n)"

text \<open>The part of an item that every search fills in the same way.\<close>

definition torrent_item_of :: "torrent_entry \<Rightarrow> int list \<Rightarrow> torrent_item" where
  "torrent_item_of r cats =
     (let t = snd r; cf = tr_fields t in
      \<lparr>ti_title = tr_name t, ti_infohash = fst r, ti_magnet_url = magnet_url (fst r) (tr_name t), ti_size = tr_total_size t,
       ti_published_at = Some (tr_first_seen t), ti_seeders = tr_seeders t, ti_leechers = tr_leechers t,
       ti_categories = cats, ti_quality = text_val (cf_quality cf), ti_encoding = text_val (cf_encoding cf),
       ti_dynamic_range = text_val (cf_dynamic_range cf), ti_source = text_val (cf_source cf),
       ti_release_group = text_val (cf_release_group cf), ti_imdb_id = [], ti_movie_title = [], ti_year = 0,
       ti_series_name = [], ti_season = 0, ti_episode = 0, ti_episode_name = []\<rparr>)"

definition search_item :: "torrent_entry \<Rightarrow> torrent_item" where
  "search_item r = torrent_item_of r (infer_categories (content_label (tr_content_type (snd r))) (text_val (cf_quality (tr_fields (snd r)))))"

definition movie_item :: "torrent_entry \<times> movie_row \<Rightarrow> torrent_item" where
  "movie_item row = (case row of (r, m) \<Rightarrow>
     (torrent_item_of r (infer_movie_categories (text_val (cf_quality (tr_fields (snd r))))))
       \<lparr>ti_imdb_id := text_val (mv_imdb_id m), ti_movie_title := mv_title m, ti_year := int4_val (mv_year m)\<rparr>)"

definition tv_item :: "torrent_entry \<times> tv_row \<Rightarrow> torrent_item" where
  "tv_item row = (case row of (r, e) \<Rightarrow>
     (torrent_item_of r (infer_tv_categories (text_val (cf_quality (tr_fields (snd r))))))
       \<lparr>ti_imdb_id := text_val (te_imdb_id e), ti_series_name := te_series_name e, ti_season := int4_val (te_season e),
        ti_episode := int4_val (te_episode e), ti_episode_name := text_val (te_episode_name e)\<rparr>)"

definition feed_of :: "search_env \<Rightarrow> ('r \<Rightarrow> torrent_item) \<Rightarrow> 'r list option \<Rightarrow> xml_rss option" where
  "feed_of env item rows = (if se_up env then map_option (\<lambda>rs. new_xml_rss (se_format env) (map item rs)) rows else None)"

definition search :: "search_env \<Rightarrow> search_request \<Rightarrow> catalog \<Rightarrow> xml_rss option" where
  "search env req ct =
     feed_of env search_item
       (search_all (se_fts env) (se_arrange env) (query_param (rq_query req)) (int32 (rq_offset req))
          (int32 (page_limit (rq_limit req))) ct)"

definition search_movie_feed :: "search_env \<Rightarrow> movie_request \<Rightarrow> catalog \<Rightarrow> xml_rss option" where
  "search_movie_feed env req ct =
     (if rq_imdb_id req \<noteq> [] then feed_of env movie_item (get_movies_by_imdb (se_arrange env) (rq_imdb_id req) ct)
      else feed_of env movie_item
        (search_movies (se_fts env) (se_arrange env) (query_param (rq_query req)) (int32 (rq_offset req))
           (int32 (page_limit (rq_limit req))) ct))"

definition search_tv_feed :: "search_env \<Rightarrow> tv_request \<Rightarrow> catalog \<Rightarrow> xml_rss option" where
  "search_tv_feed env req ct =
     (if rq_imdb_id req \<noteq> [] then
        feed_of env tv_item (get_tv_by_imdb (se_arrange env) (rq_imdb_id req) (rq_season req) (rq_episode req) ct)
      else feed_of env tv_item
        (search_tv (se_fts env) (se_arrange env) (query_param (rq_query req)) (rq_season req) (rq_episode req)
           (int32 (rq_offset req)) (int32 (page_limit (rq_limit req))) ct))"

subsection \<open>Capabilities (\<^verbatim>\<open>service/caps.go\<close>, \<^verbatim>\<open>service/xml.go\<close>)\<close>

record search_mode =
  sm_available :: bool
  sm_params :: "string list"

record category =
  cy_id :: int
  cy_name :: string
  cy_subs :: "(int \<times> string) list"

record caps_response =
  cr_max_limit :: int
  cr_default_limit :: int
  cr_modes :: "(string, search_mode) gomap"
  cr_categories :: "category list"

record xml_search_mode =
  xm_available :: string
  xm_params :: string

record xml_searching =
  xs_search :: xml_search_mode
  xs_movie :: xml_search_mode
  xs_tv :: xml_search_mode
  xs_audio :: xml_search_mode
  xs_book :: xml_search_mode

record xml_caps =
  xc_server :: string
  xc_max :: int
  xc_default :: int
  xc_searching :: xml_searching
  xc_categories :: "category list"

definition caps :: caps_response where
  "caps =
     \<lparr>cr_max_limit = 100, cr_default_limit = 50,
      cr_modes =
        [(''search'', \<lparr>sm_available = True, sm_params = [''q'']\<rparr>),
         (''movie-search'', \<lparr>sm_available = True, sm_params = [''q'', ''imdbid'']\<rparr>),
         (''tv-search'', \<lparr>sm_available = True, sm_params = [''q'', ''season'', ''ep'', ''imdbid'']\<rparr>)],
      cr_categories =
        [\<lparr>cy_id = cat_movies, cy_name = ''Movies'',
          cy_subs = [(cat_movies_sd, ''SD''), (cat_movies_hd, ''HD''), (cat_movies_uhd, ''UHD''), (cat_movies_bluray, ''BluRay''),
            (cat_movies_foreign, ''Foreign''), (cat_movies_other, ''Other''), (cat_movies_3d, ''3D'')]\<rparr>,
         \<lparr>cy_id = cat_tv, cy_name = ''TV'',
          cy_subs = [(cat_tv_sd, ''SD''), (cat_tv_hd, ''HD''), (cat_tv_uhd, ''UHD''), (cat_tv_anime, ''Anime''),
            (cat_tv_documentary, ''Documentary'')]\<rparr>]\<rparr>"

fun join_params :: "string list \<Rightarrow> string" where
  "join_params [] = []"
| "join_params [p] = p"
| "join_params (p # q # ps) = p @ '','' @ join_params (q # ps)"

definition new_xml_caps :: "caps_response \<Rightarrow> xml_caps" where
  "new_xml_caps c =
     (let none = \<lparr>xm_available = [], xm_params = []\<rparr>; no = \<lparr>xm_available = ''no'', xm_params = []\<rparr>;
          searching = fold (\<lambda>(mode, sm) xs.
            (let m = \<lparr>xm_available = (if sm_available sm then ''yes'' else ''no''), xm_params = join_params (sm_params sm)\<rparr> in
             if mode = ''search'' then xs\<lparr>xs_search := m\<rparr>
             else if mode = ''movie-search'' then xs\<lparr>xs_movie := m\<rparr>
             else if mode = ''tv-search'' then xs\<lparr>xs_tv := m\<rparr>
             else xs)) (cr_modes c)
            \<lparr>xs_search = none, xs_movie = none, xs_tv = none, xs_audio = no, xs_book = no\<rparr>
      in \<lparr>xc_server = ''mgnx'', xc_max = cr_max_limit c, xc_default = cr_default_limit c, xc_searching = searching,
          xc_categories = map (\<lambda>y. \<lparr>cy_id = cy_id y, cy_name = cy_name y, cy_subs = map (\<lambda>(i, n). (i, n)) (cy_subs y)\<rparr>)
            (cr_categories c)\<rparr>)"

definition service_caps :: xml_caps where
  "service_caps = new_xml_caps caps"

subsection \<open>Torrents (\<^verbatim>\<open>service/torrents.go\<close>)\<close>

datatype service_error = Not_Found | Invalid_State | Db_Failure

record list_request =
  lq_limit :: int
  lq_offset :: int
  lq_state :: runes
  lq_content_type :: runes

definition list_rows :: "search_env \<Rightarrow> list_request \<Rightarrow> catalog \<Rightarrow> service_error + torrent_entry list" where
  "list_rows env req ct =
     (case (if se_up env
            then list_torrents (se_arrange env) (query_param (lq_state req)) (query_param (lq_content_type req))
              (int32 (lq_offset req)) (int32 (lq_limit req)) ct
            else None) of
        None \<Rightarrow> Inl Db_Failure
      | Some rows \<Rightarrow> Inr rows)"

definition get_torrent :: "search_env \<Rightarrow> string \<Rightarrow> catalog \<Rightarrow> service_error + torrent_row" where
  "get_torrent env infohash ct =
     (if \<not> se_up env then Inl Db_Failure
      else case get_torrent_by_infohash infohash (ct_db ct) of None \<Rightarrow> Inl Not_Found | Some t \<Rightarrow> Inr t)"

definition set_torrent_state :: "search_env \<Rightarrow> string \<Rightarrow> runes \<Rightarrow> catalog \<Rightarrow> service_error + catalog" where
  "set_torrent_state env infohash st ct =
     (case parse_state st of
        None \<Rightarrow> Inl Invalid_State
      | Some s \<Rightarrow> if \<not> se_up env then Inl Db_Failure else Inr (update_torrent_state infohash s ct))"

definition remove_torrent :: "search_env \<Rightarrow> string \<Rightarrow> catalog \<Rightarrow> service_error + catalog" where
  "remove_torrent env infohash ct = (if \<not> se_up env then Inl Db_Failure else Inr (delete_torrent infohash ct))"

end
