(* ===== verification/Api.thy ===== *)
theory Api
  imports Torznab
begin

section \<open>The HTTP interface and its client (\<^verbatim>\<open>api\<close>, \<^verbatim>\<open>pkg/torznab\<close>)\<close>

text \<open>
  The handlers behind the routes of \<^verbatim>\<open>buildRouter\<close>: a response with its status and the value that is handed
  to the encoder. A request has the path the router has matched, the parameters of its query string (valid
  UTF-8, of which \<^verbatim>\<open>Get\<close> takes the first with a name) and, for a change, the field \<^verbatim>\<open>state\<close> of its JSON body,
  or nothing if that does not decode. An infohash in a path has no zero byte. Log, metrics and the CORS
  middleware are left out.
\<close>

datatype body =
  Xml_Caps xml_caps
| Xml_Rss xml_rss
| Xml_Error int runes
| Json_Error string
| Json_Rows "torrent_entry list"
| Json_Row torrent_entry
| No_Body

record response =
  rs_status :: int
  rs_body :: body

type_synonym url_query = "(string \<times> runes) list"

definition query_get :: "url_query \<Rightarrow> string \<Rightarrow> runes" where
  "query_get q k = (case map_of q k of Some v \<Rightarrow> v | None \<Rightarrow> [])"

definition write_xml :: "int \<Rightarrow> body \<Rightarrow> response" where
  "write_xml status b = \<lparr>rs_status = status, rs_body = b\<rparr>"

definition write_xml_error :: "int \<Rightarrow> int \<Rightarrow> runes \<Rightarrow> response" where
  "write_xml_error status code description = write_xml status (Xml_Error code description)"

definition write_json :: "int \<Rightarrow> body \<Rightarrow> response" where
  "write_json status b = \<lparr>rs_status = status, rs_body = b\<rparr>"

subsection \<open>Torznab (\<^verbatim>\<open>api/torznab.go\<close>)\<close>

definition parse_cats :: "runes \<Rightarrow> int list" where
  "parse_cats s = (if s = [] then [] else List.map_filter (\<lambda>p. atoi_ok (trim_space p)) (split_on 44 s))"

definition parse_int :: "runes \<Rightarrow> int \<Rightarrow> int" where
  "parse_int s dflt = (if s = [] then dflt else case atoi_ok s of None \<Rightarrow> dflt | Some v \<Rightarrow> v)"

definition feed_response :: "xml_rss option \<Rightarrow> response" where
  "feed_response r =
     (case r of None \<Rightarrow> write_xml_error 500 300 (asc ''search failed'') | Some rss \<Rightarrow> write_xml 200 (Xml_Rss rss))"

definition handle_torznab_search :: "search_env \<Rightarrow> url_query \<Rightarrow> catalog \<Rightarrow> response" where
  "handle_torznab_search env q ct =
     feed_response (search env
       \<lparr>rq_query = query_get q ''q'', rq_cats = parse_cats (query_get q ''cat''),
        rq_limit = parse_int (query_get q ''limit'') 0, rq_offset = parse_int (query_get q ''offset'') 0\<rparr> ct)"

definition handle_torznab_movie_search :: "search_env \<Rightarrow> url_query \<Rightarrow> catalog \<Rightarrow> response" where
  "handle_torznab_movie_search env q ct =
     feed_response (search_movie_feed env
       \<lparr>rq_query = query_get q ''q'', rq_cats = parse_cats (query_get q ''cat''),
        rq_limit = parse_int (query_get q ''limit'') 0, rq_offset = parse_int (query_get q ''offset'') 0,
        rq_imdb_id = query_get q ''imdbid''\<rparr> ct)"

definition int32_param :: "runes \<Rightarrow> int option" where
  "int32_param s = (if s \<noteq> [] then Some (int32 (parse_int s 0)) else None)"

definition handle_torznab_tv_search :: "search_env \<Rightarrow> url_query \<Rightarrow> catalog \<Rightarrow> response" where
  "handle_torznab_tv_search env q ct =
     feed_response (search_tv_feed env
       \<lparr>rq_query = query_get q ''q'', rq_cats = parse_cats (query_get q ''cat''),
        rq_limit = parse_int (query_get q ''limit'') 0, rq_offset = parse_int (query_get q ''offset'') 0,
        rq_imdb_id = query_get q ''imdbid'', rq_season = int32_param (query_get q ''season''),
        rq_episode = int32_param (query_get q ''ep'')\<rparr> ct)"

definition handle_torznab :: "search_env \<Rightarrow> url_query \<Rightarrow> catalog \<Rightarrow> response" where
  "handle_torznab env q ct =
     (let t = query_get q ''t'' in
      if t = asc ''caps'' then write_xml 200 (Xml_Caps service_caps)
      else if t = asc ''search'' then handle_torznab_search env q ct
      else if t = asc ''movie'' then handle_torznab_movie_search env q ct
      else if t = asc ''tvsearch'' then handle_torznab_tv_search env q ct
      else write_xml_error 400 202 (asc ''unknown function: '' @ t))"

subsection \<open>Torrents (\<^verbatim>\<open>api/torrents.go\<close>)\<close>

text \<open>A parameter that must be a number of at least \<open>least\<close>, with its default.\<close>

definition number_param :: "runes \<Rightarrow> int \<Rightarrow> int \<Rightarrow> int option" where
  "number_param v least dflt =
     (if v \<noteq> [] then (case atoi_ok v of None \<Rightarrow> None | Some n \<Rightarrow> if n < least then None else Some n) else Some dflt)"

definition handle_list_torrents :: "search_env \<Rightarrow> url_query \<Rightarrow> catalog \<Rightarrow> response" where
  "handle_list_torrents env q ct =
     (case number_param (query_get q ''limit'') 1 100 of
        None \<Rightarrow> write_json 400 (Json_Error ''invalid limit'')
      | Some limit \<Rightarrow>
     (case number_param (query_get q ''offset'') 0 0 of
        None \<Rightarrow> write_json 400 (Json_Error ''invalid offset'')
      | Some off \<Rightarrow>
     (case list_rows env \<lparr>lq_limit = limit, lq_offset = off, lq_state = query_get q ''state'',
             lq_content_type = query_get q ''content_type''\<rparr> ct of
        Inl e \<Rightarrow> write_json 500 (Json_Error ''internal server error'')
      | Inr rows \<Rightarrow> write_json 200 (Json_Rows rows))))"

definition handle_get_torrent :: "search_env \<Rightarrow> string \<Rightarrow> catalog \<Rightarrow> response" where
  "handle_get_torrent env infohash ct =
     (case get_torrent env infohash ct of
        Inl e \<Rightarrow> if e = Not_Found then write_json 404 (Json_Error ''not found'')
                 else write_json 500 (Json_Error ''internal server error'')
      | Inr t \<Rightarrow> write_json 200 (Json_Row (infohash, t)))"

definition handle_update_torrent :: "search_env \<Rightarrow> string \<Rightarrow> runes option \<Rightarrow> catalog \<Rightarrow> response \<times> catalog" where
  "handle_update_torrent env infohash json_state ct =
     (case json_state of
        None \<Rightarrow> (write_json 400 (Json_Error ''invalid request body''), ct)
      | Some st \<Rightarrow>
          if st = [] then (write_json 400 (Json_Error ''state is required''), ct)
          else case set_torrent_state env infohash st ct of
            Inl e \<Rightarrow> (if e = Invalid_State then write_json 400 (Json_Error ''invalid state'')
                      else write_json 500 (Json_Error ''internal server error''), ct)
          | Inr ct' \<Rightarrow> (write_json 204 No_Body, ct'))"

definition handle_delete_torrent :: "search_env \<Rightarrow> string \<Rightarrow> catalog \<Rightarrow> response \<times> catalog" where
  "handle_delete_torrent env infohash ct =
     (case remove_torrent env infohash ct of
        Inl e \<Rightarrow> (write_json 500 (Json_Error ''internal server error''), ct)
      | Inr ct' \<Rightarrow> (write_json 204 No_Body, ct'))"

subsection \<open>Routes (\<^verbatim>\<open>api/server.go\<close>)\<close>

record request =
  hq_method :: http_method
  hq_path :: request_path
  hq_query :: url_query
  hq_json_state :: "runes option"

definition routed :: "search_env \<Rightarrow> request \<Rightarrow> request_path \<times> http_method" where
  "routed env r =
     (case hq_path r of
        Raw_Path s \<Rightarrow> (case se_route env (hq_method r) s of (redirected, p) \<Rightarrow> (p, if redirected then Method_Get else hq_method r))
      | p \<Rightarrow> (p, hq_method r))"

text \<open>The router answers 404 for a path without a route and 405 for another method on a path with one.\<close>

definition serve :: "search_env \<Rightarrow> request \<Rightarrow> catalog \<Rightarrow> response \<times> catalog" where
  "serve env r ct =
     (case routed env r of
        (Torznab_Path, Method_Get) \<Rightarrow> (handle_torznab env (hq_query r) ct, ct)
      | (Torrents_Path, Method_Get) \<Rightarrow> (handle_list_torrents env (hq_query r) ct, ct)
      | (Torrent_Path ih, Method_Get) \<Rightarrow> (handle_get_torrent env ih ct, ct)
      | (Torrent_Path ih, Method_Patch) \<Rightarrow> handle_update_torrent env ih (hq_json_state r) ct
      | (Torrent_Path ih, Method_Delete) \<Rightarrow> handle_delete_torrent env ih ct
      | (Other_Path, m) \<Rightarrow> (write_json 404 No_Body, ct)
      | (Raw_Path s, m) \<Rightarrow> (write_json 404 No_Body, ct)
      | (p, m) \<Rightarrow> (write_json 405 No_Body, ct))"

subsection \<open>The client (\<^verbatim>\<open>pkg/torznab\<close>)\<close>

text \<open>
  \<open>send\<close> is \<^verbatim>\<open>http.Client.Do\<close>: the response, or nothing when the exchange fails; with \<open>'w\<close> the state of the
  world behind it. A null column is decoded as the empty string.
\<close>

datatype client_error = Transport_Error | Http_Status int | Torrent_Missing | Unknown_State | Decode_Error

record client_torrent =
  cl_torrent_infohash :: string
  cl_torrent_name :: runes
  cl_torrent_total_size :: int
  cl_torrent_file_count :: int
  cl_torrent_state :: string
  cl_torrent_content_type :: string
  cl_torrent_quality :: runes
  cl_torrent_encoding :: runes
  cl_torrent_dynamic_range :: runes
  cl_torrent_source :: runes
  cl_torrent_release_group :: runes
  cl_torrent_seeders :: int
  cl_torrent_leechers :: int
  cl_torrent_first_seen :: instant

definition client_torrent_of :: "torrent_entry \<Rightarrow> client_torrent" where
  "client_torrent_of r =
     (let t = snd r; cf = tr_fields t in
      \<lparr>cl_torrent_infohash = fst r, cl_torrent_name = tr_name t, cl_torrent_total_size = tr_total_size t,
       cl_torrent_file_count = tr_file_count t, cl_torrent_state = state_label (tr_state t),
       cl_torrent_content_type = content_label (tr_content_type t), cl_torrent_quality = text_val (cf_quality cf),
       cl_torrent_encoding = text_val (cf_encoding cf), cl_torrent_dynamic_range = text_val (cf_dynamic_range cf),
       cl_torrent_source = text_val (cf_source cf), cl_torrent_release_group = text_val (cf_release_group cf),
       cl_torrent_seeders = tr_seeders t, cl_torrent_leechers = tr_leechers t, cl_torrent_first_seen = tr_first_seen t\<rparr>)"

type_synonym 'w sender = "request \<Rightarrow> 'w \<Rightarrow> response option \<times> 'w"

definition client_list_torrents ::
    "'w sender \<Rightarrow> list_request \<Rightarrow> 'w \<Rightarrow> (client_error + client_torrent list) \<times> 'w" where
  "client_list_torrents send p w =
     (let limit = (if lq_limit p \<le> 0 then 50 else lq_limit p);
          q = [(''limit'', itoa limit), (''offset'', itoa (lq_offset p))] @
            (if lq_state p \<noteq> [] then [(''state'', lq_state p)] else []) @
            (if lq_content_type p \<noteq> [] then [(''content_type'', lq_content_type p)] else [])
      in case send \<lparr>hq_method = Method_Get, hq_path = Torrents_Path, hq_query = q, hq_json_state = None\<rparr> w of
           (None, w') \<Rightarrow> (Inl Transport_Error, w')
         | (Some r, w') \<Rightarrow>
             (if rs_status r \<noteq> 200 then Inl (Http_Status (rs_status r))
              else case rs_body r of Json_Rows rows \<Rightarrow> Inr (map client_torrent_of rows) | _ \<Rightarrow> Inl Decode_Error, w'))"

text \<open>
  \<^verbatim>\<open>"/api/torrents/" + infohash\<close>. An infohash of the database is hexadecimal, so it is a plain segment of the path.
\<close>

definition plain_segment :: "string \<Rightarrow> bool" where
  "plain_segment s \<longleftrightarrow> s \<noteq> [] \<and> list_all (\<lambda>c. let n = of_char c :: nat in
     48 \<le> n \<and> n \<le> 57 \<or> 65 \<le> n \<and> n \<le> 90 \<or> 97 \<le> n \<and> n \<le> 122) s"

definition torrent_path :: "string \<Rightarrow> request_path" where
  "torrent_path infohash = (if plain_segment infohash then Torrent_Path infohash else Raw_Path infohash)"

lemma torrent_path_plain [simp]: "plain_segment s \<Longrightarrow> torrent_path s = Torrent_Path s"
  by (simp add: torrent_path_def)

lemma plain_hex: "bs \<noteq> [] \<Longrightarrow> plain_segment (hex_encode bs)"
proof -
  have "\<forall>n \<in> set [0..<16]. plain_segment [Node_Id.hex_digit n]" by code_simp
  then have digit: "plain_segment [Node_Id.hex_digit n]" if "n < 16" for n using that by simp
  have "unat (b :: byte) div 16 < 16" "unat b mod 16 < 16" for b using unsigned_less[of b] by (simp_all add: less_mult_imp_div_less)
  then have "list_all (\<lambda>c. plain_segment [c]) (hex_encode bs)"
    using digit by (auto simp: hex_encode_def list_all_iff)
  moreover assume "bs \<noteq> []"
  then have "hex_encode bs \<noteq> []" by (cases bs) (simp_all add: hex_encode_def)
  ultimately show ?thesis by (simp add: plain_segment_def list_all_iff)
qed

definition client_get_torrent :: "'w sender \<Rightarrow> string \<Rightarrow> 'w \<Rightarrow> (client_error + client_torrent) \<times> 'w" where
  "client_get_torrent send infohash w =
     (case send \<lparr>hq_method = Method_Get, hq_path = torrent_path infohash, hq_query = [], hq_json_state = None\<rparr> w of
        (None, w') \<Rightarrow> (Inl Transport_Error, w')
      | (Some r, w') \<Rightarrow>
          (if rs_status r = 404 then Inl Torrent_Missing
           else if rs_status r \<noteq> 200 then Inl (Http_Status (rs_status r))
           else case rs_body r of Json_Row row \<Rightarrow> Inr (client_torrent_of row) | _ \<Rightarrow> Inl Decode_Error, w'))"

definition valid_states :: "string list" where
  "valid_states = [''pending'', ''classified'', ''enriched'', ''active'', ''dead'', ''rejected'']"

definition client_update_state :: "'w sender \<Rightarrow> string \<Rightarrow> string \<Rightarrow> 'w \<Rightarrow> client_error option \<times> 'w" where
  "client_update_state send infohash st w =
     (if st \<notin> set valid_states then (Some Unknown_State, w)
      else case send \<lparr>hq_method = Method_Patch, hq_path = torrent_path infohash, hq_query = [], hq_json_state = Some (asc st)\<rparr> w of
        (None, w') \<Rightarrow> (Some Transport_Error, w')
      | (Some r, w') \<Rightarrow> (if rs_status r \<noteq> 204 then Some (Http_Status (rs_status r)) else None, w'))"

definition client_delete_torrent :: "'w sender \<Rightarrow> string \<Rightarrow> 'w \<Rightarrow> client_error option \<times> 'w" where
  "client_delete_torrent send infohash w =
     (case send \<lparr>hq_method = Method_Delete, hq_path = torrent_path infohash, hq_query = [], hq_json_state = None\<rparr> w of
        (None, w') \<Rightarrow> (Some Transport_Error, w')
      | (Some r, w') \<Rightarrow> (if rs_status r \<noteq> 204 then Some (Http_Status (rs_status r)) else None, w'))"

end
