(* ===== verification/Db_Invariant.thy ===== *)
theory Db_Invariant
  imports Search_Db
begin

section \<open>The invariant of the database\<close>

text \<open>
  All statements of the program that write the database, as one step relation: in every database they can
  produce the primary keys are unique, the foreign keys refer to rows that exist, and the checks of the
  schema hold. The enrichment tables stay empty, since no statement writes them.
\<close>

subsection \<open>Statements\<close>

datatype statement =
  Upsert_Pending instant string runes int int
| Insert_Files "file_row list"
| Update_Classified torrent_state content_type classified_fields string
| Update_Scrape string int int instant torrent_state "instant option"
| Update_Dead string
| Upsert_Tracker string
| Link_Tracker instant string int
| Add_History instant string int int int
| Prune_History instant
| Update_State string torrent_state
| Delete_Torrent string

definition on_db :: "catalog \<Rightarrow> torrent_db option \<Rightarrow> catalog option" where
  "on_db ct r = map_option (\<lambda>db. ct\<lparr>ct_db := db\<rparr>) r"

fun exec_statement :: "statement \<Rightarrow> catalog \<Rightarrow> catalog option" where
  "exec_statement (Upsert_Pending now ih name sz n) ct = on_db ct (map_option snd (upsert_torrent_pending now ih name sz n (ct_db ct)))"
| "exec_statement (Insert_Files fs) ct = on_db ct (insert_torrent_files fs (ct_db ct))"
| "exec_statement (Update_Classified st c cf ih) ct = on_db ct (update_torrent_classified st c cf ih (ct_db ct))"
| "exec_statement (Update_Scrape ih s l at st seen) ct = on_db ct (update_torrent_scrape ih s l at st seen (ct_db ct))"
| "exec_statement (Update_Dead ih) ct = on_db ct (update_torrent_dead ih (ct_db ct))"
| "exec_statement (Upsert_Tracker url) ct = on_db ct (Some (snd (upsert_tracker url (ct_db ct))))"
| "exec_statement (Link_Tracker now ih i) ct = on_db ct (upsert_torrent_tracker now ih i (ct_db ct))"
| "exec_statement (Add_History now ih i s l) ct = on_db ct (insert_scrape_history now ih i s l (ct_db ct))"
| "exec_statement (Prune_History cutoff) ct = on_db ct (prune_scrape_history cutoff (ct_db ct))"
| "exec_statement (Update_State ih st) ct = Some (update_torrent_state ih st ct)"
| "exec_statement (Delete_Torrent ih) ct = Some (delete_torrent ih ct)"

definition empty_catalog :: catalog where
  "empty_catalog =
     \<lparr>ct_db = \<lparr>torrents = [], torrent_files = [], trackers = [], tracker_seq = 1, torrent_trackers = [], scrape_history = []\<rparr>,
      ct_movies = [], ct_tv = []\<rparr>"

text \<open>A migrated database is empty; statements that are refused change nothing.\<close>

inductive db_reachable :: "catalog \<Rightarrow> bool" where
  migrated: "db_reachable empty_catalog"
| executed: "db_reachable ct \<Longrightarrow> exec_statement s ct = Some ct' \<Longrightarrow> db_reachable ct'"

subsection \<open>The schema\<close>

definition torrent_ok :: "torrent_row \<Rightarrow> bool" where
  "torrent_ok t \<longleftrightarrow> length (tr_name t) \<le> 500 \<and> text_ok (tr_name t) \<and> 0 \<le> tr_total_size t \<and> 0 \<le> tr_file_count t \<and>
     0 \<le> tr_seeders t \<and> 0 \<le> tr_leechers t"

definition infohashes :: "torrent_db \<Rightarrow> string set" where
  "infohashes db = fst ` set (torrents db)"

definition tracker_ids :: "torrent_db \<Rightarrow> int set" where
  "tracker_ids db = snd ` set (trackers db)"

definition file_ok :: "torrent_db \<Rightarrow> file_row \<Rightarrow> bool" where
  "file_ok db f \<longleftrightarrow> fl_infohash f \<in> infohashes db \<and> 0 \<le> fl_size f \<and> text_ok (fl_path f)"

definition link_ok :: "torrent_db \<Rightarrow> string \<times> int \<Rightarrow> bool" where
  "link_ok db k \<longleftrightarrow> fst k \<in> infohashes db \<and> snd k \<in> tracker_ids db"

definition history_ok :: "torrent_db \<Rightarrow> history_row \<Rightarrow> bool" where
  "history_ok db h \<longleftrightarrow> hr_infohash h \<in> infohashes db \<and> hr_tracker h \<in> tracker_ids db \<and> 0 \<le> hr_seeders h \<and> 0 \<le> hr_leechers h"

definition keys_ok :: "torrent_db \<Rightarrow> bool" where
  "keys_ok db \<longleftrightarrow> wf_map (torrents db) \<and> wf_map (trackers db) \<and> wf_map (torrent_trackers db) \<and>
     distinct (map snd (trackers db)) \<and> (\<forall>i \<in> tracker_ids db. i < tracker_seq db)"

definition db_ok :: "catalog \<Rightarrow> bool" where
  "db_ok ct \<longleftrightarrow> (let db = ct_db ct in
     keys_ok db \<and> (\<forall>t \<in> snd ` set (torrents db). torrent_ok t) \<and> (\<forall>f \<in> set (torrent_files db). file_ok db f) \<and>
     (\<forall>k \<in> fst ` set (torrent_trackers db). link_ok db k) \<and> (\<forall>h \<in> set (scrape_history db). history_ok db h) \<and>
     ct_movies ct = [] \<and> ct_tv ct = [])"

lemmas schema_defs = db_ok_def keys_ok_def file_ok_def link_ok_def history_ok_def infohashes_def tracker_ids_def

subsection \<open>Rows changed in place\<close>

lemma infohashes_keys: "infohashes db = set (map_keys (torrents db))"
  by (simp add: infohashes_def map_keys_def)

lemma infohashes_present: "map_get (torrents db) ih \<noteq> None \<longleftrightarrow> ih \<in> infohashes db"
  by (simp add: infohashes_keys map_get_None_keys)

text \<open>
  A statement that puts an admissible row in the table of torrents, for a torrent that is there or a new
  one, keeps the invariant.
\<close>

lemma put_torrent_ok:
  assumes "db_ok ct" "torrent_ok t"
  shows "db_ok (ct\<lparr>ct_db := (ct_db ct)\<lparr>torrents := map_set ih t (torrents (ct_db ct))\<rparr>\<rparr>)"
proof -
  let ?db = "ct_db ct" and ?db' = "(ct_db ct)\<lparr>torrents := map_set ih t (torrents (ct_db ct))\<rparr>"
  have mono: "infohashes ?db \<subseteq> infohashes ?db'" by (auto simp: infohashes_keys map_keys_set)
  have ids: "tracker_ids ?db' = tracker_ids ?db" by (simp add: tracker_ids_def)
  have rows: "\<forall>t' \<in> snd ` set (torrents ?db'). torrent_ok t'"
    using assms set_map_set[of ih t "torrents ?db"] by (force simp: db_ok_def Let_def)
  have "keys_ok ?db'" using assms(1) ids by (simp add: db_ok_def Let_def keys_ok_def wf_map_set)
  with rows mono ids assms(1) show ?thesis
    by (auto simp: db_ok_def Let_def file_ok_def link_ok_def history_ok_def)
qed

lemma stored_torrent_ok:
  assumes "db_ok ct" "map_get (torrents (ct_db ct)) ih = Some t"
  shows "torrent_ok t"
proof -
  from map_of_SomeD[OF assms(2)] have "t \<in> snd ` set (torrents (ct_db ct))" by force
  with assms(1) show ?thesis unfolding db_ok_def Let_def by blast
qed

lemma update_row_ok:
  assumes "db_ok ct" "map_get (torrents (ct_db ct)) ih = Some t" "torrent_ok t \<Longrightarrow> torrent_ok t'"
  shows "db_ok (ct\<lparr>ct_db := (ct_db ct)\<lparr>torrents := map_set ih t' (torrents (ct_db ct))\<rparr>\<rparr>)"
  using put_torrent_ok[OF assms(1) assms(3)[OF stored_torrent_ok[OF assms(1,2)]]] .

subsection \<open>Every statement keeps the invariant\<close>

lemma delete_ok:
  assumes "db_ok ct"
  shows "db_ok (delete_torrent ih ct)"
proof -
  let ?db = "ct_db ct" and ?ct' = "delete_torrent ih ct"
  have keys: "infohashes (ct_db ?ct') = infohashes ?db - {ih}"
    by (simp add: delete_torrent_def Let_def infohashes_keys map_keys_del)
  have ids: "tracker_ids (ct_db ?ct') = tracker_ids ?db" by (simp add: delete_torrent_def Let_def tracker_ids_def)
  have "keys_ok (ct_db ?ct')"
    using assms ids unfolding db_ok_def Let_def keys_ok_def
    by (simp add: delete_torrent_def Let_def wf_map_del wf_map_filter)
  moreover have "\<forall>t \<in> snd ` set (torrents (ct_db ?ct')). torrent_ok t"
    using assms set_map_del[of ih "torrents ?db"] by (force simp: db_ok_def Let_def delete_torrent_def)
  moreover have "\<forall>f \<in> set (torrent_files (ct_db ?ct')). file_ok (ct_db ?ct') f"
    using assms unfolding file_ok_def keys by (auto simp: db_ok_def file_ok_def delete_torrent_def Let_def)
  moreover have "\<forall>k \<in> fst ` set (torrent_trackers (ct_db ?ct')). link_ok (ct_db ?ct') k"
    using assms unfolding link_ok_def keys ids by (force simp: db_ok_def link_ok_def delete_torrent_def Let_def)
  moreover have "\<forall>h \<in> set (scrape_history (ct_db ?ct')). history_ok (ct_db ?ct') h"
    using assms unfolding history_ok_def keys ids by (auto simp: db_ok_def history_ok_def delete_torrent_def Let_def)
  moreover have "ct_movies ?ct' = [] \<and> ct_tv ?ct' = []"
    using assms by (simp add: db_ok_def Let_def delete_torrent_def map_del_def)
  ultimately show ?thesis unfolding db_ok_def Let_def by blast
qed

lemma upsert_tracker_ok:
  assumes "db_ok ct"
  shows "db_ok (ct\<lparr>ct_db := snd (upsert_tracker url (ct_db ct))\<rparr>)"
proof -
  let ?db = "ct_db ct" and ?db' = "snd (upsert_tracker url (ct_db ct))"
  have keys: "keys_ok ?db" using assms by (simp add: db_ok_def Let_def)
  show ?thesis
  proof (cases "map_get (trackers ?db) url")
    case (Some i)
    then have db': "?db' = ?db\<lparr>tracker_seq := tracker_seq ?db + 1\<rparr>" by (simp add: upsert_tracker_def)
    have "keys_ok ?db'" using keys by (force simp: db' keys_ok_def tracker_ids_def)
    with assms show ?thesis
      by (simp add: db' db_ok_def Let_def file_ok_def link_ok_def history_ok_def infohashes_def tracker_ids_def)
  next
    case None
    then have db': "?db' = ?db\<lparr>trackers := map_set url (tracker_seq ?db) (trackers ?db), tracker_seq := tracker_seq ?db + 1\<rparr>"
      by (simp add: upsert_tracker_def)
    have app: "map_set url i m = m @ [(url, i)]" if "map_get m url = None" for i :: int and m
      using that by (induction m) (auto split: if_splits)
    have ids: "tracker_ids ?db' = insert (tracker_seq ?db) (tracker_ids ?db)"
      using None by (auto simp: db' tracker_ids_def app)
    have "keys_ok ?db'"
      using keys None ids wf_map_set[of "trackers ?db" url "tracker_seq ?db"]
      by (force simp: keys_ok_def db' app tracker_ids_def)
    with assms ids show ?thesis
      by (auto simp: db' db_ok_def Let_def file_ok_def link_ok_def history_ok_def infohashes_def)
  qed
qed

lemma has_tracker_ids: "has_tracker i db \<longleftrightarrow> i \<in> tracker_ids db"
  by (simp add: has_tracker_def tracker_ids_def)

lemma files_ok:
  assumes "db_ok ct" "insert_torrent_files fs (ct_db ct) = Some db'"
  shows "db_ok (ct\<lparr>ct_db := db'\<rparr>)"
proof -
  let ?db = "ct_db ct"
  from assms(2) have db': "db' = ?db\<lparr>torrent_files := torrent_files ?db @
      map (\<lambda>f. f\<lparr>fl_extension := (if fl_extension f = Some [] then None else fl_extension f)\<rparr>) fs\<rparr>"
    and ok: "\<forall>f \<in> set fs. text_ok (fl_path f) \<and> 0 \<le> fl_size f \<and> map_get (torrents ?db) (fl_infohash f) \<noteq> None"
    by (auto simp: insert_torrent_files_def list_ex_iff split: if_splits)
  from ok have "\<forall>f \<in> set fs. file_ok ?db f" unfolding infohashes_present file_ok_def by blast
  then have "\<forall>f \<in> set (torrent_files db'). file_ok ?db f"
    using assms(1) by (auto simp: db' db_ok_def Let_def file_ok_def)
  with assms(1) show ?thesis
    by (simp add: db' db_ok_def Let_def keys_ok_def file_ok_def link_ok_def history_ok_def infohashes_def tracker_ids_def)
qed

lemma link_tracker_ok:
  assumes "db_ok ct" "upsert_torrent_tracker now ih i (ct_db ct) = Some db'"
  shows "db_ok (ct\<lparr>ct_db := db'\<rparr>)"
proof -
  let ?db = "ct_db ct"
  from assms(2) have db': "db' = ?db\<lparr>torrent_trackers := map_set (ih, i) now (torrent_trackers ?db)\<rparr>"
    and ok: "link_ok ?db (ih, i)"
    by (auto simp: upsert_torrent_tracker_def link_ok_def has_tracker_ids infohashes_present[symmetric] split: if_splits)
  have "\<forall>k \<in> fst ` set (torrent_trackers db'). link_ok ?db k"
    using assms(1) ok set_map_set[of "(ih, i)" now "torrent_trackers ?db"] by (force simp: db' db_ok_def Let_def)
  with assms(1) show ?thesis
    by (simp add: db' db_ok_def Let_def keys_ok_def wf_map_set file_ok_def link_ok_def history_ok_def infohashes_def tracker_ids_def)
qed

lemma put_history_ok:
  "db_ok ct \<Longrightarrow> \<forall>h \<in> set hs. history_ok (ct_db ct) h \<Longrightarrow> db_ok (ct\<lparr>ct_db := (ct_db ct)\<lparr>scrape_history := hs\<rparr>\<rparr>)"
  by (simp add: db_ok_def Let_def keys_ok_def file_ok_def link_ok_def history_ok_def infohashes_def tracker_ids_def)

lemma add_history_ok:
  assumes "db_ok ct" "insert_scrape_history now ih i s l (ct_db ct) = Some db'"
  shows "db_ok (ct\<lparr>ct_db := db'\<rparr>)"
proof -
  let ?db = "ct_db ct"
  obtain h where db': "db' = ?db\<lparr>scrape_history := scrape_history ?db @ [h]\<rparr>" and ok: "history_ok ?db h"
    using assms(2)
    by (auto simp: insert_scrape_history_def history_ok_def has_tracker_ids infohashes_present[symmetric] split: if_splits)
  have "\<forall>h \<in> set (scrape_history ?db). history_ok ?db h" using assms(1) by (simp add: db_ok_def Let_def)
  with assms(1) ok show ?thesis unfolding db' by (intro put_history_ok) auto
qed

lemma prune_ok: "db_ok ct \<Longrightarrow> prune_scrape_history cutoff (ct_db ct) = Some db' \<Longrightarrow> db_ok (ct\<lparr>ct_db := db'\<rparr>)"
  using put_history_ok[of ct "filter (\<lambda>h. \<not> hr_scraped_at h < cutoff) (scrape_history (ct_db ct))"]
  by (auto simp: prune_scrape_history_def db_ok_def Let_def)

lemma db_ok_self: "db_ok ct \<Longrightarrow> db_ok (ct\<lparr>ct_db := ct_db ct\<rparr>)"
  by simp

lemma statement_ok:
  assumes "db_ok ct" "exec_statement s ct = Some ct'"
  shows "db_ok ct'"
proof (cases s)
  case (Upsert_Pending now ih name sz n)
  with assms show ?thesis
    by (auto simp: on_db_def upsert_torrent_pending_def torrent_ok_def split: if_splits intro!: put_torrent_ok db_ok_self)
next
  case (Insert_Files fs)
  with assms show ?thesis by (auto simp: on_db_def intro: files_ok)
next
  case (Update_Classified st c cf ih)
  with assms show ?thesis
    by (auto simp: on_db_def update_torrent_classified_def torrent_ok_def split: option.splits intro!: update_row_ok)
next
  case (Update_Scrape ih a b at st seen)
  with assms show ?thesis
    by (auto simp: on_db_def update_torrent_scrape_def torrent_ok_def split: option.splits if_splits intro!: update_row_ok)
next
  case (Update_Dead ih)
  with assms show ?thesis
    by (auto simp: on_db_def update_torrent_dead_def torrent_ok_def split: option.splits intro!: update_row_ok)
next
  case (Upsert_Tracker url)
  with assms show ?thesis by (auto simp: on_db_def intro: upsert_tracker_ok)
next
  case (Link_Tracker now ih i)
  with assms show ?thesis by (auto simp: on_db_def intro: link_tracker_ok)
next
  case (Add_History now ih i a b)
  with assms show ?thesis by (auto simp: on_db_def intro: add_history_ok)
next
  case (Prune_History cutoff)
  with assms show ?thesis by (auto simp: on_db_def intro: prune_ok)
next
  case (Update_State ih st)
  with assms show ?thesis
    by (auto simp: update_torrent_state_def torrent_ok_def split: option.splits intro!: update_row_ok)
next
  case (Delete_Torrent ih)
  with assms show ?thesis by (auto intro: delete_ok)
qed

lemma reachable_ok: "db_reachable ct \<Longrightarrow> db_ok ct"
proof (induction rule: db_reachable.induct)
  case migrated
  then show ?case by (simp add: empty_catalog_def schema_defs)
next
  case (executed ct s ct')
  then show ?case by (blast intro: statement_ok)
qed

subsection \<open>Column types\<close>

text \<open>
  The generated functions of \<^verbatim>\<open>db/gen\<close> take sizes and counts as \<^verbatim>\<open>int64\<close>, for columns of type \<^verbatim>\<open>BIGINT\<close>, and the
  year, season and episode as \<^verbatim>\<open>pgtype.Int4\<close>, for columns of type \<^verbatim>\<open>INT\<close>. \<open>go_typed\<close> says that of the arguments
  of a statement, \<open>columns_ok\<close> of the rows of the database.
\<close>

definition bigint :: "int \<Rightarrow> bool" where
  "bigint n \<longleftrightarrow> - (2 ^ 63) \<le> n \<and> n < 2 ^ 63"

definition null_int :: "int option \<Rightarrow> bool" where
  "null_int x \<longleftrightarrow> (case x of None \<Rightarrow> True | Some n \<Rightarrow> - (2 ^ 31) \<le> n \<and> n < 2 ^ 31)"

definition fields_typed :: "classified_fields \<Rightarrow> bool" where
  "fields_typed cf \<longleftrightarrow> null_int (cf_year cf) \<and> null_int (cf_season cf) \<and> null_int (cf_episode cf)"

fun go_typed :: "statement \<Rightarrow> bool" where
  "go_typed (Upsert_Pending now ih name sz n) \<longleftrightarrow> bigint sz \<and> bigint n"
| "go_typed (Insert_Files fs) \<longleftrightarrow> list_all (\<lambda>f. bigint (fl_size f)) fs"
| "go_typed (Update_Classified st c cf ih) \<longleftrightarrow> fields_typed cf"
| "go_typed (Update_Scrape ih s l at st seen) \<longleftrightarrow> bigint s \<and> bigint l"
| "go_typed (Add_History now ih i s l) \<longleftrightarrow> bigint s \<and> bigint l"
| "go_typed _ \<longleftrightarrow> True"

definition row_typed :: "torrent_row \<Rightarrow> bool" where
  "row_typed t \<longleftrightarrow> bigint (tr_total_size t) \<and> bigint (tr_file_count t) \<and> bigint (tr_seeders t) \<and> bigint (tr_leechers t) \<and>
     fields_typed (tr_fields t)"

definition columns_ok :: "catalog \<Rightarrow> bool" where
  "columns_ok ct \<longleftrightarrow> (let db = ct_db ct in
     (\<forall>t \<in> snd ` set (torrents db). row_typed t) \<and> (\<forall>f \<in> set (torrent_files db). bigint (fl_size f)) \<and>
     (\<forall>h \<in> set (scrape_history db). bigint (hr_seeders h) \<and> bigint (hr_leechers h)))"

text \<open>The statements in their order; one that is refused changes nothing.\<close>

definition send_statement :: "statement \<Rightarrow> catalog \<Rightarrow> catalog" where
  "send_statement s ct = (case exec_statement s ct of None \<Rightarrow> ct | Some ct' \<Rightarrow> ct')"

interpretation sent: machine send_statement db_ok "\<lambda>s. True"
  by unfold_locales (auto simp: send_statement_def intro: statement_ok split: option.split)

lemma put_typed:
  assumes "columns_ok ct" "row_typed t"
  shows "columns_ok (ct\<lparr>ct_db := (ct_db ct)\<lparr>torrents := map_set ih t (torrents (ct_db ct))\<rparr>\<rparr>)"
  using assms set_map_set[of ih t "torrents (ct_db ct)"] by (fastforce simp: columns_ok_def Let_def)

lemma update_typed:
  assumes "columns_ok ct" "map_get (torrents (ct_db ct)) ih = Some t" "row_typed t \<Longrightarrow> row_typed t'"
  shows "columns_ok (ct\<lparr>ct_db := (ct_db ct)\<lparr>torrents := map_set ih t' (torrents (ct_db ct))\<rparr>\<rparr>)"
proof -
  from map_of_SomeD[OF assms(2)] have "t \<in> snd ` set (torrents (ct_db ct))" by force
  with assms(1) have "row_typed t" unfolding columns_ok_def Let_def by blast
  with put_typed[OF assms(1) assms(3)] show ?thesis .
qed

lemma statement_typed:
  assumes "columns_ok ct" "go_typed s" "exec_statement s ct = Some ct'"
  shows "columns_ok ct'"
proof (cases s)
  case (Upsert_Pending now ih name sz n)
  with assms show ?thesis
    by (auto simp: on_db_def upsert_torrent_pending_def row_typed_def fields_typed_def no_fields_def null_int_def
        bigint_def[of 0] split: if_splits intro!: put_typed)
next
  case (Insert_Files fs)
  with assms show ?thesis
    by (auto simp: on_db_def insert_torrent_files_def columns_ok_def Let_def list_all_iff split: if_splits)
next
  case (Update_Classified st c cf ih)
  with assms show ?thesis
    by (auto simp: on_db_def update_torrent_classified_def row_typed_def split: option.splits intro!: update_typed)
next
  case (Update_Scrape ih a b at st seen)
  with assms show ?thesis
    by (auto simp: on_db_def update_torrent_scrape_def row_typed_def split: option.splits if_splits intro!: update_typed)
next
  case (Update_Dead ih)
  with assms show ?thesis
    by (auto simp: on_db_def update_torrent_dead_def row_typed_def split: option.splits intro!: update_typed)
next
  case (Add_History now ih i a b)
  with assms show ?thesis
    by (auto simp: on_db_def insert_scrape_history_def columns_ok_def Let_def split: if_splits)
next
  case (Prune_History cutoff)
  with assms show ?thesis by (auto simp: on_db_def prune_scrape_history_def columns_ok_def Let_def)
next
  case (Update_State ih st)
  with assms show ?thesis
    by (auto simp: update_torrent_state_def row_typed_def split: option.splits intro!: update_typed)
next
  case (Delete_Torrent ih)
  with assms set_map_del[of ih "torrents (ct_db ct)"] show ?thesis
    by (fastforce simp: delete_torrent_def columns_ok_def Let_def)
qed (use assms in \<open>auto simp: on_db_def upsert_tracker_def upsert_torrent_tracker_def columns_ok_def Let_def
  split: option.splits if_splits\<close>)

interpretation sent_typed: machine send_statement columns_ok go_typed
  by unfold_locales (auto simp: send_statement_def intro: statement_typed split: option.split)

text \<open>
  C11. Whatever statements are sent to a migrated database, in any order, with any arguments, and some of them
  refused, the database keeps to its schema: keys are unique, files, tracker links and history rows belong to
  torrents and trackers that exist (also after deletions), names have at most 500 characters and no zero character,
  no size or count is negative, and the enrichment tables are empty. When the arguments have the types of the
  generated Go functions, every stored size and count also is below 2 to the 63, and every stored year, season and
  episode is a 32-bit number.
\<close>

theorem database_well_typed:
  "db_ok (fold send_statement ss empty_catalog) \<and>
   (list_all go_typed ss \<longrightarrow> columns_ok (fold send_statement ss empty_catalog))"
proof -
  have "db_ok empty_catalog" by (simp add: empty_catalog_def schema_defs)
  moreover have "columns_ok empty_catalog" by (simp add: empty_catalog_def columns_ok_def)
  ultimately show ?thesis using sent.run_inv sent_typed.run_inv by (simp add: list_all_iff)
qed

text \<open>Statements of which none is refused.\<close>

fun exec_statements :: "statement list \<Rightarrow> catalog \<Rightarrow> catalog option" where
  "exec_statements [] ct = Some ct"
| "exec_statements (s # ss) ct = (case exec_statement s ct of None \<Rightarrow> None | Some ct' \<Rightarrow> exec_statements ss ct')"

lemma exec_statements_reachable: "db_reachable ct \<Longrightarrow> exec_statements ss ct = Some ct' \<Longrightarrow> db_reachable ct'"
  by (induction ss arbitrary: ct) (auto split: option.splits intro: executed)

definition sample_statements :: "statement list" where
  "sample_statements =
     [Upsert_Pending 5 ''aa'' [97] 7 1,
      Insert_Files [\<lparr>fl_infohash = ''aa'', fl_path = [97], fl_size = 7, fl_extension = Some [], fl_is_video = False\<rparr>],
      Upsert_Tracker ''udp://t'', Link_Tracker 6 ''aa'' 1, Add_History 6 ''aa'' 1 3 0, Add_History 6 ''bb'' 1 3 0]"

text \<open>Six statements, the last of which is refused.\<close>

theorem database_well_typed_witness:
  "length (scrape_history (ct_db (fold send_statement sample_statements empty_catalog))) = 1 \<and>
   columns_ok (fold send_statement sample_statements empty_catalog)"
proof
  show "length (scrape_history (ct_db (fold send_statement sample_statements empty_catalog))) = 1"
    by (simp add: sample_statements_def send_statement_def empty_catalog_def on_db_def upsert_torrent_pending_def
        insert_torrent_files_def upsert_tracker_def upsert_torrent_tracker_def insert_scrape_history_def has_tracker_def text_ok_def)
  have "list_all go_typed sample_statements" by (simp add: sample_statements_def bigint_def)
  then show "columns_ok (fold send_statement sample_statements empty_catalog)"
    using database_well_typed[of sample_statements] by blast
qed

end
