(* ===== verification/Api_Correct.thy ===== *)
theory Api_Correct
  imports Api Db_Invariant
begin

section \<open>What the service answers\<close>

subsection \<open>Links\<close>

lemma ascii_valid: "list_all (\<lambda>r. 0 \<le> r \<and> r < 0x80 \<and> r \<noteq> 37 \<and> r \<noteq> 43) s \<Longrightarrow> query_unescape s = Some s"
proof -
  assume s: "list_all (\<lambda>r. 0 \<le> r \<and> r < 0x80 \<and> r \<noteq> 37 \<and> r \<noteq> 43) s"
  then have "unescape s = Some s" by (intro unescape_plain) (auto simp: list_all_iff)
  moreover have "valid_runes s = s" using s by (intro ascii_valid_runes) (auto simp: list_all_iff)
  ultimately show ?thesis by (simp add: query_unescape_def)
qed

lemma asc_append: "asc (s @ t) = asc s @ asc t"
  by (simp add: asc_def)

text \<open>
  C32. A magnet link names the torrent: read as a URL its parameters are the infohash and the name, whatever
  characters the name has, provided the infohash is written in letters and digits.
\<close>

theorem magnet_roundtrip:
  assumes "list_all is_scalar name" "list_all unreserved (asc ih)"
  shows "take 8 (magnet_url ih name) = asc ''magnet:?'' \<and>
    parse_query (drop 8 (magnet_url ih name)) = [(asc ''xt'', asc (''urn:btih:'' @ ih)), (asc ''dn'', name)]"
proof
  define v where "v = asc (''urn:btih:'' @ ih)"
  have link: "magnet_url ih name = asc ''magnet:?'' @ (asc ''xt'' @ 61 # v) @ 38 # (asc ''dn'' @ 61 # query_escape name)"
    by (simp add: magnet_url_def asc_append v_def)
  then show "take 8 (magnet_url ih name) = asc ''magnet:?''" by simp
  have ih: "r \<in> set (asc ih) \<Longrightarrow> unreserved r" for r using assms(2) by (simp add: list_all_iff)
  have u: "unreserved r \<Longrightarrow> 0 \<le> r \<and> r < 0x80 \<and> r \<noteq> 37 \<and> r \<noteq> 43 \<and> r \<noteq> 38 \<and> r \<noteq> 59" for r
    by (auto simp: unreserved_def)
  from ih have v: "list_all (\<lambda>r. 0 \<le> r \<and> r < 0x80 \<and> r \<noteq> 37 \<and> r \<noteq> 43) v" "38 \<notin> set v" "59 \<notin> set v"
    unfolding v_def using u by (fastforce simp: asc_append list_all_iff)+
  have split: "split_on 38 (drop 8 (magnet_url ih name)) = [asc ''xt'' @ 61 # v, asc ''dn'' @ 61 # query_escape name]"
    unfolding link using v(2) query_escape_plain[OF assms(1)] split_on_append[of 38 "asc ''xt'' @ 61 # v"]
    by (simp add: split_on_absent)
  have keep: "filter (\<lambda>p. p \<noteq> [] \<and> 59 \<notin> set p) [asc ''xt'' @ 61 # v, asc ''dn'' @ 61 # query_escape name] =
      [asc ''xt'' @ 61 # v, asc ''dn'' @ 61 # query_escape name]"
    using v(3) query_escape_plain[OF assms(1)] by simp
  have "cut_first 61 (asc ''xt'' @ 61 # v) = (asc ''xt'', v)"
    "cut_first 61 (asc ''dn'' @ 61 # query_escape name) = (asc ''dn'', query_escape name)"
    by (rule cut_first_append, simp)+
  moreover have "query_unescape (asc ''xt'') = Some (asc ''xt'')" "query_unescape (asc ''dn'') = Some (asc ''dn'')"
    by (simp_all add: ascii_valid)
  ultimately have "parse_query (drop 8 (magnet_url ih name)) = [(asc ''xt'', v), (asc ''dn'', name)]"
    unfolding parse_query_def split keep
    by (simp add: List.map_filter_simps ascii_valid[OF v(1)] query_unescape_escape[OF assms(1)] del: asc_Cons)
  then show "parse_query (drop 8 (magnet_url ih name)) = [(asc ''xt'', asc (''urn:btih:'' @ ih)), (asc ''dn'', name)]"
    unfolding v_def .
qed

theorem magnet_roundtrip_witness:
  "parse_query (drop 8 (magnet_url ''0a'' [65, 38, 0x20AC, 32, 43])) =
    [(asc ''xt'', asc ''urn:btih:0a''), (asc ''dn'', [65, 38, 0x20AC, 32, 43])]"
  using magnet_roundtrip[of "[65, 38, 0x20AC, 32, 43]" "''0a''"] by (simp add: is_scalar_def unreserved_def)


subsection \<open>Searches\<close>

definition feed_guids :: "response \<Rightarrow> string list" where
  "feed_guids r = (case rs_body r of Xml_Rss rss \<Rightarrow> map xi_guid (xr_items rss) | _ \<Rightarrow> [])"

definition search_query :: "runes \<Rightarrow> int \<Rightarrow> int \<Rightarrow> url_query" where
  "search_query q limit off = [(''t'', asc ''search''), (''q'', q), (''limit'', itoa limit), (''offset'', itoa off)]"

text \<open>The torrents a search is about, best first.\<close>

definition ranked :: "search_env \<Rightarrow> runes \<Rightarrow> catalog \<Rightarrow> torrent_entry list" where
  "ranked env q ct =
     by_seeders id (filter (\<lambda>r. is_match (se_fts env) (query_param q) (snd r)) (se_arrange env (torrents (ct_db ct))))"

definition found :: "search_env \<Rightarrow> runes \<Rightarrow> catalog \<Rightarrow> string set" where
  "found env q ct = {ih. \<exists>t. map_get (torrents (ct_db ct)) ih = Some t \<and> is_match (se_fts env) (query_param q) t}"

text \<open>The executor visits every row of the table once.\<close>

definition visits_all :: "search_env \<Rightarrow> bool" where
  "visits_all env \<longleftrightarrow> (\<forall>xs. mset (se_arrange env xs) = mset xs)"

lemma guid_search_item: "xi_guid (new_xml_item fmt (search_item r)) = fst r"
  by (simp add: new_xml_item_def search_item_def torrent_item_of_def Let_def)

lemma parse_int_itoa: "- (2 ^ 63) \<le> n \<Longrightarrow> n < 2 ^ 63 \<Longrightarrow> parse_int (itoa n) d = n"
  by (simp add: parse_int_def itoa_not_empty atoi_itoa)

lemma search_response:
  assumes "- (2 ^ 63) \<le> limit" "limit < 2 ^ 63" "- (2 ^ 63) \<le> off" "off < 2 ^ 63"
  shows "handle_torznab env (search_query q limit off) ct =
    feed_response (feed_of env search_item
      (if param_ok (query_param q) then page (int32 off) (int32 (page_limit limit)) (ranked env q ct) else None))"
  using assms
  by (simp add: handle_torznab_def handle_torznab_search_def search_query_def query_get_def parse_int_itoa search_def
      search_all_def ranked_def)

lemma feed_guids_response:
  "feed_guids (feed_response (feed_of env search_item rows)) =
     (if se_up env then case rows of None \<Rightarrow> [] | Some rs \<Rightarrow> map fst rs else [])"
  by (simp add: feed_guids_def feed_response_def feed_of_def write_xml_error_def write_xml_def new_xml_rss_def
      guid_search_item comp_def split: option.split)

lemma search_guids:
  assumes "se_up env" "text_ok q" "0 < limit" "limit < 2 ^ 31" "0 \<le> off" "off < 2 ^ 31"
  shows "feed_guids (handle_torznab env (search_query q limit off) ct) =
    map fst (take (nat limit) (drop (nat off) (ranked env q ct)))"
proof -
  have "param_ok (query_param q)" using assms(2) by (simp add: param_ok_def query_param_def)
  moreover have "int32 off = off" "int32 (page_limit limit) = limit"
    using assms by (simp_all add: int32_id page_limit_def)
  ultimately show ?thesis using assms by (simp add: search_response feed_guids_response page_def)
qed

lemma search_default_guids:
  assumes "se_up env" "text_ok q"
  shows "feed_guids (handle_torznab env [(''t'', asc ''search''), (''q'', q)] ct) = map fst (take 100 (ranked env q ct))"
proof -
  have "param_ok (query_param q)" using assms(2) by (simp add: param_ok_def query_param_def)
  then have "handle_torznab env [(''t'', asc ''search''), (''q'', q)] ct =
      feed_response (feed_of env search_item (page 0 100 (ranked env q ct)))"
    by (simp add: handle_torznab_def handle_torznab_search_def query_get_def parse_int_def search_def search_all_def
        ranked_def page_limit_def int32_id)
  then show ?thesis using assms(1) by (simp add: feed_guids_response page_def)
qed

lemma set_ranked:
  assumes "visits_all env"
  shows "set (ranked env q ct) = {r \<in> set (torrents (ct_db ct)). is_match (se_fts env) (query_param q) (snd r)}"
proof -
  have "set (se_arrange env (torrents (ct_db ct))) = set (torrents (ct_db ct))"
    using assms mset_eq_setD unfolding visits_all_def by blast
  then show ?thesis by (auto simp: ranked_def)
qed

lemma distinct_ranked:
  assumes "visits_all env" "wf_map (torrents (ct_db ct))"
  shows "distinct (map fst (ranked env q ct))"
proof -
  have "mset (map fst (se_arrange env (torrents (ct_db ct)))) = mset (map fst (torrents (ct_db ct)))"
    using assms(1) by (simp add: visits_all_def)
  then have "distinct (map fst (se_arrange env (torrents (ct_db ct))))"
    using assms(2) unfolding wf_map_def map_keys_def by (metis mset_eq_imp_distinct_iff)
  then have "distinct (map fst (filter (\<lambda>r. is_match (se_fts env) (query_param q) (snd r)) (se_arrange env (torrents (ct_db ct)))))"
    by (rule distinct_map_filter)
  then show ?thesis unfolding ranked_def by_seeders_def by (metis distinct_map_sort_key)
qed

lemma found_ranked:
  assumes "visits_all env" "wf_map (torrents (ct_db ct))"
  shows "fst ` set (ranked env q ct) = found env q ct"
  using assms(2) unfolding set_ranked[OF assms(1)] found_def wf_map_def map_keys_def
  by (force dest: map_of_SomeD)

lemma concat_pages: "concat (map (\<lambda>k. take L (drop (k * L) xs)) [0..<n]) = take (n * L) xs"
proof (induction n)
  case (Suc n)
  have "take (Suc n * L) xs = take (n * L + L) xs" by (simp add: add.commute)
  then show ?case using Suc by (simp add: take_add)
qed simp

lemma sorted_seeders_ranked:
  assumes "visits_all env" "wf_map (torrents (ct_db ct))"
  shows "sorted_wrt (\<lambda>g h. tr_seeders (the (map_get (torrents (ct_db ct)) g)) \<ge> tr_seeders (the (map_get (torrents (ct_db ct)) h)))
    (map fst (ranked env q ct))"
proof -
  have "map_get (torrents (ct_db ct)) (fst r) = Some (snd r)" if "r \<in> set (ranked env q ct)" for r
  proof -
    from that have "(fst r, snd r) \<in> set (torrents (ct_db ct))" by (simp add: set_ranked[OF assms(1)])
    then show ?thesis using assms(2) unfolding wf_map_def map_keys_def by (rule map_of_is_SomeI[rotated])
  qed
  moreover have "sorted_wrt (\<lambda>r s. tr_seeders (snd r) \<ge> tr_seeders (snd s)) (ranked env q ct)"
    unfolding ranked_def using sorted_by_seeders[where entry = id] by simp
  ultimately show ?thesis unfolding sorted_wrt_map by (fastforce intro: sorted_wrt_mono_rel[rotated])
qed

text \<open>
  C26. Paging through a search meets every active torrent that matches exactly once, those with most seeders
  first, as long as the executor keeps the order of its rows and the offsets stay below \<open>2\<^sup>3\<^sup>1\<close>.
\<close>

theorem paging_complete:
  assumes "visits_all env" "se_up env" "text_ok q" "db_reachable ct"
    and "0 < limit" "limit < 2 ^ 31" "int n * limit \<le> 2 ^ 31" "length (ranked env q ct) \<le> n * nat limit"
  shows "let gs = concat (map (\<lambda>k. feed_guids (handle_torznab env (search_query q limit (int k * limit)) ct)) [0..<n]) in
    distinct gs \<and> set gs = found env q ct \<and>
    sorted_wrt (\<lambda>g h. tr_seeders (the (map_get (torrents (ct_db ct)) g)) \<ge> tr_seeders (the (map_get (torrents (ct_db ct)) h))) gs"
proof -
  have wf: "wf_map (torrents (ct_db ct))" using reachable_ok[OF assms(4)] by (simp add: db_ok_def Let_def keys_ok_def)
  have pg: "feed_guids (handle_torznab env (search_query q limit (int k * limit)) ct) =
      take (nat limit) (drop (k * nat limit) (map fst (ranked env q ct)))" if "k < n" for k
  proof -
    have "(int k + 1) * limit \<le> int n * limit" using that assms(5) by (intro mult_right_mono) simp_all
    then have "int k * limit + limit \<le> 2 ^ 31" using assms(7) by (simp add: distrib_right)
    then have "int k * limit < 2 ^ 31" using assms(5) by linarith
    moreover have "nat (int k * limit) = k * nat limit" using assms(5) by (simp add: nat_mult_distrib)
    ultimately show ?thesis using assms by (simp add: search_guids take_map drop_map)
  qed
  have "concat (map (\<lambda>k. feed_guids (handle_torznab env (search_query q limit (int k * limit)) ct)) [0..<n]) =
      concat (map (\<lambda>k. take (nat limit) (drop (k * nat limit) (map fst (ranked env q ct)))) [0..<n])"
    using pg by (intro arg_cong[where f = concat] map_cong) simp_all
  also have "\<dots> = map fst (ranked env q ct)" using assms(8) unfolding concat_pages by simp
  finally show ?thesis
    using distinct_ranked[OF assms(1) wf] found_ranked[OF assms(1) wf] sorted_seeders_ranked[OF assms(1) wf]
    by (simp add: Let_def)
qed


text \<open>A catalogue of two active torrents with as many seeders.\<close>

definition sample_row :: "runes \<Rightarrow> torrent_row" where
  "sample_row name =
     \<lparr>tr_name = name, tr_total_size = 7, tr_file_count = 1, tr_state = Active, tr_content_type = Unknown_Type,
      tr_fields = no_fields, tr_seeders = 0, tr_leechers = 0, tr_scrape_at = None, tr_first_seen = 5, tr_last_seen = None\<rparr>"

definition sample_shelf :: catalog where
  "sample_shelf = empty_catalog\<lparr>ct_db := (ct_db empty_catalog)\<lparr>torrents := [(''0a'', sample_row [97]), (''0b'', sample_row [98])]\<rparr>\<rparr>"

lemma sample_shelf_reachable: "db_reachable sample_shelf"
proof -
  have "exec_statements [Upsert_Pending 5 ''0a'' [97] 7 1, Update_State ''0a'' Active,
      Upsert_Pending 5 ''0b'' [98] 7 1, Update_State ''0b'' Active] empty_catalog = Some sample_shelf"
    by (simp add: sample_shelf_def empty_catalog_def on_db_def upsert_torrent_pending_def update_torrent_state_def
        sample_row_def text_ok_def)
  with migrated show ?thesis by (rule exec_statements_reachable)
qed

definition search_env_of :: "arrangement \<Rightarrow> search_env" where
  "search_env_of arrange = \<lparr>se_fts = (\<lambda>_ _. True), se_arrange = arrange, se_up = True, se_format = (\<lambda>_. []), se_route = (\<lambda>_ _. (False, Other_Path))\<rparr>"

lemma sample_ranked:
  "ranked (search_env_of id) [97] sample_shelf = [(''0a'', sample_row [97]), (''0b'', sample_row [98])]"
  "ranked (search_env_of rev) [97] sample_shelf = [(''0b'', sample_row [98]), (''0a'', sample_row [97])]"
  by (simp_all add: ranked_def search_env_of_def sample_shelf_def is_match_def sample_row_def query_param_def by_seeders_def)

lemma sample_up: "se_up (search_env_of a)" "text_ok [97]"
  by (simp_all add: search_env_of_def text_ok_def)

theorem paging_complete_witness:
  "set (concat (map (\<lambda>k. feed_guids (handle_torznab (search_env_of id) (search_query [97] 1 (int k * 1)) sample_shelf)) [0..<2])) =
     found (search_env_of id) [97] sample_shelf"
proof -
  have v: "visits_all (search_env_of id)" by (simp add: visits_all_def search_env_of_def)
  have b: "int 2 * 1 \<le> (2::int) ^ 31" "(1::int) < 2 ^ 31" "(0::int) < 1" by simp_all
  have l: "length (ranked (search_env_of id) [97] sample_shelf) \<le> 2 * nat 1" by (simp add: sample_ranked)
  from paging_complete[OF v sample_up sample_shelf_reachable b(3,2,1) l] show ?thesis by (simp only: Let_def)
qed

text \<open>
  SQL may return rows that the ordering does not distinguish in another order for every request, and the
  searches order by the seeders alone: of two torrents with as many seeders the first page shows one, the second
  page the same one again, and the other is never shown.
\<close>

theorem tied_pages_skip:
  "let page1 = feed_guids (handle_torznab (search_env_of id) (search_query [97] 1 0) sample_shelf);
       page2 = feed_guids (handle_torznab (search_env_of rev) (search_query [97] 1 1) sample_shelf)
   in visits_all (search_env_of id) \<and> visits_all (search_env_of rev) \<and> db_reachable sample_shelf \<and>
      page1 = [''0a''] \<and> page2 = [''0a''] \<and> found (search_env_of id) [97] sample_shelf = {''0a'', ''0b''}"
proof -
  have v: "visits_all (search_env_of id)" "visits_all (search_env_of rev)" by (simp_all add: visits_all_def search_env_of_def)
  have f: "found (search_env_of id) [97] sample_shelf = {''0a'', ''0b''}"
    using reachable_ok[OF sample_shelf_reachable]
    by (subst found_ranked[OF v(1), symmetric]) (simp_all add: sample_ranked db_ok_def Let_def keys_ok_def)
  have "feed_guids (handle_torznab (search_env_of id) (search_query [97] 1 0) sample_shelf) = [''0a'']"
    "feed_guids (handle_torznab (search_env_of rev) (search_query [97] 1 1) sample_shelf) = [''0a'']"
    using sample_up by (simp_all add: search_guids sample_ranked)
  with v f sample_shelf_reachable show ?thesis by (simp only: Let_def)
qed

text \<open>
  How many items an answer has: the capabilities announce at most 100 and 50 by default, but a request gets as
  many as it asks for, and 100 when it names no limit.
\<close>

theorem announced_limits_ignored:
  assumes "se_up env" "text_ok q" "0 < limit" "limit < 2 ^ 31"
  shows "length (feed_guids (handle_torznab env (search_query q limit 0) ct)) = min (nat limit) (length (ranked env q ct)) \<and>
    length (feed_guids (handle_torznab env [(''t'', asc ''search''), (''q'', q)] ct)) = min 100 (length (ranked env q ct)) \<and>
    handle_torznab env [(''t'', asc ''caps'')] ct = write_xml 200 (Xml_Caps service_caps) \<and>
    xc_max service_caps = 100 \<and> xc_default service_caps = 50"
proof -
  have "length (feed_guids (handle_torznab env [(''t'', asc ''search''), (''q'', q)] ct)) = min 100 (length (ranked env q ct))"
    using assms by (simp add: search_default_guids del: asc_Cons)
  moreover have "xc_max service_caps = 100 \<and> xc_default service_caps = 50"
    by (simp add: service_caps_def new_xml_caps_def caps_def Let_def)
  moreover have "handle_torznab env [(''t'', asc ''caps'')] ct = write_xml 200 (Xml_Caps service_caps)"
    by (simp add: handle_torznab_def query_get_def)
  ultimately show ?thesis using assms by (simp add: search_guids)
qed

theorem announced_limits_ignored_witness:
  "length (feed_guids (handle_torznab (search_env_of id) (search_query [97] 1000 0) sample_shelf)) = 2 \<and> xc_max service_caps = 100"
  using announced_limits_ignored[OF sample_up, of 1000 id sample_shelf] by (simp add: sample_ranked)

text \<open>
  Offsets are converted to 32 bits: an offset of \<open>2\<^sup>3\<^sup>2\<close> more gives the same page, and one between \<open>2\<^sup>3\<^sup>1\<close> and \<open>2\<^sup>3\<^sup>2\<close>
  is answered with a server error.
\<close>

theorem offset_wraps:
  assumes "0 \<le> off" "off < 2 ^ 32" "- (2 ^ 63) \<le> limit" "limit < 2 ^ 63"
  shows "handle_torznab env (search_query q limit (off + 2 ^ 32)) ct = handle_torznab env (search_query q limit off) ct \<and>
    (2 ^ 31 \<le> off \<longrightarrow> handle_torznab env (search_query q limit off) ct = write_xml_error 500 300 (asc ''search failed''))"
proof
  show "handle_torznab env (search_query q limit (off + 2 ^ 32)) ct = handle_torznab env (search_query q limit off) ct"
    using assms by (subst (1 2) search_response) (simp_all only: int32_wraps, simp_all)
  show "2 ^ 31 \<le> off \<longrightarrow> handle_torznab env (search_query q limit off) ct = write_xml_error 500 300 (asc ''search failed'')"
  proof
    assume h: "2 ^ 31 \<le> off"
    have "int32 off = off - 2 ^ 32"
      using int32_wraps[of "off - 2 ^ 32"] int32_id[of "off - 2 ^ 32"] h assms by simp
    with assms have "int32 off < 0" by simp
    with assms show "handle_torznab env (search_query q limit off) ct = write_xml_error 500 300 (asc ''search failed'')"
      by (simp add: search_response page_def feed_of_def feed_response_def del: asc_Cons)
  qed
qed

theorem offset_wraps_witness:
  "feed_guids (handle_torznab (search_env_of id) (search_query [97] 1 (1 + 2 ^ 32)) sample_shelf) = [''0b'']"
proof -
  have "handle_torznab (search_env_of id) (search_query [97] 1 (1 + 2 ^ 32)) sample_shelf =
      handle_torznab (search_env_of id) (search_query [97] 1 1) sample_shelf"
    using offset_wraps[of 1 1] by simp
  moreover have "feed_guids (handle_torznab (search_env_of id) (search_query [97] 1 1) sample_shelf) = [''0b'']"
    using sample_up by (simp add: search_guids sample_ranked)
  ultimately show ?thesis by (simp only:)
qed

subsection \<open>What an item says\<close>

definition advertised :: "xml_caps \<Rightarrow> runes set" where
  "advertised c = (\<Union>y \<in> set (xc_categories c). insert (itoa (cy_id y)) (itoa ` fst ` set (cy_subs y)))"

text \<open>An item describes a torrent of the database: an active one, and under categories of the capabilities.\<close>

definition describes :: "catalog \<Rightarrow> xml_item \<Rightarrow> bool" where
  "describes ct x \<longleftrightarrow> (\<exists>t. map_get (torrents (ct_db ct)) (xi_guid x) = Some t \<and> tr_state t = Active \<and>
     xi_title x = tr_name t \<and> xi_size x = tr_total_size t \<and> xi_enclosure_length x = tr_total_size t \<and>
     xi_link x = magnet_url (xi_guid x) (tr_name t) \<and> xi_enclosure_url x = xi_link x \<and>
     [v. (k, v) \<leftarrow> xi_attrs x, k = ''seeders''] = [itoa (tr_seeders t)] \<and>
     [v. (k, v) \<leftarrow> xi_attrs x, k = ''leechers''] = [itoa (tr_leechers t)] \<and>
     [v. (k, v) \<leftarrow> xi_attrs x, k = ''infohash''] = [asc (xi_guid x)] \<and>
     {v. (''category'', v) \<in> set (xi_attrs x)} \<noteq> {} \<and> {v. (''category'', v) \<in> set (xi_attrs x)} \<subseteq> advertised service_caps)"

lemma advertised_caps:
  "advertised service_caps = itoa ` {2000, 2030, 2040, 2045, 2050, 2010, 2020, 2060, 5000, 5030, 5040, 5045, 5070, 5080}"
  by (simp add: advertised_def service_caps_def new_xml_caps_def caps_def Let_def) blast

lemma optional_attrs: "k \<noteq> n \<Longrightarrow> [v. (k', v) \<leftarrow> text_attr n x, k' = k] = []" "k \<noteq> n \<Longrightarrow> [v. (k', v) \<leftarrow> number_attr n i, k' = k] = []"
  by (simp_all add: text_attr_def number_attr_def torznab_attr_def)

lemma category_attrs: "(''category'', v) \<in> set (text_attr n x) \<longleftrightarrow> n = ''category'' \<and> x \<noteq> [] \<and> v = x"
  "(''category'', v) \<in> set (number_attr n i) \<longleftrightarrow> n = ''category'' \<and> 0 < i \<and> v = itoa i"
  by (auto simp: text_attr_def number_attr_def torznab_attr_def)


abbreviation category_ids :: "int set" where
  "category_ids \<equiv> {2000, 2030, 2040, 2045, 2050, 2010, 2020, 2060, 5000, 5030, 5040, 5045, 5070, 5080}"

lemma describes_item:
  assumes "map_get (torrents (ct_db ct)) (ti_infohash i) = Some t" "tr_state t = Active"
    and "ti_title i = tr_name t" "ti_magnet_url i = magnet_url (ti_infohash i) (tr_name t)" "ti_size i = tr_total_size t"
    and "ti_seeders i = tr_seeders t" "ti_leechers i = tr_leechers t"
    and "ti_categories i \<noteq> []" "set (ti_categories i) \<subseteq> category_ids"
  shows "describes ct (new_xml_item fmt i)"
proof -
  let ?x = "new_xml_item fmt i"
  have no_cat: "[v. (k', v) \<leftarrow> map (\<lambda>c. torznab_attr ''category'' (itoa c)) cs, k' = k] = []" if "k \<noteq> ''category''" for k and cs :: "int list"
    using that by (induction cs) (simp_all add: torznab_attr_def)
  have one: "[v. (k, v) \<leftarrow> xi_attrs ?x, k = ''seeders''] = [itoa (tr_seeders t)]"
    "[v. (k, v) \<leftarrow> xi_attrs ?x, k = ''leechers''] = [itoa (tr_leechers t)]"
    "[v. (k, v) \<leftarrow> xi_attrs ?x, k = ''infohash''] = [asc (ti_infohash i)]"
    using assms(6,7) by (simp_all add: new_xml_item_def optional_attrs no_cat) (simp_all add: torznab_attr_def)
  have cats: "{v. (''category'', v) \<in> set (xi_attrs ?x)} = itoa ` set (ti_categories i)"
    by (auto simp: new_xml_item_def category_attrs) (auto simp: torznab_attr_def)
  have "itoa ` set (ti_categories i) \<subseteq> advertised service_caps" unfolding advertised_caps using assms(9) by (rule image_mono)
  moreover have "itoa ` set (ti_categories i) \<noteq> {}" using assms(8) by simp
  moreover have "xi_guid ?x = ti_infohash i" "xi_title ?x = tr_name t" "xi_size ?x = tr_total_size t"
    "xi_enclosure_length ?x = tr_total_size t" "xi_link ?x = magnet_url (ti_infohash i) (tr_name t)" "xi_enclosure_url ?x = xi_link ?x"
    using assms by (simp_all add: new_xml_item_def)
  ultimately show ?thesis unfolding describes_def cats using assms(1,2) one by (intro exI[of _ t]) simp
qed

lemma category_sets:
  "infer_movie_categories q \<noteq> [] \<and> set (infer_movie_categories q) \<subseteq> category_ids"
  "infer_tv_categories q \<noteq> [] \<and> set (infer_tv_categories q) \<subseteq> category_ids"
  "infer_categories c q \<noteq> [] \<and> set (infer_categories c q) \<subseteq> category_ids"
proof -
  show m: "infer_movie_categories q \<noteq> [] \<and> set (infer_movie_categories q) \<subseteq> category_ids"
    unfolding infer_movie_categories_def by (simp split: if_split)
  show t: "infer_tv_categories q \<noteq> [] \<and> set (infer_tv_categories q) \<subseteq> category_ids"
    unfolding infer_tv_categories_def by (simp split: if_split)
  show "infer_categories c q \<noteq> [] \<and> set (infer_categories c q) \<subseteq> category_ids"
    unfolding infer_categories_def using m t by (simp add: infer_anime_categories_def split: if_split)
qed

lemma describes_rows:
  assumes "map_get (torrents (ct_db ct)) (fst r) = Some (snd r)" "tr_state (snd r) = Active"
  shows "describes ct (new_xml_item fmt (search_item r))"
    "describes ct (new_xml_item fmt (movie_item (r, m)))" "describes ct (new_xml_item fmt (tv_item (r, e)))"
  by (rule describes_item[where t = "snd r"];
      use assms category_sets in \<open>simp add: search_item_def movie_item_def tv_item_def torrent_item_of_def Let_def\<close>)+

lemma feed_items:
  assumes "rs_body (feed_response (feed_of env item rows)) = Xml_Rss rss" "x \<in> set (xr_items rss)"
  obtains rs r where "rows = Some rs" "r \<in> set rs" "x = new_xml_item (se_format env) (item r)"
  using assms
  by (auto simp: feed_response_def feed_of_def write_xml_error_def write_xml_def new_xml_rss_def split: option.splits if_splits)

text \<open>
  C27. Whatever the request and the database, every item of a feed describes an active torrent of the database: its title,
  size, link and counts are those of the row, and its categories are categories the capabilities announce.
\<close>

theorem items_describe_torrents:
  assumes "db_reachable ct" "visits_all env"
    and "rs_body (handle_torznab env q ct) = Xml_Rss rss" "x \<in> set (xr_items rss)"
  shows "describes ct x"
proof -
  have wf: "wf_map (torrents (ct_db ct))" using reachable_ok[OF assms(1)] by (simp add: db_ok_def Let_def keys_ok_def)
  have visited: "map_get (torrents (ct_db ct)) (fst r) = Some (snd r)" if "r \<in> set (se_arrange env (torrents (ct_db ct)))" for r
  proof -
    have "set (se_arrange env (torrents (ct_db ct))) = set (torrents (ct_db ct))"
      using assms(2) mset_eq_setD unfolding visits_all_def by blast
    with that have "(fst r, snd r) \<in> set (torrents (ct_db ct))" by simp
    with wf show ?thesis unfolding wf_map_def map_keys_def by (rule map_of_is_SomeI)
  qed
  from assms(3) consider
      "rs_body (handle_torznab_search env q ct) = Xml_Rss rss"
    | "rs_body (handle_torznab_movie_search env q ct) = Xml_Rss rss"
    | "rs_body (handle_torznab_tv_search env q ct) = Xml_Rss rss"
    by (auto simp: handle_torznab_def Let_def write_xml_def write_xml_error_def simp del: asc_Cons split: if_splits)
  then show ?thesis
  proof cases
    case 1
    then show ?thesis using assms(4) visited
      unfolding handle_torznab_search_def search_def
      by (elim feed_items) (auto simp: search_all_def is_match_def intro!: describes_rows dest!: set_page split: if_splits)
  next
    case 2
    then show ?thesis using assms(4) visited
      unfolding handle_torznab_movie_search_def search_movie_feed_def
      by (auto simp: search_movies_def get_movies_by_imdb_def is_match_def set_join_rows intro!: describes_rows
          elim!: feed_items dest!: set_page split: if_splits)
  next
    case 3
    then show ?thesis using assms(4) visited
      unfolding handle_torznab_tv_search_def search_tv_feed_def
      by (auto simp: search_tv_def get_tv_by_imdb_def is_match_def set_join_rows intro!: describes_rows
          elim!: feed_items dest!: set_page split: if_splits)
  qed
qed


theorem items_describe_torrents_witness:
  "\<exists>rss x. rs_body (handle_torznab (search_env_of id) (search_query [97] 1 0) sample_shelf) = Xml_Rss rss \<and>
     x \<in> set (xr_items rss) \<and> describes sample_shelf x"
proof -
  let ?r = "handle_torznab (search_env_of id) (search_query [97] 1 0) sample_shelf"
  have "feed_guids ?r = [''0a'']" using sample_up by (simp add: search_guids sample_ranked)
  then obtain rss x where rss: "rs_body ?r = Xml_Rss rss" "x \<in> set (xr_items rss)"
    by (auto simp: feed_guids_def split: body.splits)
  have "visits_all (search_env_of id)" by (simp add: visits_all_def search_env_of_def)
  from items_describe_torrents[OF sample_shelf_reachable this rss] rss show ?thesis by blast
qed

text \<open>
  C36. Nothing in the program writes the enrichment tables that movie and series searches join with, so these
  searches never find anything, whatever is stored.
\<close>

theorem movie_and_tv_searches_empty:
  assumes "db_reachable ct" "query_get q ''t'' \<in> {asc ''movie'', asc ''tvsearch''}"
  shows "feed_guids (handle_torznab env q ct) = []"
proof -
  have empty: "ct_movies ct = []" "ct_tv ct = []" using reachable_ok[OF assms(1)] by (simp_all add: db_ok_def Let_def)
  have none: "feed_guids (feed_response (feed_of env item rows)) = []" if "rows = None \<or> rows = Some []"
    for item :: "'r \<Rightarrow> torrent_item" and rows
    using that by (auto simp: feed_guids_def feed_response_def feed_of_def write_xml_error_def write_xml_def new_xml_rss_def)
  have "page off lim [] = None \<or> page off lim [] = Some []" for off lim and xs :: "'r list" by (simp add: page_def)
  then show ?thesis
    using assms(2) empty
    by (auto simp: handle_torznab_def handle_torznab_movie_search_def handle_torznab_tv_search_def search_movie_feed_def
        search_tv_feed_def search_movies_def search_tv_def get_movies_by_imdb_def get_tv_by_imdb_def page_def
        intro!: none)
qed

theorem movie_and_tv_searches_empty_witness:
  "feed_guids (handle_torznab (search_env_of id) [(''t'', asc ''movie''), (''q'', [97])] sample_shelf) = [] \<and>
   feed_guids (handle_torznab (search_env_of id) [(''t'', asc ''search''), (''q'', [97])] sample_shelf) \<noteq> []"
proof
  show "feed_guids (handle_torznab (search_env_of id) [(''t'', asc ''movie''), (''q'', [97])] sample_shelf) = []"
    by (rule movie_and_tv_searches_empty[OF sample_shelf_reachable]) (simp add: query_get_def)
  show "feed_guids (handle_torznab (search_env_of id) [(''t'', asc ''search''), (''q'', [97])] sample_shelf) \<noteq> []"
    using sample_up by (simp add: search_default_guids sample_ranked del: asc_Cons)
qed

end
