(* ===== verification/Api_Client.thy ===== *)
theory Api_Client
  imports Api_Correct
begin

section \<open>Client and server together\<close>

text \<open>
  The methods of the client run against the handlers of the server, over a connection that delivers every
  request.
\<close>

definition direct :: "search_env \<Rightarrow> catalog sender" where
  "direct env r ct = (case serve env r ct of (resp, ct') \<Rightarrow> (Some resp, ct'))"

lemma direct_simps [simp]: "direct env r ct = (Some (fst (serve env r ct)), snd (serve env r ct))"
  by (simp add: direct_def split: prod.split)

subsection \<open>Listing\<close>

lemma number_param_itoa:
  "- (2 ^ 63) \<le> n \<Longrightarrow> n < 2 ^ 63 \<Longrightarrow> number_param (itoa n) least d = (if n < least then None else Some n)"
  by (simp add: number_param_def itoa_not_empty atoi_itoa)

lemma list_through_client:
  assumes "lq_limit p < 2 ^ 63" "- (2 ^ 63) \<le> lq_offset p" "lq_offset p < 2 ^ 63"
  shows "client_list_torrents (direct env) p ct =
    (if lq_offset p < 0 then Inl (Http_Status 400)
     else case list_rows env (p\<lparr>lq_limit := (if lq_limit p \<le> 0 then 50 else lq_limit p)\<rparr>) ct of
       Inl e \<Rightarrow> Inl (Http_Status 500)
     | Inr rows \<Rightarrow> Inr (map client_torrent_of rows), ct)"
proof -
  define limit where "limit = (if lq_limit p \<le> 0 then 50 else lq_limit p)"
  have l: "- (2 ^ 63) \<le> limit" "limit < 2 ^ 63" "\<not> limit < 1" using assms(1) by (simp_all add: limit_def)
  define q where "q = [(''limit'', itoa limit), (''offset'', itoa (lq_offset p))] @
    (if lq_state p \<noteq> [] then [(''state'', lq_state p)] else []) @
    (if lq_content_type p \<noteq> [] then [(''content_type'', lq_content_type p)] else [])"
  have g: "query_get q ''limit'' = itoa limit" "query_get q ''offset'' = itoa (lq_offset p)"
    "query_get q ''state'' = lq_state p" "query_get q ''content_type'' = lq_content_type p"
    by (simp_all add: q_def query_get_def)
  have rec: "\<lparr>lq_limit = limit, lq_offset = lq_offset p, lq_state = lq_state p, lq_content_type = lq_content_type p\<rparr> = p\<lparr>lq_limit := limit\<rparr>"
    by simp
  have h: "handle_list_torrents env q ct =
      (if lq_offset p < 0 then write_json 400 (Json_Error ''invalid offset'')
       else case list_rows env (p\<lparr>lq_limit := limit\<rparr>) ct of
         Inl e \<Rightarrow> write_json 500 (Json_Error ''internal server error'') | Inr rows \<Rightarrow> write_json 200 (Json_Rows rows))"
    using l assms unfolding handle_list_torrents_def g by (simp add: number_param_itoa rec)
  have "client_list_torrents (direct env) p ct =
      (let r = handle_list_torrents env q ct in
       if rs_status r \<noteq> 200 then Inl (Http_Status (rs_status r))
       else case rs_body r of Json_Rows rows \<Rightarrow> Inr (map client_torrent_of rows) | _ \<Rightarrow> Inl Decode_Error, ct)"
    unfolding client_list_torrents_def limit_def[symmetric] Let_def q_def[symmetric] by (simp add: serve_def routed_def)
  then show ?thesis
    unfolding h limit_def[symmetric] by (simp add: write_json_def Let_def split: sum.split)
qed

text \<open>
  C28. Listing through client and server gives the rows of the database query, in its order: the parameters survive
  the way through the query string. A limit of zero or less becomes 50; a negative offset is refused.
\<close>

theorem client_lists_rows:
  assumes "lq_limit p < 2 ^ 63" "- (2 ^ 63) \<le> lq_offset p" "lq_offset p < 2 ^ 63"
  shows "client_list_torrents (direct env) p ct =
    (if lq_offset p < 0 then Inl (Http_Status 400)
     else case list_rows env (p\<lparr>lq_limit := (if lq_limit p \<le> 0 then 50 else lq_limit p)\<rparr>) ct of
       Inl e \<Rightarrow> Inl (Http_Status 500)
     | Inr rows \<Rightarrow> Inr (map client_torrent_of rows), ct)"
  using assms by (rule list_through_client)

theorem client_lists_rows_witness:
  "client_list_torrents (direct (search_env_of id))
     \<lparr>lq_limit = 0, lq_offset = 1, lq_state = asc ''active'', lq_content_type = []\<rparr> sample_shelf =
   (Inr [client_torrent_of (''0b'', sample_row [98])], sample_shelf)"
proof -
  let ?p = "\<lparr>lq_limit = 0, lq_offset = 1, lq_state = asc ''active'', lq_content_type = []\<rparr>"
  have "parse_state (asc ''active'') = Some Active" using parse_state_label[of Active] by simp
  then have "list_rows (search_env_of id) (?p\<lparr>lq_limit := 50\<rparr>) sample_shelf = Inr [(''0b'', sample_row [98])]"
    by (simp add: list_rows_def list_torrents_def query_param_def search_env_of_def sample_shelf_def sample_row_def
        page_def int32_id del: asc_Cons)
  with client_lists_rows[of ?p "search_env_of id" sample_shelf] show ?thesis by simp
qed

subsection \<open>Changing\<close>

lemma valid_state_label: "st \<in> set valid_states \<Longrightarrow> \<exists>s. parse_state (asc st) = Some s \<and> state_label s = st"
proof -
  assume "st \<in> set valid_states"
  then have "st = state_label Pending \<or> st = state_label Classified \<or> st = state_label Enriched \<or>
      st = state_label Active \<or> st = state_label Dead \<or> st = state_label Rejected"
    by (simp add: valid_states_def)
  then obtain s where "st = state_label s" by blast
  then show ?thesis by (intro exI[of _ s]) (simp only: parse_state_label)
qed

lemma client_update:
  assumes "se_up env" "st \<in> set valid_states" "plain_segment ih"
  obtains s where "parse_state (asc st) = Some s" "state_label s = st"
    "client_update_state (direct env) ih st ct = (None, update_torrent_state ih s ct)"
proof -
  from assms(2) obtain s where s: "parse_state (asc st) = Some s" "state_label s = st" using valid_state_label by blast
  have "asc st \<noteq> []" using assms(2) by (auto simp: valid_states_def)
  with assms s have "client_update_state (direct env) ih st ct = (None, update_torrent_state ih s ct)"
    by (simp add: client_update_state_def serve_def routed_def handle_update_torrent_def set_torrent_state_def write_json_def)
  with s that show thesis by blast
qed

lemma updated_row:
  "map_get (torrents (ct_db (update_torrent_state ih s ct))) ih = map_option (\<lambda>t. t\<lparr>tr_state := s\<rparr>) (map_get (torrents (ct_db ct)) ih)"
  by (simp add: update_torrent_state_def go_map split: option.split)

text \<open>
  A state the client accepts is a state the server accepts, and after the change a read gives the torrent with
  that state and nothing else changed. For an infohash (letters and digits) that is not in the database the change succeeds as well,
  without an effect, and the read says that the torrent is missing.
\<close>

theorem client_update_then_get:
  assumes "se_up env" "st \<in> set valid_states" "plain_segment ih"
  shows "\<exists>ct'. client_update_state (direct env) ih st ct = (None, ct') \<and>
    client_get_torrent (direct env) ih ct' =
      (case map_get (torrents (ct_db ct)) ih of
         None \<Rightarrow> Inl Torrent_Missing
       | Some t \<Rightarrow> Inr ((client_torrent_of (ih, t))\<lparr>cl_torrent_state := st\<rparr>), ct')"
proof -
  from assms obtain s where s: "state_label s = st"
    and u: "client_update_state (direct env) ih st ct = (None, update_torrent_state ih s ct)" by (rule client_update)
  let ?ct' = "update_torrent_state ih s ct"
  have "client_get_torrent (direct env) ih ?ct' =
      (case map_get (torrents (ct_db ct)) ih of
         None \<Rightarrow> Inl Torrent_Missing
       | Some t \<Rightarrow> Inr ((client_torrent_of (ih, t))\<lparr>cl_torrent_state := st\<rparr>), ?ct')"
    using assms(1,3) updated_row[of ih s ct] s
    by (simp add: client_get_torrent_def serve_def routed_def handle_get_torrent_def get_torrent_def get_torrent_by_infohash_def
        write_json_def client_torrent_of_def Let_def split: option.split)
  with u show ?thesis by blast
qed

theorem client_update_then_get_witness:
  "\<exists>ct'. client_update_state (direct (search_env_of id)) ''0a'' ''dead'' sample_shelf = (None, ct') \<and>
     client_get_torrent (direct (search_env_of id)) ''0a'' ct' =
       (Inr ((client_torrent_of (''0a'', sample_row [97]))\<lparr>cl_torrent_state := ''dead''\<rparr>), ct')"
  using client_update_then_get[of "search_env_of id" "''dead''" "''0a''" sample_shelf]
  by (simp add: valid_states_def search_env_of_def sample_shelf_def plain_segment_def)

definition mentions :: "string \<Rightarrow> torrent_db \<Rightarrow> bool" where
  "mentions ih db \<longleftrightarrow> ih \<in> infohashes db \<or> ih \<in> fl_infohash ` set (torrent_files db) \<or>
     ih \<in> fst ` fst ` set (torrent_trackers db) \<or> ih \<in> hr_infohash ` set (scrape_history db)"

lemma client_delete: "se_up env \<Longrightarrow> plain_segment ih \<Longrightarrow> client_delete_torrent (direct env) ih ct = (None, delete_torrent ih ct)"
  by (simp add: client_delete_torrent_def serve_def routed_def handle_delete_torrent_def remove_torrent_def write_json_def)

lemma delete_reaches: "db_reachable ct \<Longrightarrow> db_reachable (delete_torrent ih ct)"
  by (rule executed[of ct "Delete_Torrent ih"]) simp_all

lemma delete_unmentioned: "\<not> mentions ih (ct_db (delete_torrent ih ct))"
  by (auto simp: mentions_def delete_torrent_def Let_def infohashes_keys map_keys_del)



subsection \<open>Any sequence of requests\<close>

text \<open>Requests are operations of a machine whose invariant is that of the database.\<close>

lemma serve_state:
  "snd (serve env r ct) = ct \<or> (\<exists>ih st. snd (serve env r ct) = update_torrent_state ih st ct) \<or>
   (\<exists>ih. snd (serve env r ct) = delete_torrent ih ct)"
proof -
  have "snd (handle_update_torrent env ih st ct) = ct \<or> (\<exists>s. snd (handle_update_torrent env ih st ct) = update_torrent_state ih s ct)"
    for ih st
    by (auto simp: handle_update_torrent_def set_torrent_state_def split: option.splits sum.splits if_splits)
  moreover have "snd (handle_delete_torrent env ih ct) = ct \<or> snd (handle_delete_torrent env ih ct) = delete_torrent ih ct" for ih
    by (auto simp: handle_delete_torrent_def remove_torrent_def split: sum.splits if_splits)
  ultimately show ?thesis
    by (cases "fst (routed env r)"; cases "snd (routed env r)"; cases "routed env r"; simp add: serve_def; blast)
qed

lemma serve_reachable: "db_reachable ct \<Longrightarrow> db_reachable (snd (serve env r ct))"
proof -
  assume ct: "db_reachable ct"
  have "db_reachable (update_torrent_state ih st ct)" for ih st by (rule executed[OF ct, of "Update_State ih st"]) simp
  moreover have "db_reachable (delete_torrent ih ct)" for ih by (rule executed[OF ct, of "Delete_Torrent ih"]) simp
  ultimately show ?thesis using serve_state[of env r ct] ct by (elim disjE exE) (simp_all only:)
qed

interpretation api_db: machine "\<lambda>r ct. snd (serve env r ct)" db_reachable "\<lambda>r. True" for env
  by unfold_locales (rule serve_reachable)

text \<open>A search and a read change nothing, and a sequence of any requests keeps the database to its schema.\<close>

theorem requests_keep_schema:
  assumes "db_reachable ct"
  shows "db_ok (fold (\<lambda>r ct. snd (serve env r ct)) rs ct) \<and>
    (list_all (\<lambda>r. hq_method r = Method_Get) rs \<longrightarrow> fold (\<lambda>r ct. snd (serve env r ct)) rs ct = ct)"
proof
  show "db_ok (fold (\<lambda>r ct. snd (serve env r ct)) rs ct)"
    by (intro reachable_ok api_db.run_inv[OF assms]) (simp add: list_all_iff)
  have get: "hq_method r = Method_Get \<Longrightarrow> snd (serve env r ct) = ct" for r ct
    by (cases "hq_path r") (auto simp: serve_def routed_def split: request_path.split prod.split http_method.split)
  show "list_all (\<lambda>r. hq_method r = Method_Get) rs \<longrightarrow> fold (\<lambda>r ct. snd (serve env r ct)) rs ct = ct"
    by (induction rs) (simp_all add: get)
qed

theorem requests_keep_schema_witness:
  "db_ok (fold (\<lambda>r ct. snd (serve (search_env_of id) r ct))
     [\<lparr>hq_method = Method_Delete, hq_path = Torrent_Path ''0a'', hq_query = [], hq_json_state = None\<rparr>] sample_shelf)"
  using requests_keep_schema[OF sample_shelf_reachable] by blast

end
