(* ===== verification/Go_Regexp.thy ===== *)
theory Go_Regexp
  imports Go_Text
begin

section \<open>Regular expressions (\<^verbatim>\<open>regexp\<close>)\<close>

text \<open>
  The regular expressions of Go as far as the program uses them, with their leftmost-first semantics: of
  the matches that start leftmost the one a backtracking search finds first. \<open>run\<close> lists the ways to match
  in that order. The flag \<open>ci\<close> is \<^verbatim>\<open>(?i)\<close>, which the patterns of the program use for all of a pattern.
\<close>

datatype regex =
  Empty
| Class bool "(rune \<times> rune) list"
| Cat regex regex
| Alt regex regex
| Rep bool nat "nat option" regex
| Group nat regex
| Word_Bound
| Begin_Text
| End_Text

text \<open>
  Case folding by \<^verbatim>\<open>unicode.SimpleFold\<close>: the ASCII letters, and the two further code points that fold to
  one (the Kelvin sign and the long s). \<open>Class neg rs\<close> is the class of the ranges \<open>rs\<close> or its complement.
\<close>

definition orbit :: "rune \<Rightarrow> runes" where
  "orbit r =
     (if r = 75 \<or> r = 107 \<or> r = 0x212A then [75, 107, 0x212A]
      else if r = 83 \<or> r = 115 \<or> r = 0x17F then [83, 115, 0x17F]
      else if 65 \<le> r \<and> r \<le> 90 then [r, r + 32]
      else if 97 \<le> r \<and> r \<le> 122 then [r - 32, r]
      else [r])"

definition in_ranges :: "(rune \<times> rune) list \<Rightarrow> rune \<Rightarrow> bool" where
  "in_ranges rs r \<longleftrightarrow> list_ex (\<lambda>(lo, hi). lo \<le> r \<and> r \<le> hi) rs"

definition in_class :: "bool \<Rightarrow> bool \<Rightarrow> (rune \<times> rune) list \<Rightarrow> rune \<Rightarrow> bool" where
  "in_class ci neg rs r \<longleftrightarrow> (if ci then list_ex (in_ranges rs) (orbit r) else in_ranges rs r) \<noteq> neg"

definition is_word :: "rune \<Rightarrow> bool" where
  "is_word r \<longleftrightarrow> 48 \<le> r \<and> r \<le> 57 \<or> 65 \<le> r \<and> r \<le> 90 \<or> r = 95 \<or> 97 \<le> r \<and> r \<le> 122"

text \<open>What stands before the position, reversed, and what stands after it.\<close>

definition word_before :: "runes \<Rightarrow> bool" where
  "word_before b = (case b of [] \<Rightarrow> False | r # _ \<Rightarrow> is_word r)"

definition at_boundary :: "runes \<Rightarrow> runes \<Rightarrow> bool" where
  "at_boundary b a \<longleftrightarrow> word_before b \<noteq> word_before a"

subsection \<open>Matching\<close>

type_synonym caps = "(nat \<times> runes) list"
type_synonym match_state = "runes \<times> runes \<times> caps"

text \<open>Repetition: \<open>g\<close> tells whether more repetitions are preferred to fewer, \<open>n\<close> bounds their number.\<close>

fun rep :: "(match_state \<Rightarrow> match_state list) \<Rightarrow> bool \<Rightarrow> nat \<Rightarrow> nat \<Rightarrow> match_state \<Rightarrow> match_state list" where
  "rep m g lo 0 st = (if lo = 0 then [st] else [])"
| "rep m g lo (Suc n) st =
     (let more = concat (map (rep m g (lo - 1) n) (m st))
      in if lo > 0 then more else if g then more @ [st] else st # more)"

fun run :: "bool \<Rightarrow> regex \<Rightarrow> match_state \<Rightarrow> match_state list" where
  "run ci Empty st = [st]"
| "run ci (Class neg rs) (b, a, cs) =
     (case a of [] \<Rightarrow> [] | r # a' \<Rightarrow> if in_class ci neg rs r then [(r # b, a', cs)] else [])"
| "run ci (Cat p q) st = concat (map (run ci q) (run ci p st))"
| "run ci (Alt p q) st = run ci p st @ run ci q st"
| "run ci (Rep g lo hi p) (b, a, cs) =
     rep (run ci p) g lo (case hi of None \<Rightarrow> lo + length a | Some n \<Rightarrow> n) (b, a, cs)"
| "run ci (Group k p) (b, a, cs) =
     map (\<lambda>(b', a', cs'). (b', a', (k, rev (take (length b' - length b) b')) # cs')) (run ci p (b, a, cs))"
| "run ci Word_Bound (b, a, cs) = (if at_boundary b a then [(b, a, cs)] else [])"
| "run ci Begin_Text (b, a, cs) = (if b = [] then [(b, a, cs)] else [])"
| "run ci End_Text (b, a, cs) = (if a = [] then [(b, a, cs)] else [])"

text \<open>The leftmost match: what precedes it, the matched text, what follows, and the groups.\<close>

record re_match =
  m_before :: runes
  m_text :: runes
  m_after :: runes
  m_caps :: caps

fun find_from :: "bool \<Rightarrow> regex \<Rightarrow> runes \<Rightarrow> runes \<Rightarrow> re_match option" where
  "find_from ci p b a =
     (case run ci p (b, a, []) of
        (b', a', cs) # _ \<Rightarrow>
          Some \<lparr>m_before = rev b, m_text = rev (take (length b' - length b) b'), m_after = a', m_caps = cs\<rparr>
      | [] \<Rightarrow> (case a of [] \<Rightarrow> None | r # a' \<Rightarrow> find_from ci p (r # b) a'))"

declare find_from.simps [simp del]

text \<open>A compiled pattern, and the methods of \<^verbatim>\<open>Regexp\<close>; a group that took no part is empty.\<close>

record regexp =
  re_fold :: bool
  re_prog :: regex

definition find_match :: "regexp \<Rightarrow> runes \<Rightarrow> re_match option" where
  "find_match re s = find_from (re_fold re) (re_prog re) [] s"

definition match_string :: "regexp \<Rightarrow> runes \<Rightarrow> bool" where
  "match_string re s \<longleftrightarrow> find_match re s \<noteq> None"

definition find_string :: "regexp \<Rightarrow> runes \<Rightarrow> runes" where
  "find_string re s = (case find_match re s of None \<Rightarrow> [] | Some m \<Rightarrow> m_text m)"

definition find_start :: "regexp \<Rightarrow> runes \<Rightarrow> nat option" where
  "find_start re s = map_option (\<lambda>m. length (m_before m)) (find_match re s)"

definition submatch :: "re_match \<Rightarrow> nat \<Rightarrow> runes" where
  "submatch m k = (if k = 0 then m_text m else case map_of (m_caps m) k of None \<Rightarrow> [] | Some t \<Rightarrow> t)"

text \<open>
  \<^verbatim>\<open>ReplaceAllString(s, "")\<close>: the text without the matches, found from left to right; after an empty
  match the search goes on one rune later.
\<close>

function remove_from :: "regexp \<Rightarrow> runes \<Rightarrow> runes \<Rightarrow> runes" where
  "remove_from re b a =
     (case find_from (re_fold re) (re_prog re) b a of
        None \<Rightarrow> a
      | Some m \<Rightarrow>
          drop (length b) (m_before m) @
          (if m_text m \<noteq> [] \<and> length (m_after m) < length a
           then remove_from re (rev (m_before m @ m_text m)) (m_after m)
           else case m_after m of
             [] \<Rightarrow> []
           | r # rest \<Rightarrow> r # (if length rest < length a then remove_from re (r # rev (m_before m @ m_text m)) rest else rest)))"
  by pat_completeness auto
termination by (relation "measure (\<lambda>(re, b, a). length a)") auto

declare remove_from.simps [simp del]

definition remove_all :: "regexp \<Rightarrow> runes \<Rightarrow> runes" where
  "remove_all re s = remove_from re [] s"

subsection \<open>Building patterns\<close>

definition lit :: "string \<Rightarrow> regex" where
  "lit s = foldr (\<lambda>c. Cat (Class False [(of_char c, of_char c)])) s Empty"

definition rune_lit :: "rune \<Rightarrow> regex" where
  "rune_lit r = Class False [(r, r)]"

fun alts :: "regex list \<Rightarrow> regex" where
  "alts [] = Class False []"
| "alts [p] = p"
| "alts (p # q # ps) = Alt p (alts (q # ps))"

definition seqs :: "regex list \<Rightarrow> regex" where
  "seqs ps = foldr Cat ps Empty"

definition opt :: "regex \<Rightarrow> regex" where "opt p = Rep True 0 (Some 1) p"
definition star :: "regex \<Rightarrow> regex" where "star p = Rep True 0 None p"
definition plus :: "regex \<Rightarrow> regex" where "plus p = Rep True 1 None p"
definition lazy_plus :: "regex \<Rightarrow> regex" where "lazy_plus p = Rep False 1 None p"
definition between :: "nat \<Rightarrow> nat \<Rightarrow> regex \<Rightarrow> regex" where "between lo hi p = Rep True lo (Some hi) p"
definition times :: "nat \<Rightarrow> regex \<Rightarrow> regex" where "times n p = Rep True n (Some n) p"

definition digit :: regex where "digit = Class False [(48, 57)]"
definition space :: regex where "space = Class False [(9, 10), (12, 13), (32, 32)]"
definition non_space :: regex where "non_space = Class True [(9, 10), (12, 13), (32, 32)]"
definition word_char :: regex where "word_char = Class False [(48, 57), (65, 90), (95, 95), (97, 122)]"
definition any_char :: regex where "any_char = Class True [(10, 10)]"

text \<open>\<open>wd\<close> is a word between boundaries, \<open>wd_stem\<close> one that may go on.\<close>

definition wd :: "string \<Rightarrow> regex" where "wd s = seqs [Word_Bound, lit s, Word_Bound]"
definition wd_stem :: "string \<Rightarrow> regex" where "wd_stem s = seqs [Word_Bound, lit s, star word_char]"

subsection \<open>The matches of a pattern\<close>

text \<open>
  The semantics without the search: \<open>matches ci p b w a\<close> says that \<open>p\<close> can match \<open>w\<close> after \<open>b\<close> (reversed)
  and before \<open>a\<close>.
\<close>

inductive matches :: "bool \<Rightarrow> regex \<Rightarrow> runes \<Rightarrow> runes \<Rightarrow> runes \<Rightarrow> bool" where
  m_empty: "matches ci Empty b [] a"
| m_class: "in_class ci neg rs r \<Longrightarrow> matches ci (Class neg rs) b [r] a"
| m_cat: "matches ci p b v (w @ a) \<Longrightarrow> matches ci q (rev v @ b) w a \<Longrightarrow> matches ci (Cat p q) b (v @ w) a"
| m_alt1: "matches ci p b w a \<Longrightarrow> matches ci (Alt p q) b w a"
| m_alt2: "matches ci q b w a \<Longrightarrow> matches ci (Alt p q) b w a"
| m_rep_end: "matches ci (Rep g 0 hi p) b [] a"
| m_rep_more: "hi \<noteq> Some 0 \<Longrightarrow> matches ci p b v (w @ a) \<Longrightarrow>
    matches ci (Rep g (lo - 1) (map_option (\<lambda>n. n - 1) hi) p) (rev v @ b) w a \<Longrightarrow> matches ci (Rep g lo hi p) b (v @ w) a"
| m_group: "matches ci p b w a \<Longrightarrow> matches ci (Group k p) b w a"
| m_bound: "at_boundary b a \<Longrightarrow> matches ci Word_Bound b [] a"
| m_begin: "matches ci Begin_Text [] [] a"
| m_end: "matches ci End_Text b [] []"

inductive_cases matches_emptyE [elim!]: "matches ci Empty b w a"
inductive_cases matches_classE [elim!]: "matches ci (Class neg rs) b w a"
inductive_cases matches_catE [elim!]: "matches ci (Cat p q) b w a"
inductive_cases matches_altE [elim!]: "matches ci (Alt p q) b w a"
inductive_cases matches_repE: "matches ci (Rep g lo hi p) b w a"
inductive_cases matches_groupE [elim!]: "matches ci (Group k p) b w a"
inductive_cases matches_boundE [elim!]: "matches ci Word_Bound b w a"
inductive_cases matches_beginE [elim!]: "matches ci Begin_Text b w a"
inductive_cases matches_endE [elim!]: "matches ci End_Text b w a"

inductive_simps matches_simps [simp]:
  "matches ci Empty b w a"
  "matches ci (Class neg rs) b w a"
  "matches ci (Alt p q) b w a"
  "matches ci (Group k p) b w a"
  "matches ci Word_Bound b w a"
  "matches ci Begin_Text b w a"
  "matches ci End_Text b w a"

inductive_simps matches_cat: "matches ci (Cat p q) b w a"

text \<open>The groups of a pattern with their bodies.\<close>

fun groups :: "regex \<Rightarrow> (nat \<times> regex) list" where
  "groups (Cat p q) = groups p @ groups q"
| "groups (Alt p q) = groups p @ groups q"
| "groups (Rep g lo hi p) = groups p"
| "groups (Group k p) = (k, p) # groups p"
| "groups p = []"

definition group_texts :: "bool \<Rightarrow> regex \<Rightarrow> (nat \<times> runes) set" where
  "group_texts ci p = {(k, t). \<exists>q b a. (k, q) \<in> set (groups p) \<and> matches ci q b t a}"

text \<open>One way to match: it consumes a text the pattern matches, and records texts of its groups.\<close>

definition consumes ::
    "(runes \<Rightarrow> runes \<Rightarrow> runes \<Rightarrow> bool) \<Rightarrow> (nat \<times> runes) set \<Rightarrow> match_state \<Rightarrow> match_state \<Rightarrow> bool" where
  "consumes R G st st' \<longleftrightarrow>
     (\<exists>w. fst (snd st) = w @ fst (snd st') \<and> fst st' = rev w @ fst st \<and> R (fst st) w (fst (snd st')) \<and>
        set (snd (snd st')) \<subseteq> set (snd (snd st)) \<union> G)"

lemma consumes_mono: "consumes R G st st' \<Longrightarrow> (\<And>b w a. R b w a \<Longrightarrow> R' b w a) \<Longrightarrow> G \<subseteq> G' \<Longrightarrow> consumes R' G' st st'"
  unfolding consumes_def by blast

lemma consumes_seq:
  assumes "consumes R1 G st st1" "consumes R2 G st1 st2"
    and "\<And>b v u a. R1 b v (u @ a) \<Longrightarrow> R2 (rev v @ b) u a \<Longrightarrow> R b (v @ u) a"
  shows "consumes R G st st2"
proof -
  obtain v where v: "fst (snd st) = v @ fst (snd st1)" "fst st1 = rev v @ fst st" "R1 (fst st) v (fst (snd st1))"
    "set (snd (snd st1)) \<subseteq> set (snd (snd st)) \<union> G" using assms(1) unfolding consumes_def by blast
  obtain u where u: "fst (snd st1) = u @ fst (snd st2)" "fst st2 = rev u @ fst st1" "R2 (fst st1) u (fst (snd st2))"
    "set (snd (snd st2)) \<subseteq> set (snd (snd st1)) \<union> G" using assms(2) unfolding consumes_def by blast
  have "R (fst st) (v @ u) (fst (snd st2))" using v u by (intro assms(3)) simp_all
  with v u show ?thesis unfolding consumes_def by (intro exI[of _ "v @ u"]) auto
qed

abbreviation sound_step :: "bool \<Rightarrow> regex \<Rightarrow> match_state \<Rightarrow> match_state \<Rightarrow> bool" where
  "sound_step ci p \<equiv> consumes (matches ci p) (group_texts ci p)"

lemma group_texts_simps:
  "group_texts ci (Cat p q) = group_texts ci p \<union> group_texts ci q"
  "group_texts ci (Alt p q) = group_texts ci p \<union> group_texts ci q"
  "group_texts ci (Rep g lo hi p) = group_texts ci p"
  "group_texts ci (Group k p) = group_texts ci p \<union> {(k, t) | t. \<exists>b a. matches ci p b t a}"
  by (auto simp: group_texts_def)

lemma rep_Suc_iff:
  "st' \<in> set (rep m g lo (Suc n) st) \<longleftrightarrow>
   lo = 0 \<and> st' = st \<or> (\<exists>st1 \<in> set (m st). st' \<in> set (rep m g (lo - 1) n st1))"
  by (auto simp: Let_def split: if_splits)

lemma rep_sound:
  assumes "\<And>st st'. st' \<in> set (m st) \<Longrightarrow> sound_step ci p st st'"
    and "st' \<in> set (rep m g lo n st)" and "hi = None \<or> hi = Some n"
  shows "sound_step ci (Rep g lo hi p) st st'"
  using assms(2,3)
proof (induction n arbitrary: lo st hi)
  case 0
  then show ?case by (auto simp: consumes_def intro: m_rep_end split: if_splits)
next
  case (Suc n)
  have stop: "sound_step ci (Rep g 0 hi p) st st" by (auto simp: consumes_def intro: m_rep_end)
  have more: "sound_step ci (Rep g lo hi p) st st'"
    if h: "st1 \<in> set (m st)" "st' \<in> set (rep m g (lo - 1) n st1)" for st1
  proof -
    have "sound_step ci (Rep g (lo - 1) (map_option (\<lambda>n. n - 1) hi) p) st1 st'"
      using Suc.prems(2) by (intro Suc.IH[OF h(2)]) auto
    then have rest: "consumes (matches ci (Rep g (lo - 1) (map_option (\<lambda>n. n - 1) hi) p)) (group_texts ci p) st1 st'"
      by (simp only: group_texts_simps)
    show ?thesis
      unfolding group_texts_simps
    proof (rule consumes_seq[OF assms(1)[OF h(1)] rest])
      fix b v u a
      assume "matches ci p b v (u @ a)" "matches ci (Rep g (lo - 1) (map_option (\<lambda>n. n - 1) hi) p) (rev v @ b) u a"
      then show "matches ci (Rep g lo hi p) b (v @ u) a" using Suc.prems(2) by (intro m_rep_more) auto
    qed
  qed
  from Suc.prems(1)[unfolded rep_Suc_iff] show ?case
  proof
    assume "lo = 0 \<and> st' = st"
    with stop show ?thesis by simp
  next
    assume "\<exists>st1 \<in> set (m st). st' \<in> set (rep m g (lo - 1) n st1)"
    with more show ?thesis by blast
  qed
qed

lemma run_sound: "st' \<in> set (run ci p st) \<Longrightarrow> sound_step ci p st st'"
proof (induction p arbitrary: st st')
  case (Class neg rs)
  then show ?case by (cases st) (auto simp: consumes_def split: list.splits if_splits)
next
  case (Cat p q)
  then obtain st1 where st1: "st1 \<in> set (run ci p st)" "st' \<in> set (run ci q st1)" by auto
  have "consumes (matches ci p) (group_texts ci (Cat p q)) st st1"
    using Cat.IH(1)[OF st1(1)] by (rule consumes_mono) (auto simp: group_texts_simps)
  moreover have "consumes (matches ci q) (group_texts ci (Cat p q)) st1 st'"
    using Cat.IH(2)[OF st1(2)] by (rule consumes_mono) (auto simp: group_texts_simps)
  ultimately show ?case by (rule consumes_seq) (rule m_cat)
next
  case (Alt p q)
  then consider "st' \<in> set (run ci p st)" | "st' \<in> set (run ci q st)" by auto
  then show ?case
  proof cases
    case 1
    from Alt.IH(1)[OF 1] show ?thesis by (rule consumes_mono) (auto simp: group_texts_simps)
  next
    case 2
    from Alt.IH(2)[OF 2] show ?thesis by (rule consumes_mono) (auto simp: group_texts_simps)
  qed
next
  case (Rep g lo hi p)
  obtain b a cs where st: "st = (b, a, cs)" by (cases st)
  show ?case
    unfolding st
  proof (rule rep_sound)
    show "st'' \<in> set (run ci p st1) \<Longrightarrow> sound_step ci p st1 st''" for st1 st'' by (rule Rep.IH)
    show "st' \<in> set (rep (run ci p) g lo (case hi of None \<Rightarrow> lo + length a | Some n \<Rightarrow> n) (b, a, cs))"
      using Rep.prems by (simp only: st run.simps)
    show "hi = None \<or> hi = Some (case hi of None \<Rightarrow> lo + length a | Some n \<Rightarrow> n)" by (cases hi) auto
  qed
next
  case (Group k p)
  obtain b a cs where st: "st = (b, a, cs)" by (cases st)
  from Group.prems obtain b' a' cs' where r: "(b', a', cs') \<in> set (run ci p (b, a, cs))"
    "st' = (b', a', (k, rev (take (length b' - length b) b')) # cs')" by (auto simp: st)
  from Group.IH[OF r(1)] obtain w where w: "a = w @ a'" "b' = rev w @ b" "matches ci p b w a'" "set cs' \<subseteq> set cs \<union> group_texts ci p"
    by (auto simp: consumes_def)
  then have "set ((k, w) # cs') \<subseteq> set cs \<union> group_texts ci (Group k p)"
    unfolding group_texts_simps by auto
  with w show ?case by (auto simp: consumes_def st r(2))
qed (case_tac st; auto simp: consumes_def split: if_splits)+

end
