(* ===== verification/Classify_Patterns.thy ===== *)
theory Classify_Patterns
  imports Go_Regexp
begin

section \<open>The patterns of the classifier (\<^verbatim>\<open>classify/classify.go\<close>)\<close>

text \<open>
  The regular expressions of the source, one definition per variable, with the parts in the order of the
  source. \<open>re_fold\<close> is the flag \<^verbatim>\<open>(?i)\<close>.
\<close>

definition season_pack_pattern :: regexp where
  "season_pack_pattern = \<lparr>re_fold = True, re_prog =
     seqs [Word_Bound, lit ''S'', opt (lit ''eason''), opt (Class False [(9, 10), (12, 13), (32, 32), (46, 46),
     (95, 95), (45, 45)]), between 1 2 digit, Word_Bound]\<rparr>"

definition episode_pattern :: regexp where
  "episode_pattern = \<lparr>re_fold = True, re_prog =
     seqs [Word_Bound, alts [seqs [lit ''S'', between 1 2 digit, lit ''E'', between 1 2 digit,
     star (seqs [Class False [(69, 69), (45, 45)], between 1 2 digit])], seqs [between 1 2 digit, lit ''x'',
     Rep True 2 None digit], seqs [lit ''EP'', between 2 4 digit]], Word_Bound]\<rparr>"

definition episode_number_pattern :: regexp where
  "episode_number_pattern = \<lparr>re_fold = True, re_prog =
     seqs [Word_Bound, alts [seqs [lit ''S'', Group 1 (between 1 2 digit), lit ''E'',
     Group 2 (between 1 2 digit), star (seqs [Class False [(69, 69), (45, 45)], between 1 2 digit])],
     seqs [Group 3 (between 1 2 digit), lit ''x'', Group 4 (Rep True 2 None digit)], seqs [lit ''Ep'',
     opt (lit ''.''), Group 5 (between 1 2 digit)], seqs [lit ''S'', Group 6 (between 1 2 digit), plus space,
     Class False [(45, 45), (8211, 8211)], plus space, Group 7 (between 1 4 digit)], seqs [lit ''EP'',
     Group 8 (between 2 4 digit)]], Word_Bound]\<rparr>"

definition season_number_pattern :: regexp where
  "season_number_pattern = \<lparr>re_fold = True, re_prog =
     seqs [Word_Bound, lit ''S'', opt (lit ''eason''), opt (Class False [(9, 10), (12, 13), (32, 32), (46, 46),
     (95, 95), (45, 45)]), Group 1 (between 1 2 digit), Word_Bound]\<rparr>"

definition re_year :: regexp where
  "re_year = \<lparr>re_fold = False, re_prog =
     seqs [Word_Bound, Group 1 (alts [seqs [lit ''19'', times 2 digit], seqs [lit ''20'',
     Class False [(48, 51)], digit]]), Word_Bound]\<rparr>"

definition re_resolution :: regexp where
  "re_resolution = \<lparr>re_fold = True, re_prog =
     seqs [Word_Bound, Group 1 (alts [lit ''2160p'', seqs [lit ''4K'', opt (seqs [star space, lit ''UHD''])],
     seqs [lit ''1080'', Class False [(112, 112), (105, 105)]], lit ''720p'', lit ''576p'', lit ''480p'',
     lit ''360p'']), Word_Bound]\<rparr>"

definition re_encoding :: regexp where
  "re_encoding = \<lparr>re_fold = True, re_prog =
     seqs [Word_Bound, Group 1 (alts [lit ''x265'', lit ''x264'', lit ''HEVC'', lit ''AV1'', lit ''AVC'',
     lit ''XviD'', lit ''DivX'', seqs [lit ''H'', opt (lit ''.''), lit ''265''], seqs [lit ''H'',
     opt (lit ''.''), lit ''264'']]), Word_Bound]\<rparr>"

definition re_dynamic_range :: regexp where
  "re_dynamic_range = \<lparr>re_fold = True, re_prog =
     seqs [Word_Bound, Group 1 (alts [lit ''HDR10+'', lit ''HDR10'', seqs [lit ''Dolby'',
     opt (Class False [(46, 46), (32, 32)]), lit ''Vision''], lit ''DV'', lit ''HDR'', lit ''SDR'']),
     Word_Bound]\<rparr>"

definition re_source :: regexp where
  "re_source = \<lparr>re_fold = True, re_prog =
     seqs [Word_Bound, Group 1 (alts [lit ''BDRemux'', lit ''BDREMUX'', lit ''REMUX'', lit ''BDRip'',
     lit ''BluRay'', lit ''Blu-Ray'', lit ''WEB-DL'', lit ''WEBDL'', lit ''WEBRip'', lit ''HDTV'',
     lit ''DVDRip'', lit ''DVD'', lit ''PDVD'', lit ''HDCAM'', lit ''PDTV'', lit ''WEB'']), Word_Bound]\<rparr>"

definition re_release_group :: regexp where
  "re_release_group = \<lparr>re_fold = False, re_prog =
     seqs [lit ''-'', Group 1 (between 2 15 (Class False [(65, 90), (97, 122), (48, 57)])), End_Text]\<rparr>"

definition re_adult :: regexp where
  "re_adult = \<lparr>re_fold = True, re_prog =
     alts [wd ''anal'', wd ''ass'', seqs [Word_Bound, lit ''blowjob'', opt (lit ''s''), Word_Bound],
     wd_stem ''boob'', wd_stem ''bitch'', seqs [Word_Bound, lit ''cock'', opt (lit ''s''), Word_Bound],
     seqs [Word_Bound, lit ''cum'', star word_char, Word_Bound], lit ''deepthroat'', seqs [Word_Bound,
     lit ''dick'', opt (lit ''s''), Word_Bound], wd_stem ''erotic'', lit ''fuck'', lit ''gloryhole'',
     wd ''hardcore'', wd ''horny'', wd ''incest'', wd_stem ''kink'', wd_stem ''milf'', wd ''naughty'',
     wd_stem ''nubile'', seqs [lit ''nude'', star word_char], wd ''onlyfans'', lit ''onahole'',
     wd_stem ''orgasm'', wd ''orgy'', lit ''porn'', wd ''pov'', wd ''pussy'', wd_stem ''seduc'',
     wd_stem ''slut'', seqs [lit ''step'', star space, lit ''bro'', opt (lit ''ther''), Word_Bound],
     seqs [lit ''step'', star space, lit ''mom''], seqs [lit ''step'', star space, lit ''sis''],
     seqs [lit ''step'', star space, lit ''sibling'', star word_char], seqs [Word_Bound, lit ''tit'',
     opt (lit ''s''), Word_Bound], wd ''threesome'', wd_stem ''uncensor'', lit ''wank'', lit ''xxx'',
     wd ''realitykings'', seqs [Word_Bound, lit ''brazzers''], wd ''naughtyamerica'', wd ''bangbros'',
     wd ''digitalpayground'', seqs [Word_Bound, lit ''evil'', star space, lit ''angel'', Word_Bound],
     wd ''kink.com'', wd ''nubilefilms'', wd ''private.com'', wd ''privatemovies'', seqs [Word_Bound,
     lit ''wicked'', star space, lit ''pictures'', Word_Bound], seqs [lit ''woodmancasting'', star word_char],
     wd ''vividceleb'', wd ''mindgeek'', wd ''manwin'', wd ''pornhub'', wd ''redtube'', wd ''youporn'',
     wd ''xvideos'', wd ''xhamster'', wd ''xnxx'', wd_stem ''castingcouch'', wd ''amateurallure'',
     wd ''blacked'', wd ''exploitedteens'', wd ''faceabuse'', wd ''facialabuse'', wd ''fakeagent'',
     wd ''femalefaketaxi'', wd ''manyvids'', wd ''momlover'', lit ''momsbangteens'', wd ''pixy'',
     wd ''puremature'', wd ''sinfulxxx'', lit ''teenslikeitbig'', wd ''jav'', wd ''hentai'', wd ''ecchi'',
     wd ''eroge'', lit ''creampie'', lit ''squirt'', wd ''nsfw'', wd ''ntr'', seqs [rune_lit 0xC5D0,
     rune_lit 0xB85C], seqs [rune_lit 0x4E09, Class False [(32423, 32423), (32026, 32026)]], lit ''thz.la'',
     lit ''7sht.me'', lit ''44x.me'', lit ''168x.me'', wd ''69av'', lit ''deeper.com'', lit ''sexart.com'',
     lit ''topxdvd'', lit ''jvid.com'', lit ''xchina'', lit ''tooziq'', lit ''sogclub'', seqs [Word_Bound,
     lit ''tokyo'', opt (Class False [(45, 45), (9, 10), (12, 13), (32, 32)]), lit ''hot'', Word_Bound],
     wd ''chaturbate'', wd ''czechcasting'', wd ''czechav'', wd ''heydouga'', wd ''blacksonblondes'',
     wd ''pervmom'', wd ''breedme'', wd ''kellymadison'', wd ''carib'']\<rparr>"

definition re_encoding_broad :: regexp where
  "re_encoding_broad = \<lparr>re_fold = True, re_prog =
     seqs [Word_Bound, Group 1 (alts [lit ''x265'', lit ''x264'', lit ''HEVC'', lit ''AV1'', lit ''AVC'',
     lit ''XviD'', lit ''DivX'', seqs [lit ''H'', opt (Class False [(46, 46), (32, 32)]), lit ''265''],
     seqs [lit ''H'', opt (Class False [(46, 46), (32, 32)]), lit ''264'']]), Word_Bound]\<rparr>"

definition re_www_site_prefix :: regexp where
  "re_www_site_prefix = \<lparr>re_fold = True, re_prog =
     seqs [Begin_Text, lit ''www'', plus space, plus non_space, plus space, plus non_space, star space,
     lit ''-'', plus space]\<rparr>"

definition re_bracket_site_prefix :: regexp where
  "re_bracket_site_prefix = \<lparr>re_fold = True, re_prog =
     seqs [Begin_Text, lit ''['', between 1 60 (Class False [(9, 10), (12, 13), (32, 32), (48, 57), (65, 90),
     (95, 95), (97, 122), (46, 46), (45, 45)]), lit ''.'', between 2 4 (Class False [(97, 122)]), star space,
     lit '']'', star space]\<rparr>"

definition re_anime_bracket_prefix :: regexp where
  "re_anime_bracket_prefix = \<lparr>re_fold = False, re_prog =
     seqs [Begin_Text, lit ''['', lazy_plus any_char, lit '']'', star space]\<rparr>"

definition re_anime_fansub_group :: regexp where
  "re_anime_fansub_group = \<lparr>re_fold = True, re_prog =
     seqs [Begin_Text, lit ''['', alts [lit ''SubsPlease'', seqs [lit ''SubsPlus'', opt (lit ''+'')],
     lit ''Erai-raws'', lit ''HorribleSubs'', lit ''ASW'', lit ''Yameii'', lit ''DKB'', lit ''Judas'',
     lit ''Commie'', lit ''MahjongSoulless'', lit ''ANi'', lit ''SweetSub'', lit ''NanakoRaws'',
     lit ''AsukaRaws'', lit ''neoHEVC'', lit ''Sakurato'', lit ''Cyan'', lit ''BBF'', lit ''jibaketa'',
     lit ''Some-Stuffs'', lit ''Kamigami'', seqs [lit ''Studio'', plus space, lit ''GreenTea''], lit ''TRC'',
     lit ''Sokudo'', lit ''Trix'', seqs [lit ''Anime'', plus space, lit ''Land''], lit ''MagicStar'',
     seqs [lit ''Nekomoe'', plus space, lit ''kissaten''], lit ''GJM'', lit ''Chihiro'', lit ''Coalgirls'',
     lit ''FFF'', lit ''WhyNot'', lit ''Underwater'', lit ''Ohys-Raws'', lit ''SmallSizedAnime'', lit ''SSA'',
     lit ''DeadFish'', lit ''Eclipse'', lit ''Hiryuu'', lit ''Hatsuyuki'', lit ''Vivid''], lit '']'']\<rparr>"

definition re_anime_streaming_source :: regexp where
  "re_anime_streaming_source = \<lparr>re_fold = True, re_prog =
     seqs [Word_Bound, alts [lit ''Crunchyroll'', lit ''Funimation'', lit ''HiDive'', lit ''HIDIVE''],
     Word_Bound]\<rparr>"

definition re_anime_absolute_episode :: regexp where
  "re_anime_absolute_episode = \<lparr>re_fold = False, re_prog =
     seqs [plus space, alts [seqs [between 3 4 digit, opt (seqs [star space, Class False [(45, 45),
     (8211, 8211)], star space, between 1 4 digit])], seqs [lit ''-'', plus space, between 1 4 digit]],
     Word_Bound]\<rparr>"

definition re_anime_ep_format :: regexp where
  "re_anime_ep_format = \<lparr>re_fold = False, re_prog =
     seqs [Word_Bound, lit ''EP'', between 2 4 digit, Word_Bound]\<rparr>"

definition re_anime_numeric_episode :: regexp where
  "re_anime_numeric_episode = \<lparr>re_fold = False, re_prog =
     seqs [plus space, alts [seqs [times 3 digit, opt (seqs [star space, Class False [(45, 45), (8211, 8211)],
     star space, between 1 3 digit])], seqs [lit ''-'', plus space, between 1 3 digit]], Word_Bound]\<rparr>"

definition re_anime_bracket_episode :: regexp where
  "re_anime_bracket_episode = \<lparr>re_fold = False, re_prog =
     seqs [lit ''['', between 1 3 digit, lit '']'']\<rparr>"

definition re_software :: regexp where
  "re_software = \<lparr>re_fold = True, re_prog =
     alts [wd ''RTM'', wd ''LTSC'', wd ''C2R'', wd ''Multilingual'', wd ''WinPE'', wd ''x86_64'', wd ''Keygen'',
     wd ''Activator'', wd ''x64'', wd ''x86'', seqs [Word_Bound, lit ''Windows'', plus space, alts [lit ''XP'',
     lit ''Vista'', plus digit, lit ''Server''], Word_Bound], wd ''Adobe'', wd ''Photoshop'',
     wd ''Illustrator'', seqs [Word_Bound, lit ''Premiere'', plus space, lit ''Pro'', Word_Bound],
     seqs [Word_Bound, lit ''After'', plus space, lit ''Effects'', Word_Bound], wd ''AutoCAD'', wd ''Autodesk'',
     seqs [Word_Bound, lit ''3ds'', plus space, lit ''Max'', Word_Bound], seqs [Word_Bound, lit ''SQL'',
     plus space, lit ''Server'', Word_Bound], seqs [Word_Bound, lit ''Microsoft'', plus space, lit ''Office'',
     Word_Bound], seqs [Word_Bound, lit ''Visual'', plus space, lit ''Studio'', Word_Bound]]\<rparr>"

definition re_blocked_content :: regexp where
  "re_blocked_content = \<lparr>re_fold = True, re_prog =
     alts [seqs [lit ''p'', opt (lit ''a''), lit ''edo'', opt (alts [seqs [lit ''fil'', star word_char],
     seqs [lit ''phil'', star word_char]])], wd ''preteen'', wd ''pthc'', wd ''ptsc'', wd ''lsbar'', wd ''lsm'',
     wd ''underage'', wd ''hebefilia'', wd ''opva'', seqs [lit ''child'', opt (lit '' ''), lit ''porn'',
     star word_char], seqs [lit ''child'', opt (lit '' ''), lit ''lover'', star word_char], seqs [lit ''porno'',
     opt (lit '' ''), lit ''child'', star word_char], seqs [lit ''kidd'', alts [seqs [lit ''y'',
     star word_char], seqs [lit ''ie'', star word_char]], opt (lit '' ''), lit ''porn''], seqs [lit ''young'',
     opt (lit '' ''), lit ''video'', opt (lit '' ''), lit ''models''], wd ''childfugga'', wd ''kinderkutje'',
     wd ''yvm'', seqs [alts [lit ''#'', seqs [lit ''1'', Class False [(48, 55)]]], opt (lit '' ''), lit ''y'',
     opt (lit '' ''), lit ''o'', Word_Bound]]\<rparr>"

text \<open>\<^verbatim>\<open>titleCutPatterns\<close>\<close>

definition title_cut_patterns :: "regexp list" where
  "title_cut_patterns =
     [episode_pattern, season_number_pattern, season_pack_pattern, re_year, re_resolution, re_encoding,
      re_dynamic_range, re_source]"

lemmas pattern_defs =
  season_pack_pattern_def episode_pattern_def episode_number_pattern_def season_number_pattern_def
  re_year_def re_resolution_def re_encoding_def re_dynamic_range_def
  re_source_def re_release_group_def re_adult_def re_encoding_broad_def
  re_www_site_prefix_def re_bracket_site_prefix_def re_anime_bracket_prefix_def re_anime_fansub_group_def
  re_anime_streaming_source_def re_anime_absolute_episode_def re_anime_ep_format_def re_anime_numeric_episode_def
  re_anime_bracket_episode_def re_software_def re_blocked_content_def

lemmas combinator_defs =
  lit_def rune_lit_def seqs_def opt_def star_def plus_def lazy_plus_def between_def times_def digit_def space_def
  non_space_def word_char_def any_char_def wd_def wd_stem_def

end
