(* ===== verification/Classify.thy ===== *)
theory Classify
  imports Classify_Patterns Torrent_Db
begin

section \<open>The classifier (\<^verbatim>\<open>classify/classify.go\<close>)\<close>

text \<open>
  A torrent is classified by its name, its files and its size. Names and paths are valid UTF-8 here, as the
  callers see to it; a cut of such a string at a match is a cut of the list of its code points. \<open>lower\<close> is
  the table of \<^verbatim>\<open>unicode.ToLower\<close> beyond ASCII.
\<close>

record cl_file =
  c_path :: runes
  c_size :: int

record classification =
  cl_state :: torrent_state
  cl_content_type :: content_type
  cl_reason :: string
  cl_title :: runes
  cl_year :: int
  cl_season :: int
  cl_episode :: int
  cl_quality :: runes
  cl_encoding :: runes
  cl_dynamic_range :: runes
  cl_source :: runes
  cl_release_group :: runes
  cl_scene_name :: runes

record tv_info =
  is_tv :: bool
  tv_season :: int
  tv_episode :: int

definition normalize :: "runes \<Rightarrow> runes" where
  "normalize name = join_with [32] (fields_of (replace_rune 95 32 (replace_rune 46 32 name)))"

definition detect_tv :: "runes \<Rightarrow> tv_info" where
  "detect_tv normalized =
     (case find_match episode_number_pattern normalized of
        Some m \<Rightarrow>
          let se = (0, 0);
              se = (if submatch m 1 \<noteq> [] then (atoi (submatch m 1), atoi (submatch m 2)) else se);
              se = (if submatch m 3 \<noteq> [] then (atoi (submatch m 3), atoi (submatch m 4)) else se);
              se = (if submatch m 5 \<noteq> [] then (fst se, atoi (submatch m 5)) else se);
              se = (if submatch m 6 \<noteq> [] then (atoi (submatch m 6), atoi (submatch m 7)) else se);
              se = (if submatch m 8 \<noteq> [] then (fst se, atoi (submatch m 8)) else se)
          in \<lparr>is_tv = True, tv_season = fst se, tv_episode = snd se\<rparr>
      | None \<Rightarrow>
          let pack = \<lparr>is_tv = match_string season_pack_pattern normalized, tv_season = 0, tv_episode = 0\<rparr>
          in case find_match season_number_pattern normalized of
               Some m \<Rightarrow>
                 if atoi (submatch m 1) > 0 \<and> atoi (submatch m 1) \<le> 99 \<and> match_string season_pack_pattern normalized
                 then \<lparr>is_tv = True, tv_season = atoi (submatch m 1), tv_episode = 0\<rparr>
                 else pack
             | None \<Rightarrow> pack)"

definition detect_anime :: "runes \<Rightarrow> runes \<Rightarrow> tv_info \<Rightarrow> bool" where
  "detect_anime name normalized tv =
     (if match_string re_adult name \<or> match_string re_adult normalized then False
      else
        let no_encoding = remove_all re_encoding_broad normalized in
        if match_string re_anime_ep_format no_encoding then True
        else
          let no_site = remove_all re_bracket_site_prefix name in
          if match_string re_anime_bracket_prefix no_site \<and>
             (match_string re_anime_numeric_episode no_encoding \<or> match_string re_anime_bracket_episode no_site) then True
          else if match_string re_anime_fansub_group name \<and> is_tv tv then True
          else is_tv tv \<and> match_string re_anime_streaming_source normalized)"

text \<open>The cutset of \<^verbatim>\<open>trimTitle\<close> is space, hyphen, en dash, underscore, dot and the opening brackets.\<close>

definition trim_title :: "runes \<Rightarrow> runes" where
  "trim_title s = trim_right [32, 45, 0x2013, 95, 46, 40, 91] (trim_space s)"

definition cut_at :: "regexp list \<Rightarrow> runes \<Rightarrow> nat \<Rightarrow> nat" where
  "cut_at ps s lim =
     fold (\<lambda>p lim. case find_start p s of None \<Rightarrow> lim | Some i \<Rightarrow> if i < lim then i else lim) ps lim"

definition extract_title :: "runes \<Rightarrow> runes" where
  "extract_title normalized = trim_title (take (cut_at title_cut_patterns normalized (length normalized)) normalized)"

definition extract_anime_title :: "runes \<Rightarrow> runes" where
  "extract_anime_title normalized =
     (let s = remove_all re_anime_bracket_prefix normalized;
          lim = cut_at title_cut_patterns s (length s);
          lim = cut_at [re_anime_absolute_episode] s lim
      in trim_title (take lim s))"

definition first_match :: "regexp \<Rightarrow> runes \<Rightarrow> runes" where
  "first_match re s = find_string re s"

definition is_video_ext :: "runes \<Rightarrow> bool" where
  "is_video_ext ext \<longleftrightarrow>
     ext \<in> set (map asc [''.mkv'', ''.mp4'', ''.avi'', ''.mov'', ''.wmv'', ''.m4v'', ''.ts'', ''.m2ts'', ''.vob'', ''.flv'',
       ''.webm'', ''.iso'', ''.mpg'', ''.mpeg''])"

fun analyze_files :: "(rune \<Rightarrow> rune) \<Rightarrow> runes list \<Rightarrow> cl_file list \<Rightarrow> nat \<times> nat" where
  "analyze_files lower allowed [] = (0, 0)"
| "analyze_files lower allowed (f # fs) =
     (let ext = to_lower lower (filepath_ext (c_path f)); (video, bad) = analyze_files lower allowed fs
      in if is_video_ext ext then (video + 1, bad)
         else if ext \<notin> set allowed then (video, bad + 1)
         else (video, bad))"

definition contains_blocked_content :: "runes \<Rightarrow> cl_file list \<Rightarrow> bool" where
  "contains_blocked_content name fs \<longleftrightarrow>
     match_string re_blocked_content (normalize name) \<or>
     list_ex (\<lambda>f. match_string re_blocked_content (normalize (c_path f))) fs"

record classify_config =
  min_size :: int
  max_size :: int
  allowed_exts :: "runes list"
  enable_ext_filter :: bool
  exclude_adult :: bool

definition should_reject ::
    "(rune \<Rightarrow> rune) \<Rightarrow> content_type \<Rightarrow> runes \<Rightarrow> runes \<Rightarrow> cl_file list \<Rightarrow> int \<Rightarrow> classify_config \<Rightarrow> string" where
  "should_reject lower ct name normalized fs total_size cfg =
     (if total_size < min_size cfg \<or> total_size > max_size cfg then ''size''
      else if exclude_adult cfg \<and> (match_string re_adult name \<or> match_string re_adult normalized) then ''adult''
      else if match_string re_software name \<or> match_string re_software normalized then ''software''
      else if ct = Unknown_Type then ''unknown_type''
      else if length fs > 0 then
        (case analyze_files lower (allowed_exts cfg) fs of (video, bad) \<Rightarrow>
           if video = 0 then ''no_video''
           else if enable_ext_filter cfg \<and> bad > 0 then ''bad_extension''
           else [])
      else [])"

text \<open>
  \<^verbatim>\<open>stripVideoExt\<close> cuts off as many bytes as the lower-case extension has, which a code point like the
  Kelvin sign makes fewer than the extension in the name has.
\<close>

definition strip_video_ext :: "(rune \<Rightarrow> rune) \<Rightarrow> runes \<Rightarrow> runes" where
  "strip_video_ext lower name =
     (let ext = to_lower lower (filepath_ext name)
      in if is_video_ext ext then byte_prefix (byte_len name - byte_len ext) name else name)"

definition classify ::
    "(rune \<Rightarrow> rune) \<Rightarrow> runes \<Rightarrow> cl_file list \<Rightarrow> int \<Rightarrow> classify_config \<Rightarrow> classification" where
  "classify lower name fs total_size cfg =
     (let normalized = remove_all re_www_site_prefix (normalize name);
          tv = detect_tv normalized;
          anime = detect_anime name normalized tv;
          ct = (if anime then Anime else if is_tv tv then Tv
            else if match_string re_year normalized \<or> match_string re_resolution normalized then Movie else Unknown_Type);
          reason = should_reject lower ct name normalized fs total_size cfg
      in \<lparr>cl_state = (if reason \<noteq> [] then Rejected else Classified),
          cl_content_type = ct,
          cl_reason = reason,
          cl_title = (if anime then extract_anime_title normalized else extract_title normalized),
          cl_year = (case find_match re_year normalized of None \<Rightarrow> 0 | Some m \<Rightarrow> atoi (submatch m 1)),
          cl_season = (if anime \<or> is_tv tv then tv_season tv else 0),
          cl_episode = (if anime \<or> is_tv tv then tv_episode tv else 0),
          cl_quality = first_match re_resolution normalized,
          cl_encoding = first_match re_encoding normalized,
          cl_dynamic_range = first_match re_dynamic_range normalized,
          cl_source = first_match re_source normalized,
          cl_release_group =
            (case find_match re_release_group (strip_video_ext lower name) of None \<Rightarrow> [] | Some m \<Rightarrow> submatch m 1),
          cl_scene_name = name\<rparr>)"

end
