(* ===== verification/Metadata.thy ===== *)
theory Metadata
  imports Token
begin

section \<open>Fetching metadata (\<^verbatim>\<open>metadata/fetch.go\<close>)\<close>

text \<open>
  A fetch speaks the BitTorrent handshake, the extension protocol (BEP-10) and the metadata extension
  (BEP-9) with one peer, and accepts the assembled bytes only if their SHA-1 is the infohash. A
  connection holds what the peer sends before the deadline and what was written; it breaks after
  \<open>flushes\<close> flushes. Every message the code writes is smaller than the writer's buffer of 4096 bytes, so a
  write can only fail at its flush. The metrics, and the dialer, have no effect but the error.

  Bencode is a third-party library and a parameter: the payload of the extension handshake, the
  request for a piece, the fields \<^verbatim>\<open>M["ut_metadata"]\<close> and \<^verbatim>\<open>metadata_size\<close> of a peer's handshake, the
  header of a metadata message with the bytes that follow it, and the info dictionary.
\<close>

record conn =
  incoming :: "byte list"
  written :: "byte list"
  flushes :: nat

record raw_file =
  rf_path :: "string list"
  rf_length :: int

record raw_info =
  ri_name :: string
  ri_length :: int
  ri_files :: "raw_file list"

record file_info =
  fi_path :: string
  fi_size :: int

record torrent_info =
  t_name :: string
  t_files :: "file_info list"
  t_total :: int

record piece_header =
  ph_type :: int
  ph_piece :: int
  ph_total :: int

record bencode =
  marshal_ext :: "byte list option"
  marshal_request :: "nat \<Rightarrow> byte list option"
  unmarshal_ext :: "byte list \<Rightarrow> (int \<times> int) option"
  decode_header :: "byte list \<Rightarrow> (piece_header \<times> byte list) option"
  unmarshal_info :: "byte list \<Rightarrow> raw_info option"

datatype fetch_error =
  Connect_Failed
| Write_Failed
| Short_Read
| Bad_Pstrlen
| Bad_Pstr
| No_Extensions
| Infohash_Mismatch
| Marshal_Failed
| Message_Too_Large nat
| No_Ut_Metadata
| Bad_Metadata_Size int
| Sha1_Mismatch
| Bad_Info

record client =
  max_msg_size :: int
  max_metadata_size :: int


subsection \<open>Messages\<close>

definition read_full :: "nat \<Rightarrow> conn \<Rightarrow> fetch_error + (byte list \<times> conn)" where
  "read_full n c =
     (if length (incoming c) < n then Inl Short_Read
      else Inr (take n (incoming c), c\<lparr>incoming := drop n (incoming c)\<rparr>))"

definition write_flush :: "byte list \<Rightarrow> conn \<Rightarrow> fetch_error + conn" where
  "write_flush bs c =
     (if flushes c = 0 then Inl Write_Failed
      else Inr (c\<lparr>written := written c @ bs, flushes := flushes c - 1\<rparr>))"

definition protocol_name :: "byte list" where
  "protocol_name = map (\<lambda>ch. word_of_nat (of_char ch)) ''BitTorrent protocol''"

definition handshake :: "byte list \<Rightarrow> byte list \<Rightarrow> byte list" where
  "handshake infohash peer_id =
     0x13 # go_copy (replicate 19 0) protocol_name @ [0, 0, 0, 0, 0, 0 OR 0x10, 0, 0] @
     go_copy (replicate 20 0) infohash @ go_copy (replicate 20 0) peer_id"

definition send_handshake :: "byte list \<Rightarrow> byte list \<Rightarrow> conn \<Rightarrow> fetch_error + conn" where
  "send_handshake infohash peer_id c = write_flush (handshake infohash peer_id) c"

definition read_handshake :: "conn \<Rightarrow> fetch_error + (byte list \<times> byte list \<times> conn)" where
  "read_handshake c =
     (case read_full 68 c of
        Inl e \<Rightarrow> Inl e
      | Inr (buf, c1) \<Rightarrow>
          if buf ! 0 \<noteq> 0x13 then Inl Bad_Pstrlen
          else if take 19 (drop 1 buf) \<noteq> protocol_name then Inl Bad_Pstr
          else Inr (take 8 (drop 20 buf), take 20 (drop 28 buf), c1))"

definition message :: "byte \<Rightarrow> byte \<Rightarrow> byte list \<Rightarrow> byte list" where
  "message msg_type ext_id payload =
     put_be 4 (word_of_nat (1 + 1 + length payload) :: 32 word) @ [msg_type, ext_id] @ payload"

definition send_msg :: "byte \<Rightarrow> byte \<Rightarrow> byte list \<Rightarrow> conn \<Rightarrow> fetch_error + conn" where
  "send_msg msg_type ext_id payload c = write_flush (message msg_type ext_id payload) c"

definition read_msg :: "client \<Rightarrow> conn \<Rightarrow> fetch_error + (byte \<times> byte list \<times> conn)" where
  "read_msg cl c =
     (case read_full 4 c of
        Inl e \<Rightarrow> Inl e
      | Inr (buf, c1) \<Rightarrow>
          let len = (get_be buf :: 32 word) in
          if len = 0 then Inr (0, [], c1)
          else if len > (word_of_int (max_msg_size cl) :: 32 word) then Inl (Message_Too_Large (unat len))
          else case read_full (unat len) c1 of
            Inl e \<Rightarrow> Inl e
          | Inr (body, c2) \<Rightarrow> Inr (body ! 0, drop 1 body, c2))"

lemma read_full_shrinks:
  "read_full n c = Inr (bs, c') \<Longrightarrow> length bs = n \<and> length (incoming c) = n + length (incoming c') \<and>
     written c' = written c \<and> flushes c' = flushes c"
  by (auto simp: read_full_def split: if_splits)

lemma read_msg_shrinks:
  "read_msg cl c = Inr (t, p, c') \<Longrightarrow> length (incoming c') < length (incoming c) \<and> written c' = written c \<and> flushes c' = flushes c"
  by (auto simp: read_msg_def Let_def split: sum.splits if_splits dest!: read_full_shrinks)


subsection \<open>The exchange\<close>

text \<open>The loop that waits for the peer's extension handshake.\<close>

function wait_ext :: "bencode \<Rightarrow> client \<Rightarrow> conn \<Rightarrow> fetch_error + (int \<times> int \<times> conn)" where
  "wait_ext b cl c =
     (case read_msg cl c of
        Inl e \<Rightarrow> Inl e
      | Inr (t, payload, c1) \<Rightarrow>
          if t \<noteq> 20 then wait_ext b cl c1
          else if length payload = 0 then wait_ext b cl c1
          else if payload ! 0 \<noteq> 0 then wait_ext b cl c1
          else (case unmarshal_ext b (drop 1 payload) of
            None \<Rightarrow> wait_ext b cl c1
          | Some (ut, tot) \<Rightarrow> Inr (ut, tot, c1)))"
  by pat_completeness auto
termination
  by (relation "measure (\<lambda>(b, cl, c). length (incoming c))") (auto dest: read_msg_shrinks)

text \<open>The loop that waits for the data of piece \<open>i\<close>.\<close>

function wait_piece :: "bencode \<Rightarrow> client \<Rightarrow> nat \<Rightarrow> conn \<Rightarrow> fetch_error + (byte list \<times> conn)" where
  "wait_piece b cl i c =
     (case read_msg cl c of
        Inl e \<Rightarrow> Inl e
      | Inr (t, payload, c1) \<Rightarrow>
          if t \<noteq> 20 then wait_piece b cl i c1
          else if length payload = 0 then wait_piece b cl i c1
          else if payload ! 0 = 0 then wait_piece b cl i c1
          else (case decode_header b (drop 1 payload) of
            None \<Rightarrow> wait_piece b cl i c1
          | Some (h, rest) \<Rightarrow>
              if ph_type h \<noteq> 1 \<or> ph_piece h \<noteq> int i then wait_piece b cl i c1
              else Inr (rest, c1)))"
  by pat_completeness auto
termination
  by (relation "measure (\<lambda>(b, cl, i, c). length (incoming c))") (auto dest: read_msg_shrinks)

declare wait_ext.simps [simp del] wait_piece.simps [simp del]

text \<open>The loop over the pieces, with \<open>k\<close> pieces left from piece \<open>i\<close> on.\<close>

fun fetch_pieces :: "bencode \<Rightarrow> client \<Rightarrow> byte \<Rightarrow> nat \<Rightarrow> nat \<Rightarrow> byte list \<Rightarrow> conn \<Rightarrow> fetch_error + (byte list \<times> conn)" where
  "fetch_pieces b cl ext_id i 0 assembled c = Inr (assembled, c)"
| "fetch_pieces b cl ext_id i (Suc k) assembled c =
     (case marshal_request b i of
        None \<Rightarrow> Inl Marshal_Failed
      | Some req \<Rightarrow>
          (case send_msg 20 ext_id req c of
             Inl e \<Rightarrow> Inl e
           | Inr c1 \<Rightarrow>
               (case wait_piece b cl i c1 of
                  Inl e \<Rightarrow> Inl e
                | Inr (data, c2) \<Rightarrow> fetch_pieces b cl ext_id (i + 1) k (assembled @ data) c2)))"

fun go_join :: "string \<Rightarrow> string list \<Rightarrow> string" where
  "go_join sep [] = []"
| "go_join sep [x] = x"
| "go_join sep (x # y # ys) = x @ sep @ go_join sep (y # ys)"

definition decode_info :: "bencode \<Rightarrow> byte list \<Rightarrow> fetch_error + torrent_info" where
  "decode_info b data =
     (case unmarshal_info b data of
        None \<Rightarrow> Inl Bad_Info
      | Some info \<Rightarrow>
          if length (ri_files info) = 0 then
            Inr \<lparr>t_name = ri_name info, t_files = [\<lparr>fi_path = ri_name info, fi_size = ri_length info\<rparr>], t_total = ri_length info\<rparr>
          else
            Inr (fold (\<lambda>f r. r\<lparr>t_total := int64 (t_total r + rf_length f),
                               t_files := t_files r @ [\<lparr>fi_path = go_join ''/'' (rf_path f), fi_size = rf_length f\<rparr>]\<rparr>)
                   (ri_files info) \<lparr>t_name = ri_name info, t_files = [], t_total = 0\<rparr>))"

abbreviation piece_size :: int where "piece_size \<equiv> 16384"

definition num_pieces :: "int \<Rightarrow> nat" where
  "num_pieces tot = nat ((tot + piece_size - 1) div piece_size)"

definition fetch ::
    "bencode \<Rightarrow> client \<Rightarrow> byte list \<Rightarrow> byte list \<Rightarrow> conn option \<Rightarrow> fetch_error + torrent_info" where
  "fetch b cl infohash peer_id dialed =
     (case dialed of
        None \<Rightarrow> Inl Connect_Failed
      | Some c \<Rightarrow>
     (case send_handshake infohash peer_id c of
        Inl e \<Rightarrow> Inl e
      | Inr c1 \<Rightarrow>
     (case read_handshake c1 of
        Inl e \<Rightarrow> Inl e
      | Inr (reserved, peer_infohash, c2) \<Rightarrow>
          if reserved ! 5 AND 0x10 = 0 then Inl No_Extensions
          else if peer_infohash \<noteq> infohash then Inl Infohash_Mismatch
          else
     (case marshal_ext b of
        None \<Rightarrow> Inl Marshal_Failed
      | Some payload \<Rightarrow>
     (case send_msg 20 0 payload c2 of
        Inl e \<Rightarrow> Inl e
      | Inr c3 \<Rightarrow>
     (case wait_ext b cl c3 of
        Inl e \<Rightarrow> Inl e
      | Inr (ut, tot, c4) \<Rightarrow>
          if ut = 0 then Inl No_Ut_Metadata
          else if tot \<le> 0 \<or> tot > max_metadata_size cl then Inl (Bad_Metadata_Size tot)
          else
     (case fetch_pieces b cl (word_of_int ut) 0 (num_pieces tot) [] c4 of
        Inl e \<Rightarrow> Inl e
      | Inr (assembled, c5) \<Rightarrow>
          if sha1 assembled \<noteq> infohash then Inl Sha1_Mismatch
          else decode_info b assembled)))))))"


subsection \<open>Round trips\<close>

lemma read_full_append: "length bs = n \<Longrightarrow> read_full n (c\<lparr>incoming := bs @ rest\<rparr>) = Inr (bs, c\<lparr>incoming := rest\<rparr>)"
  by (simp add: read_full_def)

lemma length_protocol_name [simp]: "length protocol_name = 19"
  by (simp add: protocol_name_def)

lemma length_handshake [simp]: "length (handshake ih pid) = 68"
  by (simp add: handshake_def)

text \<open>A message that fits the limit.\<close>

definition fits :: "client \<Rightarrow> nat \<Rightarrow> bool" where
  "fits cl n \<longleftrightarrow> int (n + 2) \<le> max_msg_size cl \<and> max_msg_size cl < 2 ^ 32"

lemma read_message_lemma:
  assumes "fits cl (length p)"
  shows "read_msg cl (c\<lparr>incoming := message t x p @ rest\<rparr>) = Inr (t, x # p, c\<lparr>incoming := rest\<rparr>)"
proof -
  let ?n = "1 + 1 + length p"
  have n: "?n < 2 ^ 32" "0 \<le> max_msg_size cl" "max_msg_size cl < 2 ^ 32" "int ?n \<le> max_msg_size cl"
    using assms by (auto simp: fits_def)
  define w where "w = (word_of_nat ?n :: 32 word)"
  have w: "unat w = ?n" unfolding w_def using n(1) by (simp add: unat_of_nat del: of_nat_add of_nat_Suc)
  have get: "get_be (put_be 4 w) = w" by (rule get_put_be) simp
  have "w \<noteq> 0" using w by auto
  moreover have "\<not> w > word_of_int (max_msg_size cl)"
  proof -
    have "(word_of_int (max_msg_size cl) :: 32 word) = word_of_nat (nat (max_msg_size cl))" using n(2) by simp
    moreover have "nat (max_msg_size cl) < 2 ^ 32" using n(2,3) by (simp add: nat_less_iff)
    ultimately have "unat (word_of_int (max_msg_size cl) :: 32 word) = nat (max_msg_size cl)"
      by (simp only: unat_of_nat) simp
    then show ?thesis using n(4) by (simp add: word_less_nat_alt w)
  qed
  moreover have m: "message t x p = put_be 4 w @ t # x # p" by (simp add: message_def w_def)
  ultimately show ?thesis
    unfolding m append_assoc read_msg_def
    by (simp add: read_full_append[of "put_be 4 w" 4 "t # x # p @ rest" c, simplified] get Let_def w read_full_def)
qed

lemma read_handshake_lemma:
  assumes "length ih = 20"
  shows "read_handshake (c\<lparr>incoming := handshake ih pid @ rest\<rparr>) =
      Inr ([0, 0, 0, 0, 0, 0x10, 0, 0], ih, c\<lparr>incoming := rest\<rparr>)"
proof -
  have "go_copy (replicate 19 0) protocol_name = protocol_name" "go_copy (replicate 20 0) ih = ih"
    using assms by (simp_all add: go_copy_same)
  then show ?thesis
    unfolding read_handshake_def read_full_append[OF length_handshake]
    by (simp add: handshake_def assms)
qed

text \<open>
  What \<^verbatim>\<open>sendHandshake\<close> and \<^verbatim>\<open>sendMsg\<close> write, \<^verbatim>\<open>readHandshake\<close> and \<^verbatim>\<open>readMsg\<close> read back: the
  handshake with its extension bit and infohash, and every message within the size limit, byte for
  byte and without touching what follows.
\<close>

theorem wire_roundtrip:
  assumes "length ih = 20" and "fits cl (length p)"
  shows "read_handshake (c\<lparr>incoming := handshake ih pid @ rest\<rparr>) =
      Inr ([0, 0, 0, 0, 0, 0x10, 0, 0], ih, c\<lparr>incoming := rest\<rparr>) \<and>
    read_msg cl (c\<lparr>incoming := message t x p @ rest\<rparr>) = Inr (t, x # p, c\<lparr>incoming := rest\<rparr>)"
  using read_handshake_lemma[OF assms(1)] read_message_lemma[OF assms(2)] by blast

definition sample_client :: client where
  "sample_client = \<lparr>max_msg_size = 100, max_metadata_size = 1000\<rparr>"

definition sample_conn :: conn where
  "sample_conn = \<lparr>incoming = [], written = [], flushes = 9\<rparr>"

theorem wire_roundtrip_witness:
  "read_msg sample_client (sample_conn\<lparr>incoming := message 20 1 [7, 8, 9] @ [5]\<rparr>) = Inr (20, [1, 7, 8, 9], sample_conn\<lparr>incoming := [5]\<rparr>)"
  using wire_roundtrip[of "replicate 20 2" sample_client "[7, 8, 9]" "replicate 20 3" "[5]" sample_conn 20 1]
  by (simp add: fits_def sample_client_def)


subsection \<open>Authenticity and completeness\<close>

text \<open>
  C9. A fetch returns only what is decoded from bytes whose SHA-1 is the requested infohash, from a peer
  whose handshake named that infohash and the extension protocol. No peer can pass off other metadata.
\<close>

theorem fetch_authentic:
  assumes "fetch b cl infohash peer_id (Some c) = Inr info"
  shows "\<exists>data. sha1 data = infohash \<and> decode_info b data = Inr info \<and>
    take 19 (drop 1 (incoming c)) = protocol_name \<and> incoming c ! 0 = 0x13 \<and>
    take 20 (drop 28 (incoming c)) = infohash \<and> incoming c ! 25 AND 0x10 \<noteq> 0"
proof -
  from assms obtain c1 reserved c2 data where w: "send_handshake infohash peer_id c = Inr c1"
    and h: "read_handshake c1 = Inr (reserved, infohash, c2)" "reserved ! 5 AND 0x10 \<noteq> 0"
    and d: "sha1 data = infohash" "decode_info b data = Inr info"
    by (auto simp: fetch_def split: option.splits sum.splits if_splits)
  have inc: "incoming c1 = incoming c" using w by (auto simp: send_handshake_def write_flush_def split: if_splits)
  obtain buf where buf: "read_full 68 c1 = Inr (buf, c2)" "buf ! 0 = 0x13" "take 19 (drop 1 buf) = protocol_name"
    "reserved = take 8 (drop 20 buf)" "infohash = take 20 (drop 28 buf)"
    using h(1) by (auto simp: read_handshake_def split: sum.splits if_splits)
  then have b: "buf = take 68 (incoming c)" "68 \<le> length (incoming c)" using inc by (auto simp: read_full_def split: if_splits)
  have "take 19 (drop 1 (incoming c)) = protocol_name" using buf(3) by (simp add: b(1) take_drop min_def)
  moreover have "incoming c ! 0 = 0x13" using buf(2) b by simp
  moreover have "take 20 (drop 28 (incoming c)) = infohash" using buf(5) by (simp add: b(1) take_drop min_def)
  moreover have "incoming c ! 25 AND 0x10 \<noteq> 0" using h(2) buf(4) b by (simp add: b(1))
  ultimately show ?thesis using d by blast
qed


text \<open>Messages of other types, between the ones a fetch waits for.\<close>

definition noise :: "(byte \<times> byte \<times> byte list) list \<Rightarrow> byte list" where
  "noise ms = concat (map (\<lambda>(t, x, p). message t x p) ms)"

definition noise_ok :: "client \<Rightarrow> (byte \<times> byte \<times> byte list) list \<Rightarrow> bool" where
  "noise_ok cl ms = list_all (\<lambda>(t, x, p). t \<noteq> 20 \<and> fits cl (length p)) ms"

lemma noise_simps [simp]: "noise [] = []" "noise ((t, x, p) # ms) = message t x p @ noise ms"
  by (simp_all add: noise_def)

lemma wait_ext_noise:
  "noise_ok cl ms \<Longrightarrow> wait_ext b cl (c\<lparr>incoming := noise ms @ rest\<rparr>) = wait_ext b cl (c\<lparr>incoming := rest\<rparr>)"
proof (induction ms)
  case (Cons m ms)
  obtain t x p where m: "m = (t, x, p)" by (cases m)
  have "wait_ext b cl (c\<lparr>incoming := noise (m # ms) @ rest\<rparr>) = wait_ext b cl (c\<lparr>incoming := noise ms @ rest\<rparr>)"
    using Cons.prems by (subst wait_ext.simps) (simp add: m noise_ok_def read_message_lemma)
  then show ?case using Cons by (simp add: noise_ok_def)
qed simp

lemma wait_piece_noise:
  "noise_ok cl ms \<Longrightarrow> wait_piece b cl i (c\<lparr>incoming := noise ms @ rest\<rparr>) = wait_piece b cl i (c\<lparr>incoming := rest\<rparr>)"
proof (induction ms)
  case (Cons m ms)
  obtain t x p where m: "m = (t, x, p)" by (cases m)
  have "wait_piece b cl i (c\<lparr>incoming := noise (m # ms) @ rest\<rparr>) = wait_piece b cl i (c\<lparr>incoming := noise ms @ rest\<rparr>)"
    using Cons.prems by (subst wait_piece.simps) (simp add: m noise_ok_def read_message_lemma)
  then show ?case using Cons by (simp add: noise_ok_def)
qed simp

lemma wait_ext_message:
  assumes "fits cl (length e)" and "unmarshal_ext b e = Some (ut, tot)"
  shows "wait_ext b cl (c\<lparr>incoming := message 20 0 e @ rest\<rparr>) = Inr (ut, tot, c\<lparr>incoming := rest\<rparr>)"
  using assms by (subst wait_ext.simps) (simp add: read_message_lemma)

lemma wait_piece_message:
  assumes "fits cl (length p)" and "decode_header b p = Some (h, data)" and "ph_type h = 1" and "ph_piece h = int i" and "x \<noteq> 0"
  shows "wait_piece b cl i (c\<lparr>incoming := message 20 x p @ rest\<rparr>) = Inr (data, c\<lparr>incoming := rest\<rparr>)"
  using assms by (subst wait_piece.simps) (simp add: read_message_lemma)

text \<open>The pieces of the metadata, and the answer of an honest peer to the request for piece \<open>i\<close>.\<close>

definition piece_of :: "byte list \<Rightarrow> nat \<Rightarrow> byte list" where
  "piece_of data i = take 16384 (drop (16384 * i) data)"

record honest_peer =
  hp_ext :: "byte list"
  hp_header :: "nat \<Rightarrow> byte list"
  hp_noise0 :: "(byte \<times> byte \<times> byte list) list"
  hp_noise :: "nat \<Rightarrow> (byte \<times> byte \<times> byte list) list"

definition piece_stream :: "honest_peer \<Rightarrow> byte list \<Rightarrow> nat \<Rightarrow> byte list" where
  "piece_stream hp data i = noise (hp_noise hp i) @ message 20 1 (hp_header hp i @ piece_of data i)"

definition peer_stream :: "honest_peer \<Rightarrow> byte list \<Rightarrow> byte list \<Rightarrow> byte list \<Rightarrow> byte list" where
  "peer_stream hp ih pid data =
     handshake ih pid @ noise (hp_noise0 hp) @ message 20 0 (hp_ext hp) @
     concat (map (piece_stream hp data) [0..<num_pieces (int (length data))])"

definition honest :: "bencode \<Rightarrow> client \<Rightarrow> honest_peer \<Rightarrow> byte list \<Rightarrow> bool" where
  "honest b cl hp data \<longleftrightarrow>
     noise_ok cl (hp_noise0 hp) \<and> fits cl (length (hp_ext hp)) \<and>
     (\<exists>ut. ut \<noteq> 0 \<and> unmarshal_ext b (hp_ext hp) = Some (ut, int (length data))) \<and>
     (\<forall>i < num_pieces (int (length data)).
        noise_ok cl (hp_noise hp i) \<and> fits cl (length (hp_header hp i @ piece_of data i)) \<and>
        (\<exists>h. decode_header b (hp_header hp i @ piece_of data i) = Some (h, piece_of data i) \<and>
           ph_type h = 1 \<and> ph_piece h = int i))"

lemma pieces_concat: "concat (map (piece_of data) [0..<n]) = take (16384 * n) data"
proof (induction n)
  case (Suc n)
  have "take (16384 * Suc n) data = take (16384 * n) data @ take 16384 (drop (16384 * n) data)"
    by (simp add: take_add[symmetric] add.commute)
  then show ?case using Suc by (simp add: piece_of_def)
qed simp

lemma num_pieces_enough: "length data \<le> 16384 * num_pieces (int (length data))"
proof -
  define m where "m = (int (length data) + piece_size - 1) div piece_size"
  have "16384 * m + (int (length data) + piece_size - 1) mod piece_size = int (length data) + piece_size - 1"
    unfolding m_def by (rule mult_div_mod_eq)
  moreover have "(int (length data) + piece_size - 1) mod piece_size < piece_size" by simp
  ultimately have "int (length data) \<le> 16384 * m" "0 \<le> m" by linarith+
  moreover have "int (16384 * nat m) = 16384 * m" using \<open>0 \<le> m\<close> by simp
  ultimately have "int (length data) \<le> int (16384 * nat m)" by simp
  then show ?thesis unfolding num_pieces_def m_def[symmetric] by (simp only: of_nat_le_iff)
qed

lemma fetch_pieces_honest:
  assumes "honest b cl hp data" and "\<forall>i. marshal_request b i \<noteq> None"
  shows "i + k \<le> num_pieces (int (length data)) \<Longrightarrow> k \<le> fl \<Longrightarrow>
    \<exists>c'. fetch_pieces b cl x i k acc (c\<lparr>incoming := concat (map (piece_stream hp data) [i..<i + k]) @ rest, flushes := fl\<rparr>) =
      Inr (acc @ concat (map (piece_of data) [i..<i + k]), c')"
proof (induction k arbitrary: i acc c fl)
  case (Suc k)
  obtain req where req: "marshal_request b i = Some req" using assms(2) by blast
  obtain fl' where fl: "fl = Suc fl'" using Suc.prems(2) by (cases fl) auto
  have i: "i < num_pieces (int (length data))" using Suc.prems(1) by simp
  obtain h where h: "noise_ok cl (hp_noise hp i)" "fits cl (length (hp_header hp i @ piece_of data i))"
    "decode_header b (hp_header hp i @ piece_of data i) = Some (h, piece_of data i)" "ph_type h = 1" "ph_piece h = int i"
    using assms(1) i unfolding honest_def by blast
  have upt: "[i..<i + Suc k] = i # [Suc i..<Suc i + k]" by (simp add: upt_conv_Cons)
  define rst where "rst = concat (map (piece_stream hp data) [Suc i..<Suc i + k]) @ rest"
  define cin where "cin = c\<lparr>incoming := concat (map (piece_stream hp data) [i..<i + Suc k]) @ rest, flushes := fl\<rparr>"
  define c1 where "c1 = c\<lparr>written := written c @ message 20 x req, flushes := fl'\<rparr>"
  have send: "send_msg 20 x req cin =
      Inr (c1\<lparr>incoming := noise (hp_noise hp i) @ message 20 1 (hp_header hp i @ piece_of data i) @ rst\<rparr>)"
    unfolding cin_def upt by (simp add: send_msg_def write_flush_def fl c1_def piece_stream_def rst_def del: upt_Suc)
  have wait: "wait_piece b cl i (c1\<lparr>incoming := noise (hp_noise hp i) @ message 20 1 (hp_header hp i @ piece_of data i) @ rst\<rparr>) =
      Inr (piece_of data i, c1\<lparr>incoming := rst\<rparr>)"
    unfolding wait_piece_noise[OF h(1)] by (rule wait_piece_message[OF h(2-5)]) simp
  have step: "fetch_pieces b cl x i (Suc k) acc cin = fetch_pieces b cl x (Suc i) k (acc @ piece_of data i) (c1\<lparr>incoming := rst\<rparr>)"
    by (simp add: req send wait)
  have c1: "c1\<lparr>incoming := rst\<rparr> = c1\<lparr>incoming := concat (map (piece_stream hp data) [Suc i..<Suc i + k]) @ rest, flushes := fl'\<rparr>"
    by (simp add: c1_def rst_def del: upt_Suc)
  have "Suc i + k \<le> num_pieces (int (length data))" "k \<le> fl'" using Suc.prems fl by simp_all
  from Suc.IH[OF this, of "acc @ piece_of data i" c1, folded c1] obtain c' where
    "fetch_pieces b cl x (Suc i) k (acc @ piece_of data i) (c1\<lparr>incoming := rst\<rparr>) =
      Inr ((acc @ piece_of data i) @ concat (map (piece_of data) [Suc i..<Suc i + k]), c')"
    by (elim exE)
  then have "fetch_pieces b cl x i (Suc k) acc cin = Inr (acc @ concat (map (piece_of data) [i..<i + Suc k]), c')"
    unfolding step upt by (simp del: upt_Suc)
  then show ?case unfolding cin_def by blast
qed simp

lemma fetch_complete_lemma:
  assumes "honest b cl hp data" and "marshal_ext b \<noteq> None" and "\<forall>i. marshal_request b i \<noteq> None"
    and "data \<noteq> []" and "int (length data) \<le> max_metadata_size cl"
    and "incoming c = peer_stream hp (sha1 data) pid data" and "num_pieces (int (length data)) + 2 \<le> flushes c"
  shows "fetch b cl (sha1 data) peer_id (Some c) = decode_info b data"
proof -
  let ?n = "num_pieces (int (length data))"
  let ?ps = "concat (map (piece_stream hp data) [0..<?n])"
  obtain payload where pl: "marshal_ext b = Some payload" using assms(2) by blast
  obtain ut where ut: "ut \<noteq> 0" "unmarshal_ext b (hp_ext hp) = Some (ut, int (length data))"
    and hp: "noise_ok cl (hp_noise0 hp)" "fits cl (length (hp_ext hp))"
    using assms(1) unfolding honest_def by blast
  obtain k where k: "flushes c = Suc (Suc k)" "?n \<le> k" using assms(7) by (cases "flushes c"; cases "flushes c - 1") auto
  let ?s = "noise (hp_noise0 hp) @ message 20 0 (hp_ext hp) @ ?ps"
  define c1 where "c1 = c\<lparr>written := written c @ handshake (sha1 data) peer_id, flushes := Suc k\<rparr>"
  define c2 where "c2 = c1\<lparr>written := written c1 @ message 20 0 payload, flushes := k\<rparr>"
  have s1: "send_handshake (sha1 data) peer_id c = Inr (c1\<lparr>incoming := handshake (sha1 data) pid @ ?s\<rparr>)"
    by (simp add: send_handshake_def write_flush_def k(1) c1_def assms(6)[unfolded peer_stream_def, symmetric])
  have "fits cl 0" using hp(2) by (simp add: fits_def)
  then have hs: "read_handshake (c1\<lparr>incoming := handshake (sha1 data) pid @ ?s\<rparr>) = Inr ([0, 0, 0, 0, 0, 0x10, 0, 0], sha1 data, c1\<lparr>incoming := ?s\<rparr>)"
    using read_handshake_lemma[OF length_sha1] by simp
  have s2: "send_msg 20 0 payload (c1\<lparr>incoming := ?s\<rparr>) = Inr (c2\<lparr>incoming := ?s\<rparr>)"
    by (simp add: send_msg_def write_flush_def c2_def c1_def)
  have we: "wait_ext b cl (c2\<lparr>incoming := ?s\<rparr>) = Inr (ut, int (length data), c2\<lparr>incoming := ?ps\<rparr>)"
    by (simp add: wait_ext_noise[OF hp(1)] wait_ext_message[OF hp(2) ut(2)])
  have "c2\<lparr>incoming := ?ps\<rparr> = c2\<lparr>incoming := ?ps @ [], flushes := k\<rparr>" by (simp add: c2_def)
  then obtain c' where fp: "fetch_pieces b cl (word_of_int ut) 0 ?n [] (c2\<lparr>incoming := ?ps\<rparr>) =
      Inr (concat (map (piece_of data) [0..<?n]), c')"
    using fetch_pieces_honest[OF assms(1,3), where i = 0 and k = ?n and fl = k and x = "word_of_int ut" and acc = "[]"
        and c = c2 and rest = "[]", unfolded add_0 append_Nil, OF order_refl k(2)] by (metis (no_types))
  have "concat (map (piece_of data) [0..<?n]) = data"
    using num_pieces_enough[of data] by (simp add: pieces_concat)
  then show ?thesis
    using s1 hs s2 we fp assms(4,5) ut(1) by (simp add: fetch_def pl)
qed

text \<open>
  C22. Against a peer that speaks the protocol, offers the metadata of the infohash within the size limits
  and keeps the connection open, a fetch succeeds and returns the decoded metadata: with any number of
  pieces, and with any messages of other types in between.
\<close>

theorem fetch_complete:
  assumes "honest b cl hp data" and "marshal_ext b \<noteq> None" and "\<forall>i. marshal_request b i \<noteq> None"
    and "data \<noteq> []" and "int (length data) \<le> max_metadata_size cl"
    and "incoming c = peer_stream hp (sha1 data) pid data" and "num_pieces (int (length data)) + 2 \<le> flushes c"
  shows "fetch b cl (sha1 data) peer_id (Some c) = decode_info b data"
  by (rule fetch_complete_lemma[OF assms])

text \<open>A peer with three bytes of metadata that sends a message of another type first.\<close>

definition sample_bencode :: bencode where
  "sample_bencode = \<lparr>marshal_ext = Some [100], marshal_request = (\<lambda>i. Some [101]), unmarshal_ext = (\<lambda>bs. Some (3, 3)),
     decode_header = (\<lambda>bs. case bs of [] \<Rightarrow> None | p # rest \<Rightarrow> Some (\<lparr>ph_type = 1, ph_piece = uint p, ph_total = 3\<rparr>, rest)),
     unmarshal_info = (\<lambda>bs. Some \<lparr>ri_name = ''a'', ri_length = 7, ri_files = []\<rparr>)\<rparr>"

definition sample_peer :: honest_peer where
  "sample_peer = \<lparr>hp_ext = [50], hp_header = (\<lambda>i. [word_of_nat i]), hp_noise0 = [(5, 1, [2])], hp_noise = (\<lambda>i. [])\<rparr>"

lemma sample_honest: "honest sample_bencode sample_client sample_peer [1, 2, 3]"
  by (simp add: honest_def sample_peer_def sample_client_def sample_bencode_def noise_ok_def fits_def num_pieces_def piece_of_def)

lemma fetch_sample:
  "fetch sample_bencode sample_client (sha1 [1, 2, 3]) (replicate 20 1)
     (Some (sample_conn\<lparr>incoming := peer_stream sample_peer (sha1 [1, 2, 3]) (replicate 20 2) [1, 2, 3]\<rparr>)) =
   decode_info sample_bencode [1, 2, 3]"
  by (rule fetch_complete_lemma[OF sample_honest])
    (simp_all add: sample_bencode_def sample_client_def sample_conn_def num_pieces_def)

lemma decode_sample: "decode_info sample_bencode [1, 2, 3] = Inr \<lparr>t_name = ''a'', t_files = [\<lparr>fi_path = ''a'', fi_size = 7\<rparr>], t_total = 7\<rparr>"
  by (simp add: sample_bencode_def decode_info_def)

theorem fetch_complete_witness:
  "fetch sample_bencode sample_client (sha1 [1, 2, 3]) (replicate 20 1)
     (Some (sample_conn\<lparr>incoming := peer_stream sample_peer (sha1 [1, 2, 3]) (replicate 20 2) [1, 2, 3]\<rparr>)) =
   Inr \<lparr>t_name = ''a'', t_files = [\<lparr>fi_path = ''a'', fi_size = 7\<rparr>], t_total = 7\<rparr>"
  unfolding decode_sample[symmetric]
  by (rule fetch_complete[OF sample_honest])
    (simp_all add: sample_bencode_def sample_client_def sample_conn_def num_pieces_def)

theorem fetch_authentic_witness:
  "\<exists>data. sha1 data = sha1 [1, 2, 3] \<and>
     decode_info sample_bencode data = Inr \<lparr>t_name = ''a'', t_files = [\<lparr>fi_path = ''a'', fi_size = 7\<rparr>], t_total = 7\<rparr>"
proof -
  let ?c = "sample_conn\<lparr>incoming := peer_stream sample_peer (sha1 [1, 2, 3]) (replicate 20 2) [1, 2, 3]\<rparr>"
  have "fetch sample_bencode sample_client (sha1 [1, 2, 3]) (replicate 20 1) (Some ?c) =
      Inr \<lparr>t_name = ''a'', t_files = [\<lparr>fi_path = ''a'', fi_size = 7\<rparr>], t_total = 7\<rparr>"
    by (rule fetch_sample[unfolded decode_sample])
  from fetch_authentic[OF this] show ?thesis by blast
qed

end
