(* ===== verification/Indexer.thy ===== *)
theory Indexer
  imports Classify Metadata Server
begin

section \<open>The indexer (\<^verbatim>\<open>indexer/worker.go\<close>, \<^verbatim>\<open>indexer/index.go\<close>)\<close>

text \<open>
  The worker takes an infohash with peers, fetches the metadata from the first peer that delivers and
  stores and classifies the torrent; the reclassification goes over the torrents of the database again.
  \<open>up k\<close> says whether the database answers the \<open>k\<close>-th statement of an event; a statement that violates a
  constraint fails in any case. Metrics and log are left out.
\<close>

subsection \<open>Values for the database\<close>

definition null_text :: "runes \<Rightarrow> runes option" where
  "null_text s = (if s = [] then None else Some s)"

text \<open>\<^verbatim>\<open>int32(n)\<close> of a 64-bit \<^verbatim>\<open>int\<close> keeps the low 32 bits.\<close>

definition null_int4 :: "int \<Rightarrow> int option" where
  "null_int4 n = (if n = 0 then None else Some (int32 n))"

definition classify_params :: "classification \<Rightarrow> classified_fields" where
  "classify_params r =
     \<lparr>cf_quality = null_text (cl_quality r), cf_encoding = null_text (cl_encoding r),
      cf_dynamic_range = null_text (cl_dynamic_range r), cf_source = null_text (cl_source r),
      cf_release_group = null_text (cl_release_group r), cf_scene_name = null_text (cl_scene_name r),
      cf_title = null_text (cl_title r), cf_year = null_int4 (cl_year r), cf_season = null_int4 (cl_season r),
      cf_episode = null_int4 (cl_episode r)\<rparr>"

subsection \<open>Fetching and storing a torrent\<close>

text \<open>
  The peers are asked in parallel, as far as the rate limiter lets them start (\<open>granted\<close>); the first
  delivery fills the channel of capacity one and the others are discarded. \<open>arrival\<close> is the order in which
  the fetches end.
\<close>

fun first_delivery :: "(nat \<Rightarrow> 'i option) \<Rightarrow> nat list \<Rightarrow> 'i option" where
  "first_delivery result [] = None"
| "first_delivery result (k # ks) = (case result k of Some info \<Rightarrow> Some info | None \<Rightarrow> first_delivery result ks)"

definition fetch_from_peers ::
    "('p \<Rightarrow> torrent_info option) \<Rightarrow> (nat \<Rightarrow> bool) \<Rightarrow> nat list \<Rightarrow> 'p list \<Rightarrow> nat \<Rightarrow> torrent_info option" where
  "fetch_from_peers fetcher granted arrival ps w_max_peers =
     first_delivery (\<lambda>k. if k < w_max_peers \<and> (\<forall>j \<in> {0..k}. granted j) then fetcher (ps ! k) else None) arrival"

definition file_rows :: "string \<Rightarrow> cl_file list \<Rightarrow> file_row list" where
  "file_rows ih fs =
     map (\<lambda>f. \<lparr>fl_infohash = ih, fl_path = c_path f, fl_size = c_size f, fl_extension = Some (filepath_ext (c_path f)),
       fl_is_video = is_video_ext (filepath_ext (c_path f))\<rparr>) fs"

definition clean_files :: "torrent_info \<Rightarrow> cl_file list" where
  "clean_files info = map (\<lambda>f. \<lparr>c_path = to_valid_utf8 (fi_path f), c_size = fi_size f\<rparr>) (t_files info)"

definition store_torrent ::
    "(rune \<Rightarrow> rune) \<Rightarrow> classify_config \<Rightarrow> (nat \<Rightarrow> bool) \<Rightarrow> instant \<Rightarrow> string \<Rightarrow> torrent_info \<Rightarrow> torrent_db \<Rightarrow> torrent_db" where
  "store_torrent lower cfg up now ih info db =
     (let name = to_valid_utf8 (t_name info); fs = clean_files info in
      if contains_blocked_content name fs then db
      else case (if up 1 then upsert_torrent_pending now ih name (t_total info) (int (length (t_files info))) db else None) of
        None \<Rightarrow> db
      | Some (affected, db1) \<Rightarrow>
          if affected = 0 then db1
          else case (if up 2 then insert_torrent_files (file_rows ih fs) db1 else None) of
            None \<Rightarrow> db1
          | Some db2 \<Rightarrow>
              let c = classify lower name fs (t_total info) cfg
              in case (if up 3 then update_torrent_classified (cl_state c) (cl_content_type c) (classify_params c) ih db2 else None) of
                   None \<Rightarrow> db2
                 | Some db3 \<Rightarrow> db3)"

text \<open>
  \<^verbatim>\<open>process\<close>. With a limit of 0 concurrent peers the first \<^verbatim>\<open>g.Go\<close> waits forever, and there is no result.
\<close>

definition process_peers ::
    "(rune \<Rightarrow> rune) \<Rightarrow> classify_config \<Rightarrow> int \<Rightarrow> int \<Rightarrow> (byte list \<Rightarrow> addr \<Rightarrow> torrent_info option) \<Rightarrow>
     (nat \<Rightarrow> bool) \<Rightarrow> nat list \<Rightarrow> (nat \<Rightarrow> bool) \<Rightarrow> instant \<Rightarrow> discovered_peers \<Rightarrow> torrent_db \<Rightarrow> torrent_db option" where
  "process_peers lower cfg w_max_peers w_max_concurrent fetcher granted arrival up now ev db =
     (let ih = hex_encode (d_infohash ev) in
      if \<not> up 0 then Some db
      else if get_torrent_by_infohash ih db \<noteq> None then Some db
      else
        let n = min (int (length (d_peers ev))) w_max_peers in
        if n = 0 then Some db
        else if w_max_concurrent = 0 \<and> 0 < n \<and> granted 0 then None
        else case fetch_from_peers (fetcher (d_infohash ev)) granted arrival (d_peers ev) (nat n) of
          None \<Rightarrow> Some db
        | Some info \<Rightarrow> Some (store_torrent lower cfg up now ih info db))"

subsection \<open>Reclassification\<close>

record index_result =
  ix_scanned :: int
  ix_updated :: int

datatype index_error = Count_Failed | Index_Cancelled | Fetch_Failed | Files_Failed string | Update_Failed string

text \<open>Which calls of a run succeed: the count, the context at an offset, the page at an offset, and the calls for an infohash.\<close>

record index_env =
  ev_count_ok :: bool
  ev_alive :: "int \<Rightarrow> bool"
  ev_page_ok :: "int \<Rightarrow> bool"
  ev_files_ok :: "string \<Rightarrow> bool"
  ev_update_ok :: "string \<Rightarrow> bool"

definition resolve_state :: "torrent_state \<Rightarrow> torrent_state \<Rightarrow> torrent_state" where
  "resolve_state current classified =
     (case current of Pending \<Rightarrow> classified | Rejected \<Rightarrow> classified | _ \<Rightarrow> current)"

definition classify_row :: "(rune \<Rightarrow> rune) \<Rightarrow> classify_config \<Rightarrow> (runes \<times> int) list \<Rightarrow> index_row \<Rightarrow> classification" where
  "classify_row lower cfg fs t =
     classify lower (ir_name t) (map (\<lambda>(p, n). \<lparr>c_path = p, c_size = n\<rparr>) fs) (ir_total_size t) cfg"

type_synonym index_state = "index_result \<times> torrent_db"

fun index_batch ::
    "(rune \<Rightarrow> rune) \<Rightarrow> classify_config \<Rightarrow> index_env \<Rightarrow> bool \<Rightarrow> index_row list \<Rightarrow> index_state \<Rightarrow> index_state \<times> index_error option" where
  "index_batch lower cfg env dry [] st = (st, None)"
| "index_batch lower cfg env dry (t # ts) (res, db) =
     (let res1 = res\<lparr>ix_scanned := ix_scanned res + 1\<rparr> in
      if \<not> ev_files_ok env (ir_infohash t) then ((res1, db), Some (Files_Failed (ir_infohash t)))
      else
        let c = classify_row lower cfg (get_torrent_files (ir_infohash t) db) t;
            st = resolve_state (ir_state t) (cl_state c) in
        if cl_content_type c = ir_content_type t \<and> st = ir_state t then index_batch lower cfg env dry ts (res1, db)
        else
          let res2 = res1\<lparr>ix_updated := ix_updated res1 + 1\<rparr> in
          if dry then index_batch lower cfg env dry ts (res2, db)
          else case (if ev_update_ok env (ir_infohash t)
                     then update_torrent_classified st (cl_content_type c) (classify_params c) (ir_infohash t) db else None) of
            None \<Rightarrow> ((res2, db), Some (Update_Failed (ir_infohash t)))
          | Some db' \<Rightarrow> index_batch lower cfg env dry ts (res2, db'))"

abbreviation index_batch_size :: int where "index_batch_size \<equiv> 500"

function index_loop ::
    "(rune \<Rightarrow> rune) \<Rightarrow> classify_config \<Rightarrow> index_env \<Rightarrow> bool \<Rightarrow> int \<Rightarrow> int \<Rightarrow> index_state \<Rightarrow> index_state \<times> index_error option" where
  "index_loop lower cfg env dry tot off (res, db) =
     (if off < tot then
        if \<not> ev_alive env off then ((res, db), Some Index_Cancelled)
        else case (if ev_page_ok env off
                   then get_torrents_to_index (int32 off) index_batch_size db else None) of
          None \<Rightarrow> ((res, db), Some Fetch_Failed)
        | Some ts \<Rightarrow>
            (case index_batch lower cfg env dry ts (res, db) of
               (st, Some e) \<Rightarrow> (st, Some e)
             | (st, None) \<Rightarrow> index_loop lower cfg env dry tot (off + index_batch_size) st)
      else ((res, db), None))"
  by pat_completeness auto
termination
  by (relation "measure (\<lambda>(lower, cfg, env, dry, tot, off, st). nat (tot - off))") auto

declare index_loop.simps [simp del]

definition index_run ::
    "(rune \<Rightarrow> rune) \<Rightarrow> classify_config \<Rightarrow> index_env \<Rightarrow> bool \<Rightarrow> torrent_db \<Rightarrow> index_state \<times> index_error option" where
  "index_run lower cfg env dry db =
     (if \<not> ev_count_ok env then ((\<lparr>ix_scanned = 0, ix_updated = 0\<rparr>, db), Some Count_Failed)
      else index_loop lower cfg env dry (count_torrents db) 0 (\<lparr>ix_scanned = 0, ix_updated = 0\<rparr>, db))"

end
