(* ===== verification/Regexp_Correct.thy ===== *)
theory Regexp_Correct
  imports Go_Regexp
begin

section \<open>What the search of a regular expression finds\<close>

text \<open>
  The search is sound and complete for the matches of a pattern whose unbounded repetitions are of parts
  that consume something, and it finds a leftmost one.
\<close>

subsection \<open>The length of a match\<close>

fun min_len :: "regex \<Rightarrow> nat" where
  "min_len (Class neg rs) = 1"
| "min_len (Cat p q) = min_len p + min_len q"
| "min_len (Alt p q) = min (min_len p) (min_len q)"
| "min_len (Rep g lo hi p) = lo * min_len p"
| "min_len (Group k p) = min_len p"
| "min_len p = 0"

fun proper :: "regex \<Rightarrow> bool" where
  "proper (Cat p q) \<longleftrightarrow> proper p \<and> proper q"
| "proper (Alt p q) \<longleftrightarrow> proper p \<and> proper q"
| "proper (Rep g lo hi p) \<longleftrightarrow> proper p \<and> (hi = None \<longrightarrow> 0 < min_len p)"
| "proper (Group k p) \<longleftrightarrow> proper p"
| "proper p \<longleftrightarrow> True"

lemma matches_min_len: "matches ci p b w a \<Longrightarrow> min_len p \<le> length w"
proof (induction rule: matches.induct)
  case (m_rep_more hi ci p b v w a g lo)
  have "lo * min_len p \<le> min_len p + (lo - 1) * min_len p" by (cases lo) simp_all
  with m_rep_more.IH show ?case by simp
qed auto

subsection \<open>Completeness\<close>

lemma rep_grow: "st' \<in> set (rep m g lo n st) \<Longrightarrow> n \<le> n' \<Longrightarrow> st' \<in> set (rep m g lo n' st)"
proof (induction n arbitrary: n' lo st)
  case 0
  then show ?case by (cases n') (auto simp: Let_def split: if_splits)
next
  case (Suc n)
  then obtain k where k: "n' = Suc k" "n \<le> k" by (cases n') auto
  show ?case using Suc.prems(1) Suc.IH[OF _ k(2)] unfolding k(1) rep_Suc_iff by blast
qed

lemma rep_more:
  assumes "st1 \<in> set (m st)" "st' \<in> set (rep m g (lo - 1) n st1)"
  shows "st' \<in> set (rep m g lo (Suc n) st)"
  using assms unfolding rep_Suc_iff by blast

lemma run_complete:
  "matches ci p b w a \<Longrightarrow> proper p \<Longrightarrow> \<exists>cs'. (rev w @ b, a, cs') \<in> set (run ci p (b, w @ a, cs))"
proof (induction arbitrary: cs rule: matches.induct)
  case (m_cat ci p b v w a q)
  from m_cat.IH(1)[of cs] m_cat.prems obtain cs1 where cs1: "(rev v @ b, w @ a, cs1) \<in> set (run ci p (b, v @ w @ a, cs))" by auto
  from m_cat.IH(2)[of cs1] m_cat.prems obtain cs2 where "(rev w @ rev v @ b, a, cs2) \<in> set (run ci q (rev v @ b, w @ a, cs1))" by auto
  with cs1 show ?case by (auto intro!: exI[of _ cs2] bexI[of _ "(rev v @ b, w @ a, cs1)"])
next
  case (m_rep_end ci g hi p b a)
  have "(b, a, cs) \<in> set (rep (run ci p) g 0 n (b, a, cs))" for n by (cases n) (auto simp: Let_def)
  then show ?case by auto
next
  case (m_rep_more hi ci p b v w a g lo)
  from m_rep_more.IH(1)[of cs] m_rep_more.prems
  obtain cs1 where cs1: "(rev v @ b, w @ a, cs1) \<in> set (run ci p (b, v @ w @ a, cs))" by auto
  have "proper (Rep g (lo - 1) (map_option (\<lambda>n. n - 1) hi) p)" using m_rep_more.prems by simp
  from m_rep_more.IH(2)[OF this, of cs1] obtain cs2 where
    cs2: "(rev w @ rev v @ b, a, cs2) \<in> set (rep (run ci p) g (lo - 1)
      (case map_option (\<lambda>n. n - 1) hi of None \<Rightarrow> lo - 1 + length (w @ a) | Some n \<Rightarrow> n) (rev v @ b, w @ a, cs1))"
    unfolding run.simps by blast
  obtain n where n: "(case hi of None \<Rightarrow> lo + length ((v @ w) @ a) | Some n \<Rightarrow> n) = Suc n"
    "(case map_option (\<lambda>n. n - 1) hi of None \<Rightarrow> lo - 1 + length (w @ a) | Some n \<Rightarrow> n) \<le> n"
  proof (cases hi)
    case None
    with m_rep_more.prems matches_min_len[OF m_rep_more.hyps(2)] have "0 < length v" by (metis proper.simps(3) le_zero_eq not_gr_zero)
    then have "lo + length ((v @ w) @ a) = Suc (lo + length ((v @ w) @ a) - 1)"
      "lo - 1 + length (w @ a) \<le> lo + length ((v @ w) @ a) - 1" by (simp_all, arith)
    then show ?thesis using None that[of "lo + length ((v @ w) @ a) - 1"] by (simp only: option.case option.map)
  next
    case (Some k)
    with m_rep_more.hyps(1) show ?thesis using that[of "k - 1"] by simp
  qed
  have "(rev w @ rev v @ b, a, cs2) \<in> set (rep (run ci p) g lo (Suc n) (b, v @ w @ a, cs))"
    by (rule rep_more[OF cs1 rep_grow[OF cs2 n(2)]])
  then show ?case unfolding run.simps rev_append append_assoc n(1)[unfolded append_assoc] by blast
next
  case (m_group ci p b w a k)
  from m_group.IH[of cs] m_group.prems obtain cs' where "(rev w @ b, a, cs') \<in> set (run ci p (b, w @ a, cs))" by auto
  then show ?case by force
qed auto

subsection \<open>The search\<close>

text \<open>What it means for a match to be a leftmost one.\<close>

definition match_at :: "regexp \<Rightarrow> runes \<Rightarrow> nat \<Rightarrow> runes \<Rightarrow> bool" where
  "match_at re s i w \<longleftrightarrow> (\<exists>a. s = take i s @ w @ a \<and> matches (re_fold re) (re_prog re) (rev (take i s)) w a)"

definition leftmost :: "regexp \<Rightarrow> runes \<Rightarrow> re_match \<Rightarrow> bool" where
  "leftmost re s m \<longleftrightarrow>
     s = m_before m @ m_text m @ m_after m \<and> match_at re s (length (m_before m)) (m_text m) \<and>
     (\<forall>i < length (m_before m). \<forall>w. \<not> match_at re s i w) \<and>
     set (m_caps m) \<subseteq> group_texts (re_fold re) (re_prog re)"

lemma find_from_Some:
  assumes "find_from ci p b a = Some m"
  shows "rev b @ a = m_before m @ m_text m @ m_after m \<and> length b \<le> length (m_before m) \<and>
    matches ci p (rev (m_before m)) (m_text m) (m_after m) \<and> set (m_caps m) \<subseteq> group_texts ci p \<and>
    (\<forall>i. length b \<le> i \<longrightarrow> i < length (m_before m) \<longrightarrow>
      run ci p (rev (take i (rev b @ a)), drop i (rev b @ a), []) = [])"
  using assms
proof (induction a arbitrary: b)
  case Nil
  then obtain b' a' cs where r: "(b', a', cs) \<in> set (run ci p (b, [], []))"
    "m = \<lparr>m_before = rev b, m_text = rev (take (length b' - length b) b'), m_after = a', m_caps = cs\<rparr>"
    by (subst (asm) find_from.simps) (auto split: list.splits)
  from run_sound[OF r(1)] show ?case by (auto simp: consumes_def r(2))
next
  case (Cons r a)
  show ?case
  proof (cases "run ci p (b, r # a, [])")
    case Nil
    then have "find_from ci p (r # b) a = Some m" using Cons.prems by (subst (asm) find_from.simps) simp
    from Cons.IH[OF this] have IH: "rev (r # b) @ a = m_before m @ m_text m @ m_after m"
      "length (r # b) \<le> length (m_before m)" "matches ci p (rev (m_before m)) (m_text m) (m_after m)"
      "set (m_caps m) \<subseteq> group_texts ci p"
      "\<And>i. length (r # b) \<le> i \<Longrightarrow> i < length (m_before m) \<Longrightarrow>
         run ci p (rev (take i (rev (r # b) @ a)), drop i (rev (r # b) @ a), []) = []" by blast+
    have "run ci p (rev (take i (rev b @ r # a)), drop i (rev b @ r # a), []) = []"
      if "length b \<le> i" "i < length (m_before m)" for i
      using that IH(5)[of i] Nil by (cases "i = length b") simp_all
    with IH show ?thesis by simp
  next
    case (Cons st sts)
    obtain b' a' cs where st: "st = (b', a', cs)" by (cases st)
    from Cons have "(b', a', cs) \<in> set (run ci p (b, r # a, []))" by (simp add: st)
    from run_sound[OF this] show ?thesis
      using Cons.prems Cons by (subst (asm) find_from.simps) (auto simp: consumes_def st)
  qed
qed

lemma find_from_None:
  "find_from ci p b a = None \<Longrightarrow> length b \<le> i \<Longrightarrow> i \<le> length (rev b @ a) \<Longrightarrow>
    run ci p (rev (take i (rev b @ a)), drop i (rev b @ a), []) = []"
proof (induction a arbitrary: b)
  case Nil
  then show ?case by (subst (asm) find_from.simps) (auto split: list.splits)
next
  case (Cons r a)
  from Cons.prems(1) have here: "run ci p (b, r # a, []) = []" and later: "find_from ci p (r # b) a = None"
    by (subst (asm) find_from.simps, auto split: list.splits)+
  show ?case
  proof (cases "i = length b")
    case False
    with Cons.IH[OF later] Cons.prems show ?thesis by simp
  qed (simp add: here)
qed

lemma no_match_at:
  assumes "run (re_fold re) (re_prog re) (rev (take i s), drop i s, []) = []" and "proper (re_prog re)" and "i \<le> length s"
  shows "\<not> match_at re s i w"
proof
  assume "match_at re s i w"
  then obtain a where a: "s = take i s @ w @ a" "matches (re_fold re) (re_prog re) (rev (take i s)) w a"
    unfolding match_at_def by blast
  from a(1) have "drop i s = w @ a" by (metis append_eq_conv_conj append_take_drop_id same_append_eq)
  with run_complete[OF a(2) assms(2), of "[]"] assms(1) show False by auto
qed

lemma match_at_length: "match_at re s i w \<Longrightarrow> i \<le> length s \<or> w = []"
  unfolding match_at_def by (cases "i \<le> length s") auto

lemma find_match_Some:
  assumes "find_match re s = Some m" "proper (re_prog re)"
  shows "leftmost re s m"
proof -
  from find_from_Some[OF assms(1)[unfolded find_match_def]]
  have m: "s = m_before m @ m_text m @ m_after m" "matches (re_fold re) (re_prog re) (rev (m_before m)) (m_text m) (m_after m)"
    "set (m_caps m) \<subseteq> group_texts (re_fold re) (re_prog re)"
    "\<And>i. i < length (m_before m) \<Longrightarrow> run (re_fold re) (re_prog re) (rev (take i s), drop i s, []) = []" by auto
  have "take (length (m_before m)) s = m_before m" using arg_cong[OF m(1), of "take (length (m_before m))"] by simp
  then have "match_at re s (length (m_before m)) (m_text m)" using m(1,2) by (auto simp: match_at_def)
  moreover have "\<not> match_at re s i w" if "i < length (m_before m)" for i w
    using that arg_cong[OF m(1), of length] by (intro no_match_at[OF m(4)] assms(2)) simp_all
  ultimately show ?thesis using m by (simp add: leftmost_def)
qed

lemma find_match_None:
  assumes "find_match re s = None" "proper (re_prog re)" "i \<le> length s"
  shows "\<not> match_at re s i w"
  using find_from_None[OF assms(1)[unfolded find_match_def], of i] assms(2,3)
  by (intro no_match_at) simp_all

lemma match_string_iff:
  assumes "proper (re_prog re)"
  shows "match_string re s \<longleftrightarrow> (\<exists>i w. i \<le> length s \<and> match_at re s i w)"
proof (cases "find_match re s")
  case None
  with find_match_None[OF None assms] show ?thesis by (auto simp: match_string_def)
next
  case (Some m)
  from find_match_Some[OF Some assms] have m: "s = m_before m @ m_text m @ m_after m"
    "match_at re s (length (m_before m)) (m_text m)" by (auto simp: leftmost_def)
  from arg_cong[OF m(1), of length] have "length (m_before m) \<le> length s" by simp
  with m(2) have "\<exists>i w. i \<le> length s \<and> match_at re s i w" by blast
  then show ?thesis by (simp add: match_string_def Some)
qed

end
