(* ===== verification/Classify_Correct.thy ===== *)
theory Classify_Correct
  imports Classify Regexp_Correct
begin

section \<open>What a classification says\<close>

subsection \<open>The patterns\<close>

text \<open>
  Every pattern of the classifier repeats without bound only parts that consume something, so that the
  search finds a match exactly when there is one.
\<close>

definition all_patterns :: "regexp list" where
  "all_patterns = title_cut_patterns @
     [episode_number_pattern, re_release_group, re_adult, re_encoding_broad, re_www_site_prefix, re_bracket_site_prefix,
      re_anime_bracket_prefix, re_anime_fansub_group, re_anime_streaming_source, re_anime_absolute_episode,
      re_anime_ep_format, re_anime_numeric_episode, re_anime_bracket_episode, re_software, re_blocked_content]"

lemma proper_lit [simp]: "proper (lit s)"
  by (induction s) (simp_all add: lit_def)

lemma min_len_lit [simp]: "min_len (lit s) = length s"
  by (induction s) (simp_all add: lit_def)

lemma proper_combinators [simp]:
  "proper (rune_lit r)" "proper digit" "proper space" "proper non_space" "proper word_char" "proper any_char"
  "proper (opt p) = proper p" "proper (between lo hi p) = proper p" "proper (times n p) = proper p"
  "proper (star p) \<longleftrightarrow> proper p \<and> 0 < min_len p" "proper (plus p) \<longleftrightarrow> proper p \<and> 0 < min_len p"
  "proper (lazy_plus p) \<longleftrightarrow> proper p \<and> 0 < min_len p"
  "proper (wd s)" "proper (wd_stem s)"
  by (simp_all add: rune_lit_def digit_def space_def non_space_def word_char_def any_char_def opt_def between_def times_def
      star_def plus_def lazy_plus_def wd_def wd_stem_def seqs_def)

lemma min_len_combinators [simp]:
  "min_len digit = 1" "min_len space = 1" "min_len non_space = 1" "min_len word_char = 1" "min_len any_char = 1"
  "min_len (between lo hi p) = lo * min_len p"
  by (simp_all add: digit_def space_def non_space_def word_char_def any_char_def between_def)

lemma seqs_simps [simp]:
  "proper (seqs []) = True" "proper (seqs (p # ps)) \<longleftrightarrow> proper p \<and> proper (seqs ps)"
  "min_len (seqs []) = 0" "min_len (seqs (p # ps)) = min_len p + min_len (seqs ps)"
  by (simp_all add: seqs_def)

lemma patterns_proper: "p \<in> set all_patterns \<Longrightarrow> proper (re_prog p)"
proof -
  have "list_all (\<lambda>p. proper (re_prog p)) all_patterns"
    by (simp add: all_patterns_def title_cut_patterns_def pattern_defs)
  then show "p \<in> set all_patterns \<Longrightarrow> proper (re_prog p)" by (simp add: list_all_iff)
qed

subsection \<open>Matches of the parts of a pattern\<close>

lemma matches_seqs [simp]:
  "matches ci (seqs []) b w a \<longleftrightarrow> w = []"
  "matches ci (seqs (p # ps)) b w a \<longleftrightarrow>
     (\<exists>v u. w = v @ u \<and> matches ci p b v (u @ a) \<and> matches ci (seqs ps) (rev v @ b) u a)"
  by (auto simp: seqs_def intro: m_cat)

lemma matches_alts: "matches ci (alts ps) b w a \<longleftrightarrow> (\<exists>p \<in> set ps. matches ci p b w a)"
  by (induction ps rule: alts.induct) (auto simp: in_class_def in_ranges_def list_ex_iff)

lemma matches_rep_class_aux:
  "matches ci p b w a \<Longrightarrow> p = Rep g lo hi (Class neg rs) \<Longrightarrow>
    list_all (in_class ci neg rs) w \<and> lo \<le> length w \<and> (\<forall>n. hi = Some n \<longrightarrow> length w \<le> n)"
proof (induction arbitrary: lo hi rule: matches.induct)
  case (m_rep_more hi' ci p b v w a g' lo')
  then have eq: "g' = g" "lo' = lo" "hi' = hi" "p = Class neg rs" by simp_all
  from m_rep_more.hyps(2) eq obtain r where v: "v = [r]" "in_class ci neg rs r" by auto
  from m_rep_more.IH(2)[of "lo - 1" "map_option (\<lambda>n. n - 1) hi"] eq
  have IH: "list_all (in_class ci neg rs) w" "lo - 1 \<le> length w" "\<forall>n. map_option (\<lambda>n. n - 1) hi = Some n \<longrightarrow> length w \<le> n"
    by simp_all
  have "length (v @ w) \<le> n" if "hi = Some n" for n
    using IH(3) m_rep_more.hyps(1) eq that by (cases n) (auto simp: v)
  with IH v show ?case by auto
qed auto

lemmas matches_rep_class = matches_rep_class_aux[OF _ refl]

lemma in_class_digit: "in_class ci False [(48, 57)] r \<longleftrightarrow> is_digit r"
  by (auto simp: in_class_def in_ranges_def is_digit_def orbit_def)

lemma matches_digits:
  "matches ci (between lo hi digit) b w a \<Longrightarrow> list_all is_digit w \<and> lo \<le> length w \<and> length w \<le> hi"
  "matches ci (times n digit) b w a \<Longrightarrow> list_all is_digit w \<and> length w = n"
  "matches ci (Rep True lo None digit) b w a \<Longrightarrow> list_all is_digit w \<and> lo \<le> length w"
  using matches_rep_class[of ci True _ _ False "[(48, 57)]" b w a]
  by (force simp: between_def times_def digit_def in_class_digit cong: list.pred_cong)+

lemma matches_lit_exact: "matches False (lit s) b w a \<longleftrightarrow> w = asc s"
  by (induction s arbitrary: b w) (auto simp: lit_def matches_cat in_class_def in_ranges_def)

lemma groups_lit [simp]: "groups (lit s) = []"
  by (induction s) (simp_all add: lit_def)

lemma groups_seqs [simp]: "groups (seqs []) = []" "groups (seqs (p # ps)) = groups p @ groups (seqs ps)"
  by (simp_all add: seqs_def)

lemma groups_combinators [simp]:
  "groups digit = []" "groups space = []" "groups non_space = []" "groups (opt p) = groups p" "groups (star p) = groups p"
  "groups (plus p) = groups p" "groups (between lo hi p) = groups p" "groups (times n p) = groups p"
  by (simp_all add: digit_def space_def non_space_def opt_def star_def plus_def between_def times_def)

subsection \<open>Numbers in a name\<close>

lemma submatch_group:
  assumes "find_match re s = Some m" "proper (re_prog re)" "k \<noteq> 0"
  shows "submatch m k = [] \<or> (\<exists>q b a. (k, q) \<in> set (groups (re_prog re)) \<and> matches (re_fold re) q b (submatch m k) a)"
proof (cases "map_of (m_caps m) k")
  case (Some t)
  then have "(k, t) \<in> group_texts (re_fold re) (re_prog re)"
    using find_match_Some[OF assms(1,2)] by (auto simp: leftmost_def dest!: map_of_SomeD)
  then show ?thesis using assms(3) Some by (auto simp: group_texts_def submatch_def)
qed (simp add: submatch_def assms(3))

lemma episode_groups:
  "groups (re_prog episode_number_pattern) =
     [(1, between 1 2 digit), (2, between 1 2 digit), (3, between 1 2 digit), (4, Rep True 2 None digit), (5, between 1 2 digit),
      (6, between 1 2 digit), (7, between 1 4 digit), (8, between 2 4 digit)]"
  by (simp add: episode_number_pattern_def)

lemma episode_submatch:
  assumes "find_match episode_number_pattern s = Some m" "k \<noteq> 0"
  shows "list_all is_digit (submatch m k) \<and> (k \<in> {1, 2, 3, 5, 6} \<longrightarrow> length (submatch m k) \<le> 2)"
  using submatch_group[OF assms(1) patterns_proper assms(2)]
  by (auto simp: all_patterns_def episode_groups dest!: matches_digits)

lemma season_groups: "groups (re_prog season_number_pattern) = [(1, between 1 2 digit)]"
  by (simp add: season_number_pattern_def)

lemma two_digits: "list_all is_digit t \<Longrightarrow> length t \<le> 2 \<Longrightarrow> 0 \<le> atoi t \<and> atoi t \<le> 99"
  using atoi_bounds[of t] power_increasing[of "length t" 2 "10 :: int"] by auto

lemma atoi_int64: "list_all is_digit t \<Longrightarrow> 0 \<le> atoi t \<and> atoi t < 2 ^ 63"
proof (cases "t = []")
  case False
  assume "list_all is_digit t"
  with False show ?thesis using atoi_bounds[of t] by (simp add: atoi_digits)
qed (simp add: atoi_def)

lemma detect_tv_bounds:
  "0 \<le> tv_season (detect_tv s) \<and> tv_season (detect_tv s) \<le> 99 \<and> 0 \<le> tv_episode (detect_tv s) \<and> tv_episode (detect_tv s) < 2 ^ 63"
proof (cases "find_match episode_number_pattern s")
  case (Some m)
  have two: "0 \<le> atoi (submatch m k) \<and> atoi (submatch m k) \<le> 99" if "k \<in> {1, 3, 6}" for k
    using episode_submatch[OF Some, of k] that by (intro two_digits) auto
  have ep: "0 \<le> atoi (submatch m k) \<and> atoi (submatch m k) < 2 ^ 63" if "k \<noteq> 0" for k
    using episode_submatch[OF Some that] by (intro atoi_int64) simp
  show ?thesis
    using two[of 1] two[of 3] two[of 6] ep[of 2] ep[of 4] ep[of 5] ep[of 7] ep[of 8]
    by (simp add: detect_tv_def Some Let_def)
next
  case None
  then show ?thesis
    by (simp add: detect_tv_def Let_def split: option.split)
qed

definition year_body :: regex where
  "year_body = alts [seqs [lit ''19'', times 2 digit], seqs [lit ''20'', Class False [(48, 51)], digit]]"

lemma year_value:
  assumes "matches False year_body b t a"
  shows "1900 \<le> atoi t \<and> atoi t \<le> 2039"
proof -
  have "(\<exists>c d. t = [49, 57, c, d] \<and> is_digit c \<and> is_digit d) \<or>
      (\<exists>c d. t = [50, 48, c, d] \<and> 48 \<le> c \<and> c \<le> 51 \<and> is_digit d)"
    using assms
    by (auto simp: year_body_def matches_alts matches_lit_exact digit_def is_digit_def in_class_def in_ranges_def numeral_2_eq_2 length_Suc_conv
        dest!: matches_digits[unfolded digit_def])
  then show ?thesis by (auto simp: atoi_def digits_val_def is_digit_def)
qed

text \<open>
  The numbers of a classification: the season has at most two digits, the year is absent or between 1900
  and 2039, and the episode is a 64-bit number.
\<close>

lemma classify_numbers:
  "0 \<le> cl_season (classify lower name fs total_size cfg) \<and> cl_season (classify lower name fs total_size cfg) \<le> 99 \<and>
   0 \<le> cl_episode (classify lower name fs total_size cfg) \<and> cl_episode (classify lower name fs total_size cfg) < 2 ^ 63 \<and>
   cl_year (classify lower name fs total_size cfg) \<in> insert 0 {1900..2039}"
proof -
  have "atoi (submatch m 1) \<in> insert 0 {1900..2039}" if "find_match re_year s = Some m" for s m
  proof -
    have g: "groups (re_prog re_year) = [(1, year_body)]" "re_fold re_year = False"
      by (simp_all add: re_year_def year_body_def)
    have "proper (re_prog re_year)" by (rule patterns_proper) (simp add: all_patterns_def title_cut_patterns_def)
    from submatch_group[OF that this, of 1] have "submatch m 1 = [] \<or> (\<exists>b a. matches False year_body b (submatch m 1) a)"
      unfolding g by auto
    then show ?thesis
    proof
      assume "submatch m 1 = []"
      then show ?thesis by (simp add: atoi_def)
    qed (auto dest: year_value)
  qed
  then show ?thesis
    using detect_tv_bounds by (auto simp: classify_def Let_def split: option.split)
qed

subsection \<open>The title\<close>

lemma find_start_Some:
  assumes "find_start re s = Some i" "proper (re_prog re)"
  shows "(\<exists>w. match_at re s i w) \<and> (\<forall>j < i. \<forall>w. \<not> match_at re s j w) \<and> i \<le> length s"
proof -
  from assms(1) obtain m where m: "find_match re s = Some m" "i = length (m_before m)" by (auto simp: find_start_def)
  from find_match_Some[OF m(1) assms(2)] have l: "s = m_before m @ m_text m @ m_after m"
    "match_at re s i (m_text m)" "\<forall>j < i. \<forall>w. \<not> match_at re s j w" by (auto simp: leftmost_def m(2))
  from arg_cong[OF l(1), of length] l m(2) show ?thesis by auto
qed

lemma cut_at_spec:
  assumes "\<forall>p \<in> set ps. proper (re_prog p)" "n0 \<le> length s"
  shows "cut_at ps s n0 \<le> n0 \<and> (\<forall>p \<in> set ps. \<forall>j w. j < cut_at ps s n0 \<longrightarrow> \<not> match_at p s j w) \<and>
    (cut_at ps s n0 = n0 \<or> (\<exists>p \<in> set ps. \<exists>w. match_at p s (cut_at ps s n0) w))"
  using assms
proof (induction ps arbitrary: n0)
  case (Cons p ps)
  define n1 where "n1 = (case find_start p s of None \<Rightarrow> n0 | Some i \<Rightarrow> if i < n0 then i else n0)"
  have step: "cut_at (p # ps) s n0 = cut_at ps s n1" by (simp add: cut_at_def n1_def)
  have n1: "n1 \<le> n0" by (auto simp: n1_def split: option.split)
  have pr: "proper (re_prog p)" using Cons.prems(1) by simp
  have p: "\<not> match_at p s j w" if "j < n1" for j w
  proof (cases "find_start p s")
    case None
    then show ?thesis
      using find_match_None[OF _ pr, of s j] that n1 Cons.prems(2) by (auto simp: find_start_def)
  next
    case (Some i)
    then show ?thesis using find_start_Some[OF Some pr] that by (auto simp: n1_def split: if_splits)
  qed
  have at: "n1 = n0 \<or> (\<exists>w. match_at p s n1 w)"
    using find_start_Some[OF _ pr] by (auto simp: n1_def split: option.split)
  have "n1 \<le> length s" using n1 Cons.prems(2) by simp
  from Cons.IH[OF _ this] Cons.prems(1) have IH: "cut_at ps s n1 \<le> n1"
    "\<forall>p \<in> set ps. \<forall>j w. j < cut_at ps s n1 \<longrightarrow> \<not> match_at p s j w"
    "cut_at ps s n1 = n1 \<or> (\<exists>p \<in> set ps. \<exists>w. match_at p s (cut_at ps s n1) w)" by simp_all
  have "\<not> match_at p s j w" if "j < cut_at ps s n1" for j w
    using that IH(1) p by simp
  moreover have "cut_at ps s n1 = n0 \<or> (\<exists>p \<in> set (p # ps). \<exists>w. match_at p s (cut_at ps s n1) w)"
    using IH(3) at by auto
  ultimately show ?case unfolding step using IH(1,2) n1 by auto
qed (simp add: cut_at_def)

text \<open>
  The title is what stands before the first tag: no tag pattern matches anywhere before the cut, and the
  cut is the end of the name or the start of a tag.
\<close>

theorem title_before_tags:
  "\<exists>n \<le> length s. extract_title s = trim_title (take n s) \<and>
    (\<forall>p \<in> set title_cut_patterns. \<forall>j w. j < n \<longrightarrow> \<not> match_at p s j w) \<and>
    (n = length s \<or> (\<exists>p \<in> set title_cut_patterns. \<exists>w. match_at p s n w))"
  using cut_at_spec[of title_cut_patterns "length s" s] patterns_proper
  by (intro exI[of _ "cut_at title_cut_patterns s (length s)"]) (auto simp: extract_title_def all_patterns_def)

theorem title_before_tags_witness:
  "\<exists>n \<le> 8. extract_title (asc ''Up 2009 '') = trim_title (take n (asc ''Up 2009 ''))"
proof -
  obtain n where n: "n \<le> length (asc ''Up 2009 '')" "extract_title (asc ''Up 2009 '') = trim_title (take n (asc ''Up 2009 ''))"
    using title_before_tags[of "asc ''Up 2009 ''"] by blast
  then have "n \<le> 8" by simp
  with n(2) show ?thesis by blast
qed

subsection \<open>The verdict\<close>

definition occurs :: "regexp \<Rightarrow> runes \<Rightarrow> bool" where
  "occurs re s \<longleftrightarrow> (\<exists>i w. i \<le> length s \<and> match_at re s i w)"

definition is_video_file :: "(rune \<Rightarrow> rune) \<Rightarrow> cl_file \<Rightarrow> bool" where
  "is_video_file lower f \<longleftrightarrow> is_video_ext (to_lower lower (filepath_ext (c_path f)))"

definition is_allowed_file :: "(rune \<Rightarrow> rune) \<Rightarrow> classify_config \<Rightarrow> cl_file \<Rightarrow> bool" where
  "is_allowed_file lower cfg f \<longleftrightarrow> to_lower lower (filepath_ext (c_path f)) \<in> set (allowed_exts cfg)"

lemma analyze_files_counts:
  "analyze_files lower (allowed_exts cfg) fs =
    (length (filter (is_video_file lower) fs),
     length (filter (\<lambda>f. \<not> is_video_file lower f \<and> \<not> is_allowed_file lower cfg f) fs))"
  by (induction fs) (auto simp: Let_def is_video_file_def is_allowed_file_def)

definition acceptable ::
    "(rune \<Rightarrow> rune) \<Rightarrow> content_type \<Rightarrow> runes \<Rightarrow> runes \<Rightarrow> cl_file list \<Rightarrow> int \<Rightarrow> classify_config \<Rightarrow> bool" where
  "acceptable lower ct name normalized fs total_size cfg \<longleftrightarrow>
     min_size cfg \<le> total_size \<and> total_size \<le> max_size cfg \<and>
     (exclude_adult cfg \<longrightarrow> \<not> occurs re_adult name \<and> \<not> occurs re_adult normalized) \<and>
     \<not> occurs re_software name \<and> \<not> occurs re_software normalized \<and> ct \<noteq> Unknown_Type \<and>
     (fs \<noteq> [] \<longrightarrow> (\<exists>f \<in> set fs. is_video_file lower f) \<and>
        (enable_ext_filter cfg \<longrightarrow> (\<forall>f \<in> set fs. is_video_file lower f \<or> is_allowed_file lower cfg f)))"

lemma occurs_match: "re \<in> set all_patterns \<Longrightarrow> match_string re s \<longleftrightarrow> occurs re s"
  by (simp add: occurs_def match_string_iff patterns_proper)

lemma should_reject_iff:
  "should_reject lower ct name normalized fs total_size cfg = [] \<longleftrightarrow> acceptable lower ct name normalized fs total_size cfg"
proof -
  have "match_string re_adult t = occurs re_adult t" "match_string re_software t = occurs re_software t" for t
    by (simp_all add: occurs_match all_patterns_def)
  then show ?thesis
    by (auto simp: should_reject_def acceptable_def analyze_files_counts filter_empty_conv)
qed

text \<open>
  C12. A torrent is classified exactly when its size is within the bounds, its type is known, no excluded word
  occurs in its name, and, when its files are known, one is a video and none has a forbidden extension;
  otherwise it is rejected, with a reason.
\<close>

theorem classified_iff:
  "let c = classify lower name fs total_size cfg in
    (cl_state c = Classified \<longleftrightarrow>
      acceptable lower (cl_content_type c) name (remove_all re_www_site_prefix (normalize name)) fs total_size cfg) \<and>
    (cl_state c = Rejected \<longleftrightarrow> cl_state c \<noteq> Classified) \<and> (cl_state c = Rejected \<longleftrightarrow> cl_reason c \<noteq> [])"
  by (auto simp: classify_def Let_def should_reject_iff[symmetric])

text \<open>An episode of a series in one video file.\<close>

definition sample_cfg :: classify_config where
  "sample_cfg = \<lparr>min_size = 1, max_size = 9, allowed_exts = [], enable_ext_filter = True, exclude_adult = True\<rparr>"

definition sample_files :: "cl_file list" where
  "sample_files = [\<lparr>c_path = asc ''d/1x02.mkv'', c_size = 5\<rparr>]"

lemma sample_classified: "cl_state (classify (\<lambda>r. r) (asc ''1x02'') sample_files 5 sample_cfg) = Classified"
  by code_simp

end
