(* ===== verification/Classify_Names.thy ===== *)
theory Classify_Names
  imports Classify_Correct
begin

section \<open>Normalised names and the tags in them\<close>

subsection \<open>Normalisation\<close>

definition no_space :: "runes \<Rightarrow> bool" where
  "no_space w \<longleftrightarrow> w \<noteq> [] \<and> list_all (\<lambda>r. \<not> is_space r) w"

lemma fields_from_word: "list_all (\<lambda>r. \<not> is_space r) w \<Longrightarrow> fields_from cur (w @ s) = fields_from (rev w @ cur) s"
  by (induction w arbitrary: cur) simp_all

lemma fields_from_fields: "list_all (\<lambda>r. \<not> is_space r) cur \<Longrightarrow> list_all no_space (fields_from cur s)"
proof (induction cur s rule: fields_from.induct)
  case (1 cur)
  then show ?case by (simp add: no_space_def list_all_iff)
next
  case (2 cur c cs)
  show ?case
  proof (cases "is_space c")
    case True
    with 2 show ?thesis by (simp add: no_space_def list_all_iff)
  next
    case False
    with 2 show ?thesis by simp
  qed
qed

lemma fields_from_runes: "f \<in> set (fields_from cur s) \<Longrightarrow> set f \<subseteq> set cur \<union> set s"
  by (induction cur s rule: fields_from.induct) (auto split: if_splits)

lemma is_space_32 [simp]: "is_space 32"
  by (simp add: is_space_def)

lemma fields_of_join: "list_all no_space fs \<Longrightarrow> fields_of (join_with [32] fs) = fs"
  unfolding fields_of_def
proof (induction "[32] :: runes" fs rule: join_with.induct)
  case (2 x)
  then show ?case using fields_from_word[of x "[]" "[]"] by (simp add: no_space_def)
next
  case (3 x y zs)
  then have "fields_from [] (x @ 32 # join_with [32] (y # zs)) = x # fields_from [] (join_with [32] (y # zs))"
    by (simp add: fields_from_word no_space_def)
  with 3 show ?case by simp
qed simp

lemma set_join: "set (join_with sep fs) \<subseteq> \<Union> (set ` set fs) \<union> set sep"
  by (induction sep fs rule: join_with.induct) auto

lemma normalize_runes: "r \<in> set (normalize s) \<Longrightarrow> r \<noteq> 46 \<and> r \<noteq> 95 \<and> (is_space r \<longrightarrow> r = 32)"
proof -
  let ?s = "replace_rune 95 32 (replace_rune 46 32 s)"
  assume "r \<in> set (normalize s)"
  then consider "r = 32" | f where "f \<in> set (fields_of ?s)" "r \<in> set f"
    using set_join[of "[32]" "fields_of ?s"] by (auto simp: normalize_def)
  then show ?thesis
  proof cases
    case 2
    have "list_all no_space (fields_of ?s)" unfolding fields_of_def by (rule fields_from_fields) simp
    with 2 have "\<not> is_space r" by (auto simp: list_all_iff no_space_def)
    moreover have "r \<in> set ?s" using 2 fields_from_runes[of f "[]" ?s] by (auto simp: fields_of_def)
    ultimately show ?thesis by (auto simp: replace_rune_def)
  qed simp
qed

lemma replace_absent: "a \<notin> set s \<Longrightarrow> replace_rune a b s = s"
  unfolding replace_rune_def by (induction s) auto

text \<open>
  Normalising is idempotent, and a normalised name has no dot, no underscore and no white space but single
  blanks between words.
\<close>

theorem normalize_canonical:
  "normalize (normalize s) = normalize s \<and> 46 \<notin> set (normalize s) \<and> 95 \<notin> set (normalize s) \<and>
   (\<exists>ws. list_all no_space ws \<and> normalize s = join_with [32] ws)"
proof -
  let ?ws = "fields_of (replace_rune 95 32 (replace_rune 46 32 s))"
  have ws: "list_all no_space ?ws" unfolding fields_of_def by (rule fields_from_fields) simp
  have free: "46 \<notin> set (normalize s)" "95 \<notin> set (normalize s)" using normalize_runes by blast+
  then have "normalize (normalize s) = join_with [32] (fields_of (normalize s))"
    unfolding normalize_def[of "normalize s"] by (simp add: replace_absent)
  also have "fields_of (normalize s) = ?ws" unfolding normalize_def by (rule fields_of_join[OF ws])
  finally have "normalize (normalize s) = normalize s" by (simp add: normalize_def)
  with free ws show ?thesis by (auto simp: normalize_def)
qed

subsection \<open>Tags with dots\<close>

lemma set_remove_from: "set (remove_from re b a) \<subseteq> set a"
proof (induction "length a" arbitrary: b a rule: less_induct)
  case less
  show ?case
  proof (cases "find_from (re_fold re) (re_prog re) b a")
    case (Some m)
    from find_from_Some[OF Some] have m: "rev b @ a = m_before m @ m_text m @ m_after m" "length b \<le> length (m_before m)" by auto
    have a: "a = drop (length b) (m_before m) @ m_text m @ m_after m"
      using arg_cong[OF m(1), of "drop (length b)"] m(2) by simp
    have rest: "set (remove_from re b' r) \<subseteq> set r" if "length r < length a" for b' r using less that by blast
    show ?thesis
    proof (cases "m_text m \<noteq> [] \<and> length (m_after m) < length a")
      case True
      then have "remove_from re b a = drop (length b) (m_before m) @ remove_from re (rev (m_before m @ m_text m)) (m_after m)"
        by (simp add: remove_from.simps[of re b a] Some)
      with rest[of "m_after m"] True show ?thesis by (subst (2) a) auto
    next
      case False
      show ?thesis
      proof (cases "m_after m")
        case Nil
        with False have "remove_from re b a = drop (length b) (m_before m)"
          by (auto simp: remove_from.simps[of re b a] Some)
        then show ?thesis by (subst (2) a) auto
      next
        case (Cons r r')
        then have "length r' < length a" using arg_cong[OF a, of length] by simp
        with False Cons have "remove_from re b a =
            drop (length b) (m_before m) @ r # remove_from re (r # rev (m_before m @ m_text m)) r'"
          by (auto simp: remove_from.simps[of re b a] Some)
        with rest[OF \<open>length r' < length a\<close>] Cons show ?thesis by (subst (2) a) auto
      qed
    qed
  qed (simp add: remove_from.simps)
qed

lemma set_remove_all: "set (remove_all re s) \<subseteq> set s"
  by (simp add: remove_all_def set_remove_from)

lemma first_match_runes: "set (first_match re s) \<subseteq> set s"
proof (cases "find_match re s")
  case (Some m)
  from find_from_Some[OF Some[unfolded find_match_def]] have s: "s = m_before m @ m_text m @ m_after m" by simp
  then have "set (m_text m) \<subseteq> set s" by (metis Un_upper1 Un_upper2 set_append subset_trans)
  with Some show ?thesis by (simp add: first_match_def find_string_def)
qed (simp add: first_match_def find_string_def)

text \<open>
  The patterns for H.264 and H.265 allow a dot, but they are tried on the normalised name, which has none:
  no classification has an encoding with a dot, and the common spelling with a dot is not recognised at all,
  while the one without is.
\<close>

theorem dotted_codec_unseen:
  "46 \<notin> set (cl_encoding (classify lower name fs total_size cfg)) \<and>
   cl_encoding (classify lower (asc ''A.H.264-B'') fs total_size cfg) = [] \<and>
   cl_encoding (classify lower (asc ''A.H264-B'') fs total_size cfg) = asc ''H264''"
proof -
  have enc: "cl_encoding (classify lower n fs total_size cfg) = first_match re_encoding (remove_all re_www_site_prefix (normalize n))" for n
    by (simp add: classify_def Let_def)
  have "set (first_match re_encoding (remove_all re_www_site_prefix (normalize name))) \<subseteq> set (normalize name)"
    using first_match_runes set_remove_all by blast
  moreover have "46 \<notin> set (normalize name)" using normalize_runes by blast
  moreover have "first_match re_encoding (remove_all re_www_site_prefix (normalize (asc ''A.H.264-B''))) = []" by code_simp
  moreover have "first_match re_encoding (remove_all re_www_site_prefix (normalize (asc ''A.H264-B''))) = asc ''H264''" by code_simp
  ultimately show ?thesis unfolding enc by blast
qed

subsection \<open>HDR10+\<close>

lemma matches_end_bound:
  assumes "matches ci (seqs [Word_Bound, Group k p, Word_Bound]) b w a"
  shows "matches ci p b w a \<and> at_boundary (rev w @ b) a"
  using assms by auto

lemma fold_43: "in_class True False [(43, 43)] r \<longleftrightarrow> r = 43"
  by (auto simp: in_class_def in_ranges_def orbit_def)

text \<open>
  A word boundary is required after the plus of HDR10+, which is no word character: the tag is recognised
  only when a word character follows immediately. In a name where a blank or the end follows, the shorter
  HDR10 is reported.
\<close>

theorem hdr10_plus_unseen:
  "(find_match re_dynamic_range s = Some m \<and> last (m_text m) = 43 \<longrightarrow> word_before (m_after m)) \<and>
   cl_dynamic_range (classify lower (asc ''Up HDR10+ 2160p'') fs total_size cfg) = asc ''HDR10''"
proof (intro conjI impI)
  assume m: "find_match re_dynamic_range s = Some m \<and> last (m_text m) = 43"
  have "proper (re_prog re_dynamic_range)" by (rule patterns_proper) (simp add: all_patterns_def title_cut_patterns_def)
  with m have "matches True (re_prog re_dynamic_range) (rev (m_before m)) (m_text m) (m_after m)"
    using find_from_Some[of "re_fold re_dynamic_range" "re_prog re_dynamic_range" "[]" s m]
    by (simp add: find_match_def re_dynamic_range_def)
  then have b: "at_boundary (rev (m_text m) @ rev (m_before m)) (m_after m)"
    by (auto simp: re_dynamic_range_def simp del: matches_seqs dest!: matches_end_bound)
  show "word_before (m_after m)"
  proof (cases "m_text m" rule: rev_cases)
    case Nil
    with \<open>matches True (re_prog re_dynamic_range) (rev (m_before m)) (m_text m) (m_after m)\<close>
    have "min_len (re_prog re_dynamic_range) \<le> 0" using matches_min_len by fastforce
    then show ?thesis by (simp add: re_dynamic_range_def)
  next
    case (snoc t r)
    with m b show ?thesis by (simp add: at_boundary_def word_before_def is_word_def)
  qed
next
  have "first_match re_dynamic_range (remove_all re_www_site_prefix (normalize (asc ''Up HDR10+ 2160p''))) = asc ''HDR10''"
    by code_simp
  then show "cl_dynamic_range (classify lower (asc ''Up HDR10+ 2160p'') fs total_size cfg) = asc ''HDR10''"
    by (simp add: classify_def Let_def)
qed

theorem hdr10_plus_unseen_witness:
  "\<exists>m. find_match re_dynamic_range (asc ''HDR10+x'') = Some m \<and> last (m_text m) = 43 \<and> word_before (m_after m)"
proof -
  obtain m where m: "find_match re_dynamic_range (asc ''HDR10+x'') = Some m"
    "last (m_text m) = 43"
  proof -
    have "map_option (\<lambda>m. last (m_text m)) (find_match re_dynamic_range (asc ''HDR10+x'')) = Some 43" by code_simp
    then show ?thesis using that by auto
  qed
  with hdr10_plus_unseen[of "asc ''HDR10+x''" m] show ?thesis by blast
qed

end
