(* ===== verification/Indexer_Correct.thy ===== *)
theory Indexer_Correct
  imports Indexer Classify_Names
begin

section \<open>What the indexer stores\<close>

abbreviation stored :: "torrent_db \<Rightarrow> string \<Rightarrow> torrent_row option" where
  "stored db \<equiv> map_get (torrents db)"

subsection \<open>Numbers in the database\<close>

lemma null_int4_exact: "- (2 ^ 31) \<le> n \<Longrightarrow> n < 2 ^ 31 \<Longrightarrow> null_int4 n = (if n = 0 then None else Some n)"
  by (simp add: null_int4_def int32_id)

text \<open>
  The database has 32 bits for the numbers of a classification. Season and year always fit and are stored
  as they are, and so is an episode below \<open>2\<^sup>3\<^sup>1\<close>; but the episode in the form season x episode may have any
  number of digits, and the conversion keeps its low 32 bits: the torrent of episode 4294967297 is stored
  as episode 1.
\<close>

theorem stored_numbers:
  "let c = classify lower name fs total_size cfg; p = classify_params c in
    cf_season p = (if cl_season c = 0 then None else Some (cl_season c)) \<and>
    cf_year p = (if cl_year c = 0 then None else Some (cl_year c)) \<and>
    (cl_episode c < 2 ^ 31 \<longrightarrow> cf_episode p = (if cl_episode c = 0 then None else Some (cl_episode c))) \<and>
    cl_episode (classify lower (asc ''1x4294967297'') fs total_size cfg) = 4294967297 \<and>
    cf_episode (classify_params (classify lower (asc ''1x4294967297'') fs total_size cfg)) = Some 1"
proof -
  let ?c = "classify lower name fs total_size cfg"
  from classify_numbers[of lower name fs total_size cfg]
  have b: "0 \<le> cl_season ?c" "cl_season ?c \<le> 99" "0 \<le> cl_episode ?c" "cl_year ?c \<in> insert 0 {1900..2039}" by blast+
  have ep: "cl_episode (classify lower (asc ''1x4294967297'') fs total_size cfg) = 4294967297"
  proof -
    have "detect_tv (remove_all re_www_site_prefix (normalize (asc ''1x4294967297''))) =
        \<lparr>is_tv = True, tv_season = 1, tv_episode = 4294967297\<rparr>" by code_simp
    then show ?thesis by (simp add: classify_def Let_def)
  qed
  moreover have "null_int4 4294967297 = Some 1" by code_simp
  ultimately show ?thesis
    using b null_int4_exact[of "cl_season ?c"] null_int4_exact[of "cl_year ?c"] null_int4_exact[of "cl_episode ?c"]
    by (auto simp: Let_def classify_params_def simp del: asc_Cons)
qed

theorem stored_numbers_witness:
  "let c = classify (\<lambda>r. r) (asc ''1x02'') sample_files 5 sample_cfg in
    cl_episode c = 2 \<and> cf_episode (classify_params c) = Some 2 \<and>
    cf_season (classify_params c) = (if cl_season c = 0 then None else Some (cl_season c))"
proof -
  let ?c = "classify (\<lambda>r. r) (asc ''1x02'') sample_files 5 sample_cfg"
  have "cl_episode ?c = 2" by code_simp
  with stored_numbers[where lower = "\<lambda>r. r" and name = "asc ''1x02''" and fs = sample_files and total_size = 5 and cfg = sample_cfg]
  show ?thesis by (simp add: Let_def del: asc_Cons)
qed

subsection \<open>Storing a torrent\<close>

definition new_row :: "instant \<Rightarrow> torrent_info \<Rightarrow> torrent_row" where
  "new_row now info =
     \<lparr>tr_name = to_valid_utf8 (t_name info), tr_total_size = t_total info, tr_file_count = int (length (t_files info)),
      tr_state = Pending, tr_content_type = Unknown_Type, tr_fields = no_fields, tr_seeders = 0, tr_leechers = 0,
      tr_scrape_at = None, tr_first_seen = now, tr_last_seen = None\<rparr>"

definition classified_row :: "classification \<Rightarrow> torrent_row \<Rightarrow> torrent_row" where
  "classified_row c t = t\<lparr>tr_state := cl_state c, tr_content_type := cl_content_type c, tr_fields := classify_params c\<rparr>"

lemma stored_files [simp]: "stored (db\<lparr>torrent_files := fs\<rparr>) = stored db"
  by simp

lemma insert_files_keeps: "insert_torrent_files fs db = Some db' \<Longrightarrow> torrents db' = torrents db"
  by (auto simp: insert_torrent_files_def split: if_splits)

lemma store_torrent_cases:
  assumes "stored db ih = None"
  shows "store_torrent lower cfg up now ih info db = db \<or>
    (\<not> contains_blocked_content (to_valid_utf8 (t_name info)) (clean_files info) \<and>
     stored (store_torrent lower cfg up now ih info db) \<in>
      {(stored db)(ih \<mapsto> new_row now info),
       (stored db)(ih \<mapsto> classified_row (classify lower (to_valid_utf8 (t_name info)) (clean_files info) (t_total info) cfg)
          (new_row now info))})"
proof -
  let ?name = "to_valid_utf8 (t_name info)" and ?fs = "clean_files info"
  let ?c = "classify lower ?name ?fs (t_total info) cfg"
  show ?thesis
  proof (cases "contains_blocked_content ?name ?fs \<or>
      (if up 1 then upsert_torrent_pending now ih ?name (t_total info) (int (length (t_files info))) db else None) = None")
    case True
    then show ?thesis by (auto simp: store_torrent_def Let_def)
  next
    case False
    then obtain k db1 where up1: "up 1" and u: "upsert_torrent_pending now ih ?name (t_total info) (int (length (t_files info))) db = Some (k, db1)"
      and ok: "\<not> contains_blocked_content ?name ?fs" by (auto split: if_splits)
    from u assms have k: "k = 1" and db1: "torrents db1 = map_set ih (new_row now info) (torrents db)"
      by (auto simp: upsert_torrent_pending_def new_row_def split: if_splits)
    show ?thesis
    proof (cases "if up 2 then insert_torrent_files (file_rows ih ?fs) db1 else None")
      case None
      then show ?thesis using up1 u ok k db1 by (auto simp: store_torrent_def Let_def go_map)
    next
      case (Some db2)
      then have db2: "torrents db2 = map_set ih (new_row now info) (torrents db)"
        using db1 by (auto split: if_splits dest: insert_files_keeps)
      then have "update_torrent_classified (cl_state ?c) (cl_content_type ?c) (classify_params ?c) ih db2 =
          Some (db2\<lparr>torrents := map_set ih (classified_row ?c (new_row now info)) (torrents db2)\<rparr>)"
        by (simp add: update_torrent_classified_def go_map classified_row_def)
      then show ?thesis
        using up1 u ok k Some db2 by (cases "up 3") (auto simp: store_torrent_def Let_def go_map)
    qed
  qed
qed

lemma fetched_authentic:
  assumes "fetch b cl h pid dialed = Inr info"
  obtains data where "sha1 data = h" "decode_info b data = Inr info"
  using assms by (auto simp: fetch_def split: option.splits sum.splits if_splits)

lemma process_peers_cases:
  assumes "process_peers lower cfg mp mc fetcher granted arrival up now ev db = Some db'"
  obtains "db' = db"
  | info n where "stored db (hex_encode (d_infohash ev)) = None"
    "fetch_from_peers (fetcher (d_infohash ev)) granted arrival (d_peers ev) n = Some info"
    "db' = store_torrent lower cfg up now (hex_encode (d_infohash ev)) info db"
proof -
  define n where "n = min (int (length (d_peers ev))) mp"
  note def = assms[unfolded process_peers_def Let_def get_torrent_by_infohash_def, folded n_def]
  show ?thesis
  proof (cases "up 0 \<and> stored db (hex_encode (d_infohash ev)) = None \<and> n \<noteq> 0")
    case False
    with def have "db' = db" by (auto split: if_splits)
    then show ?thesis by (rule that(1))
  next
    case True
    with def show ?thesis
      by (cases "fetch_from_peers (fetcher (d_infohash ev)) granted arrival (d_peers ev) (nat n)")
         (auto split: if_splits intro: that)
  qed
qed

lemma first_delivery_Some: "first_delivery result ks = Some info \<Longrightarrow> \<exists>k. result k = Some info"
  by (induction ks) (auto split: option.splits)

definition fetch_peer :: "bencode \<Rightarrow> client \<Rightarrow> (addr \<Rightarrow> byte list) \<Rightarrow> (addr \<Rightarrow> conn option) \<Rightarrow> byte list \<Rightarrow> addr \<Rightarrow> torrent_info option" where
  "fetch_peer b cl pid dial h p = (case fetch b cl h (pid p) (dial p) of Inl e \<Rightarrow> None | Inr info \<Rightarrow> Some info)"

lemma indexed_is_authentic_lemma:
  assumes "process_peers lower cfg mp mc (fetch_peer b cl pid dial) granted arrival up now ev db = Some db'"
  shows "(if ih = hex_encode (d_infohash ev) \<and> stored db ih = None
     then case stored db' ih of
         None \<Rightarrow> True
       | Some t \<Rightarrow> \<exists>data info. sha1 data = d_infohash ev \<and> decode_info b data = Inr info \<and>
           tr_name t = to_valid_utf8 (t_name info) \<and> tr_total_size t = t_total info \<and>
           tr_file_count t = int (length (t_files info)) \<and> \<not> contains_blocked_content (tr_name t) (clean_files info)
     else stored db' ih = stored db ih)"
proof -
  let ?ih = "hex_encode (d_infohash ev)"
  from assms show ?thesis
  proof (cases rule: process_peers_cases)
    case (2 info n)
    then obtain k where "fetch_peer b cl pid dial (d_infohash ev) (d_peers ev ! k) = Some info"
      by (auto simp: fetch_from_peers_def dest!: first_delivery_Some split: if_splits)
    then have "fetch b cl (d_infohash ev) (pid (d_peers ev ! k)) (dial (d_peers ev ! k)) = Inr info"
      by (auto simp: fetch_peer_def split: sum.splits)
    then obtain data where data: "sha1 data = d_infohash ev" "decode_info b data = Inr info"
      by (rule fetched_authentic)
    show ?thesis
    proof (cases "ih = ?ih")
      case True
      show ?thesis
      proof (cases "stored db' ih")
        case (Some t)
        have "tr_name t = to_valid_utf8 (t_name info) \<and> tr_total_size t = t_total info \<and>
            tr_file_count t = int (length (t_files info)) \<and> \<not> contains_blocked_content (tr_name t) (clean_files info)"
          using store_torrent_cases[OF 2(1), of lower cfg up now info] 2(1,3) True Some
          by (auto simp: new_row_def classified_row_def)
        with data have "\<exists>data info. sha1 data = d_infohash ev \<and> decode_info b data = Inr info \<and>
            tr_name t = to_valid_utf8 (t_name info) \<and> tr_total_size t = t_total info \<and>
            tr_file_count t = int (length (t_files info)) \<and> \<not> contains_blocked_content (tr_name t) (clean_files info)"
          by blast
        with True 2(1) Some show ?thesis by simp
      qed (use True 2(1) in simp)
    next
      case False
      then show ?thesis using store_torrent_cases[OF 2(1), of lower cfg up now info] 2(3) by auto
    qed
  qed (auto split: option.split)
qed

text \<open>
  Whatever the peers send: a torrent the indexer adds is the one whose metadata has the announced infohash.
  Its name, size and number of files are those of a document whose SHA-1 is the infohash, no term of the
  block list occurs in its name or paths, and no other torrent of the database changes.
\<close>

theorem indexed_is_authentic:
  assumes "process_peers lower cfg mp mc (fetch_peer b cl pid dial) granted arrival up now ev db = Some db'"
  shows "(if ih = hex_encode (d_infohash ev) \<and> stored db ih = None
     then case stored db' ih of
         None \<Rightarrow> True
       | Some t \<Rightarrow> \<exists>data info. sha1 data = d_infohash ev \<and> decode_info b data = Inr info \<and>
           tr_name t = to_valid_utf8 (t_name info) \<and> tr_total_size t = t_total info \<and>
           tr_file_count t = int (length (t_files info)) \<and> \<not> contains_blocked_content (tr_name t) (clean_files info)
     else stored db' ih = stored db ih)"
  by (rule indexed_is_authentic_lemma[OF assms])

text \<open>
  C35. When the files of a torrent cannot be stored (the database does not answer, or a path has a zero byte, or
  a size is negative) after its row has been inserted, the torrent stays pending for good: the worker takes
  every later event about it for a duplicate, and neither the scraper nor the dead detection selects it.
\<close>

theorem failed_files_stick:
  assumes "stored db ih = None" "up 1" "\<not> contains_blocked_content (to_valid_utf8 (t_name info)) (clean_files info)"
    and "text_ok (to_valid_utf8 (t_name info))" "length (to_valid_utf8 (t_name info)) \<le> 500" "0 \<le> t_total info"
    and "up 2 \<longrightarrow> (\<exists>f \<in> set (t_files info). fi_size f < 0 \<or> \<not> text_ok (to_valid_utf8 (fi_path f)))"
    and "hex_encode (d_infohash ev) = ih"
  shows "stored (store_torrent lower cfg up now ih info db) ih = Some (new_row now info) \<and>
    process_peers lower cfg mp mc fetcher granted arrival up' later ev (store_torrent lower cfg up now ih info db) =
      Some (store_torrent lower cfg up now ih info db) \<and>
    \<not> is_due later (new_row now info) \<and> \<not> is_dead_candidate cutoff (new_row now info)"
proof -
  let ?db1 = "db\<lparr>torrents := map_set ih (new_row now info) (torrents db)\<rparr>"
  have u: "upsert_torrent_pending now ih (to_valid_utf8 (t_name info)) (t_total info) (int (length (t_files info))) db = Some (1, ?db1)"
    using assms(1,4,5,6) by (simp add: upsert_torrent_pending_def new_row_def)
  have f: "up 2 \<Longrightarrow> insert_torrent_files (file_rows ih (clean_files info)) ?db1 = None"
    using assms(7) by (auto simp: insert_torrent_files_def file_rows_def clean_files_def list_ex_iff)
  have s: "store_torrent lower cfg up now ih info db = ?db1"
    using assms(2,3) u f by (cases "up 2") (simp_all add: store_torrent_def Let_def)
  have "stored ?db1 ih = Some (new_row now info)" by (simp add: go_map)
  moreover have "process_peers lower cfg mp mc fetcher granted arrival up' later ev ?db1 = Some ?db1"
    using assms(8) by (simp add: process_peers_def get_torrent_by_infohash_def Let_def go_map)
  ultimately show ?thesis unfolding s by (simp add: is_due_def is_dead_candidate_def new_row_def)
qed


subsection \<open>A run of both\<close>

definition empty_db :: torrent_db where
  "empty_db = \<lparr>torrents = [], torrent_files = [], trackers = [], tracker_seq = 1, torrent_trackers = [], scrape_history = []\<rparr>"

definition sample_info :: torrent_info where
  "sample_info = \<lparr>t_name = ''a'', t_files = [\<lparr>fi_path = ''a'', fi_size = 7\<rparr>], t_total = 7\<rparr>"

lemma sample_info_name: "to_valid_utf8 (t_name sample_info) = [97]"
  by code_simp

lemma sample_info_unblocked: "\<not> contains_blocked_content [97] (clean_files sample_info)"
  by code_simp

lemma store_sample:
  assumes "up 1" "\<not> up 2"
  shows "store_torrent lower cfg up now ih sample_info empty_db = empty_db\<lparr>torrents := [(ih, new_row now sample_info)]\<rparr>"
proof -
  have "upsert_torrent_pending now ih [97] (t_total sample_info) (int (length (t_files sample_info))) empty_db =
      Some (1, empty_db\<lparr>torrents := [(ih, new_row now sample_info)]\<rparr>)"
    unfolding upsert_torrent_pending_def new_row_def sample_info_name
    by (simp add: empty_db_def sample_info_def text_ok_def)
  with assms show ?thesis by (simp add: store_torrent_def sample_info_name sample_info_unblocked Let_def)
qed

definition sample_event :: discovered_peers where
  "sample_event = \<lparr>d_infohash = sha1 [1, 2, 3], d_peers = [\<lparr>ip = [192, 0, 2, 1], port = 6881\<rparr>], d_seen = 0\<rparr>"

abbreviation sample_fetcher :: "byte list \<Rightarrow> addr \<Rightarrow> torrent_info option" where
  "sample_fetcher \<equiv> fetch_peer sample_bencode sample_client (\<lambda>p. replicate 20 1)
     (\<lambda>p. Some (sample_conn\<lparr>incoming := peer_stream sample_peer (sha1 [1, 2, 3]) (replicate 20 2) [1, 2, 3]\<rparr>))"

lemma sample_process:
  "process_peers (\<lambda>r. r) sample_cfg 8 4 sample_fetcher (\<lambda>k. True) [0] (\<lambda>k. k \<le> 1) 5 sample_event empty_db =
     Some (empty_db\<lparr>torrents := [(hex_encode (sha1 [1, 2, 3]), new_row 5 sample_info)]\<rparr>)"
proof -
  have f: "sample_fetcher (sha1 [1, 2, 3]) p = Some sample_info" for p
    by (simp add: fetch_peer_def fetch_sample decode_sample sample_info_def)
  have "get_torrent_by_infohash ih empty_db = None" for ih by (simp add: get_torrent_by_infohash_def empty_db_def)
  then show ?thesis
    using f by (simp add: process_peers_def sample_event_def fetch_from_peers_def Let_def store_sample del: One_nat_def)
qed

theorem indexed_is_authentic_witness:
  "let ih = hex_encode (sha1 [1, 2, 3]); db' = empty_db\<lparr>torrents := [(ih, new_row 5 sample_info)]\<rparr> in
    process_peers (\<lambda>r. r) sample_cfg 8 4 sample_fetcher (\<lambda>k. True) [0] (\<lambda>k. k \<le> 1) 5 sample_event empty_db = Some db' \<and>
    (\<exists>t. stored db' ih = Some t \<and> tr_total_size t = 7 \<and>
      (\<exists>data info. sha1 data = sha1 [1, 2, 3] \<and> decode_info sample_bencode data = Inr info \<and> tr_name t = to_valid_utf8 (t_name info)))"
proof -
  let ?ih = "sha1 [1, 2, 3]"
  from indexed_is_authentic[OF sample_process, of "hex_encode ?ih"]
  have "\<exists>data info. sha1 data = ?ih \<and> decode_info sample_bencode data = Inr info \<and> tr_name (new_row 5 sample_info) = to_valid_utf8 (t_name info)"
    by (simp add: sample_event_def empty_db_def) blast
  with sample_process show ?thesis by (simp add: Let_def new_row_def sample_info_def)
qed

theorem failed_files_stick_witness:
  "let db' = store_torrent (\<lambda>r. r) sample_cfg (\<lambda>k. k = 1) 5 (hex_encode (sha1 [1, 2, 3])) sample_info empty_db in
    stored db' (hex_encode (sha1 [1, 2, 3])) = Some (new_row 5 sample_info) \<and>
    process_peers (\<lambda>r. r) sample_cfg 8 4 (\<lambda>_ _. Some sample_info) (\<lambda>k. True) [0] (\<lambda>k. True) 6 sample_event db' = Some db'"
proof -
  have ne: "stored empty_db (hex_encode (sha1 [1, 2, 3])) = None" by (simp add: empty_db_def)
  have sz: "0 \<le> t_total sample_info" by (simp add: sample_info_def)
  have ev: "hex_encode (d_infohash sample_event) = hex_encode (sha1 [1, 2, 3])" by (simp add: sample_event_def)
  have ok: "\<not> contains_blocked_content (to_valid_utf8 (t_name sample_info)) (clean_files sample_info)"
    "text_ok (to_valid_utf8 (t_name sample_info))" "length (to_valid_utf8 (t_name sample_info)) \<le> 500"
    by (simp_all add: sample_info_name sample_info_unblocked text_ok_def)
  from failed_files_stick[where up = "\<lambda>k. k = 1", OF ne _ ok sz _ ev] show ?thesis
    by (simp add: Let_def)
qed

end
