(* ===== verification/Reindex.thy ===== *)
theory Reindex
  imports Indexer_Correct
begin

section \<open>Reclassifying the whole database\<close>

text \<open>
  A run of the reclassification reads the torrents page by page while it changes them; nothing it changes
  moves a torrent to another page, so it meets every torrent exactly once.
\<close>

subsection \<open>Updates in place\<close>

lemma map_keys_set_present: "map_get m k \<noteq> None \<Longrightarrow> map_keys (map_set k v m) = map_keys m"
  by (induction m) (auto simp: map_keys_def)

lemma sorted_entries:
  assumes "wf_map m"
  shows "sort_key fst m = map (\<lambda>k. (k, the (map_get m k))) (sort (map_keys m))"
proof -
  have "map fst (sort_key fst m) = sort (map_keys m)"
    by (rule properties_for_sort[symmetric]) (simp_all add: map_keys_def)
  moreover have "snd p = the (map_get m (fst p))" if "p \<in> set (sort_key fst m)" for p
  proof -
    from that have "(fst p, snd p) \<in> set m" by simp
    with assms have "map_get m (fst p) = Some (snd p)" unfolding wf_map_def map_keys_def by (rule map_of_is_SomeI)
    then show ?thesis by simp
  qed
  then have "sort_key fst m = map (\<lambda>p. (fst p, the (map_get m (fst p)))) (sort_key fst m)"
    by (intro map_idI[symmetric]) (auto simp: prod_eq_iff)
  ultimately show ?thesis by (metis (no_types, lifting) comp_apply list.map_comp map_eq_conv)
qed

subsection \<open>One torrent\<close>

definition index_row_of :: "string \<times> torrent_row \<Rightarrow> index_row" where
  "index_row_of p = (case p of (ih, t) \<Rightarrow> \<lparr>ir_infohash = ih, ir_name = tr_name t, ir_total_size = tr_total_size t,
     ir_state = tr_state t, ir_content_type = tr_content_type t\<rparr>)"

text \<open>The new classification of a torrent with the files \<open>fs\<close>, whether it changes the row, and the row after it.\<close>

definition reclassified :: "(rune \<Rightarrow> rune) \<Rightarrow> classify_config \<Rightarrow> (runes \<times> int) list \<Rightarrow> torrent_row \<Rightarrow> classification" where
  "reclassified lower cfg fs t = classify lower (tr_name t) (map (\<lambda>(p, n). \<lparr>c_path = p, c_size = n\<rparr>) fs) (tr_total_size t) cfg"

definition row_changes :: "(rune \<Rightarrow> rune) \<Rightarrow> classify_config \<Rightarrow> (runes \<times> int) list \<Rightarrow> torrent_row \<Rightarrow> bool" where
  "row_changes lower cfg fs t \<longleftrightarrow>
     cl_content_type (reclassified lower cfg fs t) \<noteq> tr_content_type t \<or>
     resolve_state (tr_state t) (cl_state (reclassified lower cfg fs t)) \<noteq> tr_state t"

definition reclassify :: "(rune \<Rightarrow> rune) \<Rightarrow> classify_config \<Rightarrow> (runes \<times> int) list \<Rightarrow> torrent_row \<Rightarrow> torrent_row" where
  "reclassify lower cfg fs t =
     (let c = reclassified lower cfg fs t in
      if row_changes lower cfg fs t
      then t\<lparr>tr_state := resolve_state (tr_state t) (cl_state c), tr_content_type := cl_content_type c,
             tr_fields := classify_params c\<rparr>
      else t)"

lemma resolve_state_idem: "resolve_state (resolve_state s r) r = resolve_state s r"
  by (cases s; cases r) (simp_all add: resolve_state_def)

lemma reclassify_stable: "\<not> row_changes lower cfg fs (reclassify lower cfg fs t)"
  by (auto simp: row_changes_def reclassify_def Let_def reclassified_def resolve_state_idem)

subsection \<open>A page\<close>

definition all_ok :: "index_env \<Rightarrow> bool" where
  "all_ok env \<longleftrightarrow> ev_count_ok env \<and> (\<forall>k. ev_alive env k \<and> ev_page_ok env k) \<and> (\<forall>ih. ev_files_ok env ih \<and> ev_update_ok env ih)"

abbreviation changes :: "(rune \<Rightarrow> rune) \<Rightarrow> classify_config \<Rightarrow> torrent_db \<Rightarrow> string \<times> torrent_row \<Rightarrow> bool" where
  "changes lower cfg db p \<equiv> row_changes lower cfg (get_torrent_files (fst p) db) (snd p)"

definition pages_done :: "(rune \<Rightarrow> rune) \<Rightarrow> classify_config \<Rightarrow> string set \<Rightarrow> torrent_db \<Rightarrow> torrent_db \<Rightarrow> bool" where
  "pages_done lower cfg S db db' \<longleftrightarrow>
     (\<forall>ih. stored db' ih = (if ih \<in> S then map_option (reclassify lower cfg (get_torrent_files ih db)) (stored db ih) else stored db ih)) \<and>
     map_keys (torrents db') = map_keys (torrents db) \<and> torrent_files db' = torrent_files db"

lemma pages_done_files: "pages_done lower cfg S db db' \<Longrightarrow> get_torrent_files ih db' = get_torrent_files ih db"
  by (simp add: pages_done_def get_torrent_files_def)

lemma pages_done_trans:
  assumes "pages_done lower cfg S db db1" "pages_done lower cfg T db1 db2" "S \<inter> T = {}"
  shows "pages_done lower cfg (S \<union> T) db db2"
  using assms pages_done_files[OF assms(1)] by (auto simp: pages_done_def disjoint_iff)

lemma index_one:
  assumes "all_ok env" "stored db ih = Some t"
  shows "\<exists>db1. index_batch lower cfg env False (index_row_of (ih, t) # ts) (res, db) =
      index_batch lower cfg env False ts
        (res\<lparr>ix_scanned := ix_scanned res + 1, ix_updated := ix_updated res + (if changes lower cfg db (ih, t) then 1 else 0)\<rparr>, db1) \<and>
    pages_done lower cfg {ih} db db1"
proof -
  let ?fs = "get_torrent_files ih db"
  let ?c = "reclassified lower cfg ?fs t"
  have c: "classify_row lower cfg ?fs (index_row_of (ih, t)) = ?c"
    by (simp add: classify_row_def index_row_of_def reclassified_def)
  show ?thesis
  proof (cases "row_changes lower cfg ?fs t")
    case False
    then have "pages_done lower cfg {ih} db db"
      using assms(2) by (simp add: pages_done_def reclassify_def Let_def)
    with False show ?thesis
      using assms(1) c by (intro exI[of _ db]) (simp add: row_changes_def Let_def index_row_of_def all_ok_def)
  next
    case True
    define db1 where "db1 = db\<lparr>torrents := map_set ih (reclassify lower cfg ?fs t) (torrents db)\<rparr>"
    have u: "update_torrent_classified (resolve_state (tr_state t) (cl_state ?c)) (cl_content_type ?c) (classify_params ?c) ih db = Some db1"
      using assms(2) True by (simp add: update_torrent_classified_def db1_def reclassify_def Let_def)
    have "pages_done lower cfg {ih} db db1"
      using assms(2) by (simp add: pages_done_def db1_def go_map map_keys_set_present)
    moreover have "index_batch lower cfg env False (index_row_of (ih, t) # ts) (res, db) =
        index_batch lower cfg env False ts (res\<lparr>ix_scanned := ix_scanned res + 1, ix_updated := ix_updated res + 1\<rparr>, db1)"
      using True assms(1) c u by (auto simp: row_changes_def Let_def index_row_of_def all_ok_def)
    ultimately show ?thesis using True by (intro exI[of _ db1]) simp
  qed
qed

lemma index_page:
  assumes "all_ok env" "distinct (map fst xs)" "\<forall>(ih, t) \<in> set xs. stored db ih = Some t"
  shows "\<exists>db1. index_batch lower cfg env False (map index_row_of xs) (res, db) =
      ((res\<lparr>ix_scanned := ix_scanned res + int (length xs),
            ix_updated := ix_updated res + int (length (filter (changes lower cfg db) xs))\<rparr>, db1), None) \<and>
    pages_done lower cfg (fst ` set xs) db db1"
  using assms(2,3)
proof (induction xs arbitrary: res db)
  case Nil
  then show ?case by (auto simp: pages_done_def)
next
  case (Cons p xs)
  obtain ih t where p: "p = (ih, t)" by (cases p)
  have "stored db ih = Some t" using Cons.prems(2) by (simp add: p)
  from index_one[OF assms(1) this, of lower cfg "map index_row_of xs" res] obtain db1 where
    one: "index_batch lower cfg env False (map index_row_of (p # xs)) (res, db) =
      index_batch lower cfg env False (map index_row_of xs)
        (res\<lparr>ix_scanned := ix_scanned res + 1, ix_updated := ix_updated res + (if changes lower cfg db p then 1 else 0)\<rparr>, db1)"
    "pages_done lower cfg {ih} db db1" by (auto simp: p)
  have fresh: "ih \<notin> fst ` set xs" using Cons.prems(1) by (simp add: p)
  then have "\<forall>(ih, t) \<in> set xs. stored db1 ih = Some t"
    using Cons.prems(2) one(2) by (force simp: pages_done_def)
  define res1 where "res1 = res\<lparr>ix_scanned := ix_scanned res + 1, ix_updated := ix_updated res + (if changes lower cfg db p then 1 else 0)\<rparr>"
  have "distinct (map fst xs)" using Cons.prems(1) by simp
  from Cons.IH[OF this \<open>\<forall>(ih, t) \<in> set xs. stored db1 ih = Some t\<close>, of res1] obtain db2 where
    two: "index_batch lower cfg env False (map index_row_of xs) (res1, db1) =
      ((res1\<lparr>ix_scanned := ix_scanned res1 + int (length xs),
            ix_updated := ix_updated res1 + int (length (filter (changes lower cfg db1) xs))\<rparr>, db2), None)"
    "pages_done lower cfg (fst ` set xs) db1 db2" by blast
  have "filter (changes lower cfg db1) xs = filter (changes lower cfg db) xs"
    by (simp add: pages_done_files[OF one(2)])
  moreover have "pages_done lower cfg (fst ` set (p # xs)) db db2"
    using pages_done_trans[OF one(2) two(2)] fresh by (simp add: p)
  ultimately show ?case using one(1) two(1) by (intro exI[of _ db2]) (simp add: res1_def)
qed

subsection \<open>A run\<close>

lemma pages_done_wf: "pages_done lower cfg S db db' \<Longrightarrow> wf_map (torrents db) \<Longrightarrow> wf_map (torrents db')"
  by (simp add: pages_done_def wf_map_def)

lemma later_pages:
  assumes "pages_done lower cfg S db db1" "wf_map (torrents db)" "fst ` set (drop n (sort_key fst (torrents db))) \<inter> S = {}"
  shows "drop n (sort_key fst (torrents db1)) = drop n (sort_key fst (torrents db))"
proof -
  have "stored db1 k = stored db k" if "k \<in> set (drop n (sort (map_keys (torrents db))))" for k
  proof -
    have "k \<in> fst ` set (drop n (sort_key fst (torrents db)))"
      using that by (simp add: sorted_entries[OF assms(2)] drop_map image_image)
    with assms(1,3) show ?thesis by (auto simp: pages_done_def)
  qed
  moreover have "map_keys (torrents db1) = map_keys (torrents db)" using assms(1) by (simp add: pages_done_def)
  ultimately show ?thesis
    unfolding sorted_entries[OF assms(2)] sorted_entries[OF pages_done_wf[OF assms(1,2)]] drop_map by simp
qed

lemma get_page:
  "0 \<le> off \<Longrightarrow> off < 2 ^ 31 \<Longrightarrow> get_torrents_to_index (int32 off) index_batch_size db =
    Some (map index_row_of (take 500 (drop (nat off) (sort_key fst (torrents db)))))"
  by (simp add: int32_id get_torrents_to_index_def index_row_of_def cong: map_cong)

lemma entries_facts:
  assumes "wf_map (torrents db)"
  shows "distinct (map fst (sort_key fst (torrents db)))" "\<forall>(ih, t) \<in> set (sort_key fst (torrents db)). stored db ih = Some t"
  using assms by (auto simp: wf_map_def map_keys_def distinct_map_sort_key)

lemma index_pages:
  assumes "all_ok env" "wf_map (torrents db)" "0 \<le> off" "count_torrents db < 2 ^ 31"
  defines "xs \<equiv> drop (nat off) (sort_key fst (torrents db))"
  shows "\<exists>db1. index_loop lower cfg env False (count_torrents db) off (res, db) =
      ((res\<lparr>ix_scanned := ix_scanned res + int (length xs),
            ix_updated := ix_updated res + int (length (filter (changes lower cfg db) xs))\<rparr>, db1), None) \<and>
    pages_done lower cfg (fst ` set xs) db db1"
  using assms(2-4) unfolding xs_def
proof (induction "nat (count_torrents db - off)" arbitrary: off res db rule: less_induct)
  case less
  let ?es = "sort_key fst (torrents db)"
  show ?case
  proof (cases "off < count_torrents db")
    case False
    then have "drop (nat off) ?es = []" by (simp add: count_torrents_def)
    with False show ?thesis by (auto simp: index_loop.simps pages_done_def)
  next
    case True
    let ?xs = "drop (nat off) ?es"
    let ?page = "take 500 ?xs" and ?rest = "drop (nat (off + 500)) ?es"
    have split: "?xs = ?page @ ?rest" 
    proof -
      have "nat (off + 500) = 500 + nat off" using less.prems(2) by simp
      then show ?thesis by (simp only: drop_drop[symmetric] append_take_drop_id)
    qed
    have d: "distinct (map fst ?xs)" "\<forall>(ih, t) \<in> set ?xs. stored db ih = Some t"
      using entries_facts[OF less.prems(1)] set_drop_subset[of "nat off" ?es]
      by (simp_all only: drop_map[symmetric] distinct_drop) blast
    have "distinct (map fst ?page)" "\<forall>(ih, t) \<in> set ?page. stored db ih = Some t"
      using d set_take_subset[of 500 ?xs] by (simp_all only: take_map[symmetric] distinct_take) blast
    from index_page[OF assms(1) this, of lower cfg res] obtain db1 where
      page: "index_batch lower cfg env False (map index_row_of ?page) (res, db) =
        ((res\<lparr>ix_scanned := ix_scanned res + int (length ?page),
              ix_updated := ix_updated res + int (length (filter (changes lower cfg db) ?page))\<rparr>, db1), None)"
      "pages_done lower cfg (fst ` set ?page) db db1" by blast
    define res1 where "res1 = res\<lparr>ix_scanned := ix_scanned res + int (length ?page),
        ix_updated := ix_updated res + int (length (filter (changes lower cfg db) ?page))\<rparr>"
    have disj: "fst ` set ?page \<inter> fst ` set ?rest = {}"
      using d(1) by (subst (asm) split) auto
    have rest: "drop (nat (off + 500)) (sort_key fst (torrents db1)) = ?rest"
      using later_pages[OF page(2) less.prems(1)] disj by blast
    have cnt: "count_torrents db1 = count_torrents db"
      using page(2) unfolding pages_done_def count_torrents_def by (metis length_keys)
    have "filter (changes lower cfg db1) ?rest = filter (changes lower cfg db) ?rest"
      by (simp add: pages_done_files[OF page(2)])
    with less.hyps[of db1 "off + 500" res1] True less.prems pages_done_wf[OF page(2)] cnt rest
    obtain db2 where two: "index_loop lower cfg env False (count_torrents db) (off + 500) (res1, db1) =
        ((res1\<lparr>ix_scanned := ix_scanned res1 + int (length ?rest),
              ix_updated := ix_updated res1 + int (length (filter (changes lower cfg db) ?rest))\<rparr>, db2), None)"
      "pages_done lower cfg (fst ` set ?rest) db1 db2" by auto
    have "index_loop lower cfg env False (count_torrents db) off (res, db) =
        index_loop lower cfg env False (count_torrents db) (off + 500) (res1, db1)"
      using True assms(1) get_page[of off db] less.prems page(1)
      by (subst index_loop.simps) (simp add: all_ok_def res1_def)
    moreover have "pages_done lower cfg (fst ` set ?xs) db db2"
      using pages_done_trans[OF page(2) two(2) disj] by (subst split) (simp add: image_Un)
    moreover have "length ?xs = length ?page + length ?rest" by (subst split) simp
    moreover have "filter (changes lower cfg db) ?xs = filter (changes lower cfg db) ?page @ filter (changes lower cfg db) ?rest"
      by (subst split) simp
    ultimately show ?thesis using two(1) by (intro exI[of _ db2]) (simp add: res1_def)
  qed
qed


definition sample_env :: index_env where
  "sample_env = \<lparr>ev_count_ok = True, ev_alive = (\<lambda>_. True), ev_page_ok = (\<lambda>_. True), ev_files_ok = (\<lambda>_. True), ev_update_ok = (\<lambda>_. True)\<rparr>"

definition sample_torrents :: torrent_db where
  "sample_torrents = empty_db\<lparr>
     torrents := [(''a'', new_row 5 \<lparr>t_name = ''1x02'', t_files = [\<lparr>fi_path = ''d/1x02.mkv'', fi_size = 5\<rparr>], t_total = 5\<rparr>)],
     torrent_files := [\<lparr>fl_infohash = ''a'', fl_path = asc ''d/1x02.mkv'', fl_size = 5, fl_extension = None, fl_is_video = True\<rparr>]\<rparr>"

lemma sample_changes: "filter (changes (\<lambda>r. r) sample_cfg sample_torrents) (torrents sample_torrents) = torrents sample_torrents"
  by code_simp


end
