(* ===== verification/Tracker.thy ===== *)
theory Tracker
  imports Node_Id
begin

section \<open>Tracker scrapes (\<^verbatim>\<open>scrape/client.go\<close>)\<close>

text \<open>
  The client of the UDP tracker protocol (BEP-15): a connect exchange, then scrape requests of at most
  74 infohashes each. One exchange is a write and a read on the socket of a tracker: \<open>net k req\<close> is the
  datagram that answers the \<open>k\<close>-th request, or nothing when writing or reading fails. A read puts as
  much of a datagram into its buffer as fits. \<open>tx k\<close> is the random identifier of the \<open>k\<close>-th request.
\<close>

record scrape_result =
  sc_infohash :: string
  sc_seeders :: int
  sc_leechers :: int
  sc_complete :: int

datatype tracker_error =
  No_Trackers
| Dial_Failed
| No_Answer
| Too_Short nat
| Unexpected_Action
| Transaction_Mismatch
| Invalid_Infohash string
| All_Unreachable
| Cancelled

type_synonym exchange = "nat \<Rightarrow> byte list \<Rightarrow> byte list option"

abbreviation max_per_batch :: nat where "max_per_batch \<equiv> 74"

definition connect_magic :: "64 word" where "connect_magic = 0x41727101980"
definition action_connect :: "32 word" where "action_connect = 0"
definition action_scrape :: "32 word" where "action_scrape = 2"

definition get32 :: "nat \<Rightarrow> byte list \<Rightarrow> 32 word" where
  "get32 off bs = get_be (take 4 (drop off bs))"

text \<open>Reading a datagram into a buffer of \<open>n\<close> zero bytes: the buffer and the number of bytes read.\<close>

definition udp_read :: "nat \<Rightarrow> byte list \<Rightarrow> byte list \<times> nat" where
  "udp_read n datagram = (go_copy (replicate n 0) datagram, min n (length datagram))"

definition connect_request :: "32 word \<Rightarrow> byte list" where
  "connect_request tx = put_be 8 connect_magic @ put_be 4 action_connect @ put_be 4 tx"

definition tracker_connect :: "exchange \<Rightarrow> 32 word \<Rightarrow> tracker_error + 64 word" where
  "tracker_connect net tx =
     (case net 0 (connect_request tx) of
        None \<Rightarrow> Inl No_Answer
      | Some d \<Rightarrow>
          (case udp_read 16 d of (resp, n) \<Rightarrow>
             if n < 16 then Inl (Too_Short n)
             else if get32 0 resp \<noteq> action_connect then Inl Unexpected_Action
             else if get32 4 resp \<noteq> tx then Inl Transaction_Mismatch
             else Inr (get_be (take 8 (drop 8 resp)))))"

text \<open>The request: each infohash is decoded and copied to its place; a longer one runs into the next place.\<close>

fun fill_request :: "nat \<Rightarrow> string list \<Rightarrow> byte list \<Rightarrow> tracker_error + byte list" where
  "fill_request i [] req = Inr req"
| "fill_request i (ih # ihs) req =
     (case hex_decode ih of
        None \<Rightarrow> Inl (Invalid_Infohash ih)
      | Some b \<Rightarrow>
          let off = 16 + i * 20 in fill_request (i + 1) ihs (take off req @ go_copy (drop off req) b))"

definition scrape_request :: "64 word \<Rightarrow> 32 word \<Rightarrow> string list \<Rightarrow> tracker_error + byte list" where
  "scrape_request conn_id tx ihs =
     fill_request 0 ihs (put_be 8 conn_id @ put_be 4 action_scrape @ put_be 4 tx @ replicate (20 * length ihs) 0)"

definition scrape_batch ::
    "(byte list \<Rightarrow> byte list option) \<Rightarrow> 64 word \<Rightarrow> 32 word \<Rightarrow> string list \<Rightarrow> tracker_error + scrape_result list" where
  "scrape_batch ask conn_id tx ihs =
     (case scrape_request conn_id tx ihs of
        Inl e \<Rightarrow> Inl e
      | Inr req \<Rightarrow>
          (case ask req of
             None \<Rightarrow> Inl No_Answer
           | Some d \<Rightarrow>
               (case udp_read (8 + 12 * length ihs) d of (resp, n) \<Rightarrow>
                  if n < 8 then Inl (Too_Short n)
                  else if get32 0 resp \<noteq> action_scrape then Inl Unexpected_Action
                  else if get32 4 resp \<noteq> tx then Inl Transaction_Mismatch
                  else
                    Inr (map (\<lambda>i. let off = 8 + i * 12 in
                           \<lparr>sc_infohash = ihs ! i, sc_seeders = sint (get32 off resp),
                            sc_leechers = sint (get32 (off + 8) resp), sc_complete = sint (get32 (off + 4) resp)\<rparr>)
                         [0..<(n - 8) div 12]))))"

text \<open>The loop over the batches; the results of the batches before a failure come with the error.\<close>

function scrape_batches ::
    "exchange \<Rightarrow> 64 word \<Rightarrow> (nat \<Rightarrow> 32 word) \<Rightarrow> nat \<Rightarrow> string list \<Rightarrow> scrape_result list \<Rightarrow>
     scrape_result list \<times> tracker_error option" where
  "scrape_batches net conn_id tx k ihs results =
     (if ihs = [] then (results, None)
      else case scrape_batch (net k) conn_id (tx k) (take max_per_batch ihs) of
        Inl e \<Rightarrow> (results, Some e)
      | Inr rs \<Rightarrow> scrape_batches net conn_id tx (k + 1) (drop max_per_batch ihs) (results @ rs))"
  by pat_completeness auto
termination
  by (relation "measure (\<lambda>(net, c, tx, k, ihs, rs). length ihs)") auto

declare scrape_batches.simps [simp del]

definition scrape_tracker ::
    "exchange option \<Rightarrow> (nat \<Rightarrow> 32 word) \<Rightarrow> string list \<Rightarrow> scrape_result list \<times> tracker_error option" where
  "scrape_tracker dialed tx ihs =
     (case dialed of
        None \<Rightarrow> ([], Some Dial_Failed)
      | Some net \<Rightarrow>
          (case tracker_connect net (tx 0) of
             Inl e \<Rightarrow> ([], Some e)
           | Inr conn_id \<Rightarrow> scrape_batches net conn_id tx 1 ihs []))"

text \<open>\<^verbatim>\<open>url.Parse\<close> is a parameter: the scheme and the host of a URL.\<close>

definition parse_udp_addr :: "(string \<Rightarrow> (string \<times> string) option) \<Rightarrow> string \<Rightarrow> string option" where
  "parse_udp_addr parse_url u =
     (case parse_url u of
        None \<Rightarrow> None
      | Some (scheme, host) \<Rightarrow> if scheme \<noteq> ''udp'' then None else Some host)"

definition new_scrape_client :: "(string \<Rightarrow> (string \<times> string) option) \<Rightarrow> string list \<Rightarrow> tracker_error + string list" where
  "new_scrape_client parse_url urls =
     (let addrs = List.map_filter (parse_udp_addr parse_url) urls
      in if addrs = [] then Inl No_Trackers else Inr addrs)"

text \<open>
  The loop of \<^verbatim>\<open>Scrape\<close> over the shuffled trackers. \<open>cancelled k\<close> is whether the context has ended
  before the \<open>k\<close>-th tracker, \<open>visit a\<close> what \<^verbatim>\<open>scrapeTracker\<close> returns for the tracker \<open>a\<close>.
\<close>

fun scrape_loop ::
    "(nat \<Rightarrow> bool) \<Rightarrow> (string \<Rightarrow> scrape_result list \<times> tracker_error option) \<Rightarrow> nat \<Rightarrow> string list \<Rightarrow> nat \<Rightarrow> scrape_result list \<Rightarrow>
     tracker_error + scrape_result list" where
  "scrape_loop cancelled visit k [] reachable last_results =
     (if reachable = 0 then Inl All_Unreachable else Inr last_results)"
| "scrape_loop cancelled visit k (a # as) reachable last_results =
     (if cancelled k then Inl Cancelled
      else case visit a of
        (results, Some e) \<Rightarrow> scrape_loop cancelled visit (k + 1) as reachable last_results
      | (results, None) \<Rightarrow>
          if list_ex (\<lambda>r. sc_seeders r > 0) results then Inr results
          else scrape_loop cancelled visit (k + 1) as (reachable + 1) results)"

definition scrape ::
    "(nat \<Rightarrow> nat) \<Rightarrow> (nat \<Rightarrow> bool) \<Rightarrow> (string \<Rightarrow> exchange option) \<Rightarrow> (string \<Rightarrow> nat \<Rightarrow> 32 word) \<Rightarrow> string list \<Rightarrow> string list \<Rightarrow>
     tracker_error + scrape_result list" where
  "scrape rnd cancelled dial tx addrs ihs =
     scrape_loop cancelled (\<lambda>a. scrape_tracker (dial a) (tx a) ihs) 0 (go_shuffle rnd addrs) 0 []"

end
