(* ===== verification/Tracker_Correct.thy ===== *)
theory Tracker_Correct
  imports Tracker "HOL-Library.Sublist"
begin

section \<open>What a scrape returns\<close>

text \<open>
  The scrape client against a tracker that speaks BEP-15, against one that sends anything, and the choice
  among several trackers.
\<close>

subsection \<open>Fixed-size records in a byte string\<close>

lemma length_concat_same: "\<forall>x \<in> set xss. length x = c \<Longrightarrow> length (concat xss) = c * length xss"
  by (induction xss) auto

lemma take_drop_concat:
  assumes "\<forall>x \<in> set xss. length x = c" "i < length xss" "off + m \<le> c"
  shows "take m (drop (c * i + off) (concat xss)) = take m (drop off (xss ! i))"
  using assms
proof (induction xss arbitrary: i)
  case (Cons x xss)
  show ?case
  proof (cases i)
    case 0
    with Cons.prems show ?thesis by simp
  next
    case (Suc j)
    have "drop (c * i + off) (concat (x # xss)) = drop (c * j + off) (concat xss)"
      using Cons.prems(1) by (simp add: Suc)
    with Cons.IH[of j] Cons.prems show ?thesis by (simp add: Suc)
  qed
qed simp

lemma get32_append: "length pre = n \<Longrightarrow> get32 (n + off) (pre @ bs) = get32 off bs"
  by (simp add: get32_def)

lemma get32_put_be: "get32 0 (put_be 4 v @ bs) = v"
  by (simp add: get32_def get_put_be)

lemma get32_concat:
  assumes "\<forall>x \<in> set xss. length x = c" "i < length xss" "off + 4 \<le> c"
  shows "get32 (c * i + off) (concat xss) = get32 off (xss ! i)"
  unfolding get32_def by (simp only: take_drop_concat[OF assms])

subsection \<open>The request\<close>

definition valid_infohash :: "string \<Rightarrow> bool" where
  "valid_infohash ih = (case hex_decode ih of None \<Rightarrow> False | Some b \<Rightarrow> length b = 20)"

definition raw_infohash :: "string \<Rightarrow> byte list" where
  "raw_infohash ih = the (hex_decode ih)"

lemma valid_infohashD: "valid_infohash ih \<Longrightarrow> hex_decode ih = Some (raw_infohash ih) \<and> length (raw_infohash ih) = 20"
  by (auto simp: valid_infohash_def raw_infohash_def split: option.splits)

lemma fill_request_valid:
  assumes "list_all valid_infohash ihs" "length pre = 16 + i * 20"
  shows "fill_request i ihs (pre @ replicate (20 * length ihs) 0) = Inr (pre @ concat (map raw_infohash ihs))"
  using assms
proof (induction ihs arbitrary: i pre)
  case (Cons ih ihs)
  let ?b = "raw_infohash ih"
  from Cons.prems have b: "hex_decode ih = Some ?b" "length ?b = 20"
    by (simp_all add: valid_infohashD)
  have "go_copy (replicate (20 * length (ih # ihs)) 0) ?b = ?b @ replicate (20 * length ihs) 0"
    by (simp add: go_copy_def b)
  moreover have "fill_request (i + 1) ihs ((pre @ ?b) @ replicate (20 * length ihs) 0) =
      Inr ((pre @ ?b) @ concat (map raw_infohash ihs))"
    using Cons.prems b by (intro Cons.IH) simp_all
  ultimately show ?case using Cons.prems(2) by (simp add: b)
qed simp

lemma scrape_request_valid:
  assumes "list_all valid_infohash ihs"
  shows "scrape_request cid tx ihs =
    Inr (put_be 8 cid @ put_be 4 action_scrape @ put_be 4 tx @ concat (map raw_infohash ihs))"
  unfolding scrape_request_def
  using fill_request_valid[OF assms, of "put_be 8 cid @ put_be 4 action_scrape @ put_be 4 tx" 0] by simp

subsection \<open>A tracker that follows BEP-15\<close>

text \<open>
  Such a tracker, as the protocol describes it: it answers a connect request with a connection identifier
  and a scrape request that carries this identifier with seeders, completed and leechers of each infohash
  of the request, in the order of the request, each answer under the identifier of its request.
\<close>

type_synonym stats = "byte list \<Rightarrow> 32 word \<times> 32 word \<times> 32 word"

definition stat_bytes :: "32 word \<times> 32 word \<times> 32 word \<Rightarrow> byte list" where
  "stat_bytes st = (case st of (s, c, l) \<Rightarrow> put_be 4 s @ put_be 4 c @ put_be 4 l)"

definition bep15_tracker :: "64 word \<Rightarrow> stats \<Rightarrow> exchange" where
  "bep15_tracker cid stats k req =
     (let tx = take 4 (drop 12 req) in
      if get32 8 req = action_connect then
        (if take 8 req = put_be 8 connect_magic then Some (put_be 4 action_connect @ tx @ put_be 8 cid) else None)
      else if take 8 req = put_be 8 cid then
        Some (put_be 4 action_scrape @ tx @
          concat (map (\<lambda>i. stat_bytes (stats (take 20 (drop (16 + 20 * i) req)))) [0..<(length req - 16) div 20]))
      else None)"

definition reported :: "stats \<Rightarrow> string \<Rightarrow> scrape_result" where
  "reported stats ih =
     (case stats (raw_infohash ih) of (s, c, l) \<Rightarrow>
        \<lparr>sc_infohash = ih, sc_seeders = sint s, sc_leechers = sint l, sc_complete = sint c\<rparr>)"

lemma length_stat_bytes [simp]: "length (stat_bytes st) = 12"
  by (simp add: stat_bytes_def split: prod.splits)

lemma get32_stat_bytes:
  "get32 0 (stat_bytes st) = fst st"
  "get32 4 (stat_bytes st) = fst (snd st)"
  "get32 8 (stat_bytes st) = snd (snd st)"
  by (simp_all add: stat_bytes_def get32_def get_put_be split: prod.splits)

lemma tracker_connect_bep15: "tracker_connect (bep15_tracker cid stats) tx = Inr cid"
proof -
  have "bep15_tracker cid stats 0 (connect_request tx) = Some (put_be 4 action_connect @ put_be 4 tx @ put_be 8 cid)"
    by (simp add: bep15_tracker_def connect_request_def get32_def get_put_be)
  then show ?thesis
    by (simp add: tracker_connect_def udp_read_def go_copy_def get32_def get_put_be)
qed

lemma bep15_scrape_reply:
  assumes "list_all valid_infohash ihs"
  shows "bep15_tracker cid stats k (put_be 8 cid @ put_be 4 action_scrape @ put_be 4 tx @ concat (map raw_infohash ihs)) =
    Some (put_be 4 action_scrape @ put_be 4 tx @ concat (map (\<lambda>ih. stat_bytes (stats (raw_infohash ih))) ihs))"
    (is "bep15_tracker cid stats k ?req = _")
proof -
  have len: "\<forall>x \<in> set (map raw_infohash ihs). length x = 20"
    using assms by (auto simp: list_all_iff dest: valid_infohashD)
  have l: "(length ?req - 16) div 20 = length ihs" using length_concat_same[OF len] by simp
  have "take 20 (drop (16 + 20 * i) ?req) = raw_infohash (ihs ! i)" if "i < length ihs" for i
    using take_drop_concat[OF len, of i 0 20] that len by (simp add: nth_map)
  then have "map (\<lambda>i. stat_bytes (stats (take 20 (drop (16 + 20 * i) ?req)))) [0..<length ihs] =
      map (\<lambda>ih. stat_bytes (stats (raw_infohash ih))) ihs"
    by (intro nth_equalityI) auto
  then show ?thesis
    unfolding bep15_tracker_def Let_def l
    by (simp add: get32_def get_put_be action_scrape_def action_connect_def)
qed

lemma scrape_batch_bep15:
  assumes "list_all valid_infohash ihs"
  shows "scrape_batch (bep15_tracker cid stats k) cid tx ihs = Inr (map (reported stats) ihs)"
proof -
  let ?recs = "map (\<lambda>ih. stat_bytes (stats (raw_infohash ih))) ihs"
  let ?d = "put_be 4 action_scrape @ put_be 4 tx @ concat ?recs"
  have lens: "\<forall>x \<in> set ?recs. length x = 12" by auto
  have len: "length ?d = 8 + 12 * length ihs" using length_concat_same[OF lens] by simp
  have rd: "udp_read (8 + 12 * length ihs) ?d = (?d, 8 + 12 * length ihs)"
    unfolding udp_read_def by (simp only: len min.idem) (simp only: go_copy_same len length_replicate)
  have hdr: "get32 0 ?d = action_scrape" "get32 4 ?d = tx"
    by (simp_all add: get32_def get_put_be)
  have body: "get32 (8 + i * 12 + off) ?d = get32 off (stat_bytes (stats (raw_infohash (ihs ! i))))"
    if "i < length ihs" "off + 4 \<le> 12" for i off
    using get32_concat[OF lens, of i off] that
      get32_append[of "put_be 4 action_scrape @ put_be 4 tx" 8 "12 * i + off" "concat ?recs"]
    by (simp add: algebra_simps)
  have "map (\<lambda>i. let off = 8 + i * 12 in
           \<lparr>sc_infohash = ihs ! i, sc_seeders = sint (get32 off ?d),
            sc_leechers = sint (get32 (off + 8) ?d), sc_complete = sint (get32 (off + 4) ?d)\<rparr>) [0..<length ihs] =
        map (reported stats) ihs"
    using body[where off = 0] body[where off = 4] body[where off = 8]
    by (intro nth_equalityI)
       (auto simp: Let_def reported_def get32_stat_bytes split: prod.splits)
  then show ?thesis
    using rd hdr by (simp add: scrape_batch_def scrape_request_valid[OF assms] bep15_scrape_reply[OF assms])
qed

lemma scrape_batches_bep15:
  assumes "list_all valid_infohash ihs"
  shows "scrape_batches (bep15_tracker cid stats) cid tx k ihs rs = (rs @ map (reported stats) ihs, None)"
  using assms
proof (induction "length ihs" arbitrary: ihs k rs rule: less_induct)
  case less
  have all: "list_all valid_infohash (take 74 ihs)" "list_all valid_infohash (drop 74 ihs)"
    using less.prems by (auto simp: list_all_iff dest: in_set_takeD in_set_dropD)
  show ?case
  proof (cases "ihs = []")
    case False
    have "map (reported stats) (take 74 ihs) @ map (reported stats) (drop 74 ihs) = map (reported stats) ihs"
      by (simp flip: map_append)
    then show ?thesis
      using less.hyps[of "drop 74 ihs" "k + 1"] False all
      by (subst scrape_batches.simps) (simp add: scrape_batch_bep15)
  qed (simp add: scrape_batches.simps)
qed

text \<open>
  C21. Scraping a tracker that follows BEP-15 gives, for any number of valid infohashes and in their order, the
  counts the tracker reports, read as 32-bit signed integers.
\<close>

theorem scrape_exact:
  assumes "list_all valid_infohash ihs"
  shows "scrape_tracker (Some (bep15_tracker cid stats)) tx ihs = (map (reported stats) ihs, None)"
  by (simp add: scrape_tracker_def tracker_connect_bep15 scrape_batches_bep15[OF assms])

theorem scrape_exact_witness:
  "scrape_tracker (Some (bep15_tracker 7 (\<lambda>ih. (5, 9, 1)))) (\<lambda>k. of_nat k) [replicate 40 CHR ''a''] =
     ([\<lparr>sc_infohash = replicate 40 CHR ''a'', sc_seeders = 5, sc_leechers = 1, sc_complete = 9\<rparr>], None)"
proof -
  have "list_all valid_infohash [replicate 40 CHR ''a'']" by code_simp
  from scrape_exact[OF this, of 7 "\<lambda>ih. (5, 9, 1)"] show ?thesis by (simp add: reported_def)
qed

subsection \<open>Any tracker\<close>

lemma map_nth_prefix: "n \<le> length xs \<Longrightarrow> map (\<lambda>i. xs ! i) [0..<n] = take n xs"
  by (intro nth_equalityI) auto

definition count_ok :: "int \<Rightarrow> bool" where
  "count_ok c \<longleftrightarrow> - (2 ^ 31) \<le> c \<and> c < 2 ^ 31"

lemma count_ok_sint: "count_ok (sint (w :: 32 word))"
  using sint_greater_eq[of w] sint_lt[of w] by (simp add: count_ok_def)

definition result_ok :: "scrape_result \<Rightarrow> bool" where
  "result_ok r \<longleftrightarrow> count_ok (sc_seeders r) \<and> count_ok (sc_leechers r) \<and> count_ok (sc_complete r)"

lemma scrape_batch_sound:
  assumes "scrape_batch ask cid tx ihs = Inr rs"
  shows "map sc_infohash rs = take (length rs) ihs \<and> length rs \<le> length ihs \<and> list_all result_ok rs"
proof -
  have n: "(min (8 + 12 * length ihs) m - 8) div 12 \<le> length ihs" for m by simp
  show ?thesis
    using assms n
    by (auto simp: scrape_batch_def udp_read_def Let_def o_def map_nth_prefix[OF n] result_ok_def list_all_iff count_ok_sint
        split: sum.splits option.splits if_splits)
qed

lemma scrape_batches_sound:
  assumes "scrape_batches net cid tx k ihs rs0 = (rs, e)"
  shows "\<exists>rs'. rs = rs0 @ rs' \<and> subseq (map sc_infohash rs') ihs \<and> list_all result_ok rs'"
  using assms
proof (induction "length ihs" arbitrary: ihs k rs0 rule: less_induct)
  case less
  show ?case
  proof (cases "ihs = []")
    case False
    show ?thesis
    proof (cases "scrape_batch (net k) cid (tx k) (take 74 ihs)")
      case (Inl err)
      with less.prems False show ?thesis by (subst (asm) scrape_batches.simps) simp
    next
      case (Inr bs)
      have "scrape_batches net cid tx (k + 1) (drop 74 ihs) (rs0 @ bs) = (rs, e)"
        using less.prems False Inr by (subst (asm) scrape_batches.simps) simp
      then obtain rs' where rs': "rs = (rs0 @ bs) @ rs'" "subseq (map sc_infohash rs') (drop 74 ihs)" "list_all result_ok rs'"
        using less.hyps[of "drop 74 ihs" "k + 1" "rs0 @ bs"] False by auto
      from scrape_batch_sound[OF Inr]
      have bs: "map sc_infohash bs = take (length bs) (take 74 ihs)" "list_all result_ok bs" by auto
      have "subseq (map sc_infohash bs) (take 74 ihs)"
        unfolding bs(1) by (intro prefix_imp_subseq take_is_prefix)
      with rs'(2) have "subseq (map sc_infohash bs @ map sc_infohash rs') (take 74 ihs @ drop 74 ihs)"
        by (rule list_emb_append_mono[rotated])
      with rs' bs(2) show ?thesis by (intro exI[of _ "bs @ rs'"]) simp
    qed
  qed (use less.prems in \<open>simp add: scrape_batches.simps\<close>)
qed

lemma scrape_tracker_sound:
  "subseq (map sc_infohash (fst (scrape_tracker dialed tx ihs))) ihs \<and>
   list_all result_ok (fst (scrape_tracker dialed tx ihs))"
proof -
  have "subseq (map sc_infohash (fst (scrape_batches net cid tx 1 ihs []))) ihs \<and>
      list_all result_ok (fst (scrape_batches net cid tx 1 ihs []))" for net cid
    using scrape_batches_sound[of net cid tx 1 ihs "[]"] by (cases "scrape_batches net cid tx 1 ihs []") auto
  then show ?thesis
    by (auto simp: scrape_tracker_def split: option.splits sum.splits)
qed

subsection \<open>Several trackers\<close>

text \<open>What the comment of \<^verbatim>\<open>Scrape\<close> promises, over the visits in the order of the trackers.\<close>

type_synonym visit = "scrape_result list \<times> tracker_error option"

definition has_seeders :: "scrape_result list \<Rightarrow> bool" where
  "has_seeders rs \<longleftrightarrow> list_ex (\<lambda>r. 0 < sc_seeders r) rs"

definition reachable_visits :: "visit list \<Rightarrow> scrape_result list list" where
  "reachable_visits vs = map fst (filter (\<lambda>v. snd v = None) vs)"

definition scrape_spec :: "visit list \<Rightarrow> tracker_error + scrape_result list" where
  "scrape_spec vs =
     (case find has_seeders (reachable_visits vs) of
        Some rs \<Rightarrow> Inr rs
      | None \<Rightarrow> if reachable_visits vs = [] then Inl All_Unreachable else Inr (last (reachable_visits vs)))"

lemma scrape_loop_spec:
  assumes "\<And>j. \<not> cancelled j"
  shows "scrape_loop cancelled visit k as n rs =
    (case find has_seeders (reachable_visits (map visit as)) of
       Some r \<Rightarrow> Inr r
     | None \<Rightarrow> if reachable_visits (map visit as) = [] then (if n = 0 then Inl All_Unreachable else Inr rs)
        else Inr (last (reachable_visits (map visit as))))"
  by (induction as arbitrary: k n rs)
     (auto simp: assms reachable_visits_def has_seeders_def split: prod.splits option.splits)

lemma scrape_correct_lemma:
  assumes "\<And>j. \<not> cancelled j"
  shows "scrape rnd cancelled dial tx addrs ihs =
    scrape_spec (map (\<lambda>a. scrape_tracker (dial a) (tx a) ihs) (go_shuffle rnd addrs))"
  by (simp add: scrape_def scrape_spec_def scrape_loop_spec[OF assms])

lemma scrape_loop_from:
  "scrape_loop cancelled visit k as n rs = Inr res \<Longrightarrow> (n \<noteq> 0 \<Longrightarrow> P rs) \<Longrightarrow> (\<And>a. P (fst (visit a))) \<Longrightarrow> P res"
proof (induction as arbitrary: k n rs)
  case (Cons a as)
  obtain x e where v: "visit a = (x, e)" by (cases "visit a")
  from Cons.prems(3)[of a] have "P x" by (simp add: v)
  with Cons.prems Cons.IH[of _ _ x] Cons.IH[of _ n rs] show ?case
    by (auto simp: v split: if_splits option.splits)
qed (auto split: if_splits)

lemma scrape_sound:
  assumes "scrape rnd cancelled dial tx addrs ihs = Inr rs"
  shows "subseq (map sc_infohash rs) ihs \<and> list_all result_ok rs"
  using assms unfolding scrape_def
  by (rule scrape_loop_from) (simp_all add: scrape_tracker_sound)

text \<open>
  Whatever the trackers send: what a scrape returns is about infohashes that were asked for, in the order
  asked and each at most as often as asked, with counts in the 32-bit range.
\<close>

theorem scrape_only_what_was_asked:
  assumes "scrape rnd cancelled dial tx addrs ihs = Inr rs"
  shows "subseq (map sc_infohash rs) ihs \<and> list_all result_ok rs"
  by (rule scrape_sound[OF assms])

text \<open>
  C20. Unless it is cancelled, a scrape returns the results of the first reachable tracker that reports seeders,
  otherwise those of the last reachable one, and an error only when no tracker is reachable: the loop is
  equivalent to this choice among the visits of the trackers in the shuffled order.
\<close>

theorem scrape_correct:
  assumes "\<And>j. \<not> cancelled j"
  shows "scrape rnd cancelled dial tx addrs ihs =
    scrape_spec (map (\<lambda>a. scrape_tracker (dial a) (tx a) ihs) (go_shuffle rnd addrs))"
  by (rule scrape_correct_lemma[OF assms])

definition sample_dial :: "string \<Rightarrow> exchange option" where
  "sample_dial a =
     (if a = ''down:1'' then None
      else if a = ''empty:1'' then Some (bep15_tracker 7 (\<lambda>ih. (0, 2, 3)))
      else Some (bep15_tracker 8 (\<lambda>ih. (5, 9, 1))))"

theorem scrape_correct_witness:
  "scrape (\<lambda>n. n) (\<lambda>j. False) sample_dial (\<lambda>a k. of_nat k) [''down:1'', ''empty:1'', ''up:1''] [replicate 40 CHR ''a''] =
     Inr [\<lparr>sc_infohash = replicate 40 CHR ''a'', sc_seeders = 5, sc_leechers = 1, sc_complete = 9\<rparr>]"
  (is "?lhs = _")
proof -
  have v: "list_all valid_infohash [replicate 40 CHR ''a'']" by code_simp
  have down: "scrape_tracker None (\<lambda>k. of_nat k) ihs = ([], Some Dial_Failed)" for ihs
    by (simp add: scrape_tracker_def)
  have "?lhs = scrape_spec (map (\<lambda>a. scrape_tracker (sample_dial a) (\<lambda>k. of_nat k) [replicate 40 CHR ''a''])
      (go_shuffle (\<lambda>n. n) [''down:1'', ''empty:1'', ''up:1'']))"
    by (rule scrape_correct) simp
  also have "go_shuffle (\<lambda>n. n) [''down:1'', ''empty:1'', ''up:1''] = [''down:1'', ''empty:1'', ''up:1'']"
    by code_simp
  also have "scrape_spec (map (\<lambda>a. scrape_tracker (sample_dial a) (\<lambda>k. of_nat k) [replicate 40 CHR ''a''])
      [''down:1'', ''empty:1'', ''up:1'']) =
    Inr [\<lparr>sc_infohash = replicate 40 CHR ''a'', sc_seeders = 5, sc_leechers = 1, sc_complete = 9\<rparr>]"
    using down scrape_batches_bep15[OF v]
    by (simp add: sample_dial_def scrape_tracker_def tracker_connect_bep15 scrape_spec_def reachable_visits_def
        has_seeders_def reported_def)
  finally show ?thesis .
qed

theorem scrape_only_what_was_asked_witness:
  "subseq (map sc_infohash [\<lparr>sc_infohash = replicate 40 CHR ''a'', sc_seeders = 5, sc_leechers = 1, sc_complete = 9\<rparr>])
     [replicate 40 CHR ''a''] \<and>
   list_all result_ok [\<lparr>sc_infohash = replicate 40 CHR ''a'', sc_seeders = 5, sc_leechers = 1, sc_complete = 9\<rparr>]"
proof (rule scrape_only_what_was_asked)
  have v: "list_all valid_infohash [replicate 40 CHR ''a'']" by code_simp
  have "go_shuffle (\<lambda>n. n) [''up:1''] = [''up:1'']" by code_simp
  then show "scrape (\<lambda>n. n) (\<lambda>j. False) sample_dial (\<lambda>a k. of_nat k) [''up:1''] [replicate 40 CHR ''a''] =
     Inr [\<lparr>sc_infohash = replicate 40 CHR ''a'', sc_seeders = 5, sc_leechers = 1, sc_complete = 9\<rparr>]"
    using scrape_batches_bep15[OF v]
    by (simp add: scrape_correct_lemma sample_dial_def scrape_tracker_def tracker_connect_bep15 scrape_spec_def
        reachable_visits_def has_seeders_def reported_def)
qed

end
