(* ===== verification/Scrape_Worker.thy ===== *)
theory Scrape_Worker
  imports Tracker_Correct Torrent_Db
begin

section \<open>The scrape worker (\<^verbatim>\<open>scrape/worker.go\<close>)\<close>

text \<open>
  The worker writes scrape results to the database and moves torrents between states. It reaches the
  database through the interface \<^verbatim>\<open>Querier\<close>: \<open>exec c db\<close> is the database after the call \<open>c\<close>, or nothing
  when the call fails. The metrics and the log are left out; the loops of the worker call one of the steps
  below per tick.
\<close>

datatype db_call =
  Upsert_Torrent_Tracker string int
| Insert_Scrape_History string int int int
| Update_Torrent_Scrape string int int instant torrent_state "instant option"
| Update_Torrent_Dead string
| Prune_Scrape_History instant

record torrent_meta =
  tm_seeders :: int
  tm_state :: torrent_state

text \<open>\<^verbatim>\<open>initTracker\<close>: the identifier the database gives the first tracker, or 0.\<close>

definition init_tracker :: "(string \<Rightarrow> 'db \<Rightarrow> (int \<times> 'db) option) \<Rightarrow> string list \<Rightarrow> 'db \<Rightarrow> int \<times> 'db" where
  "init_tracker upsert tracker_urls db =
     (case tracker_urls of
        [] \<Rightarrow> (0, db)
      | u # us \<Rightarrow> (case upsert u db of None \<Rightarrow> (0, db) | Some (i, db') \<Rightarrow> (i, db')))"

definition next_scrape_at :: "instant \<Rightarrow> int \<Rightarrow> instant" where
  "next_scrape_at now seeders =
     (if seeders > 100 then now + hour
      else if seeders \<ge> 10 then now + 6 * hour
      else if seeders \<ge> 1 then now + 24 * hour
      else now + 7 * 24 * hour)"

definition new_state :: "torrent_state \<Rightarrow> int \<Rightarrow> torrent_state" where
  "new_state current seeders =
     (if seeders > 0 \<and> (current = Classified \<or> current = Enriched) then Active else current)"

text \<open>
  \<^verbatim>\<open>applyResult\<close>: whether it succeeds, and the database it leaves; \<open>now\<close> and \<open>later\<close> are its two readings
  of the clock. Its last part writes the row of the torrent.
\<close>

definition write_row ::
    "(db_call \<Rightarrow> 'db \<Rightarrow> 'db option) \<Rightarrow> instant \<Rightarrow> instant \<Rightarrow> scrape_result \<Rightarrow> torrent_meta \<Rightarrow> 'db \<Rightarrow> bool \<times> 'db" where
  "write_row exec now later r m db =
     (let seeders = sc_seeders r;
          last_seen = (if seeders > 0 then Some now else None)
      in case exec (Update_Torrent_Scrape (sc_infohash r) seeders (sc_leechers r) (next_scrape_at later seeders)
                (new_state (tm_state m) seeders) last_seen) db of
           None \<Rightarrow> (False, db)
         | Some db' \<Rightarrow> (True, db'))"

definition apply_result ::
    "(db_call \<Rightarrow> 'db \<Rightarrow> 'db option) \<Rightarrow> instant \<Rightarrow> instant \<Rightarrow> scrape_result \<Rightarrow> int \<Rightarrow> torrent_meta \<Rightarrow> 'db \<Rightarrow> bool \<times> 'db" where
  "apply_result exec now later r tracker_id m db =
     (if tracker_id \<noteq> 0 then
        (case exec (Upsert_Torrent_Tracker (sc_infohash r) tracker_id) db of
           None \<Rightarrow> (False, db)
         | Some db1 \<Rightarrow>
             (case exec (Insert_Scrape_History (sc_infohash r) tracker_id (sc_seeders r) (sc_leechers r)) db1 of
                None \<Rightarrow> (False, db1)
              | Some db2 \<Rightarrow> write_row exec now later r m db2))
      else write_row exec now later r m db)"

text \<open>
  \<^verbatim>\<open>scrapeOnce\<close>: \<open>due\<close> is the query for the rows that are due, \<open>scraper\<close> the tracker client, and
  \<open>meanwhile\<close> what the other loops do to the database between the query and the results. A result for an
  infohash that no row has would read the zero value of the Go map, \<open>zero_meta\<close>.
\<close>

definition meta_of :: "scrape_row list \<Rightarrow> (string, torrent_meta) gomap" where
  "meta_of rows = fold (\<lambda>r. map_set (row_infohash r) \<lparr>tm_seeders = row_seeders r, tm_state = row_state r\<rparr>) rows []"

definition meta_get :: "torrent_meta \<Rightarrow> scrape_row list \<Rightarrow> string \<Rightarrow> torrent_meta" where
  "meta_get zero_meta rows ih = (case map_get (meta_of rows) ih of None \<Rightarrow> zero_meta | Some m \<Rightarrow> m)"

fun apply_results ::
    "(db_call \<Rightarrow> 'db \<Rightarrow> 'db option) \<Rightarrow> instant \<Rightarrow> int \<Rightarrow> (string \<Rightarrow> torrent_meta) \<Rightarrow> scrape_result list \<Rightarrow> 'db \<Rightarrow> 'db" where
  "apply_results exec now tracker_id meta [] db = db"
| "apply_results exec now tracker_id meta (r # rs) db =
     apply_results exec now tracker_id meta rs (snd (apply_result exec now now r tracker_id (meta (sc_infohash r)) db))"

definition scrape_once ::
    "(db_call \<Rightarrow> 'db \<Rightarrow> 'db option) \<Rightarrow> instant \<Rightarrow> int \<Rightarrow> torrent_meta \<Rightarrow> ('db \<Rightarrow> scrape_row list option) \<Rightarrow>
     (string list \<Rightarrow> tracker_error + scrape_result list) \<Rightarrow> ('db \<Rightarrow> 'db) \<Rightarrow> 'db \<Rightarrow> 'db" where
  "scrape_once exec now tracker_id zero_meta due scraper meanwhile db =
     (case due db of
        None \<Rightarrow> db
      | Some rows \<Rightarrow>
          if length rows = 0 then db
          else case scraper (map row_infohash rows) of
            Inl e \<Rightarrow> meanwhile db
          | Inr results \<Rightarrow> apply_results exec now tracker_id (meta_get zero_meta rows) results (meanwhile db))"

definition dead_cutoff :: "instant \<Rightarrow> duration \<Rightarrow> instant" where
  "dead_cutoff now dead_after = now - (if dead_after \<le> 0 then 90 * 24 * hour else dead_after)"

fun mark_dead :: "(db_call \<Rightarrow> 'db \<Rightarrow> 'db option) \<Rightarrow> string list \<Rightarrow> 'db \<Rightarrow> 'db" where
  "mark_dead exec [] db = db"
| "mark_dead exec (ih # ihs) db =
     mark_dead exec ihs (case exec (Update_Torrent_Dead ih) db of None \<Rightarrow> db | Some db' \<Rightarrow> db')"

definition detect_dead ::
    "(db_call \<Rightarrow> 'db \<Rightarrow> 'db option) \<Rightarrow> instant \<Rightarrow> duration \<Rightarrow> (instant \<Rightarrow> int \<Rightarrow> 'db \<Rightarrow> string list option) \<Rightarrow> 'db \<Rightarrow> 'db" where
  "detect_dead exec now dead_after candidates db =
     (case candidates (dead_cutoff now dead_after) 1000 db of None \<Rightarrow> db | Some ihs \<Rightarrow> mark_dead exec ihs db)"

definition prune_interval :: "duration \<Rightarrow> duration" where
  "prune_interval interval = (if interval \<le> 0 then 24 * hour else interval)"

definition prune_history :: "(db_call \<Rightarrow> 'db \<Rightarrow> 'db option) \<Rightarrow> instant \<Rightarrow> 'db \<Rightarrow> 'db" where
  "prune_history exec now db =
     (case exec (Prune_Scrape_History (now - 90 * 24 * hour)) db of None \<Rightarrow> db | Some db' \<Rightarrow> db')"

subsection \<open>What the worker relies on\<close>

text \<open>
  The calls, seen through the rows of the torrents: an update of a scrape changes the one row, and only
  with counts that are not negative; a dead mark changes the state of the one row; nothing else changes
  a row.
\<close>

definition scraped_row :: "int \<Rightarrow> int \<Rightarrow> instant \<Rightarrow> torrent_state \<Rightarrow> instant option \<Rightarrow> torrent_row \<Rightarrow> torrent_row" where
  "scraped_row seeders leechers scrape_at st last_seen t =
     t\<lparr>tr_seeders := seeders, tr_leechers := leechers, tr_scrape_at := Some scrape_at, tr_state := st,
       tr_last_seen := (case last_seen of Some s \<Rightarrow> Some s | None \<Rightarrow> tr_last_seen t)\<rparr>"

text \<open>The row after the result \<open>r\<close> of a scrape at \<open>now\<close>.\<close>

definition after_scrape :: "instant \<Rightarrow> scrape_result \<Rightarrow> torrent_row \<Rightarrow> torrent_row" where
  "after_scrape now r t =
     scraped_row (sc_seeders r) (sc_leechers r) (next_scrape_at now (sc_seeders r)) (new_state (tr_state t) (sc_seeders r))
       (if sc_seeders r > 0 then Some now else None) t"

locale torrent_queries =
  fixes exec :: "db_call \<Rightarrow> 'db \<Rightarrow> 'db option"
    and view :: "'db \<Rightarrow> string \<Rightarrow> torrent_row option"
  assumes update_scrape: "exec (Update_Torrent_Scrape ih s l at st seen) db = Some db' \<Longrightarrow>
      view db' = (view db)(ih := map_option (scraped_row s l at st seen) (view db ih))"
    and update_scrape_counts: "exec (Update_Torrent_Scrape ih s l at st seen) db = Some db' \<Longrightarrow> view db ih \<noteq> None \<Longrightarrow>
      0 \<le> s \<and> 0 \<le> l"
    and update_dead: "exec (Update_Torrent_Dead ih) db = Some db' \<Longrightarrow>
      view db' = (view db)(ih := map_option (\<lambda>t. t\<lparr>tr_state := Dead\<rparr>) (view db ih))"
    and tracker_keeps: "exec (Upsert_Torrent_Tracker ih i) db = Some db' \<Longrightarrow> view db' = view db"
    and history_keeps: "exec (Insert_Scrape_History ih i s l) db = Some db' \<Longrightarrow> view db' = view db"
begin

lemma write_row_view:
  assumes "view db (sc_infohash r) = Some t" "tm_state m = tr_state t"
  shows "view (snd (write_row exec now now r m db)) = view db \<or>
    (view (snd (write_row exec now now r m db)) = (view db)(sc_infohash r \<mapsto> after_scrape now r t) \<and>
     0 \<le> sc_seeders r \<and> 0 \<le> sc_leechers r)"
proof -
  define call where "call = Update_Torrent_Scrape (sc_infohash r) (sc_seeders r) (sc_leechers r)
    (next_scrape_at now (sc_seeders r)) (new_state (tr_state t) (sc_seeders r)) (if sc_seeders r > 0 then Some now else None)"
  have "snd (write_row exec now now r m db) = (case exec call db of None \<Rightarrow> db | Some db' \<Rightarrow> db')"
    by (simp add: write_row_def call_def assms(2) split: option.split)
  moreover have "view db' = (view db)(sc_infohash r \<mapsto> after_scrape now r t) \<and> 0 \<le> sc_seeders r \<and> 0 \<le> sc_leechers r"
    if "exec call db = Some db'" for db'
    using update_scrape[OF that[unfolded call_def]] update_scrape_counts[OF that[unfolded call_def]] assms(1)
    by (simp add: after_scrape_def)
  ultimately show ?thesis by (cases "exec call db") simp_all
qed

lemma apply_result_view:
  assumes "view db (sc_infohash r) = Some t" "tm_state m = tr_state t"
  shows "view (snd (apply_result exec now now r i m db)) = view db \<or>
    (view (snd (apply_result exec now now r i m db)) = (view db)(sc_infohash r \<mapsto> after_scrape now r t) \<and>
     0 \<le> sc_seeders r \<and> 0 \<le> sc_leechers r)"
proof -
  have w: "view (snd (write_row exec now now r m db2)) = view db \<or>
      (view (snd (write_row exec now now r m db2)) = (view db)(sc_infohash r \<mapsto> after_scrape now r t) \<and>
       0 \<le> sc_seeders r \<and> 0 \<le> sc_leechers r)" if "view db2 = view db" for db2
    using write_row_view[of db2 r t m now] assms that by simp
  show ?thesis
    unfolding apply_result_def using w tracker_keeps history_keeps
    by (simp split: option.split)
qed

text \<open>Results about distinct infohashes, each with a row whose state the worker knows.\<close>

definition known :: "(string \<Rightarrow> torrent_meta) \<Rightarrow> scrape_result list \<Rightarrow> 'db \<Rightarrow> bool" where
  "known meta rs db \<longleftrightarrow> distinct (map sc_infohash rs) \<and>
     (\<forall>r \<in> set rs. \<exists>t. view db (sc_infohash r) = Some t \<and> tm_state (meta (sc_infohash r)) = tr_state t)"

lemma known_fresh: "known meta (r # rs) db \<Longrightarrow> r' \<in> set rs \<Longrightarrow> sc_infohash r' \<noteq> sc_infohash r"
  unfolding known_def by (metis distinct.simps(2) image_eqI list.simps(9) set_map)

lemma known_step:
  assumes "known meta (r # rs) db"
  shows "known meta rs (snd (apply_result exec now now r i (meta (sc_infohash r)) db))"
proof -
  obtain t where t: "view db (sc_infohash r) = Some t" "tm_state (meta (sc_infohash r)) = tr_state t"
    using assms by (auto simp: known_def)
  note fresh = known_fresh[OF assms]
  have d: "distinct (map sc_infohash rs)"
    and ks: "\<forall>q \<in> set rs. \<exists>t. view db (sc_infohash q) = Some t \<and> tm_state (meta (sc_infohash q)) = tr_state t"
    using assms by (auto simp: known_def)
  from apply_result_view[OF t, of now i] show ?thesis
  proof
    assume "view (snd (apply_result exec now now r i (meta (sc_infohash r)) db)) = view db"
    with d ks show ?thesis by (simp add: known_def)
  next
    assume "view (snd (apply_result exec now now r i (meta (sc_infohash r)) db)) =
        (view db)(sc_infohash r \<mapsto> after_scrape now r t) \<and> 0 \<le> sc_seeders r \<and> 0 \<le> sc_leechers r"
    with d ks fresh show ?thesis by (simp add: known_def)
  qed
qed

lemma apply_results_view:
  assumes "known meta rs db"
  shows "view (apply_results exec now i meta rs db) ih = view db ih \<or>
    (\<exists>r \<in> set rs. sc_infohash r = ih \<and> 0 \<le> sc_seeders r \<and> 0 \<le> sc_leechers r \<and>
       view (apply_results exec now i meta rs db) ih = map_option (after_scrape now r) (view db ih))"
  using assms
proof (induction rs arbitrary: db)
  case (Cons r rs)
  let ?db = "snd (apply_result exec now now r i (meta (sc_infohash r)) db)"
  obtain t where t: "view db (sc_infohash r) = Some t" "tm_state (meta (sc_infohash r)) = tr_state t"
    using Cons.prems by (auto simp: known_def)
  note fresh = known_fresh[OF Cons.prems]
  note step = apply_result_view[OF t, of now i]
  note ih = Cons.IH[OF known_step[OF Cons.prems, of now i]]
  show ?case
  proof (cases "ih = sc_infohash r")
    case True
    then have "view (apply_results exec now i meta rs ?db) ih = view ?db ih"
      using ih fresh by auto
    then show ?thesis using step t True by auto
  next
    case False
    then have "view ?db ih = view db ih" using step by auto
    then show ?thesis using ih by auto
  qed
qed simp

lemma mark_dead_view:
  "view (mark_dead exec ihs db) ih = view db ih \<or>
   (ih \<in> set ihs \<and> view (mark_dead exec ihs db) ih = map_option (\<lambda>t. t\<lparr>tr_state := Dead\<rparr>) (view db ih))"
proof (induction ihs arbitrary: db)
  case (Cons d ihs)
  let ?db = "case exec (Update_Torrent_Dead d) db of None \<Rightarrow> db | Some db' \<Rightarrow> db'"
  have "view ?db = view db \<or> view ?db = (view db)(d := map_option (\<lambda>t. t\<lparr>tr_state := Dead\<rparr>) (view db d))"
    by (auto split: option.split dest: update_dead)
  then show ?case using Cons.IH[of ?db]
    by (cases "view db ih") (auto split: if_splits)
qed simp

end

text \<open>A database that is up: a call fails only when a constraint refuses it.\<close>

locale live_queries = torrent_queries +
  fixes has :: "int \<Rightarrow> 'a \<Rightarrow> bool"
  assumes update_total: "0 \<le> s \<Longrightarrow> 0 \<le> l \<Longrightarrow> exec (Update_Torrent_Scrape ih s l at st seen) db \<noteq> None"
    and tracker_total: "view db ih \<noteq> None \<Longrightarrow> has i db \<Longrightarrow> exec (Upsert_Torrent_Tracker ih i) db \<noteq> None"
    and history_total: "view db ih \<noteq> None \<Longrightarrow> has i db \<Longrightarrow> 0 \<le> s \<Longrightarrow> 0 \<le> l \<Longrightarrow>
      exec (Insert_Scrape_History ih i s l) db \<noteq> None"
    and has_keeps: "exec c db = Some db' \<Longrightarrow> has i db' = has i db"
begin

lemma write_row_live:
  assumes "view db (sc_infohash r) = Some t" "tm_state m = tr_state t" "0 \<le> sc_seeders r" "0 \<le> sc_leechers r"
  shows "view (snd (write_row exec now now r m db)) = (view db)(sc_infohash r \<mapsto> after_scrape now r t)"
proof -
  define call where "call = Update_Torrent_Scrape (sc_infohash r) (sc_seeders r) (sc_leechers r)
    (next_scrape_at now (sc_seeders r)) (new_state (tr_state t) (sc_seeders r)) (if sc_seeders r > 0 then Some now else None)"
  have "exec call db \<noteq> None" unfolding call_def by (rule update_total[OF assms(3,4)])
  then obtain db' where db': "exec call db = Some db'" by auto
  have "snd (write_row exec now now r m db) = db'"
    using db' by (simp add: write_row_def call_def assms(2))
  then show ?thesis using update_scrape[OF db'[unfolded call_def]] assms(1) by (simp add: after_scrape_def)
qed

lemma apply_result_live:
  assumes "view db (sc_infohash r) = Some t" "tm_state m = tr_state t" "i = 0 \<or> has i db"
    and "0 \<le> sc_seeders r" "0 \<le> sc_leechers r"
  shows "view (snd (apply_result exec now now r i m db)) = (view db)(sc_infohash r \<mapsto> after_scrape now r t)"
proof (cases "i = 0")
  case True
  then show ?thesis using write_row_live[OF assms(1,2,4,5)] by (simp add: apply_result_def)
next
  case False
  with assms(3) have h: "has i db" by simp
  obtain db1 where db1: "exec (Upsert_Torrent_Tracker (sc_infohash r) i) db = Some db1"
    using tracker_total[OF _ h, of "sc_infohash r"] assms(1) by auto
  then have v1: "view db1 = view db" "has i db1" using tracker_keeps has_keeps h by auto
  obtain db2 where db2: "exec (Insert_Scrape_History (sc_infohash r) i (sc_seeders r) (sc_leechers r)) db1 = Some db2"
    using history_total[OF _ v1(2) assms(4,5), of "sc_infohash r"] assms(1) v1(1) by auto
  then have "view db2 = view db" using history_keeps v1 by auto
  then show ?thesis
    using write_row_live[of db2 r t m now] assms by (simp add: apply_result_def False db1 db2)
qed

lemma apply_results_live:
  assumes "known meta rs db" "i = 0 \<or> has i db" "r \<in> set rs" "0 \<le> sc_seeders r" "0 \<le> sc_leechers r"
  shows "view (apply_results exec now i meta rs db) (sc_infohash r) = map_option (after_scrape now r) (view db (sc_infohash r))"
  using assms
proof (induction rs arbitrary: db)
  case (Cons q rs)
  let ?db = "snd (apply_result exec now now q i (meta (sc_infohash q)) db)"
  have k: "known meta rs ?db" by (rule known_step[OF Cons.prems(1)])
  obtain t where t: "view db (sc_infohash q) = Some t" "tm_state (meta (sc_infohash q)) = tr_state t"
    using Cons.prems by (auto simp: known_def)
  have keep: "has i ?db = has i db"
    by (auto simp: apply_result_def write_row_def Let_def has_keeps split: option.split)
  show ?case
  proof (cases "r = q")
    case True
    have "view (apply_results exec now i meta rs ?db) (sc_infohash q) = view ?db (sc_infohash q)"
      using apply_results_view[OF k, of now i "sc_infohash q"] known_fresh[OF Cons.prems(1)] by auto
    with True show ?thesis
      using apply_result_live[OF t(1,2) Cons.prems(2), of now] Cons.prems t by simp
  next
    case False
    with Cons.prems have r: "r \<in> set rs" by simp
    then have ne: "sc_infohash r \<noteq> sc_infohash q" by (rule known_fresh[OF Cons.prems(1)])
    have "view ?db (sc_infohash r) = view db (sc_infohash r)"
      using apply_result_view[OF t, of now i] ne by auto
    moreover have "i = 0 \<or> has i ?db" using keep Cons.prems(2) by simp
    ultimately show ?thesis using Cons.IH[OF k _ r] Cons.prems by simp
  qed
qed simp

end

subsection \<open>The calls on the tables\<close>

fun sql_exec :: "instant \<Rightarrow> db_call \<Rightarrow> torrent_db \<Rightarrow> torrent_db option" where
  "sql_exec now (Upsert_Torrent_Tracker ih i) db = upsert_torrent_tracker now ih i db"
| "sql_exec now (Insert_Scrape_History ih i s l) db = insert_scrape_history now ih i s l db"
| "sql_exec now (Update_Torrent_Scrape ih s l at st seen) db = update_torrent_scrape ih s l at st seen db"
| "sql_exec now (Update_Torrent_Dead ih) db = update_torrent_dead ih db"
| "sql_exec now (Prune_Scrape_History cutoff) db = prune_scrape_history cutoff db"

abbreviation torrent_view :: "torrent_db \<Rightarrow> string \<Rightarrow> torrent_row option" where
  "torrent_view db \<equiv> map_get (torrents db)"

lemmas scraper_statement_defs =
  upsert_torrent_tracker_def insert_scrape_history_def update_torrent_scrape_def update_torrent_dead_def
  prune_scrape_history_def has_tracker_def

interpretation sql: live_queries "sql_exec clock" torrent_view has_tracker for clock
  apply unfold_locales
  subgoal by (auto simp: update_torrent_scrape_def go_map scraped_row_def split: option.splits if_splits)
  subgoal by (auto simp: update_torrent_scrape_def split: option.splits if_splits)
  subgoal by (auto simp: update_torrent_dead_def go_map split: option.splits)
  subgoal by (auto simp: upsert_torrent_tracker_def split: if_splits)
  subgoal by (auto simp: insert_scrape_history_def split: if_splits)
  subgoal by (auto simp: update_torrent_scrape_def split: option.splits)
  subgoal by (auto simp: upsert_torrent_tracker_def)
  subgoal by (auto simp: insert_scrape_history_def)
  subgoal for c by (cases c) (auto simp: scraper_statement_defs split: option.splits if_splits)
  done

end
