(* ===== verification/Storage.thy ===== *)
theory Storage
  imports Api_Client Reindex Scrape_Worker
begin

section \<open>All writers of the database together\<close>

text \<open>
  The indexer, the reclassification, the scrape worker with its three loops, and the HTTP interface share the
  database. Here their steps are interleaved in any order, with any network, tracker, request and failure,
  and shown to be sequences of statements, so that what holds after every statement holds in every run.
\<close>

subsection \<open>The scrape worker keeps what its calls keep\<close>

text \<open>\<open>P\<close> is kept by every call that succeeds; a call may fail for any reason.\<close>

locale stable_calls =
  fixes exec :: "db_call \<Rightarrow> 'db \<Rightarrow> 'db option"
    and P :: "'db \<Rightarrow> bool"
  assumes call_keeps: "P db \<Longrightarrow> exec c db = Some db' \<Longrightarrow> P db'"
begin

lemma keeps_or_stays: "P db \<Longrightarrow> P (case exec c db of None \<Rightarrow> db | Some db' \<Rightarrow> db')"
  by (auto intro: call_keeps split: option.split)

lemma write_row_keeps: "P db \<Longrightarrow> P (snd (write_row exec now later r m db))"
  by (auto simp: write_row_def Let_def intro: call_keeps split: option.split)

lemma apply_result_keeps: "P db \<Longrightarrow> P (snd (apply_result exec now later r i m db))"
  by (auto simp: apply_result_def intro: call_keeps write_row_keeps split: option.split)

lemma apply_results_keeps: "P db \<Longrightarrow> P (apply_results exec now i meta rs db)"
  by (induction rs arbitrary: db) (simp_all add: apply_result_keeps)

lemma scrape_once_keeps: "P db \<Longrightarrow> P (meanwhile db) \<Longrightarrow> P (scrape_once exec now i zero_meta due scraper meanwhile db)"
  by (simp add: scrape_once_def apply_results_keeps split: option.split sum.split)

lemma mark_dead_keeps: "P db \<Longrightarrow> P (mark_dead exec ihs db)"
  by (induction ihs arbitrary: db) (simp_all add: keeps_or_stays)

lemma detect_dead_keeps: "P db \<Longrightarrow> P (detect_dead exec now dead_after candidates db)"
  by (simp add: detect_dead_def mark_dead_keeps split: option.split)

lemma prune_history_keeps: "P db \<Longrightarrow> P (prune_history exec now db)"
  by (simp add: prune_history_def keeps_or_stays)

end

text \<open>The calls of the scrape worker, when the database may be down for some of them.\<close>

definition flaky :: "(db_call \<Rightarrow> torrent_db \<Rightarrow> bool) \<Rightarrow> instant \<Rightarrow> db_call \<Rightarrow> torrent_db \<Rightarrow> torrent_db option" where
  "flaky down clock c db = (if down c db then None else sql_exec clock c db)"

definition reach_db :: "catalog \<Rightarrow> torrent_db \<Rightarrow> bool" where
  "reach_db ct db \<longleftrightarrow> db_reachable (ct\<lparr>ct_db := db\<rparr>)"

lemma reach_db_step: "reach_db ct db \<Longrightarrow> exec_statement s (ct\<lparr>ct_db := db\<rparr>) = Some (ct\<lparr>ct_db := db'\<rparr>) \<Longrightarrow> reach_db ct db'"
  unfolding reach_db_def by (rule executed)

text \<open>
  \<open>Q\<close> is kept by the statements that are \<open>allowed\<close>; these are all but the two that store names and paths, and those
  two for a torrent without blocked content.
\<close>

locale kept_by_statements =
  fixes ct :: catalog
    and Q :: "torrent_db \<Rightarrow> bool"
    and allowed :: "statement \<Rightarrow> bool"
  assumes kept: "Q db \<Longrightarrow> allowed s \<Longrightarrow> exec_statement s (ct\<lparr>ct_db := db\<rparr>) = Some (ct\<lparr>ct_db := db'\<rparr>) \<Longrightarrow> Q db'"
    and allowed_updates: "allowed (Update_Classified st c cf ih)" "allowed (Update_Scrape ih a l at st seen)"
      "allowed (Update_Dead ih)" "allowed (Link_Tracker now ih i)" "allowed (Add_History now ih i a l)"
      "allowed (Prune_History now)" "allowed (Upsert_Tracker url)"
    and allowed_inserts: "\<not> contains_blocked_content name fs \<Longrightarrow>
      allowed (Upsert_Pending now ih name sz k) \<and> allowed (Insert_Files (file_rows ih fs))"
begin

lemma sql_exec_keeps: "Q db \<Longrightarrow> sql_exec clock c db = Some db' \<Longrightarrow> Q db'"
proof (cases c)
  case (Upsert_Torrent_Tracker ih i)
  moreover assume "Q db" "sql_exec clock c db = Some db'"
  ultimately show ?thesis by (auto simp: on_db_def intro!: kept[of db "Link_Tracker clock ih i"] allowed_updates)
next
  case (Insert_Scrape_History ih i s l)
  moreover assume "Q db" "sql_exec clock c db = Some db'"
  ultimately show ?thesis by (auto simp: on_db_def intro!: kept[of db "Add_History clock ih i s l"] allowed_updates)
next
  case (Update_Torrent_Scrape ih s l at st seen)
  moreover assume "Q db" "sql_exec clock c db = Some db'"
  ultimately show ?thesis by (auto simp: on_db_def intro!: kept[of db "Update_Scrape ih s l at st seen"] allowed_updates)
next
  case (Update_Torrent_Dead ih)
  moreover assume "Q db" "sql_exec clock c db = Some db'"
  ultimately show ?thesis by (auto simp: on_db_def intro!: kept[of db "Update_Dead ih"] allowed_updates)
next
  case (Prune_Scrape_History cutoff)
  moreover assume "Q db" "sql_exec clock c db = Some db'"
  ultimately show ?thesis by (auto simp: on_db_def intro!: kept[of db "Prune_History cutoff"] allowed_updates)
qed

lemma flaky_keeps: "Q db \<Longrightarrow> flaky down clock c db = Some db' \<Longrightarrow> Q db'"
  by (auto simp: flaky_def intro: sql_exec_keeps split: if_splits)

lemma tracker_keeps: "Q db \<Longrightarrow> Q (snd (upsert_tracker url db))"
  using kept[of db "Upsert_Tracker url"] allowed_updates by (simp add: on_db_def)

lemma classified_keeps: "Q db \<Longrightarrow> update_torrent_classified st y cf ih db = Some db' \<Longrightarrow> Q db'"
  using kept[of db "Update_Classified st y cf ih" db'] allowed_updates by (simp add: on_db_def)

lemma store_torrent_keeps: "Q db \<Longrightarrow> Q (store_torrent lower cfg up now ih info db)"
proof -
  assume r: "Q db"
  let ?name = "to_valid_utf8 (t_name info)" and ?fs = "clean_files info"
  let ?u = "if up 1 then upsert_torrent_pending now ih ?name (t_total info) (int (length (t_files info))) db else None"
  show ?thesis
  proof (cases "contains_blocked_content ?name ?fs \<or> ?u = None")
    case True
    with r show ?thesis by (auto simp: store_torrent_def Let_def)
  next
    case False
    then obtain j db1 where u: "?u = Some (j, db1)" and ok: "\<not> contains_blocked_content ?name ?fs" by auto
    then have r1: "Q db1"
      using kept[OF r, of "Upsert_Pending now ih ?name (t_total info) (int (length (t_files info)))" db1] allowed_inserts[OF ok]
      by (simp add: on_db_def split: if_splits)
    let ?f = "if up 2 then insert_torrent_files (file_rows ih ?fs) db1 else None"
    define cl where "cl = classify lower ?name ?fs (t_total info) cfg"
    note st = store_torrent_def[of lower cfg up now ih info db, unfolded Let_def, folded cl_def]
    show ?thesis
    proof (cases "j = 0 \<or> ?f = None")
      case True
      with r1 u ok show ?thesis unfolding st by (elim disjE) simp_all
    next
      case False
      then obtain db2 where f: "?f = Some db2" and j: "j \<noteq> 0" by auto
      then have r2: "Q db2"
        using kept[OF r1, of "Insert_Files (file_rows ih ?fs)" db2] allowed_inserts[OF ok] by (simp add: on_db_def split: if_splits)
      let ?c = "if up 3 then update_torrent_classified (cl_state cl) (cl_content_type cl) (classify_params cl) ih db2 else None"
      have "store_torrent lower cfg up now ih info db = (case ?c of None \<Rightarrow> db2 | Some db3 \<Rightarrow> db3)"
        using u ok f j unfolding st by simp
      then show ?thesis using classified_keeps[OF r2] r2 by (auto split: option.split if_splits)
    qed
  qed
qed

lemma process_peers_keeps:
  "Q db \<Longrightarrow> process_peers lower cfg mp mc fetcher granted arrival up now ev db = Some db' \<Longrightarrow> Q db'"
  by (erule process_peers_cases) (auto intro: store_torrent_keeps)

lemma index_batch_keeps: "Q db \<Longrightarrow> Q (snd (fst (index_batch lower cfg env dry ts (res, db))))"
proof (induction ts arbitrary: res db)
  case (Cons t ts)
  define y where "y = classify_row lower cfg (get_torrent_files (ir_infohash t) db) t"
  note step = index_batch.simps(2)[of lower cfg env dry t ts res db, unfolded Let_def, folded y_def]
  show ?case
    unfolding step using Cons.IH Cons.prems classified_keeps[OF Cons.prems]
    by (cases dry; simp split: option.split; blast)
qed simp

lemma index_loop_keeps: "Q db \<Longrightarrow> Q (snd (fst (index_loop lower cfg env dry n off (res, db))))"
proof (induction lower cfg env dry n off "(res, db)" arbitrary: res db rule: index_loop.induct)
  case (1 lower cfg env dry n off res db)
  have b: "Q (snd st)" if "index_batch lower cfg env dry ts (res, db) = (st, e)" for ts st e
    using index_batch_keeps[OF 1(2), of lower cfg env dry ts res] that by simp
  show ?case
    using 1 b
    by (subst index_loop.simps) (auto split: option.split prod.split)
qed

lemma index_run_keeps: "Q db \<Longrightarrow> Q (snd (fst (index_run lower cfg env dry db)))"
  by (simp add: index_run_def index_loop_keeps)

end

interpretation reaching: kept_by_statements ct "reach_db ct" "\<lambda>s. True" for ct
  by unfold_locales (auto intro: reach_db_step)

interpretation scraper: stable_calls "flaky down clock" "reach_db ct" for down clock ct
  by unfold_locales (rule reaching.flaky_keeps)

lemmas process_peers_reach = reaching.process_peers_keeps
lemmas index_run_reach = reaching.index_run_keeps

subsection \<open>The block list\<close>

text \<open>No term of the block list occurs in a stored name or path, as they are normalised for the check.\<close>

definition clean_text :: "runes \<Rightarrow> bool" where
  "clean_text s \<longleftrightarrow> \<not> occurs re_blocked_content (normalize s)"

definition unblocked :: "torrent_db \<Rightarrow> bool" where
  "unblocked db \<longleftrightarrow> (\<forall>t \<in> snd ` set (torrents db). clean_text (tr_name t)) \<and> (\<forall>f \<in> set (torrent_files db). clean_text (fl_path f))"

fun clean_statement :: "statement \<Rightarrow> bool" where
  "clean_statement (Upsert_Pending now ih name sz k) \<longleftrightarrow> clean_text name"
| "clean_statement (Insert_Files fs) \<longleftrightarrow> (\<forall>f \<in> set fs. clean_text (fl_path f))"
| "clean_statement _ \<longleftrightarrow> True"

lemma unblocked_content: "\<not> contains_blocked_content name fs \<longleftrightarrow> clean_text name \<and> (\<forall>f \<in> set fs. clean_text (c_path f))"
proof -
  have "re_blocked_content \<in> set all_patterns" by (simp add: all_patterns_def)
  from occurs_match[OF this] show ?thesis
    by (auto simp: contains_blocked_content_def clean_text_def list_ex_iff)
qed

lemma unblocked_put:
  assumes "unblocked db" "clean_text (tr_name t)"
  shows "unblocked (db\<lparr>torrents := map_set ih t (torrents db)\<rparr>)"
  using assms set_map_set[of ih t "torrents db"] by (fastforce simp: unblocked_def)

lemma unblocked_update:
  assumes "unblocked db" "map_get (torrents db) ih = Some t" "tr_name t' = tr_name t"
  shows "unblocked (db\<lparr>torrents := map_set ih t' (torrents db)\<rparr>)"
proof -
  from map_of_SomeD[OF assms(2)] have "t \<in> snd ` set (torrents db)" by force
  with assms(1) have "clean_text (tr_name t)" unfolding unblocked_def by blast
  with assms(1,3) show ?thesis by (intro unblocked_put) simp_all
qed

lemma unblocked_delete: "unblocked (ct_db ct) \<Longrightarrow> unblocked (ct_db (delete_torrent ih ct))"
  using set_map_del[of ih "torrents (ct_db ct)"] by (fastforce simp: delete_torrent_def unblocked_def Let_def)

lemma unblocked_state: "unblocked (ct_db ct) \<Longrightarrow> unblocked (ct_db (update_torrent_state ih st ct))"
  by (auto simp: update_torrent_state_def intro: unblocked_update split: option.split)

lemma unblocked_statement:
  assumes "unblocked (ct_db ct)" "clean_statement s" "exec_statement s ct = Some ct'"
  shows "unblocked (ct_db ct')"
proof (cases s)
  case (Upsert_Pending now ih name sz k)
  with assms show ?thesis
    by (auto simp: on_db_def upsert_torrent_pending_def intro!: unblocked_put split: if_splits)
next
  case (Insert_Files fs)
  with assms show ?thesis by (auto simp: on_db_def insert_torrent_files_def unblocked_def split: if_splits)
next
  case (Update_Classified st c cf ih)
  with assms show ?thesis
    by (auto simp: on_db_def update_torrent_classified_def intro!: unblocked_update split: option.splits)
next
  case (Update_Scrape ih a b at st seen)
  with assms show ?thesis
    by (auto simp: on_db_def update_torrent_scrape_def intro!: unblocked_update split: option.splits if_splits)
next
  case (Update_Dead ih)
  with assms show ?thesis
    by (auto simp: on_db_def update_torrent_dead_def intro!: unblocked_update split: option.splits)
next
  case (Update_State ih st)
  with assms show ?thesis by (auto intro: unblocked_state)
next
  case (Delete_Torrent ih)
  with assms show ?thesis by (auto intro: unblocked_delete)
qed (use assms in \<open>auto simp: on_db_def upsert_tracker_def upsert_torrent_tracker_def insert_scrape_history_def
  prune_scrape_history_def unblocked_def split: option.splits if_splits\<close>)

interpretation blocking: kept_by_statements ct unblocked clean_statement for ct
proof unfold_locales
  fix name fs now ih sz k
  assume "\<not> contains_blocked_content name fs"
  then show "clean_statement (Upsert_Pending now ih name sz k) \<and> clean_statement (Insert_Files (file_rows ih fs))"
    by (auto simp: unblocked_content file_rows_def)
next
  fix db s db'
  assume "unblocked db" "clean_statement s" "exec_statement s (ct\<lparr>ct_db := db\<rparr>) = Some (ct\<lparr>ct_db := db'\<rparr>)"
  then show "unblocked db'" using unblocked_statement[of "ct\<lparr>ct_db := db\<rparr>" s "ct\<lparr>ct_db := db'\<rparr>"] by simp
qed simp_all

interpretation clean_scraper: stable_calls "flaky down clock" unblocked for down clock
  by unfold_locales (rule blocking.flaky_keeps)

subsection \<open>Runs of the program\<close>

inductive storage_reachable :: "catalog \<Rightarrow> bool" where
  start: "storage_reachable empty_catalog"
| index_event: "storage_reachable ct \<Longrightarrow>
    process_peers lower cfg mp mc fetcher granted arrival up now ev (ct_db ct) = Some db' \<Longrightarrow>
    storage_reachable (ct\<lparr>ct_db := db'\<rparr>)"
| reindex: "storage_reachable ct \<Longrightarrow>
    storage_reachable (ct\<lparr>ct_db := snd (fst (index_run lower cfg env dry (ct_db ct)))\<rparr>)"
| init_scraper: "storage_reachable ct \<Longrightarrow>
    storage_reachable (ct\<lparr>ct_db := snd (init_tracker (\<lambda>u db. Some (upsert_tracker u db)) urls (ct_db ct))\<rparr>)"
| scrape_tick: "storage_reachable ct \<Longrightarrow> storage_reachable (ct\<lparr>ct_db := meanwhile (ct_db ct)\<rparr>) \<Longrightarrow>
    storage_reachable (ct\<lparr>ct_db := scrape_once (flaky down clock) now i zero_meta due scraper meanwhile (ct_db ct)\<rparr>)"
| dead_tick: "storage_reachable ct \<Longrightarrow>
    storage_reachable (ct\<lparr>ct_db := detect_dead (flaky down clock) now dead_after candidates (ct_db ct)\<rparr>)"
| prune_tick: "storage_reachable ct \<Longrightarrow> storage_reachable (ct\<lparr>ct_db := prune_history (flaky down clock) now (ct_db ct)\<rparr>)"
| http: "storage_reachable ct \<Longrightarrow> storage_reachable (snd (serve env r ct))"

lemma storage_statements: "storage_reachable ct \<Longrightarrow> db_reachable ct"
proof (induction rule: storage_reachable.induct)
  case start
  then show ?case by (rule migrated)
next
  case (index_event ct lower cfg mp mc fetcher granted arrival up now ev db')
  then have "reach_db ct (ct_db ct)" by (simp add: reach_db_def)
  from process_peers_reach[OF this index_event(2)] show ?case by (simp add: reach_db_def)
next
  case (reindex ct lower cfg env dry)
  then show ?case using index_run_reach[of ct "ct_db ct" lower cfg env dry] by (simp add: reach_db_def)
next
  case (init_scraper ct urls)
  have "db_reachable (ct\<lparr>ct_db := snd (upsert_tracker u (ct_db ct))\<rparr>)" for u
    using executed[OF init_scraper(2), of "Upsert_Tracker u"] by (simp add: on_db_def)
  with init_scraper(2) show ?case
    by (cases urls) (simp_all add: init_tracker_def split_beta)
next
  case (scrape_tick ct meanwhile down clock now i zero_meta due scraper)
  then show ?case
    using scraper.scrape_once_keeps[of ct "ct_db ct" meanwhile down clock now i zero_meta due scraper] by (simp add: reach_db_def)
next
  case (dead_tick ct down clock now dead_after candidates)
  then show ?case
    using scraper.detect_dead_keeps[of ct "ct_db ct" down clock now dead_after candidates] by (simp add: reach_db_def)
next
  case (prune_tick ct down clock now)
  then show ?case using scraper.prune_history_keeps[of ct "ct_db ct" down clock now] by (simp add: reach_db_def)
next
  case (http ct env r)
  then show ?case by (intro serve_reachable)
qed

text \<open>
  C10. Nothing blocked is ever stored. The indexer with whatever peers deliver, reclassification, the scraper and its
  loops and any HTTP requests, interleaved in any way, with a database that fails at any call: in every database they
  can reach, no term of the block list occurs in the name of a torrent or in the path of a file, and the schema holds.
\<close>

theorem nothing_blocked_is_stored:
  assumes "storage_reachable ct"
  shows "(\<forall>(ih, t) \<in> set (torrents (ct_db ct)). \<not> occurs re_blocked_content (normalize (tr_name t))) \<and>
    (\<forall>f \<in> set (torrent_files (ct_db ct)). \<not> occurs re_blocked_content (normalize (fl_path f))) \<and> db_ok ct"
proof -
  from assms have "unblocked (ct_db ct)"
  proof (induction rule: storage_reachable.induct)
    case start
    then show ?case by (simp add: empty_catalog_def unblocked_def)
  next
    case (index_event ct lower cfg mp mc fetcher granted arrival up now ev db')
    from blocking.process_peers_keeps[OF index_event(3,2)] show ?case by simp
  next
    case (reindex ct lower cfg env dry)
    then show ?case by (simp add: blocking.index_run_keeps)
  next
    case (init_scraper ct urls)
    then show ?case by (cases urls) (simp_all add: init_tracker_def split_beta blocking.tracker_keeps)
  next
    case (scrape_tick ct meanwhile down clock now i zero_meta due scraper)
    then show ?case by (simp add: clean_scraper.scrape_once_keeps)
  next
    case (dead_tick ct down clock now dead_after candidates)
    then show ?case by (simp add: clean_scraper.detect_dead_keeps)
  next
    case (prune_tick ct down clock now)
    then show ?case by (simp add: clean_scraper.prune_history_keeps)
  next
    case (http ct env r)
    with serve_state[of env r ct] show ?case by (metis unblocked_state unblocked_delete)
  qed
  with reachable_ok[OF storage_statements[OF assms]] show ?thesis
    by (force simp: unblocked_def clean_text_def)
qed

text \<open>A run that stores a torrent.\<close>

theorem nothing_blocked_is_stored_witness:
  "\<exists>ct. map_get (torrents (ct_db ct)) (hex_encode (sha1 [1, 2, 3])) = Some (new_row 5 sample_info) \<and>
     \<not> occurs re_blocked_content (normalize (tr_name (new_row 5 sample_info))) \<and> db_ok ct"
proof -
  let ?ih = "hex_encode (sha1 [1, 2, 3])"
  let ?ct = "empty_catalog\<lparr>ct_db := empty_db\<lparr>torrents := [(?ih, new_row 5 sample_info)]\<rparr>\<rparr>"
  have e: "ct_db empty_catalog = empty_db" by (simp add: empty_catalog_def empty_db_def)
  have "get_torrent_by_infohash h empty_db = None" for h by (simp add: get_torrent_by_infohash_def empty_db_def)
  then have "process_peers (\<lambda>r. r) sample_cfg 8 4 (\<lambda>_ _. Some sample_info) (\<lambda>k. True) [0] (\<lambda>k. k \<le> 1) 5 sample_event empty_db =
      Some (empty_db\<lparr>torrents := [(?ih, new_row 5 sample_info)]\<rparr>)"
    by (simp add: process_peers_def sample_event_def fetch_from_peers_def Let_def store_sample del: One_nat_def)
  note index_event[OF start this[folded e]]
  then have "storage_reachable ?ct" by (simp only: e)
  from nothing_blocked_is_stored[OF this] show ?thesis by (intro exI[of _ ?ct]) simp
qed

end
