(* ===== verification/Index_Job.thy ===== *)
theory Index_Job
  imports Storage
begin

section \<open>An event on its way through the indexer (\<^verbatim>\<open>indexer/worker.go\<close>)\<close>

text \<open>
  \<^verbatim>\<open>process\<close> makes up to four calls of the database, with the fetch of the metadata in between, and other workers and other
  parts of the program act on the database between any two of them. Here each call is a step of its own. An event that is
  processed without interruption ends as \<open>process_peers\<close> says.
\<close>

datatype index_job =
  Looking_Up discovered_peers
| Fetching discovered_peers
| Upserting info_hash torrent_info
| Filing info_hash torrent_info
| Classifying info_hash torrent_info
| Finished

text \<open>\<open>ok\<close> is whether the database answers the call of this step. A fetch that waits forever makes no step.\<close>

definition job_step ::
    "(rune \<Rightarrow> rune) \<Rightarrow> classify_config \<Rightarrow> int \<Rightarrow> int \<Rightarrow> (byte list \<Rightarrow> addr \<Rightarrow> torrent_info option) \<Rightarrow>
     (nat \<Rightarrow> bool) \<Rightarrow> nat list \<Rightarrow> bool \<Rightarrow> instant \<Rightarrow> index_job \<Rightarrow> torrent_db \<Rightarrow> index_job \<times> torrent_db" where
  "job_step lower cfg w_max_peers w_max_concurrent fetcher granted arrival ok now j db =
     (case j of
        Looking_Up ev \<Rightarrow>
          (if \<not> ok \<or> get_torrent_by_infohash (hex_encode (d_infohash ev)) db \<noteq> None then Finished else Fetching ev, db)
      | Fetching ev \<Rightarrow>
          (let n = min (int (length (d_peers ev))) w_max_peers in
           if n = 0 then Finished
           else if w_max_concurrent = 0 \<and> 0 < n \<and> granted 0 then Fetching ev
           else case fetch_from_peers (fetcher (d_infohash ev)) granted arrival (d_peers ev) (nat n) of
             None \<Rightarrow> Finished
           | Some info \<Rightarrow>
               if contains_blocked_content (to_valid_utf8 (t_name info)) (clean_files info) then Finished
               else Upserting (d_infohash ev) info, db)
      | Upserting h info \<Rightarrow>
          (case (if ok then upsert_torrent_pending now (hex_encode h) (to_valid_utf8 (t_name info)) (t_total info)
                   (int (length (t_files info))) db else None) of
             None \<Rightarrow> (Finished, db)
           | Some (affected, db') \<Rightarrow> (if affected = 0 then Finished else Filing h info, db'))
      | Filing h info \<Rightarrow>
          (case (if ok then insert_torrent_files (file_rows (hex_encode h) (clean_files info)) db else None) of
             None \<Rightarrow> (Finished, db)
           | Some db' \<Rightarrow> (Classifying h info, db'))
      | Classifying h info \<Rightarrow>
          (let c = classify lower (to_valid_utf8 (t_name info)) (clean_files info) (t_total info) cfg
           in case (if ok then update_torrent_classified (cl_state c) (cl_content_type c) (classify_params c) (hex_encode h) db
                    else None) of
                None \<Rightarrow> (Finished, db)
              | Some db' \<Rightarrow> (Finished, db'))
      | Finished \<Rightarrow> (Finished, db))"

subsection \<open>A job that is alone\<close>

fun call_of :: "index_job \<Rightarrow> nat" where
  "call_of (Upserting h info) = 1"
| "call_of (Filing h info) = 2"
| "call_of (Classifying h info) = 3"
| "call_of j = 0"

fun job_alone ::
    "(rune \<Rightarrow> rune) \<Rightarrow> classify_config \<Rightarrow> int \<Rightarrow> int \<Rightarrow> (byte list \<Rightarrow> addr \<Rightarrow> torrent_info option) \<Rightarrow>
     (nat \<Rightarrow> bool) \<Rightarrow> nat list \<Rightarrow> (nat \<Rightarrow> bool) \<Rightarrow> instant \<Rightarrow> nat \<Rightarrow> index_job \<times> torrent_db \<Rightarrow> index_job \<times> torrent_db" where
  "job_alone lower cfg mp mc fetcher granted arrival up now 0 st = st"
| "job_alone lower cfg mp mc fetcher granted arrival up now (Suc n) (j, db) =
     job_alone lower cfg mp mc fetcher granted arrival up now n
       (job_step lower cfg mp mc fetcher granted arrival (up (call_of j)) now j db)"

lemma finished_stays: "job_alone lower cfg mp mc fetcher granted arrival up now n (Finished, db) = (Finished, db)"
  by (induction n) (simp_all add: job_step_def)

lemma stuck_stays:
  assumes "0 < min (int (length (d_peers ev))) mp" and "granted 0"
  shows "job_alone lower cfg mp 0 fetcher granted arrival up now n (Fetching ev, db) = (Fetching ev, db)"
proof -
  have "min (int (length (d_peers ev))) mp \<noteq> 0" using assms(1) by linarith
  with assms have "job_step lower cfg mp 0 fetcher granted arrival ok now (Fetching ev) db = (Fetching ev, db)" for ok
    by (simp add: job_step_def Let_def del: min_less_iff_conj)
  then show ?thesis by (induction n) simp_all
qed

lemma storing_alone:
  assumes "\<not> contains_blocked_content (to_valid_utf8 (t_name info)) (clean_files info)"
  shows "job_alone lower cfg mp mc fetcher granted arrival up now 3 (Upserting h info, db) =
    (Finished, store_torrent lower cfg up now (hex_encode h) info db)"
  using assms by (auto simp: numeral_3_eq_3 job_step_def store_torrent_def finished_stays Let_def split: option.split)

lemma job_refines_process_lemma:
  "process_peers lower cfg mp mc fetcher granted arrival up now ev db =
     (case job_alone lower cfg mp mc fetcher granted arrival up now 5 (Looking_Up ev, db) of
        (Finished, db') \<Rightarrow> Some db'
      | _ \<Rightarrow> None)"
proof -
  let ?n = "min (int (length (d_peers ev))) mp" and ?ih = "hex_encode (d_infohash ev)"
  let ?run = "job_alone lower cfg mp mc fetcher granted arrival up now"
  let ?stuck = "mc = 0 \<and> 0 < ?n \<and> granted 0"
  have five: "?run 5 (Looking_Up ev, db) =
      ?run 4 (if \<not> up 0 \<or> get_torrent_by_infohash ?ih db \<noteq> None then Finished else Fetching ev, db)"
    using job_alone.simps(2)[of lower cfg mp mc fetcher granted arrival up now 4 "Looking_Up ev" db] by (simp add: job_step_def)
  have four: "?run 4 (Fetching ev, db) =
      ?run 3 (job_step lower cfg mp mc fetcher granted arrival (up 0) now (Fetching ev) db)"
    using job_alone.simps(2)[of lower cfg mp mc fetcher granted arrival up now 3 "Fetching ev" db] by simp
  show ?thesis
  proof (cases "\<not> up 0 \<or> get_torrent_by_infohash ?ih db \<noteq> None \<or> ?n = 0")
    case True
    then show ?thesis by (auto simp: process_peers_def five four job_step_def finished_stays Let_def)
  next
    case False
    then have look: "?run 5 (Looking_Up ev, db) = ?run 4 (Fetching ev, db)" and n: "?n \<noteq> 0"
      and up: "up 0" "get_torrent_by_infohash ?ih db = None" by (simp_all add: five)
    show ?thesis
    proof (cases ?stuck)
      case True
      then have "0 < ?n" "granted 0" "mc = 0" by blast+
      with stuck_stays[where granted = granted, OF this(1,2)] look up n show ?thesis
        by (simp add: process_peers_def Let_def del: min_less_iff_conj)
    next
      case False
      then have free: "?stuck = False" by blast
      let ?f = "fetch_from_peers (fetcher (d_infohash ev)) granted arrival (d_peers ev) (nat ?n)"
      have p: "process_peers lower cfg mp mc fetcher granted arrival up now ev db =
          (case ?f of None \<Rightarrow> Some db | Some info \<Rightarrow> Some (store_torrent lower cfg up now ?ih info db))"
        using up n by (simp add: process_peers_def Let_def free del: min_less_iff_conj)
      have r: "?run 5 (Looking_Up ev, db) = ?run 3 (case ?f of None \<Rightarrow> Finished | Some info \<Rightarrow>
          if contains_blocked_content (to_valid_utf8 (t_name info)) (clean_files info) then Finished else Upserting (d_infohash ev) info, db)"
        using n unfolding look four by (simp add: job_step_def Let_def free del: min_less_iff_conj)
      show ?thesis
      proof (cases ?f)
        case (Some info)
        show ?thesis
        proof (cases "contains_blocked_content (to_valid_utf8 (t_name info)) (clean_files info)")
          case True
          with Some show ?thesis by (simp add: p r finished_stays store_torrent_def Let_def)
        next
          case False
          with Some show ?thesis by (simp add: p r storing_alone)
        qed
      qed (simp add: p r finished_stays)
    qed
  qed
qed

text \<open>
  An event processed without interruption, call by call, ends after five steps with the database that \<open>process_peers\<close>
  gives, and is stuck exactly if that has no result.
\<close>

theorem job_refines_process:
  "process_peers lower cfg mp mc fetcher granted arrival up now ev db =
     (case job_alone lower cfg mp mc fetcher granted arrival up now 5 (Looking_Up ev, db) of
        (Finished, db') \<Rightarrow> Some db'
      | _ \<Rightarrow> None)"
  by (rule job_refines_process_lemma)

lemma job_step_reach:
  assumes r: "reach_db ct db" and "job_step lower cfg mp mc fetcher granted arrival ok now j db = (j', db')"
  shows "reach_db ct db'"
proof -
  have a: "reach_db ct db1" if "upsert_torrent_pending now ih n sz k db = Some (i, db1)" for ih n sz k i db1
    using that by (intro reach_db_step[OF r, of "Upsert_Pending now ih n sz k"]) (simp add: on_db_def)
  have b: "reach_db ct db1" if "insert_torrent_files fs db = Some db1" for fs db1
    using that by (intro reach_db_step[OF r, of "Insert_Files fs"]) (simp add: on_db_def)
  have c: "reach_db ct db1" if "update_torrent_classified st y cf ih db = Some db1" for st y cf ih db1
    using that by (intro reach_db_step[OF r, of "Update_Classified st y cf ih"]) (simp add: on_db_def)
  show ?thesis
    using assms a b c by (cases j) (auto simp: job_step_def Let_def split: if_splits option.splits)
qed

end
