(* ===== verification/Program.thy ===== *)
theory Program
  imports Dht_System Index_Job
begin

section \<open>The whole program (\<^verbatim>\<open>cmd/serve.go\<close>)\<close>

text \<open>
  What \<^verbatim>\<open>serve\<close> starts: the DHT system, the indexer workers that read its channel of discovered peers, the scrape worker
  and the HTTP interface on the same database, and the command \<^verbatim>\<open>index\<close> that reclassifies it. Their turns interleave in any
  order. \<open>pg_jobs\<close> are the events the indexer has taken and how far each has come. The set of their infohashes is kept for
  the statements only.
\<close>

record ('b, 'l) program =
  pg_system :: "('b, 'l) dht_system"
  pg_catalog :: catalog
  pg_jobs :: "index_job list"
  pg_taken :: "info_hash set"

definition new_program :: "('b, 'l) dht_system \<Rightarrow> ('b, 'l) program" where
  "new_program sy = \<lparr>pg_system = sy, pg_catalog = empty_catalog, pg_jobs = [], pg_taken = {}\<rparr>"

abbreviation with_db :: "torrent_db \<Rightarrow> ('b, 'l) program \<Rightarrow> ('b, 'l) program" where
  "with_db db pg \<equiv> pg\<lparr>pg_catalog := (pg_catalog pg)\<lparr>ct_db := db\<rparr>\<rparr>"

abbreviation program_db :: "('b, 'l) program \<Rightarrow> torrent_db" where
  "program_db pg \<equiv> ct_db (pg_catalog pg)"

text \<open>
  A worker of the indexer takes an event; each call of the database it makes for the event is a turn of its own. A scrape
  tick works on the rows that were due at some earlier time. A panic of the DHT system ends the program, so a turn of it is one that does not panic.
\<close>

inductive program_reachable ::
    "('b, 'l) libs \<Rightarrow> (rat \<Rightarrow> byte) \<Rightarrow> (int \<Rightarrow> bool) \<Rightarrow> bencode \<Rightarrow> ('b, 'l) dht_system \<Rightarrow> ('b, 'l) program \<Rightarrow> bool"
  for lib cv ctr b sy0 where
  serve_starts: "program_reachable lib cv ctr b sy0 (new_program sy0)"
| dht_turn: "program_reachable lib cv ctr b sy0 pg \<Longrightarrow> turn_ok e \<Longrightarrow> system_step lib cv ctr e (pg_system pg) = Inr sy \<Longrightarrow>
    program_reachable lib cv ctr b sy0 (pg\<lparr>pg_system := sy\<rparr>)"
| index_take: "program_reachable lib cv ctr b sy0 pg \<Longrightarrow>
    take_discovered (sy_server (pg_system pg)) = (Some ev, s) \<Longrightarrow>
    program_reachable lib cv ctr b sy0
      (pg\<lparr>pg_system := (pg_system pg)\<lparr>sy_server := s\<rparr>, pg_jobs := pg_jobs pg @ [Looking_Up ev],
         pg_taken := insert (d_infohash ev) (pg_taken pg)\<rparr>)"
| index_turn: "program_reachable lib cv ctr b sy0 pg \<Longrightarrow> k < length (pg_jobs pg) \<Longrightarrow>
    job_step lower cfg mp mc (fetch_peer b cl pid dial) granted arrival ok now (pg_jobs pg ! k) (program_db pg) = (j, db) \<Longrightarrow>
    program_reachable lib cv ctr b sy0 (with_db db (pg\<lparr>pg_jobs := (pg_jobs pg)[k := j]\<rparr>))"
| reindex_run: "program_reachable lib cv ctr b sy0 pg \<Longrightarrow>
    program_reachable lib cv ctr b sy0 (with_db (snd (fst (index_run lower cfg env dry (program_db pg)))) pg)"
| scraper_starts: "program_reachable lib cv ctr b sy0 pg \<Longrightarrow>
    program_reachable lib cv ctr b sy0 (with_db (snd (init_tracker (\<lambda>u db. Some (upsert_tracker u db)) urls (program_db pg))) pg)"
| scrape_turn: "program_reachable lib cv ctr b sy0 pg0 \<Longrightarrow> program_reachable lib cv ctr b sy0 pg \<Longrightarrow>
    due_rows (program_db pg0) = Some rows \<Longrightarrow> rows \<noteq> [] \<Longrightarrow>
    program_reachable lib cv ctr b sy0
      (with_db (scrape_once (flaky down clock) now i zm due_rows scraper (\<lambda>db. program_db pg) (program_db pg0)) pg)"
| dead_turn: "program_reachable lib cv ctr b sy0 pg \<Longrightarrow>
    program_reachable lib cv ctr b sy0 (with_db (detect_dead (flaky down clock) now dead_after candidates (program_db pg)) pg)"
| prune_turn: "program_reachable lib cv ctr b sy0 pg \<Longrightarrow>
    program_reachable lib cv ctr b sy0 (with_db (prune_history (flaky down clock) now (program_db pg)) pg)"
| http_request: "program_reachable lib cv ctr b sy0 pg \<Longrightarrow>
    program_reachable lib cv ctr b sy0 (pg\<lparr>pg_catalog := snd (serve env r (pg_catalog pg))\<rparr>)"

subsection \<open>Where the torrents come from\<close>

definition from_metadata :: "bencode \<Rightarrow> info_hash \<Rightarrow> torrent_row \<Rightarrow> bool" where
  "from_metadata b h t \<longleftrightarrow> (\<exists>data info. sha1 data = h \<and> decode_info b data = Inr info \<and>
     tr_name t = to_valid_utf8 (t_name info) \<and> tr_total_size t = t_total info \<and> tr_file_count t = int (length (t_files info)))"

definition sourced :: "bencode \<Rightarrow> info_hash set \<Rightarrow> torrent_db \<Rightarrow> bool" where
  "sourced b S db \<longleftrightarrow> (\<forall>ih t. stored db ih = Some t \<longrightarrow> (\<exists>h \<in> S. ih = hex_encode h \<and> from_metadata b h t))"

lemma sourced_frame: "torrents db' = torrents db \<Longrightarrow> sourced b S db' = sourced b S db"
  by (simp add: sourced_def)

lemma sourced_mono: "sourced b S db \<Longrightarrow> S \<subseteq> S' \<Longrightarrow> sourced b S' db"
  by (fastforce simp: sourced_def)

lemma sourced_set:
  assumes "sourced b S db" and "stored db ih = Some t" and "tr_name t' = tr_name t" and "tr_total_size t' = tr_total_size t"
    and "tr_file_count t' = tr_file_count t"
  shows "sourced b S (db\<lparr>torrents := map_set ih t' (torrents db)\<rparr>)"
  using assms by (auto simp: sourced_def go_map from_metadata_def)

lemma sourced_call: "sourced b S db \<Longrightarrow> sql_exec clock c db = Some db' \<Longrightarrow> sourced b S db'"
proof (cases c)
  case (Update_Torrent_Scrape ih s l at st seen)
  moreover assume "sourced b S db" "sql_exec clock c db = Some db'"
  ultimately show ?thesis by (auto simp: update_torrent_scrape_def intro: sourced_set split: option.splits if_splits)
next
  case (Update_Torrent_Dead ih)
  moreover assume "sourced b S db" "sql_exec clock c db = Some db'"
  ultimately show ?thesis by (auto simp: update_torrent_dead_def intro: sourced_set split: option.splits)
next
  case (Upsert_Torrent_Tracker ih i)
  moreover assume "sourced b S db" "sql_exec clock c db = Some db'"
  ultimately show ?thesis by (auto simp: upsert_torrent_tracker_def sourced_def split: if_splits)
next
  case (Insert_Scrape_History ih i s l)
  moreover assume "sourced b S db" "sql_exec clock c db = Some db'"
  ultimately show ?thesis by (auto simp: insert_scrape_history_def sourced_def split: if_splits)
next
  case (Prune_Scrape_History cutoff)
  moreover assume "sourced b S db" "sql_exec clock c db = Some db'"
  ultimately show ?thesis by (auto simp: prune_scrape_history_def sourced_def)
qed

interpretation scraper_source: stable_calls "flaky down clock" "sourced b S" for down clock b S
  by unfold_locales (auto simp: flaky_def intro: sourced_call split: if_splits)

lemma sourced_update_classified: "sourced b S db \<Longrightarrow> update_torrent_classified st y cf ih db = Some db' \<Longrightarrow> sourced b S db'"
  by (auto simp: update_torrent_classified_def intro: sourced_set split: option.splits)

lemma index_batch_sourced: "sourced b S db \<Longrightarrow> sourced b S (snd (fst (index_batch lower cfg env dry ts (res, db))))"
proof (induction ts arbitrary: res db)
  case (Cons t ts)
  define y where "y = classify_row lower cfg (get_torrent_files (ir_infohash t) db) t"
  note step = index_batch.simps(2)[of lower cfg env dry t ts res db, unfolded Let_def, folded y_def]
  show ?case
    unfolding step using Cons sourced_update_classified
    by (cases dry; simp split: option.split; blast)
qed simp

lemma index_loop_sourced: "sourced b S db \<Longrightarrow> sourced b S (snd (fst (index_loop lower cfg env dry n off (res, db))))"
proof (induction lower cfg env dry n off "(res, db)" arbitrary: res db rule: index_loop.induct)
  case (1 lower cfg env dry n off res db)
  have "sourced b S (snd st)" if "index_batch lower cfg env dry ts (res, db) = (st, e)" for ts st e
    using index_batch_sourced[OF 1(2), of lower cfg env dry ts res] that by simp
  with 1 show ?case by (subst index_loop.simps) (auto split: option.split prod.split)
qed

lemma serve_sourced: "sourced b S (ct_db ct) \<Longrightarrow> sourced b S (ct_db (snd (serve env r ct)))"
proof -
  assume ct: "sourced b S (ct_db ct)"
  have "sourced b S (ct_db (update_torrent_state ih st ct))" for ih st
    using ct by (auto simp: update_torrent_state_def intro: sourced_set split: option.split)
  moreover have "sourced b S (ct_db (delete_torrent ih ct))" for ih
    using ct by (auto simp: delete_torrent_def sourced_def go_map Let_def)
  ultimately show ?thesis using serve_state[of env r ct] ct by (elim disjE exE) (simp_all only:)
qed

text \<open>What a job carries: an infohash that was taken, and after the fetch metadata with that infohash.\<close>

definition authentic :: "bencode \<Rightarrow> info_hash \<Rightarrow> torrent_info \<Rightarrow> bool" where
  "authentic b h info \<longleftrightarrow> (\<exists>data. sha1 data = h \<and> decode_info b data = Inr info)"

fun job_sourced :: "bencode \<Rightarrow> info_hash set \<Rightarrow> index_job \<Rightarrow> bool" where
  "job_sourced b S (Looking_Up ev) = (d_infohash ev \<in> S)"
| "job_sourced b S (Fetching ev) = (d_infohash ev \<in> S)"
| "job_sourced b S (Upserting h info) = (h \<in> S \<and> authentic b h info)"
| "job_sourced b S (Filing h info) = (h \<in> S \<and> authentic b h info)"
| "job_sourced b S (Classifying h info) = (h \<in> S \<and> authentic b h info)"
| "job_sourced b S Finished = True"

lemma job_sourced_mono: "job_sourced b S j \<Longrightarrow> S \<subseteq> S' \<Longrightarrow> job_sourced b S' j"
  by (cases j) auto

lemma fetched_info_authentic:
  assumes "fetch_from_peers (fetch_peer b cl pid dial h) granted arrival ps n = Some info"
  shows "authentic b h info"
proof -
  from assms obtain k where "fetch_peer b cl pid dial h (ps ! k) = Some info"
    by (auto simp: fetch_from_peers_def dest!: first_delivery_Some split: if_splits)
  then have "fetch b cl h (pid (ps ! k)) (dial (ps ! k)) = Inr info" by (auto simp: fetch_peer_def split: sum.splits)
  then show ?thesis unfolding authentic_def by (rule fetched_authentic) blast
qed

lemma upsert_sourced:
  assumes "sourced b S db" and "h \<in> S" and "authentic b h info"
    and "upsert_torrent_pending now (hex_encode h) (to_valid_utf8 (t_name info)) (t_total info) (int (length (t_files info))) db = Some (n, db')"
  shows "sourced b S db'"
proof -
  have "from_metadata b h (new_row now info)" using assms(3) by (auto simp: authentic_def from_metadata_def new_row_def)
  with assms(1,2,4) show ?thesis
    by (auto simp: sourced_def upsert_torrent_pending_def go_map new_row_def split: if_splits)
qed

lemma job_step_sourced:
  assumes "sourced b S db" and "job_sourced b S j"
    and "job_step lower cfg mp mc (fetch_peer b cl pid dial) granted arrival ok now j db = (j', db')"
  shows "sourced b S db' \<and> job_sourced b S j'"
proof (cases j)
  case (Fetching ev)
  with assms fetched_info_authentic show ?thesis by (auto simp: job_step_def Let_def split: if_splits option.splits)
next
  case (Upserting h info)
  with assms upsert_sourced[OF assms(1), of h info now] show ?thesis
    by (auto simp: job_step_def split: if_splits option.splits)
next
  case (Filing h info)
  with assms show ?thesis
    by (auto simp: job_step_def insert_torrent_files_def sourced_def split: if_splits option.splits)
next
  case (Classifying h info)
  with assms sourced_update_classified show ?thesis by (auto simp: job_step_def Let_def split: if_splits option.splits)
qed (use assms in \<open>auto simp: job_step_def split: if_splits\<close>)

subsection \<open>The program is sound\<close>

definition program_ok :: "(rat \<Rightarrow> byte) \<Rightarrow> bencode \<Rightarrow> ('b, 'l) program \<Rightarrow> bool" where
  "program_ok cv b pg \<longleftrightarrow> system_ok cv (pg_system pg) \<and> db_reachable (pg_catalog pg) \<and> sourced b (pg_taken pg) (program_db pg) \<and>
     list_all (job_sourced b (pg_taken pg)) (pg_jobs pg)"

lemma program_ok_db:
  "program_ok cv b pg \<Longrightarrow> reach_db (pg_catalog pg) db \<Longrightarrow> sourced b (pg_taken pg) db \<Longrightarrow> program_ok cv b (with_db db pg)"
  by (simp add: program_ok_def reach_db_def)

lemma program_ok_self: "program_ok cv b pg \<Longrightarrow> reach_db (pg_catalog pg) (program_db pg) \<and> sourced b (pg_taken pg) (program_db pg)"
  by (simp add: program_ok_def reach_db_def)

lemma program_reachable_ok:
  assumes "system_ok cv sy0"
  shows "program_reachable lib cv ctr b sy0 pg \<Longrightarrow> program_ok cv b pg"
proof (induction rule: program_reachable.induct)
  case serve_starts
  have "sourced b {} (ct_db empty_catalog)" by (simp add: sourced_def empty_catalog_def)
  with assms migrated show ?case by (simp add: program_ok_def new_program_def)
next
  case (dht_turn pg e sy)
  then show ?case using system_step_ok[of cv "pg_system pg" e lib ctr] by (simp add: program_ok_def)
next
  case (index_take pg ev s)
  have "net_ok s" using index_take take_net_ok[of "sy_server (pg_system pg)"] by (simp add: program_ok_def system_ok_def)
  moreover have "list_all (job_sourced b (insert (d_infohash ev) (pg_taken pg))) (pg_jobs pg)"
    using index_take.IH job_sourced_mono[OF _ subset_insertI] by (auto simp: program_ok_def list_all_iff)
  moreover have "sourced b (insert (d_infohash ev) (pg_taken pg)) (program_db pg)"
    using index_take.IH sourced_mono[OF _ subset_insertI] by (auto simp: program_ok_def)
  ultimately show ?case using index_take.IH by (simp add: program_ok_def system_ok_def)
next
  case (index_turn pg k lower cfg mp mc cl pid dial granted arrival ok now j db)
  have "job_sourced b (pg_taken pg) (pg_jobs pg ! k)" using index_turn by (simp add: program_ok_def list_all_length)
  from job_step_sourced[OF _ this index_turn(3)] have s: "sourced b (pg_taken pg) db" "job_sourced b (pg_taken pg) j"
    using index_turn.IH by (simp_all add: program_ok_def)
  moreover have "reach_db (pg_catalog pg) db"
    using job_step_reach[OF _ index_turn(3)] program_ok_self[OF index_turn.IH] by blast
  ultimately show ?case using index_turn.IH by (simp add: program_ok_def reach_db_def list_all_update)
next
  case (reindex_run pg lower cfg env dry)
  show ?case
    using program_ok_self[OF reindex_run.IH] index_run_reach index_loop_sourced[of b "pg_taken pg" "program_db pg"]
    by (intro program_ok_db[OF reindex_run.IH]) (auto simp: index_run_def)
next
  case (scraper_starts pg urls)
  have r: "db_reachable ((pg_catalog pg)\<lparr>ct_db := snd (upsert_tracker u (program_db pg))\<rparr>)" for u
    using executed[of "pg_catalog pg" "Upsert_Tracker u"] scraper_starts.IH by (simp add: on_db_def program_ok_def)
  have f: "torrents (snd (upsert_tracker u db)) = torrents db" for u db
    by (simp add: upsert_tracker_def Let_def split: option.split)
  show ?case
    using program_ok_self[OF scraper_starts.IH] r f
    by (intro program_ok_db[OF scraper_starts.IH]; cases urls)
      (simp_all add: init_tracker_def split_beta reach_db_def sourced_frame[of "snd (upsert_tracker _ _)"])
next
  case (scrape_turn pg0 pg due_rows rows down clock now i zm scraper)
  have "P (scrape_once (flaky down clock) now i zm due_rows scraper (\<lambda>db. program_db pg) (program_db pg0))"
    if "P (program_db pg)" "\<And>rs. P (apply_results (flaky down clock) now i (meta_get zm rows) rs (program_db pg))" for P
    using that scrape_turn(3,4) by (simp add: scrape_once_def split: sum.split)
  with program_ok_self[OF scrape_turn.IH(2)] show ?case
    by (intro program_ok_db[OF scrape_turn.IH(2)]) (auto intro: scraper.apply_results_keeps scraper_source.apply_results_keeps)
next
  case (dead_turn pg down clock now dead_after candidates)
  with program_ok_self[OF dead_turn.IH] show ?case
    by (intro program_ok_db) (auto intro: scraper.detect_dead_keeps scraper_source.detect_dead_keeps)
next
  case (prune_turn pg down clock now)
  with program_ok_self[OF prune_turn.IH] show ?case
    by (intro program_ok_db) (auto intro: scraper.prune_history_keeps scraper_source.prune_history_keeps)
next
  case (http_request pg env r)
  then show ?case by (simp add: program_ok_def serve_reachable serve_sourced)
qed

text \<open>
  C1. However the parts of a running program interleave, whatever the network, the trackers, the clients and the database
  do: every torrent in the database is one whose infohash the DHT has discovered, and its name, size and number of files are
  those of metadata with that infohash; the database meets its schema, and the DHT system stays sound.
\<close>

theorem program_sound:
  assumes "new_system cfg ext fresh_filter now clock r fresh x y = Inr sy0" and "length fresh = 20"
    and "0 < c_bucket_size (sc_dht cfg)" and "0 < c_store_peers (sc_dht cfg)" and "0 < cc_max_iterations (sc_crawler cfg)"
    and "program_reachable lib cv ctr b sy0 pg"
  shows "system_ok cv (pg_system pg) \<and> db_ok (pg_catalog pg) \<and>
    (\<forall>ih t. stored (program_db pg) ih = Some t \<longrightarrow>
       (\<exists>h data info. h \<in> pg_taken pg \<and> ih = hex_encode h \<and> sha1 data = h \<and> decode_info b data = Inr info \<and>
          tr_name t = to_valid_utf8 (t_name info) \<and> tr_total_size t = t_total info \<and>
          tr_file_count t = int (length (t_files info))))"
  using program_reachable_ok[OF new_system_ok[OF assms(1-5)] assms(6)] reachable_ok
  unfolding program_ok_def sourced_def from_metadata_def by fast

definition busy_system :: "(info_hash list, nat) dht_system" where
  "busy_system = sample_system\<lparr>sy_server := (sy_server sample_system)\<lparr>s_discovered :=
     (s_discovered (sy_server sample_system))\<lparr>queued := [sample_event]\<rparr>\<rparr>\<rparr>"

lemma sample_found: "system_step sample_libs cv ctr (At_Server (Found sample_event)) sample_system = Inr busy_system"
  by (simp add: system_step_def busy_system_def emit_def chan_try_send_def sample_system_def new_system_def new_server_def
      get_server_node_id_def sample_config_def sample_system_config_def chan_make_def)

lemma index_alone:
  assumes "program_reachable lib cv ctr b sy0 pg" and "k < length (pg_jobs pg)"
    and "job_alone lower cfg mp mc (fetch_peer b cl pid dial) granted arrival up now n (pg_jobs pg ! k, program_db pg) = (j, db)"
  shows "program_reachable lib cv ctr b sy0 (with_db db (pg\<lparr>pg_jobs := (pg_jobs pg)[k := j]\<rparr>))"
  using assms
proof (induction n arbitrary: pg)
  case (Suc n)
  obtain j1 db1 where 1: "job_step lower cfg mp mc (fetch_peer b cl pid dial) granted arrival (up (call_of (pg_jobs pg ! k))) now
      (pg_jobs pg ! k) (program_db pg) = (j1, db1)" by fastforce
  from Suc.IH[OF index_turn[OF Suc.prems(1,2) 1]] Suc.prems(2,3) 1 show ?case by simp
next
  case 0
  then have "with_db db (pg\<lparr>pg_jobs := (pg_jobs pg)[k := j]\<rparr>) = pg"
    by (cases pg; cases "pg_catalog pg") auto
  with 0 show ?case by simp
qed

definition sample_program :: "(info_hash list, nat) program" where
  "sample_program =
     \<lparr>pg_system = busy_system\<lparr>sy_server := snd (take_discovered (sy_server busy_system))\<rparr>,
      pg_catalog = empty_catalog\<lparr>ct_db := empty_db\<lparr>torrents := [(hex_encode (sha1 [1, 2, 3]), new_row 5 sample_info)]\<rparr>\<rparr>,
      pg_jobs = [Finished], pg_taken = {sha1 [1, 2, 3]}\<rparr>"

lemma sample_program_reachable: "program_reachable sample_libs cv ctr sample_bencode sample_system sample_program"
proof -
  let ?pg = "(new_program sample_system)\<lparr>pg_system := busy_system\<rparr>"
  have 1: "program_reachable sample_libs cv ctr sample_bencode sample_system ?pg"
    using dht_turn[OF serve_starts, of "At_Server (Found sample_event)" sample_libs cv ctr sample_system busy_system] sample_found
    by (simp add: turn_ok_def new_program_def)
  have t: "take_discovered (sy_server (pg_system ?pg)) = (Some sample_event, snd (take_discovered (sy_server busy_system)))"
    by (simp add: take_discovered_def busy_system_def)
  note 2 = index_take[OF 1 t]
  have e: "ct_db empty_catalog = empty_db" by (simp add: empty_catalog_def empty_db_def)
  have h: "d_infohash sample_event = sha1 [1, 2, 3]" by (simp add: sample_event_def)
  have "job_alone (\<lambda>r. r) sample_cfg 8 4 sample_fetcher (\<lambda>k. True) [0] (\<lambda>k. k \<le> 1) 5 5 (Looking_Up sample_event, empty_db) =
      (Finished, empty_db\<lparr>torrents := [(hex_encode (sha1 [1, 2, 3]), new_row 5 sample_info)]\<rparr>)"
    using sample_process unfolding job_refines_process_lemma by (simp split: prod.splits index_job.splits)
  with index_alone[OF 2, of 0 "\<lambda>r. r" sample_cfg 8 4] show ?thesis
    by (simp add: sample_program_def new_program_def h e)
qed

theorem program_sound_witness:
  "\<exists>h data info. h \<in> pg_taken sample_program \<and> hex_encode (sha1 [1, 2, 3]) = hex_encode h \<and> sha1 data = h \<and>
     decode_info sample_bencode data = Inr info \<and> tr_total_size (new_row 5 sample_info) = t_total info"
proof -
  have "stored (program_db sample_program) (hex_encode (sha1 [1, 2, 3])) = Some (new_row 5 sample_info)"
    by (simp add: sample_program_def)
  with program_sound[OF sample_system_new _ _ _ _ sample_program_reachable[of "\<lambda>x. 0" "\<lambda>v. True"]]
  show ?thesis by (fastforce simp: sample_system_config_def sample_config_def sample_crawler_config_def)
qed

end
