(* ===== verification/Start_Runs.thy ===== *)
theory Start_Runs
  imports Server_Start Program
begin

section \<open>The start of the server as a run\<close>

text \<open>
  While the server starts, its goroutines and the other parts may already take turns. Here the start itself is shown to be such
  turns: what warm restart and bootstrap do to the server is to learn the nodes of some replies.
\<close>

definition learned :: "('b, 'l) libs \<Rightarrow> instant \<Rightarrow> ('b, 'l) server \<Rightarrow> ('b, 'l) server \<Rightarrow> bool" where
  "learned lib now s s' \<longleftrightarrow> (\<exists>rs. run_server lib (map (Learn now) rs) s = Inr s')"

lemma learned_refl [simp]: "learned lib now s s"
  unfolding learned_def by (rule exI[of _ "[]"]) (simp add: run_server_def)

lemma learned_trans:
  assumes "learned lib now s1 s2" and "learned lib now s2 s3"
  shows "learned lib now s1 s3"
proof -
  from assms obtain rs ts where "run_server lib (map (Learn now) rs) s1 = Inr s2" "run_server lib (map (Learn now) ts) s2 = Inr s3"
    by (auto simp: learned_def)
  then have "run_server lib (map (Learn now) (rs @ ts)) s1 = Inr s3" by (simp add: run_server_def)
  then show ?thesis unfolding learned_def by blast
qed

lemma learned_reply:
  fixes r :: return
  assumes "decode_nodes (ret_nodes r) = Inr ns" and "insert_valid_nodes now ns s = Inr s'"
  shows "learned lib now s s'"
proof -
  have "run_server lib (map (Learn now) [r]) s = Inr s'"
    by (simp add: run_server_def bind_step_def insert_nodes_from_find_node_def assms)
  then show ?thesis unfolding learned_def by blast
qed

lemma seed_learned: "insert_valid_nodes now (sr_nodes (seed_reply a reply)) s = Inr s' \<Longrightarrow> learned lib now s s'"
  by (auto simp: seed_reply_def intro: learned_reply split: sum.splits option.splits)

lemma seeds_learned:
  "seeds_loop now (map (\<lambda>(a, r). seed_reply a r) ars) bn s = Inr (bn', s') \<Longrightarrow> learned lib now s s'"
proof (induction ars arbitrary: bn s)
  case (Cons ar ars)
  then show ?case by (auto split: if_splits sum.splits prod.splits intro: learned_trans[OF seed_learned])
qed simp

lemma entry_learned: "converge_entry now ask e (bn, s) = Inr (bn', s') \<Longrightarrow> learned lib now s s'"
  by (auto simp: converge_entry_def Let_def intro: learned_reply split: option.splits sum.splits)

lemma round_learned: "converge_round now ask es st = Inr st' \<Longrightarrow> learned lib now (snd st) (snd st')"
proof (induction es arbitrary: st)
  case (Cons e es)
  then obtain st1 where 1: "converge_entry now ask e st = Inr st1" "converge_round now ask es st1 = Inr st'"
    by (auto split: sum.splits)
  from 1(1) have "learned lib now (snd st) (snd st1)" by (cases st; cases st1) (auto intro: entry_learned)
  with Cons.IH[OF 1(2)] learned_trans show ?case by blast
qed simp

lemma converge_learned:
  fixes st :: "bootstrap_nodes \<times> ('b, 'l) server" and lib :: "('b, 'l) libs"
  assumes "converge_table now ask st = Some out"
  shows "\<forall>st'. out = Inr st' \<longrightarrow> learned lib now (snd st) (snd st')"
proof (rule converge_table.raw_induct[OF _ assms, where P = "\<lambda>now ask st out. \<forall>st'. out = Inr st' \<longrightarrow> learned lib now (snd st) (snd st')"])
  fix go :: "instant \<Rightarrow> (node \<Rightarrow> return option) \<Rightarrow> bootstrap_nodes \<times> ('b, 'l) server \<Rightarrow>
      (bootstrap_nodes \<times> ('b, 'l) server) outcome option"
    and now :: instant and ask :: "node \<Rightarrow> return option" and st :: "bootstrap_nodes \<times> ('b, 'l) server" and out
  assume IH: "\<And>now ask st out. go now ask st = Some out \<Longrightarrow> \<forall>st'. out = Inr st' \<longrightarrow> learned lib now (snd st) (snd st')"
    and body: "(if closest_unqueried bootstrap_k bootstrap_alpha (fst st) = [] then Some (Inr st)
      else case converge_round now ask (closest_unqueried bootstrap_k bootstrap_alpha (fst st)) st of
        Inl p \<Rightarrow> Some (Inl p) | Inr st' \<Rightarrow> go now ask st') = Some out"
  from body IH show "\<forall>st'. out = Inr st' \<longrightarrow> learned lib now (snd st) (snd st')"
    by (auto split: if_splits sum.splits intro: learned_trans[OF round_learned])
qed

lemma bootstrap_learned:
  assumes "bootstrap now replies ask draw s = Some (Inr (qs, s'))"
  shows "learned lib now s s'"
proof -
  from assms obtain bn1 s1 bn2 where 1: "query_seeds now replies new_bootstrap_nodes s = Inr (bn1, s1)"
    and 2: "converge_table now ask (bn1, s1) = Some (Inr (bn2, s'))"
    by (auto simp: bootstrap_def split: option.splits sum.splits)
  have "learned lib now s s1" using 1 seeds_learned by (auto simp: query_seeds_def)
  moreover have "learned lib now s1 s'" using converge_learned[OF 2] by simp
  ultimately show ?thesis by (rule learned_trans)
qed

text \<open>
  A successful start of the server has done to it what learning the nodes of some replies does, whatever the
  network answers: one run of the steps of the server leads from the one to the other.
\<close>

theorem start_is_run:
  assumes "server_start resolve seed pong ask draw now boot s = Some (Inr (Inr (qs, s')))"
  shows "\<exists>rs. run_server lib (map (Learn now) rs) s = Inr s'"
proof -
  have "learned lib now s s'"
  proof (cases "boot = [] \<or> warm_restart (ping_nodes pong (warm_restart_nodes s)) s")
    case True
    with assms have "s' = s"
      by (cases "refresh_stale_buckets now draw s") (auto simp: server_start_def split: if_splits sum.splits)
    then show ?thesis by simp
  next
    case False
    with assms have "bootstrap now (map (\<lambda>a. (a, seed a)) (resolve boot)) ask draw s = Some (Inr (qs, s'))"
      by (auto simp: server_start_def split: if_splits option.splits sum.splits)
    then show ?thesis by (rule bootstrap_learned)
  qed
  then show ?thesis by (simp add: learned_def)
qed

lemma learning_reachable:
  "program_reachable lib cv ctr b sy0 pg \<Longrightarrow> run_server lib (map (Learn now) rs) (sy_server (pg_system pg)) = Inr s' \<Longrightarrow>
     program_reachable lib cv ctr b sy0 (pg\<lparr>pg_system := (pg_system pg)\<lparr>sy_server := s'\<rparr>\<rparr>)"
proof (induction rs arbitrary: pg)
  case (Cons r rs)
  have stop: "fold (bind_step lib) es (Inl p) = Inl p" for es p by (induction es) (simp_all add: bind_step_def)
  from Cons.prems(2) obtain s1 where s1: "server_step lib (Learn now r) (sy_server (pg_system pg)) = Inr s1"
    and rest: "run_server lib (map (Learn now) rs) s1 = Inr s'"
    by (cases "server_step lib (Learn now r) (sy_server (pg_system pg))") (auto simp: run_server_def bind_step_def stop)
  have "program_reachable lib cv ctr b sy0 (pg\<lparr>pg_system := (pg_system pg)\<lparr>sy_server := s1\<rparr>\<rparr>)"
    using s1 by (intro dht_turn[OF Cons.prems(1), of "At_Server (Learn now r)"]) (simp_all add: turn_ok_def system_step_def)
  from Cons.IH[OF this] rest show ?case by simp
next
  case Nil
  then have "pg\<lparr>pg_system := (pg_system pg)\<lparr>sy_server := s'\<rparr>\<rparr> = pg"
    by (cases pg; cases "pg_system pg") (auto simp: run_server_def)
  with Nil show ?case by simp
qed

text \<open>So a program that has started its server is one that \<open>Program\<close> speaks of.\<close>

theorem started_reachable:
  assumes "program_reachable lib cv ctr b sy0 pg"
    and "server_start resolve seed pong ask draw now boot (sy_server (pg_system pg)) = Some (Inr (Inr (qs, s')))"
  shows "program_reachable lib cv ctr b sy0 (pg\<lparr>pg_system := (pg_system pg)\<lparr>sy_server := s'\<rparr>\<rparr>)"
  using start_is_run[OF assms(2), of lib] learning_reachable[OF assms(1)] by blast

end
