(* ===== verification/Scrape_Correct.thy ===== *)
theory Scrape_Correct
  imports Scrape_Worker
begin

section \<open>A tick of the scrape worker\<close>

text \<open>
  The tick composes the query for the torrents that are due, the tracker client and the updates of the
  database; here its effect is stated on the rows of the torrents.
\<close>

subsection \<open>The rows that are due\<close>

lemma due_rows:
  assumes "get_torrents_to_scrape now limit db = Some rows" "wf_map (torrents db)"
  shows "distinct (map row_infohash rows)"
    and "row \<in> set rows \<Longrightarrow> \<exists>t. torrent_view db (row_infohash row) = Some t \<and> is_due now t \<and> row_state row = tr_state t"
proof -
  define due where "due = filter (\<lambda>(ih, t). is_due now t) (torrents db)"
  define ordered where "ordered = filter (\<lambda>(ih, t). tr_scrape_at t = None) due @
    sort_key (\<lambda>(ih, t). the (tr_scrape_at t)) (filter (\<lambda>(ih, t). tr_scrape_at t \<noteq> None) due)"
  have rows: "rows = map (\<lambda>(ih, t). \<lparr>row_infohash = ih, row_seeders = tr_seeders t, row_state = tr_state t\<rparr>) (take (nat limit) ordered)"
    using assms(1) by (simp add: get_torrents_to_scrape_def ordered_def due_def Let_def split: if_splits)
  have fst: "row_infohash \<circ> (\<lambda>(ih, t). \<lparr>row_infohash = ih, row_seeders = tr_seeders t, row_state = tr_state t\<rparr>) = fst"
    by auto
  have "distinct (map fst due)" using assms(2) by (simp add: due_def wf_map_def map_keys_def distinct_map_filter)
  moreover have "mset ordered = mset due"
    using multiset_partition[of "mset due" "\<lambda>(ih, t). tr_scrape_at t = None"]
    by (simp add: ordered_def case_prod_unfold)
  ultimately have "distinct (map fst ordered)" by (metis mset_eq_imp_distinct_iff mset_map)
  then show "distinct (map row_infohash rows)" by (simp add: rows fst flip: take_map)
  assume "row \<in> set rows"
  then obtain ih t where t: "(ih, t) \<in> set ordered" "row_infohash row = ih" "row_state row = tr_state t"
    by (auto simp: rows dest: in_set_takeD)
  from t(1) \<open>mset ordered = mset due\<close> have "(ih, t) \<in> set due" by (metis set_mset_mset)
  then show "\<exists>t. torrent_view db (row_infohash row) = Some t \<and> is_due now t \<and> row_state row = tr_state t"
    using t assms(2) by (auto simp: due_def wf_map_def map_keys_def)
qed

lemma meta_of_get:
  assumes "distinct (map row_infohash rows)" "row \<in> set rows"
  shows "map_get (meta_of rows) (row_infohash row) = Some \<lparr>tm_seeders = row_seeders row, tm_state = row_state row\<rparr>"
  using assms
proof (induction rows rule: rev_induct)
  case (snoc r rows)
  have "row_infohash row \<noteq> row_infohash r" if "row \<in> set rows"
    using snoc.prems(1) that by (auto intro: rev_image_eqI)
  with snoc show ?case by (auto simp: meta_of_def go_map)
qed simp

lemma subseq_distinct: "subseq xs ys \<Longrightarrow> distinct ys \<Longrightarrow> distinct xs"
  by (auto simp: subseq_conv_nths)

lemma subseq_set: "subseq xs ys \<Longrightarrow> set xs \<subseteq> set ys"
  unfolding subseq_conv_nths using set_nths_subset by fastforce

lemma known_results:
  assumes "get_torrents_to_scrape now limit db = Some rows" "wf_map (torrents db)"
    and "subseq (map sc_infohash rs) (map row_infohash rows)"
  shows "sql.known (meta_get z rows) rs db"
  unfolding sql.known_def
proof (intro conjI ballI)
  show "distinct (map sc_infohash rs)" using subseq_distinct[OF assms(3) due_rows(1)[OF assms(1,2)]] .
  fix r assume "r \<in> set rs"
  moreover have "set (map sc_infohash rs) \<subseteq> set (map row_infohash rows)"
    by (rule subseq_set[OF assms(3)])
  ultimately obtain row where row: "row \<in> set rows" "sc_infohash r = row_infohash row" by auto
  obtain t where t: "torrent_view db (row_infohash row) = Some t" "row_state row = tr_state t"
    using due_rows(2)[OF assms(1,2) row(1)] by auto
  have "tm_state (meta_get z rows (sc_infohash r)) = tr_state t"
    using meta_of_get[OF due_rows(1)[OF assms(1,2)] row(1)] by (simp add: meta_get_def row(2) t(2))
  with t(1) show "\<exists>t. torrent_view db (sc_infohash r) = Some t \<and> tm_state (meta_get z rows (sc_infohash r)) = tr_state t"
    by (simp add: row(2))
qed

subsection \<open>What a tick may do\<close>

abbreviation scrape_tick ::
    "instant \<Rightarrow> int \<Rightarrow> torrent_meta \<Rightarrow> int \<Rightarrow> (string list \<Rightarrow> tracker_error + scrape_result list) \<Rightarrow> torrent_db \<Rightarrow> torrent_db" where
  "scrape_tick now i z limit scraper db \<equiv>
     scrape_once (sql_exec now) now i z (get_torrents_to_scrape now limit) scraper (\<lambda>db. db) db"

text \<open>The row of a torrent before and after a tick: it is the same, or it was due and took a result.\<close>

definition row_may_become :: "instant \<Rightarrow> string \<Rightarrow> torrent_row option \<Rightarrow> torrent_row option \<Rightarrow> bool" where
  "row_may_become now ih before after \<longleftrightarrow> after = before \<or>
     (\<exists>t r. before = Some t \<and> is_due now t \<and> after = Some (after_scrape now r t) \<and> sc_infohash r = ih \<and> result_ok r \<and>
        0 \<le> sc_seeders r \<and> 0 \<le> sc_leechers r)"

text \<open>
  Whatever the trackers answer, a tick leaves every torrent as it was or writes one result to it: only a
  torrent that was due changes, its counts are not negative and below \<open>2\<^sup>3\<^sup>1\<close>, and its state changes at
  most from classified or enriched to active, when it has seeders.
\<close>

theorem scrape_tick_sound:
  assumes "wf_map (torrents db)"
  shows "row_may_become now ih (torrent_view db ih)
    (torrent_view (scrape_tick now i z limit (scrape rnd cancelled dial tx addrs) db) ih)"
proof (cases "get_torrents_to_scrape now limit db")
  case (Some rows)
  show ?thesis
  proof (cases "scrape rnd cancelled dial tx addrs (map row_infohash rows)")
    case (Inr rs)
    from scrape_sound[OF this]
    have sub: "subseq (map sc_infohash rs) (map row_infohash rows)" and ok: "list_all result_ok rs" by auto
    note k = known_results[OF Some assms sub, of z]
    have due: "\<exists>t. torrent_view db (sc_infohash r) = Some t \<and> is_due now t" if h: "r \<in> set rs" for r
    proof -
      obtain row where "row \<in> set rows" "sc_infohash r = row_infohash row"
        using subseq_set[OF sub] h by auto
      then show ?thesis using due_rows(2)[OF Some assms, of row] by auto
    qed
    from sql.apply_results_view[OF k, where clock = now and now = now and i = i and ih = ih] show ?thesis
    proof
      assume "torrent_view (apply_results (sql_exec now) now i (meta_get z rows) rs db) ih = torrent_view db ih"
      then show ?thesis by (simp add: scrape_once_def Some Inr row_may_become_def)
    next
      assume "\<exists>r \<in> set rs. sc_infohash r = ih \<and> 0 \<le> sc_seeders r \<and> 0 \<le> sc_leechers r \<and>
        torrent_view (apply_results (sql_exec now) now i (meta_get z rows) rs db) ih =
          map_option (after_scrape now r) (torrent_view db ih)"
      then obtain r where r: "r \<in> set rs" "sc_infohash r = ih" "0 \<le> sc_seeders r" "0 \<le> sc_leechers r"
        "torrent_view (apply_results (sql_exec now) now i (meta_get z rows) rs db) ih =
          map_option (after_scrape now r) (torrent_view db ih)" by auto
      with due[OF r(1)] ok show ?thesis
        by (auto simp: scrape_once_def Some Inr row_may_become_def list_all_iff)
    qed
  qed (simp add: scrape_once_def Some row_may_become_def)
qed (simp add: scrape_once_def row_may_become_def)

subsection \<open>A tick with a tracker that follows BEP-15\<close>

lemma go_shuffle_single [simp]: "go_shuffle rnd [a] = [a]"
  using set_go_shuffle[of rnd "[a]"] length_go_shuffle[of rnd "[a]"]
  by (cases "go_shuffle rnd [a]") auto

lemma scrape_single:
  assumes "\<And>j. \<not> cancelled j" "dial a = Some (bep15_tracker cid stats)" "list_all valid_infohash ihs"
  shows "scrape rnd cancelled dial tx [a] ihs = Inr (map (reported stats) ihs)"
  using scrape_batches_bep15[OF assms(3)]
  by (simp add: scrape_correct_lemma[OF assms(1)] assms(2) scrape_tracker_def tracker_connect_bep15 scrape_spec_def reachable_visits_def)

lemma sc_infohash_reported [simp]: "sc_infohash (reported stats ih) = ih"
  by (simp add: reported_def split: prod.split)

lemma tick_single:
  assumes "get_torrents_to_scrape now limit db = Some rows" "\<And>j. \<not> cancelled j" "dial a = Some (bep15_tracker cid stats)"
    and "list_all valid_infohash (map row_infohash rows)"
  shows "scrape_tick now i z limit (scrape rnd cancelled dial tx [a]) db =
    apply_results (sql_exec now) now i (meta_get z rows) (map (reported stats) (map row_infohash rows)) db"
proof -
  have "scrape rnd cancelled dial tx [a] (map row_infohash rows) = Inr (map (reported stats) (map row_infohash rows))"
    using assms(2-4) by (intro scrape_single)
  then show ?thesis by (cases "rows = []") (simp_all add: scrape_once_def assms(1))
qed

lemma known_reported:
  assumes "get_torrents_to_scrape now limit db = Some rows" "wf_map (torrents db)"
  shows "sql.known (meta_get z rows) (map (reported stats) (map row_infohash rows)) db"
  by (rule known_results[OF assms]) (simp add: o_def)

lemma sint_neg_iff: "sint (w :: 32 word) < 0 \<longleftrightarrow> 2 ^ 31 \<le> unat w"
proof -
  have "sint w = (uint w + 2 ^ 31) mod 2 ^ 32 - 2 ^ 31"
    by (simp add: sint_uint signed_take_bit_eq_take_bit_shift take_bit_eq_mod)
  moreover have "0 \<le> uint w" "uint w < 2 ^ 32" using uint_lt2p[of w] by simp_all
  moreover obtain n where n: "unat w = n" "uint w = int n" by simp
  then have "2 ^ 31 \<le> unat w \<longleftrightarrow> 2 ^ 31 \<le> uint w" by (simp only: n) simp
  ultimately show ?thesis
    using \<open>2 ^ 31 \<le> unat w \<longleftrightarrow> 2 ^ 31 \<le> uint w\<close> by (cases "uint w < 2 ^ 31") (simp_all add: mod_pos_geq)
qed

text \<open>
  C19. A tick of the scraper with exactly one tracker, which follows BEP-15, and without a cancellation: a torrent in
  the batch that was read (of those due, as many as the limit admits) takes the counts the tracker reports for it,
  gets the time of its next scrape and, when it has seeders, becomes active. All infohashes of the batch must be
  valid, the counts for this torrent below 2 to the 31 (greater ones are read as negative), and the tracker must have
  its row in the database or be without an identifier.
\<close>

theorem scrape_tick_exact:
  assumes "get_torrents_to_scrape now limit db = Some rows" "wf_map (torrents db)"
    and "\<And>j. \<not> cancelled j" "dial a = Some (bep15_tracker cid stats)"
    and "list_all valid_infohash (map row_infohash rows)"
    and "i = 0 \<or> has_tracker i db"
    and "row \<in> set rows"
    and "0 \<le> sc_seeders (reported stats (row_infohash row))" "0 \<le> sc_leechers (reported stats (row_infohash row))"
  shows "torrent_view (scrape_tick now i z limit (scrape rnd cancelled dial tx [a]) db) (row_infohash row) =
    map_option (after_scrape now (reported stats (row_infohash row))) (torrent_view db (row_infohash row))"
  using sql.apply_results_live[OF known_reported[OF assms(1,2), where stats = stats and z = z] assms(6),
      where r = "reported stats (row_infohash row)" and now = now and clock = now] assms(7-9)
  by (simp add: tick_single[where cancelled = cancelled and dial = dial and a = a and cid = cid and stats = stats, OF assms(1,3,4,5)])

text \<open>
  The counts on the wire are unsigned, but the client reads them as signed: a torrent for which the tracker
  reports \<open>2\<^sup>3\<^sup>1\<close> seeders or more has a negative count, which the database refuses. Its row does not
  change, so it stays due and takes a place in the front of every following batch.
\<close>

theorem scrape_overflow_starves:
  assumes "get_torrents_to_scrape now limit db = Some rows" "wf_map (torrents db)"
    and "\<And>j. \<not> cancelled j" "dial a = Some (bep15_tracker cid stats)"
    and "list_all valid_infohash (map row_infohash rows)"
    and "2 ^ 31 \<le> unat (fst (stats (raw_infohash ih)))"
  shows "torrent_view (scrape_tick now i z limit (scrape rnd cancelled dial tx [a]) db) ih = torrent_view db ih"
proof -
  have "sc_seeders (reported stats ih) < 0"
    using assms(6) by (cases "stats (raw_infohash ih)") (simp add: reported_def sint_neg_iff)
  then show ?thesis
    using sql.apply_results_view[OF known_reported[OF assms(1,2), where stats = stats and z = z],
        where clock = now and now = now and i = i and ih = ih]
    by (auto simp: tick_single[where cancelled = cancelled and dial = dial and a = a and cid = cid and stats = stats, OF assms(1,3,4,5)])
qed

subsection \<open>Dead torrents\<close>

abbreviation dead_tick :: "instant \<Rightarrow> duration \<Rightarrow> torrent_db \<Rightarrow> torrent_db" where
  "dead_tick now dead_after db \<equiv> detect_dead (sql_exec now) now dead_after get_dead_candidates db"

lemma mark_dead_sql:
  "torrent_view (mark_dead (sql_exec now) ihs db) ih =
   (if ih \<in> set ihs then map_option (\<lambda>t. t\<lparr>tr_state := Dead\<rparr>) (torrent_view db ih) else torrent_view db ih)"
proof (induction ihs arbitrary: db)
  case (Cons d ihs)
  define db' where "db' = (case sql_exec now (Update_Torrent_Dead d) db of None \<Rightarrow> db | Some db' \<Rightarrow> db')"
  have "torrent_view db' ih = (if ih = d then map_option (\<lambda>t. t\<lparr>tr_state := Dead\<rparr>) (torrent_view db ih) else torrent_view db ih)"
    by (auto simp: db'_def update_torrent_dead_def go_map split: option.split)
  then have "torrent_view (mark_dead (sql_exec now) ihs db') ih =
      (if ih \<in> set (d # ihs) then map_option (\<lambda>t. t\<lparr>tr_state := Dead\<rparr>) (torrent_view db ih) else torrent_view db ih)"
    by (cases "torrent_view db ih") (auto simp: Cons.IH)
  then show ?case by (simp add: db'_def)
qed simp

lemma dead_tick_view:
  assumes "wf_map (torrents db)"
    and "length (filter (\<lambda>(ih, t). is_dead_candidate (dead_cutoff now dead_after) t) (torrents db)) \<le> 1000"
  shows "torrent_view (dead_tick now dead_after db) ih =
    map_option (\<lambda>t. if is_dead_candidate (dead_cutoff now dead_after) t then t\<lparr>tr_state := Dead\<rparr> else t) (torrent_view db ih)"
proof -
  have "ih \<in> set (map fst (filter (\<lambda>(ih, t). is_dead_candidate (dead_cutoff now dead_after) t) (torrents db))) \<longleftrightarrow>
      (\<exists>t. torrent_view db ih = Some t \<and> is_dead_candidate (dead_cutoff now dead_after) t)"
    using assms(1) by (force simp: wf_map_def map_keys_def map_of_eq_Some_iff image_iff)
  then show ?thesis
    using assms(2) by (cases "torrent_view db ih") (auto simp: detect_dead_def get_dead_candidates_def mark_dead_sql)
qed

text \<open>
  A tick of the dead detection with at most 1000 candidates marks exactly the torrents without seeders that
  were scraped at least once, are neither dead nor rejected and were last seen before the cutoff.
\<close>

theorem dead_tick_exact:
  assumes "wf_map (torrents db)"
    and "length (filter (\<lambda>(ih, t). is_dead_candidate (dead_cutoff now dead_after) t) (torrents db)) \<le> 1000"
  shows "torrent_view (dead_tick now dead_after db) ih =
    map_option (\<lambda>t. if is_dead_candidate (dead_cutoff now dead_after) t then t\<lparr>tr_state := Dead\<rparr> else t) (torrent_view db ih)"
  by (rule dead_tick_view[OF assms])

text \<open>
  The state a scrape writes is computed from the row read before the trackers are asked. When the dead
  detection runs in between, the result of the scrape puts the torrent back to the state it had, also when
  there are still no seeders.
\<close>

theorem stale_scrape_revives_dead:
  assumes "torrents db = [(ih, t)]" "is_due now t" "is_dead_candidate (dead_cutoff now dead_after) t"
    and "scraper [ih] = Inr [r]" "sc_infohash r = ih" "0 \<le> sc_seeders r" "0 \<le> sc_leechers r" "0 < limit"
  shows "map_option tr_state (torrent_view (dead_tick now dead_after db) ih) = Some Dead \<and>
    map_option tr_state (torrent_view (scrape_once (sql_exec now) now 0 z (get_torrents_to_scrape now limit) scraper
      (dead_tick now dead_after) db) ih) = Some (new_state (tr_state t) (sc_seeders r))"
proof -
  have dead: "torrent_view (dead_tick now dead_after db) ih = Some (t\<lparr>tr_state := Dead\<rparr>)"
    using dead_tick_view[of db now dead_after ih] assms(1,3) by (simp add: wf_map_def map_keys_def)
  have due: "get_torrents_to_scrape now limit db =
      Some [\<lparr>row_infohash = ih, row_seeders = tr_seeders t, row_state = tr_state t\<rparr>]"
    using assms(1,2,8) by (cases "tr_scrape_at t") (simp_all add: get_torrents_to_scrape_def)
  show ?thesis
    using dead assms(4-7)
    by (simp add: scrape_once_def due apply_result_def write_row_def Let_def meta_get_def meta_of_def
        update_torrent_scrape_def go_map)
qed

subsection \<open>Witnesses\<close>

definition sample_ih :: string where "sample_ih = replicate 40 CHR ''a''"

definition sample_torrent :: torrent_row where
  "sample_torrent =
     \<lparr>tr_name = asc ''n'', tr_total_size = 1, tr_file_count = 1, tr_state = Classified, tr_content_type = Movie,
      tr_fields = no_fields, tr_seeders = 0, tr_leechers = 0, tr_scrape_at = Some 5, tr_first_seen = 3, tr_last_seen = None\<rparr>"

definition sample_db :: torrent_db where
  "sample_db =
     \<lparr>torrents = [(sample_ih, sample_torrent)], torrent_files = [], trackers = [(''udp'', 1)], tracker_seq = 2,
      torrent_trackers = [], scrape_history = []\<rparr>"

lemma sample_wf: "wf_map (torrents sample_db)"
  by (simp add: sample_db_def wf_map_def map_keys_def)

lemma sample_due:
  "get_torrents_to_scrape 100 74 sample_db = Some [\<lparr>row_infohash = sample_ih, row_seeders = 0, row_state = Classified\<rparr>]"
  by (simp add: get_torrents_to_scrape_def sample_db_def sample_torrent_def is_due_def)

lemma sample_valid: "list_all valid_infohash (map row_infohash [\<lparr>row_infohash = sample_ih, row_seeders = 0, row_state = Classified\<rparr>])"
proof -
  have "valid_infohash (replicate 40 CHR ''a'')" by code_simp
  then show ?thesis by (simp add: sample_ih_def)
qed

definition zero_meta :: torrent_meta where "zero_meta = \<lparr>tm_seeders = 0, tm_state = Pending\<rparr>"

theorem scrape_tick_sound_witness:
  "row_may_become 100 sample_ih (torrent_view sample_db sample_ih)
    (torrent_view (scrape_tick 100 1 zero_meta 74 (scrape (\<lambda>n. n) (\<lambda>j. False) (\<lambda>a. None) (\<lambda>a k. 0) [''t:1'']) sample_db) sample_ih)"
  by (rule scrape_tick_sound[OF sample_wf])

theorem scrape_tick_exact_witness:
  "map_option tr_state (torrent_view (scrape_tick 100 1 zero_meta 74
     (scrape (\<lambda>n. n) (\<lambda>j. False) (\<lambda>a. Some (bep15_tracker 7 (\<lambda>ih. (5, 9, 1)))) (\<lambda>a k. 0) [''t:1'']) sample_db) sample_ih) = Some Active"
proof -
  have "torrent_view (scrape_tick 100 1 zero_meta 74
      (scrape (\<lambda>n. n) (\<lambda>j. False) (\<lambda>a. Some (bep15_tracker 7 (\<lambda>ih. (5, 9, 1)))) (\<lambda>a k. 0) [''t:1'']) sample_db)
      (row_infohash \<lparr>row_infohash = sample_ih, row_seeders = 0, row_state = Classified\<rparr>) =
    map_option (after_scrape 100 (reported (\<lambda>ih. (5, 9, 1)) (row_infohash \<lparr>row_infohash = sample_ih, row_seeders = 0, row_state = Classified\<rparr>)))
      (torrent_view sample_db (row_infohash \<lparr>row_infohash = sample_ih, row_seeders = 0, row_state = Classified\<rparr>))"
    by (rule scrape_tick_exact[OF sample_due sample_wf _ refl sample_valid])
       (simp_all add: has_tracker_def sample_db_def reported_def)
  then show ?thesis
    by (simp add: after_scrape_def scraped_row_def new_state_def reported_def sample_db_def sample_torrent_def)
qed

theorem scrape_overflow_starves_witness:
  "torrent_view (scrape_tick 100 1 zero_meta 74
     (scrape (\<lambda>n. n) (\<lambda>j. False) (\<lambda>a. Some (bep15_tracker 7 (\<lambda>ih. (0x80000000, 9, 1)))) (\<lambda>a k. 0) [''t:1'']) sample_db) sample_ih =
   Some sample_torrent"
proof -
  have "torrent_view (scrape_tick 100 1 zero_meta 74
      (scrape (\<lambda>n. n) (\<lambda>j. False) (\<lambda>a. Some (bep15_tracker 7 (\<lambda>ih. (0x80000000, 9, 1)))) (\<lambda>a k. 0) [''t:1'']) sample_db) sample_ih =
    torrent_view sample_db sample_ih"
    by (rule scrape_overflow_starves[OF sample_due sample_wf _ refl sample_valid]) simp_all
  then show ?thesis by (simp add: sample_db_def)
qed

theorem dead_tick_exact_witness:
  "torrent_view (dead_tick 100 10 sample_db) sample_ih = Some (sample_torrent\<lparr>tr_state := Dead\<rparr>)"
  using dead_tick_exact[OF sample_wf, of 100 10 sample_ih]
  by (simp add: sample_db_def sample_torrent_def is_dead_candidate_def dead_cutoff_def)

theorem stale_scrape_revives_dead_witness:
  "map_option tr_state (torrent_view (scrape_once (sql_exec 100) 100 0 zero_meta (get_torrents_to_scrape 100 74)
     (\<lambda>ihs. Inr [\<lparr>sc_infohash = sample_ih, sc_seeders = 0, sc_leechers = 0, sc_complete = 0\<rparr>]) (dead_tick 100 10) sample_db) sample_ih) =
   Some Classified"
  using stale_scrape_revives_dead[where db = sample_db and ih = sample_ih and t = sample_torrent and now = 100 and dead_after = 10
    and scraper = "\<lambda>ihs. Inr [\<lparr>sc_infohash = sample_ih, sc_seeders = 0, sc_leechers = 0, sc_complete = 0\<rparr>]"
    and r = "\<lparr>sc_infohash = sample_ih, sc_seeders = 0, sc_leechers = 0, sc_complete = 0\<rparr>" and limit = 74 and z = zero_meta]
  by (simp add: sample_db_def sample_torrent_def is_due_def is_dead_candidate_def dead_cutoff_def new_state_def)

end
