(* ===== verification/Recorder.thy ===== *)
theory Recorder
  imports Go_Url Complex_Main
begin

section \<open>The metrics recorder (\<^verbatim>\<open>recorder/recorder.go\<close>)\<close>

text \<open>
  The metrics the program keeps, their registration with the Prometheus library, and one method per update.
  The library is a parameter: what it does with a collector and an update, and which names it has. Help texts and
  the buckets of the histograms are left out. Values are rationals: the recorder only hands them on.
\<close>

subsection \<open>Metrics\<close>

datatype metric_kind = Gauge | Counter | Histogram

record collector =
  co_kind :: metric_kind
  co_name :: string
  co_labels :: "string list"

text \<open>The fields of \<^verbatim>\<open>Metrics\<close>, under their names there.\<close>

datatype metric =
  DHTDiscoveryQueueDepth | DHTQueueCapacity | DHTDiscoveryQueueDroppedTotal | DiscoveryWorkItemsTotal
  | DiscoveryDurationSeconds | CrawlerQueriesTotal | CrawlerTraversalQueueSize | CrawlerCooldownsActive
  | DHTMessagesInTotal | DHTPacketsInTotal | DHTPacketsOutTotal | DHTPacketsOutDroppedTotal | DHTPacketsInDroppedTotal
  | DHTRoutingTableSize | DHTNodesDiscoveredTotal | IndexerWorkersActive | IndexerPeersProcessedTotal
  | IndexerMetadataFetchedTotal | IndexerMetadataFailedTotal | IndexerFetchDurationSeconds | IndexerDBUpsertsTotal
  | TorrentsIndexedTotal | ScrapeCyclesTotal | ScrapeTorrentsUpdatedTotal | ScrapeDeadDetectedTotal
  | ScrapeErrorsTotal | ScrapeDurationSeconds | ScrapeHistoryPrunedTotal | TorznabRequestsTotal
  | TorznabRequestDurationSeconds | MetadataFetchAttemptsTotal | MetadataFetchSuccessTotal | MetadataFetchFailedTotal
  | MetadataFetchDurationSeconds | TorrentsTotal | TorrentsRejectedTotal | IndexerDBErrorsTotal | CrawlerSamplesTotal
  | IndexerDBQueryDurationSeconds | IndexerRateLimiterWaitSeconds | IndexerPeersPerInfohash | DiscoveredChannelDepth
  | DiscoveryWorkersBusy | IndexerWorkersBusy

abbreviation gauge :: "string \<Rightarrow> string list \<Rightarrow> collector" where "gauge n ls \<equiv> \<lparr>co_kind = Gauge, co_name = n, co_labels = ls\<rparr>"
abbreviation counter :: "string \<Rightarrow> string list \<Rightarrow> collector" where "counter n ls \<equiv> \<lparr>co_kind = Counter, co_name = n, co_labels = ls\<rparr>"
abbreviation histogram :: "string \<Rightarrow> string list \<Rightarrow> collector" where "histogram n ls \<equiv> \<lparr>co_kind = Histogram, co_name = n, co_labels = ls\<rparr>"

text \<open>The composite literal of \<^verbatim>\<open>newMetrics\<close>, in four pieces.\<close>

definition dht_metrics :: "(metric \<times> collector) list" where
  "dht_metrics =
    [(DHTDiscoveryQueueDepth, gauge ''dht_discovery_queue_depth'' []),
     (DHTQueueCapacity, gauge ''dht_queue_capacity'' []),
     (DHTDiscoveryQueueDroppedTotal, counter ''dht_discovery_queue_dropped_total'' []),
     (DiscoveryWorkItemsTotal, counter ''discovery_work_items_total'' [''result'']),
     (DiscoveryDurationSeconds, histogram ''discovery_duration_seconds'' []),
     (CrawlerQueriesTotal, counter ''crawler_queries_total'' [''type'', ''mode'', ''worker'']),
     (CrawlerTraversalQueueSize, gauge ''crawler_traversal_queue_size'' [''worker'']),
     (CrawlerCooldownsActive, gauge ''crawler_cooldowns_active'' [''worker'']),
     (DHTMessagesInTotal, counter ''dht_messages_in_total'' [''type'']),
     (DHTPacketsInTotal, counter ''dht_packets_in_total'' []),
     (DHTPacketsOutTotal, counter ''dht_packets_out_total'' []),
     (DHTPacketsOutDroppedTotal, counter ''dht_packets_out_dropped_total'' []),
     (DHTPacketsInDroppedTotal, counter ''dht_packets_in_dropped_total'' []),
     (DHTRoutingTableSize, gauge ''dht_routing_table_size'' []),
     (DHTNodesDiscoveredTotal, counter ''dht_nodes_discovered_total'' [''result''])]"

definition index_metrics :: "(metric \<times> collector) list" where
  "index_metrics =
    [(IndexerWorkersActive, gauge ''indexer_workers_active'' []),
     (IndexerPeersProcessedTotal, counter ''indexer_peers_processed_total'' [''result'']),
     (IndexerMetadataFetchedTotal, counter ''indexer_metadata_fetched_total'' []),
     (IndexerMetadataFailedTotal, counter ''indexer_metadata_failed_total'' [''reason'']),
     (IndexerFetchDurationSeconds, histogram ''indexer_fetch_duration_seconds'' []),
     (IndexerDBUpsertsTotal, counter ''indexer_db_upserts_total'' []),
     (TorrentsIndexedTotal, counter ''torrents_indexed_total'' [''type''])]"

definition service_metrics :: "(metric \<times> collector) list" where
  "service_metrics =
    [(ScrapeCyclesTotal, counter ''scrape_cycles_total'' []),
     (ScrapeTorrentsUpdatedTotal, counter ''scrape_torrents_updated_total'' []),
     (ScrapeDeadDetectedTotal, counter ''scrape_dead_detected_total'' []),
     (ScrapeErrorsTotal, counter ''scrape_errors_total'' []),
     (ScrapeDurationSeconds, histogram ''scrape_duration_seconds'' []),
     (ScrapeHistoryPrunedTotal, counter ''scrape_history_pruned_total'' []),
     (TorznabRequestsTotal, counter ''torznab_requests_total'' []),
     (TorznabRequestDurationSeconds, histogram ''torznab_request_duration_seconds'' []),
     (MetadataFetchAttemptsTotal, counter ''metadata_fetch_attempts_total'' []),
     (MetadataFetchSuccessTotal, counter ''metadata_fetch_success_total'' []),
     (MetadataFetchFailedTotal, counter ''metadata_fetch_failed_total'' [''reason'']),
     (MetadataFetchDurationSeconds, histogram ''metadata_fetch_duration_seconds'' [])]"

definition late_metrics :: "(metric \<times> collector) list" where
  "late_metrics =
    [(TorrentsTotal, gauge ''torrents_total'' [''state'']),
     (TorrentsRejectedTotal, counter ''torrents_rejected_total'' [''reason'']),
     (IndexerDBErrorsTotal, counter ''indexer_db_errors_total'' [''operation'']),
     (CrawlerSamplesTotal, counter ''crawler_samples_total'' [''result'']),
     (IndexerDBQueryDurationSeconds, histogram ''indexer_db_query_duration_seconds'' [''operation'']),
     (IndexerRateLimiterWaitSeconds, histogram ''indexer_rate_limiter_wait_seconds'' []),
     (IndexerPeersPerInfohash, histogram ''indexer_peers_per_infohash'' []),
     (DiscoveredChannelDepth, gauge ''discovered_channel_depth'' []),
     (DiscoveryWorkersBusy, gauge ''discovery_workers_busy'' []),
     (IndexerWorkersBusy, gauge ''indexer_workers_busy'' [])]"

definition metrics_fields :: "(metric \<times> collector) list" where
  "metrics_fields = dht_metrics @ index_metrics @ service_metrics @ late_metrics"

text \<open>A field without a value is nil.\<close>

definition field_of :: "metric \<Rightarrow> collector option" where
  "field_of m = map_of metrics_fields m"

definition fq_name :: "collector \<Rightarrow> string" where
  "fq_name c = ''mgnx_'' @ co_name c"

definition collectors :: "metric list" where
  "collectors =
    [DHTDiscoveryQueueDepth, DHTQueueCapacity, DHTDiscoveryQueueDroppedTotal, DiscoveryWorkItemsTotal
     , DiscoveryDurationSeconds, CrawlerQueriesTotal, CrawlerTraversalQueueSize, CrawlerCooldownsActive
     , DHTMessagesInTotal, DHTPacketsInTotal, DHTPacketsOutTotal, DHTPacketsOutDroppedTotal, DHTPacketsInDroppedTotal
     , DHTRoutingTableSize, DHTNodesDiscoveredTotal, IndexerWorkersActive, IndexerPeersProcessedTotal
     , IndexerMetadataFetchedTotal, IndexerMetadataFailedTotal, IndexerFetchDurationSeconds, IndexerDBUpsertsTotal
     , TorrentsIndexedTotal, ScrapeCyclesTotal, ScrapeTorrentsUpdatedTotal, ScrapeDeadDetectedTotal, ScrapeErrorsTotal
     , ScrapeDurationSeconds, ScrapeHistoryPrunedTotal, TorznabRequestsTotal, TorznabRequestDurationSeconds
     , MetadataFetchAttemptsTotal, MetadataFetchSuccessTotal, MetadataFetchFailedTotal, MetadataFetchDurationSeconds
     , TorrentsTotal, TorrentsRejectedTotal, IndexerDBErrorsTotal, CrawlerSamplesTotal, DiscoveredChannelDepth
     , DiscoveryWorkersBusy, IndexerWorkersBusy, IndexerDBQueryDurationSeconds, IndexerRateLimiterWaitSeconds
     , IndexerPeersPerInfohash]"

subsection \<open>Registration\<close>

datatype update = Set_To rat | Increment | Add_By rat | Observed rat

record 'g prometheus =
  prom_register :: "collector \<Rightarrow> 'g \<Rightarrow> string + 'g"
  prom_apply :: "collector \<Rightarrow> string list \<Rightarrow> update \<Rightarrow> 'g \<Rightarrow> 'g outcome"
  prom_names :: "'g \<Rightarrow> string set"
  prom_label :: "string \<Rightarrow> bool"

datatype register_error = Fatal | Refused string

fun register_all :: "'g prometheus \<Rightarrow> metric list \<Rightarrow> 'g \<Rightarrow> register_error + 'g" where
  "register_all lib [] g = Inr g"
| "register_all lib (m # ms) g =
     (case field_of m of
        None \<Rightarrow> Inl Fatal
      | Some c \<Rightarrow>
          (case prom_register lib c g of Inl e \<Rightarrow> Inl (Refused e) | Inr g' \<Rightarrow> register_all lib ms g'))"

definition new_metrics :: "'g prometheus \<Rightarrow> 'g \<Rightarrow> register_error + 'g" where
  "new_metrics lib g = register_all lib collectors g"

text \<open>A recorder holds the library's state once its metrics are there; one without drops every update.\<close>

record 'g recorder =
  rc_metrics :: "'g option"

definition new_no_op :: "'g recorder" where
  "new_no_op = \<lparr>rc_metrics = None\<rparr>"

definition new_recorder :: "'g prometheus \<Rightarrow> 'g option \<Rightarrow> register_error + 'g recorder" where
  "new_recorder lib reg =
     (case reg of
        None \<Rightarrow> Inr \<lparr>rc_metrics = None\<rparr>
      | Some g \<Rightarrow> (case new_metrics lib g of Inl e \<Rightarrow> Inl e | Inr g' \<Rightarrow> Inr \<lparr>rc_metrics = Some g'\<rparr>))"

subsection \<open>Updates\<close>

text \<open>One constructor per method of \<^verbatim>\<open>Recorder\<close>, and the update it makes: the field, the label values, the change.\<close>

record sample =
  sm_metric :: metric
  sm_values :: "string list"
  sm_update :: update

definition sprint_d :: "int \<Rightarrow> string" where
  "sprint_d n = map char_of (itoa n)"

datatype dht_call =
  SetDHTDiscoveryQueueDepth rat | SetDHTQueueCapacity rat | IncDHTDiscoveryQueueDroppedTotal
  | IncDiscoveryWorkItemsTotal string | ObserveDiscoveryDurationSeconds rat | IncCrawlerQueriesTotal string string int
  | SetCrawlerTraversalQueueSize int rat | SetCrawlerCooldownsActive int rat | IncMessagesInTotal string
  | IncDHTPacketsInTotal | IncPacketsOutTotal | IncPacketsOutDroppedTotal | IncPacketsInDroppedTotal
  | SetRoutingTableSize rat | IncNodesDiscoveredTotal string

fun dht_sample :: "dht_call \<Rightarrow> sample" where
  "dht_sample (SetDHTDiscoveryQueueDepth v) = \<lparr>sm_metric = DHTDiscoveryQueueDepth, sm_values = [], sm_update = Set_To v\<rparr>"
| "dht_sample (SetDHTQueueCapacity v) = \<lparr>sm_metric = DHTQueueCapacity, sm_values = [], sm_update = Set_To v\<rparr>"
| "dht_sample IncDHTDiscoveryQueueDroppedTotal = \<lparr>sm_metric = DHTDiscoveryQueueDroppedTotal, sm_values = [], sm_update = Increment\<rparr>"
| "dht_sample (IncDiscoveryWorkItemsTotal r) = \<lparr>sm_metric = DiscoveryWorkItemsTotal, sm_values = [r], sm_update = Increment\<rparr>"
| "dht_sample (ObserveDiscoveryDurationSeconds v) = \<lparr>sm_metric = DiscoveryDurationSeconds, sm_values = [], sm_update = Observed v\<rparr>"
| "dht_sample (IncCrawlerQueriesTotal q mode w) = \<lparr>sm_metric = CrawlerQueriesTotal, sm_values = [q, mode, sprint_d w], sm_update = Increment\<rparr>"
| "dht_sample (SetCrawlerTraversalQueueSize w v) = \<lparr>sm_metric = CrawlerTraversalQueueSize, sm_values = [sprint_d w], sm_update = Set_To v\<rparr>"
| "dht_sample (SetCrawlerCooldownsActive w v) = \<lparr>sm_metric = CrawlerCooldownsActive, sm_values = [sprint_d w], sm_update = Set_To v\<rparr>"
| "dht_sample (IncMessagesInTotal t) = \<lparr>sm_metric = DHTMessagesInTotal, sm_values = [t], sm_update = Increment\<rparr>"
| "dht_sample IncDHTPacketsInTotal = \<lparr>sm_metric = DHTPacketsInTotal, sm_values = [], sm_update = Increment\<rparr>"
| "dht_sample IncPacketsOutTotal = \<lparr>sm_metric = DHTPacketsOutTotal, sm_values = [], sm_update = Increment\<rparr>"
| "dht_sample IncPacketsOutDroppedTotal = \<lparr>sm_metric = DHTPacketsOutDroppedTotal, sm_values = [], sm_update = Increment\<rparr>"
| "dht_sample IncPacketsInDroppedTotal = \<lparr>sm_metric = DHTPacketsInDroppedTotal, sm_values = [], sm_update = Increment\<rparr>"
| "dht_sample (SetRoutingTableSize v) = \<lparr>sm_metric = DHTRoutingTableSize, sm_values = [], sm_update = Set_To v\<rparr>"
| "dht_sample (IncNodesDiscoveredTotal r) = \<lparr>sm_metric = DHTNodesDiscoveredTotal, sm_values = [r], sm_update = Increment\<rparr>"

datatype work_call =
  SetIndexerWorkersActive rat | IncIndexerPeersProcessedTotal string | IncIndexerMetadataFetchedTotal
  | IncIndexerMetadataFailedTotal string | ObserveIndexerFetchDurationSeconds rat | IncIndexerDBUpsertsTotal
  | IncTorrentsIndexedTotal string | IncScrapeCyclesTotal | IncScrapeTorrentsUpdatedTotal | IncScrapeDeadDetectedTotal
  | IncScrapeErrorsTotal | ObserveScrapeDurationSeconds rat | IncScrapeHistoryPrunedTotal
  | IncMetadataFetchAttemptsTotal | IncMetadataFetchSuccessTotal | IncMetadataFetchFailedTotal string
  | ObserveMetadataFetchDurationSeconds rat

fun work_sample :: "work_call \<Rightarrow> sample" where
  "work_sample (SetIndexerWorkersActive v) = \<lparr>sm_metric = IndexerWorkersActive, sm_values = [], sm_update = Set_To v\<rparr>"
| "work_sample (IncIndexerPeersProcessedTotal r) = \<lparr>sm_metric = IndexerPeersProcessedTotal, sm_values = [r], sm_update = Increment\<rparr>"
| "work_sample IncIndexerMetadataFetchedTotal = \<lparr>sm_metric = IndexerMetadataFetchedTotal, sm_values = [], sm_update = Increment\<rparr>"
| "work_sample (IncIndexerMetadataFailedTotal r) = \<lparr>sm_metric = IndexerMetadataFailedTotal, sm_values = [r], sm_update = Increment\<rparr>"
| "work_sample (ObserveIndexerFetchDurationSeconds v) = \<lparr>sm_metric = IndexerFetchDurationSeconds, sm_values = [], sm_update = Observed v\<rparr>"
| "work_sample IncIndexerDBUpsertsTotal = \<lparr>sm_metric = IndexerDBUpsertsTotal, sm_values = [], sm_update = Increment\<rparr>"
| "work_sample (IncTorrentsIndexedTotal t) = \<lparr>sm_metric = TorrentsIndexedTotal, sm_values = [t], sm_update = Increment\<rparr>"
| "work_sample IncScrapeCyclesTotal = \<lparr>sm_metric = ScrapeCyclesTotal, sm_values = [], sm_update = Increment\<rparr>"
| "work_sample IncScrapeTorrentsUpdatedTotal = \<lparr>sm_metric = ScrapeTorrentsUpdatedTotal, sm_values = [], sm_update = Increment\<rparr>"
| "work_sample IncScrapeDeadDetectedTotal = \<lparr>sm_metric = ScrapeDeadDetectedTotal, sm_values = [], sm_update = Increment\<rparr>"
| "work_sample IncScrapeErrorsTotal = \<lparr>sm_metric = ScrapeErrorsTotal, sm_values = [], sm_update = Increment\<rparr>"
| "work_sample (ObserveScrapeDurationSeconds v) = \<lparr>sm_metric = ScrapeDurationSeconds, sm_values = [], sm_update = Observed v\<rparr>"
| "work_sample IncScrapeHistoryPrunedTotal = \<lparr>sm_metric = ScrapeHistoryPrunedTotal, sm_values = [], sm_update = Increment\<rparr>"
| "work_sample IncMetadataFetchAttemptsTotal = \<lparr>sm_metric = MetadataFetchAttemptsTotal, sm_values = [], sm_update = Increment\<rparr>"
| "work_sample IncMetadataFetchSuccessTotal = \<lparr>sm_metric = MetadataFetchSuccessTotal, sm_values = [], sm_update = Increment\<rparr>"
| "work_sample (IncMetadataFetchFailedTotal r) = \<lparr>sm_metric = MetadataFetchFailedTotal, sm_values = [r], sm_update = Increment\<rparr>"
| "work_sample (ObserveMetadataFetchDurationSeconds v) = \<lparr>sm_metric = MetadataFetchDurationSeconds, sm_values = [], sm_update = Observed v\<rparr>"

datatype late_call =
  IncTorznabRequestsTotal | ObserveTorznabRequestDurationSeconds rat | SetTorrentsTotal string rat
  | IncTorrentsRejectedTotal string | IncIndexerDBErrorsTotal string | AddCrawlerSamplesTotal string int
  | SetDiscoveredChannelDepth rat | AddDiscoveryWorkersBusy rat | AddIndexerWorkersBusy rat
  | ObserveIndexerDBQueryDurationSeconds string rat | ObserveIndexerRateLimiterWaitSeconds rat
  | ObserveIndexerPeersPerInfohash rat

fun late_sample :: "late_call \<Rightarrow> sample" where
  "late_sample IncTorznabRequestsTotal = \<lparr>sm_metric = TorznabRequestsTotal, sm_values = [], sm_update = Increment\<rparr>"
| "late_sample (ObserveTorznabRequestDurationSeconds v) = \<lparr>sm_metric = TorznabRequestDurationSeconds, sm_values = [], sm_update = Observed v\<rparr>"
| "late_sample (SetTorrentsTotal st v) = \<lparr>sm_metric = TorrentsTotal, sm_values = [st], sm_update = Set_To v\<rparr>"
| "late_sample (IncTorrentsRejectedTotal r) = \<lparr>sm_metric = TorrentsRejectedTotal, sm_values = [r], sm_update = Increment\<rparr>"
| "late_sample (IncIndexerDBErrorsTotal op) = \<lparr>sm_metric = IndexerDBErrorsTotal, sm_values = [op], sm_update = Increment\<rparr>"
| "late_sample (AddCrawlerSamplesTotal r n) = \<lparr>sm_metric = CrawlerSamplesTotal, sm_values = [r], sm_update = Add_By (of_int n)\<rparr>"
| "late_sample (SetDiscoveredChannelDepth v) = \<lparr>sm_metric = DiscoveredChannelDepth, sm_values = [], sm_update = Set_To v\<rparr>"
| "late_sample (AddDiscoveryWorkersBusy v) = \<lparr>sm_metric = DiscoveryWorkersBusy, sm_values = [], sm_update = Add_By v\<rparr>"
| "late_sample (AddIndexerWorkersBusy v) = \<lparr>sm_metric = IndexerWorkersBusy, sm_values = [], sm_update = Add_By v\<rparr>"
| "late_sample (ObserveIndexerDBQueryDurationSeconds op v) = \<lparr>sm_metric = IndexerDBQueryDurationSeconds, sm_values = [op], sm_update = Observed v\<rparr>"
| "late_sample (ObserveIndexerRateLimiterWaitSeconds v) = \<lparr>sm_metric = IndexerRateLimiterWaitSeconds, sm_values = [], sm_update = Observed v\<rparr>"
| "late_sample (ObserveIndexerPeersPerInfohash v) = \<lparr>sm_metric = IndexerPeersPerInfohash, sm_values = [], sm_update = Observed v\<rparr>"

datatype call = Dht_Call dht_call | Work_Call work_call | Late_Call late_call

fun sample_of :: "call \<Rightarrow> sample" where
  "sample_of (Dht_Call c) = dht_sample c"
| "sample_of (Work_Call c) = work_sample c"
| "sample_of (Late_Call c) = late_sample c"

definition record_call :: "'g prometheus \<Rightarrow> call \<Rightarrow> 'g recorder \<Rightarrow> 'g recorder outcome" where
  "record_call lib c r =
     (case rc_metrics r of
        None \<Rightarrow> Inr r
      | Some g \<Rightarrow>
          let s = sample_of c in
          (case field_of (sm_metric s) of
             None \<Rightarrow> Inl NilDereference
           | Some co \<Rightarrow>
               (case prom_apply lib co (sm_values s) (sm_update s) g of
                  Inl p \<Rightarrow> Inl p
                | Inr g' \<Rightarrow> Inr (r\<lparr>rc_metrics := Some g'\<rparr>))))"

fun record_calls :: "'g prometheus \<Rightarrow> call list \<Rightarrow> 'g recorder \<Rightarrow> 'g recorder outcome" where
  "record_calls lib [] r = Inr r"
| "record_calls lib (c # cs) r = (case record_call lib c r of Inl p \<Rightarrow> Inl p | Inr r' \<Rightarrow> record_calls lib cs r')"

subsection \<open>What the library promises\<close>

text \<open>
  Documented behaviour of Prometheus: a collector under a new name is registered; an update is applied when it has
  a value for each label, acceptable as such, and suits the kind of metric, where a counter never goes down.
\<close>

fun suits :: "metric_kind \<Rightarrow> update \<Rightarrow> bool" where
  "suits Gauge u \<longleftrightarrow> (\<forall>v. u \<noteq> Observed v)"
| "suits Counter Increment \<longleftrightarrow> True"
| "suits Counter (Add_By v) \<longleftrightarrow> 0 \<le> v"
| "suits Counter _ \<longleftrightarrow> False"
| "suits Histogram u \<longleftrightarrow> (\<exists>v. u = Observed v)"

definition fits :: "'g prometheus \<Rightarrow> collector \<Rightarrow> string list \<Rightarrow> update \<Rightarrow> bool" where
  "fits lib c vs u \<longleftrightarrow> length vs = length (co_labels c) \<and> list_all (prom_label lib) vs \<and> suits (co_kind c) u"

definition prometheus_laws :: "'g prometheus \<Rightarrow> bool" where
  "prometheus_laws lib \<longleftrightarrow>
     (\<forall>c g. fq_name c \<notin> prom_names lib g \<longrightarrow>
        (\<exists>g'. prom_register lib c g = Inr g' \<and> prom_names lib g' = insert (fq_name c) (prom_names lib g))) \<and>
     (\<forall>c vs u g. fits lib c vs u \<longrightarrow> (\<exists>g'. prom_apply lib c vs u g = Inr g'))"

subsection \<open>Every field is set and registered once\<close>

lemmas fields_def = metrics_fields_def dht_metrics_def index_metrics_def service_metrics_def late_metrics_def

lemma collectors_complete: "m \<in> set collectors"
  by (cases m) (simp_all add: collectors_def)

lemma collectors_distinct: "distinct collectors"
  by (simp add: collectors_def)

lemma field_of_eqs:
  "field_of DHTDiscoveryQueueDepth = Some (gauge ''dht_discovery_queue_depth'' [])"
  "field_of DHTQueueCapacity = Some (gauge ''dht_queue_capacity'' [])"
  "field_of DHTDiscoveryQueueDroppedTotal = Some (counter ''dht_discovery_queue_dropped_total'' [])"
  "field_of DiscoveryWorkItemsTotal = Some (counter ''discovery_work_items_total'' [''result''])"
  "field_of DiscoveryDurationSeconds = Some (histogram ''discovery_duration_seconds'' [])"
  "field_of CrawlerQueriesTotal = Some (counter ''crawler_queries_total'' [''type'', ''mode'', ''worker''])"
  "field_of CrawlerTraversalQueueSize = Some (gauge ''crawler_traversal_queue_size'' [''worker''])"
  "field_of CrawlerCooldownsActive = Some (gauge ''crawler_cooldowns_active'' [''worker''])"
  "field_of DHTMessagesInTotal = Some (counter ''dht_messages_in_total'' [''type''])"
  "field_of DHTPacketsInTotal = Some (counter ''dht_packets_in_total'' [])"
  "field_of DHTPacketsOutTotal = Some (counter ''dht_packets_out_total'' [])"
  "field_of DHTPacketsOutDroppedTotal = Some (counter ''dht_packets_out_dropped_total'' [])"
  "field_of DHTPacketsInDroppedTotal = Some (counter ''dht_packets_in_dropped_total'' [])"
  "field_of DHTRoutingTableSize = Some (gauge ''dht_routing_table_size'' [])"
  "field_of DHTNodesDiscoveredTotal = Some (counter ''dht_nodes_discovered_total'' [''result''])"
  "field_of IndexerWorkersActive = Some (gauge ''indexer_workers_active'' [])"
  "field_of IndexerPeersProcessedTotal = Some (counter ''indexer_peers_processed_total'' [''result''])"
  "field_of IndexerMetadataFetchedTotal = Some (counter ''indexer_metadata_fetched_total'' [])"
  "field_of IndexerMetadataFailedTotal = Some (counter ''indexer_metadata_failed_total'' [''reason''])"
  "field_of IndexerFetchDurationSeconds = Some (histogram ''indexer_fetch_duration_seconds'' [])"
  "field_of IndexerDBUpsertsTotal = Some (counter ''indexer_db_upserts_total'' [])"
  "field_of TorrentsIndexedTotal = Some (counter ''torrents_indexed_total'' [''type''])"
  "field_of ScrapeCyclesTotal = Some (counter ''scrape_cycles_total'' [])"
  "field_of ScrapeTorrentsUpdatedTotal = Some (counter ''scrape_torrents_updated_total'' [])"
  "field_of ScrapeDeadDetectedTotal = Some (counter ''scrape_dead_detected_total'' [])"
  "field_of ScrapeErrorsTotal = Some (counter ''scrape_errors_total'' [])"
  "field_of ScrapeDurationSeconds = Some (histogram ''scrape_duration_seconds'' [])"
  "field_of ScrapeHistoryPrunedTotal = Some (counter ''scrape_history_pruned_total'' [])"
  "field_of TorznabRequestsTotal = Some (counter ''torznab_requests_total'' [])"
  "field_of TorznabRequestDurationSeconds = Some (histogram ''torznab_request_duration_seconds'' [])"
  "field_of MetadataFetchAttemptsTotal = Some (counter ''metadata_fetch_attempts_total'' [])"
  "field_of MetadataFetchSuccessTotal = Some (counter ''metadata_fetch_success_total'' [])"
  "field_of MetadataFetchFailedTotal = Some (counter ''metadata_fetch_failed_total'' [''reason''])"
  "field_of MetadataFetchDurationSeconds = Some (histogram ''metadata_fetch_duration_seconds'' [])"
  "field_of TorrentsTotal = Some (gauge ''torrents_total'' [''state''])"
  "field_of TorrentsRejectedTotal = Some (counter ''torrents_rejected_total'' [''reason''])"
  "field_of IndexerDBErrorsTotal = Some (counter ''indexer_db_errors_total'' [''operation''])"
  "field_of CrawlerSamplesTotal = Some (counter ''crawler_samples_total'' [''result''])"
  "field_of IndexerDBQueryDurationSeconds = Some (histogram ''indexer_db_query_duration_seconds'' [''operation''])"
  "field_of IndexerRateLimiterWaitSeconds = Some (histogram ''indexer_rate_limiter_wait_seconds'' [])"
  "field_of IndexerPeersPerInfohash = Some (histogram ''indexer_peers_per_infohash'' [])"
  "field_of DiscoveredChannelDepth = Some (gauge ''discovered_channel_depth'' [])"
  "field_of DiscoveryWorkersBusy = Some (gauge ''discovery_workers_busy'' [])"
  "field_of IndexerWorkersBusy = Some (gauge ''indexer_workers_busy'' [])"
  by code_simp+

lemma field_of_Some: "\<exists>c. field_of m = Some c"
  by (cases m) (simp_all add: field_of_eqs)

definition metric_name :: "metric \<Rightarrow> string" where
  "metric_name m = fq_name (the (field_of m))"

lemma metric_names_distinct: "distinct (map metric_name collectors)"
  by code_simp

lemma metric_name_inj: "metric_name m = metric_name m' \<longleftrightarrow> m = m'"
  using metric_names_distinct collectors_complete by (auto simp: distinct_map inj_on_def)

lemma register_all_ok:
  assumes "prometheus_laws lib"
  shows "distinct ms \<Longrightarrow> metric_name ` set ms \<inter> prom_names lib g = {} \<Longrightarrow>
    \<exists>g'. register_all lib ms g = Inr g' \<and> prom_names lib g' = prom_names lib g \<union> metric_name ` set ms"
proof (induction ms arbitrary: g)
  case (Cons m ms)
  obtain c where c: "field_of m = Some c" "metric_name m = fq_name c" using field_of_Some[of m] by (auto simp: metric_name_def)
  with Cons.prems(2) have "fq_name c \<notin> prom_names lib g" by auto
  with assms obtain g1 where g1: "prom_register lib c g = Inr g1" "prom_names lib g1 = insert (metric_name m) (prom_names lib g)"
    unfolding prometheus_laws_def c(2) by blast
  have "metric_name ` set ms \<inter> prom_names lib g1 = {}"
    using Cons.prems by (auto simp: g1(2) metric_name_inj)
  from Cons.IH[OF _ this] Cons.prems(1) show ?case by (auto simp: c(1) g1)
qed simp

text \<open>
  With a registry that knows none of the names, the recorder comes up: no field of its metrics is nil, and every
  metric is registered, each under a name of its own.
\<close>

theorem recorder_starts:
  assumes "prometheus_laws lib" and "metric_name ` UNIV \<inter> prom_names lib g = {}"
  shows "\<exists>g'. new_recorder lib (Some g) = Inr \<lparr>rc_metrics = Some g'\<rparr> \<and>
    prom_names lib g' = prom_names lib g \<union> range metric_name"
proof -
  have all: "set collectors = UNIV" using collectors_complete by auto
  from register_all_ok[OF assms(1) collectors_distinct, of g] assms(2) show ?thesis
    by (auto simp: all new_recorder_def new_metrics_def)
qed

subsection \<open>No update panics\<close>

text \<open>What the callers owe: label values the library accepts, and no negative number of samples.\<close>

definition call_ok :: "'g prometheus \<Rightarrow> call \<Rightarrow> bool" where
  "call_ok lib c \<longleftrightarrow> list_all (prom_label lib) (sm_values (sample_of c)) \<and>
     (case c of Late_Call (AddCrawlerSamplesTotal r n) \<Rightarrow> 0 \<le> n | _ \<Rightarrow> True)"

lemma dht_fits: "\<exists>co. field_of (sm_metric (dht_sample c)) = Some co \<and>
    (fits lib co (sm_values (dht_sample c)) (sm_update (dht_sample c)) \<longleftrightarrow> list_all (prom_label lib) (sm_values (dht_sample c)))"
  by (cases c) (simp_all add: field_of_eqs fits_def)

lemma work_fits: "\<exists>co. field_of (sm_metric (work_sample c)) = Some co \<and>
    (fits lib co (sm_values (work_sample c)) (sm_update (work_sample c)) \<longleftrightarrow> list_all (prom_label lib) (sm_values (work_sample c)))"
  by (cases c) (simp_all add: field_of_eqs fits_def)

lemma late_fits: "\<exists>co. field_of (sm_metric (late_sample c)) = Some co \<and>
    (fits lib co (sm_values (late_sample c)) (sm_update (late_sample c)) \<longleftrightarrow> call_ok lib (Late_Call c))"
  by (cases c) (simp_all add: field_of_eqs fits_def call_ok_def)

lemma call_fits:
  "\<exists>co. field_of (sm_metric (sample_of c)) = Some co \<and> (fits lib co (sm_values (sample_of c)) (sm_update (sample_of c)) \<longleftrightarrow> call_ok lib c)"
  using dht_fits work_fits late_fits by (cases c) (simp_all add: call_ok_def)

lemma record_call_ok:
  assumes "prometheus_laws lib" and "call_ok lib c"
  shows "\<exists>r'. record_call lib c r = Inr r' \<and> (rc_metrics r = None \<longleftrightarrow> rc_metrics r' = None)"
proof (cases "rc_metrics r")
  case (Some g)
  from call_fits[of c lib] assms(2) obtain co where co: "field_of (sm_metric (sample_of c)) = Some co"
    "fits lib co (sm_values (sample_of c)) (sm_update (sample_of c))" by blast
  with assms(1) obtain g' where "prom_apply lib co (sm_values (sample_of c)) (sm_update (sample_of c)) g = Inr g'"
    unfolding prometheus_laws_def by blast
  with co(1) Some show ?thesis by (simp add: record_call_def Let_def)
qed (simp add: record_call_def)

lemma record_calls_ok:
  assumes "prometheus_laws lib" and "list_all (call_ok lib) cs"
  shows "\<exists>r'. record_calls lib cs r = Inr r'"
  using assms(2)
proof (induction cs arbitrary: r)
  case (Cons c cs)
  then obtain r1 where "record_call lib c r = Inr r1" using record_call_ok[OF assms(1), of c r] by auto
  with Cons show ?case by simp
qed simp

text \<open>
  Every method of the recorder hands its metric as many label values as the metric has labels, and only changes
  that kind of metric allows; so no sequence of calls panics as long as the label values are acceptable and no
  negative number of samples is added. The first condition fails for query names from the network, the second for a
  crawler whose queue is full.
\<close>

theorem recorder_calls_safe:
  assumes "prometheus_laws lib" and "list_all (call_ok lib) cs"
  shows "\<exists>r'. record_calls lib cs r = Inr r'"
  using record_calls_ok[OF assms] .

text \<open>A library that keeps the names and the updates.\<close>

definition sample_prometheus :: "(string set \<times> (string \<times> string list \<times> update) list) prometheus" where
  "sample_prometheus =
     \<lparr>prom_register = \<lambda>c g. if fq_name c \<in> fst g then Inl ''duplicate'' else Inr (insert (fq_name c) (fst g), snd g),
      prom_apply = \<lambda>c vs u g. if length vs = length (co_labels c) \<and> suits (co_kind c) u
        then Inr (fst g, (fq_name c, vs, u) # snd g) else Inl LibraryPanic,
      prom_names = fst, prom_label = \<lambda>s. True\<rparr>"

lemma sample_prometheus_laws: "prometheus_laws sample_prometheus"
  by (simp add: prometheus_laws_def sample_prometheus_def fits_def)

theorem recorder_starts_witness:
  "\<exists>g'. new_recorder sample_prometheus (Some ({}, [])) = Inr \<lparr>rc_metrics = Some g'\<rparr> \<and>
    prom_names sample_prometheus g' = range metric_name"
  using recorder_starts[OF sample_prometheus_laws, of "({}, [])"] by (simp add: sample_prometheus_def)

theorem recorder_calls_safe_witness:
  "\<exists>r'. record_calls sample_prometheus
     [Dht_Call (IncMessagesInTotal ''ping''), Late_Call (AddCrawlerSamplesTotal ''new'' 3), Late_Call (SetTorrentsTotal ''active'' 2)]
     \<lparr>rc_metrics = Some ({}, [])\<rparr> = Inr r'"
  using recorder_calls_safe[OF sample_prometheus_laws, of "[Dht_Call (IncMessagesInTotal ''ping''),
     Late_Call (AddCrawlerSamplesTotal ''new'' 3), Late_Call (SetTorrentsTotal ''active'' 2)]" "\<lparr>rc_metrics = Some ({}, [])\<rparr>"]
  by (simp add: call_ok_def sample_prometheus_def)

end
