(* ===== verification/Scrape_Stats.thy ===== *)
theory Scrape_Stats
  imports Scrape_Correct Recorder
begin

section \<open>The loops and the metrics of the scrape worker (\<^verbatim>\<open>scrape/worker.go\<close>)\<close>

text \<open>
  The four loops of \<^verbatim>\<open>Run\<close> with what they tell the recorder: \<open>Scrape_Worker\<close> models what a tick does to the
  database, this theory adds the calls of the recorder, the statistics by state, and the interleaving of the loops.
\<close>

subsection \<open>Torrents by state\<close>

fun state_text :: "torrent_state \<Rightarrow> string" where
  "state_text Pending = ''pending''"
| "state_text Classified = ''classified''"
| "state_text Enriched = ''enriched''"
| "state_text Active = ''active''"
| "state_text Dead = ''dead''"
| "state_text Rejected = ''rejected''"

definition all_states :: "torrent_state list" where
  "all_states = [Pending, Classified, Enriched, Active, Dead, Rejected]"

definition in_state :: "torrent_state \<Rightarrow> torrent_db \<Rightarrow> nat" where
  "in_state st db = length (filter (\<lambda>(ih, t). tr_state t = st) (torrents db))"

text \<open>\<^verbatim>\<open>GROUP BY state\<close> has a row for each state that occurs; its rows come here in the order of the enumeration.\<close>

definition count_torrents_by_state :: "torrent_db \<Rightarrow> (torrent_state \<times> int) list" where
  "count_torrents_by_state db = map (\<lambda>st. (st, int (in_state st db))) (filter (\<lambda>st. in_state st db \<noteq> 0) all_states)"

definition refresh_stats :: "('db \<Rightarrow> (torrent_state \<times> int) list option) \<Rightarrow> 'db \<Rightarrow> call list" where
  "refresh_stats counts db =
     (case counts db of
        None \<Rightarrow> []
      | Some rows \<Rightarrow> map (\<lambda>(st, n). Late_Call (SetTorrentsTotal (state_text st) (of_int n))) rows)"

subsection \<open>What a tick reports\<close>

fun apply_results_calls ::
    "(db_call \<Rightarrow> 'db \<Rightarrow> 'db option) \<Rightarrow> instant \<Rightarrow> int \<Rightarrow> (string \<Rightarrow> torrent_meta) \<Rightarrow> scrape_result list \<Rightarrow> 'db \<Rightarrow> call list" where
  "apply_results_calls exec now tracker_id meta [] db = []"
| "apply_results_calls exec now tracker_id meta (r # rs) db =
     (let (ok, db') = apply_result exec now now r tracker_id (meta (sc_infohash r)) db
      in (if ok then [] else [Work_Call IncScrapeErrorsTotal]) @ apply_results_calls exec now tracker_id meta rs db')"

definition scrape_once_calls ::
    "(db_call \<Rightarrow> 'db \<Rightarrow> 'db option) \<Rightarrow> instant \<Rightarrow> int \<Rightarrow> torrent_meta \<Rightarrow> ('db \<Rightarrow> scrape_row list option) \<Rightarrow>
     (string list \<Rightarrow> tracker_error + scrape_result list) \<Rightarrow> rat \<Rightarrow> ('db \<Rightarrow> 'db) \<Rightarrow> 'db \<Rightarrow> call list" where
  "scrape_once_calls exec now tracker_id zm due scraper took meanwhile db =
     Work_Call IncScrapeCyclesTotal #
     (case due db of
        None \<Rightarrow> [Work_Call IncScrapeErrorsTotal]
      | Some rows \<Rightarrow>
          if length rows = 0 then []
          else case scraper (map row_infohash rows) of
            Inl e \<Rightarrow> [Work_Call IncScrapeErrorsTotal]
          | Inr results \<Rightarrow>
              apply_results_calls exec now tracker_id (meta_get zm rows) results (meanwhile db) @
              [Work_Call (ObserveScrapeDurationSeconds took), Work_Call IncScrapeTorrentsUpdatedTotal])"

text \<open>The dead marks that succeed are counted one by one for the log, and reported together.\<close>

fun dead_count :: "(db_call \<Rightarrow> 'db \<Rightarrow> 'db option) \<Rightarrow> string list \<Rightarrow> 'db \<Rightarrow> nat" where
  "dead_count exec [] db = 0"
| "dead_count exec (ih # ihs) db =
     (case exec (Update_Torrent_Dead ih) db of
        None \<Rightarrow> dead_count exec ihs db
      | Some db' \<Rightarrow> Suc (dead_count exec ihs db'))"

definition detect_dead_calls ::
    "(db_call \<Rightarrow> 'db \<Rightarrow> 'db option) \<Rightarrow> instant \<Rightarrow> duration \<Rightarrow> (instant \<Rightarrow> int \<Rightarrow> 'db \<Rightarrow> string list option) \<Rightarrow> 'db \<Rightarrow> call list" where
  "detect_dead_calls exec now dead_after candidates db =
     (case candidates (dead_cutoff now dead_after) 1000 db of
        None \<Rightarrow> []
      | Some ihs \<Rightarrow> if dead_count exec ihs db > 0 then [Work_Call IncScrapeDeadDetectedTotal] else [])"

definition prune_calls :: "call list" where
  "prune_calls = [Work_Call IncScrapeHistoryPrunedTotal]"

subsection \<open>The loops\<close>

text \<open>
  One tick of one of the loops: the trackers answer by a function, \<open>rat\<close> is the time the tick took, and the last
  argument is what the other loops do to the database while the trackers are asked.
\<close>

datatype 'db scraper_tick =
  Scrape_Tick instant "string list \<Rightarrow> tracker_error + scrape_result list" rat "'db \<Rightarrow> 'db"
| Dead_Tick instant
| Prune_Tick instant
| Stats_Tick

record 'db scraper =
  sw_exec :: "instant \<Rightarrow> db_call \<Rightarrow> 'db \<Rightarrow> 'db option"
  sw_due :: "instant \<Rightarrow> int \<Rightarrow> 'db \<Rightarrow> scrape_row list option"
  sw_candidates :: "instant \<Rightarrow> int \<Rightarrow> 'db \<Rightarrow> string list option"
  sw_count :: "'db \<Rightarrow> (torrent_state \<times> int) list option"
  sw_batch :: int
  sw_dead_after :: duration
  sw_tracker :: int

definition scraper_tick :: "'db scraper \<Rightarrow> 'db scraper_tick \<Rightarrow> 'db \<Rightarrow> call list \<times> 'db" where
  "scraper_tick w e db =
     (case e of
        Scrape_Tick now scraper took meanwhile \<Rightarrow>
          (scrape_once_calls (sw_exec w now) now (sw_tracker w) zero_meta (sw_due w now (sw_batch w)) scraper took meanwhile db,
           scrape_once (sw_exec w now) now (sw_tracker w) zero_meta (sw_due w now (sw_batch w)) scraper meanwhile db)
      | Dead_Tick now \<Rightarrow>
          (detect_dead_calls (sw_exec w now) now (sw_dead_after w) (sw_candidates w) db,
           detect_dead (sw_exec w now) now (sw_dead_after w) (sw_candidates w) db)
      | Prune_Tick now \<Rightarrow> (prune_calls, prune_history (sw_exec w now) now db)
      | Stats_Tick \<Rightarrow> (refresh_stats (sw_count w) db, db))"

fun run_scraper :: "'db scraper \<Rightarrow> 'db scraper_tick list \<Rightarrow> 'db \<Rightarrow> call list \<times> 'db" where
  "run_scraper w [] db = ([], db)"
| "run_scraper w (e # es) db =
     (let (cs, db1) = scraper_tick w e db; (ds, db2) = run_scraper w es db1 in (cs @ ds, db2))"

text \<open>
  The intervals of the four loops. \<^verbatim>\<open>time.NewTicker\<close> panics for an interval that is not positive; the pruner replaces
  such a setting, the loop of the scrapes hands it on.
\<close>

definition new_ticker :: "duration \<Rightarrow> duration outcome" where
  "new_ticker d = (if d \<le> 0 then Inl LibraryPanic else Inr d)"

record loop_intervals =
  li_scrape :: duration
  li_dead :: duration
  li_prune :: duration
  li_stats :: duration

definition start_loops :: "duration \<Rightarrow> duration \<Rightarrow> loop_intervals outcome" where
  "start_loops poll prune =
     (case new_ticker poll of
        Inl p \<Rightarrow> Inl p
      | Inr a \<Rightarrow>
          (case new_ticker hour of
             Inl p \<Rightarrow> Inl p
           | Inr b \<Rightarrow>
               (case new_ticker (prune_interval prune) of
                  Inl p \<Rightarrow> Inl p
                | Inr c \<Rightarrow>
                    (case new_ticker minute of
                       Inl p \<Rightarrow> Inl p
                     | Inr d \<Rightarrow> Inr \<lparr>li_scrape = a, li_dead = b, li_prune = c, li_stats = d\<rparr>))))"

theorem loops_start_iff: "(\<exists>is. start_loops poll prune = Inr is) \<longleftrightarrow> 0 < poll"
  by (auto simp: start_loops_def new_ticker_def prune_interval_def)

subsection \<open>The metrics library is never offended\<close>

lemma scraper_calls_ok [simp]:
  "call_ok lib (Work_Call IncScrapeErrorsTotal)" "call_ok lib (Work_Call IncScrapeCyclesTotal)"
  "call_ok lib (Work_Call (ObserveScrapeDurationSeconds v))" "call_ok lib (Work_Call IncScrapeTorrentsUpdatedTotal)"
  "call_ok lib (Work_Call IncScrapeDeadDetectedTotal)" "call_ok lib (Work_Call IncScrapeHistoryPrunedTotal)"
  "call_ok lib (Late_Call (SetTorrentsTotal l v)) = prom_label lib l"
  by (simp_all add: call_ok_def)

lemma apply_results_calls_ok [simp]: "list_all (call_ok lib) (apply_results_calls exec now i meta rs db)"
  by (induction rs arbitrary: db) (simp_all add: Let_def split: prod.split)

lemma refresh_stats_ok: "\<forall>st. prom_label lib (state_text st) \<Longrightarrow> list_all (call_ok lib) (refresh_stats counts db)"
  by (auto simp: refresh_stats_def list_all_iff split: option.split)

lemma tick_calls_ok:
  assumes "\<forall>st. prom_label lib (state_text st)"
  shows "list_all (call_ok lib) (fst (scraper_tick w e db))"
  using refresh_stats_ok[OF assms]
  by (cases e) (simp_all add: scraper_tick_def scrape_once_calls_def detect_dead_calls_def prune_calls_def
      split: option.split sum.split)

lemma run_calls_ok:
  assumes "\<forall>st. prom_label lib (state_text st)"
  shows "list_all (call_ok lib) (fst (run_scraper w es db))"
proof (induction es arbitrary: db)
  case (Cons e es)
  with tick_calls_ok[OF assms, of w e db] show ?case
    by (cases "scraper_tick w e db"; cases "run_scraper w es (snd (scraper_tick w e db))") (simp add: Cons.IH, metis Cons.IH fst_conv)
qed simp

subsection \<open>The gauges of the states\<close>

text \<open>A gauge shows the last value it was set to under its labels.\<close>

fun gauge_shows :: "metric \<Rightarrow> string list \<Rightarrow> call list \<Rightarrow> rat option \<Rightarrow> rat option" where
  "gauge_shows m ls [] v = v"
| "gauge_shows m ls (c # cs) v =
     gauge_shows m ls cs
       (if sm_metric (sample_of c) = m \<and> sm_values (sample_of c) = ls
        then (case sm_update (sample_of c) of Set_To x \<Rightarrow> Some x | _ \<Rightarrow> v) else v)"

definition state_gauge :: "torrent_state \<Rightarrow> call list \<Rightarrow> rat option" where
  "state_gauge st cs = gauge_shows TorrentsTotal [state_text st] cs None"

lemma gauge_shows_append: "gauge_shows m ls (cs @ ds) v = gauge_shows m ls ds (gauge_shows m ls cs v)"
  by (induction cs arbitrary: v) simp_all

lemma state_text_inj: "state_text a = state_text b \<longleftrightarrow> a = b"
  by (cases a; cases b) simp_all

lemma gauge_refresh:
  "gauge_shows TorrentsTotal [state_text st] (refresh_stats (\<lambda>db. Some (count_torrents_by_state db)) db) v =
     (if in_state st db = 0 then v else Some (of_nat (in_state st db)))"
proof -
  have "gauge_shows TorrentsTotal [state_text st]
      (map (\<lambda>(st, n). Late_Call (SetTorrentsTotal (state_text st) (of_int n)))
        (map (\<lambda>st. (st, int (in_state st db))) (filter (\<lambda>st. in_state st db \<noteq> 0) sts))) v =
      (if st \<in> set sts \<and> in_state st db \<noteq> 0 then Some (of_nat (in_state st db)) else v)" for sts
    by (induction sts arbitrary: v) (auto simp: state_text_inj)
  moreover have "st \<in> set all_states" by (cases st) (simp_all add: all_states_def)
  ultimately show ?thesis by (simp add: refresh_stats_def count_torrents_by_state_def)
qed

text \<open>
  C40. A gauge of torrents by state is right after a refresh while the state has torrents. When the last of them has
  left the state, no refresh ever sets the gauge again: it goes on showing the last number that was not zero.
\<close>

theorem state_gauge_sticks:
  assumes "in_state st db1 = n" and "0 < n" and "\<forall>db \<in> set dbs. in_state st db = 0"
  shows "state_gauge st (concat (map (refresh_stats (\<lambda>db. Some (count_torrents_by_state db))) (db1 # dbs))) = Some (of_nat n)"
proof -
  have "gauge_shows TorrentsTotal [state_text st]
      (concat (map (refresh_stats (\<lambda>db. Some (count_torrents_by_state db))) dbs)) v = v" for v
    using assms(3) by (induction dbs) (simp_all add: gauge_shows_append gauge_refresh)
  then show ?thesis using assms(1,2) by (simp add: state_gauge_def gauge_shows_append gauge_refresh)
qed

text \<open>
  The loops of the scrape worker never make the metrics library panic, whatever trackers and database answer and in
  whatever order the loops tick.
\<close>

theorem scraper_metrics_safe:
  assumes "prometheus_laws lib" and "\<forall>st. prom_label lib (state_text st)"
  shows "\<exists>r'. record_calls lib (fst (run_scraper w es db)) r = Inr r'"
  using record_calls_ok[OF assms(1) run_calls_ok[OF assms(2)]] .

theorem state_gauge_sticks_witness:
  "state_gauge Classified (concat (map (refresh_stats (\<lambda>db. Some (count_torrents_by_state db)))
     [sample_db, sample_db\<lparr>torrents := []\<rparr>, sample_db\<lparr>torrents := []\<rparr>])) = Some 1"
  using state_gauge_sticks[of Classified sample_db 1 "[sample_db\<lparr>torrents := []\<rparr>, sample_db\<lparr>torrents := []\<rparr>]"]
  by (simp add: in_state_def sample_db_def sample_torrent_def)

definition sql_scraper :: "torrent_db scraper" where
  "sql_scraper =
     \<lparr>sw_exec = sql_exec, sw_due = get_torrents_to_scrape, sw_candidates = get_dead_candidates,
      sw_count = (\<lambda>db. Some (count_torrents_by_state db)), sw_batch = 74, sw_dead_after = 0, sw_tracker = 1\<rparr>"

theorem scraper_metrics_safe_witness:
  "\<exists>r'. record_calls sample_prometheus
     (fst (run_scraper sql_scraper [Stats_Tick, Scrape_Tick 100 (\<lambda>ihs. Inr []) 1 id, Dead_Tick 200, Prune_Tick 300, Stats_Tick] sample_db))
     \<lparr>rc_metrics = Some ({}, [])\<rparr> = Inr r'"
  using scraper_metrics_safe[OF sample_prometheus_laws, of sql_scraper
      "[Stats_Tick, Scrape_Tick 100 (\<lambda>ihs. Inr []) 1 id, Dead_Tick 200, Prune_Tick 300, Stats_Tick]" sample_db
      "\<lparr>rc_metrics = Some ({}, [])\<rparr>"]
  by (simp add: sample_prometheus_def)

end
