(* ===== verification/Settings.thy ===== *)
theory Settings
  imports Dht_System
begin

section \<open>Configuration (\<^verbatim>\<open>config/config.go\<close>, the defaults of \<^verbatim>\<open>cmd/root.go\<close>)\<close>

text \<open>
  The settings the program knows by name, their defaults, and the configuration that \<^verbatim>\<open>New\<close> makes of them. viper is a
  library: here it gives a key the value of the file or the environment, if there is one, and else the default; decoding
  puts the value of a field's key in the field, or zero.
\<close>

datatype setting = Text_Value string | Int_Value int | Float_Value rat | Bool_Value bool | List_Value "string list"

datatype kind = Text_Kind | Int_Kind | Float_Kind | Bool_Kind | List_Kind

fun kind_of :: "setting \<Rightarrow> kind" where
  "kind_of (Text_Value s) = Text_Kind"
| "kind_of (Int_Value n) = Int_Kind"
| "kind_of (Float_Value x) = Float_Kind"
| "kind_of (Bool_Value b) = Bool_Kind"
| "kind_of (List_Value ss) = List_Kind"

fun zero_of :: "kind \<Rightarrow> setting" where
  "zero_of Text_Kind = Text_Value []"
| "zero_of Int_Kind = Int_Value 0"
| "zero_of Float_Kind = Float_Value 0"
| "zero_of Bool_Kind = Bool_Value False"
| "zero_of List_Kind = List_Value []"

type_synonym settings = "string \<Rightarrow> setting option"
type_synonym config = "(string \<times> setting) list"

subsection \<open>Fields\<close>

text \<open>The fields of the structs of \<^verbatim>\<open>Config\<close>, by the keys of their tags; durations are numbers.\<close>

definition database_fields :: "(string \<times> kind) list" where
  "database_fields =
    [(''database.url'', Text_Kind)]"

definition server_fields :: "(string \<times> kind) list" where
  "server_fields =
    [(''server.health_port'', Int_Kind),
     (''server.metrics_port'', Int_Kind),
     (''server.api_port'', Int_Kind),
     (''server.api_enabled'', Bool_Kind),
     (''server.log_level'', Text_Kind)]"

definition dht_fields :: "(string \<times> kind) list" where
  "dht_fields =
    [(''dht.ip'', Text_Kind),
     (''dht.node_id'', Text_Kind),
     (''dht.port'', Int_Kind),
     (''dht.discovery_buffer'', Int_Kind),
     (''dht.bad_failure_threshold'', Int_Kind),
     (''dht.bucket_size'', Int_Kind),
     (''dht.stale_threshold'', Int_Kind),
     (''dht.transaction_timeout'', Int_Kind),
     (''dht.token_rotation'', Int_Kind),
     (''dht.workers'', Int_Kind),
     (''dht.rate_limit'', Float_Kind),
     (''dht.rate_burst'', Int_Kind),
     (''dht.max_nodes_per_response'', Int_Kind),
     (''dht.max_peers_per_response'', Int_Kind),
     (''dht.peer_store_ttl'', Int_Kind),
     (''dht.peer_store_max_entries'', Int_Kind),
     (''dht.peer_store_max_peers_per_hash'', Int_Kind),
     (''dht.bucket_refresh_interval'', Int_Kind),
     (''dht.sample_interval'', Int_Kind),
     (''dht.max_message_size'', Int_Kind),
     (''dht.max_metadata_size'', Int_Kind),
     (''dht.ip_limiter_max_size'', Int_Kind),
     (''dht.warm_bootstrap_threshold'', Int_Kind),
     (''dht.bootstrap_nodes'', List_Kind),
     (''dht.bloom_n'', Int_Kind),
     (''dht.bloom_p'', Float_Kind),
     (''dht.bloom_rotation'', Int_Kind),
     (''dht.forwarded_port_file'', Text_Kind),
     (''dht.external_ip_file'', Text_Kind),
     (''dht.file_wait_timeout'', Int_Kind),
     (''dht.file_settle_time'', Int_Kind)]"

definition crawler_fields :: "(string \<times> kind) list" where
  "crawler_fields =
    [(''crawler.enabled'', Bool_Kind),
     (''crawler.crawlers'', Int_Kind),
     (''crawler.discovery_workers'', Int_Kind),
     (''crawler.discovery_queue_size'', Int_Kind),
     (''crawler.alpha'', Int_Kind),
     (''crawler.max_iterations'', Int_Kind),
     (''crawler.discovery_max_iterations'', Int_Kind),
     (''crawler.traversal_width'', Int_Kind),
     (''crawler.default_cooldown'', Int_Kind),
     (''crawler.default_interval'', Int_Kind),
     (''crawler.max_node_failures'', Int_Kind),
     (''crawler.max_jitter'', Int_Kind),
     (''crawler.empty_spin_wait'', Int_Kind),
     (''crawler.sample_enqueue_timeout'', Int_Kind),
     (''crawler.node_cache_cleanup'', Int_Kind),
     (''crawler.max_interval'', Int_Kind),
     (''crawler.transaction_timeout'', Int_Kind)]"

definition indexer_fields :: "(string \<times> kind) list" where
  "indexer_fields =
    [(''indexer.workers'', Int_Kind),
     (''indexer.max_concurrent_peers'', Int_Kind),
     (''indexer.rate_limit'', Float_Kind),
     (''indexer.rate_burst'', Int_Kind),
     (''indexer.request_timeout'', Int_Kind),
     (''indexer.max_peers'', Int_Kind),
     (''indexer.allowed_extensions'', List_Kind),
     (''indexer.enable_extension_filter'', Bool_Kind),
     (''indexer.min_size'', Int_Kind),
     (''indexer.max_size'', Int_Kind),
     (''indexer.exclude_adult_content'', Bool_Kind)]"

definition scrape_fields :: "(string \<times> kind) list" where
  "scrape_fields =
    [(''scrape.batch_size'', Int_Kind),
     (''scrape.poll_interval'', Int_Kind),
     (''scrape.dial_timeout'', Int_Kind),
     (''scrape.read_timeout'', Int_Kind),
     (''scrape.dead_after'', Int_Kind),
     (''scrape.prune_interval'', Int_Kind),
     (''scrape.trackers'', List_Kind)]"

definition tui_fields :: "(string \<times> kind) list" where
  "tui_fields =
    [(''tui.host'', Text_Kind)]"

definition config_fields :: "(string \<times> kind) list" where
  "config_fields = database_fields @ server_fields @ dht_fields @ crawler_fields @ indexer_fields @ scrape_fields @ tui_fields"

subsection \<open>Defaults\<close>

definition defaults :: "(string \<times> setting) list" where
  "defaults =
    [(''database.url'', Text_Value ''''),
     (''gluetun.endpoint'', Text_Value ''''),
     (''indexer.workers'', Int_Value 10),
     (''indexer.max_concurrent_peers'', Int_Value 10),
     (''indexer.request_timeout'', Int_Value (6 * second)),
     (''indexer.max_peers'', Int_Value 100),
     (''indexer.rate_limit'', Float_Value 2),
     (''indexer.rate_burst'', Int_Value 4),
     (''indexer.min_size'', Int_Value (50 * 1024 * 1024)),
     (''indexer.max_size'', Int_Value (150 * 1024 * 1024 * 1024)),
     (''indexer.allowed_extensions'', List_Value []),
     (''indexer.enable_extension_filter'', Bool_Value False),
     (''indexer.exclude_adult_content'', Bool_Value True),
     (''dht.node_id'', Text_Value ''''),
     (''dht.port'', Int_Value 6881),
     (''dht.workers'', Int_Value 16),
     (''dht.rate_limit'', Float_Value 100),
     (''dht.rate_burst'', Int_Value 200),
     (''dht.discovery_buffer'', Int_Value 10000),
     (''dht.bad_failure_threshold'', Int_Value 2),
     (''dht.bucket_size'', Int_Value 20),
     (''dht.stale_threshold'', Int_Value (5 * minute)),
     (''dht.transaction_timeout'', Int_Value (10 * second)),
     (''dht.token_rotation'', Int_Value (5 * minute)),
     (''dht.max_nodes_per_response'', Int_Value 256),
     (''dht.max_peers_per_response'', Int_Value 50),
     (''dht.bucket_refresh_interval'', Int_Value (5 * minute)),
     (''dht.peer_store_ttl'', Int_Value (30 * minute)),
     (''dht.peer_store_max_entries'', Int_Value 10000),
     (''dht.peer_store_max_peers_per_hash'', Int_Value 200),
     (''dht.max_message_size'', Int_Value (16 * 1024 * 1024)),
     (''dht.max_metadata_size'', Int_Value (10 * 1024 * 1024)),
     (''dht.ip_limiter_max_size'', Int_Value 65536),
     (''dht.warm_bootstrap_threshold'', Int_Value 20),
     (''dht.bloom_n'', Int_Value 10000000),
     (''dht.bloom_p'', Float_Value (1 / 1000)),
     (''dht.bloom_rotation'', Int_Value (30 * minute)),
     (''dht.sample_interval'', Int_Value (5 * minute)),
     (''dht.file_wait_timeout'', Int_Value (5 * minute)),
     (''dht.file_settle_time'', Int_Value (30 * second)),
     (''crawler.crawlers'', Int_Value 2),
     (''crawler.discovery_workers'', Int_Value 4),
     (''crawler.discovery_queue_size'', Int_Value 256),
     (''crawler.bootstrap_nodes'', List_Value []),
     (''crawler.alpha'', Int_Value 3),
     (''crawler.max_iterations'', Int_Value 4),
     (''crawler.discovery_max_iterations'', Int_Value 3),
     (''crawler.traversal_width'', Int_Value 20),
     (''crawler.rate_limit'', Float_Value 25),
     (''crawler.rate_burst'', Int_Value 25),
     (''crawler.default_cooldown'', Int_Value (2 * second)),
     (''crawler.default_interval'', Int_Value (10 * second)),
     (''crawler.max_node_failures'', Int_Value 3),
     (''crawler.max_jitter'', Int_Value (500 * second div 1000)),
     (''crawler.sample_enqueue_timeout'', Int_Value (1 * second)),
     (''crawler.empty_spin_wait'', Int_Value (5 * second)),
     (''crawler.node_cache_cleanup'', Int_Value (1 * hour)),
     (''crawler.inflight_cache_cleanup'', Int_Value (5 * minute)),
     (''crawler.seen_cache_cleanup'', Int_Value (1 * hour)),
     (''crawler.max_samples_per_node'', Int_Value 50),
     (''crawler.max_interval'', Int_Value (10 * minute)),
     (''crawler.target_rotation_strategy'', Text_Value ''prefix_rotate''),
     (''server.health_port'', Int_Value 8081),
     (''server.metrics_port'', Int_Value 9090),
     (''crawler.enabled'', Bool_Value False),
     (''torznab.port'', Int_Value 8080),
     (''torznab.enabled'', Bool_Value False),
     (''scrape.batch_size'', Int_Value 74),
     (''scrape.poll_interval'', Int_Value (30 * second)),
     (''scrape.dial_timeout'', Int_Value (5 * second)),
     (''scrape.read_timeout'', Int_Value (10 * second)),
     (''scrape.dead_after'', Int_Value (90 * 24 * hour)),
     (''scrape.prune_interval'', Int_Value (24 * hour)),
     (''scrape.trackers'', List_Value []),
     (''tui.host'', Text_Value ''http://localhost:8080'')]"
definition viper_get :: "settings \<Rightarrow> settings" where
  "viper_get given k = (case given k of Some v \<Rightarrow> Some v | None \<Rightarrow> map_of defaults k)"


text \<open>
  How the library turns a value into one of the kind of the field (text into a number or a duration, say) is a parameter; a
  value it cannot turn leaves the field zero and is an error. What it documents is that a value of the right kind is kept.
\<close>

type_synonym decoder = "kind \<Rightarrow> setting \<Rightarrow> setting option"

definition keeps_kind :: "decoder \<Rightarrow> bool" where
  "keeps_kind dec \<longleftrightarrow> (\<forall>v. dec (kind_of v) v = Some v)"

definition strict_decoder :: decoder where
  "strict_decoder kd v = (if kind_of v = kd then Some v else None)"

lemma strict_decoder_keeps: "keeps_kind strict_decoder"
  by (simp add: keeps_kind_def strict_decoder_def)

definition field_value :: "decoder \<Rightarrow> settings \<Rightarrow> string \<Rightarrow> kind \<Rightarrow> setting" where
  "field_value dec given k kd =
     (case viper_get given k of
        None \<Rightarrow> zero_of kd
      | Some v \<Rightarrow> (case dec kd v of None \<Rightarrow> zero_of kd | Some w \<Rightarrow> w))"

definition unmarshal_config :: "decoder \<Rightarrow> settings \<Rightarrow> config" where
  "unmarshal_config dec given = map (\<lambda>(k, kd). (k, field_value dec given k kd)) config_fields"

definition unmarshal_fails :: "decoder \<Rightarrow> settings \<Rightarrow> bool" where
  "unmarshal_fails dec given \<longleftrightarrow>
     list_ex (\<lambda>(k, kd). case viper_get given k of Some v \<Rightarrow> dec kd v = None | None \<Rightarrow> False) config_fields"

fun text_in :: "setting option \<Rightarrow> string" where
  "text_in (Some (Text_Value s)) = s" | "text_in _ = []"

fun int_in :: "setting option \<Rightarrow> int" where
  "int_in (Some (Int_Value n)) = n" | "int_in _ = 0"

fun bool_in :: "setting option \<Rightarrow> bool" where
  "bool_in (Some (Bool_Value b)) = b" | "bool_in _ = False"

fun list_in :: "setting option \<Rightarrow> string list" where
  "list_in (Some (List_Value ss)) = ss" | "list_in _ = []"

abbreviation cfg_text :: "config \<Rightarrow> string \<Rightarrow> string" where "cfg_text c k \<equiv> text_in (map_of c k)"
abbreviation cfg_int :: "config \<Rightarrow> string \<Rightarrow> int" where "cfg_int c k \<equiv> int_in (map_of c k)"
abbreviation cfg_bool :: "config \<Rightarrow> string \<Rightarrow> bool" where "cfg_bool c k \<equiv> bool_in (map_of c k)"

datatype config_error = No_Viper | Decode_Error | Address_And_Id

text \<open>\<^verbatim>\<open>New\<close> reports the conflict of address file and identifier before an error of decoding.\<close>

definition new_config :: "decoder \<Rightarrow> settings option \<Rightarrow> config_error option \<times> config" where
  "new_config dec v =
     (case v of
        None \<Rightarrow> (Some No_Viper, map (\<lambda>(k, kd). (k, zero_of kd)) config_fields)
      | Some given \<Rightarrow>
          let c = unmarshal_config dec given in
          (if cfg_text c ''dht.external_ip_file'' \<noteq> [] \<and> cfg_text c ''dht.node_id'' \<noteq> [] then Some Address_And_Id
           else if unmarshal_fails dec given then Some Decode_Error
           else None, c))"

subsection \<open>What the parts of the DHT system read\<close>

definition dht_config_of :: "config \<Rightarrow> dht_config" where
  "dht_config_of c =
     \<lparr>c_node_id = cfg_text c ''dht.node_id'',
      c_discovery_buffer = nat (cfg_int c ''dht.discovery_buffer''),
      c_token_rotation = cfg_int c ''dht.token_rotation'',
      c_store_entries = nat (cfg_int c ''dht.peer_store_max_entries''),
      c_store_peers = nat (cfg_int c ''dht.peer_store_max_peers_per_hash''),
      c_store_ttl = cfg_int c ''dht.peer_store_ttl'',
      c_limiter_size = cfg_int c ''dht.ip_limiter_max_size'',
      c_timeout = cfg_int c ''dht.transaction_timeout'',
      c_max_nodes = nat (cfg_int c ''dht.max_nodes_per_response''),
      c_max_peers = nat (cfg_int c ''dht.max_peers_per_response''),
      c_bucket_size = nat (cfg_int c ''dht.bucket_size''),
      c_bad_failures = cfg_int c ''dht.bad_failure_threshold'',
      c_stale = cfg_int c ''dht.stale_threshold'',
      c_sample_interval = cfg_int c ''dht.sample_interval'',
      c_warm_threshold = nat (cfg_int c ''dht.warm_bootstrap_threshold'')\<rparr>"

definition crawler_config_of :: "config \<Rightarrow> crawler_config" where
  "crawler_config_of c =
     \<lparr>cc_alpha = nat (cfg_int c ''crawler.alpha''),
      cc_max_iterations = nat (cfg_int c ''crawler.max_iterations''),
      cc_width = nat (cfg_int c ''crawler.traversal_width''),
      cc_default_cooldown = cfg_int c ''crawler.default_cooldown'',
      cc_default_interval = cfg_int c ''crawler.default_interval'',
      cc_max_failures = cfg_int c ''crawler.max_node_failures'',
      cc_max_jitter = cfg_int c ''crawler.max_jitter'',
      cc_cache_cleanup = cfg_int c ''crawler.node_cache_cleanup'',
      cc_txn_timeout = cfg_int c ''crawler.transaction_timeout'',
      cc_max_interval = cfg_int c ''crawler.max_interval'',
      cc_discovery_iterations = nat (cfg_int c ''crawler.discovery_max_iterations'')\<rparr>"

definition system_config_of :: "config \<Rightarrow> system_config" where
  "system_config_of c =
     \<lparr>sc_dht = dht_config_of c, sc_crawler = crawler_config_of c,
      sc_crawlers = nat (cfg_int c ''crawler.crawlers''),
      sc_workers = nat (cfg_int c ''crawler.discovery_workers''),
      sc_queue_size = nat (cfg_int c ''crawler.discovery_queue_size'')\<rparr>"

subsection \<open>Keys without a field, fields without a default\<close>

definition ignored_keys :: "string list" where
  "ignored_keys =
     [''gluetun.endpoint'', ''crawler.bootstrap_nodes'', ''crawler.rate_limit'', ''crawler.rate_burst'',
      ''crawler.inflight_cache_cleanup'', ''crawler.seen_cache_cleanup'', ''crawler.max_samples_per_node'',
      ''crawler.target_rotation_strategy'', ''torznab.port'', ''torznab.enabled'']"

definition undefaulted_keys :: "string list" where
  "undefaulted_keys =
     [''server.api_port'', ''server.api_enabled'', ''server.log_level'', ''dht.ip'', ''dht.bootstrap_nodes'',
      ''dht.forwarded_port_file'', ''dht.external_ip_file'', ''crawler.transaction_timeout'']"

lemma ignored_keys_unread: "list_all (\<lambda>k. map_of config_fields k = None) ignored_keys"
  by code_simp

lemma ignored_keys_set: "list_all (\<lambda>k. map_of defaults k \<noteq> None) ignored_keys"
  by code_simp

lemma undefaulted_keys_unset: "list_all (\<lambda>k. map_of defaults k = None) undefaulted_keys"
  by code_simp

text \<open>
  Ten of the settings that have a default are read by nothing: whatever they are set to, the configuration is the
  same. Among them are the port and the switch of the Torznab API and the bootstrap nodes of the crawler.
\<close>

theorem ignored_settings:
  assumes "k \<in> set ignored_keys"
  shows "map_of defaults k \<noteq> None \<and> new_config dec (Some (given(k := v))) = new_config dec (Some given)"
proof -
  have no_field: "\<forall>(f, kd) \<in> set config_fields. f \<noteq> k"
    using assms ignored_keys_unread by (force simp: list_all_iff map_of_eq_None_iff)
  have "unmarshal_config dec (given(k := v)) = unmarshal_config dec given"
    using no_field by (auto simp: unmarshal_config_def field_value_def viper_get_def)
  moreover have "unmarshal_fails dec (given(k := v)) = unmarshal_fails dec given"
    unfolding unmarshal_fails_def viper_get_def list_ex_iff by (rule bex_cong[OF refl]) (use no_field in auto)
  moreover have "map_of defaults k \<noteq> None" using assms ignored_keys_set by (simp add: list_all_iff)
  ultimately show ?thesis by (simp add: new_config_def)
qed

theorem ignored_settings_witness:
  "new_config strict_decoder (Some (Map.empty(''torznab.enabled'' := Some (Bool_Value True)))) =
    new_config strict_decoder (Some Map.empty)"
  using ignored_settings[of "''torznab.enabled''" strict_decoder Map.empty "Some (Bool_Value True)"] by (simp add: ignored_keys_def)

subsection \<open>The system with default settings\<close>

lemma config_field:
  assumes "map_of config_fields k = Some kd"
  shows "map_of (snd (new_config dec (Some given))) k = Some (field_value dec given k kd)"
proof -
  have "map_of (map (\<lambda>(k, kd). (k, f k kd)) fs) k = map_option (f k) (map_of fs k)" for f :: "string \<Rightarrow> kind \<Rightarrow> setting" and fs
    by (induction fs) auto
  with assms show ?thesis by (simp add: new_config_def unmarshal_config_def Let_def)
qed

lemma default_fields:
  "map_of config_fields ''dht.bucket_size'' = Some Int_Kind" "map_of defaults ''dht.bucket_size'' = Some (Int_Value 20)"
  "map_of config_fields ''dht.peer_store_max_peers_per_hash'' = Some Int_Kind"
  "map_of defaults ''dht.peer_store_max_peers_per_hash'' = Some (Int_Value 200)"
  "map_of config_fields ''crawler.max_iterations'' = Some Int_Kind" "map_of defaults ''crawler.max_iterations'' = Some (Int_Value 4)"
  "map_of config_fields ''crawler.transaction_timeout'' = Some Int_Kind" "map_of defaults ''crawler.transaction_timeout'' = None"
  by code_simp+

lemma default_value: "given k = None \<Longrightarrow> map_of defaults k = None \<Longrightarrow> field_value dec given k kd = zero_of kd"
  by (simp add: field_value_def viper_get_def)

lemma default_int:
  "keeps_kind dec \<Longrightarrow> given k = None \<Longrightarrow> map_of defaults k = Some (Int_Value n) \<Longrightarrow> field_value dec given k Int_Kind = Int_Value n"
  by (simp add: field_value_def viper_get_def keeps_kind_def split: option.split) (metis kind_of.simps(2) option.inject option.distinct(1))

text \<open>The numbers that the code uses as sizes and counts: with a negative one of them Go would panic or never be full.\<close>

definition count_keys :: "string list" where
  "count_keys =
     [''dht.discovery_buffer'', ''dht.peer_store_max_entries'', ''dht.peer_store_max_peers_per_hash'', ''dht.max_nodes_per_response'',
      ''dht.max_peers_per_response'', ''dht.bucket_size'', ''dht.warm_bootstrap_threshold'', ''crawler.alpha'',
      ''crawler.max_iterations'', ''crawler.traversal_width'', ''crawler.discovery_max_iterations'', ''crawler.crawlers'',
      ''crawler.discovery_workers'', ''crawler.discovery_queue_size'']"

definition counts_ok :: "config \<Rightarrow> bool" where
  "counts_ok c \<longleftrightarrow> list_all (\<lambda>k. 0 \<le> cfg_int c k) count_keys"

text \<open>
  With the default bucket size, peer list size and number of rounds, whatever the other settings are (no count
  negative), the DHT system runs as safely as \<open>system_safe\<close> says: nothing panics but the metrics library.
\<close>

theorem default_system_safe:
  assumes "keeps_kind dec" and "counts_ok (snd (new_config dec (Some given)))"
    and "\<forall>k \<in> {''dht.bucket_size'', ''dht.peer_store_max_peers_per_hash'', ''crawler.max_iterations''}. given k = None"
    and "new_system (system_config_of (snd (new_config dec (Some given)))) ext fresh_filter now clock r fresh x y = Inr sy"
    and "length fresh = 20" and "list_all turn_ok es"
  shows "case run_system lib cv ctr es sy of Inl p \<Rightarrow> metrics_panic lib ctr p | Inr sy' \<Rightarrow> system_ok cv sy'"
proof -
  have "given ''dht.bucket_size'' = None" "given ''dht.peer_store_max_peers_per_hash'' = None" "given ''crawler.max_iterations'' = None"
    using assms(3) by simp_all
  then have "0 < c_bucket_size (sc_dht (system_config_of (snd (new_config dec (Some given)))))"
    "0 < c_store_peers (sc_dht (system_config_of (snd (new_config dec (Some given)))))"
    "0 < cc_max_iterations (sc_crawler (system_config_of (snd (new_config dec (Some given)))))"
    by (simp_all add: system_config_of_def dht_config_of_def crawler_config_of_def config_field default_fields default_int[OF assms(1)])
  from run_system_ok[OF new_system_ok[OF assms(4,5) this] assms(6)] show ?thesis by (simp add: but_metrics_def)
qed

text \<open>
  The crawler's transaction timeout has no default. As long as it is not set, every prune forgets every node that is
  not cooling down, however recently it was seen.
\<close>

theorem unset_timeout_forgets_all:
  assumes "given ''crawler.transaction_timeout'' = None" and "cr_cfg c = crawler_config_of (snd (new_config dec (Some given)))"
    and "wf_crawler cv c" and "\<not> in_cooldown c i" and "cache_get (cr_seen c) i = Some t" and "t < now"
  shows "cache_get (cr_seen (prune_stale_in_flight now c)) i = None"
proof -
  have "cc_txn_timeout (cr_cfg c) = 0"
    by (simp add: assms(1,2) crawler_config_of_def config_field default_fields default_value)
  with prune_spares_cooldown[OF assms(3), of i now t] assms(4-6) show ?thesis by simp
qed

lemma default_counts:
  "list_all (\<lambda>k. map_of config_fields k = Some Int_Kind \<and>
     (case map_of defaults k of Some (Int_Value n) \<Rightarrow> 0 \<le> n | _ \<Rightarrow> False)) count_keys"
  by code_simp

lemma default_counts_ok:
  assumes "keeps_kind dec" and "\<forall>k \<in> set count_keys. given k = None"
  shows "counts_ok (snd (new_config dec (Some given)))"
  unfolding counts_ok_def list_all_iff
proof
  fix k assume m: "k \<in> set count_keys"
  then have k: "map_of config_fields k = Some Int_Kind"
      "case map_of defaults k of Some (Int_Value n) \<Rightarrow> 0 \<le> n | _ \<Rightarrow> False"
    using default_counts by (simp_all add: list_all_iff)
  then obtain n where n: "map_of defaults k = Some (Int_Value n)" "0 \<le> n"
    by (auto split: option.splits setting.splits)
  then show "0 \<le> cfg_int (snd (new_config dec (Some given))) k"
    using m assms(2) by (simp add: config_field k(1) default_int[OF assms(1)])
qed

lemma default_system_new:
  "\<exists>sy. new_system (system_config_of (snd (new_config strict_decoder (Some Map.empty)))) (Some [192, 0, 2, 7]) ([] :: info_hash list) 0 (\<lambda>u. 0) 0
     (replicate 20 1) (replicate 8 1) (replicate 8 2) = (Inr sy :: id_error + (info_hash list, nat) dht_system)"
  by (simp add: new_system_def new_server_def get_server_node_id_def)

definition default_system :: "(info_hash list, nat) dht_system" where
  "default_system = (case new_system (system_config_of (snd (new_config strict_decoder (Some Map.empty)))) (Some [192, 0, 2, 7]) [] 0 (\<lambda>u. 0) 0
     (replicate 20 1) (replicate 8 1) (replicate 8 2) of Inr sy \<Rightarrow> sy | Inl e \<Rightarrow> undefined)"

lemma default_system_inr:
  "new_system (system_config_of (snd (new_config strict_decoder (Some Map.empty)))) (Some [192, 0, 2, 7]) [] 0 (\<lambda>u. 0) 0
     (replicate 20 1) (replicate 8 1) (replicate 8 2) = Inr default_system"
  using default_system_new by (auto simp: default_system_def)

theorem default_system_safe_witness:
  "\<exists>sy. run_system sample_libs (\<lambda>x. 0) (\<lambda>v. True) [Crawler_Start 0 (replicate 20 3), Crawler_Pass 0 sample_env, Take_Discovered]
     default_system = Inr sy \<and> system_ok (\<lambda>x. 0) sy"
  using default_system_safe[OF strict_decoder_keeps default_counts_ok[OF strict_decoder_keeps, of Map.empty, simplified] _ default_system_inr, where lib = sample_libs and cv = "\<lambda>x. 0" and ctr = "\<lambda>v. True" and
      es = "[Crawler_Start 0 (replicate 20 3), Crawler_Pass 0 sample_env, Take_Discovered]"]
  by (simp add: sample_env_def turn_ok_def wf_id_def metrics_panic_def counter_panic_def label_panic_def sample_libs_def
      del: run_system.simps split: sum.splits)

definition default_crawler :: crawler where
  "default_crawler =
     (new_crawler (\<lambda>u. 0) (crawler_config_of (snd (new_config strict_decoder (Some Map.empty)))))\<lparr>cr_seen := cache_set (replicate 20 9) 41 (cache_new [])\<rparr>"

theorem unset_timeout_forgets_all_witness:
  "cache_get (cr_seen (prune_stale_in_flight 42 default_crawler)) (replicate 20 9) = None"
proof (rule unset_timeout_forgets_all[where dec = strict_decoder and given = Map.empty and cv = "\<lambda>x. 0" and t = 41])
  show "wf_crawler (\<lambda>x. 0) default_crawler"
    using new_crawler_wf[of "\<lambda>x. 0" "\<lambda>u. 0" "crawler_config_of (snd (new_config strict_decoder (Some Map.empty)))"]
    by (simp add: default_crawler_def wf_crawler_def new_crawler_def cache_kv.put_ok)
qed (simp_all add: default_crawler_def new_crawler_def in_cooldown_def cache_kv.get_put)

end
