(* ===== verification/Go_Ip.thy ===== *)
theory Go_Ip
  imports Go_Url
begin

section \<open>Textual IP addresses (\<^verbatim>\<open>net.ParseIP\<close>)\<close>

text \<open>
  The result is the 16-byte form, or nothing for text that is no address. IPv4 is four decimal fields without
  leading zeros; IPv6 is up to eight groups of at most four hexadecimal digits, of which one run of zeros
  may be left out, and may end in an IPv4 address.
\<close>

definition v4_field :: "runes \<Rightarrow> byte option" where
  "v4_field s =
     (if s \<noteq> [] \<and> list_all is_digit s \<and> digits_val s \<le> 255 \<and> (length s = 1 \<or> hd s \<noteq> 48)
      then Some (word_of_int (digits_val s)) else None)"

definition v4_fields :: "runes \<Rightarrow> byte list option" where
  "v4_fields s =
     (case map v4_field (split_on 46 s) of
        [Some a, Some b, Some c, Some d] \<Rightarrow> Some [a, b, c, d]
      | _ \<Rightarrow> None)"

text \<open>
  The groups of an IPv6 address from byte \<open>i\<close> on: the bytes so far, the position of the ellipsis, and whether
  all of the text was used.
\<close>

definition hex_prefix :: "runes \<Rightarrow> runes" where
  "hex_prefix s = takeWhile (\<lambda>r. unhex r \<noteq> None) s"

definition hex_val :: "runes \<Rightarrow> int" where
  "hex_val ds = foldl (\<lambda>v r. 16 * v + the (unhex r)) 0 ds"

function v6_groups :: "nat \<Rightarrow> nat option \<Rightarrow> byte list \<Rightarrow> runes \<Rightarrow> (byte list \<times> nat option \<times> runes) option" where
  "v6_groups i ell bs s =
     (if 16 \<le> i then Some (bs, ell, s)
      else
        let ds = hex_prefix s; rest = drop (length ds) s; v = hex_val ds in
        if ds = [] \<or> length ds > 4 then None
        else case rest of
          [] \<Rightarrow> Some (bs @ [word_of_int (v div 256), word_of_int v], ell, [])
        | c # rest' \<Rightarrow>
            if c = 46 then
              (if (ell = None \<and> i \<noteq> 12) \<or> i + 4 > 16 then None
               else map_option (\<lambda>v4. (bs @ v4, ell, [])) (v4_fields s))
            else
              let bs' = bs @ [word_of_int (v div 256), word_of_int v] in
              if c \<noteq> 58 \<or> rest' = [] then None
              else if hd rest' = 58 then
                (if ell \<noteq> None then None
                 else if tl rest' = [] then Some (bs', Some (i + 2), [])
                 else v6_groups (i + 2) (Some (i + 2)) bs' (tl rest'))
              else v6_groups (i + 2) ell bs' rest')"
  by pat_completeness auto
termination by (relation "measure (\<lambda>(i, ell, bs, s). 16 - i)") auto

declare v6_groups.simps [simp del]

definition parse_v6 :: "runes \<Rightarrow> byte list option" where
  "parse_v6 s =
     (let lead = take 2 s = [58, 58]; s' = (if lead then drop 2 s else s) in
      if lead \<and> s' = [] then Some (replicate 16 0)
      else case v6_groups 0 (if lead then Some 0 else None) [] s' of
        None \<Rightarrow> None
      | Some (bs, ell, rest) \<Rightarrow>
          if rest \<noteq> [] then None
          else if length bs < 16 then
            (case ell of
               None \<Rightarrow> None
             | Some e \<Rightarrow> Some (take e bs @ replicate (16 - length bs) 0 @ drop e bs))
          else if ell \<noteq> None then None
          else Some bs)"

definition parse_ip :: "runes \<Rightarrow> ip option" where
  "parse_ip s =
     (case find (\<lambda>r. r = 46 \<or> r = 58 \<or> r = 37) s of
        None \<Rightarrow> None
      | Some r \<Rightarrow>
          if r = 46 then map_option (\<lambda>v4. v4_in_v6_prefix @ v4) (v4_fields s)
          else if r = 58 then (if 37 \<in> set s then None else parse_v6 s)
          else None)"

subsection \<open>IPv4 round trip\<close>

definition show_v4 :: "byte list \<Rightarrow> runes" where
  "show_v4 a = join_with [46] (map (\<lambda>b. nat_digits (unat b)) a)"

lemma nat_digits_short: "n < 256 \<Longrightarrow> length (nat_digits n) = 1 \<or> hd (nat_digits n) \<noteq> 48"
proof -
  have "0 < n \<Longrightarrow> hd (nat_digits n) \<noteq> 48" for n
  proof (induction n rule: nat_digits.induct)
    case (1 n)
    have "nat_digits (n div 10) \<noteq> []" using nat_digits_digits by blast
    with 1 show ?case by (subst nat_digits.simps) auto
  qed
  moreover have "length (nat_digits 0) = 1" by (subst nat_digits.simps) simp
  ultimately show ?thesis by (cases "n = 0") auto
qed

lemma v4_field_show: "v4_field (nat_digits (unat b)) = Some b" for b :: byte
proof -
  have "unat b < 2 ^ LENGTH(8)" by (rule unsigned_less)
  then have b: "unat b < 256" by simp
  moreover have "word_of_int (int (unat b)) = b" by simp
  moreover have "int (unat b) \<le> 255" using b by linarith
  ultimately show ?thesis
    using nat_digits_digits[of "unat b"] nat_digits_short[OF b] by (simp add: v4_field_def del: of_nat_unat)
qed

lemma nat_digits_no_dot: "46 \<notin> set (nat_digits n)"
  using nat_digits_digits[of n] by (auto simp: list_all_iff is_digit_def)

lemma nat_digits_no_mark: "\<forall>r \<in> set (nat_digits n). r \<noteq> 46 \<and> r \<noteq> 58 \<and> r \<noteq> 37"
  using nat_digits_digits[of n] by (auto simp: list_all_iff is_digit_def)

lemma v4_fields_show: "v4_fields (show_v4 [a, b, c, d]) = Some [a, b, c, d]"
  by (simp add: v4_fields_def show_v4_def split_on_append split_on_absent nat_digits_no_dot v4_field_show)

lemma find_append: "\<forall>x \<in> set xs. \<not> P x \<Longrightarrow> find P (xs @ ys) = find P ys"
  by (induction xs) auto

lemma parse_show_v4: "length a = 4 \<Longrightarrow> parse_ip (show_v4 a) = Some (v4_in_v6_prefix @ a)"
proof -
  assume "length a = 4"
  then obtain w x y z where a: "a = [w, x, y, z]" by (auto simp: length_Suc_conv numeral_eq_Suc)
  have "find (\<lambda>r. r = 46 \<or> r = 58 \<or> r = 37) (show_v4 a) = Some 46"
    using nat_digits_no_mark by (simp add: a show_v4_def find_append)
  then show ?thesis using v4_fields_show[of w x y z] by (simp add: parse_ip_def a)
qed

end
