(* ===== verification/Gluetun.thy ===== *)
theory Gluetun
  imports Go_Ip Server
begin

section \<open>Files of the VPN (\<^verbatim>\<open>gluetun\<close>, \<^verbatim>\<open>cmd/serve.go\<close>)\<close>

text \<open>
  Gluetun writes the external address and the forwarded port to files. At start the program waits for each
  file until its content is valid and has been left alone for a while; later it watches both files and stops
  when one changes. A file is read as valid UTF-8 text. The operating system, the file watcher and the
  context are the events a reader waits for.
\<close>

subsection \<open>Reading a settled value\<close>

datatype read_error = Wait_Cancelled | Watcher_Failed | Watch_Failed | Retry_Cancelled | Settle_Cancelled |
  Events_Closed | Errors_Closed

datatype sys_event =
  Stat_Result bool
| Timer
| Context_Done
| Watcher_Created bool
| Watch_Added bool
| File_Read "runes option"
| File_Event bool
| Watcher_Error
| Events_Channel_Closed
| Errors_Channel_Closed

text \<open>
  Where \<^verbatim>\<open>readSettled\<close> waits: for the file, before another look at it, for the watcher, the watch and the
  content, before another attempt, for the file to settle; or it has returned.
\<close>

datatype 'a read_phase = Check_File | Check_Again | Create_Watcher | Add_Watch | Read_Content | Retry | Settle 'a |
  Returned "read_error + 'a"

definition read_step :: "(runes \<Rightarrow> 'a option) \<Rightarrow> duration \<Rightarrow> sys_event \<Rightarrow> 'a read_phase \<Rightarrow> 'a read_phase" where
  "read_step parse settle_time e p =
     (case p of
        Check_File \<Rightarrow> (case e of Stat_Result ok \<Rightarrow> if ok then Create_Watcher else Check_Again | _ \<Rightarrow> p)
      | Check_Again \<Rightarrow> (case e of Timer \<Rightarrow> Check_File | Context_Done \<Rightarrow> Returned (Inl Wait_Cancelled) | _ \<Rightarrow> p)
      | Create_Watcher \<Rightarrow> (case e of Watcher_Created ok \<Rightarrow> if ok then Add_Watch else Returned (Inl Watcher_Failed) | _ \<Rightarrow> p)
      | Add_Watch \<Rightarrow> (case e of Watch_Added ok \<Rightarrow> if ok then Read_Content else Returned (Inl Watch_Failed) | _ \<Rightarrow> p)
      | Read_Content \<Rightarrow> (case e of
            File_Read content \<Rightarrow>
              (case content of
                 None \<Rightarrow> Retry
               | Some s \<Rightarrow>
                   (case parse (trim_space s) of
                      None \<Rightarrow> Retry
                    | Some v \<Rightarrow> if settle_time \<le> 0 then Returned (Inr v) else Settle v))
          | _ \<Rightarrow> p)
      | Retry \<Rightarrow> (case e of Timer \<Rightarrow> Check_File | Context_Done \<Rightarrow> Returned (Inl Retry_Cancelled) | _ \<Rightarrow> p)
      | Settle v \<Rightarrow> (case e of
            Timer \<Rightarrow> Returned (Inr v)
          | File_Event written \<Rightarrow> if written then Check_File else p
          | Events_Channel_Closed \<Rightarrow> Returned (Inl Events_Closed)
          | Errors_Channel_Closed \<Rightarrow> Returned (Inl Errors_Closed)
          | Context_Done \<Rightarrow> Returned (Inl Settle_Cancelled)
          | _ \<Rightarrow> p)
      | Returned r \<Rightarrow> p)"

definition read_settled :: "(runes \<Rightarrow> 'a option) \<Rightarrow> duration \<Rightarrow> sys_event list \<Rightarrow> 'a read_phase" where
  "read_settled parse settle_time es = fold (read_step parse settle_time) es Check_File"

definition parse_port :: "runes \<Rightarrow> int option" where
  "parse_port s = (case atoi_ok s of None \<Rightarrow> None | Some p \<Rightarrow> if p \<le> 0 \<or> p > 65535 then None else Some p)"

definition read_ip :: "duration \<Rightarrow> sys_event list \<Rightarrow> ip read_phase" where
  "read_ip settle_time es = read_settled parse_ip settle_time es"

definition read_forwarded_port :: "duration \<Rightarrow> sys_event list \<Rightarrow> int read_phase" where
  "read_forwarded_port settle_time es = read_settled parse_port settle_time es"

subsection \<open>Watching the files\<close>

datatype watch_outcome = Not_Watching | Watch_Setup_Failed | Restart | Channel_Closed | Shut_Down | Watching

text \<open>The loop over events; a context that is done ends it without a restart.\<close>

fun watch_loop :: "sys_event list \<Rightarrow> watch_outcome" where
  "watch_loop [] = Watching"
| "watch_loop (File_Event written # es) = (if written then Restart else watch_loop es)"
| "watch_loop (Events_Channel_Closed # es) = Channel_Closed"
| "watch_loop (Errors_Channel_Closed # es) = Channel_Closed"
| "watch_loop (Context_Done # es) = Shut_Down"
| "watch_loop (e # es) = watch_loop es"

text \<open>
  \<open>ip_now\<close> and \<open>port_now\<close> are what the files hold when they are read again. A watch that cannot be added is
  only logged: then no event of that file arrives.
\<close>

definition ip_drifted :: "string \<Rightarrow> ip option \<Rightarrow> runes option \<Rightarrow> bool" where
  "ip_drifted ip_file settled_ip ip_now =
     (ip_file \<noteq> [] \<and> (case (settled_ip, ip_now) of
        (Some a, Some s) \<Rightarrow> (case parse_ip (trim_space s) of None \<Rightarrow> True | Some cur \<Rightarrow> \<not> ip_equal cur a)
      | _ \<Rightarrow> False))"

definition port_drifted :: "string \<Rightarrow> int \<Rightarrow> runes option \<Rightarrow> bool" where
  "port_drifted port_file settled_port port_now =
     (port_file \<noteq> [] \<and> settled_port \<noteq> 0 \<and> (case port_now of
        Some s \<Rightarrow> (case atoi_ok (trim_space s) of None \<Rightarrow> True | Some p \<Rightarrow> p \<noteq> settled_port)
      | None \<Rightarrow> False))"

definition watch_files ::
    "string \<Rightarrow> string \<Rightarrow> int \<Rightarrow> ip option \<Rightarrow> bool \<Rightarrow> runes option \<Rightarrow> runes option \<Rightarrow> sys_event list \<Rightarrow> watch_outcome" where
  "watch_files port_file ip_file settled_port settled_ip created ip_now port_now es =
     (if port_file = [] \<and> ip_file = [] then Not_Watching
      else if \<not> created then Watch_Setup_Failed
      else if ip_drifted ip_file settled_ip ip_now then Restart
      else if port_drifted port_file settled_port port_now then Restart
      else watch_loop es)"

subsection \<open>The public address of the VPN (\<^verbatim>\<open>gluetun/client.go\<close>)\<close>

text \<open>A response is its status and the field \<^verbatim>\<open>public_ip\<close> of its JSON body, or nothing if that does not decode.\<close>

datatype ip_fetch_error = Request_Failed | Unexpected_Status int | Bad_Response

definition fetch_public_ip :: "(int \<times> runes option) option \<Rightarrow> ip_fetch_error + runes" where
  "fetch_public_ip response =
     (case response of
        None \<Rightarrow> Inl Request_Failed
      | Some (status, decoded) \<Rightarrow>
          if status \<noteq> 200 then Inl (Unexpected_Status status)
          else case decoded of None \<Rightarrow> Inl Bad_Response | Some s \<Rightarrow> Inr s)"

definition public_ip :: "runes \<Rightarrow> ip option" where
  "public_ip s = parse_ip s"

subsection \<open>Start of the node (\<^verbatim>\<open>cmd/serve.go\<close>)\<close>

text \<open>
  The part of \<^verbatim>\<open>serve\<close> that decides identity and port: the settled address gives an identifier that is written to
  the configuration, the settled port replaces the configured one, and the server is made with both.
  \<open>draw1\<close> and \<open>draw2\<close> are the random bytes of the two derivations.
\<close>

record node_setup =
  ns_config :: dht_config
  ns_port :: int
  ns_ip :: "ip option"

definition prepare_node :: "ip option \<Rightarrow> int option \<Rightarrow> byte \<times> byte list \<Rightarrow> dht_config \<Rightarrow> int \<Rightarrow> node_setup" where
  "prepare_node file_ip file_port draw1 cfg cfg_port =
     \<lparr>ns_config = (case file_ip of
          None \<Rightarrow> cfg
        | Some a \<Rightarrow> cfg\<lparr>c_node_id := node_id_string (derive_node_id_from_ip a (fst draw1) (snd draw1))\<rparr>),
      ns_port = (case file_port of None \<Rightarrow> cfg_port | Some p \<Rightarrow> p),
      ns_ip = file_ip\<rparr>"

definition node_identity :: "node_setup \<Rightarrow> byte \<times> byte list \<Rightarrow> id_error + node_id" where
  "node_identity s draw2 = get_server_node_id (ns_config s) (ns_ip s) (fst draw2) (snd draw2)"


lemma ns_config_prepare:
  "c_node_id (ns_config (prepare_node (Some a) file_port draw1 cfg cfg_port)) =
     node_id_string (derive_node_id_from_ip a (fst draw1) (snd draw1))"
  by (simp add: prepare_node_def)

subsection \<open>What is returned has settled\<close>

lemma read_settled_snoc: "read_settled parse st (es @ [e]) = read_step parse st e (read_settled parse st es)"
  by (simp add: read_settled_def)

text \<open>The last valid content before the events \<open>es\<close> ended, when nothing was written after it.\<close>

definition unwritten_since :: "(runes \<Rightarrow> 'a option) \<Rightarrow> sys_event list \<Rightarrow> 'a \<Rightarrow> bool" where
  "unwritten_since parse es v \<longleftrightarrow> (\<exists>pre s post. es = pre @ File_Read (Some s) # post \<and> parse (trim_space s) = Some v \<and>
     File_Event True \<notin> set post)"

lemma unwritten_snoc: "unwritten_since parse es v \<Longrightarrow> e \<noteq> File_Event True \<Longrightarrow> unwritten_since parse (es @ [e]) v"
  unfolding unwritten_since_def by fastforce

lemma unwritten_read: "parse (trim_space s) = Some v \<Longrightarrow> unwritten_since parse (es @ [File_Read (Some s)]) v"
  unfolding unwritten_since_def by (intro exI[of _ es] exI[of _ s] exI[of _ "[]"]) simp

lemma settling: "read_settled parse st es = Settle v \<Longrightarrow> unwritten_since parse es v \<and> 0 < st"
proof (induction es rule: rev_induct)
  case (snoc e es)
  let ?p = "read_settled parse st es"
  from snoc.prems have step: "read_step parse st e ?p = Settle v" by (simp add: read_settled_snoc)
  show ?case
  proof (cases "?p = Settle v \<and> e \<noteq> File_Event True")
    case True
    with snoc.IH show ?thesis by (simp add: unwritten_snoc)
  next
    case False
    with step obtain s where "e = File_Read (Some s)" "parse (trim_space s) = Some v" "0 < st"
      by (auto simp: read_step_def split: read_phase.splits sys_event.splits option.splits if_splits)
    then show ?thesis by (simp add: unwritten_read)
  qed
qed (simp add: read_settled_def)

text \<open>
  A value is returned only when the file held it (up to white space) at a read, and then, when a settle time is
  set, the timer of that time went off before any write to the file.
\<close>

definition settled_before :: "(runes \<Rightarrow> 'a option) \<Rightarrow> duration \<Rightarrow> sys_event list \<Rightarrow> 'a \<Rightarrow> bool" where
  "settled_before parse st es v \<longleftrightarrow> (\<exists>pre post. es = pre @ post \<and> unwritten_since parse pre v \<and> (0 < st \<longrightarrow> last pre = Timer))"

lemma returned_settled:
  "read_settled parse st es = Returned (Inr v) \<Longrightarrow> settled_before parse st es v"
proof (induction es rule: rev_induct)
  case (snoc e es)
  let ?p = "read_settled parse st es"
  from snoc.prems have step: "read_step parse st e ?p = Returned (Inr v)" by (simp add: read_settled_snoc)
  consider "?p = Returned (Inr v)" | "?p = Settle v" "e = Timer"
    | s where "e = File_Read (Some s)" "parse (trim_space s) = Some v" "st \<le> 0"
    using step by (auto simp: read_step_def split: read_phase.splits sys_event.splits option.splits if_splits)
  then show ?case
  proof cases
    case 1
    with snoc.IH obtain pre post where "es = pre @ post" "unwritten_since parse pre v" "0 < st \<longrightarrow> last pre = Timer"
      unfolding settled_before_def by blast
    then show ?thesis unfolding settled_before_def by (intro exI[of _ pre] exI[of _ "post @ [e]"]) simp
  next
    case 2
    with settling[of parse st es v] show ?thesis
      unfolding settled_before_def by (intro exI[of _ "es @ [Timer]"] exI[of _ "[]"]) (simp add: unwritten_snoc)
  next
    case 3
    then show ?thesis
      unfolding settled_before_def by (intro exI[of _ "es @ [e]"] exI[of _ "[]"]) (simp add: unwritten_read)
  qed
qed (simp add: read_settled_def)

text \<open>
  A forwarded port that is used is in the range of ports; the file held it, and when a settle time is set,
  the timer of that time went off after the file was read and before any write to it was seen.
\<close>

theorem port_settled:
  assumes "read_forwarded_port st es = Returned (Inr p)"
  shows "1 \<le> p \<and> p \<le> 65535 \<and> settled_before parse_port st es p"
proof -
  from returned_settled assms have s: "settled_before parse_port st es p" by (simp add: read_forwarded_port_def)
  then obtain t where "parse_port t = Some p" unfolding settled_before_def unwritten_since_def by blast
  then have "1 \<le> p \<and> p \<le> 65535" by (auto simp: parse_port_def split: option.splits if_splits)
  with s show ?thesis by blast
qed

definition sample_port_events :: "sys_event list" where
  "sample_port_events =
     [Stat_Result False, Timer, Stat_Result True, Watcher_Created True, Watch_Added True, File_Read (Some (asc ''0'')), Timer,
      Stat_Result True, Watcher_Created True, Watch_Added True, File_Read (Some (asc ''6881 '')), File_Event True,
      Stat_Result True, Watcher_Created True, Watch_Added True, File_Read (Some (asc ''6882 '')), File_Event False, Timer]"

lemma sample_port: "read_forwarded_port 5 sample_port_events = Returned (Inr 6882)"
  by code_simp

theorem port_settled_witness: "settled_before parse_port 5 sample_port_events 6882"
  using port_settled[OF sample_port] by blast

subsection \<open>A settled file is read\<close>

text \<open>Whenever the file is looked at and found, can be watched, and holds a valid value that is left alone, it is returned.\<close>

lemma settled_is_returned:
  assumes "read_settled parse st es = Check_File" and "parse (trim_space s) = Some v"
  shows "read_settled parse st (es @ [Stat_Result True, Watcher_Created True, Watch_Added True, File_Read (Some s), Timer]) =
    Returned (Inr v)"
proof -
  have "read_settled parse st (es @ fs) = fold (read_step parse st) fs (read_settled parse st es)" for fs
    by (simp add: read_settled_def)
  then show ?thesis using assms by (simp add: read_step_def)
qed

lemma returned_stays: "read_settled parse st es = Returned r \<Longrightarrow> read_settled parse st (es @ fs) = Returned r"
  by (induction fs rule: rev_induct) (simp_all add: read_settled_snoc read_step_def flip: append_assoc)

subsection \<open>The watch restarts on a change only\<close>

definition ends_watch :: "sys_event \<Rightarrow> bool" where
  "ends_watch e \<longleftrightarrow> e \<in> {Events_Channel_Closed, Errors_Channel_Closed, Context_Done}"

lemma first_split_Cons:
  "(\<exists>pre post. y # ys = pre @ x # post \<and> list_all P pre) \<longleftrightarrow>
     y = x \<or> P y \<and> (\<exists>pre post. ys = pre @ x # post \<and> list_all P pre)" (is "?L \<longleftrightarrow> ?R")
proof
  assume ?L
  then obtain pre post where e: "y # ys = pre @ x # post" and p: "list_all P pre" by blast
  from e p show ?R by (cases pre) auto
next
  assume r: ?R
  show ?L
  proof (cases "y = x")
    case True
    then show ?thesis by (intro exI[of _ "[]"] exI[of _ ys]) simp
  next
    case False
    with r obtain pre post where "P y" "ys = pre @ x # post" "list_all P pre" by blast
    then show ?thesis by (intro exI[of _ "y # pre"] exI[of _ post]) simp
  qed
qed

lemma watch_loop_restart:
  "watch_loop es = Restart \<longleftrightarrow> (\<exists>pre post. es = pre @ File_Event True # post \<and> list_all (\<lambda>e. \<not> ends_watch e) pre)"
  by (induction es rule: watch_loop.induct) (simp_all only: first_split_Cons, simp_all add: ends_watch_def)

text \<open>
  The program is stopped for a restart exactly when a watched file no longer holds what was settled on, or a
  write to it is seen before the watch ends.
\<close>

theorem watch_restarts_iff:
  "watch_files port_file ip_file settled_port settled_ip created ip_now port_now es = Restart \<longleftrightarrow>
     (port_file \<noteq> [] \<or> ip_file \<noteq> []) \<and> created \<and>
     (ip_drifted ip_file settled_ip ip_now \<or> port_drifted port_file settled_port port_now \<or>
      (\<exists>pre post. es = pre @ File_Event True # post \<and> list_all (\<lambda>e. \<not> ends_watch e) pre))"
  by (auto simp: watch_files_def watch_loop_restart)

subsection \<open>The identity of the node\<close>

text \<open>
  The identity of a node started with an address file is the one BEP-42 allows for the address the file has
  settled on, whatever the configuration says.
\<close>

theorem startup_identity:
  assumes "read_ip st es = Returned (Inr a)" and "to4 a = Some v4" and "length (snd draw2) = 20"
  shows "\<exists>i. node_identity (prepare_node (Some a) file_port draw1 cfg cfg_port) draw2 = Inr i \<and>
    wf_id i \<and> validate_node_id_for_ip a i = Inr () \<and> settled_before parse_ip st es a"
proof -
  from returned_settled assms(1) have "settled_before parse_ip st es a" by (simp add: read_ip_def)
  with derived_id_validates[OF assms(2,2,3)] show ?thesis
    by (simp add: node_identity_def prepare_node_def get_server_node_id_def)
qed

definition sample_ip_events :: "sys_event list" where
  "sample_ip_events =
     [Stat_Result True, Watcher_Created True, Watch_Added True, File_Read (Some (asc ''192.0.2.7'')), Timer]"

lemma sample_ip: "read_ip 5 sample_ip_events = Returned (Inr (v4_in_v6_prefix @ [192, 0, 2, 7]))"
  by code_simp

definition sample_config :: dht_config where
  "sample_config =
     \<lparr>c_node_id = [], c_discovery_buffer = 1, c_token_rotation = 1, c_store_entries = 1, c_store_peers = 1, c_store_ttl = 1,
      c_limiter_size = 1, c_timeout = 1, c_max_nodes = 8, c_max_peers = 8, c_bucket_size = 8, c_bad_failures = 2, c_stale = 1,
      c_sample_interval = 1, c_warm_threshold = 1\<rparr>"

theorem startup_identity_witness:
  "\<exists>i. node_identity (prepare_node (Some (v4_in_v6_prefix @ [192, 0, 2, 7])) (Some 6881) (0, replicate 20 1) sample_config 1)
        (7, replicate 20 9) = Inr i \<and> wf_id i \<and>
    validate_node_id_for_ip (v4_in_v6_prefix @ [192, 0, 2, 7]) i = Inr () \<and>
    settled_before parse_ip 5 sample_ip_events (v4_in_v6_prefix @ [192, 0, 2, 7])"
  by (rule startup_identity[OF sample_ip, of "[192, 0, 2, 7]" "(7, replicate 20 9)"]) (simp_all add: to4_def v4_in_v6_prefix_def)

text \<open>
  The identifier that the start-up code derives, logs and writes to the configuration is not the one of the
  server: the server derives again, with other random bytes.
\<close>

theorem logged_id_not_used:
  "\<exists>draw1 draw2 i. node_identity (prepare_node (Some [192, 0, 2, 7]) None draw1 sample_config 6881) draw2 = Inr i \<and>
     c_node_id (ns_config (prepare_node (Some [192, 0, 2, 7]) None draw1 sample_config 6881)) \<noteq> node_id_string i"
proof (intro exI conjI)
  show "node_identity (prepare_node (Some [192, 0, 2, 7]) None (0, replicate 20 1) sample_config 6881) (0, replicate 20 2) =
      Inr (derive_node_id_from_ip [192, 0, 2, 7] 0 (replicate 20 2))"
    by (simp add: node_identity_def prepare_node_def get_server_node_id_def)
  let ?i = "\<lambda>b. derive_node_id_from_ip [192, 0, 2, 7] 0 (replicate 20 b)"
  have v4: "to4 [192, 0, 2, 7] = Some [192, 0, 2, 7]" by (simp add: to4_def)
  from derived_id_validates[OF v4 v4, of "replicate 20 b" 0 for b]
  have wf: "wf_id (?i b)" "?i b ! 3 = b" for b by simp_all
  have "?i 1 ! 3 \<noteq> ?i 2 ! 3" by (simp add: wf(2))
  then have "?i 1 \<noteq> ?i 2" by metis
  with node_id_text_roundtrip[OF wf(1)] show
    "c_node_id (ns_config (prepare_node (Some [192, 0, 2, 7]) None (0, replicate 20 1) sample_config 6881)) \<noteq> node_id_string (?i 2)"
    by (metis fst_conv snd_conv sum.inject(2) ns_config_prepare)
qed

text \<open>
  An IPv6 address in the file is accepted, and gives every such node the same identifier, all zero, without an
  error.
\<close>

theorem ipv6_identity_is_zero:
  "\<exists>a. read_ip 0 [Stat_Result True, Watcher_Created True, Watch_Added True, File_Read (Some (asc ''2001:db8::7''))] =
        Returned (Inr a) \<and>
     (\<forall>file_port draw1 cfg cfg_port draw2. node_identity (prepare_node (Some a) file_port draw1 cfg cfg_port) draw2 = Inr zero_id)"
proof (intro exI conjI)
  let ?a = "[0x20, 0x01, 0x0d, 0xb8, 0, 0, 0, 0, 0, 0, 0, 0, 0, 0, 0, 7] :: ip"
  show "read_ip 0 [Stat_Result True, Watcher_Created True, Watch_Added True, File_Read (Some (asc ''2001:db8::7''))] =
      Returned (Inr ?a)"
    by code_simp
  show "\<forall>file_port draw1 cfg cfg_port draw2. node_identity (prepare_node (Some ?a) file_port draw1 cfg cfg_port) draw2 = Inr zero_id"
    by (simp add: node_identity_def prepare_node_def get_server_node_id_def derive_node_id_from_ip_def to4_def v4_in_v6_prefix_def)
qed

end
