(* ===== verification/Serve.thy ===== *)
theory Serve
  imports Settings Program Gluetun
begin

section \<open>The start of the program (\<^verbatim>\<open>cmd/serve.go\<close>)\<close>

text \<open>
  \<^verbatim>\<open>serve\<close> reads the configuration, waits for the files of the VPN, connects to the database, makes the DHT system and
  starts the services one after another, with an early return for every failure. What the environment answers is in a
  record; the services that have been started when it returns are part of the result.
\<close>

datatype serve_error = Bad_Config config_error | No_Address read_error | No_Port read_error | No_Database | No_Recorder |
  No_Socket | No_System id_error | Migration_Failed | Interrupted | No_Tracker_Client tracker_error

datatype service = Health_Server | Metrics_Server | File_Watcher | Dht_Parts | Index_Parts | Scrape_Loops | Api_Server

record 'b serve_env =
  se_settings :: "settings option"
  se_address :: "read_error + ip"
  se_port :: "read_error + int"
  se_connects :: bool
  se_registers :: bool
  se_listens :: "int \<Rightarrow> bool"
  se_migrates :: bool
  se_interrupted :: bool
  se_logged_draw :: "byte \<times> byte list"
  se_draw :: "byte \<times> byte list"
  se_secrets :: "byte list \<times> byte list"
  se_fresh_filter :: 'b
  se_now :: instant
  se_clock :: "unit \<Rightarrow> instant"

text \<open>A file that is not configured is not waited for.\<close>

definition wait_for :: "string \<Rightarrow> 'e + 'a \<Rightarrow> 'e + 'a option" where
  "wait_for file answer = (if file = [] then Inr None else case answer of Inl e \<Rightarrow> Inl e | Inr v \<Rightarrow> Inr (Some v))"

definition serve_system :: "'b serve_env \<Rightarrow> config \<Rightarrow> node_setup \<Rightarrow> serve_error + ('b, 'l) dht_system option" where
  "serve_system env c node =
     (if \<not> cfg_bool c ''crawler.enabled'' then Inr None
      else if \<not> se_listens env (ns_port node) then Inl No_Socket
      else case new_system ((system_config_of c)\<lparr>sc_dht := ns_config node\<rparr>) (ns_ip node) (se_fresh_filter env) (se_now env)
          (se_clock env) (fst (se_draw env)) (snd (se_draw env)) (fst (se_secrets env)) (snd (se_secrets env)) of
        Inl e \<Rightarrow> Inl (No_System e)
      | Inr sy \<Rightarrow> Inr (Some sy))"

definition start_services ::
    "(string \<Rightarrow> (string \<times> string) option) \<Rightarrow> 'b serve_env \<Rightarrow> config \<Rightarrow> ('b, 'l) dht_system option \<Rightarrow>
     service list \<times> (serve_error + ('b, 'l) dht_system option)" where
  "start_services parse_url env c sy =
     (let ss = [Health_Server, Metrics_Server] in
      if \<not> se_migrates env then (ss, Inl Migration_Failed)
      else if se_interrupted env then (ss, Inl Interrupted)
      else
        let ss = ss @ [File_Watcher];
            api = (if cfg_bool c ''server.api_enabled'' then [Api_Server] else [])
        in case sy of
             None \<Rightarrow> (ss @ api, Inr None)
           | Some s \<Rightarrow>
               (case new_scrape_client parse_url (list_in (map_of c ''scrape.trackers'')) of
                  Inl e \<Rightarrow> (ss, Inl (No_Tracker_Client e))
                | Inr addrs \<Rightarrow> (ss @ [Dht_Parts, Index_Parts, Scrape_Loops] @ api, Inr sy)))"

definition run_serve ::
    "decoder \<Rightarrow> (string \<Rightarrow> (string \<times> string) option) \<Rightarrow> 'b serve_env \<Rightarrow>
     service list \<times> (serve_error + ('b, 'l) dht_system option)" where
  "run_serve dec parse_url env =
     (case new_config dec (se_settings env) of
        (Some e, c) \<Rightarrow> ([], Inl (Bad_Config e))
      | (None, c) \<Rightarrow>
          (case wait_for (cfg_text c ''dht.external_ip_file'') (se_address env) of
             Inl e \<Rightarrow> ([], Inl (No_Address e))
           | Inr a \<Rightarrow>
               (case wait_for (cfg_text c ''dht.forwarded_port_file'') (se_port env) of
                  Inl e \<Rightarrow> ([], Inl (No_Port e))
                | Inr p \<Rightarrow>
                    if \<not> se_connects env then ([], Inl No_Database)
                    else if \<not> se_registers env then ([], Inl No_Recorder)
                    else
                      let node = prepare_node a p (se_logged_draw env) (dht_config_of c) (cfg_int c ''dht.port'') in
                      case serve_system env c node of
                        Inl e \<Rightarrow> ([], Inl e)
                      | Inr sy \<Rightarrow> start_services parse_url env c sy)))"

subsection \<open>What runs when\<close>

text \<open>The ways through \<^verbatim>\<open>serve\<close> that start a service.\<close>

lemma serve_started:
  assumes "run_serve dec parse_url env = (ss, r)" and "ss \<noteq> []"
  obtains c a p sy where "new_config dec (se_settings env) = (None, c)"
    and "wait_for (cfg_text c ''dht.external_ip_file'') (se_address env) = Inr a" and "se_connects env" and "se_registers env"
    and "serve_system env c (prepare_node a p (se_logged_draw env) (dht_config_of c) (cfg_int c ''dht.port'')) = Inr sy"
    and "start_services parse_url env c sy = (ss, r)"
  using assms by (auto simp: run_serve_def Let_def split: prod.splits option.splits sum.splits if_splits)

lemma serve_unstarted: "run_serve dec parse_url env = ([], r) \<Longrightarrow> \<exists>e. r = Inl e"
  by (auto simp: run_serve_def start_services_def Let_def split: prod.splits option.splits sum.splits if_splits; metis)

definition needs_schema :: "service \<Rightarrow> bool" where
  "needs_schema s \<longleftrightarrow> s = Dht_Parts \<or> s = Index_Parts \<or> s = Scrape_Loops \<or> s = Api_Server"

lemma start_services_ordered:
  assumes "start_services parse_url env c sy = (ss, r)"
  shows "distinct ss \<and> ((\<exists>s \<in> set ss. needs_schema s) \<longrightarrow> se_migrates env \<and> \<not> se_interrupted env \<and> (\<exists>sy'. r = Inr sy')) \<and>
    (Scrape_Loops \<in> set ss \<longleftrightarrow> (\<exists>sy'. r = Inr (Some sy')))"
  using assms by (auto simp: start_services_def needs_schema_def Let_def split: if_splits option.splits sum.splits)

lemma serve_ordered:
  assumes s: "run_serve dec parse_url env = (ss, r)"
  shows "distinct ss \<and>
    ((\<exists>s \<in> set ss. needs_schema s) \<longrightarrow> se_connects env \<and> se_migrates env \<and> \<not> se_interrupted env \<and> (\<exists>sy. r = Inr sy)) \<and>
    (Scrape_Loops \<in> set ss \<longleftrightarrow> (\<exists>sy. r = Inr (Some sy)))"
proof (cases "ss = []")
  case True
  with s have "\<exists>e. r = Inl e" using serve_unstarted by blast
  with True show ?thesis by auto
next
  case False
  from serve_started[OF s False] obtain c sy where "se_connects env" "start_services parse_url env c sy = (ss, r)" .
  with start_services_ordered[of parse_url env c sy ss r] show ?thesis by simp
qed

text \<open>
  Every service is started at most once. The services that use the tables (DHT system, indexer, scraper, API) are started
  only if the database is connected and migrated and nothing has failed; the scraper exactly if there is a DHT system.
\<close>

theorem services_after_migration:
  "case run_serve dec parse_url env :: service list \<times> (serve_error + ('b, 'l) dht_system option) of (ss, r) \<Rightarrow>
     distinct ss \<and>
     ((\<exists>s \<in> set ss. needs_schema s) \<longrightarrow> se_connects env \<and> se_migrates env \<and> \<not> se_interrupted env \<and> (\<exists>sy. r = Inr sy)) \<and>
     (Scrape_Loops \<in> set ss \<longleftrightarrow> (\<exists>sy. r = Inr (Some sy)))"
proof -
  obtain ss and r :: "serve_error + ('b, 'l) dht_system option" where s: "run_serve dec parse_url env = (ss, r)" by fastforce
  with serve_ordered[OF s] show ?thesis by simp
qed

lemma config_of_serve: "new_config dec (Some given) = (None, c) \<Longrightarrow> c = snd (new_config dec (Some given))"
  by simp

lemma startup_fields:
  "map_of config_fields ''crawler.enabled'' = Some Bool_Kind" "map_of config_fields ''scrape.trackers'' = Some List_Kind"
  "map_of defaults ''scrape.trackers'' = Some (List_Value [])"
  "map_of config_fields ''dht.external_ip_file'' = Some Text_Kind" "map_of config_fields ''dht.forwarded_port_file'' = Some Text_Kind"
  by code_simp+

lemma given_value: "keeps_kind dec \<Longrightarrow> given k = Some v \<Longrightarrow> kind_of v = kd \<Longrightarrow> field_value dec given k kd = v"
  by (auto simp: field_value_def viper_get_def keeps_kind_def)

lemma default_list:
  "keeps_kind dec \<Longrightarrow> given k = None \<Longrightarrow> map_of defaults k = Some (List_Value ss) \<Longrightarrow> field_value dec given k List_Kind = List_Value ss"
  by (simp add: field_value_def viper_get_def keeps_kind_def split: option.split) (metis kind_of.simps(5) option.inject option.distinct(1))

text \<open>
  C39. With the crawler enabled and the list of trackers left at its default, \<^verbatim>\<open>serve\<close> never succeeds, whatever the other
  settings are and whatever the environment does: the tracker client refuses an empty list, after all that comes before it.
\<close>

theorem crawler_needs_trackers:
  assumes "se_settings env = Some given" and "keeps_kind dec" and "given ''scrape.trackers'' = None"
    and "given ''crawler.enabled'' = Some (Bool_Value True)"
  shows "\<exists>ss e. run_serve dec parse_url env = (ss, Inl e :: serve_error + ('b, 'l) dht_system option) \<and> (\<forall>s \<in> set ss. \<not> needs_schema s)"
proof -
  obtain ss and r :: "serve_error + ('b, 'l) dht_system option" where s: "run_serve dec parse_url env = (ss, r)" by fastforce
  have "\<exists>e. r = Inl e"
  proof (rule ccontr)
    assume ok: "\<nexists>e. r = Inl e"
    with s have "ss \<noteq> []" using serve_unstarted by blast
    from serve_started[OF s this] obtain c a p sy where c: "new_config dec (Some given) = (None, c)"
        and sy: "serve_system env c (prepare_node a p (se_logged_draw env) (dht_config_of c) (cfg_int c ''dht.port'')) = Inr sy"
        and start: "start_services parse_url env c sy = (ss, r)"
      unfolding assms(1) .
    have "cfg_bool c ''crawler.enabled''" "list_in (map_of c ''scrape.trackers'') = []"
      unfolding config_of_serve[OF c]
      by (simp_all add: config_field startup_fields given_value[where given = given and k = "''crawler.enabled''", OF assms(2,4)]
          default_list[where given = given and k = "''scrape.trackers''", OF assms(2,3)])
    with sy start ok show False
      by (auto simp: serve_system_def start_services_def new_scrape_client_def Let_def split: if_splits sum.splits)
  qed
  with serve_ordered[OF s] s show ?thesis by auto
qed

subsection \<open>What a started program does\<close>

lemma serve_system_new:
  assumes "run_serve dec parse_url env = (ss, Inr (Some sy))"
  obtains c a p where "new_config dec (se_settings env) = (None, c)"
    and "wait_for (cfg_text c ''dht.external_ip_file'') (se_address env) = Inr a"
    and "new_system ((system_config_of c)\<lparr>sc_dht := ns_config (prepare_node a p (se_logged_draw env) (dht_config_of c) (cfg_int c ''dht.port''))\<rparr>)
      a (se_fresh_filter env) (se_now env) (se_clock env) (fst (se_draw env)) (snd (se_draw env))
      (fst (se_secrets env)) (snd (se_secrets env)) = Inr sy"
proof -
  from serve_ordered[OF assms] have "ss \<noteq> []" by auto
  from serve_started[OF assms this] obtain c a p sy' where c: "new_config dec (se_settings env) = (None, c)"
      and a: "wait_for (cfg_text c ''dht.external_ip_file'') (se_address env) = Inr a"
      and sy: "serve_system env c (prepare_node a p (se_logged_draw env) (dht_config_of c) (cfg_int c ''dht.port'')) = Inr sy'"
      and start: "start_services parse_url env c sy' = (ss, Inr (Some sy))" .
  from start have "sy' = Some sy" by (auto simp: start_services_def Let_def split: if_splits option.splits sum.splits)
  with sy that[OF c a] show thesis
    by (auto simp: serve_system_def prepare_node_def split: if_splits sum.splits)
qed

lemma prepared_sizes:
  "c_bucket_size (ns_config (prepare_node a p d cfg n)) = c_bucket_size cfg"
  "c_store_peers (ns_config (prepare_node a p d cfg n)) = c_store_peers cfg"
  by (simp_all add: prepare_node_def split: option.split)

text \<open>
  C7. A program started by \<^verbatim>\<open>serve\<close> with the crawler, from settings in which no count is negative and the bucket size, the
  size of a peer list and the number of crawler iterations are positive (as they are by default): whatever its parts do
  then, the database meets its schema, every torrent in it comes from metadata with its infohash, which the DHT has
  discovered, and the DHT system is sound. If an address file is configured and has an IPv4 address, the node has an
  identifier that BEP-42 allows for that address (for an IPv6 address it does not).
\<close>

theorem serve_sound:
  assumes "run_serve dec parse_url env = (ss, Inr (Some sy0))" and "cfg = snd (new_config dec (se_settings env))"
    and "counts_ok cfg" and "0 < c_bucket_size (dht_config_of cfg)" and "0 < c_store_peers (dht_config_of cfg)"
    and "0 < cc_max_iterations (crawler_config_of cfg)" and "length (snd (se_draw env)) = 20"
    and "program_reachable lib cv ctr b sy0 pg"
  shows "system_ok cv (pg_system pg) \<and> db_ok (pg_catalog pg) \<and> sourced b (pg_taken pg) (program_db pg) \<and>
    (case se_address env of
       Inr a \<Rightarrow> cfg_text cfg ''dht.external_ip_file'' \<noteq> [] \<and> to4 a \<noteq> None \<longrightarrow>
         validate_node_id_for_ip a (s_id (sy_server sy0)) = Inr ()
     | Inl e \<Rightarrow> True)"
proof -
  from serve_system_new[OF assms(1)] obtain c a p where c: "new_config dec (se_settings env) = (None, c)"
    and a: "wait_for (cfg_text c ''dht.external_ip_file'') (se_address env) = Inr a"
    and sy: "new_system ((system_config_of c)\<lparr>sc_dht := ns_config (prepare_node a p (se_logged_draw env) (dht_config_of c) (cfg_int c ''dht.port''))\<rparr>)
      a (se_fresh_filter env) (se_now env) (se_clock env) (fst (se_draw env)) (snd (se_draw env))
      (fst (se_secrets env)) (snd (se_secrets env)) = Inr sy0" .
  have cfg: "cfg = c" using c assms(2) by simp
  have "system_ok cv sy0"
    using assms(4-6) unfolding cfg
    by (intro new_system_ok[OF sy assms(7)]) (simp_all add: prepared_sizes system_config_of_def)
  with program_reachable_ok assms(8) reachable_ok have "program_ok cv b pg" "db_ok (pg_catalog pg)"
    unfolding program_ok_def by blast+
  moreover have "validate_node_id_for_ip x (s_id (sy_server sy0)) = Inr ()"
    if "se_address env = Inr x" "cfg_text c ''dht.external_ip_file'' \<noteq> []" "to4 x \<noteq> None" for x
  proof -
    from that a have "a = Some x" by (simp add: wait_for_def)
    moreover from that(3) obtain v where v: "to4 x = Some v" by blast
    ultimately show ?thesis
      using sy derived_id_validates[OF v v assms(7), of "fst (se_draw env)"]
      by (auto simp: new_system_def new_server_def get_server_node_id_def Let_def)
  qed
  ultimately show ?thesis unfolding cfg by (auto simp: program_ok_def split: sum.split)
qed

subsection \<open>A concrete start\<close>

definition sample_settings :: settings where
  "sample_settings = Map.empty(''crawler.enabled'' \<mapsto> Bool_Value True, ''dht.external_ip_file'' \<mapsto> Text_Value ''/tmp/ip'')"

definition sample_given :: settings where
  "sample_given = sample_settings(''scrape.trackers'' \<mapsto> List_Value [''udp://tracker:1''])"

definition sample_serve_env :: "info_hash list serve_env" where
  "sample_serve_env =
     \<lparr>se_settings = Some sample_given, se_address = Inr [192, 0, 2, 7],
      se_port = Inr 6881, se_connects = True, se_registers = True, se_listens = (\<lambda>p. True), se_migrates = True,
      se_interrupted = False, se_logged_draw = (0, replicate 20 1), se_draw = (0, replicate 20 2),
      se_secrets = (replicate 8 1, replicate 8 2), se_fresh_filter = [], se_now = 0, se_clock = (\<lambda>u. 0)\<rparr>"

definition sample_parse_url :: "string \<Rightarrow> (string \<times> string) option" where
  "sample_parse_url u = Some (''udp'', ''tracker:1'')"

theorem crawler_needs_trackers_witness:
  "\<exists>ss e. run_serve strict_decoder sample_parse_url (sample_serve_env\<lparr>se_settings := Some sample_settings\<rparr>) =
    (ss, Inl e :: serve_error + (info_hash list, nat) dht_system option)"
  using crawler_needs_trackers[where given = sample_settings, OF _ strict_decoder_keeps,
      of "sample_serve_env\<lparr>se_settings := Some sample_settings\<rparr>" sample_parse_url]
  by (fastforce simp: sample_settings_def)

abbreviation sample_config_read :: config where
  "sample_config_read \<equiv> snd (new_config strict_decoder (Some sample_given))"

lemma startup_defaults:
  "map_of defaults ''dht.external_ip_file'' = None" "map_of defaults ''dht.forwarded_port_file'' = None"
  "map_of config_fields ''dht.node_id'' = Some Text_Kind" "map_of defaults ''dht.node_id'' = Some (Text_Value [])"
  by code_simp+

lemma sample_config_read:
  "cfg_text sample_config_read ''dht.external_ip_file'' = ''/tmp/ip''" "cfg_text sample_config_read ''dht.forwarded_port_file'' = []"
  "cfg_text sample_config_read ''dht.node_id'' = []" "cfg_bool sample_config_read ''crawler.enabled''"
  "list_in (map_of sample_config_read ''scrape.trackers'') = [''udp://tracker:1'']"
  by (simp_all add: config_field startup_fields startup_defaults field_value_def viper_get_def strict_decoder_def
      sample_given_def sample_settings_def)

lemma sample_config_new: "new_config strict_decoder (Some sample_given) = (None, sample_config_read)"
proof -
  have "\<not> unmarshal_fails strict_decoder sample_given" by code_simp
  with sample_config_read(3) show ?thesis by (simp add: new_config_def Let_def)
qed

lemma sample_serve:
  "\<exists>ss sy. run_serve strict_decoder sample_parse_url sample_serve_env = (ss, Inr (Some sy :: (info_hash list, nat) dht_system option))"
proof -
  obtain c where c: "new_config strict_decoder (Some sample_given) = (None, c)" using sample_config_new by blast
  note read = sample_config_read[unfolded c snd_conv]
  have "\<exists>sy. serve_system sample_serve_env c
      (prepare_node (Some [192, 0, 2, 7]) None (0, replicate 20 1) (dht_config_of c) (cfg_int c ''dht.port'')) =
      Inr (Some (sy :: (info_hash list, nat) dht_system))"
    using read(4) by (simp add: serve_system_def sample_serve_env_def prepare_node_def new_system_def new_server_def get_server_node_id_def)
  then obtain sy where sy: "serve_system sample_serve_env c
      (prepare_node (Some [192, 0, 2, 7]) None (0, replicate 20 1) (dht_config_of c) (cfg_int c ''dht.port'')) =
      Inr (Some (sy :: (info_hash list, nat) dht_system))" ..
  have "\<exists>ss. start_services sample_parse_url sample_serve_env c (Some sy) = (ss, Inr (Some sy))"
    using read(5) by (simp add: start_services_def sample_serve_env_def new_scrape_client_def map_filter_simps parse_udp_addr_def
        sample_parse_url_def Let_def)
  moreover have "run_serve strict_decoder sample_parse_url sample_serve_env = start_services sample_parse_url sample_serve_env c (Some sy)"
    using sy read(1,2) c by (simp add: run_serve_def sample_serve_env_def wait_for_def Let_def)
  ultimately show ?thesis by auto
qed

theorem serve_sound_witness:
  "\<exists>ss sy. run_serve strict_decoder sample_parse_url sample_serve_env = (ss, Inr (Some (sy :: (info_hash list, nat) dht_system))) \<and>
     db_ok (pg_catalog (new_program sy)) \<and> validate_node_id_for_ip [192, 0, 2, 7] (s_id (sy_server sy)) = Inr ()"
proof -
  obtain ss and sy :: "(info_hash list, nat) dht_system"
    where s: "run_serve strict_decoder sample_parse_url sample_serve_env = (ss, Inr (Some sy))" using sample_serve by blast
  have "counts_ok (snd (new_config strict_decoder (Some sample_given)))"
    by (rule default_counts_ok[OF strict_decoder_keeps]) (simp add: count_keys_def sample_given_def sample_settings_def)
  moreover have "0 < c_bucket_size (dht_config_of sample_config_read)" "0 < c_store_peers (dht_config_of sample_config_read)"
    "0 < cc_max_iterations (crawler_config_of sample_config_read)"
    by (simp_all add: dht_config_of_def crawler_config_of_def config_field default_fields default_int[OF strict_decoder_keeps]
        sample_given_def sample_settings_def)
  moreover have "program_reachable sample_libs (\<lambda>x. 0) (\<lambda>v. True) sample_bencode sy (new_program sy)" by (rule serve_starts)
  ultimately show ?thesis
    using serve_sound[OF s refl, of sample_libs "\<lambda>x. 0" "\<lambda>v. True" sample_bencode "new_program sy"] s sample_config_read(1)
    by (auto simp: sample_serve_env_def to4_def)
qed

end
