(* ===== verification/Commands.thy ===== *)
theory Commands
  imports Gluetun
begin

section \<open>Commands and health checks (\<^verbatim>\<open>cmd/nodeid.go\<close>, \<^verbatim>\<open>health/health.go\<close>)\<close>

text \<open>
  The two commands about node identifiers, with the address as it is typed, and what the health server answers. The listener
  and the JSON encoder of the health server are libraries.
\<close>

subsection \<open>Identifiers\<close>

text \<open>\<^verbatim>\<open>net.ParseIP\<close> gives nil for a text that is no address, and nil has no bytes.\<close>

definition ip_or_nil :: "runes \<Rightarrow> ip" where
  "ip_or_nil s = (case parse_ip s of None \<Rightarrow> [] | Some a \<Rightarrow> a)"

definition generate_node_id :: "runes \<Rightarrow> byte \<times> byte list \<Rightarrow> string" where
  "generate_node_id external_ip draw = node_id_string (derive_node_id_from_ip (ip_or_nil external_ip) (fst draw) (snd draw))"

datatype verdict = Bad_Address | Bad_Node_Id id_error | Mismatch bep42_error | Valid

definition validate_node_id :: "runes \<Rightarrow> string \<Rightarrow> verdict" where
  "validate_node_id external_ip node_id =
     (case parse_ip external_ip of
        None \<Rightarrow> Bad_Address
      | Some a \<Rightarrow>
          (case parse_node_id_hex node_id of
             Inl e \<Rightarrow> Bad_Node_Id e
           | Inr i \<Rightarrow>
               (case validate_node_id_for_ip a i of
                  Inl e \<Rightarrow> Mismatch e
                | Inr u \<Rightarrow> Valid)))"

definition is_v4 :: "runes \<Rightarrow> bool" where
  "is_v4 s = (case parse_ip s of None \<Rightarrow> False | Some a \<Rightarrow> to4 a \<noteq> None)"

text \<open>
  The identifier generated for a text is one that the other command accepts for it exactly if the text is an IPv4 address.
  For any other text, no address or an IPv6 one, the generated identifier is forty zeroes, without an error.
\<close>

theorem generated_id_accepted:
  assumes "length (snd draw) = 20"
  shows "(if is_v4 s then validate_node_id s (generate_node_id s draw) = Valid
     else generate_node_id s draw = replicate 40 (CHR ''0'') \<and> validate_node_id s (generate_node_id s draw) \<noteq> Valid)"
proof (cases "is_v4 s")
  case True
  then obtain a b where a: "parse_ip s = Some a" "to4 a = Some b" by (auto simp: is_v4_def split: option.splits)
  from derived_id_validates[OF a(2,2) assms, of "fst draw"] node_id_text_roundtrip
  show ?thesis by (simp add: True validate_node_id_def generate_node_id_def ip_or_nil_def a)
next
  case False
  then have "to4 (ip_or_nil s) = None" by (auto simp: is_v4_def ip_or_nil_def to4_def v4_in_v6_prefix_def split: option.splits)
  then have g: "derive_node_id_from_ip (ip_or_nil s) (fst draw) (snd draw) = zero_id" by (simp add: derive_node_id_from_ip_def)
  have "node_id_string zero_id = replicate 40 (CHR ''0'')" by code_simp
  moreover have "validate_node_id s t \<noteq> Valid" for t
    using False by (auto simp: validate_node_id_def is_v4_def validate_node_id_for_ip_def split: option.splits sum.splits)
  ultimately show ?thesis using False g by (simp add: generate_node_id_def)
qed

theorem generated_id_accepted_witness:
  "validate_node_id (asc ''192.0.2.7'') (generate_node_id (asc ''192.0.2.7'') (3, replicate 20 9)) = Valid \<and>
   generate_node_id (asc ''2001:db8::7'') (3, replicate 20 9) = replicate 40 (CHR ''0'')"
proof -
  have "is_v4 (asc ''192.0.2.7'')" "\<not> is_v4 (asc ''2001:db8::7'')" by code_simp+
  with generated_id_accepted[of "(3, replicate 20 9)" "asc ''192.0.2.7''"] generated_id_accepted[of "(3, replicate 20 9)" "asc ''2001:db8::7''"]
  show ?thesis by simp
qed

subsection \<open>Readiness\<close>

datatype ping = Ping_Ok | Ping_Failed

text \<open>\<open>h_ping\<close> is what \<^verbatim>\<open>Ping\<close> of the library does with the pool, nil or not.\<close>

record health_state =
  h_pool_nil :: bool
  h_ping :: "ping outcome"
  h_node_count :: nat
  h_crawler_enabled :: bool

definition check :: "health_state \<Rightarrow> (bool \<times> string list) outcome" where
  "check s =
     (let reasons = (if h_pool_nil s then [''db not initialized''] else [])
      in case h_ping s of
        Inl p \<Rightarrow> Inl p
      | Inr p \<Rightarrow>
          (let reasons = (if p = Ping_Failed then reasons @ [''db ping failed''] else reasons);
               reasons = (if h_crawler_enabled s \<and> h_node_count s = 0 then reasons @ [''routing table node count is 0'']
                 else reasons)
           in Inr (length reasons = 0, reasons)))"

definition handle_live :: int where
  "handle_live = 200"

definition handle_ready :: "health_state \<Rightarrow> (int \<times> bool \<times> string list) outcome" where
  "handle_ready s =
     (case check s of
        Inl p \<Rightarrow> Inl p
      | Inr (ok, reasons) \<Rightarrow> Inr (if ok then 200 else 503, ok, reasons))"

text \<open>
  The readiness endpoint answers 200 exactly if there is a pool, the database answers and, with the crawler enabled, the
  routing table is not empty, and it lists every reason against. But a missing pool is still asked: when the library
  panics at that, there is no answer.
\<close>

theorem readiness_exact:
  "(case handle_ready s of
      Inl p \<Rightarrow> h_ping s = Inl p
    | Inr (status, ok, reasons) \<Rightarrow>
        (status = 200 \<longleftrightarrow> \<not> h_pool_nil s \<and> h_ping s = Inr Ping_Ok \<and> \<not> (h_crawler_enabled s \<and> h_node_count s = 0)) \<and>
        (status = 200 \<or> status = 503) \<and> (ok \<longleftrightarrow> status = 200) \<and>
        (''db not initialized'' \<in> set reasons \<longleftrightarrow> h_pool_nil s) \<and>
        (''db ping failed'' \<in> set reasons \<longleftrightarrow> h_ping s = Inr Ping_Failed) \<and>
        (''routing table node count is 0'' \<in> set reasons \<longleftrightarrow> h_crawler_enabled s \<and> h_node_count s = 0))"
proof (cases "h_ping s")
  case (Inr p)
  then show ?thesis by (cases p) (auto simp: handle_ready_def check_def Let_def)
qed (simp add: handle_ready_def check_def Let_def)

end
