(* ===== verification/Index_Workers.thy ===== *)
theory Index_Workers
  imports Indexer_Correct Recorder
begin

section \<open>The workers of the indexer (\<^verbatim>\<open>indexer/worker.go\<close>)\<close>

text \<open>
  \<^verbatim>\<open>Run\<close> starts a number of goroutines that take events from the channel of discovered peers and process them one at a
  time. Here are their turns in any order, and what they tell the recorder; \<open>Indexer\<close> models the processing.
\<close>

record index_pool =
  ip_idle :: nat
  ip_busy :: "discovered_peers list"
  ip_queue :: "discovered_peers list"
  ip_done :: "discovered_peers list"

text \<open>\<^verbatim>\<open>range w.workers\<close> does nothing for a negative number.\<close>

definition run_indexer :: "int \<Rightarrow> discovered_peers list \<Rightarrow> call list \<times> index_pool" where
  "run_indexer workers queue =
     ([Work_Call (SetIndexerWorkersActive (of_int workers))],
      \<lparr>ip_idle = nat workers, ip_busy = [], ip_queue = queue, ip_done = []\<rparr>)"

text \<open>
  The DHT system sends an event; an idle worker takes the oldest one, or sees that the context is done and ends; a busy one
  finishes. A turn that is not possible changes nothing.
\<close>

datatype index_turn = Send discovered_peers | Take | Finish nat | Quit

definition index_step :: "index_turn \<Rightarrow> index_pool \<Rightarrow> call list \<times> index_pool" where
  "index_step e p =
     (case e of
        Send ev \<Rightarrow> ([], p\<lparr>ip_queue := ip_queue p @ [ev]\<rparr>)
      | Take \<Rightarrow>
          (case ip_queue p of
             [] \<Rightarrow> ([], p)
           | ev # rest \<Rightarrow>
               if ip_idle p = 0 then ([], p)
               else ([Late_Call (SetDiscoveredChannelDepth (of_nat (length rest))), Late_Call (AddIndexerWorkersBusy 1)],
                 p\<lparr>ip_idle := ip_idle p - 1, ip_busy := ip_busy p @ [ev], ip_queue := rest\<rparr>))
      | Finish k \<Rightarrow>
          if k < length (ip_busy p)
          then ([Late_Call (AddIndexerWorkersBusy (- 1))],
            p\<lparr>ip_idle := ip_idle p + 1, ip_busy := take k (ip_busy p) @ drop (k + 1) (ip_busy p),
              ip_done := ip_done p @ [ip_busy p ! k]\<rparr>)
          else ([], p)
      | Quit \<Rightarrow> ([], p\<lparr>ip_idle := ip_idle p - 1\<rparr>))"

fun index_steps :: "index_turn list \<Rightarrow> call list \<times> index_pool \<Rightarrow> call list \<times> index_pool" where
  "index_steps [] st = st"
| "index_steps (e # es) (cs, p) = (let (ds, p') = index_step e p in index_steps es (cs @ ds, p'))"

text \<open>The value of the gauge of busy workers after some calls, and the events that were sent.\<close>

fun busy_change :: "call \<Rightarrow> rat" where
  "busy_change (Late_Call (AddIndexerWorkersBusy v)) = v"
| "busy_change c = 0"

definition busy_gauge :: "call list \<Rightarrow> rat" where
  "busy_gauge cs = sum_list (map busy_change cs)"

fun sent :: "index_turn list \<Rightarrow> discovered_peers list" where
  "sent [] = []"
| "sent (Send ev # es) = ev # sent es"
| "sent (e # es) = sent es"

lemma busy_gauge_simps [simp]:
  "busy_gauge [] = 0" "busy_gauge (c # cs) = busy_change c + busy_gauge cs" "busy_gauge (cs @ ds) = busy_gauge cs + busy_gauge ds"
  by (simp_all add: busy_gauge_def)

definition pool_ok :: "'g prometheus \<Rightarrow> int \<Rightarrow> discovered_peers list \<Rightarrow> call list \<Rightarrow> index_pool \<Rightarrow> bool" where
  "pool_ok lib workers evs cs p \<longleftrightarrow>
     ip_idle p + length (ip_busy p) \<le> nat workers \<and> busy_gauge cs = of_nat (length (ip_busy p)) \<and>
     mset (ip_done p @ ip_busy p @ ip_queue p) = mset evs \<and> list_all (call_ok lib) cs"

lemma indexer_calls_ok [simp]:
  "call_ok lib (Late_Call (AddIndexerWorkersBusy v))" "call_ok lib (Late_Call (SetDiscoveredChannelDepth v))"
  "call_ok lib (Work_Call (SetIndexerWorkersActive v))"
  by (simp_all add: call_ok_def)

lemma run_indexer_ok: "run_indexer workers queue = (cs, p) \<Longrightarrow> pool_ok lib workers queue cs p"
  by (auto simp: run_indexer_def pool_ok_def)

lemma index_step_ok:
  assumes "pool_ok lib workers evs cs p" and "index_step e p = (ds, p')"
  shows "pool_ok lib workers (evs @ sent [e]) (cs @ ds) p'"
proof (cases e)
  case (Finish k)
  show ?thesis
  proof (cases "k < length (ip_busy p)")
    case True
    have "mset (ip_busy p) = mset (take k (ip_busy p)) + add_mset (ip_busy p ! k) (mset (drop (Suc k) (ip_busy p)))"
      by (subst id_take_nth_drop[OF True]) simp
    with True Finish assms show ?thesis by (auto simp: pool_ok_def index_step_def of_nat_diff)
  qed (use assms Finish in \<open>auto simp: pool_ok_def index_step_def\<close>)
qed (use assms in \<open>auto simp: pool_ok_def index_step_def split: list.splits if_splits\<close>)

lemma index_steps_ok:
  "pool_ok lib workers evs (fst st) (snd st) \<Longrightarrow> index_steps es st = (cs, p) \<Longrightarrow> pool_ok lib workers (evs @ sent es) cs p"
proof (induction es arbitrary: st evs)
  case (Cons e es)
  obtain ds p' where e: "index_step e (snd st) = (ds, p')" by fastforce
  then have "index_steps es (fst st @ ds, p') = (cs, p)" using Cons.prems(2) by (cases st) simp
  with Cons.IH[of "evs @ sent [e]" "(fst st @ ds, p')"] index_step_ok[OF Cons.prems(1) e]
  have "pool_ok lib workers ((evs @ sent [e]) @ sent es) cs p" by simp
  moreover have "sent (e # es) = sent [e] @ sent es" by (cases e) simp_all
  ultimately show ?case by simp
qed simp

text \<open>
  However the workers take turns, at most the configured number of them is busy and the gauge shows how many; every event
  sent is waiting, being processed or processed, once; and no call offends the metrics library.
\<close>

theorem workers_share_events:
  "case index_steps es (run_indexer workers queue) of (cs, p) \<Rightarrow>
     length (ip_busy p) \<le> nat workers \<and> busy_gauge cs = of_nat (length (ip_busy p)) \<and>
     mset (ip_done p) + mset (ip_busy p) + mset (ip_queue p) = mset queue + mset (sent es) \<and>
     list_all (call_ok lib) cs"
proof -
  obtain cs p where r: "index_steps es (run_indexer workers queue) = (cs, p)" by fastforce
  have "pool_ok lib workers (queue @ sent es) cs p"
    by (rule index_steps_ok[OF _ r], rule run_indexer_ok) simp
  with r show ?thesis by (auto simp: pool_ok_def list_all_iff add.assoc)
qed

end
