(* ===== verification/Tui.thy ===== *)
theory Tui
  imports Api Float64 "HOL-Library.Sublist"
begin

section \<open>The terminal interface (\<^verbatim>\<open>tui\<close>)\<close>

text \<open>
  Four views over one client of the API. A view takes a message, and returns its new state with commands that the
  runtime runs in the background; a command ends with a message of its own. The text input and the spinner are
  library components: the input is the record of its operations, the spinner only its ticks. Styles, colours and
  widths of the rendering are left out; what is shown is modelled as texts.
\<close>

subsection \<open>Messages and commands (\<^verbatim>\<open>tui/model/app.go\<close>)\<close>

datatype app_view = View_Config | View_List | View_Detail | View_Confirm_Delete

text \<open>A client is its base URL.\<close>

type_synonym tui_client = runes

datatype msg =
  Navigate_List
| Navigate_Detail string
| Navigate_Config
| Navigate_Confirm_Delete string runes app_view
| Client_Connected tui_client
| Torrents_Loaded "client_torrent list"
| Torrent_Loaded client_torrent
| State_Updated string string
| Torrent_Deleted string
| Health_Check bool "runes list"
| Err_Msg runes
| Window_Size int int
| Key string
| Spinner_Tick
| Input_Msg
| Quit_Msg

text \<open>
  \<open>Send_Msg\<close> is a command that returns a fixed message; \<open>Spin\<close> and \<open>Blink\<close> are the commands of the library
  components, \<open>Copy_Text\<close> writes the clipboard.
\<close>

datatype cmd =
  Send_Msg msg
| Fetch_Torrents "tui_client option" list_request
| Get_Torrent "tui_client option" string
| Update_State_Cmd "tui_client option" string string
| Delete_Cmd "tui_client option" string
| Connect runes
| Copy_Text runes
| Spin
| Blink
| Quit

record 'i ui_env =
  ue_value :: "'i \<Rightarrow> runes"
  ue_set_value :: "runes \<Rightarrow> 'i \<Rightarrow> 'i"
  ue_focused :: "'i \<Rightarrow> bool"
  ue_focus :: "'i \<Rightarrow> 'i"
  ue_blur :: "'i \<Rightarrow> 'i"
  ue_update :: "msg \<Rightarrow> 'i \<Rightarrow> 'i \<times> cmd list"
  ue_new :: 'i
  ue_lower :: "rune \<Rightarrow> rune"
  ue_error :: "client_error \<Rightarrow> runes"

subsection \<open>Text (\<^verbatim>\<open>tui/model/list.go\<close>)\<close>

definition next_option :: "string list \<Rightarrow> string \<Rightarrow> string" where
  "next_option options cur =
     (let c = (if cur = [] then ''all'' else cur); i = length (takeWhile (\<lambda>o'. o' \<noteq> c) options) in
      if i < length options then options ! ((i + 1) mod length options) else options ! 0)"

definition type_icon :: "string \<Rightarrow> runes" where
  "type_icon ct =
     (if ct = ''movie'' then asc ''[M]'' else if ct = ''tv'' then asc ''[T]'' else if ct = ''anime'' then asc ''[A]'' else asc ''[?]'')"

text \<open>\<open>%.1f\<close> of a value that is not negative: the nearest multiple of a tenth, ties to even.\<close>

definition one_decimal :: "rat \<Rightarrow> runes" where
  "one_decimal x = (let t = round_even (10 * x) in itoa (t div 10) @ [46] @ itoa (t mod 10))"

definition format_size :: "int \<Rightarrow> runes" where
  "format_size bytes =
     (if bytes \<ge> 2 ^ 30 then one_decimal (float64 (float64 (of_int bytes) / 2 ^ 30)) @ asc ''G''
      else if bytes \<ge> 2 ^ 20 then one_decimal (float64 (float64 (of_int bytes) / 2 ^ 20)) @ asc ''M''
      else if bytes \<ge> 2 ^ 10 then one_decimal (float64 (float64 (of_int bytes) / 2 ^ 10)) @ asc ''K''
      else itoa bytes @ asc ''B'')"

text \<open>8230 is the ellipsis.\<close>

definition truncate_text :: "runes \<Rightarrow> int \<Rightarrow> runes" where
  "truncate_text s max_width =
     (if int (length s) \<le> max_width then s
      else if max_width < 1 then []
      else take (nat (max_width - 1)) s @ [8230])"

definition state_options :: "string list" where
  "state_options = ''all'' # valid_states"

definition type_options :: "string list" where
  "type_options = [''all'', ''movie'', ''tv'', ''anime'', ''unknown'']"

abbreviation page_size :: int where "page_size \<equiv> 50"

subsection \<open>The list (\<^verbatim>\<open>tui/model/list.go\<close>)\<close>

record 'i list_model =
  lm_torrents :: "client_torrent list"
  lm_cursor :: int
  lm_page :: int
  lm_is_last_page :: bool
  lm_state_filter :: string
  lm_type_filter :: string
  lm_search_query :: runes
  lm_search_input :: 'i
  lm_filter_focus :: int
  lm_loading :: bool
  lm_err :: runes
  lm_client :: "tui_client option"
  lm_width :: int
  lm_height :: int

definition new_list_model :: "'i ui_env \<Rightarrow> tui_client option \<Rightarrow> 'i list_model" where
  "new_list_model env c =
     \<lparr>lm_torrents = [], lm_cursor = 0, lm_page = 0, lm_is_last_page = False, lm_state_filter = ''active'', lm_type_filter = [],
      lm_search_query = [], lm_search_input = ue_new env, lm_filter_focus = 0, lm_loading = False, lm_err = [],
      lm_client = c, lm_width = 0, lm_height = 0\<rparr>"

definition list_set_size :: "int \<Rightarrow> int \<Rightarrow> 'i list_model \<Rightarrow> 'i list_model" where
  "list_set_size w h m = m\<lparr>lm_width := w, lm_height := h\<rparr>"

definition list_remove_torrent :: "string \<Rightarrow> 'i list_model \<Rightarrow> 'i list_model" where
  "list_remove_torrent infohash m =
     (let filtered = filter (\<lambda>t. cl_torrent_infohash t \<noteq> infohash) (lm_torrents m); n = int (length filtered) in
      m\<lparr>lm_torrents := filtered, lm_cursor := (if lm_cursor m \<ge> n \<and> lm_cursor m > 0 then n - 1 else lm_cursor m)\<rparr>)"

definition list_params :: "'i list_model \<Rightarrow> list_request" where
  "list_params m =
     \<lparr>lq_limit = page_size, lq_offset = lm_page m * page_size,
      lq_state = (if lm_state_filter m \<noteq> [] \<and> lm_state_filter m \<noteq> ''all'' then asc (lm_state_filter m) else []),
      lq_content_type = (if lm_type_filter m \<noteq> [] \<and> lm_type_filter m \<noteq> ''all'' then asc (lm_type_filter m) else [])\<rparr>"

definition visible_torrents :: "'i ui_env \<Rightarrow> 'i list_model \<Rightarrow> client_torrent list" where
  "visible_torrents env m =
     (if lm_search_query m = [] then lm_torrents m
      else filter (\<lambda>t. sublist (to_lower (ue_lower env) (lm_search_query m)) (to_lower (ue_lower env) (cl_torrent_name t)))
        (lm_torrents m))"

text \<open>A model with the commands it starts; \<open>Inl\<close> is a panic.\<close>

type_synonym 'm updated = "('m \<times> cmd list) outcome"

definition fetch_page :: "'i list_model \<Rightarrow> 'i list_model updated" where
  "fetch_page m =
     (let m1 = m\<lparr>lm_loading := True, lm_err := []\<rparr> in Inr (m1, [Spin, Fetch_Torrents (lm_client m1) (list_params m1)]))"

definition update_search_focused :: "'i ui_env \<Rightarrow> msg \<Rightarrow> string \<Rightarrow> 'i list_model \<Rightarrow> 'i list_model updated" where
  "update_search_focused env msg k m =
     (if k = ''esc'' then
        Inr (m\<lparr>lm_search_query := [], lm_search_input := ue_blur env (ue_set_value env [] (lm_search_input m))\<rparr>, [])
      else if k = ''enter'' then
        Inr (m\<lparr>lm_search_query := ue_value env (lm_search_input m), lm_search_input := ue_blur env (lm_search_input m)\<rparr>, [])
      else case ue_update env msg (lm_search_input m) of (i, cs) \<Rightarrow> Inr (m\<lparr>lm_search_input := i\<rparr>, cs))"

text \<open>The torrent under the cursor; an index below zero panics.\<close>

definition at_cursor :: "client_torrent list \<Rightarrow> int \<Rightarrow> (client_torrent option) outcome" where
  "at_cursor vs c =
     (if vs \<noteq> [] \<and> c < int (length vs) then (if c < 0 then Inl IndexOutOfRange else Inr (Some (vs ! nat c))) else Inr None)"

definition on_selected :: "'i ui_env \<Rightarrow> (client_torrent \<Rightarrow> cmd list) \<Rightarrow> 'i list_model \<Rightarrow> 'i list_model updated" where
  "on_selected env f m =
     (case at_cursor (visible_torrents env m) (lm_cursor m) of
        Inl p \<Rightarrow> Inl p
      | Inr None \<Rightarrow> Inr (m, [])
      | Inr (Some t) \<Rightarrow> Inr (m, f t))"

definition focus_search :: "'i ui_env \<Rightarrow> 'i list_model \<Rightarrow> 'i list_model updated" where
  "focus_search env m = Inr (m\<lparr>lm_search_input := ue_focus env (lm_search_input m)\<rparr>, [Blink])"

definition update_table_focused :: "'i ui_env \<Rightarrow> string \<Rightarrow> 'i list_model \<Rightarrow> 'i list_model updated" where
  "update_table_focused env k m =
     (if k \<in> {''up'', ''k''} then Inr (if lm_cursor m > 0 then m\<lparr>lm_cursor := lm_cursor m - 1\<rparr> else m, [])
      else if k \<in> {''down'', ''j''} then
        Inr (if lm_cursor m < int (length (visible_torrents env m)) - 1 then m\<lparr>lm_cursor := lm_cursor m + 1\<rparr> else m, [])
      else if k \<in> {''left'', ''h''} then
        (if lm_page m > 0 then fetch_page (m\<lparr>lm_page := lm_page m - 1\<rparr>) else Inr (m, []))
      else if k \<in> {''right'', ''l''} then
        (if \<not> lm_is_last_page m then fetch_page (m\<lparr>lm_page := lm_page m + 1\<rparr>) else Inr (m, []))
      else if k = ''enter'' then on_selected env (\<lambda>t. [Send_Msg (Navigate_Detail (cl_torrent_infohash t))]) m
      else if k \<in> {''/'', ''ctrl+f''} then focus_search env m
      else if k = ''tab'' then
        (let m1 = m\<lparr>lm_filter_focus := (lm_filter_focus m + 1) mod 3\<rparr> in
         if lm_filter_focus m1 = 2 then focus_search env m1 else Inr (m1, []))
      else if k = ''s'' then
        fetch_page (m\<lparr>lm_state_filter := next_option state_options (lm_state_filter m), lm_page := 0\<rparr>)
      else if k = ''t'' then
        fetch_page (m\<lparr>lm_type_filter := next_option type_options (lm_type_filter m), lm_page := 0\<rparr>)
      else if k = ''d'' then
        on_selected env (\<lambda>t. [Send_Msg (Navigate_Confirm_Delete (cl_torrent_infohash t) (cl_torrent_name t) View_List)]) m
      else if k = ''r'' then fetch_page m
      else if k = ''c'' then Inr (m, [Send_Msg Navigate_Config])
      else Inr (m, []))"

definition list_update_msg :: "'i ui_env \<Rightarrow> msg \<Rightarrow> 'i list_model \<Rightarrow> 'i list_model updated" where
  "list_update_msg env msg m =
     (case msg of
        Torrents_Loaded ts \<Rightarrow>
          Inr (m\<lparr>lm_loading := False, lm_torrents := ts, lm_is_last_page := int (length ts) < page_size, lm_cursor := 0\<rparr>, [])
      | Err_Msg e \<Rightarrow> Inr (m\<lparr>lm_loading := False, lm_err := e\<rparr>, [])
      | Spinner_Tick \<Rightarrow> Inr (m, if lm_loading m then [Spin] else [])
      | Key k \<Rightarrow> if ue_focused env (lm_search_input m) then update_search_focused env msg k m else update_table_focused env k m
      | _ \<Rightarrow>
          if ue_focused env (lm_search_input m)
          then (case ue_update env msg (lm_search_input m) of (i, cs) \<Rightarrow> Inr (m\<lparr>lm_search_input := i\<rparr>, cs))
          else Inr (m, []))"

text \<open>The rows that are drawn: cells and whether the row is highlighted. Only as many as fit are drawn, from the first on.\<close>

definition name_width :: "'i list_model \<Rightarrow> int" where
  "name_width m = max (max (lm_width m - 20) 20 - 35 - 2) 10"

definition max_rows :: "'i list_model \<Rightarrow> int" where
  "max_rows m = max (lm_height m - 3) 4 - 1"

datatype table_line = Header_Line "runes list" | Torrent_Line bool "runes list" | Error_Line runes

definition render_table_header :: table_line where
  "render_table_header = Header_Line [asc ''Name'', asc ''State'', asc ''Type'', asc ''Seed'', asc ''Size'']"

definition render_row :: "client_torrent \<Rightarrow> bool \<Rightarrow> int \<Rightarrow> table_line" where
  "render_row t selected width =
     Torrent_Line selected
      [truncate_text (type_icon (cl_torrent_content_type t) @ asc '' '' @ cl_torrent_name t) width,
       asc (cl_torrent_state t), asc (cl_torrent_content_type t), itoa (cl_torrent_seeders t), format_size (cl_torrent_total_size t)]"

definition render_table :: "'i ui_env \<Rightarrow> 'i list_model \<Rightarrow> table_line list" where
  "render_table env m =
     render_table_header #
     map (\<lambda>(i, t). render_row t (int i = lm_cursor m) (name_width m))
       (take (nat (max_rows m)) (enumerate 0 (visible_torrents env m))) @
     (if lm_err m \<noteq> [] then [Error_Line (lm_err m)] else [])"

text \<open>The filters with their label, value and highlighting; 9660 is the mark of a selection box.\<close>

definition render_sidebar :: "'i list_model \<Rightarrow> (string \<times> runes \<times> bool) list" where
  "render_sidebar m =
     (let box = (\<lambda>f. asc ''['' @ asc (if f = [] then ''all'' else f) @ asc '' '' @ [9660] @ asc '']'') in
      [(''State'', box (lm_state_filter m), lm_filter_focus m = 0), (''Type'', box (lm_type_filter m), lm_filter_focus m = 1)])"

definition status_counts :: "'i ui_env \<Rightarrow> 'i list_model \<Rightarrow> runes" where
  "status_counts env m =
     itoa (int (length (visible_torrents env m))) @ asc '' torrents  '' @ [8226] @ asc ''  page '' @ itoa (lm_page m + 1) @
     (if \<not> lm_is_last_page m then asc ''+'' else [])"

end
