(* ===== verification/Tui_App.thy ===== *)
theory Tui_App
  imports Tui
begin

section \<open>The views together (\<^verbatim>\<open>tui/model\<close>)\<close>

text \<open>
  The views of one torrent, of the connection and of the confirmation, the application that switches between them,
  and what the commands do when the runtime runs them. A pointer to a client is an option; a method that follows
  a missing one panics.
\<close>

subsection \<open>One torrent (\<^verbatim>\<open>tui/model/detail.go\<close>)\<close>

record detail_model =
  dm_torrent :: "client_torrent option"
  dm_loading :: bool
  dm_err :: runes
  dm_picker_open :: bool
  dm_picker_cursor :: int
  dm_client :: "tui_client option"
  dm_width :: int
  dm_height :: int

definition new_detail_model :: "tui_client option \<Rightarrow> detail_model" where
  "new_detail_model c =
     \<lparr>dm_torrent = None, dm_loading = False, dm_err = [], dm_picker_open = False, dm_picker_cursor = 0, dm_client = c,
      dm_width = 0, dm_height = 0\<rparr>"

definition detail_set_size :: "int \<Rightarrow> int \<Rightarrow> detail_model \<Rightarrow> detail_model" where
  "detail_set_size w h m = m\<lparr>dm_width := w, dm_height := h\<rparr>"

definition set_loading :: "detail_model \<Rightarrow> detail_model" where
  "set_loading m = m\<lparr>dm_loading := True, dm_err := [], dm_torrent := None, dm_picker_open := False\<rparr>"

definition torrent_magnet :: "client_torrent \<Rightarrow> runes" where
  "torrent_magnet t =
     asc ''magnet:?xt=urn:btih:'' @ asc (cl_torrent_infohash t) @ asc ''&dn='' @ query_escape (cl_torrent_name t)"

definition update_picker :: "string \<Rightarrow> detail_model \<Rightarrow> detail_model updated" where
  "update_picker k m =
     (if k \<in> {''up'', ''k''} then
        Inr (if dm_picker_cursor m > 0 then m\<lparr>dm_picker_cursor := dm_picker_cursor m - 1\<rparr> else m, [])
      else if k \<in> {''down'', ''j''} then
        Inr (if dm_picker_cursor m < int (length valid_states) - 1 then m\<lparr>dm_picker_cursor := dm_picker_cursor m + 1\<rparr> else m, [])
      else if k = ''enter'' then
        (case dm_torrent m of
           None \<Rightarrow> Inr (m\<lparr>dm_picker_open := False\<rparr>, [])
         | Some t \<Rightarrow>
             if dm_picker_cursor m < 0 \<or> dm_picker_cursor m \<ge> int (length valid_states) then Inl IndexOutOfRange
             else Inr (m, [Update_State_Cmd (dm_client m) (cl_torrent_infohash t) (valid_states ! nat (dm_picker_cursor m))]))
      else if k = ''esc'' then Inr (m\<lparr>dm_picker_open := False\<rparr>, [])
      else Inr (m, []))"

definition update_main :: "string \<Rightarrow> detail_model \<Rightarrow> detail_model updated" where
  "update_main k m =
     (if k \<in> {''esc'', ''left'', ''h''} then Inr (m, [Send_Msg Navigate_List])
      else if k = ''s'' then Inr (m\<lparr>dm_picker_open := True\<rparr>, [])
      else if k = ''d'' then
        Inr (m, case dm_torrent m of None \<Rightarrow> []
          | Some t \<Rightarrow> [Send_Msg (Navigate_Confirm_Delete (cl_torrent_infohash t) (cl_torrent_name t) View_Detail)])
      else if k = ''y'' then Inr (m, case dm_torrent m of None \<Rightarrow> [] | Some t \<Rightarrow> [Copy_Text (torrent_magnet t)])
      else Inr (m, []))"

text \<open>The position of a state in the picker; a state that is none of them leaves the cursor.\<close>

definition picker_position :: "string \<Rightarrow> int \<Rightarrow> int" where
  "picker_position st cur =
     (let i = length (takeWhile (\<lambda>s. s \<noteq> st) valid_states) in if i < length valid_states then int i else cur)"

definition detail_update :: "msg \<Rightarrow> detail_model \<Rightarrow> detail_model updated" where
  "detail_update msg m =
     (case msg of
        Torrent_Loaded t \<Rightarrow>
          Inr (m\<lparr>dm_torrent := Some t, dm_loading := False, dm_err := [],
            dm_picker_cursor := picker_position (cl_torrent_state t) (dm_picker_cursor m)\<rparr>, [])
      | Err_Msg e \<Rightarrow> Inr (m\<lparr>dm_loading := False, dm_err := e\<rparr>, [])
      | State_Updated ih st \<Rightarrow>
          Inr (m\<lparr>dm_torrent := map_option (\<lambda>t. if cl_torrent_infohash t = ih then t\<lparr>cl_torrent_state := st\<rparr> else t) (dm_torrent m),
            dm_picker_open := False\<rparr>, [])
      | Key k \<Rightarrow> if dm_picker_open m then update_picker k m else update_main k m
      | _ \<Rightarrow> Inr (m, []))"

text \<open>The value of the state field: the state, or the picker with a mark at its cursor.\<close>

definition render_state_row :: "detail_model \<Rightarrow> runes list" where
  "render_state_row m =
     (if \<not> dm_picker_open m
      then [(case dm_torrent m of None \<Rightarrow> [] | Some t \<Rightarrow> asc (cl_torrent_state t)) @ asc ''  [s] change'']
      else map (\<lambda>(i, s). asc ((if int i = dm_picker_cursor m then ''> '' else ''  '') @ s)) (enumerate 0 valid_states))"

text \<open>The fields of a torrent with their labels; \<open>fmt\<close> renders an instant in UTC.\<close>

definition render_fields :: "(instant \<Rightarrow> runes) \<Rightarrow> detail_model \<Rightarrow> client_torrent \<Rightarrow> (string \<times> runes list) list" where
  "render_fields fmt m t =
     [(''Infohash'', [asc (cl_torrent_infohash t)]), (''State'', render_state_row m),
      (''Content Type'', [asc (cl_torrent_content_type t)]), (''Quality'', [cl_torrent_quality t]),
      (''Encoding'', [cl_torrent_encoding t]), (''Dynamic Range'', [cl_torrent_dynamic_range t]),
      (''Source'', [cl_torrent_source t]), (''Release Group'', [cl_torrent_release_group t]),
      (''Size'', [format_size (cl_torrent_total_size t) @ asc ''  ('' @ itoa (cl_torrent_file_count t) @ asc '' files)'']),
      (''Seeders'', [itoa (cl_torrent_seeders t)]), (''Leechers'', [itoa (cl_torrent_leechers t)]),
      (''First Seen'', [fmt (cl_torrent_first_seen t)]),
      (''Magnet'', [truncate_text (torrent_magnet t) (dm_width m - 20) @ asc ''  [y] copy''])]"

subsection \<open>The connection (\<^verbatim>\<open>tui/model/config.go\<close>)\<close>

record 'i config_model =
  cm_host_input :: 'i
  cm_err :: runes
  cm_loading :: bool
  cm_has_client :: bool
  cm_width :: int
  cm_height :: int

definition new_config_model :: "'i ui_env \<Rightarrow> 'i config_model" where
  "new_config_model env =
     \<lparr>cm_host_input = ue_focus env (ue_new env), cm_err = [], cm_loading = False, cm_has_client = False, cm_width = 0, cm_height = 0\<rparr>"

definition config_set_size :: "int \<Rightarrow> int \<Rightarrow> 'i config_model \<Rightarrow> 'i config_model" where
  "config_set_size w h m = m\<lparr>cm_width := w, cm_height := h\<rparr>"

definition set_has_client :: "bool \<Rightarrow> 'i config_model \<Rightarrow> 'i config_model" where
  "set_has_client v m = m\<lparr>cm_has_client := v\<rparr>"

definition config_input :: "'i ui_env \<Rightarrow> msg \<Rightarrow> 'i config_model \<Rightarrow> 'i config_model updated" where
  "config_input env msg m = (case ue_update env msg (cm_host_input m) of (i, cs) \<Rightarrow> Inr (m\<lparr>cm_host_input := i\<rparr>, cs))"

definition config_update :: "'i ui_env \<Rightarrow> msg \<Rightarrow> 'i config_model \<Rightarrow> 'i config_model updated" where
  "config_update env msg m =
     (case msg of
        Key k \<Rightarrow>
          if k = ''esc'' then Inr (m, if cm_has_client m then [Send_Msg Navigate_List] else [])
          else if k = ''enter'' then
            Inr (m\<lparr>cm_loading := True, cm_err := []\<rparr>, [Connect (trim_space (ue_value env (cm_host_input m)))])
          else config_input env msg m
      | Health_Check ok reasons \<Rightarrow>
          (let e = join_with (asc ''; '') reasons in
           Inr (m\<lparr>cm_loading := False,
             cm_err := (if ok then cm_err m else if e = [] then asc ''connection failed'' else e)\<rparr>, []))
      | Err_Msg e \<Rightarrow> Inr (m\<lparr>cm_loading := False, cm_err := e\<rparr>, [])
      | _ \<Rightarrow> config_input env msg m)"

subsection \<open>The confirmation (\<^verbatim>\<open>tui/model/confirm.go\<close>)\<close>

record confirm_model =
  fm_infohash :: string
  fm_name :: runes
  fm_from_view :: app_view
  fm_client :: "tui_client option"
  fm_err :: runes

definition new_confirm_model :: "string \<Rightarrow> runes \<Rightarrow> app_view \<Rightarrow> tui_client option \<Rightarrow> confirm_model" where
  "new_confirm_model infohash name from c =
     \<lparr>fm_infohash = infohash, fm_name = name, fm_from_view = from, fm_client = c, fm_err = []\<rparr>"

definition confirm_update :: "msg \<Rightarrow> confirm_model \<Rightarrow> confirm_model updated" where
  "confirm_update msg m =
     (case msg of
        Key k \<Rightarrow>
          if k = ''enter'' then Inr (m, [Delete_Cmd (fm_client m) (fm_infohash m)])
          else if k \<in> {''esc'', ''n''} then
            Inr (m, [Send_Msg (if fm_from_view m = View_Detail then Navigate_Detail (fm_infohash m) else Navigate_List)])
          else Inr (m, [])
      | Err_Msg e \<Rightarrow> Inr (m\<lparr>fm_err := e\<rparr>, [])
      | _ \<Rightarrow> Inr (m, []))"

definition confirm_lines :: "confirm_model \<Rightarrow> runes list" where
  "confirm_lines m =
     [asc ''Delete torrent?'', truncate_text (fm_name m) 36, asc ''This cannot be undone.''] @
     (if fm_err m \<noteq> [] then [fm_err m] else []) @ [asc ''[Enter] confirm      [Esc] cancel'']"

subsection \<open>The application (\<^verbatim>\<open>tui/model/app.go\<close>)\<close>

record 'i app =
  ap_active_view :: app_view
  ap_prev_view :: app_view
  ap_config :: "'i config_model"
  ap_list :: "'i list_model"
  ap_detail :: detail_model
  ap_confirm :: confirm_model
  ap_client :: "tui_client option"
  ap_width :: int
  ap_height :: int

definition new_app :: "'i ui_env \<Rightarrow> tui_client option \<Rightarrow> 'i app" where
  "new_app env c =
     (let cfg = new_config_model env in
      \<lparr>ap_active_view = (if c \<noteq> None then View_List else View_Config), ap_prev_view = View_Config,
       ap_config = (if c \<noteq> None then set_has_client True cfg else cfg),
       ap_list = new_list_model env c, ap_detail = new_detail_model c,
       ap_confirm = \<lparr>fm_infohash = [], fm_name = [], fm_from_view = View_Config, fm_client = None, fm_err = []\<rparr>,
       ap_client = c, ap_width = 0, ap_height = 0\<rparr>)"

definition app_init :: "'i app \<Rightarrow> cmd list" where
  "app_init a = (if ap_client a \<noteq> None then [Fetch_Torrents (ap_client a) (list_params (ap_list a))] else [Blink])"

definition show_config :: "'i app \<Rightarrow> 'i app updated" where
  "show_config a = Inr (a\<lparr>ap_prev_view := ap_active_view a, ap_active_view := View_Config\<rparr>, [Blink])"

text \<open>The message goes to the active view.\<close>

definition forward :: "'i ui_env \<Rightarrow> msg \<Rightarrow> 'i app \<Rightarrow> 'i app updated" where
  "forward env msg a =
     (case ap_active_view a of
        View_Config \<Rightarrow> map_sum id (\<lambda>(m, cs). (a\<lparr>ap_config := m\<rparr>, cs)) (config_update env msg (ap_config a))
      | View_List \<Rightarrow> map_sum id (\<lambda>(m, cs). (a\<lparr>ap_list := m\<rparr>, cs)) (list_update_msg env msg (ap_list a))
      | View_Detail \<Rightarrow> map_sum id (\<lambda>(m, cs). (a\<lparr>ap_detail := m\<rparr>, cs)) (detail_update msg (ap_detail a))
      | View_Confirm_Delete \<Rightarrow> map_sum id (\<lambda>(m, cs). (a\<lparr>ap_confirm := m\<rparr>, cs)) (confirm_update msg (ap_confirm a)))"

definition app_update :: "'i ui_env \<Rightarrow> msg \<Rightarrow> 'i app \<Rightarrow> 'i app updated" where
  "app_update env msg a =
     (case msg of
        Window_Size w h \<Rightarrow>
          Inr (a\<lparr>ap_width := w, ap_height := h, ap_config := config_set_size w h (ap_config a),
            ap_list := list_set_size w h (ap_list a), ap_detail := detail_set_size w h (ap_detail a)\<rparr>, [])
      | Key k \<Rightarrow>
          (let focused = ue_focused env (lm_search_input (ap_list a)) in
           if (k = ''q'' \<or> k = ''ctrl+c'') \<and> \<not> focused then Inr (a, [Quit])
           else if k = ''ctrl+c'' \<and> focused then Inr (a, [Quit])
           else if k = ''c'' \<and> ap_active_view a \<noteq> View_Config \<and> \<not> focused then show_config a
           else forward env msg a)
      | Navigate_List \<Rightarrow>
          Inr (a\<lparr>ap_active_view := View_List\<rparr>, [Fetch_Torrents (lm_client (ap_list a)) (list_params (ap_list a))])
      | Navigate_Detail ih \<Rightarrow>
          Inr (a\<lparr>ap_prev_view := ap_active_view a, ap_active_view := View_Detail, ap_detail := set_loading (ap_detail a)\<rparr>,
            [Get_Torrent (ap_client a) ih])
      | Navigate_Config \<Rightarrow> show_config a
      | Navigate_Confirm_Delete ih name from \<Rightarrow>
          Inr (a\<lparr>ap_prev_view := from, ap_active_view := View_Confirm_Delete,
            ap_confirm := new_confirm_model ih name from (ap_client a)\<rparr>, [])
      | Client_Connected c \<Rightarrow>
          (let l = list_set_size (ap_width a) (ap_height a) (new_list_model env (Some c)) in
           Inr (a\<lparr>ap_client := Some c, ap_config := set_has_client True (ap_config a), ap_list := l,
             ap_detail := detail_set_size (ap_width a) (ap_height a) (new_detail_model (Some c)),
             ap_active_view := View_List\<rparr>, [Fetch_Torrents (Some c) (list_params l)]))
      | Torrent_Deleted ih \<Rightarrow> Inr (a\<lparr>ap_active_view := View_List, ap_list := list_remove_torrent ih (ap_list a)\<rparr>, [])
      | _ \<Rightarrow> forward env msg a)"

definition start_app :: "'i ui_env \<Rightarrow> runes \<Rightarrow> 'i app" where
  "start_app env host = new_app env (if host \<noteq> [] then Some host else None)"

subsection \<open>Commands\<close>

definition with_client :: "tui_client option \<Rightarrow> (tui_client \<Rightarrow> 'r outcome) \<Rightarrow> 'r outcome" where
  "with_client c f = (case c of None \<Rightarrow> Inl NilDereference | Some h \<Rightarrow> f h)"

definition reply :: "'i ui_env \<Rightarrow> ('a \<Rightarrow> msg) \<Rightarrow> (client_error + 'a) \<times> 'w \<Rightarrow> (msg option \<times> 'w) outcome" where
  "reply env ok r = (case r of (Inl e, w) \<Rightarrow> Inr (Some (Err_Msg (ue_error env e)), w) | (Inr x, w) \<Rightarrow> Inr (Some (ok x), w))"

definition done_reply :: "'i ui_env \<Rightarrow> msg \<Rightarrow> client_error option \<times> 'w \<Rightarrow> (msg option \<times> 'w) outcome" where
  "done_reply env ok r =
     (case r of (Some e, w) \<Rightarrow> Inr (Some (Err_Msg (ue_error env e)), w) | (None, w) \<Rightarrow> Inr (Some ok, w))"

definition connect_params :: list_request where
  "connect_params = \<lparr>lq_limit = 1, lq_offset = 0, lq_state = [], lq_content_type = []\<rparr>"

text \<open>\<open>send\<close> gives the connection to a base URL. A command ends with a message, or without one, in a changed world.\<close>

type_synonym 'w ended = "(msg option \<times> 'w) outcome"

definition fetch_torrents ::
    "'i ui_env \<Rightarrow> (tui_client \<Rightarrow> 'w sender) \<Rightarrow> tui_client option \<Rightarrow> list_request \<Rightarrow> 'w \<Rightarrow> 'w ended" where
  "fetch_torrents env send cl p w =
     (case cl of
        None \<Rightarrow> Inr (Some (Err_Msg (asc ''no client configured'')), w)
      | Some h \<Rightarrow> reply env Torrents_Loaded (client_list_torrents (send h) p w))"

definition get_torrent_cmd ::
    "'i ui_env \<Rightarrow> (tui_client \<Rightarrow> 'w sender) \<Rightarrow> tui_client option \<Rightarrow> string \<Rightarrow> 'w \<Rightarrow> 'w ended" where
  "get_torrent_cmd env send cl ih w = with_client cl (\<lambda>h. reply env Torrent_Loaded (client_get_torrent (send h) ih w))"

text \<open>The client looks at the state before it looks at itself.\<close>

definition update_state_cmd ::
    "'i ui_env \<Rightarrow> (tui_client \<Rightarrow> 'w sender) \<Rightarrow> tui_client option \<Rightarrow> string \<Rightarrow> string \<Rightarrow> 'w \<Rightarrow> 'w ended" where
  "update_state_cmd env send cl ih st w =
     (if st \<notin> set valid_states then Inr (Some (Err_Msg (ue_error env Unknown_State)), w)
      else with_client cl (\<lambda>h. done_reply env (State_Updated ih st) (client_update_state (send h) ih st w)))"

definition delete_cmd ::
    "'i ui_env \<Rightarrow> (tui_client \<Rightarrow> 'w sender) \<Rightarrow> tui_client option \<Rightarrow> string \<Rightarrow> 'w \<Rightarrow> 'w ended" where
  "delete_cmd env send cl ih w = with_client cl (\<lambda>h. done_reply env (Torrent_Deleted ih) (client_delete_torrent (send h) ih w))"

definition connect_cmd :: "'i ui_env \<Rightarrow> (tui_client \<Rightarrow> 'w sender) \<Rightarrow> runes \<Rightarrow> 'w \<Rightarrow> 'w ended" where
  "connect_cmd env send host w =
     (case client_list_torrents (send host) connect_params w of
        (Inl e, w') \<Rightarrow> Inr (Some (Health_Check False [asc ''cannot reach '' @ host @ asc '': '' @ ue_error env e]), w')
      | (Inr ts, w') \<Rightarrow> Inr (Some (Client_Connected host), w'))"

definition run_cmd :: "'i ui_env \<Rightarrow> (tui_client \<Rightarrow> 'w sender) \<Rightarrow> cmd \<Rightarrow> 'w \<Rightarrow> 'w ended" where
  "run_cmd env send c w =
     (case c of
        Send_Msg m \<Rightarrow> Inr (Some m, w)
      | Fetch_Torrents cl p \<Rightarrow> fetch_torrents env send cl p w
      | Get_Torrent cl ih \<Rightarrow> get_torrent_cmd env send cl ih w
      | Update_State_Cmd cl ih st \<Rightarrow> update_state_cmd env send cl ih st w
      | Delete_Cmd cl ih \<Rightarrow> delete_cmd env send cl ih w
      | Connect host \<Rightarrow> connect_cmd env send host w
      | Copy_Text s \<Rightarrow> Inr (None, w)
      | Spin \<Rightarrow> Inr (Some Spinner_Tick, w)
      | Blink \<Rightarrow> Inr (Some Input_Msg, w)
      | Quit \<Rightarrow> Inr (Some Quit_Msg, w))"

lemmas run_cmd_defs = run_cmd_def fetch_torrents_def get_torrent_cmd_def update_state_cmd_def delete_cmd_def connect_cmd_def
  with_client_def

end
