(* ===== verification/Tui_Safety.thy ===== *)
theory Tui_Safety
  imports Tui_App
begin

section \<open>The terminal interface does not panic\<close>

text \<open>
  The runtime delivers key presses and other input to the application and runs its commands in the background, so
  that their messages arrive in any order; meanwhile the world behind the connection changes as it likes. An
  interface state is the application, the commands that have not ended, and the world.
\<close>

subsection \<open>The runtime\<close>

type_synonym ('i, 'w) tui_state = "'i app \<times> cmd list \<times> 'w"

definition from_user :: "msg \<Rightarrow> bool" where
  "from_user m = (case m of Key k \<Rightarrow> True | Window_Size w h \<Rightarrow> True | Spinner_Tick \<Rightarrow> True | Input_Msg \<Rightarrow> True | _ \<Rightarrow> False)"

text \<open>The message a command ends with is handled at once; a command without one just ends. \<open>Quit_Msg\<close> ends the program.\<close>

definition deliver_msg :: "'i ui_env \<Rightarrow> msg option \<Rightarrow> 'i app \<Rightarrow> 'i app updated" where
  "deliver_msg env mo a = (case mo of None \<Rightarrow> Inr (a, []) | Some m \<Rightarrow> if m = Quit_Msg then Inr (a, []) else app_update env m a)"

inductive tui_step :: "'i ui_env \<Rightarrow> (tui_client \<Rightarrow> 'w sender) \<Rightarrow> ('i, 'w) tui_state \<Rightarrow> ('i, 'w) tui_state \<Rightarrow> bool"
  for env :: "'i ui_env" and send :: "tui_client \<Rightarrow> 'w sender" where
  user: "from_user m \<Longrightarrow> app_update env m a = Inr (a', cs) \<Longrightarrow> tui_step env send (a, p, w) (a', p @ cs, w)"
| completes: "run_cmd env send c w = Inr (mo, w') \<Longrightarrow> deliver_msg env mo a = Inr (a', cs) \<Longrightarrow>
    tui_step env send (a, p1 @ c # p2, w) (a', p1 @ p2 @ cs, w')"
| world: "tui_step env send (a, p, w) (a, p, w')"

inductive tui_reachable :: "'i ui_env \<Rightarrow> (tui_client \<Rightarrow> 'w sender) \<Rightarrow> ('i, 'w) tui_state \<Rightarrow> bool"
  for env :: "'i ui_env" and send :: "tui_client \<Rightarrow> 'w sender" where
  tui_starts: "tui_reachable env send (start_app env host, app_init (start_app env host), w)"
| tui_steps: "tui_reachable env send s \<Longrightarrow> tui_step env send s s' \<Longrightarrow> tui_reachable env send s'"

inductive_cases tui_stepE: "tui_step env send s s'"

text \<open>What the library promises of its text input: its commands only move the cursor.\<close>

definition input_law :: "'i ui_env \<Rightarrow> bool" where
  "input_law env \<longleftrightarrow> (\<forall>m i. set (snd (ue_update env m i)) \<subseteq> {Blink})"

lemma input_cmds: "input_law env \<Longrightarrow> ue_update env m i = (i', cs) \<Longrightarrow> set cs \<subseteq> {Blink}"
  unfolding input_law_def by (metis snd_conv)

subsection \<open>The invariant\<close>

definition list_ok :: "'i list_model \<Rightarrow> bool" where
  "list_ok m \<longleftrightarrow> (lm_torrents m \<noteq> [] \<longrightarrow> 0 \<le> lm_cursor m) \<and> 0 \<le> lm_page m \<and>
     lm_state_filter m \<in> set state_options \<and> lm_type_filter m \<in> set ([] # type_options)"

definition detail_ok :: "detail_model \<Rightarrow> bool" where
  "detail_ok m \<longleftrightarrow> 0 \<le> dm_picker_cursor m \<and> dm_picker_cursor m < int (length valid_states)"

definition app_ok :: "'i app \<Rightarrow> bool" where
  "app_ok a \<longleftrightarrow> list_ok (ap_list a) \<and> detail_ok (ap_detail a) \<and>
     (if ap_client a = None then ap_active_view a = View_Config \<and> \<not> cm_has_client (ap_config a)
      else dm_client (ap_detail a) \<noteq> None \<and> lm_client (ap_list a) \<noteq> None \<and>
        (ap_active_view a = View_Confirm_Delete \<longrightarrow> fm_client (ap_confirm a) \<noteq> None))"

text \<open>The requests of list commands, as the server wants them.\<close>

definition params_ok :: "list_request \<Rightarrow> bool" where
  "params_ok p \<longleftrightarrow> 0 < lq_limit p \<and> lq_limit p \<le> page_size \<and> 0 \<le> lq_offset p \<and>
     lq_state p \<in> insert [] (asc ` set valid_states) \<and> lq_content_type p \<in> insert [] (asc ` set (tl type_options))"

text \<open>Commands and messages that only occur once there is a client.\<close>

definition cmd_ok :: "bool \<Rightarrow> cmd \<Rightarrow> bool" where
  "cmd_ok linked c =
     (case c of
        Send_Msg m \<Rightarrow> linked
      | Fetch_Torrents cl p \<Rightarrow> cl \<noteq> None \<and> params_ok p
      | Get_Torrent cl ih \<Rightarrow> linked \<and> cl \<noteq> None
      | Update_State_Cmd cl ih st \<Rightarrow> linked \<and> cl \<noteq> None \<and> st \<in> set valid_states
      | Delete_Cmd cl ih \<Rightarrow> linked \<and> cl \<noteq> None
      | _ \<Rightarrow> True)"

definition msg_ok :: "bool \<Rightarrow> msg \<Rightarrow> bool" where
  "msg_ok linked m =
     (case m of
        Navigate_List \<Rightarrow> linked
      | Navigate_Detail ih \<Rightarrow> linked
      | Navigate_Confirm_Delete ih name from \<Rightarrow> linked
      | Torrent_Deleted ih \<Rightarrow> linked
      | _ \<Rightarrow> True)"

text \<open>A good result: no panic, a good model, good commands.\<close>

definition good :: "('m \<Rightarrow> bool) \<Rightarrow> bool \<Rightarrow> 'm updated \<Rightarrow> bool" where
  "good ok linked r \<longleftrightarrow> (\<exists>m cs. r = Inr (m, cs) \<and> ok m \<and> (\<forall>c \<in> set cs. cmd_ok linked c))"

lemma good_Inr [simp]: "good ok linked (Inr (m, cs)) \<longleftrightarrow> ok m \<and> (\<forall>c \<in> set cs. cmd_ok linked c)"
  by (auto simp: good_def)

lemma good_map:
  assumes "good ok b r" and "\<And>m. ok m \<Longrightarrow> ok' (f m)"
  shows "good ok' b (map_sum id (\<lambda>(m, cs). (f m, cs)) r)"
  using assms by (auto simp: good_def)

lemma blink_ok: "set cs \<subseteq> {Blink} \<Longrightarrow> \<forall>c \<in> set cs. cmd_ok b c"
  by (auto simp: cmd_ok_def)

subsection \<open>The views keep it\<close>

lemma next_option_in: "options \<noteq> [] \<Longrightarrow> next_option options cur \<in> set options"
  by (auto simp: next_option_def Let_def intro!: nth_mem)

lemma list_params_ok: "list_ok m \<Longrightarrow> params_ok (list_params m)"
  by (auto simp: list_ok_def params_ok_def list_params_def state_options_def type_options_def simp del: asc_Cons)

lemma fetch_page_good:
  "list_ok m \<Longrightarrow> lm_client m \<noteq> None \<Longrightarrow> good (\<lambda>m'. list_ok m' \<and> lm_client m' = lm_client m) b (fetch_page m)"
  using list_params_ok[of "m\<lparr>lm_loading := True, lm_err := []\<rparr>"]
  by (auto simp: fetch_page_def Let_def cmd_ok_def list_ok_def)

lemma visible_Nil: "lm_torrents m = [] \<Longrightarrow> visible_torrents env m = []"
  by (simp add: visible_torrents_def)

lemma on_selected_good:
  assumes "list_ok m" and "\<And>t c. c \<in> set (f t) \<Longrightarrow> cmd_ok True c"
  shows "good (\<lambda>m'. m' = m) True (on_selected env f m)"
proof -
  have "visible_torrents env m \<noteq> [] \<Longrightarrow> 0 \<le> lm_cursor m" using assms(1) visible_Nil[of m env] by (auto simp: list_ok_def)
  then show ?thesis using assms(2) by (auto simp: on_selected_def at_cursor_def)
qed

lemma fetch_page_keeps:
  assumes "list_ok m'" and "lm_client m' = c" and "c \<noteq> None"
  shows "good (\<lambda>m. list_ok m \<and> lm_client m = c) True (fetch_page m')"
  using fetch_page_good[of m' True] assms by simp

lemma selected_keeps:
  assumes "list_ok m" and "\<And>t. \<exists>x. f t = [Send_Msg x]"
  shows "good (\<lambda>m'. list_ok m' \<and> lm_client m' = lm_client m) True (on_selected env f m)"
proof -
  have "c \<in> set (f t) \<Longrightarrow> cmd_ok True c" for t c using assms(2)[of t] by (auto simp: cmd_ok_def)
  then have "good (\<lambda>m'. m' = m) True (on_selected env f m)" by (rule on_selected_good[OF assms(1)])
  then show ?thesis using assms(1) by (auto simp: good_def)
qed

lemma update_table_good:
  assumes "list_ok m" and "lm_client m \<noteq> None"
  shows "good (\<lambda>m'. list_ok m' \<and> lm_client m' = lm_client m) True (update_table_focused env k m)"
proof -
  let ?G = "good (\<lambda>m'. list_ok m' \<and> lm_client m' = lm_client m) True"
  have opts: "next_option state_options x \<in> set state_options" "next_option type_options x \<in> set type_options" for x
    by (rule next_option_in, simp add: state_options_def type_options_def)+
  have keep: "list_ok m' \<Longrightarrow> lm_client m' = lm_client m \<Longrightarrow> ?G (fetch_page m')" for m'
    using fetch_page_keeps[of m' "lm_client m"] assms(2) by simp
  have ok: "0 < lm_page m \<Longrightarrow> list_ok (m\<lparr>lm_page := lm_page m - 1\<rparr>)" "list_ok (m\<lparr>lm_page := lm_page m + 1\<rparr>)"
    "list_ok (m\<lparr>lm_state_filter := next_option state_options (lm_state_filter m), lm_page := 0\<rparr>)"
    "list_ok (m\<lparr>lm_type_filter := next_option type_options (lm_type_filter m), lm_page := 0\<rparr>)"
    using assms(1) opts by (auto simp: list_ok_def)
  note pages = keep[OF ok(1)] keep[OF ok(2)] keep[OF ok(3)] keep[OF ok(4)] keep[OF assms(1)]
  have sel: "?G (on_selected env (\<lambda>t. [Send_Msg (f t)]) m)" for f
    by (rule selected_keeps[OF assms(1)]) simp
  have cur: "list_ok (m\<lparr>lm_cursor := lm_cursor m + 1\<rparr>)" "0 < lm_cursor m \<Longrightarrow> list_ok (m\<lparr>lm_cursor := lm_cursor m - 1\<rparr>)"
    "list_ok (m\<lparr>lm_filter_focus := f\<rparr>)" "list_ok (m\<lparr>lm_search_input := i\<rparr>)"
    "list_ok (m\<lparr>lm_filter_focus := f, lm_search_input := i\<rparr>)" for f i
    using assms(1) by (auto simp: list_ok_def)
  show ?thesis
    using pages sel cur assms(1)
    by (simp add: update_table_focused_def focus_search_def Let_def cmd_ok_def)
qed

lemma update_search_good:
  assumes "input_law env" and "list_ok m"
  shows "good (\<lambda>m'. list_ok m' \<and> lm_client m' = lm_client m) b (update_search_focused env msg k m)"
  using assms blink_ok[OF input_cmds[OF assms(1)]]
  by (auto simp: update_search_focused_def list_ok_def split: prod.split)

lemma list_update_good:
  assumes "input_law env" and "list_ok m" and "lm_client m \<noteq> None"
  shows "good (\<lambda>m'. list_ok m' \<and> lm_client m' = lm_client m) True (list_update_msg env msg m)"
proof (cases "\<exists>k. msg = Key k")
  case True
  with update_search_good[OF assms(1,2)] update_table_good[OF assms(2,3)] show ?thesis
    by (auto simp: list_update_msg_def)
next
  case False
  with assms(2) blink_ok[OF input_cmds[OF assms(1)]] show ?thesis
    by (auto simp: list_update_msg_def list_ok_def cmd_ok_def split: msg.split prod.split)
qed

lemma picker_position_ok: "0 \<le> cur \<Longrightarrow> cur < int (length valid_states) \<Longrightarrow>
    0 \<le> picker_position st cur \<and> picker_position st cur < int (length valid_states)"
  by (simp add: picker_position_def Let_def)

lemma detail_update_good:
  assumes "detail_ok m" and "dm_client m \<noteq> None"
  shows "good (\<lambda>m'. detail_ok m' \<and> dm_client m' = dm_client m) True (detail_update msg m)"
proof -
  have "valid_states ! nat (dm_picker_cursor m) \<in> set valid_states"
    using assms(1) by (auto simp: detail_ok_def intro!: nth_mem)
  moreover have "good (\<lambda>m'. detail_ok m' \<and> dm_client m' = dm_client m) True (update_main k m)" for k
    using assms by (auto simp: update_main_def detail_ok_def cmd_ok_def split: option.split)
  ultimately have "good (\<lambda>m'. detail_ok m' \<and> dm_client m' = dm_client m) True (update_picker k m)" 
    and "good (\<lambda>m'. detail_ok m' \<and> dm_client m' = dm_client m) True (update_main k m)" for k
    using assms by (auto simp: update_picker_def detail_ok_def cmd_ok_def split: option.split)
  with assms(1) picker_position_ok show ?thesis
    by (auto simp: detail_update_def detail_ok_def split: msg.split)
qed

lemma config_update_good:
  assumes "input_law env"
  shows "good (\<lambda>m'. cm_has_client m' = cm_has_client m) (cm_has_client m) (config_update env msg m)"
  using blink_ok[OF input_cmds[OF assms]]
  by (auto simp: config_update_def config_input_def Let_def cmd_ok_def split: msg.split prod.split)

lemma confirm_update_good:
  assumes "fm_client m \<noteq> None"
  shows "good (\<lambda>m'. fm_client m' = fm_client m) True (confirm_update msg m)"
  using assms by (auto simp: confirm_update_def cmd_ok_def split: msg.split)

subsection \<open>The application keeps it\<close>

lemma cmd_ok_mono: "cmd_ok b c \<Longrightarrow> cmd_ok True c"
  by (auto simp: cmd_ok_def split: cmd.splits)

lemma good_mono: "good ok b r \<Longrightarrow> (\<And>m. ok m \<Longrightarrow> ok' m) \<Longrightarrow> good ok' True r"
  unfolding good_def using cmd_ok_mono by blast

definition online :: "'i app \<Rightarrow> bool" where
  "online a \<longleftrightarrow> ap_client a \<noteq> None"

text \<open>A good step: no panic, and the client is kept.\<close>

definition step_ok :: "'i app \<Rightarrow> 'i app updated \<Rightarrow> bool" where
  "step_ok a r \<longleftrightarrow> (\<exists>a' cs. r = Inr (a', cs) \<and> app_ok a' \<and> (\<forall>c \<in> set cs. cmd_ok (online a') c) \<and> (online a \<longrightarrow> online a'))"

lemma step_ok_Inr [simp]:
  "step_ok a (Inr (a', cs)) \<longleftrightarrow> app_ok a' \<and> (\<forall>c \<in> set cs. cmd_ok (online a') c) \<and> (online a \<longrightarrow> online a')"
  by (auto simp: step_ok_def)

lemma good_step:
  assumes "good ok (online a) r" and "\<And>m. ok m \<Longrightarrow> app_ok (f m) \<and> ap_client (f m) = ap_client a"
  shows "step_ok a (map_sum id (\<lambda>(m, cs). (f m, cs)) r)"
  using assms by (fastforce simp: good_def online_def)

lemma forward_good:
  assumes "input_law env" and "app_ok a"
  shows "step_ok a (forward env msg a)"
proof (cases "ap_active_view a")
  case View_Config
  have "good (\<lambda>m. cm_has_client m = cm_has_client (ap_config a)) (online a) (config_update env msg (ap_config a))"
  proof (cases "online a")
    case True
    with good_mono[OF config_update_good[OF assms(1)]] show ?thesis by simp
  next
    case False
    with config_update_good[OF assms(1), of "ap_config a" msg] assms(2) show ?thesis by (simp add: app_ok_def online_def)
  qed
  then show ?thesis unfolding forward_def View_Config app_view.case
    by (rule good_step) (use assms(2) in \<open>simp add: app_ok_def online_def split: if_splits\<close>)
next
  case View_List
  with assms(2) have a: "list_ok (ap_list a)" "lm_client (ap_list a) \<noteq> None" "online a" by (auto simp: app_ok_def online_def split: if_splits)
  from list_update_good[OF assms(1) a(1,2), of msg] a(3)
  have "good (\<lambda>m. list_ok m \<and> lm_client m = lm_client (ap_list a)) (online a) (list_update_msg env msg (ap_list a))" by simp
  then show ?thesis unfolding forward_def View_List app_view.case
    by (rule good_step) (use assms(2) a(2,3) in \<open>auto simp: app_ok_def online_def split: if_splits\<close>)
next
  case View_Detail
  with assms(2) have a: "detail_ok (ap_detail a)" "dm_client (ap_detail a) \<noteq> None" "online a" by (auto simp: app_ok_def online_def split: if_splits)
  from detail_update_good[OF a(1,2), of msg] a(3)
  have "good (\<lambda>m. detail_ok m \<and> dm_client m = dm_client (ap_detail a)) (online a) (detail_update msg (ap_detail a))" by simp
  then show ?thesis unfolding forward_def View_Detail app_view.case
    by (rule good_step) (use assms(2) a(2,3) in \<open>auto simp: app_ok_def online_def split: if_splits\<close>)
next
  case View_Confirm_Delete
  with assms(2) have a: "fm_client (ap_confirm a) \<noteq> None" "online a" by (auto simp: app_ok_def online_def split: if_splits)
  from confirm_update_good[OF a(1), of msg] a(2)
  have "good (\<lambda>m. fm_client m = fm_client (ap_confirm a)) (online a) (confirm_update msg (ap_confirm a))" by simp
  then show ?thesis unfolding forward_def View_Confirm_Delete app_view.case
    by (rule good_step) (use assms(2) a in \<open>auto simp: app_ok_def online_def split: if_splits\<close>)
qed

lemma new_list_ok: "list_ok (new_list_model env c)"
  by (simp add: list_ok_def new_list_model_def state_options_def valid_states_def)

lemma new_detail_ok: "detail_ok (new_detail_model c)"
  by (simp add: detail_ok_def new_detail_model_def valid_states_def)

lemma list_remove_ok: "list_ok m \<Longrightarrow> list_ok (list_remove_torrent ih m)"
  by (auto simp: list_ok_def list_remove_torrent_def Let_def Suc_le_eq)

lemma sizes_ok [simp]:
  "list_ok (list_set_size w h m) = list_ok m" "detail_ok (detail_set_size w h d) = detail_ok d"
  "detail_ok (set_loading d) = detail_ok d"
  "lm_client (list_set_size w h m) = lm_client m" "dm_client (detail_set_size w h d) = dm_client d"
  "dm_client (set_loading d) = dm_client d" "lm_client (list_remove_torrent ih m) = lm_client m"
  "cm_has_client (config_set_size w h c) = cm_has_client c"
  by (simp_all add: list_ok_def detail_ok_def list_set_size_def detail_set_size_def set_loading_def list_remove_torrent_def
      Let_def config_set_size_def)

lemma new_clients [simp]: "lm_client (new_list_model env c) = c" "dm_client (new_detail_model c) = c"
    "fm_client (new_confirm_model ih name from c) = c"
  by (simp_all add: new_list_model_def new_detail_model_def new_confirm_model_def)

lemma app_update_good:
  assumes "input_law env" and "app_ok a" and "msg_ok (online a) msg"
  shows "step_ok a (app_update env msg a)"
proof -
  note forward = forward_good[OF assms(1,2)]
  have cfg: "step_ok a (show_config a)" using assms(2) by (auto simp: show_config_def app_ok_def online_def cmd_ok_def)
  show ?thesis
  proof (cases msg)
    case Navigate_List
    with assms(2,3) list_params_ok[of "ap_list a"] show ?thesis
      by (auto simp: app_update_def app_ok_def online_def msg_ok_def cmd_ok_def split: if_splits)
  next
    case (Navigate_Detail ih)
    with assms(2,3) show ?thesis by (auto simp: app_update_def app_ok_def online_def msg_ok_def cmd_ok_def split: if_splits)
  next
    case (Navigate_Confirm_Delete ih name origin)
    with assms(2,3) show ?thesis by (auto simp: app_update_def app_ok_def online_def msg_ok_def split: if_splits)
  next
    case (Client_Connected c)
    with assms(2) list_params_ok[of "list_set_size (ap_width a) (ap_height a) (new_list_model env (Some c))"] show ?thesis
      by (auto simp: app_update_def app_ok_def online_def cmd_ok_def Let_def new_list_ok new_detail_ok set_has_client_def)
  next
    case (Torrent_Deleted ih)
    with assms(2,3) list_remove_ok show ?thesis by (auto simp: app_update_def app_ok_def online_def msg_ok_def split: if_splits)
  next
    case (Window_Size w h)
    with assms(2) show ?thesis by (auto simp: app_update_def app_ok_def online_def split: if_splits)
  next
    case (Key k)
    with forward cfg assms(2) show ?thesis by (auto simp: app_update_def Let_def cmd_ok_def)
  qed (use forward cfg in \<open>simp_all add: app_update_def\<close>)
qed

subsection \<open>The runtime keeps it\<close>

lemma msg_ok_True [simp]: "msg_ok True m"
  by (simp add: msg_ok_def split: msg.split)

lemma reply_ok:
  assumes "\<And>y. msg_ok b (f y)"
  shows "\<exists>mo w'. reply env f r = Inr (mo, w') \<and> (\<forall>m. mo = Some m \<longrightarrow> msg_ok b m)"
  using assms by (auto simp: reply_def msg_ok_def split: prod.split sum.split)

lemma done_reply_ok:
  assumes "msg_ok b m"
  shows "\<exists>mo w'. done_reply env m r = Inr (mo, w') \<and> (\<forall>m. mo = Some m \<longrightarrow> msg_ok b m)"
  using assms by (auto simp: done_reply_def msg_ok_def split: prod.split option.split)

lemma run_cmd_good:
  assumes "cmd_ok b c"
  shows "\<exists>mo w'. run_cmd env send c w = Inr (mo, w') \<and> (\<forall>m. mo = Some m \<longrightarrow> msg_ok b m)"
proof (cases c)
  case (Fetch_Torrents cl q)
  with assms obtain h where "cl = Some h" by (auto simp: cmd_ok_def)
  with Fetch_Torrents reply_ok[of b Torrents_Loaded env] show ?thesis by (simp add: run_cmd_defs msg_ok_def)
next
  case (Get_Torrent cl ih)
  with assms obtain h where "cl = Some h" by (auto simp: cmd_ok_def)
  with Get_Torrent reply_ok[of b Torrent_Loaded env] show ?thesis by (simp add: run_cmd_defs msg_ok_def)
next
  case (Update_State_Cmd cl ih st)
  with assms obtain h where "cl = Some h" "st \<in> set valid_states" by (auto simp: cmd_ok_def)
  with Update_State_Cmd done_reply_ok[of b "State_Updated ih st" env] show ?thesis by (simp add: run_cmd_defs msg_ok_def)
next
  case (Delete_Cmd cl ih)
  with assms obtain h where "cl = Some h" b by (auto simp: cmd_ok_def)
  with Delete_Cmd done_reply_ok[of b "Torrent_Deleted ih" env] show ?thesis by (simp add: run_cmd_defs)
next
  case (Send_Msg m)
  with assms show ?thesis by (simp add: run_cmd_defs cmd_ok_def)
qed (auto simp: run_cmd_defs msg_ok_def split: prod.split sum.split)

definition tui_ok :: "('i, 'w) tui_state \<Rightarrow> bool" where
  "tui_ok s = (case s of (a, p, w) \<Rightarrow> app_ok a \<and> (\<forall>c \<in> set p. cmd_ok (online a) c))"

lemma start_ok: "tui_ok (start_app env host, app_init (start_app env host), w)"
  using list_params_ok[OF new_list_ok, of env "Some host"]
  by (auto simp: tui_ok_def start_app_def app_ok_def new_app_def app_init_def Let_def new_list_ok new_detail_ok set_has_client_def
      new_config_model_def cmd_ok_def online_def)

lemma online_mono: "online a \<longrightarrow> online a' \<Longrightarrow> cmd_ok (online a) c \<Longrightarrow> cmd_ok (online a') c"
  by (cases "online a"; cases "online a'") (auto intro: cmd_ok_mono)

lemma step_ok_state:
  assumes "tui_ok (a, p, w)" and "step_ok a (Inr (a', cs))" and "set q \<subseteq> set p"
  shows "tui_ok (a', q @ cs, w')"
proof -
  from assms have "app_ok a'" "\<forall>c \<in> set cs. cmd_ok (online a') c" "online a \<longrightarrow> online a'" "\<forall>c \<in> set q. cmd_ok (online a) c"
    by (auto simp: tui_ok_def)
  then show ?thesis using online_mono[of a a'] by (auto simp: tui_ok_def)
qed

lemma deliver_good:
  assumes "input_law env" and "app_ok a" and "\<forall>m. mo = Some m \<longrightarrow> msg_ok (online a) m"
  shows "step_ok a (deliver_msg env mo a)"
  using app_update_good[OF assms(1,2)] assms(2,3) by (auto simp: deliver_msg_def split: option.split)

lemma from_user_ok: "from_user m \<Longrightarrow> msg_ok b m"
  by (auto simp: from_user_def msg_ok_def split: msg.splits)

lemma tui_step_ok:
  assumes "tui_step env send s s'" and "input_law env" and "tui_ok s"
  shows "tui_ok s'"
  using assms(1)
proof cases
  case (user m a a' cs p w)
  from assms(3) user(1) have t: "tui_ok (a, p, w)" by simp
  then have "app_ok a" by (simp add: tui_ok_def)
  from app_update_good[OF assms(2) this from_user_ok[OF user(3)]] user(4) have "step_ok a (Inr (a', cs))" by simp
  from step_ok_state[OF t this subset_refl] user(2) show ?thesis by simp
next
  case (completes c w mo w' a a' cs p1 p2)
  from assms(3) completes(1) have ok: "app_ok a" "cmd_ok (online a) c" by (auto simp: tui_ok_def)
  from run_cmd_good[OF ok(2), of env send w] completes(3) have "\<forall>m. mo = Some m \<longrightarrow> msg_ok (online a) m" by simp
  from deliver_good[OF assms(2) ok(1) this] completes(4) have s: "step_ok a (Inr (a', cs))" by simp
  from assms(3) completes(1) have t: "tui_ok (a, p1 @ c # p2, w)" by simp
  have "set (p1 @ p2) \<subseteq> set (p1 @ c # p2)" by auto
  from step_ok_state[OF t s this, of w'] completes(2) show ?thesis by simp
next
  case world
  with assms(3) show ?thesis by (simp add: tui_ok_def)
qed

lemma tui_reachable_ok:
  assumes "input_law env" and "tui_reachable env send s"
  shows "tui_ok s"
  using assms(2) by induction (auto intro: start_ok tui_step_ok[OF _ assms(1)])

text \<open>
  C30. Whatever the user types, whatever the connection answers and in whatever order the commands end: no message and
  no command makes the interface panic, no index is out of range and no missing client is used.
\<close>

theorem tui_never_panics:
  assumes "input_law env" and "tui_reachable env send (a, p, w)"
  shows "(from_user m \<longrightarrow> (\<exists>r. app_update env m a = Inr r)) \<and>
    (\<forall>c \<in> set p. \<exists>mo w' r. run_cmd env send c w = Inr (mo, w') \<and> deliver_msg env mo a = Inr r)"
proof -
  from tui_reachable_ok[OF assms] have ok: "app_ok a" "\<forall>c \<in> set p. cmd_ok (online a) c" by (auto simp: tui_ok_def)
  have "\<exists>r. app_update env m a = Inr r" if "from_user m"
    using app_update_good[OF assms(1) ok(1) from_user_ok[OF that]] by (auto simp: step_ok_def)
  moreover have "\<exists>mo w' r. run_cmd env send c w = Inr (mo, w') \<and> deliver_msg env mo a = Inr r" if "c \<in> set p" for c
  proof -
    from ok(2) that have "cmd_ok (online a) c" by blast
    then obtain mo w' where r: "run_cmd env send c w = Inr (mo, w')" "\<forall>m. mo = Some m \<longrightarrow> msg_ok (online a) m"
      using run_cmd_good[of "online a" c env send w] by blast
    moreover obtain r' where "deliver_msg env mo a = Inr r'"
      using deliver_good[OF assms(1) ok(1) r(2)] unfolding step_ok_def by blast
    ultimately show ?thesis by blast
  qed
  ultimately show ?thesis by blast
qed

text \<open>A text input that appends what is typed while it has the focus.\<close>

definition sample_ui :: "(runes \<times> bool) ui_env" where
  "sample_ui =
     \<lparr>ue_value = fst, ue_set_value = (\<lambda>s i. (s, snd i)), ue_focused = snd, ue_focus = (\<lambda>i. (fst i, True)),
      ue_blur = (\<lambda>i. (fst i, False)),
      ue_update = (\<lambda>m i. (case m of Key k \<Rightarrow> if snd i \<and> length k = 1 then (fst i @ asc k, True) else i | _ \<Rightarrow> i, [Blink])),
      ue_new = ([], False), ue_lower = (\<lambda>r. if 65 \<le> r \<and> r \<le> 90 then r + 32 else r), ue_error = (\<lambda>e. asc ''error'')\<rparr>"

lemma sample_input_law: "input_law sample_ui"
  by (simp add: input_law_def sample_ui_def)

theorem tui_never_panics_witness:
  "\<exists>mo w' r. run_cmd sample_ui (\<lambda>h r w. (None, w)) (Fetch_Torrents (Some (asc ''h'')) (list_params (new_list_model sample_ui (Some (asc ''h''))))) () =
     Inr (mo, w') \<and> deliver_msg sample_ui mo (start_app sample_ui (asc ''h'')) = Inr r"
proof -
  let ?a = "start_app sample_ui (asc ''h'')"
  have r: "tui_reachable sample_ui (\<lambda>h r w. (None, w)) (?a, app_init ?a, ())" by (rule tui_starts)
  have "app_init ?a = [Fetch_Torrents (Some (asc ''h'')) (list_params (new_list_model sample_ui (Some (asc ''h''))))]"
    by (simp add: start_app_def app_init_def new_app_def Let_def)
  with tui_never_panics[OF sample_input_law r, of "Key ''q''"] show ?thesis by simp
qed

end
