(* ===== verification/Tui_Correct.thy ===== *)
theory Tui_Correct
  imports Tui_Safety Api_Client
begin

section \<open>The terminal interface on the server\<close>

text \<open>
  What the interface shows and does when its commands run against the handlers of the API: the list is the page of
  the database it asks for, a confirmed deletion and a state change are those of the database. Then what goes
  wrong: keys of the host field, answers out of order, rows out of sight.
\<close>

subsection \<open>An example\<close>

text \<open>The interface started with a host, and the connection to a server on the sample database.\<close>

lemma sample_start: "ap_active_view (start_app sample_ui (asc ''h'')) = View_List"
    "\<not> ue_focused sample_ui (lm_search_input (ap_list (start_app sample_ui (asc ''h''))))"
    "\<not> lm_is_last_page (ap_list (start_app sample_ui (asc ''h'')))"
    "list_ok (ap_list (start_app sample_ui (asc ''h'')))"
    "lm_client (ap_list (start_app sample_ui (asc ''h''))) = Some (asc ''h'')"
    "lm_page (ap_list (start_app sample_ui (asc ''h''))) = 0"
  using new_list_ok[of sample_ui "Some (asc ''h'')"]
  by (simp_all add: start_app_def new_app_def Let_def new_list_model_def sample_ui_def)

abbreviation sample_send :: "tui_client \<Rightarrow> catalog sender" where
  "sample_send \<equiv> (\<lambda>h. direct (search_env_of id))"

subsection \<open>Requests are accepted\<close>

lemma state_param: "s \<in> insert [] (asc ` set valid_states) \<Longrightarrow>
    \<not> (case query_param s of None \<Rightarrow> False | Some x \<Rightarrow> parse_state x = None)"
  by (auto simp: query_param_def dest!: valid_state_label simp del: asc_Cons)

lemma content_param: "c \<in> insert [] (asc ` set (tl type_options)) \<Longrightarrow>
    \<not> (case query_param c of None \<Rightarrow> False | Some x \<Rightarrow> parse_content x = None)"
proof -
  assume "c \<in> insert [] (asc ` set (tl type_options))"
  then have "c = [] \<or> c = asc (content_label Movie) \<or> c = asc (content_label Tv) \<or> c = asc (content_label Anime) \<or>
      c = asc (content_label Unknown_Type)"
    by (simp add: type_options_def del: asc_Cons)
  then show ?thesis by (auto simp: query_param_def simp del: asc_Cons content_label.simps)
qed

lemma list_rows_accepted:
  assumes "params_ok q" and "lq_offset q < 2 ^ 31" and "se_up senv"
  shows "\<exists>rows. list_rows senv q ct = Inr rows"
proof -
  from assms(1) have q: "0 \<le> lq_offset q" "0 < lq_limit q" "lq_limit q \<le> 50"
    and s: "lq_state q \<in> insert [] (asc ` set valid_states)"
    and c: "lq_content_type q \<in> insert [] (asc ` set (tl type_options))"
    by (auto simp: params_ok_def)
  have "int32 (lq_offset q) = lq_offset q" "int32 (lq_limit q) = lq_limit q"
    using q assms(2) by (simp_all add: int32_id)
  with state_param[OF s] content_param[OF c] q assms(3) show ?thesis
    by (simp add: list_rows_def list_torrents_def page_def)
qed

text \<open>
  The server accepts every request for a page that the interface makes, in any state it can reach: its filters
  are labels of the database, its page size and offset are in range.
\<close>

theorem tui_requests_accepted:
  assumes "input_law env" and "tui_reachable env send (a, p, w)"
    and "Fetch_Torrents cl q \<in> set p" and "lq_offset q < 2 ^ 31" and "se_up senv"
  shows "\<exists>h rows. cl = Some h \<and> client_list_torrents (direct senv) q ct = (Inr (map client_torrent_of rows), ct)"
proof -
  from tui_reachable_ok[OF assms(1,2)] assms(3) have "cmd_ok (online a) (Fetch_Torrents cl q)" by (simp add: tui_ok_def)
  then have cl: "cl \<noteq> None" and q: "params_ok q" by (simp_all add: cmd_ok_def)
  from list_rows_accepted[OF q assms(4,5)] obtain rows where r: "list_rows senv q ct = Inr rows" by blast
  from q have l: "0 < lq_limit q" "lq_limit q \<le> 50" "0 \<le> lq_offset q" by (simp_all add: params_ok_def)
  from list_through_client[of q senv ct] l assms(4) r cl show ?thesis by auto
qed

theorem tui_requests_accepted_witness:
  "\<exists>rows. client_list_torrents (direct (search_env_of id)) (list_params (new_list_model sample_ui (Some (asc ''h'')))) sample_shelf =
     (Inr (map client_torrent_of rows), sample_shelf)"
proof -
  let ?a = "start_app sample_ui (asc ''h'')" and ?q = "list_params (new_list_model sample_ui (Some (asc ''h'')))"
  have r: "tui_reachable sample_ui sample_send (?a, app_init ?a, sample_shelf)" by (rule tui_starts)
  have f: "Fetch_Torrents (Some (asc ''h'')) ?q \<in> set (app_init ?a)"
    by (simp add: start_app_def app_init_def new_app_def Let_def)
  have "lq_offset ?q < 2 ^ 31" by (simp add: list_params_def new_list_model_def)
  from tui_requests_accepted[OF sample_input_law r f this sample_up(1)] show ?thesis by blast
qed


subsection \<open>The list is a page of the database\<close>

lemma list_key:
  assumes "ap_active_view a = View_List" and "\<not> ue_focused env (lm_search_input (ap_list a))" and "k \<notin> {''q'', ''ctrl+c'', ''c''}"
  shows "app_update env (Key k) a = map_sum id (\<lambda>(m, cs). (a\<lparr>ap_list := m\<rparr>, cs)) (update_table_focused env k (ap_list a))"
  using assms by (simp add: app_update_def forward_def list_update_msg_def)

lemma list_loaded:
  assumes "ap_active_view a = View_List"
  shows "app_update env (Torrents_Loaded ts) a =
    Inr (a\<lparr>ap_list := (ap_list a)\<lparr>lm_loading := False, lm_torrents := ts, lm_is_last_page := int (length ts) < page_size,
      lm_cursor := 0\<rparr>\<rparr>, [])"
  using assms by (simp add: app_update_def forward_def list_update_msg_def)

lemma fetch_direct:
  assumes "list_ok m" and "lm_page m * page_size < 2 ^ 31" and "se_up senv" and "send h = direct senv"
  shows "\<exists>rows. list_rows senv (list_params m) ct = Inr rows \<and>
    run_cmd env send (Fetch_Torrents (Some h) (list_params m)) ct = Inr (Some (Torrents_Loaded (map client_torrent_of rows)), ct)"
proof -
  from list_params_ok[OF assms(1)] have q: "params_ok (list_params m)" .
  have off: "lq_offset (list_params m) < 2 ^ 31" using assms(2) by (simp add: list_params_def)
  from list_rows_accepted[OF q off assms(3)] obtain rows where r: "list_rows senv (list_params m) ct = Inr rows" by blast
  have "client_list_torrents (direct senv) (list_params m) ct = (Inr (map client_torrent_of rows), ct)"
    using list_through_client[of "list_params m" senv ct] q off r by (simp add: params_ok_def)
  with r assms(4) show ?thesis by (simp add: run_cmd_defs reply_def)
qed

text \<open>
  C31. A refresh shows the database: the torrents listed afterwards are the rows of the query for the page and the
  filters of the view, the cursor is on the first, and the view is no longer loading.
\<close>

theorem refresh_shows_database:
  assumes "ap_active_view a = View_List" and "\<not> ue_focused env (lm_search_input (ap_list a))"
    and "list_ok (ap_list a)" and "lm_client (ap_list a) = Some h" and "lm_page (ap_list a) * page_size < 2 ^ 31"
    and "se_up senv" and "send h = direct senv"
  shows "\<exists>a1 q rows a2. app_update env (Key ''r'') a = Inr (a1, [Spin, Fetch_Torrents (Some h) q]) \<and>
    list_rows senv q ct = Inr rows \<and>
    run_cmd env send (Fetch_Torrents (Some h) q) ct = Inr (Some (Torrents_Loaded (map client_torrent_of rows)), ct) \<and>
    app_update env (Torrents_Loaded (map client_torrent_of rows)) a1 = Inr (a2, []) \<and>
    q = list_params (ap_list a2) \<and> lm_torrents (ap_list a2) = map client_torrent_of rows \<and>
    lm_cursor (ap_list a2) = 0 \<and> \<not> lm_loading (ap_list a2) \<and> lm_err (ap_list a2) = []"
proof -
  let ?m1 = "(ap_list a)\<lparr>lm_loading := True, lm_err := []\<rparr>"
  have m1: "list_ok ?m1" "lm_page ?m1 * page_size < 2 ^ 31" using assms(3,5) by (simp_all add: list_ok_def)
  from fetch_direct[where env = env and send = send and ct = ct, OF m1 assms(6,7)]
  obtain rows where rows: "list_rows senv (list_params ?m1) ct = Inr rows"
    "run_cmd env send (Fetch_Torrents (Some h) (list_params ?m1)) ct = Inr (Some (Torrents_Loaded (map client_torrent_of rows)), ct)"
    by blast
  have "app_update env (Key ''r'') a = Inr (a\<lparr>ap_list := ?m1\<rparr>, [Spin, Fetch_Torrents (Some h) (list_params ?m1)])"
    using list_key[OF assms(1,2), of "''r''"] assms(4) by (simp add: update_table_focused_def fetch_page_def Let_def)
  moreover have "list_params ?m1 = list_params (?m1\<lparr>lm_loading := False, lm_torrents := ts, lm_is_last_page := b, lm_cursor := 0\<rparr>)" for ts b
    by (simp add: list_params_def)
  ultimately show ?thesis
    using rows list_loaded[of "a\<lparr>ap_list := ?m1\<rparr>" env "map client_torrent_of rows"] assms(1)
    by (intro exI[of _ "a\<lparr>ap_list := ?m1\<rparr>"] exI[of _ "list_params ?m1"] exI[of _ rows] exI) auto
qed

theorem refresh_shows_database_witness:
  "\<exists>a1 q rows a2. app_update sample_ui (Key ''r'') (start_app sample_ui (asc ''h'')) = Inr (a1, [Spin, Fetch_Torrents (Some (asc ''h'')) q]) \<and>
    list_rows (search_env_of id) q sample_shelf = Inr rows \<and>
    app_update sample_ui (Torrents_Loaded (map client_torrent_of rows)) a1 = Inr (a2, []) \<and>
    lm_torrents (ap_list a2) = map client_torrent_of rows"
proof -
  have "lm_page (ap_list (start_app sample_ui (asc ''h''))) * page_size < 2 ^ 31" by (simp add: sample_start(6) del: asc_Cons)
  from refresh_shows_database[where send = sample_send and ct = sample_shelf, OF sample_start(1,2,4,5) this sample_up(1) refl]
  show ?thesis by blast
qed


subsection \<open>A confirmed deletion\<close>

text \<open>
  Confirming deletes, for an infohash of letters and digits: the database mentions the torrent nowhere and is well
  formed, and the interface is back at the list, with the torrent removed and all others in place.
\<close>

theorem confirm_deletes:
  assumes "ap_active_view a = View_Confirm_Delete" and "\<not> ue_focused env (lm_search_input (ap_list a))"
    and "ap_confirm a = new_confirm_model ih name origin (Some h)"
    and "se_up senv" and "send h = direct senv" and "db_reachable ct" and "plain_segment ih"
  shows "\<exists>ct' a'. app_update env (Key ''enter'') a = Inr (a, [Delete_Cmd (Some h) ih]) \<and>
    run_cmd env send (Delete_Cmd (Some h) ih) ct = Inr (Some (Torrent_Deleted ih), ct') \<and>
    db_reachable ct' \<and> \<not> mentions ih (ct_db ct') \<and>
    app_update env (Torrent_Deleted ih) a = Inr (a', []) \<and> ap_active_view a' = View_List \<and>
    lm_torrents (ap_list a') = filter (\<lambda>t. cl_torrent_infohash t \<noteq> ih) (lm_torrents (ap_list a))"
proof -
  have "app_update env (Key ''enter'') a = Inr (a, [Delete_Cmd (Some h) ih])"
    using assms(1-3) by (simp add: app_update_def forward_def confirm_update_def new_confirm_model_def)
  moreover have "run_cmd env send (Delete_Cmd (Some h) ih) ct = Inr (Some (Torrent_Deleted ih), delete_torrent ih ct)"
    using assms(5) client_delete[OF assms(4,7)] by (simp add: run_cmd_defs done_reply_def)
  moreover have "app_update env (Torrent_Deleted ih) a =
      Inr (a\<lparr>ap_active_view := View_List, ap_list := list_remove_torrent ih (ap_list a)\<rparr>, [])"
    by (simp add: app_update_def)
  moreover have "lm_torrents (list_remove_torrent ih (ap_list a)) = filter (\<lambda>t. cl_torrent_infohash t \<noteq> ih) (lm_torrents (ap_list a))"
    by (simp add: list_remove_torrent_def Let_def)
  ultimately show ?thesis
    using delete_reaches[OF assms(6), of ih] delete_unmentioned[of ih ct]
    by (intro exI[of _ "delete_torrent ih ct"]
        exI[of _ "a\<lparr>ap_active_view := View_List, ap_list := list_remove_torrent ih (ap_list a)\<rparr>"]) simp
qed

theorem confirm_deletes_witness:
  "\<exists>ct'. run_cmd sample_ui sample_send (Delete_Cmd (Some (asc ''h'')) ''0a'') sample_shelf = Inr (Some (Torrent_Deleted ''0a''), ct') \<and>
     db_reachable ct' \<and> \<not> mentions ''0a'' (ct_db ct')"
proof -
  let ?a = "(start_app sample_ui (asc ''h''))\<lparr>ap_active_view := View_Confirm_Delete,
    ap_confirm := new_confirm_model ''0a'' [97] View_List (Some (asc ''h''))\<rparr>"
  have a: "ap_active_view ?a = View_Confirm_Delete" "\<not> ue_focused sample_ui (lm_search_input (ap_list ?a))"
    "ap_confirm ?a = new_confirm_model ''0a'' [97] View_List (Some (asc ''h''))"
    using sample_start(2) by simp_all
  have "plain_segment ''0a''" by (simp add: plain_segment_def)
  from confirm_deletes[where send = sample_send and ct = sample_shelf, OF a sample_up(1) refl sample_shelf_reachable this]
  show ?thesis by blast
qed


subsection \<open>A change of state\<close>

text \<open>
  Choosing a state in the picker sets it: if the torrent, with an infohash of letters and digits, is in the database,
  its row and the view then have the chosen state.
\<close>

theorem picker_sets_state:
  assumes "ap_active_view a = View_Detail" and "\<not> ue_focused env (lm_search_input (ap_list a))"
    and "dm_picker_open (ap_detail a)" and "dm_torrent (ap_detail a) = Some t" and "detail_ok (ap_detail a)"
    and "dm_client (ap_detail a) = Some h" and "se_up senv" and "send h = direct senv"
    and "plain_segment (cl_torrent_infohash t)" and "map_get (torrents (ct_db ct)) (cl_torrent_infohash t) = Some row"
  shows "\<exists>st ct' a' s. app_update env (Key ''enter'') a = Inr (a, [Update_State_Cmd (Some h) (cl_torrent_infohash t) st]) \<and>
    st = valid_states ! nat (dm_picker_cursor (ap_detail a)) \<and>
    run_cmd env send (Update_State_Cmd (Some h) (cl_torrent_infohash t) st) ct = Inr (Some (State_Updated (cl_torrent_infohash t) st), ct') \<and>
    map_get (torrents (ct_db ct')) (cl_torrent_infohash t) = Some (row\<lparr>tr_state := s\<rparr>) \<and> state_label s = st \<and>
    app_update env (State_Updated (cl_torrent_infohash t) st) a = Inr (a', []) \<and>
    dm_torrent (ap_detail a') = Some (t\<lparr>cl_torrent_state := st\<rparr>) \<and> \<not> dm_picker_open (ap_detail a')"
proof -
  let ?ih = "cl_torrent_infohash t"
  define st where "st = valid_states ! nat (dm_picker_cursor (ap_detail a))"
  have st: "st \<in> set valid_states" using assms(5) by (auto simp: st_def detail_ok_def intro!: nth_mem)
  have "\<not> (dm_picker_cursor (ap_detail a) < 0 \<or> dm_picker_cursor (ap_detail a) \<ge> int (length valid_states))"
    using assms(5) by (auto simp: detail_ok_def)
  then have k: "app_update env (Key ''enter'') a = Inr (a, [Update_State_Cmd (Some h) ?ih st])"
    using assms(1-4,6) by (simp add: app_update_def forward_def detail_update_def update_picker_def st_def)
  obtain s where s: "state_label s = st" "client_update_state (direct senv) ?ih st ct = (None, update_torrent_state ?ih s ct)"
    using client_update[OF assms(7) st assms(9)] by metis
  have r: "run_cmd env send (Update_State_Cmd (Some h) ?ih st) ct = Inr (Some (State_Updated ?ih st), update_torrent_state ?ih s ct)"
    using st s(2) assms(8) by (simp add: run_cmd_defs done_reply_def)
  have u: "map_get (torrents (ct_db (update_torrent_state ?ih s ct))) ?ih = Some (row\<lparr>tr_state := s\<rparr>)"
    using updated_row[of ?ih s ct] assms(10) by simp
  have v: "app_update env (State_Updated ?ih st) a = Inr (a\<lparr>ap_detail := (ap_detail a)\<lparr>dm_torrent := Some (t\<lparr>cl_torrent_state := st\<rparr>),
      dm_picker_open := False\<rparr>\<rparr>, [])"
    using assms(1,4) by (simp add: app_update_def forward_def detail_update_def)
  show ?thesis using k r u v s(1) st_def by (intro exI[of _ st] exI[of _ "update_torrent_state ?ih s ct"] exI conjI) auto
qed

theorem picker_sets_state_witness:
  "\<exists>ct' s. run_cmd sample_ui sample_send (Update_State_Cmd (Some (asc ''h'')) ''0a'' ''dead'') sample_shelf =
       Inr (Some (State_Updated ''0a'' ''dead''), ct') \<and>
     map_get (torrents (ct_db ct')) ''0a'' = Some ((sample_row [97])\<lparr>tr_state := s\<rparr>) \<and> state_label s = ''dead''"
proof -
  let ?t = "client_torrent_of (''0a'', sample_row [97])"
  let ?d = "(new_detail_model (Some (asc ''h'')))\<lparr>dm_torrent := Some ?t, dm_picker_open := True, dm_picker_cursor := 4\<rparr>"
  let ?a = "(start_app sample_ui (asc ''h''))\<lparr>ap_active_view := View_Detail, ap_detail := ?d\<rparr>"
  have t: "cl_torrent_infohash ?t = ''0a''" by (simp add: client_torrent_of_def Let_def)
  have "\<not> ue_focused sample_ui (lm_search_input (ap_list ?a))" "detail_ok (ap_detail ?a)"
    "map_get (torrents (ct_db sample_shelf)) (cl_torrent_infohash ?t) = Some (sample_row [97])"
    using sample_start(2) by (simp_all add: detail_ok_def valid_states_def t sample_shelf_def)
  from picker_sets_state[where send = sample_send and ct = sample_shelf and a = ?a and h = "asc ''h''", OF _ this(1) _ _ this(2) _ sample_up(1) refl _ this(3)]
  show ?thesis by (auto simp: t plain_segment_def valid_states_def new_detail_model_def)
qed


subsection \<open>A host with the letter q\<close>

text \<open>Keys typed one after another, up to the first that ends the program.\<close>

fun type_keys :: "'i ui_env \<Rightarrow> string list \<Rightarrow> 'i app \<Rightarrow> 'i app updated" where
  "type_keys env [] a = Inr (a, [])"
| "type_keys env (k # ks) a =
     (case app_update env (Key k) a of
        Inl p \<Rightarrow> Inl p
      | Inr (a', cs) \<Rightarrow> if Quit \<in> set cs then Inr (a', [Quit]) else type_keys env ks a')"

text \<open>
  The host field takes no letter q: whatever host with a q is typed into the interface that was started without
  one, the program quits.
\<close>

theorem host_with_q_quits:
  assumes "input_law env" and "\<not> ue_focused env (ue_new env)" and "list_all (\<lambda>k. length k = 1) ks" and "''q'' \<in> set ks"
  shows "\<exists>a. type_keys env ks (start_app env []) = Inr (a, [Quit])"
proof -
  have "\<exists>a'. type_keys env ks a = Inr (a', [Quit])"
    if "ap_active_view a = View_Config" "\<not> ue_focused env (lm_search_input (ap_list a))" for a
    using assms(3,4) that
  proof (induction ks arbitrary: a)
    case (Cons k ks)
    show ?case
    proof (cases "k = ''q''")
      case True
      with Cons.prems show ?thesis by (simp add: app_update_def)
    next
      case False
      obtain i cs where i: "ue_update env (Key k) (cm_host_input (ap_config a)) = (i, cs)" by (metis surj_pair)
      have "k \<noteq> ''esc''" "k \<noteq> ''enter''" "k \<noteq> ''ctrl+c''" using Cons.prems(1) by auto
      with Cons.prems(3,4) False i
      have "app_update env (Key k) a = Inr (a\<lparr>ap_config := (ap_config a)\<lparr>cm_host_input := i\<rparr>\<rparr>, cs)"
        by (simp add: app_update_def forward_def config_update_def config_input_def)
      moreover have "Quit \<notin> set cs" using input_cmds[OF assms(1) i] by auto
      ultimately show ?thesis using Cons False by simp
    qed
  qed simp
  then show ?thesis using assms(2) by (simp add: start_app_def new_app_def Let_def new_list_model_def)
qed

theorem host_with_q_quits_witness:
  "\<exists>a. type_keys sample_ui [''s'', ''q'', ''l''] (start_app sample_ui []) = Inr (a, [Quit])"
  by (rule host_with_q_quits[OF sample_input_law]) (simp_all add: sample_ui_def)

subsection \<open>Answers out of order\<close>

text \<open>
  Two page turns in quick succession whose answers arrive in the other order leave the list on one page and
  the status line on the next: the answers do not say which request they belong to.
\<close>

theorem late_answer_shown:
  assumes "ap_active_view a = View_List" and "\<not> ue_focused env (lm_search_input (ap_list a))"
    and "\<not> lm_is_last_page (ap_list a)"
  shows "\<exists>a1 a2 a3 a4 q1 q2. app_update env (Key ''l'') a = Inr (a1, [Spin, Fetch_Torrents (lm_client (ap_list a)) q1]) \<and>
    app_update env (Key ''l'') a1 = Inr (a2, [Spin, Fetch_Torrents (lm_client (ap_list a)) q2]) \<and>
    lq_offset q1 = (lm_page (ap_list a) + 1) * page_size \<and> lq_offset q2 = (lm_page (ap_list a) + 2) * page_size \<and>
    app_update env (Torrents_Loaded page2) a2 = Inr (a3, []) \<and> app_update env (Torrents_Loaded page1) a3 = Inr (a4, []) \<and>
    lm_torrents (ap_list a4) = page1 \<and> list_params (ap_list a4) = q2 \<and> \<not> lm_loading (ap_list a4)"
proof -
  let ?turn = "\<lambda>m. m\<lparr>lm_page := lm_page m + 1, lm_loading := True, lm_err := []\<rparr>"
  let ?a1 = "a\<lparr>ap_list := ?turn (ap_list a)\<rparr>"
  let ?a2 = "a\<lparr>ap_list := ?turn (?turn (ap_list a))\<rparr>"
  let ?load = "\<lambda>ts b. b\<lparr>ap_list := (ap_list b)\<lparr>lm_loading := False, lm_torrents := ts, lm_is_last_page := int (length ts) < page_size,
      lm_cursor := 0\<rparr>\<rparr>"
  have turn: "app_update env (Key ''l'') b = Inr (b\<lparr>ap_list := ?turn (ap_list b)\<rparr>,
      [Spin, Fetch_Torrents (lm_client (ap_list b)) (list_params (?turn (ap_list b)))])"
    if "ap_active_view b = View_List" "\<not> ue_focused env (lm_search_input (ap_list b))" "\<not> lm_is_last_page (ap_list b)" for b
    using list_key[OF that(1,2), of "''l''"] that(3) by (simp add: update_table_focused_def fetch_page_def Let_def)
  have t: "app_update env (Key ''l'') a = Inr (?a1, [Spin, Fetch_Torrents (lm_client (ap_list a)) (list_params (?turn (ap_list a)))])"
    "app_update env (Key ''l'') ?a1 = Inr (?a2, [Spin, Fetch_Torrents (lm_client (ap_list a)) (list_params (?turn (?turn (ap_list a))))])"
    using turn[of a] turn[of ?a1] assms by simp_all
  have l: "app_update env (Torrents_Loaded page2) ?a2 = Inr (?load page2 ?a2, [])"
    "app_update env (Torrents_Loaded page1) (?load page2 ?a2) = Inr (?load page1 (?load page2 ?a2), [])"
    using assms(1) list_loaded[of ?a2 env page2] list_loaded[of "?load page2 ?a2" env page1] by simp_all
  show ?thesis
    by (intro exI conjI) (rule t(1), rule t(2), simp add: list_params_def, simp add: list_params_def, rule l(1), rule l(2),
        simp_all add: list_params_def)
qed

theorem late_answer_shown_witness:
  "\<exists>a1 a2 a3 a4 q1 q2. app_update sample_ui (Key ''l'') (start_app sample_ui (asc ''h'')) =
      Inr (a1, [Spin, Fetch_Torrents (Some (asc ''h'')) q1]) \<and>
    app_update sample_ui (Key ''l'') a1 = Inr (a2, [Spin, Fetch_Torrents (Some (asc ''h'')) q2]) \<and>
    lq_offset q1 = 50 \<and> lq_offset q2 = 100 \<and>
    app_update sample_ui (Torrents_Loaded []) a2 = Inr (a3, []) \<and>
    app_update sample_ui (Torrents_Loaded [client_torrent_of (''0a'', sample_row [97])]) a3 = Inr (a4, []) \<and>
    lm_torrents (ap_list a4) = [client_torrent_of (''0a'', sample_row [97])] \<and> list_params (ap_list a4) = q2 \<and>
    \<not> lm_loading (ap_list a4)"
  using late_answer_shown[OF sample_start(1-3), of "[]" "[client_torrent_of (''0a'', sample_row [97])]"] sample_start(5,6)
  by simp

subsection \<open>Rows out of sight\<close>

text \<open>
  The table is drawn from its first row on and does not follow the cursor: when the cursor is below the last row
  that fits, no row is highlighted, and yet the keys act on the torrent under it.
\<close>

theorem hidden_row_selected:
  assumes "ap_active_view a = View_List" and "\<not> ue_focused env (lm_search_input (ap_list a))"
    and "max_rows (ap_list a) \<le> lm_cursor (ap_list a)" and "lm_cursor (ap_list a) < int (length (visible_torrents env (ap_list a)))"
  shows "(\<forall>cells. Torrent_Line True cells \<notin> set (render_table env (ap_list a))) \<and>
    (\<exists>t \<in> set (lm_torrents (ap_list a)). app_update env (Key ''d'') a =
      Inr (a, [Send_Msg (Navigate_Confirm_Delete (cl_torrent_infohash t) (cl_torrent_name t) View_List)]))"
proof
  let ?m = "ap_list a" and ?vs = "visible_torrents env (ap_list a)"
  have rows: "0 < max_rows ?m" by (simp add: max_rows_def)
  have "i < nat (max_rows ?m)" if "(i, t) \<in> set (take (nat (max_rows ?m)) (enumerate 0 ?vs))" for i t
    using that by (auto simp: in_set_conv_nth nth_enumerate_eq)
  then have "int i \<noteq> lm_cursor ?m" if "(i, t) \<in> set (take (nat (max_rows ?m)) (enumerate 0 ?vs))" for i t
    using that assms(3) rows by fastforce
  then show "\<forall>cells. Torrent_Line True cells \<notin> set (render_table env ?m)"
    by (auto simp: render_table_def render_table_header_def render_row_def)
  let ?t = "?vs ! nat (lm_cursor ?m)"
  have c: "0 \<le> lm_cursor ?m" using rows assms(3) by linarith
  have "nat (lm_cursor ?m) < length ?vs" using c assms(4) by linarith
  then have "?t \<in> set ?vs" by (rule nth_mem)
  moreover have "set ?vs \<subseteq> set (lm_torrents ?m)" by (auto simp: visible_torrents_def)
  moreover have "?vs \<noteq> []" using c assms(4) by auto
  then have "app_update env (Key ''d'') a =
      Inr (a, [Send_Msg (Navigate_Confirm_Delete (cl_torrent_infohash ?t) (cl_torrent_name ?t) View_List)])"
    using list_key[OF assms(1,2), of "''d''"] c assms(4) by (simp add: update_table_focused_def on_selected_def at_cursor_def)
  ultimately show "\<exists>t \<in> set (lm_torrents ?m). app_update env (Key ''d'') a =
      Inr (a, [Send_Msg (Navigate_Confirm_Delete (cl_torrent_infohash t) (cl_torrent_name t) View_List)])"
    by blast
qed

definition sample_scrolled :: "(runes \<times> bool) app" where
  "sample_scrolled = (start_app sample_ui (asc ''h''))\<lparr>ap_list := (new_list_model sample_ui (Some (asc ''h'')))
     \<lparr>lm_torrents := replicate 5 (client_torrent_of (''0a'', sample_row [97])), lm_cursor := 4, lm_height := 7\<rparr>\<rparr>"

theorem hidden_row_selected_witness:
  "\<exists>t :: client_torrent. app_update sample_ui (Key ''d'') sample_scrolled =
     Inr (sample_scrolled, [Send_Msg (Navigate_Confirm_Delete (cl_torrent_infohash t) (cl_torrent_name t) View_List)])"
proof -
  have "ap_active_view sample_scrolled = View_List" "\<not> ue_focused sample_ui (lm_search_input (ap_list sample_scrolled))"
    "max_rows (ap_list sample_scrolled) \<le> lm_cursor (ap_list sample_scrolled)"
    "lm_cursor (ap_list sample_scrolled) < int (length (visible_torrents sample_ui (ap_list sample_scrolled)))"
    using sample_start(1)
    by (simp_all add: sample_scrolled_def max_rows_def visible_torrents_def new_list_model_def sample_ui_def)
  from hidden_row_selected[OF this] show ?thesis by blast
qed

subsection \<open>Connecting\<close>

text \<open>
  After a successful connection the connection view is never told: it still says that it is connecting when it is
  opened again.
\<close>

theorem connected_still_loading:
  assumes "ap_active_view a = View_Config" and "\<not> ue_focused env (lm_search_input (ap_list a))" and "\<not> ue_focused env (ue_new env)"
  shows "\<exists>a1 host a2 cs2 a3 cs3. app_update env (Key ''enter'') a = Inr (a1, [Connect host]) \<and>
    app_update env (Client_Connected host) a1 = Inr (a2, cs2) \<and> app_update env (Key ''c'') a2 = Inr (a3, cs3) \<and>
    ap_active_view a3 = View_Config \<and> cm_has_client (ap_config a3) \<and> cm_loading (ap_config a3)"
  using assms
  by (auto simp: app_update_def forward_def config_update_def Let_def set_has_client_def new_list_model_def list_set_size_def show_config_def)

theorem connected_still_loading_witness:
  "\<exists>a1 host a2 cs2 a3 cs3. app_update sample_ui (Key ''enter'') (start_app sample_ui []) = Inr (a1, [Connect host]) \<and>
    app_update sample_ui (Client_Connected host) a1 = Inr (a2, cs2) \<and> app_update sample_ui (Key ''c'') a2 = Inr (a3, cs3) \<and>
    ap_active_view a3 = View_Config \<and> cm_has_client (ap_config a3) \<and> cm_loading (ap_config a3)"
  by (rule connected_still_loading) (simp_all add: start_app_def new_app_def Let_def new_list_model_def sample_ui_def)

end
