(* ===== verification/Classify_Tags.thy ===== *)
theory Classify_Tags
  imports Classify_Names "HOL-Library.Sublist"
begin

section \<open>The tags of a name\<close>

text \<open>
  The quality, the encoding, the dynamic range and the source of a torrent, stated without regular expressions:
  the words of each kind, upper and lower case being the same, and which occurrence of one is reported. The
  proof goes through the language of a pattern (\<open>reads\<close>) and the order in which the search tries the ways to
  match (\<open>longest_first\<close>).
\<close>

subsection \<open>Words\<close>

text \<open>The lower case of ASCII letters; the Kelvin sign and the long s count as k and s.\<close>

definition canon :: "rune \<Rightarrow> rune" where
  "canon r = (if r = 0x212A then 107 else if r = 0x17F then 115 else if 65 \<le> r \<and> r \<le> 90 then r + 32 else r)"

definition same_letters :: "runes \<Rightarrow> string \<Rightarrow> bool" where
  "same_letters w s \<longleftrightarrow> map canon w = map canon (asc s)"

definition one_of :: "string list \<Rightarrow> runes \<Rightarrow> bool" where
  "one_of ss w \<longleftrightarrow> (\<exists>s \<in> set ss. same_letters w s)"

definition quality_word :: "runes \<Rightarrow> bool" where
  "quality_word w \<longleftrightarrow> one_of [''2160p'', ''4k'', ''1080p'', ''1080i'', ''720p'', ''576p'', ''480p'', ''360p''] w \<or>
     (\<exists>u k v. w = u @ k @ v \<and> same_letters u ''4k'' \<and> set k \<subseteq> {9, 10, 12, 13, 32} \<and> same_letters v ''uhd'')"

definition encoding_word :: "runes \<Rightarrow> bool" where
  "encoding_word = one_of [''x265'', ''x264'', ''hevc'', ''av1'', ''avc'', ''xvid'', ''divx'', ''h265'', ''h.265'', ''h264'', ''h.264'']"

definition range_word :: "runes \<Rightarrow> bool" where
  "range_word = one_of [''hdr10+'', ''hdr10'', ''hdr'', ''dolbyvision'', ''dolby.vision'', ''dolby vision'', ''dv'', ''sdr'']"

definition source_word :: "runes \<Rightarrow> bool" where
  "source_word = one_of [''bdremux'', ''remux'', ''bdrip'', ''bluray'', ''blu-ray'', ''web-dl'', ''webdl'', ''webrip'', ''hdtv'',
     ''dvdrip'', ''dvd'', ''pdvd'', ''hdcam'', ''pdtv'', ''web'']"

text \<open>Between \<open>u\<close> and \<open>v\<close> exactly one side is a letter, a digit or an underscore.\<close>

definition word_edge :: "runes \<Rightarrow> runes \<Rightarrow> bool" where
  "word_edge u v \<longleftrightarrow> (u \<noteq> [] \<and> is_word (last u)) \<noteq> (v \<noteq> [] \<and> is_word (hd v))"

definition word_at :: "(runes \<Rightarrow> bool) \<Rightarrow> runes \<Rightarrow> nat \<Rightarrow> runes \<Rightarrow> bool" where
  "word_at T s i w \<longleftrightarrow> T w \<and> (\<exists>u v. s = u @ w @ v \<and> length u = i \<and> word_edge u (w @ v) \<and> word_edge (u @ w) v)"

text \<open>The text reported for the words \<open>T\<close>: the longest of those that start leftmost, and nothing when there is none.\<close>

definition reported :: "(runes \<Rightarrow> bool) \<Rightarrow> runes \<Rightarrow> runes \<Rightarrow> bool" where
  "reported T s t \<longleftrightarrow>
     (if \<exists>i w. word_at T s i w
      then \<exists>i. word_at T s i t \<and> (\<forall>j < i. \<forall>w. \<not> word_at T s j w) \<and> (\<forall>w. word_at T s i w \<longrightarrow> length w \<le> length t)
      else t = [])"

text \<open>There is exactly one such text.\<close>

lemma word_at_inside: "word_at T s i w \<Longrightarrow> i + length w \<le> length s \<and> w = take (length w) (drop i s)"
  by (auto simp: word_at_def)

lemma reported_unique: "reported T s t \<Longrightarrow> reported T s t' \<Longrightarrow> t = t'"
proof (cases "\<exists>i w. word_at T s i w")
  case True
  assume "reported T s t" "reported T s t'"
  with True obtain i j where i: "word_at T s i t" "\<forall>k < i. \<forall>w. \<not> word_at T s k w" "\<forall>w. word_at T s i w \<longrightarrow> length w \<le> length t"
    and j: "word_at T s j t'" "\<forall>k < j. \<forall>w. \<not> word_at T s k w" "\<forall>w. word_at T s j w \<longrightarrow> length w \<le> length t'"
    by (auto simp: reported_def)
  then have "i = j" by (metis linorder_neqE_nat)
  with i j have "length t = length t'" by (metis le_antisym)
  with word_at_inside[OF i(1)] word_at_inside[OF j(1)] \<open>i = j\<close> show "t = t'" by simp
qed (simp add: reported_def)

subsection \<open>The language of a pattern\<close>

lemma orbit_canon: "k \<in> set (orbit r) \<longleftrightarrow> canon r = canon k"
  by (auto simp: orbit_def canon_def split: if_splits)

lemma in_class_canon: "in_class True False [(k, k)] r \<longleftrightarrow> canon r = canon k"
  by (auto simp: in_class_def in_ranges_def list_ex_iff simp flip: orbit_canon)

definition reads :: "regex \<Rightarrow> runes set \<Rightarrow> bool" where
  "reads p L \<longleftrightarrow> (\<forall>b w a. matches True p b w a \<longleftrightarrow> map canon w \<in> L)"

text \<open>The words of a pattern without unbounded repetitions.\<close>

fun forms :: "regex \<Rightarrow> runes list option" where
  "forms Empty = Some [[]]"
| "forms (Class False rs) = (if list_all (\<lambda>(lo, hi). lo = hi) rs then Some (map (\<lambda>(lo, hi). [canon lo]) rs) else None)"
| "forms (Cat p q) = (case (forms p, forms q) of
     (Some L, Some M) \<Rightarrow> Some (concat (map (\<lambda>u. map ((@) u) M) L)) | _ \<Rightarrow> None)"
| "forms (Alt p q) = (case (forms p, forms q) of (Some L, Some M) \<Rightarrow> Some (L @ M) | _ \<Rightarrow> None)"
| "forms (Rep True 0 (Some (Suc 0)) p) = (case forms p of Some L \<Rightarrow> Some (L @ [[]]) | None \<Rightarrow> None)"
| "forms _ = None"

lemma matches_opt: "matches ci (Rep g 0 (Some (Suc 0)) p) b w a \<longleftrightarrow> w = [] \<or> matches ci p b w a"
proof
  have none: "u = []" if "matches ci (Rep g 0 (Some 0) p) c u a" for c u using that by (cases rule: matches_repE) auto
  assume "matches ci (Rep g 0 (Some (Suc 0)) p) b w a"
  then show "w = [] \<or> matches ci p b w a" by (cases rule: matches_repE) (auto dest!: none)
next
  assume "w = [] \<or> matches ci p b w a"
  then show "matches ci (Rep g 0 (Some (Suc 0)) p) b w a"
    using m_rep_more[of "Some (Suc 0)" ci p b w "[]" a g 0] by (auto intro: m_rep_end)
qed

lemma matches_star_class: "matches ci (Rep g 0 None (Class neg rs)) b w a \<longleftrightarrow> list_all (in_class ci neg rs) w"
proof
  show "matches ci (Rep g 0 None (Class neg rs)) b w a \<Longrightarrow> list_all (in_class ci neg rs) w" using matches_rep_class by blast
  show "list_all (in_class ci neg rs) w \<Longrightarrow> matches ci (Rep g 0 None (Class neg rs)) b w a"
  proof (induction w arbitrary: b)
    case (Cons r w)
    then show ?case using m_rep_more[of None ci "Class neg rs" b "[r]" w a g 0] by simp
  qed (simp add: m_rep_end)
qed

lemma reads_cat: "reads p L \<Longrightarrow> reads q M \<Longrightarrow> reads (Cat p q) {u @ v | u v. u \<in> L \<and> v \<in> M}"
  unfolding reads_def matches_cat by (force simp: map_eq_append_conv)

lemma forms_reads: "forms p = Some L \<Longrightarrow> reads p (set L)"
proof (induction p arbitrary: L rule: forms.induct)
  case (2 rs)
  then have eq: "\<forall>(lo, hi) \<in> set rs. lo = hi" "L = map (\<lambda>(lo, hi). [canon lo]) rs"
    by (simp_all add: list_all_iff split: if_splits)
  have ranges: "in_ranges rs x \<longleftrightarrow> (x, x) \<in> set rs" for x
    using eq(1) by (fastforce simp: in_ranges_def list_ex_iff)
  have "in_class True False rs r \<longleftrightarrow> (\<exists>x \<in> set (orbit r). (x, x) \<in> set rs)" for r
    by (simp add: in_class_def list_ex_iff ranges)
  also have "\<dots> r \<longleftrightarrow> (\<exists>x. canon r = canon x \<and> (x, x) \<in> set rs)" for r
    by (auto simp: orbit_canon)
  also have "\<dots> r \<longleftrightarrow> [canon r] \<in> set L" for r
    using eq(1) by (force simp: eq(2))
  finally have "in_class True False rs r \<longleftrightarrow> [canon r] \<in> set L" for r .
  moreover have "\<exists>r. w = [r]" if "map canon w \<in> set L" for w using that by (auto simp: eq(2) Cons_eq_map_conv map_eq_Cons_conv)
  ultimately show ?case by (fastforce simp: reads_def)
next
  case (3 p q)
  then obtain Lp Lq where L: "forms p = Some Lp" "forms q = Some Lq" "L = concat (map (\<lambda>u. map ((@) u) Lq) Lp)"
    by (auto split: option.splits)
  have "set L = {u @ v | u v. u \<in> set Lp \<and> v \<in> set Lq}" by (auto simp: L(3))
  then show ?case using reads_cat[OF 3(1)[OF L(1)] 3(2)[OF L(2)]] by simp
next
  case (4 p q)
  then show ?case by (fastforce simp: reads_def split: option.splits)
next
  case (5 p)
  then show ?case by (fastforce simp: reads_def matches_opt split: option.splits)
qed (auto simp: reads_def)

subsection \<open>The order of the search\<close>

text \<open>The search tries the longer matches first.\<close>

abbreviation rest_len :: "match_state \<Rightarrow> nat" where "rest_len st \<equiv> length (fst (snd st))"

definition longest_first :: "regex \<Rightarrow> bool" where
  "longest_first p \<longleftrightarrow> (\<forall>st. sorted_wrt (\<lambda>x y. rest_len x \<le> rest_len y) (run True p st))"

text \<open>No word of the first language goes on to one of the second.\<close>

definition no_longer :: "runes set \<Rightarrow> runes set \<Rightarrow> bool" where
  "no_longer L M \<longleftrightarrow> (\<forall>u \<in> L. \<forall>v \<in> M. prefix u v \<longrightarrow> u = v)"

lemma run_rest:
  assumes "st' \<in> set (run True p (b, a, cs))" "reads p L"
  obtains w where "a = w @ fst (snd st')" "map canon w \<in> L"
  using run_sound[OF assms(1)] assms(2) unfolding consumes_def reads_def by auto

lemma longer_first:
  assumes "no_longer L M" "w @ r = v @ r'" "map canon w \<in> L" "map canon v \<in> M"
  shows "length r \<le> length r'"
proof (rule ccontr)
  assume "\<not> length r \<le> length r'"
  with arg_cong[OF assms(2), of length] have "length w < length v" by simp
  with assms(2) obtain u where u: "v = w @ u" "u \<noteq> []" by (auto simp: append_eq_append_conv2)
  then have "prefix (map canon w) (map canon v)" by simp
  with assms(1,3,4) have "map canon w = map canon v" by (auto simp: no_longer_def)
  with u show False by (simp add: u(1))
qed

lemma run_pair:
  assumes "x \<in> set (run True p st)" "y \<in> set (run True q st)" "reads p L" "reads q M" "no_longer L M"
  shows "rest_len x \<le> rest_len y"
proof -
  obtain b a cs where st: "st = (b, a, cs)" by (cases st)
  from run_rest[OF assms(1)[unfolded st] assms(3)] obtain w where w: "a = w @ fst (snd x)" "map canon w \<in> L" .
  from run_rest[OF assms(2)[unfolded st] assms(4)] obtain v where v: "a = v @ fst (snd y)" "map canon v \<in> M" .
  from longer_first[OF assms(5) _ w(2) v(2)] w(1) v(1) show ?thesis by simp
qed

lemma sorted_wrt_all: "(\<And>x y. x \<in> set xs \<Longrightarrow> y \<in> set xs \<Longrightarrow> P x y) \<Longrightarrow> sorted_wrt P xs"
  by (induction xs) auto

lemma longest_same: "reads p L \<Longrightarrow> no_longer L L \<Longrightarrow> longest_first p"
  unfolding longest_first_def by (blast intro: sorted_wrt_all run_pair)

lemma longest_opt: "longest_first p \<Longrightarrow> longest_first (opt p)"
proof -
  assume p: "longest_first p"
  have "rep (run True p) True 0 0 = (\<lambda>st. [st])" by (rule ext) simp
  then have r: "run True (opt p) st = run True p st @ [st]" for st by (cases st) (simp add: opt_def Let_def)
  have "rest_len x \<le> rest_len st" if "x \<in> set (run True p st)" for x st
    using run_sound[OF that] by (auto simp: consumes_def)
  with p show "longest_first (opt p)" unfolding longest_first_def r by (simp add: sorted_wrt_append)
qed

lemma longest_seqs:
  assumes "longest_first (seqs ps)"
  shows "longest_first (seqs (lit s # ps))"
proof -
  have one: "length (run True (lit s) st) \<le> 1" for st
  proof (induction s arbitrary: st)
    case (Cons c s)
    obtain b a cs where st: "st = (b, a, cs)" by (cases st)
    show ?case
    proof (cases a)
      case (Cons r a')
      with Cons.IH[of "(r # b, a', cs)"] show ?thesis by (simp add: lit_def st)
    qed (simp add: lit_def st)
  qed (simp add: lit_def)
  have "sorted_wrt (\<lambda>x y. rest_len x \<le> rest_len y) (concat (map (run True (seqs ps)) xs))" if "length xs \<le> 1" for xs
    using that assms by (cases xs) (auto simp: longest_first_def)
  with one show ?thesis unfolding longest_first_def seqs_def by simp
qed

lemma longest_alts:
  assumes "list_all2 reads ps Ls" "list_all longest_first ps" "sorted_wrt no_longer Ls"
  shows "longest_first (alts ps)"
  using assms
proof (induction ps arbitrary: Ls rule: alts.induct)
  case 1
  then show ?case by (auto simp: longest_first_def in_class_def in_ranges_def list_ex_iff split: list.split)
next
  case (3 p q ps)
  then obtain L Ms where L: "Ls = L # Ms" "reads p L" "list_all2 reads (q # ps) Ms" by (auto simp: list_all2_Cons1)
  have "longest_first (alts (q # ps))" using 3 L by (intro "3.IH"[of Ms]) (auto simp: L(1))
  moreover have "rest_len x \<le> rest_len y" if "x \<in> set (run True p st)" "y \<in> set (run True (alts (q # ps)) st)" for x y st
  proof -
    obtain b a cs where st: "st = (b, a, cs)" by (cases st)
    from run_sound[OF that(2)[unfolded st]] obtain v where
      v: "a = v @ fst (snd y)" "matches True (alts (q # ps)) b v (fst (snd y))" by (auto simp: consumes_def)
    from v(2) obtain p' where "p' \<in> set (q # ps)" "matches True p' b v (fst (snd y))" unfolding matches_alts by blast
    with L(3) obtain M where M: "M \<in> set Ms" "map canon v \<in> M"
      unfolding reads_def list_all2_conv_all_nth in_set_conv_nth by metis
    then have no: "no_longer L M" using 3(4) by (simp add: L(1))
    from run_rest[OF that(1)[unfolded st] L(2)] obtain w where w: "a = w @ fst (snd x)" "map canon w \<in> L" .
    from longer_first[OF no _ w(2) M(2)] w(1) v(1) show ?thesis by simp
  qed
  ultimately show ?case using 3(3) unfolding longest_first_def by (simp add: sorted_wrt_append)
qed simp

text \<open>The first match of a pattern whose search goes by length is the longest of those at its position.\<close>

lemma find_from_head:
  "find_from ci p b a = Some m \<Longrightarrow> \<exists>b' cs rest. run ci p (rev (m_before m), m_text m @ m_after m, []) = (b', m_after m, cs) # rest"
proof (induction a arbitrary: b)
  case Nil
  then obtain b' a' cs rest where r: "run ci p (b, [], []) = (b', a', cs) # rest"
    "m = \<lparr>m_before = rev b, m_text = rev (take (length b' - length b) b'), m_after = a', m_caps = cs\<rparr>"
    by (subst (asm) find_from.simps) (auto split: list.splits)
  then show ?case using run_sound[of "(b', a', cs)" ci p "(b, [], [])"] by (auto simp: consumes_def)
next
  case (Cons r a)
  show ?case
  proof (cases "run ci p (b, r # a, [])")
    case Nil
    then have "find_from ci p (r # b) a = Some m" using Cons.prems by (subst (asm) find_from.simps) simp
    then show ?thesis by (rule Cons.IH)
  next
    case (Cons st sts)
    obtain b' a' cs where st: "st = (b', a', cs)" by (cases st)
    from Cons have "(b', a', cs) \<in> set (run ci p (b, r # a, []))" by (simp add: st)
    from run_sound[OF this] obtain w where w: "r # a = w @ a'" "b' = rev w @ b" by (auto simp: consumes_def)
    have "m = \<lparr>m_before = rev b, m_text = w, m_after = a', m_caps = cs\<rparr>"
      using Cons.prems Cons w(2) by (subst (asm) find_from.simps) (simp add: st)
    then show ?thesis using Cons by (simp add: st flip: w(1))
  qed
qed

subsection \<open>Words between edges\<close>

lemma at_boundary_edge: "at_boundary (rev u) v \<longleftrightarrow> word_edge u v"
  by (cases u rule: rev_cases; cases v) (simp_all add: at_boundary_def word_before_def word_edge_def)

lemma longest_bounded:
  assumes "longest_first p"
  shows "longest_first (seqs [Word_Bound, Group k p, Word_Bound])"
proof -
  define h where "h b = (\<lambda>(b' :: runes, a' :: runes, cs' :: caps). (b', a', (k, rev (take (length b' - length b) b')) # cs'))" for b :: runes
  have "concat (map (\<lambda>st. run True (Cat Word_Bound Empty) st) (map (h b) xs)) =
      map (h b) (filter (\<lambda>(b, a, cs). at_boundary b a) xs)" for b xs
    by (induction xs) (auto simp: h_def)
  then have "run True (seqs [Word_Bound, Group k p, Word_Bound]) (b, a, cs) =
      (if at_boundary b a then map (h b) (filter (\<lambda>(b, a, cs). at_boundary b a) (run True p (b, a, cs))) else [])" for b a cs
    by (simp add: seqs_def h_def cong: map_cong)
  moreover have "rest_len (h b st) = rest_len st" for b st by (cases st) (simp add: h_def)
  ultimately show ?thesis using assms
    by (auto simp: longest_first_def sorted_wrt_map sorted_wrt_filter)
qed

text \<open>A tag pattern: alternatives between two word boundaries, upper and lower case alike.\<close>

definition tag_pattern :: "regex list \<Rightarrow> regexp" where
  "tag_pattern ps = \<lparr>re_fold = True, re_prog = seqs [Word_Bound, Group 1 (alts ps), Word_Bound]\<rparr>"

lemma match_at_word:
  assumes "list_all2 reads ps Ls" "\<And>w. T w \<longleftrightarrow> map canon w \<in> \<Union> (set Ls)" "i \<le> length s"
  shows "match_at (tag_pattern ps) s i w \<longleftrightarrow> word_at T s i w"
proof -
  have "matches True (alts ps) b w a \<longleftrightarrow> T w" for b a
    using assms(1) unfolding matches_alts assms(2) reads_def list_all2_conv_all_nth
    by (metis UN_iff Union_iff in_set_conv_nth)
  then have "match_at (tag_pattern ps) s i w \<longleftrightarrow> (\<exists>a. s = take i s @ w @ a \<and> T w \<and> word_edge (take i s) (w @ a) \<and>
      word_edge (take i s @ w) a)"
    by (auto simp: match_at_def tag_pattern_def simp flip: at_boundary_edge)
  also have "\<dots> \<longleftrightarrow> word_at T s i w"
    using assms(3) unfolding word_at_def by (metis append_eq_conv_conj append_take_drop_id length_take min.absorb2)
  finally show ?thesis .
qed

lemma first_match_reported:
  assumes "list_all2 reads ps Ls" "list_all longest_first ps" "sorted_wrt no_longer Ls" "proper (alts ps)"
    and T: "\<And>w. T w \<longleftrightarrow> map canon w \<in> \<Union> (set Ls)"
  shows "reported T s (first_match (tag_pattern ps) s)"
proof -
  let ?re = "tag_pattern ps"
  have proper: "proper (re_prog ?re)" using assms(4) by (simp add: tag_pattern_def)
  note word = match_at_word[OF assms(1) T]
  have inside: "i \<le> length s" if "word_at T s i w" for i w using that by (auto simp: word_at_def)
  show ?thesis
  proof (cases "find_match ?re s")
    case None
    from find_match_None[OF None proper] word inside have "\<not> word_at T s i w" for i w by blast
    then show ?thesis by (simp add: reported_def first_match_def find_string_def None)
  next
    case (Some m)
    from find_match_Some[OF Some proper] have m: "s = m_before m @ m_text m @ m_after m"
      "match_at ?re s (length (m_before m)) (m_text m)" "\<forall>j < length (m_before m). \<forall>w. \<not> match_at ?re s j w"
      unfolding leftmost_def by blast+
    from arg_cong[OF m(1), of length] have len: "length (m_before m) \<le> length s" by simp
    have "length w \<le> length (m_text m)" if "match_at ?re s (length (m_before m)) w" for w
    proof -
      have "take (length (m_before m)) s = m_before m" using arg_cong[OF m(1), of "take (length (m_before m))"] by simp
      with that obtain a where a: "s = m_before m @ w @ a" "matches True (re_prog ?re) (rev (m_before m)) w a"
        by (auto simp: match_at_def tag_pattern_def)
      then have wa: "w @ a = m_text m @ m_after m" using m(1) by simp
      from run_complete[OF a(2) proper, of "[]"] obtain cs where
        later: "(rev w @ rev (m_before m), a, cs) \<in> set (run True (re_prog ?re) (rev (m_before m), m_text m @ m_after m, []))"
        by (auto simp: wa)
      obtain b' cs' rest where head: "run True (re_prog ?re) (rev (m_before m), m_text m @ m_after m, []) = (b', m_after m, cs') # rest"
        using find_from_head[OF Some[unfolded find_match_def]] by (auto simp: tag_pattern_def)
      have "longest_first (re_prog ?re)"
        using longest_bounded[OF longest_alts[OF assms(1-3)], of 1] by (simp add: tag_pattern_def)
      then have "sorted_wrt (\<lambda>x y. rest_len x \<le> rest_len y) ((b', m_after m, cs') # rest)"
        unfolding longest_first_def head[symmetric] by blast
      with later[unfolded head] have "length (m_after m) \<le> length a" by auto
      with arg_cong[OF wa, of length] show ?thesis by simp
    qed
    with word m(2,3) len have "word_at T s (length (m_before m)) (m_text m)"
      "\<forall>j < length (m_before m). \<forall>w. \<not> word_at T s j w"
      "\<forall>w. word_at T s (length (m_before m)) w \<longrightarrow> length w \<le> length (m_text m)" by auto
    then show ?thesis unfolding reported_def first_match_def find_string_def Some by auto
  qed
qed

subsection \<open>The four kinds of tags\<close>

text \<open>What is to be computed for a pattern without unbounded repetitions.\<close>

definition clear_of :: "runes list \<Rightarrow> runes list \<Rightarrow> bool" where
  "clear_of L M \<longleftrightarrow> list_all (\<lambda>u. list_all (\<lambda>v. prefix u v \<longrightarrow> u = v) M) L"

definition forms_of :: "regex \<Rightarrow> runes list" where
  "forms_of p = (case forms p of None \<Rightarrow> [] | Some L \<Rightarrow> L)"

definition spells :: "regex list \<Rightarrow> string list \<Rightarrow> bool" where
  "spells ps ss \<longleftrightarrow>
     list_all (\<lambda>p. forms p \<noteq> None \<and> proper p \<and> clear_of (forms_of p) (forms_of p)) ps \<and>
     sorted_wrt (\<lambda>p q. clear_of (forms_of p) (forms_of q)) ps \<and>
     set (concat (map forms_of ps)) = set (map (\<lambda>s. map canon (asc s)) ss)"

lemma clear_no_longer: "clear_of L M \<longleftrightarrow> no_longer (set L) (set M)"
  by (auto simp: clear_of_def no_longer_def list_all_iff)

lemma forms_of_reads: "forms p \<noteq> None \<Longrightarrow> reads p (set (forms_of p))"
  by (auto simp: forms_of_def forms_reads)

lemma proper_alts: "list_all proper ps \<Longrightarrow> proper (alts ps)"
  by (induction ps rule: alts.induct) auto

lemma finite_tag_reported:
  assumes "spells ps ss"
  shows "reported (one_of ss) s (first_match (tag_pattern ps) s)"
proof (rule first_match_reported[of _ "map (\<lambda>p. set (forms_of p)) ps"])
  note sp = assms[unfolded spells_def clear_no_longer]
  show "list_all2 reads ps (map (\<lambda>p. set (forms_of p)) ps)"
    using sp by (auto simp: list_all2_conv_all_nth list_all_length intro: forms_of_reads)
  show "list_all longest_first ps"
    unfolding list_all_iff
  proof
    fix p
    assume "p \<in> set ps"
    with sp have "forms p \<noteq> None" "no_longer (set (forms_of p)) (set (forms_of p))" by (auto simp: list_all_iff)
    then show "longest_first p" by (blast intro: longest_same forms_of_reads)
  qed
  show "sorted_wrt no_longer (map (\<lambda>p. set (forms_of p)) ps)" using sp by (simp add: sorted_wrt_map)
  show "proper (alts ps)" using sp by (intro proper_alts) (auto simp: list_all_iff)
  fix w
  have "one_of ss w \<longleftrightarrow> map canon w \<in> set (map (\<lambda>s. map canon (asc s)) ss)" by (auto simp: one_of_def same_letters_def)
  also have "\<dots> \<longleftrightarrow> map canon w \<in> set (concat (map forms_of ps))" using sp by simp
  finally show "one_of ss w \<longleftrightarrow> map canon w \<in> \<Union> (set (map (\<lambda>p. set (forms_of p)) ps))" by simp
qed

lemma encoding_reported: "reported encoding_word s (first_match re_encoding s)"
proof -
  let ?ps = "[lit ''x265'', lit ''x264'', lit ''HEVC'', lit ''AV1'', lit ''AVC'', lit ''XviD'', lit ''DivX'',
    seqs [lit ''H'', opt (lit ''.''), lit ''265''], seqs [lit ''H'', opt (lit ''.''), lit ''264'']]"
  have pattern: "re_encoding = tag_pattern ?ps" by (simp only: re_encoding_def tag_pattern_def)
  have "spells ?ps [''x265'', ''x264'', ''hevc'', ''av1'', ''avc'', ''xvid'', ''divx'', ''h265'', ''h.265'', ''h264'', ''h.264'']"
    by code_simp
  from finite_tag_reported[OF this] show ?thesis by (simp only: encoding_word_def pattern)
qed

lemma range_reported: "reported range_word s (first_match re_dynamic_range s)"
proof -
  let ?ps = "[lit ''HDR10+'', lit ''HDR10'', seqs [lit ''Dolby'', opt (Class False [(46, 46), (32, 32)]), lit ''Vision''],
    lit ''DV'', lit ''HDR'', lit ''SDR'']"
  have pattern: "re_dynamic_range = tag_pattern ?ps" by (simp only: re_dynamic_range_def tag_pattern_def)
  have "spells ?ps [''hdr10+'', ''hdr10'', ''hdr'', ''dolbyvision'', ''dolby.vision'', ''dolby vision'', ''dv'', ''sdr'']"
    by code_simp
  from finite_tag_reported[OF this] show ?thesis by (simp only: range_word_def pattern)
qed

lemma source_reported: "reported source_word s (first_match re_source s)"
proof -
  let ?ps = "[lit ''BDRemux'', lit ''BDREMUX'', lit ''REMUX'', lit ''BDRip'', lit ''BluRay'', lit ''Blu-Ray'', lit ''WEB-DL'',
    lit ''WEBDL'', lit ''WEBRip'', lit ''HDTV'', lit ''DVDRip'', lit ''DVD'', lit ''PDVD'', lit ''HDCAM'', lit ''PDTV'', lit ''WEB'']"
  have pattern: "re_source = tag_pattern ?ps" by (simp only: re_source_def tag_pattern_def)
  have "spells ?ps [''bdremux'', ''remux'', ''bdrip'', ''bluray'', ''blu-ray'', ''web-dl'', ''webdl'', ''webrip'', ''hdtv'',
      ''dvdrip'', ''dvd'', ''pdvd'', ''hdcam'', ''pdtv'', ''web'']"
    by code_simp
  from finite_tag_reported[OF this] show ?thesis by (simp only: source_word_def pattern)
qed

text \<open>The qualities, where 4K may be followed by any white space and UHD.\<close>

definition blanks :: "rune set" where "blanks = {9, 10, 12, 13, 32}"

lemma canon_blank: "canon r \<in> blanks \<longleftrightarrow> r \<in> blanks"
  by (auto simp: blanks_def canon_def split: if_splits)

lemma in_class_space: "in_class True False [(9, 10), (12, 13), (32, 32)] r \<longleftrightarrow> r \<in> blanks"
  by (auto simp: in_class_def in_ranges_def orbit_def blanks_def split: if_splits)

lemma reads_lit: "reads (lit s) {map canon (asc s)}"
proof (induction s)
  case (Cons c s)
  have "reads (Class False [(of_char c, of_char c)]) {[canon (of_char c)]}"
    using forms_reads[of "Class False [(of_char c, of_char c)]"] by simp
  from reads_cat[OF this Cons] show ?case by (simp add: lit_def)
qed (simp add: reads_def lit_def)

lemma reads_space: "reads (star space) {k. set k \<subseteq> blanks}"
  by (auto simp: reads_def star_def space_def matches_star_class in_class_space list_all_iff canon_blank)

lemma reads_opt: "reads p L \<Longrightarrow> reads (opt p) (insert [] L)"
  by (auto simp: reads_def opt_def matches_opt)

lemma reads_seqs: "reads p L \<Longrightarrow> reads (seqs ps) M \<Longrightarrow> reads (seqs (p # ps)) {u @ v | u v. u \<in> L \<and> v \<in> M}"
  using reads_cat[of p L "seqs ps" M] by (simp add: seqs_def)

lemma reads_empty: "reads (seqs []) {[]}"
  by (simp add: reads_def)

abbreviation uhd_words :: "runes set" where
  "uhd_words \<equiv> {k @ [117, 104, 100] | k. set k \<subseteq> blanks}"

lemma reads_uhd: "reads (seqs [star space, lit ''UHD'']) uhd_words"
proof -
  have "map canon (asc ''UHD'') = [117, 104, 100]" by code_simp
  then show ?thesis using reads_seqs[OF reads_space reads_seqs[OF reads_lit reads_empty], of "''UHD''"] by simp
qed

lemma reads_4k: "reads (seqs [lit ''4K'', opt (seqs [star space, lit ''UHD''])]) ((@) [52, 107] ` insert [] uhd_words)"
proof -
  have letters: "map canon (asc ''4K'') = [52, 107]" by code_simp
  have words: "{u @ v | u v. u \<in> {[52, 107]} \<and> v \<in> {u @ v | u v. u \<in> M \<and> v \<in> {[]}}} = (@) [52, 107] ` M" for M :: "runes set"
    by auto
  show ?thesis
    using reads_seqs[OF reads_lit[of "''4K''"] reads_seqs[OF reads_opt[OF reads_uhd] reads_empty]]
    unfolding letters words .
qed

lemma uhd_clear: "no_longer uhd_words uhd_words"
proof -
  have cut: "takeWhile (\<lambda>r. r \<in> blanks) (k @ 117 # x) = k" if "set k \<subseteq> blanks" for k x
    using that by (subst takeWhile_append2) (auto simp: blanks_def)
  have uniq: "k = k'" if eq: "k' @ [117, 104, 100] = (k @ [117, 104, 100]) @ z" and k: "set k \<subseteq> blanks" "set k' \<subseteq> blanks" for k k' z
  proof -
    have "takeWhile (\<lambda>r. r \<in> blanks) (k' @ [117, 104, 100]) = takeWhile (\<lambda>r. r \<in> blanks) (k @ 117 # ([104, 100] @ z))"
      unfolding eq by simp
    then show ?thesis unfolding cut[OF k(1)] cut[OF k(2)] by (rule sym)
  qed
  have "u = v" if "u \<in> uhd_words" "v \<in> uhd_words" "v = u @ z" for u v z
  proof -
    from that(1,2) obtain k k' where k: "u = k @ [117, 104, 100]" "v = k' @ [117, 104, 100]" "set k \<subseteq> blanks" "set k' \<subseteq> blanks"
      by auto
    from uniq[of k' k z] k that(3) show ?thesis by simp
  qed
  then show ?thesis unfolding no_longer_def prefix_def by blast
qed

lemma longest_4k: "longest_first (seqs [lit ''4K'', opt (seqs [star space, lit ''UHD''])])"
proof -
  have "run True Empty = (\<lambda>st. [st])" by (rule ext) simp
  then have single: "run True (seqs [p]) st = run True p st" for p st by (simp add: seqs_def)
  have "longest_first (opt (seqs [star space, lit ''UHD'']))"
    by (rule longest_opt[OF longest_same[OF reads_uhd uhd_clear]])
  then show ?thesis by (intro longest_seqs) (simp add: longest_first_def single)
qed

lemma quality_reported: "reported quality_word s (first_match re_resolution s)"
proof -
  let ?hd = "seqs [lit ''4K'', opt (seqs [star space, lit ''UHD''])]"
    and ?full = "seqs [lit ''1080'', Class False [(112, 112), (105, 105)]]"
  let ?ps = "[lit ''2160p'', ?hd, ?full, lit ''720p'', lit ''576p'', lit ''480p'', lit ''360p'']"
  define words :: "runes set list" where "words = [{[50, 49, 54, 48, 112]}, (@) [52, 107] ` insert [] uhd_words,
    {[49, 48, 56, 48, 112], [49, 48, 56, 48, 105]}, {[55, 50, 48, 112]}, {[53, 55, 54, 112]}, {[52, 56, 48, 112]}, {[51, 54, 48, 112]}]"
  have pattern: "re_resolution = tag_pattern ?ps" by (simp only: re_resolution_def tag_pattern_def)
  have letters: "map canon (asc ''2160p'') = [50, 49, 54, 48, 112]" "map canon (asc ''720p'') = [55, 50, 48, 112]"
    "map canon (asc ''576p'') = [53, 55, 54, 112]" "map canon (asc ''480p'') = [52, 56, 48, 112]"
    "map canon (asc ''360p'') = [51, 54, 48, 112]" by code_simp+
  have full: "forms ?full = Some [[49, 48, 56, 48, 112], [49, 48, 56, 48, 105]]" by code_simp
  have same: "no_longer {u} {u}" for u by (simp add: no_longer_def)
  have lits: "longest_first (lit x)" for x by (rule longest_same[OF reads_lit same])
  have "longest_first ?full" by (rule longest_same[OF forms_reads[OF full]]) (simp add: no_longer_def)
  have "reported quality_word s (first_match (tag_pattern ?ps) s)"
  proof (rule first_match_reported)
    show "list_all2 reads ?ps words"
      using reads_4k forms_reads[OF full] reads_lit[of "''2160p''"] reads_lit[of "''720p''"] reads_lit[of "''576p''"]
        reads_lit[of "''480p''"] reads_lit[of "''360p''"]
      by (simp add: words_def canon_def)
    show "list_all longest_first ?ps" using longest_4k \<open>longest_first ?full\<close> lits by simp
    show "sorted_wrt no_longer words" by (auto simp: words_def no_longer_def)
    show "proper (alts ?ps)" by simp
    fix w
    have "map canon (asc ''4k'') = [52, 107]" "map canon (asc ''uhd'') = [117, 104, 100]" "map canon (asc ''1080p'') = [49, 48, 56, 48, 112]"
      "map canon (asc ''1080i'') = [49, 48, 56, 48, 105]" by code_simp+
    note spelled = this letters
    have ends: "same_letters u ''4k'' \<longleftrightarrow> map canon u = [52, 107]" "same_letters u ''uhd'' \<longleftrightarrow> map canon u = [117, 104, 100]" for u
      by (simp_all only: same_letters_def spelled)
    have long: "(\<exists>u k v. w = u @ k @ v \<and> same_letters u ''4k'' \<and> set k \<subseteq> blanks \<and> same_letters v ''uhd'') \<longleftrightarrow>
        map canon w \<in> (@) [52, 107] ` uhd_words"
    proof
      assume "\<exists>u k v. w = u @ k @ v \<and> same_letters u ''4k'' \<and> set k \<subseteq> blanks \<and> same_letters v ''uhd''"
      then obtain u k v where uv: "w = u @ k @ v" "same_letters u ''4k''" "set k \<subseteq> blanks" "same_letters v ''uhd''"
        by (elim exE conjE)
      note w = uv(1) uv(2)[unfolded ends] uv(3) uv(4)[unfolded ends]
      have "set (map canon k) \<subseteq> blanks" using w(3) by (auto simp: canon_blank)
      with w show "map canon w \<in> (@) [52, 107] ` uhd_words" by auto
    next
      assume "map canon w \<in> (@) [52, 107] ` uhd_words"
      then obtain k where k: "map canon w = [52, 107] @ k @ [117, 104, 100]" "set k \<subseteq> blanks" by auto
      from k(1)[unfolded map_eq_append_conv] obtain u y where u: "w = u @ y" "[52, 107] = map canon u"
        "map canon y = k @ [117, 104, 100]" by (elim exE conjE) (rule that; simp)
      from u(3)[unfolded map_eq_append_conv] obtain x v where x: "y = x @ v" "k = map canon x" "[117, 104, 100] = map canon v"
        by (elim exE conjE)
      note w = u(1)[unfolded x(1)] u(2)[symmetric] x(2)[symmetric] x(3)[symmetric]
      have "t \<in> blanks" if "t \<in> set x" for t
        using k(2) that unfolding x(2) by (subst canon_blank[symmetric]) auto
      then have "set x \<subseteq> blanks" by blast
      with w show "\<exists>u k v. w = u @ k @ v \<and> same_letters u ''4k'' \<and> set k \<subseteq> blanks \<and> same_letters v ''uhd''"
        unfolding ends by (intro exI conjI)
    qed
    show "quality_word w \<longleftrightarrow> map canon w \<in> \<Union> (set words)"
      unfolding quality_word_def long[unfolded blanks_def]
      by (auto simp: one_of_def same_letters_def words_def blanks_def canon_def)
  qed
  then show ?thesis by (simp only: pattern)
qed

text \<open>
  C14. The tags of a torrent are the words of its name. Quality, encoding, dynamic range and source are each the
  leftmost word of their kind in the cleaned name (separators made blanks, a site prefix dropped), that is one of
  the listed words in any mixture of upper and lower case, with a word edge before and behind it; where two such
  words start at the same place it is the longer one (WEB-DL and not WEB, 4K UHD and not 4K), and the tag is empty
  exactly when there is no such word.
\<close>

theorem tags_are_words:
  "let cleaned = remove_all re_www_site_prefix (normalize name); c = classify lower name fs total_size cfg in
   reported quality_word cleaned (cl_quality c) \<and> reported encoding_word cleaned (cl_encoding c) \<and>
   reported range_word cleaned (cl_dynamic_range c) \<and> reported source_word cleaned (cl_source c)"
  using quality_reported encoding_reported range_reported source_reported by (simp add: classify_def Let_def)

end
