(* ===== verification/Spec2Isabelle.thy ===== *)
theory Spec2Isabelle
  imports Start_Runs Scrape_Stats Serve Commands Index_Workers Tui_Correct Classify_Tags
begin

text \<open>
  A verification library for mgnx, a BitTorrent indexer written in Go: it joins the DHT, collects infohashes
  from other nodes, looks up their peers, fetches and classifies the metadata, keeps the counts of seeders
  up to date with the trackers and serves the result as a Torznab feed.

  The parts and their flow. The server (\<^verbatim>\<open>dht/server\<close>) answers and sends KRPC messages and owns the routing
  table (\<^verbatim>\<open>dht/table\<close>); the bootstrap fills the table; the crawler (\<^verbatim>\<open>dht/crawler\<close>) walks the network for
  infohashes and the discovery workers find their peers; the indexer (\<^verbatim>\<open>indexer\<close>) takes an infohash with
  peers, fetches the metadata (\<^verbatim>\<open>metadata\<close>), classifies it (\<^verbatim>\<open>classify\<close>) and writes the database (\<^verbatim>\<open>db\<close>); the
  scrape worker (\<^verbatim>\<open>scrape\<close>) asks trackers about stored torrents and moves them between states; the
  service (\<^verbatim>\<open>service\<close>, \<^verbatim>\<open>api\<close>) searches the database. \<^verbatim>\<open>cmd/serve.go\<close> starts them all.
\<close>

section \<open>Theories and code\<close>

text \<open>
  \<^item> \<open>Go_Prelude\<close>, \<open>Go_Text\<close>, \<open>Go_Heap\<close>, \<open>Go_Regexp\<close>, \<open>Float64\<close>: what the program uses of Go and its standard
    library: bytes, words, maps, channels, binary search; text as code points and UTF-8; \<^verbatim>\<open>container/heap\<close>;
    the regular expressions with their leftmost-first search; rounded arithmetic. The locale \<open>min_queue\<close> is
    the contract of a priority queue, discharged for the heaps of the crawler; \<open>Regexp_Correct\<close> proves the
    search of regular expressions sound and complete for their language.
  \<^item> \<open>Node_Id\<close>, \<open>Bucket\<close>, \<open>Routing_Table\<close>, \<open>Compact\<close> model \<^verbatim>\<open>dht/table\<close>; \<open>Table_Invariant\<close> has the invariant of
    the table (its buckets tile the keyspace, within capacity) and what every operation does.
  \<^item> \<open>Cache\<close> (\<^verbatim>\<open>pkg/cache\<close>), \<open>Dedup\<close> (\<^verbatim>\<open>dht/filter\<close>), \<open>Krpc\<close> (\<^verbatim>\<open>dht/krpc\<close>), \<open>Limiter\<close>, \<open>Token\<close>, \<open>Transaction\<close>,
    \<open>Peer_Store\<close>, \<open>Server\<close>, \<open>Bootstrap\<close> model \<^verbatim>\<open>dht/server\<close>; \<open>Server_Safety\<close> shows that a sequence of steps
    panics only in the metrics library and on the name of a query, that announcements need a valid token and are then
    found by \<^verbatim>\<open>get_peers\<close>, and that a reply is single and bounded.
  \<^item> \<open>Crawler\<close>, \<open>Discovery\<close> model \<^verbatim>\<open>dht/crawler\<close>; \<open>Crawler_Safety\<close> and \<open>Crawler_Effects\<close> have the invariants of a pass and
    the intervals, prunings and dropped samples.
  \<^item> \<open>Metadata\<close> models \<^verbatim>\<open>metadata/fetch.go\<close>: what a fetch returns has the requested SHA-1, and a peer that speaks
    the protocol is served.
  \<^item> \<open>Tracker\<close>, \<open>Tracker_Correct\<close> model \<^verbatim>\<open>scrape/client.go\<close>; \<open>Scrape_Worker\<close>, \<open>Scrape_Correct\<close> model \<^verbatim>\<open>scrape/worker.go\<close>
    on the database of \<open>Torrent_Db\<close> (\<^verbatim>\<open>db/gen\<close>), reached through the locales \<open>torrent_queries\<close> and \<open>live_queries\<close>.
  \<^item> \<open>Classify_Patterns\<close>, \<open>Classify\<close> model \<^verbatim>\<open>classify/classify.go\<close>, pattern by pattern; \<open>Classify_Correct\<close> and
    \<open>Classify_Names\<close> say when a torrent is accepted and where its title ends, \<open>Classify_Tags\<close> which words its tags are,
    stated without regular expressions.
  \<^item> \<open>Indexer\<close> models \<^verbatim>\<open>indexer/worker.go\<close> and \<^verbatim>\<open>indexer/index.go\<close>; \<open>Indexer_Correct\<close> and \<open>Reindex\<close> say what is stored
    and that a reclassification meets every torrent once.
  \<^item> \<open>Go_Url\<close>, \<open>Go_Ip\<close>: decimal numbers, UTF-8, the escapes of \<^verbatim>\<open>net/url\<close> and the addresses of \<^verbatim>\<open>net.ParseIP\<close>, with their
    round trips.
  \<^item> \<open>Search_Db\<close> adds the searches and edits of the API to the database (\<^verbatim>\<open>db/gen/torznab.sql.go\<close>, \<^verbatim>\<open>db/gen/api.sql.go\<close>);
    \<open>Db_Invariant\<close> makes the statements of all parts a step relation whose reachable databases meet the checks of
    the schema and whose typed arguments stay within the types of the columns; \<open>Storage\<close> shows that every run of indexer,
    reclassification, scraper and API is such statements (locale \<open>kept_by_statements\<close>) and stores nothing blocked.
  \<^item> \<open>Torznab\<close> models \<^verbatim>\<open>service\<close>; \<open>Api\<close> models the handlers and routes of \<^verbatim>\<open>api\<close> and the client \<^verbatim>\<open>pkg/torznab\<close>;
    \<open>Api_Correct\<close> is about feeds and paging, \<open>Api_Client\<close> about client and server together. What URL parser, router and
    redirects make of a path whose last segment is not plain is the parameter \<open>se_route\<close>.
  \<^item> \<open>Gluetun\<close> models \<^verbatim>\<open>gluetun\<close> and the part of \<^verbatim>\<open>cmd/serve.go\<close> that decides identity and port from its files.
  \<^item> \<open>Tui\<close>, \<open>Tui_App\<close> model \<^verbatim>\<open>tui\<close>: the views as functions from a message to a new state and commands; \<open>Tui_Safety\<close>
    runs them with commands that end in any order and shows that nothing panics; \<open>Tui_Correct\<close> puts the interface
    on the server and the database.
  \<^item> \<open>Table_Refresh\<close> and \<open>Server_Start\<close> have the start of the server: pings of a warm restart, bootstrap and the refresh of stale
    buckets, over the locale \<open>table_law\<close> of the facts about tables that every operation keeps; \<open>Start_Runs\<close> shows
    that a start is a run of the steps of the server.
  \<^item> \<open>Dht_System\<close> models \<^verbatim>\<open>dht/system.go\<close>: server, crawlers and discovery workers take turns on shared channels in any
    order, and nothing but the metrics library can panic.
  \<^item> \<open>Recorder\<close> models \<^verbatim>\<open>recorder\<close> over the metrics library: the metrics are registered once, and every call fits its metric.
    \<open>Scrape_Stats\<close> and \<open>Index_Workers\<close> add the loops of the scraper and the indexer and what they report.
  \<^item> \<open>Index_Job\<close> splits the processing of an event into the calls of the database it makes, between which other parts act.
  \<^item> \<open>Settings\<close> models \<^verbatim>\<open>config\<close> and the defaults of \<^verbatim>\<open>cmd/root.go\<close>; \<open>Program\<close> lets all parts run on one database and shows
    where every stored torrent comes from; \<open>Serve\<close> models the start in \<^verbatim>\<open>cmd/serve.go\<close>; \<open>Commands\<close> has the commands for
    node identifiers and the health checks.
\<close>

section \<open>How the model reads the code\<close>

text \<open>
  A Go struct is a record, an error a value of a sum or option type, and a panic an error too; integers are
  words where their width matters. State is passed explicitly, with the branches and early returns in the
  order of the code. Concurrency: what a lock protects is one step, a goroutine is its loop body, and
  statements about any order of events quantify over sequences of steps. Calls that run in parallel and
  are joined (the queries of a crawler batch, of a bootstrap round or of a lookup round) complete one after
  another in the model; the fetches of the indexer end in an arbitrary order that is a parameter. The code
  keeps pointers to nodes; the model keeps the nodes. A tick reads the clock once.
  In \<open>Program\<close> each call of the database that the indexer makes is a turn; the writes of one scrape tick, one dead
  detection and one reclassification are one turn each.

  Parameters stand for code outside the repository and for the environment: bencode, the Bloom filter, the
  rate limiter, the counters of the metrics library, random choices, the network, the answers of the database
  server beyond the statements themselves, full-text matching, and the table of Unicode lower case. Where
  a theorem relies on one of them its hypothesis names the documented behaviour, and a witness applies
  the theorem to a concrete instance.

  Termination. Loops are structural or well-founded recursions: the convergence loop of the bootstrap is bounded
  by the finitely many identifiers, the lookup of peers by its rounds, the message loops of a fetch by the
  bytes that arrive, the reclassification by the number of rows. The repetitions of \<open>Go_Regexp\<close> are bounded by the
  code points left, which \<open>Regexp_Correct\<close> proves to be enough for every pattern of the code. 400 normalisation
  steps in \<open>Float64\<close> cover the range of values the crawler computes.

  A fidelity check: the 95 test cases of \<^verbatim>\<open>classify/classify_test.go\<close> evaluate to the expected results on the model.
\<close>

section \<open>Not modelled\<close>

text \<open>
  Log output (\<^verbatim>\<open>logger\<close>), the HTTP listener of the metrics (\<^verbatim>\<open>metrics\<close>), the connection and the migrations of the database
  (\<^verbatim>\<open>db/connect.go\<close>, \<^verbatim>\<open>db/migrate.go\<close>), the definitions of the other commands and the generated mocks call libraries and have
  no logic of their own; \<open>Serve\<close> takes their results as arguments. The files of the configuration and the environment are
  read by viper, whose values are an argument of \<open>Settings\<close>; numbers that the code uses as sizes are taken not to be
  negative there. The router, the JSON and XML encoders, CORS and logging
  of \<^verbatim>\<open>api\<close> are libraries: the model ends at the values they are handed. The styles, widths and colours of the
  terminal interface are left out, and the text input and the spinner are library components.
\<close>

end
